(* ===== verification/Ecal_Prelude.thy ===== *)
theory Ecal_Prelude
  imports
    Main
    "HOL-Library.Word"
    "HOL-Library.List_Lexorder"
    "HOL-Library.Char_ord"
begin

text \<open>
  Shared vocabulary of the development: the machine integers of the C++ code, the collections
  of rewrite rules the component proofs share, and lemmas on words, lists and options that more
  than one component uses.

  \<^item> \<open>u16\<close>, \<open>u32\<close>, \<open>u64\<close> are the unsigned types (\<open>size_t\<close> and \<open>uint64_t\<close> are
    \<open>u64\<close>: a 64-bit build); \<open>i32\<close> and \<open>i64\<close> are the same words read with \<open>sint\<close>.
    A conversion between \<open>long long\<close> and \<open>size_t\<close> keeps the bits, so it is the identity here.
  \<^item> A time point of \<open>std::chrono::steady_clock\<close> is an \<open>int\<close> (nanoseconds); every
    operation of the code that reads a clock takes the value read as an argument.
\<close>

unbundle bit_operations_syntax

type_synonym u8 = "8 word"
type_synonym u16 = "16 word"
type_synonym u32 = "32 word"
type_synonym u64 = "64 word"
type_synonym i32 = "32 word"
type_synonym i64 = "64 word"
type_synonym time_point = int

named_theorems ecal_defs \<open>definitions of the small helpers that proofs unfold\<close>
named_theorems ecal_inv \<open>preservation of invariants by operations\<close>

subsection \<open>Words\<close>

lemma unat_add_nowrap:
  fixes a b :: u64
  assumes "unat a + unat b < 2 ^ 64"
  shows "unat (a + b) = unat a + unat b"
  using assms unat_add_lem [of a b] by simp

lemma unat_lt_u64 [simp]: "unat (x :: u64) < 18446744073709551616"
proof -
  have "unat x < 2 ^ LENGTH(64)" by (rule unsigned_less)
  then show ?thesis by simp
qed

lemma unat_minus_1_u64 [simp]: "unat (- 1 :: u64) = 18446744073709551615"
  by (simp add: unsigned_minus_1_eq_mask mask_eq_exp_minus_1)

lemma word_of_nat_add_sub:
  fixes b v :: u64
  assumes "b \<le> v"
  shows "b + word_of_nat (unat (v - b)) = v"
  by simp

lemma unat_offset:
  fixes b v :: u64
  assumes "b \<le> v"
  shows "unat (v - b) = unat v - unat b"
  using assms by (rule unat_sub)

lemma unat_base_plus:
  fixes b :: u64
  assumes "unat b + n < 2 ^ 64"
  shows "unat (b + word_of_nat n) = unat b + n"
proof -
  have "unat (word_of_nat n :: u64) = n"
    using assms by (simp add: unat_of_nat)
  then show ?thesis using assms by (simp add: unat_add_nowrap)
qed

lemma ucast_m1: "ucast (- 1 :: u64) = (- 1 :: i32)"
  by (rule bit_word_eqI) (simp add: bit_unsigned_iff)

subsection \<open>Lists\<close>

lemma sorted_wrt_map_filter:
  "sorted_wrt P (map f xs) \<Longrightarrow> sorted_wrt P (map f (filter Q xs))"
  by (induction xs) auto

lemma takeWhile_eq_filter_sorted:
  shows "sorted (map f xs) \<Longrightarrow> takeWhile (\<lambda>x. f x < (l :: int)) xs = filter (\<lambda>x. f x < l) xs"
proof (induction xs)
  case (Cons x xs)
  show ?case
  proof (cases "f x < l")
    case False
    with Cons.prems have "\<forall>y \<in> set xs. \<not> f y < l" by auto
    with False show ?thesis by (simp add: filter_empty_conv)
  qed (use Cons in auto)
qed simp

lemma dropWhile_eq_filter_sorted:
  shows "sorted (map f xs) \<Longrightarrow> dropWhile (\<lambda>x. f x < (l :: int)) xs = filter (\<lambda>x. \<not> f x < l) xs"
proof (induction xs)
  case (Cons x xs)
  show ?case
  proof (cases "f x < l")
    case False
    with Cons.prems have "\<forall>y \<in> set xs. \<not> f y < l" by auto
    with False show ?thesis by simp
  qed (use Cons in auto)
qed simp

subsection \<open>Numbers as text\<close>

definition str_digit :: "nat \<Rightarrow> char" where
  "str_digit d = (if d < 10 then char_of (48 + d) else char_of (87 + d))"

fun str_nat :: "nat \<Rightarrow> nat \<Rightarrow> string" where
  "str_nat b n = (if b < 2 \<or> n < b then [str_digit n] else str_nat b (n div b) @ [str_digit (n mod b)])"

declare str_nat.simps [simp del]

text \<open>\<open>std::to_string\<close> of a signed integer.\<close>

definition str_int :: "int \<Rightarrow> string" where
  "str_int i = (if i < 0 then CHR ''-'' # str_nat 10 (nat (- i)) else str_nat 10 (nat i))"

end
