(* ===== verification/Std_Map.thy ===== *)
theory Std_Map
  imports Ecal_Prelude
begin

text \<open>
  \<open>std::map<Key, T>\<close> of the C++ standard library: an association list kept strictly sorted by
  the order of the keys, so that iteration (which the code relies on) is the list itself. The
  comparison of the key type is given by a projection \<open>pr\<close> into a linear order: \<open>id\<close> for
  numbers and strings, \<open>si_entity_id\<close> for \<open>SampleIdentifier\<close>, whose \<open>operator<\<close> looks at
  one field only. As in C++, storing to a key that is present keeps the key object stored first.

  The interface the components use is the locale \<open>ordered_map\<close>; it is interpreted on the
  association list below, and the components use the facts \<open>om.<name>\<close>.
\<close>

subsection \<open>The interface\<close>

locale ordered_map =
  fixes find :: "'m \<Rightarrow> 'k \<Rightarrow> 'v option"
    and set_at :: "'m \<Rightarrow> 'k \<Rightarrow> 'v \<Rightarrow> 'm"
    and erase :: "'m \<Rightarrow> 'k \<Rightarrow> 'm"
    and same :: "'k \<Rightarrow> 'k \<Rightarrow> bool"
    and emp :: 'm
    and invar :: "'m \<Rightarrow> bool"
  assumes find_emp: "find emp k = None"
    and find_set_at: "invar m \<Longrightarrow> find (set_at m k v) k' = (if same k k' then Some v else find m k')"
    and find_erase: "invar m \<Longrightarrow> find (erase m k) k' = (if same k k' then None else find m k')"
    and invar_emp: "invar emp"
    and invar_set_at: "invar m \<Longrightarrow> invar (set_at m k v)"
    and invar_erase: "invar m \<Longrightarrow> invar (erase m k)"
    and same_equiv: "equivp same"
begin

lemma same_refl: "same k k"
  using same_equiv by (rule equivp_reflp)

lemma same_sym: "same k k' \<Longrightarrow> same k' k"
  using same_equiv by (rule equivp_symp)

lemma find_set_same: "invar m \<Longrightarrow> find (set_at m k v) k = Some v"
  by (simp add: find_set_at same_refl)

lemma find_erase_same: "invar m \<Longrightarrow> find (erase m k) k = None"
  by (simp add: find_erase same_refl)

lemma find_set_other: "invar m \<Longrightarrow> \<not> same k k' \<Longrightarrow> find (set_at m k v) k' = find m k'"
  by (simp add: find_set_at)

lemma find_erase_set: "invar m \<Longrightarrow> find (erase (set_at m k v) k) k' = find (erase m k) k'"
  by (simp add: find_set_at find_erase invar_set_at)

lemma find_set_set: "invar m \<Longrightarrow> find (set_at (set_at m k v) k w) k' = find (set_at m k w) k'"
  by (simp add: find_set_at invar_set_at)

text \<open>Any sequence of stores leaves the value of the last store to a key.\<close>

lemma find_fold_set:
  "invar m \<Longrightarrow> find (foldl (\<lambda>m (k, v). set_at m k v) m (kvs @ [(k, v)])) k = Some v"
proof -
  assume "invar m"
  then have "invar (foldl (\<lambda>m (k, v). set_at m k v) m kvs)"
    by (induction kvs arbitrary: m) (auto simp: invar_set_at)
  then show ?thesis by (simp add: find_set_same)
qed

end

subsection \<open>The association list\<close>

type_synonym ('k, 'v) omap = "('k \<times> 'v) list"

definition om_keys :: "('k \<Rightarrow> 'o) \<Rightarrow> ('k, 'v) omap \<Rightarrow> 'o list" where
  "om_keys pr m = map (pr \<circ> fst) m"

definition om_invar :: "('k \<Rightarrow> 'o::linorder) \<Rightarrow> ('k, 'v) omap \<Rightarrow> bool" where
  "om_invar pr m \<longleftrightarrow> sorted_wrt (<) (om_keys pr m)"

fun om_find :: "('k \<Rightarrow> 'o::linorder) \<Rightarrow> ('k, 'v) omap \<Rightarrow> 'k \<Rightarrow> 'v option" where
  "om_find pr [] k = None"
| "om_find pr ((k', v) # m) k = (if pr k' = pr k then Some v else om_find pr m k)"

fun om_set :: "('k \<Rightarrow> 'o::linorder) \<Rightarrow> ('k, 'v) omap \<Rightarrow> 'k \<Rightarrow> 'v \<Rightarrow> ('k, 'v) omap" where
  "om_set pr [] k v = [(k, v)]"
| "om_set pr ((k', w) # m) k v =
     (if pr k' = pr k then (k', v) # m
      else if pr k < pr k' then (k, v) # (k', w) # m
      else (k', w) # om_set pr m k v)"

fun om_erase :: "('k \<Rightarrow> 'o::linorder) \<Rightarrow> ('k, 'v) omap \<Rightarrow> 'k \<Rightarrow> ('k, 'v) omap" where
  "om_erase pr [] k = []"
| "om_erase pr ((k', v) # m) k = (if pr k' = pr k then m else (k', v) # om_erase pr m k)"

text \<open>\<open>emplace\<close> and \<open>insert\<close>: no effect when the key is present.\<close>

definition om_emplace :: "('k \<Rightarrow> 'o::linorder) \<Rightarrow> ('k, 'v) omap \<Rightarrow> 'k \<Rightarrow> 'v \<Rightarrow> ('k, 'v) omap" where
  "om_emplace pr m k v = (case om_find pr m k of None \<Rightarrow> om_set pr m k v | Some _ \<Rightarrow> m)"

text \<open>\<open>operator[]\<close> used as a reference: a missing key is inserted with the default value \<open>d\<close>.\<close>

definition om_access :: "('k \<Rightarrow> 'o::linorder) \<Rightarrow> ('k, 'v) omap \<Rightarrow> 'k \<Rightarrow> 'v \<Rightarrow> 'v \<times> ('k, 'v) omap" where
  "om_access pr m k d = (case om_find pr m k of Some v \<Rightarrow> (v, m) | None \<Rightarrow> (d, om_set pr m k d))"

lemma om_keys_Cons [simp]: "om_keys pr ((k, v) # m) = pr k # om_keys pr m"
  by (simp add: om_keys_def)

lemma om_keys_Nil [simp]: "om_keys pr [] = []"
  by (simp add: om_keys_def)

lemma om_find_None_iff: "om_find pr m k = None \<longleftrightarrow> pr k \<notin> set (om_keys pr m)"
  by (induction pr m k rule: om_find.induct) auto

lemma om_find_cong: "pr k = pr k' \<Longrightarrow> om_find pr m k = om_find pr m k'"
  by (induction pr m k rule: om_find.induct) auto

lemma om_keys_set: "set (om_keys pr (om_set pr m k v)) = insert (pr k) (set (om_keys pr m))"
  by (induction pr m k v rule: om_set.induct) auto

lemma om_invar_set: "om_invar pr m \<Longrightarrow> om_invar pr (om_set pr m k v)"
  by (induction pr m k v rule: om_set.induct) (auto simp: om_invar_def om_keys_set)

lemma om_keys_erase: "set (om_keys pr (om_erase pr m k)) \<subseteq> set (om_keys pr m)"
  by (induction pr m k rule: om_erase.induct) auto

lemma om_invar_erase: "om_invar pr m \<Longrightarrow> om_invar pr (om_erase pr m k)"
  by (induction pr m k rule: om_erase.induct) (use om_keys_erase in \<open>fastforce simp: om_invar_def\<close>)+

lemma om_find_set: "om_find pr (om_set pr m k v) k' = (if pr k = pr k' then Some v else om_find pr m k')"
  by (induction pr m k v rule: om_set.induct) auto

lemma om_find_erase:
  "om_invar pr m \<Longrightarrow> om_find pr (om_erase pr m k) k' = (if pr k = pr k' then None else om_find pr m k')"
proof (induction m)
  case (Cons e m)
  obtain k0 v0 where e: "e = (k0, v0)" by (cases e)
  have "om_find pr m k' = None" if "pr k0 = pr k'"
    using Cons.prems that by (auto simp: om_invar_def om_find_None_iff e)
  then show ?case using Cons by (auto simp: om_invar_def e)
qed simp

lemma om_find_erase_other: "pr k \<noteq> pr k' \<Longrightarrow> om_find pr (om_erase pr m k) k' = om_find pr m k'"
  by (induction m) auto

interpretation om: ordered_map "om_find pr" "om_set pr" "om_erase pr"
  "\<lambda>k k'. pr k = pr k'" "[]" "om_invar pr"
  for pr :: "'k \<Rightarrow> 'o::linorder"
  by unfold_locales
    (auto simp: om_find_set om_find_erase om_invar_set om_invar_erase
      intro!: equivpI reflpI sympI transpI, simp add: om_invar_def)

lemma om_find_emplace:
  "om_find pr (om_emplace pr m k v) k' =
     (if om_find pr m k = None \<and> pr k = pr k' then Some v else om_find pr m k')"
  by (auto simp: om_emplace_def om_find_set split: option.splits)

lemma om_invar_emplace: "om_invar pr m \<Longrightarrow> om_invar pr (om_emplace pr m k v)"
  by (simp add: om_emplace_def om_invar_set split: option.splits)

lemma om_find_access:
  "om_find pr (snd (om_access pr m k d)) k' =
     (if pr k = pr k' \<and> om_find pr m k = None then Some d else om_find pr m k')"
  by (auto simp: om_access_def om_find_set split: option.splits)

lemma om_find_access':
  "om_find pr (snd (om_access pr m k d)) k' =
     (if pr k = pr k' \<and> om_find pr m k' = None then Some d else om_find pr m k')"
  using om_find_cong [of pr k k' m] by (auto simp: om_find_access)

lemma om_invar_access: "om_invar pr m \<Longrightarrow> om_invar pr (snd (om_access pr m k d))"
  by (simp add: om_access_def om_invar_set split: option.splits)

lemma om_find_in_set: "om_find pr m k = Some v \<Longrightarrow> \<exists>k'. pr k' = pr k \<and> (k', v) \<in> set m"
  by (induction pr m k rule: om_find.induct) (auto split: if_splits)

lemma om_find_mem: "om_invar pr m \<Longrightarrow> (k, v) \<in> set m \<Longrightarrow> om_find pr m k = Some v"
proof (induction m)
  case (Cons e m)
  obtain k0 v0 where e: "e = (k0, v0)" by (cases e)
  show ?case
  proof (cases "(k, v) = e")
    case False
    then have m: "(k, v) \<in> set m" using Cons.prems by simp
    then have "pr k \<in> set (om_keys pr m)" by (force simp: om_keys_def)
    then have "pr k0 < pr k" using Cons.prems e by (auto simp: om_invar_def)
    then show ?thesis using Cons m e by (auto simp: om_invar_def)
  qed (simp add: e)
qed simp

lemma om_map_vals: "om_find pr (map (\<lambda>(k, v). (k, f v)) m) k = map_option f (om_find pr m k)"
  by (induction pr m k rule: om_find.induct) auto

lemma om_keys_map_vals: "om_keys pr (map (\<lambda>(k, v). (k, f k v)) m) = om_keys pr m"
  by (induction m) auto

lemma om_length_erase:
  "om_find pr m k \<noteq> None \<Longrightarrow> Suc (length (om_erase pr m k)) = length m"
  by (induction pr m k rule: om_erase.induct) (auto split: if_splits)

lemma om_erase_absent: "om_find pr m k = None \<Longrightarrow> om_erase pr m k = m"
  by (induction pr m k rule: om_erase.induct) (auto split: if_splits)

lemmas om_simps = om_find_set om_find_emplace om_find_access om.find_emp
lemmas om_invars = om_invar_set om_invar_erase om_invar_emplace om_invar_access om.invar_emp

declare om_invars [simp, intro]

subsection \<open>std::set\<close>

text \<open>\<open>std::set<T>\<close>, ordered by \<open>pr\<close>: an element equivalent to one present is not inserted.\<close>

type_synonym 'a oset = "('a, unit) omap"

definition os_insert :: "('a \<Rightarrow> 'o::linorder) \<Rightarrow> 'a oset \<Rightarrow> 'a \<Rightarrow> 'a oset" where
  "os_insert pr s x = om_emplace pr s x ()"

definition os_elems :: "'a oset \<Rightarrow> 'a list" where
  "os_elems s = map fst s"

definition os_of_list :: "('a \<Rightarrow> 'o::linorder) \<Rightarrow> 'a list \<Rightarrow> 'a oset" where
  "os_of_list pr xs = foldl (os_insert pr) [] xs"

definition os_mem :: "('a \<Rightarrow> 'o::linorder) \<Rightarrow> 'a oset \<Rightarrow> 'a \<Rightarrow> bool" where
  "os_mem pr s x \<longleftrightarrow> om_find pr s x \<noteq> None"

lemma om_set_new_elems: "om_find pr m k = None \<Longrightarrow> set (om_set pr m k v) = insert (k, v) (set m)"
  by (induction pr m k v rule: om_set.induct) (auto split: if_splits)

lemma os_insert_elems:
  "set (os_elems (os_insert pr s x)) = (if om_find pr s x = None then insert x (set (os_elems s)) else set (os_elems s))"
  by (auto simp: os_insert_def os_elems_def om_emplace_def om_set_new_elems split: option.splits)

text \<open>A set filled with elements of different keys has exactly these elements.\<close>

lemma os_fold_elems:
  assumes "distinct (map pr xs)" "\<forall>x \<in> set xs. om_find pr s x = None"
  shows "set (os_elems (foldl (os_insert pr) s xs)) = set (os_elems s) \<union> set xs"
  using assms
proof (induction xs arbitrary: s)
  case (Cons x xs)
  have "\<forall>y \<in> set xs. om_find pr (os_insert pr s x) y = None"
    using Cons.prems by (auto simp: os_insert_def om_find_emplace)
  then show ?case using Cons by (simp add: os_insert_elems)
qed simp

lemma os_of_list_elems: "distinct (map pr xs) \<Longrightarrow> set (os_elems (os_of_list pr xs)) = set xs"
  unfolding os_of_list_def by (subst os_fold_elems) (simp_all add: os_elems_def)

end
