(* ===== verification/Counter_Cache.thy ===== *)
theory Counter_Cache
  imports Std_Map
begin

text \<open>
  \<open>ecal/core/src/util/counter_cache.h\<close>: the sliding window of message counters a subscriber
  keeps per publisher. \<open>bitset_window\<close> is \<open>BitsetWindow\<close>, \<open>counter_cache\<close> is
  \<open>CounterCache\<close>. The template parameter \<open>WINDOW_SIZE\<close> is the argument \<open>W\<close>. The
  \<open>std::bitset\<close> is a list of \<open>W\<close> booleans.
\<close>

subsection \<open>BitsetWindow\<close>

record bitset_window =
  bw_bits :: "bool list"
  bw_base :: u64

definition bw_new :: "u64 \<Rightarrow> u64 \<Rightarrow> bitset_window" where
  "bw_new W b = \<lparr>bw_bits = replicate (unat W) False, bw_base = b\<rparr>"

definition bw_Compare :: "u64 \<Rightarrow> bitset_window \<Rightarrow> u64 \<Rightarrow> int" where
  "bw_Compare W w v =
     (if v < bw_base w then -1 else if bw_base w + W \<le> v then 1 else 0)"

definition bw_Contains :: "u64 \<Rightarrow> bitset_window \<Rightarrow> u64 \<Rightarrow> bool" where
  "bw_Contains W w v \<longleftrightarrow> bw_Compare W w v = 0"

definition bw_Clear :: "u64 \<Rightarrow> bitset_window \<Rightarrow> u64 \<Rightarrow> bitset_window" where
  "bw_Clear W w b = w\<lparr>bw_bits := replicate (unat W) False, bw_base := b\<rparr>"

definition bw_GetOffset :: "bitset_window \<Rightarrow> u64 \<Rightarrow> u64" where
  "bw_GetOffset w v = v - bw_base w"

definition bw_Has :: "u64 \<Rightarrow> bitset_window \<Rightarrow> u64 \<Rightarrow> bool" where
  "bw_Has W w v \<longleftrightarrow> bw_Contains W w v \<and> bw_bits w ! unat (bw_GetOffset w v)"

definition bw_Set :: "u64 \<Rightarrow> bitset_window \<Rightarrow> u64 \<Rightarrow> bitset_window" where
  "bw_Set W w v =
     (if bw_Contains W w v then w\<lparr>bw_bits := (bw_bits w)[unat (bw_GetOffset w v) := True]\<rparr>
      else w)"

text \<open>\<open>operator<(value, window)\<close> and \<open>operator>(value, window)\<close>.\<close>

definition bw_below :: "u64 \<Rightarrow> bitset_window \<Rightarrow> u64 \<Rightarrow> bool" where
  "bw_below W w v \<longleftrightarrow> bw_Compare W w v < 0"

definition bw_above :: "u64 \<Rightarrow> bitset_window \<Rightarrow> u64 \<Rightarrow> bool" where
  "bw_above W w v \<longleftrightarrow> bw_Compare W w v > 0"

subsection \<open>CounterCache\<close>

record counter_cache =
  cc_current_base :: u64
  cc_current :: bitset_window
  cc_previous :: bitset_window
  cc_next :: bitset_window
  cc_max_seen :: u64
  cc_registered :: bool

datatype counter_in_cache = InCacheTrue | InCacheFalse | InCacheUnsure

definition cc_new :: "u64 \<Rightarrow> counter_cache" where
  "cc_new W = \<lparr>cc_current_base = W, cc_current = bw_new W W, cc_previous = bw_new W (W - W),
     cc_next = bw_new W (W + W), cc_max_seen = 0, cc_registered = False\<rparr>"

definition cc_HasCounter :: "u64 \<Rightarrow> counter_cache \<Rightarrow> u64 \<Rightarrow> counter_in_cache" where
  "cc_HasCounter W c v =
     (if \<not> cc_registered c then InCacheFalse
      else if v > cc_max_seen c then InCacheFalse
      else if bw_below W (cc_previous c) v then InCacheUnsure
      else if bw_Has W (cc_current c) v \<or> bw_Has W (cc_previous c) v then InCacheTrue
      else InCacheFalse)"

definition cc_IsMonotonic :: "counter_cache \<Rightarrow> u64 \<Rightarrow> bool" where
  "cc_IsMonotonic c v = (if \<not> cc_registered c then True else v > cc_max_seen c)"

definition cc_ShiftOne :: "u64 \<Rightarrow> counter_cache \<Rightarrow> u64 \<Rightarrow> counter_cache" where
  "cc_ShiftOne W c v =
     (let cb = cc_current_base c + W;
          prev = cc_current c;
          curr = cc_next c;
          nxt = bw_Clear W (cc_next c) (cb + W)
      in c\<lparr>cc_current_base := cb, cc_previous := prev, cc_current := bw_Set W curr v,
           cc_next := nxt\<rparr>)"

definition cc_Reset :: "u64 \<Rightarrow> counter_cache \<Rightarrow> u64 \<Rightarrow> counter_cache" where
  "cc_Reset W c v =
     (let cb = v div W * W
      in c\<lparr>cc_current_base := cb, cc_current := bw_Set W (bw_new W cb) v,
           cc_previous := bw_new W (cb - W), cc_next := bw_new W (cb + W)\<rparr>)"

definition cc_SetCounter :: "u64 \<Rightarrow> counter_cache \<Rightarrow> u64 \<Rightarrow> counter_cache" where
  "cc_SetCounter W c0 v =
     (let c = c0\<lparr>cc_registered := True, cc_max_seen := max (cc_max_seen c0) v\<rparr>
      in if bw_below W (cc_previous c) v then c
         else if bw_Contains W (cc_current c) v then c\<lparr>cc_current := bw_Set W (cc_current c) v\<rparr>
         else if bw_Contains W (cc_previous c) v then c\<lparr>cc_previous := bw_Set W (cc_previous c) v\<rparr>
         else if bw_Contains W (cc_next c) v then cc_ShiftOne W c v
         else cc_Reset W c v)"

text \<open>The state after a sequence of registrations.\<close>

definition cc_run :: "u64 \<Rightarrow> u64 list \<Rightarrow> counter_cache" where
  "cc_run W vs = foldl (cc_SetCounter W) (cc_new W) vs"


subsection \<open>What a window stores\<close>

text \<open>
  \<open>bw_holds W S b w\<close>: the window \<open>w\<close> starts at \<open>b\<close> and its bits say exactly which
  of the \<open>W\<close> values from \<open>b\<close> on are in \<open>S\<close>.
\<close>

definition bw_holds :: "u64 \<Rightarrow> u64 set \<Rightarrow> u64 \<Rightarrow> bitset_window \<Rightarrow> bool" where
  "bw_holds W S b w \<longleftrightarrow> bw_base w = b \<and> length (bw_bits w) = unat W \<and>
     (\<forall>i < unat W. bw_bits w ! i \<longleftrightarrow> b + word_of_nat i \<in> S)"

definition in_window :: "u64 \<Rightarrow> u64 \<Rightarrow> u64 \<Rightarrow> bool" where
  "in_window W b v \<longleftrightarrow> unat b \<le> unat v \<and> unat v < unat b + unat W"

lemma bw_Contains_iff:
  assumes "unat (bw_base w) + unat W < 2 ^ 64"
  shows "bw_Contains W w v \<longleftrightarrow> in_window W (bw_base w) v"
  using assms
  by (auto simp: bw_Contains_def bw_Compare_def in_window_def word_less_nat_alt
      word_le_nat_alt unat_add_nowrap)

lemma bw_below_iff: "bw_below W w v \<longleftrightarrow> v < bw_base w"
  by (simp add: bw_below_def bw_Compare_def)

lemma window_offset:
  assumes "in_window W b v"
  shows "unat (v - b) < unat W" and "b + word_of_nat (unat (v - b)) = v"
  using assms by (auto simp: in_window_def unat_offset word_le_nat_alt)

lemma bw_Has_iff:
  assumes "bw_holds W S b w" and "unat b + unat W < 2 ^ 64"
  shows "bw_Has W w v \<longleftrightarrow> in_window W b v \<and> v \<in> S"
proof -
  have [simp]: "bw_base w = b" using assms(1) by (simp add: bw_holds_def)
  have C: "bw_Contains W w v \<longleftrightarrow> in_window W b v"
    using assms(2) by (simp add: bw_Contains_iff)
  show ?thesis
  proof (cases "in_window W b v")
    case True
    then show ?thesis using assms(1) window_offset [OF True]
      by (auto simp: bw_Has_def C bw_GetOffset_def bw_holds_def)
  qed (simp add: bw_Has_def C)
qed

lemma bw_holds_Set:
  assumes H: "bw_holds W S b w" and B: "unat b + unat W < 2 ^ 64"
  shows "bw_holds W (insert v S) b (bw_Set W w v)"
proof -
  have base: "bw_base w = b" using H by (simp add: bw_holds_def)
  have C: "bw_Contains W w v \<longleftrightarrow> in_window W b v"
    using B base by (simp add: bw_Contains_iff)
  have inj: "b + word_of_nat i = v \<longleftrightarrow> i = unat (v - b)"
    if "in_window W b v" "i < unat W" for i
  proof
    assume "b + word_of_nat i = v"
    moreover have "unat (b + word_of_nat i :: u64) = unat b + i"
      using that(2) B by (intro unat_base_plus) simp
    ultimately show "i = unat (v - b)"
      using that(1) by (auto simp: in_window_def unat_offset word_le_nat_alt)
  qed (use that window_offset in auto)
  have out: "b + word_of_nat i \<noteq> v" if "\<not> in_window W b v" "i < unat W" for i
  proof
    assume "b + word_of_nat i = v"
    moreover have "unat (b + word_of_nat i :: u64) = unat b + i"
      using that(2) B by (intro unat_base_plus) simp
    ultimately show False using that by (auto simp: in_window_def)
  qed
  show ?thesis
    using H inj out window_offset(1) [of W b v]
    by (auto simp: bw_holds_def bw_Set_def C bw_GetOffset_def nth_list_update)
qed

lemma bw_holds_new:
  assumes "\<And>v. v \<in> S \<Longrightarrow> \<not> in_window W b v" and "unat b + unat W < 2 ^ 64"
  shows "bw_holds W S b (bw_new W b)"
proof -
  have "b + word_of_nat i \<notin> S" if "i < unat W" for i
  proof -
    have "unat (b + word_of_nat i :: u64) = unat b + i"
      using that assms(2) by (intro unat_base_plus) simp
    then have "in_window W b (b + word_of_nat i)" using that by (simp add: in_window_def)
    then show ?thesis using assms(1) by blast
  qed
  then show ?thesis by (simp add: bw_holds_def bw_new_def)
qed

lemma bw_Clear_new: "bw_Clear W w b = bw_new W b"
  by (simp add: bw_Clear_def bw_new_def)

subsection \<open>The cache as a set of counters\<close>

text \<open>
  \<open>cc_inv W S c\<close>: the cache \<open>c\<close> is what registering the counters of \<open>S\<close> leaves. The two
  windows \<open>[cb - W, cb)\<close> and \<open>[cb, cb + W)\<close> are exact, nothing of \<open>S\<close> lies above them, and
  \<open>max_seen\<close> is the maximum of \<open>S\<close>.
\<close>

definition cc_inv :: "u64 \<Rightarrow> u64 set \<Rightarrow> counter_cache \<Rightarrow> bool" where
  "cc_inv W S c \<longleftrightarrow>
     0 < unat W \<and> unat W \<le> unat (cc_current_base c) \<and>
     unat W dvd unat (cc_current_base c) \<and>
     unat (cc_current_base c) + 2 * unat W < 2 ^ 64 \<and>
     bw_holds W S (cc_current_base c) (cc_current c) \<and>
     bw_holds W S (cc_current_base c - W) (cc_previous c) \<and>
     bw_holds W {} (cc_current_base c + W) (cc_next c) \<and>
     (cc_registered c \<longleftrightarrow> S \<noteq> {}) \<and>
     (S = {} \<longrightarrow> cc_max_seen c = 0) \<and> (S \<noteq> {} \<longrightarrow> cc_max_seen c \<in> S) \<and>
     (\<forall>v \<in> S. v \<le> cc_max_seen c) \<and>
     unat (cc_max_seen c) < unat (cc_current_base c) + unat W \<and>
     (cc_current_base c = W \<or> cc_current_base c \<le> cc_max_seen c)"

lemma bw_holds_cong:
  assumes "bw_holds W S b w" and "unat b + unat W < 2 ^ 64"
    and "\<And>v. in_window W b v \<Longrightarrow> v \<in> S \<longleftrightarrow> v \<in> T"
  shows "bw_holds W T b w"
proof -
  have "in_window W b (b + word_of_nat i)" if "i < unat W" for i
    using that assms(2) unat_base_plus [of b i] by (simp add: in_window_def)
  then show ?thesis using assms(1,3) by (simp add: bw_holds_def)
qed

lemma bw_holds_out:
  assumes "bw_holds W S b w" and "unat b + unat W < 2 ^ 64" and "\<not> in_window W b v"
  shows "bw_holds W (insert v S) b w"
  using assms(1,2) by (rule bw_holds_cong) (use assms(3) in auto)

lemma unat_div_mult:
  fixes v W :: u64
  shows "unat (v div W * W) = unat v div unat W * unat W"
proof -
  have le: "unat v div unat W * unat W \<le> unat v" by simp
  also have "\<dots> < 2 ^ 64" using unat_lt_u64 [of v] by simp
  finally have "unat (v div W) * unat W < 2 ^ LENGTH(64)"
    by (simp add: unat_div_distrib)
  then show ?thesis by (simp add: unat_mult_lem [THEN iffD1] unat_div_distrib)
qed

lemma cc_inv_new:
  assumes "0 < unat W" and "3 * unat W < 2 ^ 64"
  shows "cc_inv W {} (cc_new W)"
proof -
  have "unat (W + W) = 2 * unat W" using assms by (subst unat_add_nowrap) auto
  then show ?thesis using assms
    by (auto simp: cc_inv_def cc_new_def intro!: bw_holds_new)
qed

lemma cc_invD:
  assumes "cc_inv W S c"
  shows "0 < unat W" "unat W \<le> unat (cc_current_base c)"
      "unat (cc_current_base c) + 2 * unat W < 2 ^ 64"
    and "bw_holds W S (cc_current_base c) (cc_current c)"
      "bw_holds W S (cc_current_base c - W) (cc_previous c)"
      "bw_holds W {} (cc_current_base c + W) (cc_next c)"
    and "unat (cc_current_base c - W) = unat (cc_current_base c) - unat W"
      "unat (cc_current_base c + W) = unat (cc_current_base c) + unat W"
    and "\<And>x. x \<in> S \<Longrightarrow> unat x < unat (cc_current_base c) + unat W"
      "unat (cc_max_seen c) < unat (cc_current_base c) + unat W"
      "unat W dvd unat (cc_current_base c)"
      "cc_current_base c = W \<or> cc_current_base c \<le> cc_max_seen c"
  using assms
  by (fastforce simp: cc_inv_def bw_holds_def unat_add_nowrap unat_offset word_le_nat_alt)+

lemma cc_inv_window:
  assumes "cc_inv W S c"
  shows "bw_Contains W (cc_current c) v \<longleftrightarrow> in_window W (cc_current_base c) v"
    and "bw_Contains W (cc_previous c) v \<longleftrightarrow> in_window W (cc_current_base c - W) v"
    and "bw_Contains W (cc_next c) v \<longleftrightarrow> in_window W (cc_current_base c + W) v"
    and "bw_below W (cc_previous c) v \<longleftrightarrow> v < cc_current_base c - W"
  using cc_invD [OF assms] bw_Contains_iff [of "cc_current c" W v]
    bw_Contains_iff [of "cc_previous c" W v] bw_Contains_iff [of "cc_next c" W v]
  by (auto simp: bw_below_iff bw_holds_def)

text \<open>The bookkeeping \<open>SetCounter\<close> does before it looks at the windows.\<close>

definition cc_touch :: "counter_cache \<Rightarrow> u64 \<Rightarrow> counter_cache" where
  "cc_touch c v = c\<lparr>cc_registered := True, cc_max_seen := max (cc_max_seen c) v\<rparr>"

lemma cc_max_insert:
  assumes "cc_inv W S c"
  shows "max (cc_max_seen c) v \<in> insert v S" "\<forall>x \<in> insert v S. x \<le> max (cc_max_seen c) v"
    "unat (max (cc_max_seen c) v) = max (unat (cc_max_seen c)) (unat v)"
proof -
  have S: "S \<noteq> {} \<longrightarrow> cc_max_seen c \<in> S" "\<forall>x \<in> S. x \<le> cc_max_seen c"
    "S = {} \<longrightarrow> cc_max_seen c = 0"
    using assms by (auto simp: cc_inv_def)
  then show "max (cc_max_seen c) v \<in> insert v S"
    by (cases "S = {}") (auto simp: max_def)
  show "\<forall>x \<in> insert v S. x \<le> max (cc_max_seen c) v"
    using S(2) by (auto simp: max_def intro: order_trans)
  show "unat (max (cc_max_seen c) v) = max (unat (cc_max_seen c)) (unat v)"
    by (simp add: max_def word_le_nat_alt)
qed

text \<open>
  The five branches of \<open>SetCounter\<close> under the invariant, in terms of the distance of the
  counter to the current window.
\<close>

lemma cc_SetCounter_cases:
  assumes "cc_inv W S c"
  shows "cc_SetCounter W c v =
    (if v < cc_current_base c - W then cc_touch c v
     else if in_window W (cc_current_base c) v
       then (cc_touch c v)\<lparr>cc_current := bw_Set W (cc_current c) v\<rparr>
     else if in_window W (cc_current_base c - W) v
       then (cc_touch c v)\<lparr>cc_previous := bw_Set W (cc_previous c) v\<rparr>
     else if in_window W (cc_current_base c + W) v then cc_ShiftOne W (cc_touch c v) v
     else cc_Reset W (cc_touch c v) v)"
  using cc_inv_window [OF assms, of v]
  by (simp add: cc_SetCounter_def cc_touch_def Let_def)

lemma cc_inv_SetCounter_near:
  assumes I: "cc_inv W S c" and lt: "unat v < unat (cc_current_base c) + unat W"
  shows "cc_inv W (insert v S) (cc_SetCounter W c v)"
proof -
  note d = cc_invD [OF I]
  let ?cb = "cc_current_base c"
  have B: "unat ?cb + unat W < 2 ^ 64" "unat (?cb - W) + unat W < 2 ^ 64"
    using d(1-3,7) by auto
  have excl: "in_window W ?cb v \<Longrightarrow> \<not> in_window W (?cb - W) v"
    "v < ?cb - W \<Longrightarrow> \<not> in_window W ?cb v \<and> \<not> in_window W (?cb - W) v"
    "\<not> v < ?cb - W \<Longrightarrow> \<not> in_window W ?cb v \<Longrightarrow> in_window W (?cb - W) v"
    using lt d(1-3,7) by (auto simp: in_window_def word_less_nat_alt)
  have cur: "bw_holds W (insert v S) ?cb (bw_Set W (cc_current c) v)"
    "\<not> in_window W ?cb v \<Longrightarrow> bw_holds W (insert v S) ?cb (cc_current c)"
    using bw_holds_Set [OF d(4) B(1)] bw_holds_out [OF d(4) B(1)] by blast+
  have prev: "bw_holds W (insert v S) (?cb - W) (bw_Set W (cc_previous c) v)"
    "\<not> in_window W (?cb - W) v \<Longrightarrow> bw_holds W (insert v S) (?cb - W) (cc_previous c)"
    using bw_holds_Set [OF d(5) B(2)] bw_holds_out [OF d(5) B(2)] by blast+
  have top: "?cb = W \<or> ?cb \<le> max (cc_max_seen c) v"
    using d(12) by (auto simp: le_max_iff_disj)
  show ?thesis
    unfolding cc_SetCounter_cases [OF I] cc_inv_def cc_touch_def
    using d(1-3,6,10,11) lt cc_max_insert [OF I, of v] excl cur prev top by simp
qed

lemma cc_inv_ShiftOne:
  assumes I: "cc_inv W S c" and v: "unat v + 2 * unat W < 2 ^ 64"
    and win: "in_window W (cc_current_base c + W) v"
  shows "cc_inv W (insert v S) (cc_ShiftOne W (cc_touch c v) v)"
proof -
  note d = cc_invD [OF I]
  let ?cb = "cc_current_base c"
  have B: "unat ?cb + unat W < 2 ^ 64" "unat (?cb + W) + unat W < 2 ^ 64"
    using d(1-3,8) by auto
  have cb': "unat (?cb + W + W) = unat ?cb + 2 * unat W"
    using d(1-3,8) by (subst unat_add_nowrap) auto
  have "bw_holds W S (?cb + W) (cc_next c)"
    using d(6) B(2) by (rule bw_holds_cong) (use d(8,9) in \<open>fastforce simp: in_window_def\<close>)
  then have "bw_holds W (insert v S) (?cb + W) (bw_Set W (cc_next c) v)"
    using B(2) by (rule bw_holds_Set)
  moreover have "bw_holds W (insert v S) ?cb (cc_current c)"
    using d(4) B(1) by (rule bw_holds_out) (use win d(8) in \<open>simp add: in_window_def\<close>)
  moreover have "bw_holds W {} (?cb + W + W) (bw_new W (?cb + W + W))"
    using win v d(8) cb' by (intro bw_holds_new) (auto simp: in_window_def)
  moreover have "?cb + W \<le> max (cc_max_seen c) v"
    using win by (simp add: in_window_def le_max_iff_disj) (simp add: word_le_nat_alt)
  moreover have "unat v < unat ?cb + 2 * unat W" "unat ?cb + unat W \<le> unat v"
    using win d(8) by (auto simp: in_window_def)
  ultimately show ?thesis
    unfolding cc_inv_def cc_ShiftOne_def bw_Clear_new Let_def cc_touch_def
    using d(1-3,8,10,11) v cc_max_insert [OF I, of v] by simp
qed

lemma cc_inv_Reset:
  assumes I: "cc_inv W S c" and v: "unat v + 2 * unat W < 2 ^ 64"
    and far: "unat (cc_current_base c) + 2 * unat W \<le> unat v"
  shows "cc_inv W (insert v S) (cc_Reset W (cc_touch c v) v)"
proof -
  note d = cc_invD [OF I]
  let ?nb = "v div W * W"
  have nb: "unat ?nb \<le> unat v" "unat v < unat ?nb + unat W"
    using d(1) dividend_less_div_times [of "unat W" "unat v"] by (auto simp: unat_div_mult)
  obtain k where k: "unat (cc_current_base c) = k * unat W"
    using d(11) by (metis dvdE mult.commute)
  then have "(k + 2) * unat W \<le> unat v" using far by (simp add: algebra_simps)
  then have "k + 2 \<le> unat v div unat W" using d(1) by (simp add: less_eq_div_iff_mult_less_eq)
  then have "(k + 2) * unat W \<le> unat v div unat W * unat W" by (rule mult_le_mono1)
  then have lo: "unat (cc_current_base c) + 2 * unat W \<le> unat ?nb"
    using k by (simp add: unat_div_mult add_mult_distrib)
  then have nbW: "unat W \<le> unat ?nb" by simp
  note lo = lo nbW
  have ub: "unat (?nb - W) = unat ?nb - unat W" "unat (?nb + W) = unat ?nb + unat W"
    using lo(2) nb v by (auto simp: unat_offset word_le_nat_alt unat_add_nowrap)
  have "bw_holds W S ?nb (bw_new W ?nb)"
    using lo d(1,9) nb v by (intro bw_holds_new) (fastforce simp: in_window_def)+
  then have "bw_holds W (insert v S) ?nb (bw_Set W (bw_new W ?nb) v)"
    using nb v by (intro bw_holds_Set) auto
  moreover have "bw_holds W (insert v S) (?nb - W) (bw_new W (?nb - W))"
  proof (rule bw_holds_new)
    fix x assume "x \<in> insert v S"
    then show "\<not> in_window W (?nb - W) x"
    proof
      assume "x = v"
      then have "\<not> unat x < unat (?nb - W) + unat W" using ub(1) nb(1) lo(2) by simp
      then show ?thesis by (simp add: in_window_def)
    next
      assume "x \<in> S"
      then have "unat x < unat (cc_current_base c) + unat W" by (rule d(9))
      then have "\<not> unat (?nb - W) \<le> unat x" using lo ub(1) by simp
      then show ?thesis by (simp add: in_window_def)
    qed
  qed (use ub nb v lo(2) in simp)
  moreover have "bw_holds W {} (?nb + W) (bw_new W (?nb + W))"
    using nb v ub by (intro bw_holds_new) auto
  moreover have "?nb \<le> max (cc_max_seen c) v"
    using nb(1) by (simp add: le_max_iff_disj) (simp add: word_le_nat_alt)
  moreover have "unat W dvd unat ?nb" by (simp add: unat_div_mult)
  ultimately show ?thesis
    unfolding cc_inv_def cc_Reset_def Let_def cc_touch_def
    using d(1,10) v nb lo cc_max_insert [OF I, of v] by simp
qed

text \<open>One registration, whatever the branch.\<close>

lemma cc_inv_SetCounter [ecal_inv]:
  assumes I: "cc_inv W S c" and v: "unat v + 2 * unat W < 2 ^ 64"
  shows "cc_inv W (insert v S) (cc_SetCounter W c v)"
proof -
  note d = cc_invD [OF I]
  consider "unat v < unat (cc_current_base c) + unat W"
    | "in_window W (cc_current_base c + W) v"
    | "unat (cc_current_base c) + 2 * unat W \<le> unat v"
    using d(8) by (fastforce simp: in_window_def)
  then show ?thesis
  proof cases
    case 1
    with I show ?thesis by (rule cc_inv_SetCounter_near)
  next
    case 2
    with cc_inv_ShiftOne [OF I v] show ?thesis
      using d(1-3,7,8) by (auto simp: cc_SetCounter_cases [OF I] in_window_def word_less_nat_alt)
  next
    case 3
    with cc_inv_Reset [OF I v] show ?thesis
      using d(1-3,7,8) by (auto simp: cc_SetCounter_cases [OF I] in_window_def word_less_nat_alt)
  qed
qed

subsection \<open>Answers after any sequence of registrations\<close>

lemma cc_inv_run:
  assumes "0 < unat W" "3 * unat W < 2 ^ 64"
    and "\<forall>v \<in> set vs. unat v + 2 * unat W < 2 ^ 64"
  shows "cc_inv W (set vs) (cc_run W vs)"
  using assms(3)
proof (induction vs rule: rev_induct)
  case Nil
  then show ?case using cc_inv_new [OF assms(1,2)] by (simp add: cc_run_def)
next
  case (snoc v vs)
  then have "cc_inv W (insert v (set vs)) (cc_SetCounter W (cc_run W vs) v)"
    by (intro cc_inv_SetCounter) auto
  then show ?case by (simp add: cc_run_def)
qed

lemma cc_inv_HasCounter:
  assumes I: "cc_inv W S c"
  shows "cc_HasCounter W c v =
    (if v \<in> S \<and> cc_current_base c - W \<le> v then InCacheTrue
     else if v < cc_current_base c - W \<and> S \<noteq> {} then InCacheUnsure else InCacheFalse)"
proof -
  note d = cc_invD [OF I]
  have H: "bw_Has W (cc_current c) v \<longleftrightarrow> in_window W (cc_current_base c) v \<and> v \<in> S"
    "bw_Has W (cc_previous c) v \<longleftrightarrow> in_window W (cc_current_base c - W) v \<and> v \<in> S"
    using bw_Has_iff [OF d(4)] bw_Has_iff [OF d(5)] d(1-3,7) by auto
  have reg: "cc_registered c \<longleftrightarrow> S \<noteq> {}" and le: "v \<in> S \<Longrightarrow> v \<le> cc_max_seen c"
    using I by (auto simp: cc_inv_def)
  have lt: "v < cc_current_base c - W \<Longrightarrow> v \<le> cc_max_seen c"
    using d(1-3,7,12) by (auto simp: word_less_nat_alt word_le_nat_alt)
  have hi: "v \<le> cc_max_seen c \<Longrightarrow> \<not> v < cc_current_base c - W \<Longrightarrow>
      in_window W (cc_current_base c) v \<or> in_window W (cc_current_base c - W) v"
    using d(1-3,7,10) by (auto simp: in_window_def word_less_nat_alt word_le_nat_alt)
  show ?thesis
    using reg le lt hi
    by (auto simp: cc_HasCounter_def cc_inv_window(4) [OF I] H not_less not_le)
qed

text \<open>
  C27. Whatever counters were registered, in any order, the cache never errs: it answers True
  only for a registered counter and False only for one that was not. It answers Unsure only
  for a counter more than a window older than the newest one registered.
\<close>

theorem cc_answers_sound:
  assumes "0 < unat W" and "3 * unat W < 2 ^ 64"
    and "\<forall>x \<in> set vs. unat x + 2 * unat W < 2 ^ 64"
  shows "case cc_HasCounter W (cc_run W vs) v of
      InCacheTrue \<Rightarrow> v \<in> set vs
    | InCacheFalse \<Rightarrow> v \<notin> set vs
    | InCacheUnsure \<Rightarrow> (\<exists>m \<in> set vs. unat v + unat W < unat m)"
proof -
  have I: "cc_inv W (set vs) (cc_run W vs)" using assms by (rule cc_inv_run)
  note d = cc_invD [OF I]
  have "\<exists>m \<in> set vs. unat v + unat W < unat m"
    if "v < cc_current_base (cc_run W vs) - W" "vs \<noteq> []"
  proof
    show "cc_max_seen (cc_run W vs) \<in> set vs" using I that(2) by (simp add: cc_inv_def)
    show "unat v + unat W < unat (cc_max_seen (cc_run W vs))"
      using that(1) d(2,7,12) by (auto simp: word_less_nat_alt word_le_nat_alt)
  qed
  then show ?thesis by (auto simp: cc_inv_HasCounter [OF I] not_less split: if_splits)
qed

theorem cc_answers_sound_witness:
  "cc_HasCounter 4 (cc_run 4 [3, 9, 12, 30]) 12 = InCacheUnsure \<and>
   (\<exists>m \<in> set [3, 9, 12, 30 :: u64]. unat (12 :: u64) + unat (4 :: u64) < unat m)"
proof -
  have "cc_HasCounter 4 (cc_run 4 [3, 9, 12, 30]) 12 = InCacheUnsure" by code_simp
  then show ?thesis using cc_answers_sound [of 4 "[3, 9, 12, 30]" 12] by simp
qed

text \<open>
  A counter is monotonic exactly when it is greater than every counter registered so far
  (the first one always is).
\<close>

theorem cc_monotonic_iff:
  assumes "0 < unat W" and "3 * unat W < 2 ^ 64"
    and "\<forall>x \<in> set vs. unat x + 2 * unat W < 2 ^ 64"
  shows "cc_IsMonotonic (cc_run W vs) v \<longleftrightarrow> (\<forall>x \<in> set vs. x < v)"
proof -
  have "cc_inv W (set vs) (cc_run W vs)" using assms by (rule cc_inv_run)
  then show ?thesis
    by (cases "vs = []") (auto simp: cc_inv_def cc_IsMonotonic_def intro: order_le_less_trans)
qed

theorem cc_monotonic_iff_witness:
  "cc_IsMonotonic (cc_run 4 [3, 9, 2]) 10 \<and> \<not> cc_IsMonotonic (cc_run 4 [3, 9, 2]) 9"
  using cc_monotonic_iff [of 4 "[3, 9, 2]" 10] cc_monotonic_iff [of 4 "[3, 9, 2]" 9] by simp

subsection \<open>CounterCacheMap\<close>

text \<open>\<open>CounterCacheMap<Key>\<close>; the map is one of \<open>Std_Map\<close>, with \<open>pr\<close> the key's order.\<close>

type_synonym 'k counter_cache_map = "('k, counter_cache) omap"

definition ccm_HasCounter ::
  "u64 \<Rightarrow> ('k \<Rightarrow> 'o::linorder) \<Rightarrow> 'k counter_cache_map \<Rightarrow> 'k \<Rightarrow> u64 \<Rightarrow> counter_in_cache" where
  "ccm_HasCounter W pr m k v =
     (case om_find pr m k of None \<Rightarrow> InCacheFalse | Some c \<Rightarrow> cc_HasCounter W c v)"

definition ccm_IsMonotonic ::
  "('k \<Rightarrow> 'o::linorder) \<Rightarrow> 'k counter_cache_map \<Rightarrow> 'k \<Rightarrow> u64 \<Rightarrow> bool" where
  "ccm_IsMonotonic pr m k v =
     (case om_find pr m k of None \<Rightarrow> True | Some c \<Rightarrow> cc_IsMonotonic c v)"

definition ccm_SetCounter ::
  "u64 \<Rightarrow> ('k \<Rightarrow> 'o::linorder) \<Rightarrow> 'k counter_cache_map \<Rightarrow> 'k \<Rightarrow> u64 \<Rightarrow> 'k counter_cache_map" where
  "ccm_SetCounter W pr m k v =
     (let (c, m') = om_access pr m k (cc_new W) in om_set pr m' k (cc_SetCounter W c v))"

text \<open>The cache of one key is what the counters registered for that key leave.\<close>

definition ccm_run ::
  "u64 \<Rightarrow> ('k \<Rightarrow> 'o::linorder) \<Rightarrow> ('k \<times> u64) list \<Rightarrow> 'k counter_cache_map" where
  "ccm_run W pr kvs = foldl (\<lambda>m (k, v). ccm_SetCounter W pr m k v) [] kvs"

lemma ccm_run_find:
  "om_find pr (ccm_run W pr kvs) k =
     (let vs = map snd (filter (\<lambda>(k', v). pr k' = pr k) kvs)
      in if vs = [] then None else Some (cc_run W vs))"
proof (induction kvs rule: rev_induct)
  case (snoc kv kvs)
  obtain k' v where kv: "kv = (k', v)" by (cases kv)
  have find_k: "pr k' = pr k \<Longrightarrow> om_find pr m k' = om_find pr m k" for m :: "('a, counter_cache) omap"
    by (induction m) auto
  show ?case
    using snoc find_k [of "ccm_run W pr kvs"]
    by (auto simp: ccm_run_def kv ccm_SetCounter_def om_access_def om_find_set Let_def cc_run_def
        split: option.splits if_splits)
qed (simp add: ccm_run_def)

end
