(* ===== verification/Message_Drop.thy ===== *)
theory Message_Drop
  imports Std_Map
begin

text \<open>
  \<open>ecal/core/src/util/message_drop_calculator.h\<close> and \<open>.cpp\<close>: counting the messages of a
  publisher that a subscriber did not receive. All counters are \<open>uint64_t\<close>, so the subtraction
  of \<open>GetSummary\<close> wraps.
\<close>

record drop_summary =
  ds_new_drops :: bool
  ds_drops :: u64

record message_drop_calculator =
  md_have_received :: bool
  md_first :: u64
  md_last :: u64
  md_total :: u64
  md_previous_drops :: u64

definition md_new :: message_drop_calculator where
  "md_new = \<lparr>md_have_received = False, md_first = 0, md_last = 0, md_total = 0,
     md_previous_drops = 0\<rparr>"

definition md_RegisterReceivedMessage ::
  "message_drop_calculator \<Rightarrow> u64 \<Rightarrow> message_drop_calculator" where
  "md_RegisterReceivedMessage m c =
     (let m1 = (if \<not> md_have_received m then m\<lparr>md_have_received := True, md_first := c\<rparr> else m)
      in m1\<lparr>md_last := c, md_total := md_total m1 + 1\<rparr>)"

definition md_GetSummary ::
  "message_drop_calculator \<Rightarrow> drop_summary \<times> message_drop_calculator" where
  "md_GetSummary m =
     (if md_have_received m then
        (let d = 1 + md_last m - md_first m - md_total m
         in (\<lparr>ds_new_drops = (d > md_previous_drops m), ds_drops = d\<rparr>,
             m\<lparr>md_previous_drops := d\<rparr>))
      else (\<lparr>ds_new_drops = False, ds_drops = 0\<rparr>, m))"

definition md_run :: "u64 list \<Rightarrow> message_drop_calculator" where
  "md_run cs = foldl md_RegisterReceivedMessage md_new cs"

subsection \<open>MessageDropCalculatorMap\<close>

type_synonym 'k message_drop_map = "('k, message_drop_calculator) omap"

definition mdm_RegisterReceivedMessage ::
  "('k \<Rightarrow> 'o::linorder) \<Rightarrow> 'k message_drop_map \<Rightarrow> 'k \<Rightarrow> u64 \<Rightarrow> 'k message_drop_map" where
  "mdm_RegisterReceivedMessage pr mp k c =
     (let (m, mp') = om_access pr mp k md_new
      in om_set pr mp' k (md_RegisterReceivedMessage m c))"

definition mdm_GetSummary_of ::
  "('k \<Rightarrow> 'o::linorder) \<Rightarrow> 'k message_drop_map \<Rightarrow> 'k \<Rightarrow> drop_summary \<times> 'k message_drop_map" where
  "mdm_GetSummary_of pr mp k =
     (let (m, mp') = om_access pr mp k md_new; (s, m') = md_GetSummary m
      in (s, om_set pr mp' k m'))"

definition mdm_GetSummary ::
  "('k \<Rightarrow> 'o::linorder) \<Rightarrow> 'k message_drop_map \<Rightarrow> ('k, drop_summary) omap \<times> 'k message_drop_map" where
  "mdm_GetSummary pr mp =
     (map (\<lambda>(k, m). (k, fst (md_GetSummary m))) mp, map (\<lambda>(k, m). (k, snd (md_GetSummary m))) mp)"

subsection \<open>The fields after a run\<close>

lemma md_run_snoc: "md_run (cs @ [c]) = md_RegisterReceivedMessage (md_run cs) c"
  by (simp add: md_run_def)

lemma md_run_fields:
  "md_have_received (md_run cs) = (cs \<noteq> [])"
  "cs \<noteq> [] \<Longrightarrow> md_first (md_run cs) = hd cs"
  "cs \<noteq> [] \<Longrightarrow> md_last (md_run cs) = last cs"
  "md_total (md_run cs) = word_of_nat (length cs)"
  "md_previous_drops (md_run cs) = 0"
proof (induction cs rule: rev_induct)
  case Nil
  { case 1 show ?case by (simp add: md_run_def md_new_def) }
  { case 2 then show ?case by simp }
  { case 3 then show ?case by simp }
  { case 4 show ?case by (simp add: md_run_def md_new_def) }
  { case 5 show ?case by (simp add: md_run_def md_new_def) }
next
  case (snoc c cs)
  { case 1 show ?case using snoc by (simp add: md_run_snoc md_RegisterReceivedMessage_def Let_def) }
  { case 2 show ?case using snoc
      by (cases "cs = []") (simp_all add: md_run_def md_new_def md_RegisterReceivedMessage_def Let_def) }
  { case 3 show ?case using snoc by (simp add: md_run_snoc md_RegisterReceivedMessage_def Let_def) }
  { case 4 show ?case using snoc
      by (cases "cs = []")
        (simp_all add: md_run_def md_new_def md_RegisterReceivedMessage_def Let_def) }
  { case 5 show ?case using snoc
      by (cases "cs = []")
        (simp_all add: md_run_def md_new_def md_RegisterReceivedMessage_def Let_def) }
qed

lemma md_drops_run:
  assumes "cs \<noteq> []"
  shows "ds_drops (fst (md_GetSummary (md_run cs))) = 1 + last cs - hd cs - word_of_nat (length cs)"
  using assms by (simp add: md_GetSummary_def md_run_fields Let_def)

subsection \<open>What the difference counts\<close>

lemma strict_sorted_bounds:
  assumes "sorted_wrt (<) (cs :: u64 list)" and "cs \<noteq> []"
  shows "unat (hd cs) + length cs \<le> unat (last cs) + 1"
  using assms
proof (induction cs rule: rev_induct)
  case (snoc c cs)
  show ?case
  proof (cases "cs = []")
    case False
    then have "unat (hd cs) + length cs \<le> unat (last cs) + 1"
      using snoc by (simp add: sorted_wrt_append)
    moreover have "unat (last cs) < unat c"
      using snoc.prems False by (auto simp: sorted_wrt_append word_less_nat_alt)
    ultimately show ?thesis using False by simp
  qed simp
qed simp

text \<open>The counters between the first and the last received one that were not received.\<close>

definition missed :: "u64 list \<Rightarrow> nat set" where
  "missed cs = {unat (hd cs)..unat (last cs)} - unat ` set cs"

lemma card_missed:
  assumes "sorted_wrt (<) cs" and "cs \<noteq> []"
  shows "card (missed cs) = unat (last cs) + 1 - unat (hd cs) - length cs"
proof -
  have "sorted_wrt (\<le>) cs" using assms(1) by (rule sorted_wrt_mono_rel [rotated]) auto
  then have b: "\<forall>x \<in> set cs. hd cs \<le> x \<and> x \<le> last cs"
    using assms(2) by (induction cs) (auto simp: last_ConsR split: if_splits intro: order_trans)
  have dist: "distinct cs" using assms(1) by (simp add: strict_sorted_iff)
  have inj: "inj_on unat (set cs)" by (rule inj_onI) (simp add: word_unat_eq_iff)
  have "unat ` set cs \<subseteq> {unat (hd cs)..unat (last cs)}"
    using b by (auto simp: word_le_nat_alt)
  then show ?thesis
    by (simp add: missed_def card_Diff_subset card_image inj distinct_card dist)
qed

text \<open>
  For a publisher whose messages arrive in increasing counter order, the number reported is
  exactly the number of counters between the first and the last received message that never
  arrived (as long as fewer than 2^64 of them are counted, which the counters' width ensures).
\<close>

theorem md_drops_exact:
  assumes "sorted_wrt (<) cs" and "cs \<noteq> []"
  shows "unat (ds_drops (fst (md_GetSummary (md_run cs)))) = card (missed cs)"
proof -
  let ?n = "unat (last cs) + 1 - unat (hd cs) - length cs"
  have le: "unat (hd cs) + length cs \<le> unat (last cs) + 1"
    using assms by (rule strict_sorted_bounds)
  then have lt: "?n < 2 ^ 64"
    using assms(2) unat_lt_u64 [of "last cs"]
    by (cases cs) (auto intro: order_le_less_trans [OF diff_le_self])
  have "of_nat ?n = of_nat (unat (last cs) + 1) - of_nat (unat (hd cs)) - (of_nat (length cs) :: u64)"
    using le by (simp only: of_nat_diff diff_diff_left) (simp only: of_nat_add diff_diff_eq)
  also have "\<dots> = 1 + last cs - hd cs - word_of_nat (length cs)" by simp
  finally have "ds_drops (fst (md_GetSummary (md_run cs))) = word_of_nat ?n"
    by (simp add: md_drops_run assms(2))
  then show ?thesis using lt by (simp add: card_missed assms unat_of_nat)
qed

theorem md_drops_exact_witness:
  "unat (ds_drops (fst (md_GetSummary (md_run [5, 6, 9, 12])))) = card (missed [5, 6, 9, 12]) \<and>
   ds_drops (fst (md_GetSummary (md_run [5, 6, 9, 12]))) = 4"
proof -
  have "ds_drops (fst (md_GetSummary (md_run [5, 6, 9, 12]))) = 4" by code_simp
  then show ?thesis using md_drops_exact [of "[5, 6, 9, 12]"] by simp
qed

text \<open>
  The calculation is not protected against a counter that arrives twice: after a run without
  any drop, receiving the last message once more makes the subtraction wrap, so that 2^64 - 1
  dropped messages and a new drop are reported.
\<close>

theorem md_duplicate_underflows:
  assumes "cs \<noteq> []" and "ds_drops (fst (md_GetSummary (md_run cs))) = 0"
  shows "fst (md_GetSummary (md_run (cs @ [last cs]))) =
    \<lparr>ds_new_drops = True, ds_drops = - 1\<rparr>"
proof -
  have "1 + last cs - hd cs - (word_of_nat (length cs) + 1) =
      (1 + last cs - hd cs - word_of_nat (length cs)) - 1"
    by (simp add: algebra_simps)
  then have "1 + last cs - hd cs - (word_of_nat (length cs) + 1) = (- 1 :: u64)"
    using assms by (simp add: md_drops_run)
  then show ?thesis
    using assms(1) by (simp add: md_GetSummary_def md_run_fields Let_def add.commute word_greater_zero_iff)
qed

theorem md_duplicate_underflows_witness:
  "fst (md_GetSummary (md_run ([7, 8] @ [last [7, 8]]))) =
    \<lparr>ds_new_drops = True, ds_drops = - 1\<rparr>"
proof (rule md_duplicate_underflows)
  show "ds_drops (fst (md_GetSummary (md_run [7, 8]))) = 0" by code_simp
qed simp

end
