(* ===== verification/Circular_Queue.thy ===== *)
theory Circular_Queue
  imports Ecal_Prelude
begin

text \<open>
  \<open>ecal/core/src/registration/shm/relocatable_circular_queue.h\<close>: the ring buffer that lives in
  the broadcast memory file. \<open>cq\<close> is the mapped memory: the \<open>Header\<close> fields and, behind it,
  the array of elements (\<open>Value(i)\<close> is \<open>cq_slots ! i\<close>). The memory a queue of \<open>max_size\<close>
  elements needs is \<open>PresumablyOccupiedMemorySize\<close>; the model's array has that many slots.
\<close>

record 'a cq =
  cq_back_index :: u64
  cq_front_index :: u64
  cq_size :: u64
  cq_max_size :: u64
  cq_slots :: "'a list"

datatype cq_error = QueueIsEmpty

definition cq_invalid_index :: u64 where
  "cq_invalid_index = - 1"

definition cq_Value :: "'a cq \<Rightarrow> u64 \<Rightarrow> 'a" where
  "cq_Value q i = cq_slots q ! unat i"

definition cq_Push :: "'a cq \<Rightarrow> 'a \<Rightarrow> 'a cq" where
  "cq_Push q0 v =
     (let q1 = (if cq_size q0 \<noteq> 0
                then q0\<lparr>cq_back_index := (cq_back_index q0 + 1) mod cq_max_size q0\<rparr> else q0);
          q2 = q1\<lparr>cq_slots := (cq_slots q1)[unat (cq_back_index q1) := v]\<rparr>
      in if cq_size q2 \<noteq> cq_max_size q2 then q2\<lparr>cq_size := cq_size q2 + 1\<rparr>
         else q2\<lparr>cq_front_index := (cq_front_index q2 + 1) mod cq_max_size q2\<rparr>)"

definition cq_Pop :: "'a cq \<Rightarrow> cq_error + 'a cq" where
  "cq_Pop q =
     (if cq_size q = 0 then Inl QueueIsEmpty
      else (let q1 = q\<lparr>cq_size := cq_size q - 1\<rparr>
            in Inr (if cq_size q1 \<noteq> 0
                    then q1\<lparr>cq_front_index := (cq_front_index q1 + 1) mod cq_max_size q1\<rparr>
                    else q1)))"

definition cq_Front :: "'a cq \<Rightarrow> 'a" where
  "cq_Front q = cq_Value q (cq_front_index q)"

definition cq_Back :: "'a cq \<Rightarrow> 'a" where
  "cq_Back q = cq_Value q (cq_back_index q)"

definition cq_Reset :: "'a cq \<Rightarrow> u64 \<Rightarrow> 'a cq" where
  "cq_Reset q n = q\<lparr>cq_max_size := n, cq_front_index := 0, cq_back_index := 0, cq_size := 0\<rparr>"

definition cq_Size :: "'a cq \<Rightarrow> u64" where
  "cq_Size q = cq_size q"

text \<open>\<open>sizeof(Header)\<close> is 32 bytes (four 64-bit fields, packed); \<open>sz\<close> is \<open>sizeof(T)\<close>.\<close>

definition cq_OccupiedMemorySize :: "u64 \<Rightarrow> 'a cq \<Rightarrow> u64" where
  "cq_OccupiedMemorySize sz q = 32 + sz * cq_max_size q"

definition cq_PresumablyOccupiedMemorySize :: "u64 \<Rightarrow> u64 \<Rightarrow> u64" where
  "cq_PresumablyOccupiedMemorySize sz n = 32 + sz * n"

subsection \<open>Iteration: from the newest element to the oldest\<close>

definition cq_begin :: "'a cq \<Rightarrow> u64" where
  "cq_begin q = (if cq_size q = 0 then cq_invalid_index else cq_back_index q)"

definition cq_next_index :: "'a cq \<Rightarrow> u64 \<Rightarrow> u64" where
  "cq_next_index q i =
     (if i = cq_front_index q then cq_invalid_index
      else (i + cq_max_size q - 1) mod cq_max_size q)"

text \<open>
  A range-based \<open>for\<close> over the queue: from \<open>begin()\<close>, dereference and increment until
  \<open>end()\<close>. The loop of a corrupt header need not stop, hence the fuel; \<open>None\<close> is "still
  running".
\<close>

fun cq_iterate :: "nat \<Rightarrow> 'a cq \<Rightarrow> u64 \<Rightarrow> 'a list option" where
  "cq_iterate 0 q i = (if i = cq_invalid_index then Some [] else None)"
| "cq_iterate (Suc n) q i =
     (if i = cq_invalid_index then Some []
      else map_option ((#) (cq_Value q i)) (cq_iterate n q (cq_next_index q i)))"

subsection \<open>The queue as a list, oldest element first\<close>

definition cq_index :: "'a cq \<Rightarrow> nat \<Rightarrow> nat" where
  "cq_index q k = (unat (cq_front_index q) + k) mod unat (cq_max_size q)"

definition cq_list :: "'a cq \<Rightarrow> 'a list" where
  "cq_list q = map (\<lambda>k. cq_slots q ! cq_index q k) [0..<unat (cq_size q)]"

definition cq_inv :: "'a cq \<Rightarrow> bool" where
  "cq_inv q \<longleftrightarrow>
     0 < unat (cq_max_size q) \<and> 2 * unat (cq_max_size q) < 2 ^ 64 \<and>
     length (cq_slots q) = unat (cq_max_size q) \<and>
     unat (cq_size q) \<le> unat (cq_max_size q) \<and>
     unat (cq_front_index q) < unat (cq_max_size q) \<and>
     unat (cq_back_index q) = cq_index q (unat (cq_size q) - 1)"

text \<open>
  The interface its clients rely on: a bounded queue that forgets its oldest element when it is
  full, and is walked from the newest element back.
\<close>

locale bounded_queue =
  fixes push :: "'q \<Rightarrow> 'a \<Rightarrow> 'q"
    and pop :: "'q \<Rightarrow> 'e + 'q"
    and reset :: "'q \<Rightarrow> 'q"
    and walk :: "'q \<Rightarrow> 'a list"
    and content :: "'q \<Rightarrow> 'a list"
    and cap :: "'q \<Rightarrow> nat"
    and invar :: "'q \<Rightarrow> bool"
  assumes push_content: "invar q \<Longrightarrow> content (push q x) =
        (if length (content q) < cap q then content q @ [x] else tl (content q) @ [x])"
    and push_invar: "invar q \<Longrightarrow> invar (push q x)"
    and push_cap: "invar q \<Longrightarrow> cap (push q x) = cap q"
    and pop_empty: "invar q \<Longrightarrow> content q = [] \<Longrightarrow> \<exists>e. pop q = Inl e"
    and pop_content: "invar q \<Longrightarrow> content q \<noteq> [] \<Longrightarrow> \<exists>q'. pop q = Inr q' \<and> invar q' \<and>
        content q' = tl (content q) \<and> cap q' = cap q"
    and reset_content: "invar q \<Longrightarrow> content (reset q) = []"
    and reset_invar: "invar q \<Longrightarrow> invar (reset q)"
    and walk_content: "invar q \<Longrightarrow> walk q = rev (content q)"
    and content_cap: "invar q \<Longrightarrow> length (content q) \<le> cap q"
    and cap_pos: "invar q \<Longrightarrow> 0 < cap q"
begin

text \<open>After any number of pushes the queue holds the most recent elements that fit.\<close>

lemma pushes_invar: "invar q \<Longrightarrow> invar (foldl push q xs) \<and> cap (foldl push q xs) = cap q"
  by (induction xs arbitrary: q) (auto simp: push_invar push_cap)

lemma pushes_content:
  "invar q \<Longrightarrow> content (foldl push q xs) =
     drop (length (content q) + length xs - cap q) (content q @ xs)"
proof (induction xs rule: rev_induct)
  case Nil
  then show ?case using content_cap by simp
next
  case (snoc x xs)
  let ?q = "foldl push q xs"
  have I: "invar ?q" and C: "cap ?q = cap q" using snoc.prems pushes_invar by auto
  have c: "content ?q = drop (length (content q) + length xs - cap q) (content q @ xs)"
    using snoc by simp
  have len: "length (content ?q) = min (length (content q) + length xs) (cap q)"
    using c content_cap [OF snoc.prems] by simp
  show ?case
  proof (cases "length (content q) + length xs < cap q")
    case True
    then show ?thesis using c len by (simp add: push_content I C)
  next
    case False
    then have s: "length (content q) + length (xs @ [x]) - cap q =
        Suc (length (content q) + length xs - cap q)" by simp
    have "content (push ?q x) = tl (content ?q) @ [x]"
      using False len by (simp add: push_content I C)
    moreover have d: "drop (Suc n) (ys @ [x]) = tl (drop n ys) @ [x]" if "n < length ys" for n ys
      using that by (simp add: drop_Suc tl_drop)
    have "drop (Suc (length (content q) + length xs - cap q)) ((content q @ xs) @ [x]) =
        tl (content ?q) @ [x]"
      unfolding c by (rule d) (use cap_pos [OF snoc.prems] False in simp)
    ultimately show ?thesis using s by simp
  qed
qed

lemma pushes_walk:
  "invar q \<Longrightarrow> content q = [] \<Longrightarrow> walk (foldl push q xs) = take (cap q) (rev xs)"
  using pushes_content [of q xs] pushes_invar [of q xs]
  by (cases "cap q \<le> length xs") (simp_all add: walk_content rev_drop)

end

subsection \<open>The ring buffer is such a queue\<close>

definition cq_walk :: "'a cq \<Rightarrow> 'a list" where
  "cq_walk q = the (cq_iterate (unat (cq_size q)) q (cq_begin q))"

definition cq_cap :: "'a cq \<Rightarrow> nat" where
  "cq_cap q = unat (cq_max_size q)"

lemma unat_succ_mod:
  fixes a n :: u64
  assumes "unat a < unat n"
  shows "unat ((a + 1) mod n) = (unat a + 1) mod unat n"
proof -
  have "unat a + unat (1 :: u64) < 2 ^ 64" using assms unat_lt_u64 [of n] by (simp del: unat_lt_u64)
  then show ?thesis by (simp add: unat_mod_distrib unat_add_nowrap)
qed

lemma unat_pred_mod:
  fixes a n :: u64
  assumes "unat a < unat n" and "2 * unat n < 2 ^ 64"
  shows "unat ((a + n - 1) mod n) = (unat a + unat n - 1) mod unat n"
proof -
  have "unat (a + n) = unat a + unat n" using assms by (intro unat_add_nowrap) simp
  moreover from this have "1 \<le> a + n" using assms by (simp add: word_le_nat_alt)
  ultimately have "unat (a + n - 1) = unat a + unat n - 1" by (simp add: unat_sub)
  then show ?thesis by (simp add: unat_mod_distrib)
qed

lemma cq_index_lt: "0 < unat (cq_max_size q) \<Longrightarrow> cq_index q k < unat (cq_max_size q)"
  by (simp add: cq_index_def)

lemma mod_add_inj:
  fixes f n :: nat
  assumes eq: "(f + j) mod n = (f + k) mod n" and "j < n" and "k < n"
  shows "j = k"
proof -
  have *: "b = a" if "(f + a) mod n = (f + b) mod n" "a \<le> b" "b < n" for a b
  proof -
    have "n dvd (f + b) - (f + a)"
      using mod_eq_dvd_iff_nat [of "f + a" "f + b" n] that(1,2) by simp
    then show ?thesis using that by (auto dest: dvd_imp_le)
  qed
  show ?thesis
  proof (cases "j \<le> k")
    case True
    from *[OF eq True assms(3)] show ?thesis by simp
  next
    case False
    then show ?thesis using *[OF eq [symmetric] _ assms(2)] by simp
  qed
qed

lemma cq_index_inj:
  assumes "cq_index q j = cq_index q k" and "j < unat (cq_max_size q)" and "k < unat (cq_max_size q)"
  shows "j = k"
  using assms unfolding cq_index_def by (rule mod_add_inj)

lemma cq_index_0: "cq_inv q \<Longrightarrow> cq_index q 0 = unat (cq_front_index q)"
  by (simp add: cq_inv_def cq_index_def)

lemma cq_index_Suc:
  "cq_index q (Suc k) = Suc (cq_index q k) mod unat (cq_max_size q)"
  by (simp add: cq_index_def mod_Suc_eq)

lemma cq_list_length: "length (cq_list q) = unat (cq_size q)"
  by (simp add: cq_list_def)

lemma cq_Push_fields:
  assumes "cq_inv q"
  shows "unat (cq_back_index (cq_Push q v)) = cq_index q (unat (cq_size q))"
    and "cq_slots (cq_Push q v) = (cq_slots q)[cq_index q (unat (cq_size q)) := v]"
    and "cq_max_size (cq_Push q v) = cq_max_size q"
    and "unat (cq_size (cq_Push q v)) =
      (if cq_size q = cq_max_size q then unat (cq_size q) else unat (cq_size q) + 1)"
    and "unat (cq_front_index (cq_Push q v)) =
      (if cq_size q = cq_max_size q then cq_index q 1 else unat (cq_front_index q))"
proof -
  let ?n = "unat (cq_max_size q)"
  have n: "0 < ?n" "2 * ?n < 2 ^ 64" "unat (cq_size q) \<le> ?n" "unat (cq_front_index q) < ?n"
    and bk: "unat (cq_back_index q) = cq_index q (unat (cq_size q) - 1)"
    using assms by (auto simp: cq_inv_def)
  have b: "unat (if cq_size q \<noteq> 0 then (cq_back_index q + 1) mod cq_max_size q else cq_back_index q) =
      cq_index q (unat (cq_size q))"
  proof (cases "cq_size q = 0")
    case False
    then have "0 < unat (cq_size q)" by (simp add: unat_gt_0)
    then obtain m where m: "unat (cq_size q) = Suc m" by (auto simp: gr0_conv_Suc)
    have "unat ((cq_back_index q + 1) mod cq_max_size q) = Suc (cq_index q m) mod ?n"
      using bk m cq_index_lt [OF n(1)] by (simp add: unat_succ_mod)
    then show ?thesis using False m by (simp add: cq_index_Suc)
  qed (simp add: bk)
  have "cq_back_index (cq_Push q v) =
      (if cq_size q \<noteq> 0 then (cq_back_index q + 1) mod cq_max_size q else cq_back_index q)"
    by (simp add: cq_Push_def Let_def)
  then show "unat (cq_back_index (cq_Push q v)) = cq_index q (unat (cq_size q))"
    using b by simp
  have "cq_slots (cq_Push q v) = (cq_slots q)[unat (if cq_size q \<noteq> 0
      then (cq_back_index q + 1) mod cq_max_size q else cq_back_index q) := v]"
    by (simp add: cq_Push_def Let_def)
  then show "cq_slots (cq_Push q v) = (cq_slots q)[cq_index q (unat (cq_size q)) := v]"
    using b by simp
  show "cq_max_size (cq_Push q v) = cq_max_size q" by (simp add: cq_Push_def Let_def)
  have "cq_size q \<noteq> cq_max_size q \<Longrightarrow> unat (cq_size q + 1) = unat (cq_size q) + 1"
    using n by (subst unat_add_nowrap) auto
  then show "unat (cq_size (cq_Push q v)) =
      (if cq_size q = cq_max_size q then unat (cq_size q) else unat (cq_size q) + 1)"
    by (simp add: cq_Push_def Let_def)
  show "unat (cq_front_index (cq_Push q v)) =
      (if cq_size q = cq_max_size q then cq_index q 1 else unat (cq_front_index q))"
    using unat_succ_mod [OF n(4)] n(1) by (auto simp: cq_Push_def Let_def cq_index_def)
qed

lemma cq_inv_Push: "cq_inv q \<Longrightarrow> cq_inv (cq_Push q v)"
proof -
  assume I: "cq_inv q"
  let ?n = "unat (cq_max_size q)"
  note f = cq_Push_fields [OF I, of v]
  have n: "0 < ?n" "2 * ?n < 2 ^ 64" "unat (cq_size q) \<le> ?n" "unat (cq_front_index q) < ?n"
    "length (cq_slots q) = ?n"
    using I by (auto simp: cq_inv_def)
  have full: "cq_size q = cq_max_size q \<longleftrightarrow> unat (cq_size q) = ?n" by (simp add: word_unat_eq_iff)
  have "unat (cq_back_index (cq_Push q v)) =
      cq_index (cq_Push q v) (unat (cq_size (cq_Push q v)) - 1)"
  proof (cases "unat (cq_size q) = ?n")
    case True
    have "(unat (cq_front_index q) + ?n) mod ?n =
        ((unat (cq_front_index q) + 1) mod ?n + (?n - 1)) mod ?n"
      by (subst mod_add_left_eq) (use n(1) in simp)
    then show ?thesis using True f full by (simp add: cq_index_def)
  qed (use f full in \<open>simp add: cq_index_def\<close>)
  then show ?thesis
    using n f full cq_index_lt [OF n(1)] by (auto simp: cq_inv_def)
qed

lemma cq_list_Push:
  assumes I: "cq_inv q"
  shows "cq_list (cq_Push q v) =
    (if length (cq_list q) < cq_cap q then cq_list q @ [v] else tl (cq_list q) @ [v])"
proof (rule nth_equalityI)
  let ?n = "unat (cq_max_size q)" and ?s = "unat (cq_size q)"
  note f = cq_Push_fields [OF I, of v]
  have n: "0 < ?n" "?s \<le> ?n" "length (cq_slots q) = ?n" using I by (auto simp: cq_inv_def)
  have full: "cq_size q = cq_max_size q \<longleftrightarrow> ?s = ?n" by (simp add: word_unat_eq_iff)
  show len: "length (cq_list (cq_Push q v)) =
      length (if length (cq_list q) < cq_cap q then cq_list q @ [v] else tl (cq_list q) @ [v])"
    using n f(4) full by (auto simp: cq_list_length cq_cap_def)
  fix k assume k: "k < length (cq_list (cq_Push q v))"
  then have kn: "k < ?n" using f(4) full n by (auto simp: cq_list_length split: if_splits)
  have nth: "cq_list (cq_Push q v) ! k =
      (cq_slots q)[cq_index q ?s := v] ! cq_index (cq_Push q v) k"
    using k f(2) by (simp add: cq_list_def cq_list_length)
  show "cq_list (cq_Push q v) ! k =
      (if length (cq_list q) < cq_cap q then cq_list q @ [v] else tl (cq_list q) @ [v]) ! k"
  proof (cases "?s < ?n")
    case True
    then have idx: "cq_index (cq_Push q v) k = cq_index q k"
      using f(3,5) full by (simp add: cq_index_def)
    have "k < ?s \<or> k = ?s" using k f(4) full True by (auto simp: cq_list_length)
    then have "cq_list (cq_Push q v) ! k = (cq_list q @ [v]) ! k"
      unfolding nth idx using True n cq_index_inj [of q k ?s] kn cq_index_lt [OF n(1)]
      by (auto simp: nth_append cq_list_def nth_list_update)
    then show ?thesis using True by (simp add: cq_list_length cq_cap_def)
  next
    case False
    then have s: "?s = ?n" using n by simp
    have idx: "cq_index (cq_Push q v) k = cq_index q (Suc k)"
      using f(3,5) full s by (simp add: cq_index_def mod_add_left_eq)
    have last: "cq_index q ?n = cq_index q 0" by (simp add: cq_index_def)
    have "cq_list (cq_Push q v) ! k = (tl (cq_list q) @ [v]) ! k"
    proof (cases "Suc k = ?n")
      case True
      then have "cq_list (cq_Push q v) ! k = v"
        unfolding nth idx s True last using n cq_index_lt [OF n(1), of 0] by simp
      moreover have "(tl (cq_list q) @ [v]) ! k = v"
      proof -
        have "k = length (tl (cq_list q))" using True s by (simp add: cq_list_length)
        then show ?thesis by (simp only: nth_append_length)
      qed
      ultimately show ?thesis by simp
    next
      case False
      then have lt: "Suc k < ?n" using kn by simp
      have "cq_index q (Suc k) \<noteq> cq_index q 0"
        using cq_index_inj [of q "Suc k" 0] n(1) lt by auto
      then have "cq_list (cq_Push q v) ! k = cq_slots q ! cq_index q (Suc k)"
        unfolding nth idx s last by simp
      also have "\<dots> = (tl (cq_list q) @ [v]) ! k"
      proof -
        have "k < length (tl (cq_list q))" using lt s by (simp add: cq_list_length)
        then show ?thesis using lt s by (simp add: nth_append nth_tl) (simp add: cq_list_def)
      qed
      finally show ?thesis .
    qed
    then show ?thesis using s by (simp add: cq_list_length cq_cap_def)
  qed
qed

lemma cq_Pop_spec:
  assumes I: "cq_inv q" and ne: "cq_size q \<noteq> 0"
  shows "\<exists>q'. cq_Pop q = Inr q' \<and> cq_inv q' \<and> cq_list q' = tl (cq_list q) \<and> cq_cap q' = cq_cap q"
proof -
  let ?n = "unat (cq_max_size q)" and ?s = "unat (cq_size q)"
  obtain q' where q': "cq_Pop q = Inr q'" using ne by (simp add: cq_Pop_def Let_def)
  have n: "0 < ?n" "2 * ?n < 2 ^ 64" "?s \<le> ?n" "unat (cq_front_index q) < ?n"
    "length (cq_slots q) = ?n" "unat (cq_back_index q) = cq_index q (?s - 1)"
    using I by (auto simp: cq_inv_def)
  have s: "0 < ?s" using ne by (simp add: unat_gt_0)
  then have sz: "unat (cq_size q - 1) = ?s - 1" by (simp add: unat_sub word_le_nat_alt Suc_leI)
  have f: "unat (cq_size q') = ?s - 1" "cq_slots q' = cq_slots q" "cq_max_size q' = cq_max_size q"
    "cq_back_index q' = cq_back_index q"
    "unat (cq_front_index q') = (if ?s = 1 then unat (cq_front_index q) else cq_index q 1)"
    using q' ne sz s unat_succ_mod [OF n(4)]
    by (auto simp: cq_Pop_def Let_def cq_index_def unat_eq_zero [symmetric] split: if_splits)
  have idx: "cq_index q' k = cq_index q (Suc k)" if "?s \<noteq> 1" for k
    using that f(3,5) by (simp add: cq_index_def mod_add_left_eq)
  have "cq_list q' = tl (cq_list q)"
    using s f(1,2) idx
    by (cases "?s = 1") (auto simp: cq_list_def map_tl [symmetric] tl_upt map_Suc_upt [symmetric]
        simp del: upt_Suc intro!: nth_equalityI)
  moreover have "unat (cq_back_index q') = cq_index q' (unat (cq_size q') - 1)"
  proof (cases "?s = 1")
    case False
    then have "Suc (?s - 1 - 1) = ?s - 1" using s by simp
    then show ?thesis using f n(6) idx [OF False, of "?s - 1 - 1"] by simp
  qed (use f n(6) in \<open>simp add: cq_index_def\<close>)
  ultimately show ?thesis
    using q' f n s cq_index_lt [OF n(1)] by (auto simp: cq_inv_def cq_cap_def)
qed

lemma cq_next_index_step:
  assumes I: "cq_inv q" and k: "k < unat (cq_size q)" and i: "unat i = cq_index q k"
  shows "(k = 0 \<longrightarrow> cq_next_index q i = cq_invalid_index) \<and>
    (\<forall>j. k = Suc j \<longrightarrow> unat (cq_next_index q i) = cq_index q j)"
proof -
  let ?n = "unat (cq_max_size q)"
  have n: "0 < ?n" "2 * ?n < 2 ^ 64" "unat (cq_size q) \<le> ?n"
    using I by (auto simp: cq_inv_def)
  have front: "i = cq_front_index q \<longleftrightarrow> k = 0"
    using i k n cq_index_inj [of q k 0] cq_index_0 [OF I] by (auto simp: word_unat_eq_iff)
  have "unat (cq_next_index q i) = cq_index q j" if j: "k = Suc j" for j
  proof -
    have "unat (cq_next_index q i) = (unat i + ?n - 1) mod ?n"
      using front j i cq_index_lt [OF n(1)] n(2) by (simp add: cq_next_index_def unat_pred_mod)
    also have "\<dots> = (cq_index q k + (?n - 1)) mod ?n" using i n(1) by simp
    also have "\<dots> = (unat (cq_front_index q) + k + (?n - 1)) mod ?n"
      by (simp only: cq_index_def mod_add_left_eq)
    also have "\<dots> = (unat (cq_front_index q) + j + ?n) mod ?n" using j n(1) by simp
    finally show ?thesis by (simp add: cq_index_def)
  qed
  then show ?thesis using front by (simp add: cq_next_index_def)
qed

lemma cq_iterate_from:
  assumes I: "cq_inv q" and "k < unat (cq_size q)" and "unat i = cq_index q k" and "Suc k \<le> fuel"
  shows "cq_iterate fuel q i = Some (rev (take (Suc k) (cq_list q)))"
  using assms(2-)
proof (induction k arbitrary: fuel i)
  case 0
  obtain m where m: "fuel = Suc m" using 0 by (cases fuel) auto
  have lt: "cq_index q 0 < unat (cq_max_size q)" using I by (simp add: cq_inv_def cq_index_lt)
  have ninv: "i \<noteq> cq_invalid_index"
    using lt 0 I by (auto simp: cq_invalid_index_def cq_inv_def)
  have "cq_iterate m q cq_invalid_index = Some []" by (cases m) auto
  then show ?case
    using 0 m ninv cq_next_index_step [OF I 0(1,2)]
    by (simp add: cq_Value_def take_Suc_conv_app_nth cq_list_length) (simp add: cq_list_def)
next
  case (Suc k)
  obtain m where m: "fuel = Suc m" using Suc.prems by (cases fuel) auto
  have "cq_index q (Suc k) < unat (cq_max_size q)" using I by (simp add: cq_inv_def cq_index_lt)
  then have ninv: "i \<noteq> cq_invalid_index"
    using Suc.prems I by (auto simp: cq_invalid_index_def cq_inv_def)
  have "cq_iterate m q (cq_next_index q i) = Some (rev (take (Suc k) (cq_list q)))"
    using Suc.prems m cq_next_index_step [OF I Suc.prems(1,2)] by (intro Suc.IH) auto
  moreover have "cq_Value q i = cq_list q ! Suc k"
    using Suc.prems by (simp add: cq_Value_def cq_list_def)
  ultimately show ?case
    using Suc.prems m ninv
    by (simp add: take_Suc_conv_app_nth [of "Suc k"] cq_list_length del: take_Suc_Cons)
qed

text \<open>The loop over the queue ends, and visits the elements from the newest to the oldest.\<close>

lemma cq_iterate_all:
  assumes I: "cq_inv q" and fuel: "unat (cq_size q) \<le> fuel"
  shows "cq_iterate fuel q (cq_begin q) = Some (rev (cq_list q))"
proof (cases "unat (cq_size q)")
  case 0
  then have "cq_size q = 0" by (simp add: unat_eq_zero)
  then show ?thesis by (cases fuel) (auto simp: cq_begin_def cq_list_def)
next
  case (Suc k)
  then have "cq_size q \<noteq> 0" by auto
  then have "cq_iterate fuel q (cq_begin q) = Some (rev (take (Suc k) (cq_list q)))"
    using Suc fuel I by (intro cq_iterate_from) (auto simp: cq_begin_def cq_inv_def)
  then show ?thesis using Suc by (simp add: cq_list_length)
qed

lemma cq_inv_Reset: "cq_inv q \<Longrightarrow> cq_inv (cq_Reset q (cq_max_size q))"
  by (auto simp: cq_inv_def cq_Reset_def cq_index_def)

interpretation cq: bounded_queue cq_Push cq_Pop "\<lambda>q. cq_Reset q (cq_max_size q)" cq_walk
  cq_list cq_cap cq_inv
proof unfold_locales
  fix q :: "'a cq" and x
  assume I: "cq_inv q"
  show "cq_list (cq_Push q x) =
      (if length (cq_list q) < cq_cap q then cq_list q @ [x] else tl (cq_list q) @ [x])"
    using I by (rule cq_list_Push)
  show "cq_inv (cq_Push q x)" using I by (rule cq_inv_Push)
  show "cq_cap (cq_Push q x) = cq_cap q" using I by (simp add: cq_cap_def cq_Push_fields)
  have ne: "cq_list q = [] \<longleftrightarrow> cq_size q = 0"
    using cq_list_length [of q] by (auto simp: unat_eq_zero simp flip: length_0_conv)
  show "\<exists>e. cq_Pop q = Inl e" if "cq_list q = []" using that ne by (simp add: cq_Pop_def)
  show "\<exists>q'. cq_Pop q = Inr q' \<and> cq_inv q' \<and> cq_list q' = tl (cq_list q) \<and> cq_cap q' = cq_cap q"
    if "cq_list q \<noteq> []" using that ne I by (intro cq_Pop_spec) auto
  show "cq_list (cq_Reset q (cq_max_size q)) = []" by (simp add: cq_list_def cq_Reset_def)
  show "cq_inv (cq_Reset q (cq_max_size q))" using I by (rule cq_inv_Reset)
  show "cq_walk q = rev (cq_list q)" using I by (simp add: cq_walk_def cq_iterate_all)
  show "length (cq_list q) \<le> cq_cap q" using I by (simp add: cq_list_length cq_cap_def cq_inv_def)
  show "0 < cq_cap q" using I by (simp add: cq_cap_def cq_inv_def)
qed

lemma cq_Front_Back:
  assumes "cq_inv q" and "cq_size q \<noteq> 0"
  shows "cq_Front q = hd (cq_list q)" and "cq_Back q = last (cq_list q)"
  using assms cq_index_0 [of q]
  by (auto simp: cq_Front_def cq_Back_def cq_Value_def cq_list_def cq_inv_def hd_map last_map
      unat_gt_0 hd_upt unat_eq_zero)

text \<open>A freshly mapped and reset queue with \<open>n\<close> slots, whatever the memory held before.\<close>

lemma cq_inv_fresh:
  assumes "0 < unat n" "2 * unat n < 2 ^ 64" "length (cq_slots q) = unat n"
  shows "cq_inv (cq_Reset q n)" and "cq_list (cq_Reset q n) = []" and "cq_cap (cq_Reset q n) = unat n"
  using assms by (auto simp: cq_inv_def cq_Reset_def cq_index_def cq_list_def cq_cap_def)

text \<open>
  C28. After a reset and any number of \<open>Push\<close>es, a loop over the ring buffer visits the most
  recently pushed elements, newest first, and only the oldest ones beyond the capacity are
  gone.
\<close>

theorem cq_pushes_visited:
  assumes "0 < unat n" and "2 * unat n < 2 ^ 64" and "length (cq_slots q) = unat n"
  shows "let q' = foldl cq_Push (cq_Reset q n) xs
    in cq_iterate (unat n) q' (cq_begin q') = Some (take (unat n) (rev xs))"
proof -
  let ?r = "cq_Reset q n"
  have r: "cq_inv ?r" "cq_list ?r = []" "cq_cap ?r = unat n" using cq_inv_fresh [OF assms] by auto
  let ?q = "foldl cq_Push ?r xs"
  have I: "cq_inv ?q" "cq_cap ?q = unat n" using cq.pushes_invar [OF r(1)] r(3) by auto
  then have "unat (cq_size ?q) \<le> unat n" by (simp add: cq_inv_def cq_cap_def)
  then have "cq_iterate (unat n) ?q (cq_begin ?q) = Some (rev (cq_list ?q))"
    using I(1) by (rule cq_iterate_all [rotated])
  moreover have "rev (cq_list ?q) = take (unat n) (rev xs)"
    using cq.pushes_walk [OF r(1,2), of xs] cq.walk_content [OF I(1)] r(3) by simp
  ultimately show ?thesis by simp
qed

theorem cq_pushes_visited_witness:
  "let q' = foldl cq_Push (cq_Reset \<lparr>cq_back_index = 7, cq_front_index = 9, cq_size = 5,
      cq_max_size = 1, cq_slots = [0, 0, 0 :: nat]\<rparr> 3) [1, 2, 3, 4, 5]
   in cq_iterate 3 q' (cq_begin q') = Some [5, 4, 3]"
  using cq_pushes_visited [of 3 "\<lparr>cq_back_index = 7, cq_front_index = 9, cq_size = 5,
      cq_max_size = 1, cq_slots = [0, 0, 0 :: nat]\<rparr>" "[1, 2, 3, 4, 5]"]
  by simp

end
