(* ===== verification/Expiration_Map.thy ===== *)
theory Expiration_Map
  imports Std_Map
begin

text \<open>
  \<open>ecal/core/src/util/ecal_expmap.h\<close>: \<open>CExpirationMap\<close>, a map whose entries expire. As in the
  code there are two structures: the list of access timestamps, oldest first, and the map from a
  key to its value and an iterator into the list. A list iterator is the number of its node, which
  stays valid while other nodes are moved or erased, as a \<open>std::list\<close> iterator does; the next
  fresh number is part of the state. \<open>get_curr_time()\<close> is the argument \<open>now\<close>. Dereferencing
  \<open>end()\<close>, undefined in C++, is \<open>None\<close>.
\<close>

subsection \<open>State and operations\<close>

record 'k em_node =
  en_id :: nat
  en_timestamp :: time_point
  en_key :: 'k

record ('k, 'v) emap =
  em_list :: "'k em_node list"
  em_map :: "('k, 'v \<times> nat) omap"
  em_timeout :: int
  em_fresh :: nat

definition em_new :: "int \<Rightarrow> ('k, 'v) emap" where
  "em_new t = \<lparr>em_list = [], em_map = [], em_timeout = t, em_fresh = 0\<rparr>"

definition em_set_expiration :: "('k, 'v) emap \<Rightarrow> int \<Rightarrow> ('k, 'v) emap" where
  "em_set_expiration m t = m\<lparr>em_timeout := t\<rparr>"

definition em_empty :: "('k, 'v) emap \<Rightarrow> bool" where
  "em_empty m \<longleftrightarrow> em_map m = []"

definition em_size :: "('k, 'v) emap \<Rightarrow> nat" where
  "em_size m = length (em_map m)"

text \<open>The pairs \<open>operator*\<close> of the iterator gives, from \<open>begin()\<close> to \<open>end()\<close>.\<close>

definition em_items :: "('k, 'v) emap \<Rightarrow> ('k \<times> 'v) list" where
  "em_items m = map (\<lambda>(k, v, _). (k, v)) (em_map m)"

definition em_find :: "('k \<Rightarrow> 'o::linorder) \<Rightarrow> ('k, 'v) emap \<Rightarrow> 'k \<Rightarrow> 'v option" where
  "em_find pr m k = map_option fst (om_find pr (em_map m) k)"

text \<open>\<open>at\<close>: \<open>None\<close> is the \<open>std::out_of_range\<close> of \<open>std::map::at\<close>.\<close>

definition em_at :: "('k \<Rightarrow> 'o::linorder) \<Rightarrow> ('k, 'v) emap \<Rightarrow> 'k \<Rightarrow> 'v option" where
  "em_at pr m k = (case om_find pr (em_map m) k of Some (v, _) \<Rightarrow> Some v | None \<Rightarrow> None)"

text \<open>The node is appended to the list even when the map keeps the entry it has.\<close>

definition em_insert ::
  "('k \<Rightarrow> 'o::linorder) \<Rightarrow> time_point \<Rightarrow> ('k, 'v) emap \<Rightarrow> 'k \<Rightarrow> 'v \<Rightarrow> bool \<times> ('k, 'v) emap" where
  "em_insert pr now m k v =
     (om_find pr (em_map m) k = None,
      m\<lparr>em_list := em_list m @ [\<lparr>en_id = em_fresh m, en_timestamp = now, en_key = k\<rparr>],
        em_map := om_emplace pr (em_map m) k (v, em_fresh m),
        em_fresh := em_fresh m + 1\<rparr>)"

definition em_update_timestamp :: "time_point \<Rightarrow> ('k, 'v) emap \<Rightarrow> nat \<Rightarrow> ('k, 'v) emap" where
  "em_update_timestamp now m i =
     m\<lparr>em_list := filter (\<lambda>n. en_id n \<noteq> i) (em_list m) @
        map (\<lambda>n. n\<lparr>en_timestamp := now\<rparr>) (filter (\<lambda>n. en_id n = i) (em_list m))\<rparr>"

text \<open>\<open>update\<close> with the iterator of a key; \<open>None\<close> for \<open>end()\<close>.\<close>

definition em_update ::
  "('k \<Rightarrow> 'o::linorder) \<Rightarrow> time_point \<Rightarrow> ('k, 'v) emap \<Rightarrow> 'k \<Rightarrow> ('k, 'v) emap option" where
  "em_update pr now m k =
     (case om_find pr (em_map m) k of
        None \<Rightarrow> None
      | Some (_, i) \<Rightarrow> Some (em_update_timestamp now m i))"

text \<open>\<open>operator[]\<close>; \<open>d\<close> is \<open>T{}\<close>.\<close>

definition em_access ::
  "('k \<Rightarrow> 'o::linorder) \<Rightarrow> time_point \<Rightarrow> 'v \<Rightarrow> ('k, 'v) emap \<Rightarrow> 'k \<Rightarrow> 'v \<times> ('k, 'v) emap" where
  "em_access pr now d m k =
     (case om_find pr (em_map m) k of
        None \<Rightarrow> (d, snd (em_insert pr now m k d))
      | Some (v, i) \<Rightarrow> (v, em_update_timestamp now m i))"

definition em_erase ::
  "('k \<Rightarrow> 'o::linorder) \<Rightarrow> ('k, 'v) emap \<Rightarrow> 'k \<Rightarrow> bool \<times> ('k, 'v) emap" where
  "em_erase pr m k =
     (case om_find pr (em_map m) k of
        None \<Rightarrow> (False, m)
      | Some (_, i) \<Rightarrow>
          (True, m\<lparr>em_list := filter (\<lambda>n. en_id n \<noteq> i) (em_list m), em_map := om_erase pr (em_map m) k\<rparr>))"

definition em_clear :: "('k, 'v) emap \<Rightarrow> ('k, 'v) emap" where
  "em_clear m = m\<lparr>em_map := [], em_list := []\<rparr>"

text \<open>The loop of \<open>erase_expired\<close>.\<close>

fun em_expire ::
  "('k \<Rightarrow> 'o::linorder) \<Rightarrow> time_point \<Rightarrow> 'k em_node list \<Rightarrow> ('k, 'v \<times> nat) omap \<Rightarrow> ('k, 'v) omap \<Rightarrow>
   (('k, 'v) omap \<times> 'k em_node list \<times> ('k, 'v \<times> nat) omap) option" where
  "em_expire pr limit [] mp erased = Some (erased, [], mp)"
| "em_expire pr limit (n # ns) mp erased =
     (if en_timestamp n < limit
      then case om_find pr mp (en_key n) of
          None \<Rightarrow> None
        | Some (v, _) \<Rightarrow>
            em_expire pr limit ns (om_erase pr mp (en_key n)) (om_set pr erased (en_key n) v)
      else Some (erased, n # ns, mp))"

definition em_erase_expired ::
  "('k \<Rightarrow> 'o::linorder) \<Rightarrow> time_point \<Rightarrow> ('k, 'v) emap \<Rightarrow> (('k, 'v) omap \<times> ('k, 'v) emap) option" where
  "em_erase_expired pr now m =
     (case em_expire pr (now - em_timeout m) (em_list m) (em_map m) [] of
        None \<Rightarrow> None
      | Some (erased, l, mp) \<Rightarrow> Some (erased, m\<lparr>em_list := l, em_map := mp\<rparr>))"

subsection \<open>Well-formedness and the abstract map\<close>

text \<open>
  Every key has exactly one node, the one its iterator names, and the list is sorted by time. The
  abstract value of a key is its value with the time of its last access.
\<close>

fun em_stamp :: "'k em_node list \<Rightarrow> nat \<Rightarrow> time_point" where
  "em_stamp [] i = 0"
| "em_stamp (n # ns) i = (if en_id n = i then en_timestamp n else em_stamp ns i)"

definition em_look ::
  "('k \<Rightarrow> 'o::linorder) \<Rightarrow> 'k em_node list \<Rightarrow> ('k, 'v \<times> nat) omap \<Rightarrow> 'k \<Rightarrow> ('v \<times> time_point) option" where
  "em_look pr l mp k = map_option (\<lambda>(v, i). (v, em_stamp l i)) (om_find pr mp k)"

definition em_abs :: "('k \<Rightarrow> 'o::linorder) \<Rightarrow> ('k, 'v) emap \<Rightarrow> 'k \<Rightarrow> ('v \<times> time_point) option" where
  "em_abs pr m = em_look pr (em_list m) (em_map m)"

definition em_linked :: "('k \<Rightarrow> 'o::linorder) \<Rightarrow> 'k em_node list \<Rightarrow> ('k, 'v \<times> nat) omap \<Rightarrow> bool" where
  "em_linked pr l mp \<longleftrightarrow>
     om_invar pr mp \<and> distinct (map en_id l) \<and> distinct (map (pr \<circ> en_key) l) \<and>
     sorted (map en_timestamp l) \<and>
     (\<forall>k. case om_find pr mp k of
        None \<Rightarrow> pr k \<notin> (pr \<circ> en_key) ` set l
      | Some (v, i) \<Rightarrow> (\<exists>n \<in> set l. en_id n = i \<and> pr (en_key n) = pr k))"

definition em_inv :: "('k \<Rightarrow> 'o::linorder) \<Rightarrow> time_point \<Rightarrow> ('k, 'v) emap \<Rightarrow> bool" where
  "em_inv pr now m \<longleftrightarrow>
     em_linked pr (em_list m) (em_map m) \<and>
     (\<forall>n \<in> set (em_list m). en_id n < em_fresh m \<and> en_timestamp n \<le> now)"

lemma em_linkedD:
  assumes "em_linked pr l mp"
  shows "om_invar pr mp" "distinct (map en_id l)" "distinct (map (pr \<circ> en_key) l)"
    "sorted (map en_timestamp l)"
    "om_find pr mp k = None \<Longrightarrow> pr k \<notin> (pr \<circ> en_key) ` set l"
    "om_find pr mp k = Some (v, i) \<Longrightarrow> \<exists>n \<in> set l. en_id n = i \<and> pr (en_key n) = pr k"
  using assms unfolding em_linked_def by (auto split: option.splits dest: spec [of _ k])

lemma em_stamp_node: "distinct (map en_id l) \<Longrightarrow> n \<in> set l \<Longrightarrow> em_stamp l (en_id n) = en_timestamp n"
  by (induction l) auto

text \<open>The node with a key is the one its iterator names.\<close>

lemma em_node_of_key:
  assumes "em_linked pr l mp" "n \<in> set l" "pr (en_key n) = pr k"
  obtains v where "om_find pr mp k = Some (v, en_id n)"
proof -
  from em_linkedD(5) [OF assms(1), of k] assms(2,3) obtain v i where vi: "om_find pr mp k = Some (v, i)"
    by (cases "om_find pr mp k") (force simp: image_iff)+
  with em_linkedD(6) [OF assms(1)] obtain n' where n': "n' \<in> set l" "en_id n' = i" "pr (en_key n') = pr k"
    by blast
  then have "n' = n"
    using em_linkedD(3) [OF assms(1)] assms(2,3) by (auto simp: distinct_map inj_on_def)
  with vi n' that show ?thesis by simp
qed

lemma em_key_of_id:
  assumes "em_linked pr l mp" "n \<in> set l" "om_find pr mp k = Some (v, en_id n)"
  shows "pr (en_key n) = pr k"
proof -
  from em_linkedD(6) [OF assms(1,3)] obtain n' where n': "n' \<in> set l" "en_id n' = en_id n" "pr (en_key n') = pr k"
    by blast
  then have "n' = n" using em_linkedD(2) [OF assms(1)] assms(2) by (auto simp: distinct_map inj_on_def)
  with n' show ?thesis by simp
qed

subsection \<open>Every operation keeps the two structures linked\<close>

lemma em_linked_remove:
  assumes "em_linked pr l mp" "om_find pr mp k = Some (v, i)"
  shows "em_linked pr (filter (\<lambda>n. en_id n \<noteq> i) l) (om_erase pr mp k)"
proof -
  let ?l = "filter (\<lambda>n. en_id n \<noteq> i) l" and ?mp = "om_erase pr mp k"
  note L = em_linkedD [OF assms(1)]
  obtain n where n: "n \<in> set l" "en_id n = i" "pr (en_key n) = pr k"
    using L(6) [OF assms(2)] by blast
  have other: "en_id n' \<noteq> i \<longleftrightarrow> pr (en_key n') \<noteq> pr k" if "n' \<in> set l" for n'
    using that n L(2,3) by (auto simp: distinct_map inj_on_def)
  have "case om_find pr ?mp k' of None \<Rightarrow> pr k' \<notin> (pr \<circ> en_key) ` set ?l
      | Some (v, j) \<Rightarrow> \<exists>n \<in> set ?l. en_id n = j \<and> pr (en_key n) = pr k'" for k'
  proof (cases "pr k = pr k'")
    case True
    then show ?thesis using other by (auto simp: om_find_erase [OF L(1)])
  next
    case False
    then have e: "om_find pr ?mp k' = om_find pr mp k'" by (simp add: om_find_erase [OF L(1)])
    show ?thesis
    proof (cases "om_find pr mp k'")
      case None
      then show ?thesis using L(5) [OF None] by (auto simp: e)
    next
      case (Some vj)
      then obtain w j where "om_find pr mp k' = Some (w, j)" by (cases vj) auto
      then show ?thesis using L(6) [of k' w j] other False by (fastforce simp: e)
    qed
  qed
  then show ?thesis using L(1,2,3,4)
    by (auto simp: em_linked_def distinct_map inj_on_def sorted_wrt_map_filter)
qed

lemma em_linked_append:
  assumes "em_linked pr l mp" "om_find pr mp k = None" "i \<notin> en_id ` set l"
    "\<forall>n \<in> set l. en_timestamp n \<le> now"
  shows "em_linked pr (l @ [\<lparr>en_id = i, en_timestamp = now, en_key = k\<rparr>]) (om_set pr mp k (v, i))"
proof -
  let ?n = "\<lparr>en_id = i, en_timestamp = now, en_key = k\<rparr>"
  note L = em_linkedD [OF assms(1)]
  have "case om_find pr (om_set pr mp k (v, i)) k' of
        None \<Rightarrow> pr k' \<notin> (pr \<circ> en_key) ` set (l @ [?n])
      | Some (v, j) \<Rightarrow> \<exists>n \<in> set (l @ [?n]). en_id n = j \<and> pr (en_key n) = pr k'" for k'
    using L(5) [of k'] L(6) [of k'] by (auto simp: om_find_set split: option.splits)
  moreover have "pr k \<notin> (pr \<circ> en_key) ` set l" using L(5) [OF assms(2)] .
  ultimately show ?thesis using L(1,2,3,4) assms(3,4)
    by (auto simp: em_linked_def sorted_append)
qed

lemma em_linked_touch:
  assumes "em_linked pr l mp" "\<forall>n \<in> set l. en_timestamp n \<le> now" "om_find pr mp k = Some (v, i)"
  shows "em_linked pr (filter (\<lambda>n. en_id n \<noteq> i) l @
    map (\<lambda>n. n\<lparr>en_timestamp := now\<rparr>) (filter (\<lambda>n. en_id n = i) l)) mp" (is "em_linked pr ?l mp")
proof -
  note L = em_linkedD [OF assms(1)]
  obtain n where n: "n \<in> set l" "en_id n = i" using L(6) [OF assms(3)] by blast
  have "filter (\<lambda>n. en_id n = i) l = [n]" using n L(2)
    by (induction l) (auto simp: filter_empty_conv image_iff)
  then have l: "?l = filter (\<lambda>n. en_id n \<noteq> i) l @ [n\<lparr>en_timestamp := now\<rparr>]" by simp
  have K: "(\<lambda>n. (en_id n, pr (en_key n))) ` set ?l = (\<lambda>n. (en_id n, pr (en_key n))) ` set l"
    by (simp add: image_Un image_image) auto
  have "case om_find pr mp k' of None \<Rightarrow> pr k' \<notin> (pr \<circ> en_key) ` set ?l
      | Some (v, j) \<Rightarrow> \<exists>n \<in> set ?l. en_id n = j \<and> pr (en_key n) = pr k'" for k'
  proof (cases "om_find pr mp k'")
    case None
    then show ?thesis using L(5) [OF None] by (auto simp: image_iff)
  next
    case (Some wj)
    then obtain w j where wj: "om_find pr mp k' = Some (w, j)" by (cases wj) auto
    then have "(j, pr k') \<in> (\<lambda>n. (en_id n, pr (en_key n))) ` set l" using L(6) [OF wj] by force
    then show ?thesis unfolding K [symmetric] wj by force
  qed
  moreover have "distinct (map (pr \<circ> en_key) ?l)" "distinct (map en_id ?l)"
    using L(2,3) n unfolding l by (auto simp: distinct_map inj_on_def)
  moreover have "sorted (map en_timestamp ?l)"
    using L(4) assms(2) unfolding l by (auto simp: sorted_append sorted_wrt_map_filter)
  ultimately show ?thesis using L(1) by (simp add: em_linked_def)
qed

lemma em_inv_new [simp]: "em_inv pr now (em_new t)"
  by (simp add: em_inv_def em_new_def em_linked_def)

lemma em_inv_clear [simp]: "em_inv pr now (em_clear m)"
  by (simp add: em_inv_def em_clear_def em_linked_def)

lemma em_inv_later: "em_inv pr now m \<Longrightarrow> now \<le> now' \<Longrightarrow> em_inv pr now' m"
  by (force simp: em_inv_def)

lemma em_inv_insert [ecal_inv]:
  "em_inv pr now m \<Longrightarrow> em_find pr m k = None \<Longrightarrow> em_inv pr now (snd (em_insert pr now m k v))"
  using em_linked_append [of pr "em_list m" "em_map m" k "em_fresh m" now v]
  by (force simp: em_inv_def em_insert_def em_find_def om_emplace_def)

lemma em_inv_update [ecal_inv]:
  "em_inv pr now m \<Longrightarrow> em_update pr now m k = Some m' \<Longrightarrow> em_inv pr now m'"
  using em_linked_touch [of pr "em_list m" "em_map m" now k]
  by (auto simp: em_inv_def em_update_def em_update_timestamp_def split: option.splits)

lemma em_inv_erase [ecal_inv]: "em_inv pr now m \<Longrightarrow> em_inv pr now (snd (em_erase pr m k))"
  using em_linked_remove [of pr "em_list m" "em_map m" k]
  by (auto simp: em_inv_def em_erase_def split: option.splits)

subsection \<open>The abstract map\<close>

lemma em_stamp_append:
  "em_stamp (l @ [n]) i = (if i \<in> en_id ` set l then em_stamp l i
    else if en_id n = i then en_timestamp n else 0)"
  by (induction l) auto

lemma em_stamp_filter: "j \<noteq> i \<Longrightarrow> em_stamp (filter (\<lambda>n. en_id n \<noteq> i) l) j = em_stamp l j"
  by (induction l) auto

lemma em_stamp_touch:
  fixes l :: "'k em_node list"
  shows "em_stamp (filter (\<lambda>n. en_id n \<noteq> i) l @ map (\<lambda>n. n\<lparr>en_timestamp := now\<rparr>) (filter (\<lambda>n. en_id n = i) l)) j =
    (if j = i then (if i \<in> en_id ` set l then now else 0) else em_stamp l j)"
proof -
  have "em_stamp (a @ map (\<lambda>n. n\<lparr>en_timestamp := now\<rparr>) b) j =
      (if j \<in> en_id ` set a then em_stamp a j else if j \<in> en_id ` set b then now else 0)" for a b :: "'k em_node list"
    by (induction a) (induction b, auto)
  moreover have "j \<notin> en_id ` set l \<Longrightarrow> em_stamp l j = 0" by (induction l) auto
  ultimately show ?thesis by (auto simp: em_stamp_filter)
qed

text \<open>Insertion, access and removal on the abstract map.\<close>

lemma em_abs_None: "em_abs pr m k = None \<longleftrightarrow> em_find pr m k = None"
  by (simp add: em_abs_def em_look_def em_find_def)

lemma em_find_abs: "em_find pr m k = map_option fst (em_abs pr m k)"
  by (cases "om_find pr (em_map m) k") (auto simp: em_abs_def em_look_def em_find_def)

lemma em_abs_insert:
  assumes "em_inv pr now m" "em_find pr m k = None"
  shows "em_abs pr (snd (em_insert pr now m k v)) k' = (if pr k = pr k' then Some (v, now) else em_abs pr m k')"
proof (cases "pr k = pr k'")
  case True
  have "em_fresh m \<notin> en_id ` set (em_list m)" using assms(1) by (auto simp: em_inv_def)
  then show ?thesis using True assms(2)
    by (simp add: em_abs_def em_look_def em_insert_def om_find_emplace em_find_def em_stamp_append)
next
  case False
  have "i \<in> en_id ` set (em_list m)" if "om_find pr (em_map m) k' = Some (w, i)" for w i
    using em_linkedD(6) [OF _ that] assms(1) by (force simp: em_inv_def)
  then show ?thesis using False
    by (cases "om_find pr (em_map m) k'")
      (auto simp: em_abs_def em_look_def em_insert_def om_find_emplace em_stamp_append)
qed

lemma em_id_inj:
  assumes "em_linked pr l mp" "om_find pr mp k = Some (v, i)" "om_find pr mp k' = Some (w, i)"
  shows "pr k = pr k'"
proof -
  obtain n where "n \<in> set l" "en_id n = i" using em_linkedD(6) [OF assms(1,2)] by blast
  then show ?thesis using em_key_of_id [OF assms(1)] assms(2,3) by metis
qed

lemma em_abs_touch:
  assumes "em_inv pr now m" "om_find pr (em_map m) k = Some (v, i)"
  shows "em_abs pr (em_update_timestamp now m i) k' = (if pr k = pr k' then Some (v, now) else em_abs pr m k')"
proof -
  have L: "em_linked pr (em_list m) (em_map m)" using assms(1) by (simp add: em_inv_def)
  have i: "i \<in> en_id ` set (em_list m)" using em_linkedD(6) [OF L assms(2)] by blast
  show ?thesis
  proof (cases "pr k = pr k'")
    case True
    then have "om_find pr (em_map m) k' = Some (v, i)"
      using assms(2) om_find_cong by metis
    then show ?thesis using True i
      by (simp add: em_abs_def em_look_def em_update_timestamp_def em_stamp_touch)
  next
    case False
    then have "j \<noteq> i" if "om_find pr (em_map m) k' = Some (w, j)" for w j
      using em_id_inj [OF L assms(2)] that by metis
    then show ?thesis using False
      by (cases "om_find pr (em_map m) k'")
        (auto simp: em_abs_def em_look_def em_update_timestamp_def em_stamp_touch)
  qed
qed

lemma em_abs_update:
  assumes "em_inv pr now m"
  shows "em_update pr now m k = None \<longleftrightarrow> em_find pr m k = None"
    and "em_update pr now m k = Some m' \<Longrightarrow>
      em_abs pr m' k' = (if pr k = pr k' then map_option (\<lambda>(v, _). (v, now)) (em_abs pr m k) else em_abs pr m k')"
  using em_abs_touch [OF assms, of k]
  by (auto simp: em_update_def em_find_def em_abs_def [of _ m] em_look_def split: option.splits)

lemma em_abs_erase:
  assumes "em_inv pr now m"
  shows "em_abs pr (snd (em_erase pr m k)) k' = (if pr k = pr k' then None else em_abs pr m k')"
proof (cases "om_find pr (em_map m) k")
  case None
  have "em_abs pr m k' = None" if "pr k = pr k'"
    using None that by (simp add: em_abs_None em_find_def om_find_None_iff)
  then show ?thesis using None by (simp add: em_erase_def)
next
  case (Some vi)
  then obtain v i where vi: "om_find pr (em_map m) k = Some (v, i)" by (cases vi) auto
  have L: "em_linked pr (em_list m) (em_map m)" using assms by (simp add: em_inv_def)
  have "j \<noteq> i" if "om_find pr (em_map m) k' = Some (w, j)" "pr k \<noteq> pr k'" for w j
    using em_id_inj [OF L vi] that by metis
  then show ?thesis
    by (cases "om_find pr (em_map m) k'")
      (auto simp: em_abs_def em_look_def em_erase_def vi om_find_erase [OF em_linkedD(1) [OF L]] em_stamp_filter)
qed

subsection \<open>Expiry\<close>

lemma em_linked_tl:
  assumes "em_linked pr (n # ns) mp" "om_find pr mp (en_key n) = Some (v, i)"
  shows "i = en_id n" "em_linked pr ns (om_erase pr mp (en_key n))"
proof -
  obtain w where "om_find pr mp (en_key n) = Some (w, en_id n)"
    by (rule em_node_of_key [OF assms(1), of n "en_key n"]) auto
  then show i: "i = en_id n" using assms(2) by simp
  have "filter (\<lambda>m. en_id m \<noteq> i) (n # ns) = ns"
    using em_linkedD(2) [OF assms(1)] by (auto simp: i filter_id_conv image_iff)
  then show "em_linked pr ns (om_erase pr mp (en_key n))"
    using em_linked_remove [OF assms] by simp
qed

lemma em_look_tl:
  assumes "em_linked pr (n # ns) mp" "om_find pr mp (en_key n) = Some (v, i)"
  shows "em_look pr ns (om_erase pr mp (en_key n)) k =
      (if pr (en_key n) = pr k then None else em_look pr (n # ns) mp k)"
    and "pr (en_key n) = pr k \<Longrightarrow> em_look pr (n # ns) mp k = Some (v, en_timestamp n)"
proof -
  note i = em_linked_tl(1) [OF assms]
  have "j \<noteq> i" if "om_find pr mp k = Some (w, j)" "pr (en_key n) \<noteq> pr k" for w j
    using em_id_inj [OF assms] that by metis
  then show "em_look pr ns (om_erase pr mp (en_key n)) k =
      (if pr (en_key n) = pr k then None else em_look pr (n # ns) mp k)"
    by (cases "om_find pr mp k")
      (auto simp: em_look_def om_find_erase [OF em_linkedD(1) [OF assms(1)]] i)
  show "em_look pr (n # ns) mp k = Some (v, en_timestamp n)" if "pr (en_key n) = pr k"
  proof -
    have "om_find pr mp k = Some (v, en_id n)" using assms(2) i om_find_cong [of pr "en_key n" k] that by metis
    then show ?thesis by (simp add: em_look_def)
  qed
qed

lemma em_look_recent:
  assumes "em_linked pr (n # ns) mp" "\<not> en_timestamp n < limit" "em_look pr (n # ns) mp k = Some (v, t)"
  shows "\<not> t < limit"
proof -
  obtain i where i: "om_find pr mp k = Some (v, i)" "t = em_stamp (n # ns) i"
    using assms(3) by (auto simp: em_look_def)
  then obtain n' where "n' \<in> set (n # ns)" "en_id n' = i"
    using em_linkedD(6) [OF assms(1) i(1)] by blast
  then have "t = en_timestamp n'" "n' \<in> set (n # ns)"
    using i(2) em_stamp_node [OF em_linkedD(2) [OF assms(1)]] by metis+
  then show ?thesis using em_linkedD(4) [OF assms(1)] assms(2) by auto
qed

lemma em_expire_spec:
  assumes "em_linked pr l mp"
  shows "\<exists>er' l' mp'. em_expire pr limit l mp er = Some (er', l', mp') \<and>
    em_linked pr l' mp' \<and> set l' \<subseteq> set l \<and> (om_invar pr er \<longrightarrow> om_invar pr er') \<and>
    (\<forall>k. em_look pr l' mp' k =
      (case em_look pr l mp k of Some (v, t) \<Rightarrow> if t < limit then None else Some (v, t) | None \<Rightarrow> None)) \<and>
    (\<forall>k. om_find pr er' k =
      (case em_look pr l mp k of Some (v, t) \<Rightarrow> if t < limit then Some v else om_find pr er k
        | None \<Rightarrow> om_find pr er k))"
  using assms
proof (induction pr limit l mp er rule: em_expire.induct)
  case (1 pr limit mp er)
  have "om_find pr mp k = None" for k
    using em_linkedD(6) [OF 1] by (cases "om_find pr mp k") auto
  then show ?case using 1 by (simp add: em_look_def)
next
  case (2 pr limit n ns mp er)
  show ?case
  proof (cases "en_timestamp n < limit")
    case False
    then have "em_look pr (n # ns) mp k = None \<or>
        (\<exists>v t. em_look pr (n # ns) mp k = Some (v, t) \<and> \<not> t < limit)" for k
      using em_look_recent [OF 2(2) False] by (cases "em_look pr (n # ns) mp k") auto
    then show ?thesis using False 2(2) by (auto split: option.splits) (metis option.discI option.inject prod.inject)+
  next
    case True
    obtain v where v: "om_find pr mp (en_key n) = Some (v, en_id n)"
      by (rule em_node_of_key [OF 2(2), of n "en_key n"]) auto
    from 2(1) [OF True v refl em_linked_tl(2) [OF 2(2) v]]
    obtain er' l' mp' where IH: "em_expire pr limit ns (om_erase pr mp (en_key n)) (om_set pr er (en_key n) v) =
        Some (er', l', mp')" "em_linked pr l' mp'" "set l' \<subseteq> set ns" "om_invar pr er \<Longrightarrow> om_invar pr er'"
      and look: "\<forall>k. em_look pr l' mp' k = (case em_look pr ns (om_erase pr mp (en_key n)) k of
        Some (v, t) \<Rightarrow> if t < limit then None else Some (v, t) | None \<Rightarrow> None)"
      and er': "\<forall>k. om_find pr er' k = (case em_look pr ns (om_erase pr mp (en_key n)) k of
        Some (w, t) \<Rightarrow> if t < limit then Some w else om_find pr (om_set pr er (en_key n) v) k
        | None \<Rightarrow> om_find pr (om_set pr er (en_key n) v) k)"
      by (elim exE conjE, intro that) (assumption | simp)+
    note tl = em_look_tl [OF 2(2) v]
    have "em_look pr l' mp' k = (case em_look pr (n # ns) mp k of
        Some (v, t) \<Rightarrow> if t < limit then None else Some (v, t) | None \<Rightarrow> None)" for k
      using True tl(2) [of k] by (simp add: look tl(1))
    moreover have "om_find pr er' k = (case em_look pr (n # ns) mp k of
        Some (v, t) \<Rightarrow> if t < limit then Some v else om_find pr er k | None \<Rightarrow> om_find pr er k)" for k
      using True tl(2) [of k] by (simp add: er' tl(1) om_find_set split: option.splits)
    ultimately show ?thesis using IH True v by auto
  qed
qed

lemma em_erase_expired_spec:
  assumes "em_inv pr now m"
  shows "\<exists>er m'. em_erase_expired pr now m = Some (er, m') \<and> em_inv pr now m' \<and> om_invar pr er \<and>
    em_timeout m' = em_timeout m \<and>
    (\<forall>k. em_abs pr m' k = (case em_abs pr m k of
        Some (v, t) \<Rightarrow> if t < now - em_timeout m then None else Some (v, t) | None \<Rightarrow> None)) \<and>
    (\<forall>k. om_find pr er k = (case em_abs pr m k of
        Some (v, t) \<Rightarrow> if t < now - em_timeout m then Some v else None | None \<Rightarrow> None))"
proof -
  have L: "em_linked pr (em_list m) (em_map m)" using assms by (simp add: em_inv_def)
  obtain er l mp where e: "em_expire pr (now - em_timeout m) (em_list m) (em_map m) [] = Some (er, l, mp)"
    "em_linked pr l mp" "set l \<subseteq> set (em_list m)" "om_invar pr er"
    "\<forall>k. em_look pr l mp k = (case em_look pr (em_list m) (em_map m) k of
        Some (v, t) \<Rightarrow> if t < now - em_timeout m then None else Some (v, t) | None \<Rightarrow> None)"
    "\<forall>k. om_find pr er k = (case em_look pr (em_list m) (em_map m) k of
        Some (v, t) \<Rightarrow> if t < now - em_timeout m then Some v else om_find pr [] k
        | None \<Rightarrow> om_find pr [] k)"
    using em_expire_spec [OF L, of "now - em_timeout m" "[]"] by auto
  then show ?thesis using assms
    by (auto simp: em_erase_expired_def em_inv_def em_abs_def split: option.splits)
qed

subsection \<open>The interface\<close>

text \<open>
  What a user of the map relies on, stated on the abstract map \<open>look\<close>: a key's value with the
  time of its last access.
\<close>

locale expiring_map =
  fixes look :: "'m \<Rightarrow> 'k \<Rightarrow> ('v \<times> time_point) option"
    and ins :: "time_point \<Rightarrow> 'm \<Rightarrow> 'k \<Rightarrow> 'v \<Rightarrow> 'm"
    and upd :: "time_point \<Rightarrow> 'm \<Rightarrow> 'k \<Rightarrow> 'm option"
    and del :: "'m \<Rightarrow> 'k \<Rightarrow> 'm"
    and expire :: "time_point \<Rightarrow> 'm \<Rightarrow> ('e \<times> 'm) option"
    and erased :: "'e \<Rightarrow> 'k \<Rightarrow> 'v option"
    and timeout :: "'m \<Rightarrow> int"
    and same :: "'k \<Rightarrow> 'k \<Rightarrow> bool"
    and inv :: "time_point \<Rightarrow> 'm \<Rightarrow> bool"
  assumes inv_later: "inv now m \<Longrightarrow> now \<le> now' \<Longrightarrow> inv now' m"
    and ins: "inv now m \<Longrightarrow> look m k = None \<Longrightarrow> inv now (ins now m k v) \<and>
      timeout (ins now m k v) = timeout m \<and>
      look (ins now m k v) k' = (if same k k' then Some (v, now) else look m k')"
    and upd: "inv now m \<Longrightarrow> look m k = Some (v, t) \<Longrightarrow> \<exists>m'. upd now m k = Some m' \<and> inv now m' \<and>
      timeout m' = timeout m \<and> (\<forall>k'. look m' k' = (if same k k' then Some (v, now) else look m k'))"
    and del: "inv now m \<Longrightarrow> inv now (del m k) \<and> timeout (del m k) = timeout m \<and>
      look (del m k) k' = (if same k k' then None else look m k')"
    and expire: "inv now m \<Longrightarrow> \<exists>er m'. expire now m = Some (er, m') \<and> inv now m' \<and>
      timeout m' = timeout m \<and>
      (\<forall>k. look m' k = (case look m k of
        Some (v, t) \<Rightarrow> if t < now - timeout m then None else Some (v, t) | None \<Rightarrow> None)) \<and>
      (\<forall>k. erased er k = (case look m k of
        Some (v, t) \<Rightarrow> if t < now - timeout m then Some v else None | None \<Rightarrow> None))"
    and same_refl: "same k k"
begin

text \<open>Insert a key that is not there, refresh one that is: neither fails, and the key is fresh.\<close>

lemma touch:
  assumes "inv now m"
  obtains m' where "(case look m k of None \<Rightarrow> Some (ins now m k v) | Some _ \<Rightarrow> upd now m k) = Some m'"
    "inv now m'" "timeout m' = timeout m"
    "\<And>k'. look m' k' = (if same k k'
        then Some (case look m k of None \<Rightarrow> v | Some (w, _) \<Rightarrow> w, now) else look m k')"
proof (cases "look m k")
  case None
  then show ?thesis using that [of "ins now m k v"] ins [OF assms] by simp
next
  case (Some wt)
  then obtain w t where wt: "look m k = Some (w, t)" by (cases wt) auto
  then show ?thesis using that upd [OF assms wt] by auto
qed

text \<open>An entry is reported by the first expiry later than its last access plus the timeout, once.\<close>

lemma expire_reports:
  assumes "inv now m" "look m k = Some (v, t)" "t + timeout m < now" "expire now m = Some (er, m')"
  shows "erased er k = Some v" "look m' k = None"
    "now \<le> later \<Longrightarrow> expire later m' = Some (er', m'') \<Longrightarrow> erased er' k = None"
proof -
  from expire [OF assms(1)] assms(4) have m': "inv now m'" "timeout m' = timeout m"
    and l: "look m' k = None" and e: "erased er k = Some v"
    using assms(2,3) by auto
  show "erased er k = Some v" "look m' k = None" by (fact e, fact l)
  show "erased er' k = None" if "now \<le> later" "expire later m' = Some (er', m'')"
    using expire [OF inv_later [OF m'(1) that(1)]] that(2) l by auto
qed

lemma expire_keeps:
  assumes "inv now m" "look m k = Some (v, t)" "now \<le> t + timeout m" "expire now m = Some (er, m')"
  shows "erased er k = None" "look m' k = Some (v, t)"
  using expire [OF assms(1)] assms(2,3,4) by auto

end

interpretation em: expiring_map "em_abs pr" "\<lambda>now m k v. snd (em_insert pr now m k v)" "em_update pr"
  "\<lambda>m k. snd (em_erase pr m k)" "em_erase_expired pr" "om_find pr" em_timeout
  "\<lambda>k k'. pr k = pr k'" "em_inv pr"
  for pr :: "'k \<Rightarrow> 'o::linorder"
proof (unfold_locales, goal_cases)
  case (2 now m k v k')
  then have "em_find pr m k = None" by (simp add: em_abs_None)
  with 2 show ?case by (simp add: em_abs_insert em_inv_insert) (simp add: em_insert_def)
next
  case (3 now m k v t)
  then have "em_find pr m k \<noteq> None" by (simp add: em_find_abs)
  then obtain m' where m': "em_update pr now m k = Some m'" using em_abs_update(1) [OF 3(1), of k]
    by (cases "em_update pr now m k") auto
  moreover have "em_timeout m' = em_timeout m"
    using m' by (auto simp: em_update_def em_update_timestamp_def split: option.splits)
  ultimately show ?case using 3 em_abs_update(2) [OF 3(1) m'] em_inv_update [OF 3(1) m'] by simp
next
  case (4 now m k k')
  then show ?case by (simp add: em_abs_erase em_inv_erase) (simp add: em_erase_def split: option.split)
next
  case (5 now m)
  then show ?case using em_erase_expired_spec by blast
qed (auto simp: em_inv_later)

text \<open>
  On a well-formed map \<open>erase_expired\<close> is defined, returns exactly the entries last accessed
  more than the timeout ago, and leaves exactly the others, with their values and access times.
\<close>

theorem em_erase_expired_exact:
  assumes "em_inv pr now m"
  shows "\<exists>er m'. em_erase_expired pr now m = Some (er, m') \<and> em_inv pr now m' \<and>
    (\<forall>k. em_find pr m k = None \<longrightarrow> om_find pr er k = None \<and> em_abs pr m' k = None) \<and>
    (\<forall>k v t. em_abs pr m k = Some (v, t) \<longrightarrow>
       (if t + em_timeout m < now then om_find pr er k = Some v \<and> em_abs pr m' k = None
        else om_find pr er k = None \<and> em_abs pr m' k = Some (v, t)))"
proof -
  obtain er m' where m': "em_erase_expired pr now m = Some (er, m')" "em_inv pr now m'"
    and absent: "\<forall>k. em_abs pr m' k = (case em_abs pr m k of
        Some (v, t) \<Rightarrow> if t < now - em_timeout m then None else Some (v, t) | None \<Rightarrow> None)"
      "\<forall>k. om_find pr er k = (case em_abs pr m k of
        Some (v, t) \<Rightarrow> if t < now - em_timeout m then Some v else None | None \<Rightarrow> None)"
    using em_erase_expired_spec [OF assms] by blast
  moreover have "om_find pr er k = None \<and> em_abs pr m' k = None" if "em_find pr m k = None" for k
  proof -
    have "em_abs pr m k = None" using that by (simp add: em_abs_None)
    then show ?thesis by (simp only: absent option.case)
  qed
  moreover have "if t + em_timeout m < now then om_find pr er k = Some v \<and> em_abs pr m' k = None
        else om_find pr er k = None \<and> em_abs pr m' k = Some (v, t)"
    if "em_abs pr m k = Some (v, t)" for k v t
    using em.expire_reports(1,2) [OF assms that _ m'(1)] em.expire_keeps [OF assms that _ m'(1)] by auto
  ultimately show ?thesis by blast
qed

definition em_demo :: "(nat, string) emap" where
  "em_demo = snd (em_insert id 70 (snd (em_insert id 10 (em_new 50) 1 ''a'')) 2 ''b'')"

theorem em_erase_expired_exact_witness:
  "\<exists>er m'. em_erase_expired id 100 em_demo = Some (er, m') \<and> em_inv id 100 m' \<and>
    om_find id er 1 = Some ''a'' \<and> em_abs id m' 2 = Some (''b'', 70)"
proof -
  have I: "em_inv id 100 em_demo"
  proof -
    have "em_inv id 10 (snd (em_insert id 10 (em_new 50) (1 :: nat) ''a''))"
      by (rule em_inv_insert, simp) (simp add: em_find_def em_new_def)
    then have "em_inv id 70 (snd (em_insert id 10 (em_new 50) (1 :: nat) ''a''))"
      by (rule em_inv_later) simp
    then have "em_inv id 70 em_demo" unfolding em_demo_def
      by (rule em_inv_insert) (simp add: em_find_def em_insert_def em_new_def om_emplace_def)
    then show ?thesis by (rule em_inv_later) simp
  qed
  have "em_abs id em_demo 1 = Some (''a'', 10)" "em_abs id em_demo 2 = Some (''b'', 70)" "em_timeout em_demo = 50"
    by (simp_all add: em_demo_def em_insert_def em_new_def em_abs_def em_look_def om_emplace_def)
  then show ?thesis using em_erase_expired_exact [OF I] by fastforce
qed

text \<open>
  \<open>insert\<close> of a key that is already there leaves a second timestamp for the key: once both
  are old, \<open>erase_expired\<close> looks the key up a second time, after it was erased, and
  dereferences \<open>end()\<close>.
\<close>

theorem em_insert_twice_undefined:
  assumes "0 \<le> t" "t < n"
  shows "em_erase_expired id n
    (snd (em_insert id 0 (snd (em_insert id 0 (em_new t) (k :: nat) v)) k w)) = None"
  using assms by (simp add: em_erase_expired_def em_insert_def em_new_def om_emplace_def)

theorem em_insert_twice_undefined_witness:
  "em_erase_expired id 9 (snd (em_insert id 0 (snd (em_insert id 0 (em_new 5) (1 :: nat) ''a'')) 1 ''b'')) = None"
  by (rule em_insert_twice_undefined) simp_all

end
