(* ===== verification/Expanding_Vector.thy ===== *)
theory Expanding_Vector
  imports Ecal_Prelude
begin

text \<open>
  \<open>ecal/core/src/util/expanding_vector.h\<close>: \<open>CExpandingVector<T>\<close>, a vector that never destroys
  its elements. \<open>ev_data\<close> is the underlying \<open>std::vector\<close>, \<open>ev_size\<close> the size the user
  sees. The element type's \<open>clear()\<close> and default constructor are the arguments \<open>clr\<close> and
  \<open>d\<close>. An exception is the left of a sum; an access outside the underlying vector, which is
  undefined in C++, is \<open>None\<close>.
\<close>

record 'a evec =
  ev_data :: "'a list"
  ev_size :: nat

datatype ev_error = OutOfRange

definition ev_new :: "'a evec" where
  "ev_new = \<lparr>ev_data = [], ev_size = 0\<rparr>"

definition ev_clear :: "('a \<Rightarrow> 'a) \<Rightarrow> 'a evec \<Rightarrow> 'a evec" where
  "ev_clear clr v = v\<lparr>ev_data := map clr (ev_data v), ev_size := 0\<rparr>"

text \<open>\<open>push_back(const T&)\<close> and \<open>push_back(T&&)\<close>.\<close>

definition ev_push_back :: "'a evec \<Rightarrow> 'a \<Rightarrow> 'a evec" where
  "ev_push_back v x =
     (if ev_size v < length (ev_data v)
      then v\<lparr>ev_data := (ev_data v)[ev_size v := x], ev_size := ev_size v + 1\<rparr>
      else v\<lparr>ev_data := ev_data v @ [x], ev_size := ev_size v + 1\<rparr>)"

text \<open>\<open>push_back()\<close>: the caller goes on to write through the returned reference, \<open>ev_back\<close>.\<close>

definition ev_push_back_ref :: "'a \<Rightarrow> 'a evec \<Rightarrow> 'a evec" where
  "ev_push_back_ref d v =
     (if ev_size v = length (ev_data v)
      then v\<lparr>ev_data := ev_data v @ [d], ev_size := ev_size v + 1\<rparr>
      else v\<lparr>ev_size := ev_size v + 1\<rparr>)"

definition ev_front :: "'a evec \<Rightarrow> ev_error + 'a" where
  "ev_front v = (if ev_size v = 0 then Inl OutOfRange else Inr (ev_data v ! 0))"

definition ev_back :: "'a evec \<Rightarrow> ev_error + 'a" where
  "ev_back v = (if ev_size v = 0 then Inl OutOfRange else Inr (ev_data v ! (ev_size v - 1)))"

text \<open>An assignment through the reference \<open>back()\<close> returned.\<close>

definition ev_set_back :: "'a evec \<Rightarrow> ('a \<Rightarrow> 'a) \<Rightarrow> 'a evec" where
  "ev_set_back v f = v\<lparr>ev_data := (ev_data v)[ev_size v - 1 := f (ev_data v ! (ev_size v - 1))]\<rparr>"

definition ev_resize :: "'a \<Rightarrow> 'a evec \<Rightarrow> nat \<Rightarrow> 'a evec" where
  "ev_resize d v n =
     (if n > length (ev_data v)
      then v\<lparr>ev_data := ev_data v @ replicate (n - length (ev_data v)) d, ev_size := n\<rparr>
      else v\<lparr>ev_size := n\<rparr>)"

definition ev_at :: "'a evec \<Rightarrow> nat \<Rightarrow> ev_error + 'a" where
  "ev_at v i = (if ev_size v \<le> i then Inl OutOfRange else Inr (ev_data v ! i))"

definition ev_index :: "'a evec \<Rightarrow> nat \<Rightarrow> 'a option" where
  "ev_index v i = (if i < length (ev_data v) then Some (ev_data v ! i) else None)"

definition ev_list :: "'a evec \<Rightarrow> 'a list" where
  "ev_list v = take (ev_size v) (ev_data v)"

definition ev_empty :: "'a evec \<Rightarrow> bool" where
  "ev_empty v \<longleftrightarrow> ev_size v = 0"

definition ev_full_size :: "'a evec \<Rightarrow> nat" where
  "ev_full_size v = length (ev_data v)"

definition ev_eq :: "('a \<Rightarrow> 'a \<Rightarrow> bool) \<Rightarrow> 'a evec \<Rightarrow> 'a evec \<Rightarrow> bool" where
  "ev_eq eq v w \<longleftrightarrow>
     (if ev_size v \<noteq> ev_size w then False
      else (\<forall>i \<in> set [0..<ev_size v]. eq (ev_data v ! i) (ev_data w ! i)))"

definition ev_inv :: "'a evec \<Rightarrow> bool" where
  "ev_inv v \<longleftrightarrow> ev_size v \<le> length (ev_data v)"

text \<open>A vector built from a list, as \<open>push_back\<close> in a loop does.\<close>

definition ev_of_list :: "'a list \<Rightarrow> 'a evec" where
  "ev_of_list xs = foldl ev_push_back ev_new xs"

subsection \<open>The vector as a list\<close>

lemma ev_inv_ops [ecal_inv, simp]:
  "ev_inv ev_new" "ev_inv v \<Longrightarrow> ev_inv (ev_clear clr v)"
  "ev_inv v \<Longrightarrow> ev_inv (ev_push_back v x)" "ev_inv v \<Longrightarrow> ev_inv (ev_push_back_ref d v)"
  "ev_inv v \<Longrightarrow> ev_inv (ev_resize d v n)" "ev_inv v \<Longrightarrow> ev_inv (ev_set_back v f)"
  by (auto simp: ev_inv_def ev_new_def ev_clear_def ev_push_back_def ev_push_back_ref_def
      ev_resize_def ev_set_back_def)

lemma ev_list_new [simp]: "ev_list ev_new = []"
  by (simp add: ev_list_def ev_new_def)

lemma ev_list_clear [simp]: "ev_list (ev_clear clr v) = []"
  by (simp add: ev_list_def ev_clear_def)

lemma ev_list_push_back [simp]: "ev_inv v \<Longrightarrow> ev_list (ev_push_back v x) = ev_list v @ [x]"
  by (auto simp: ev_list_def ev_push_back_def ev_inv_def take_Suc_conv_app_nth)

lemma ev_list_pushes:
  "ev_inv v \<Longrightarrow> ev_list (foldl ev_push_back v xs) = ev_list v @ xs \<and> ev_inv (foldl ev_push_back v xs)"
  by (induction xs arbitrary: v) auto

lemma ev_list_of_list [simp]: "ev_list (ev_of_list xs) = xs"
  using ev_list_pushes [of ev_new xs] by (simp add: ev_of_list_def)

lemma ev_size_list: "ev_inv v \<Longrightarrow> length (ev_list v) = ev_size v"
  by (simp add: ev_list_def ev_inv_def)

lemma ev_at_list:
  "ev_inv v \<Longrightarrow> ev_at v i = (if i < length (ev_list v) then Inr (ev_list v ! i) else Inl OutOfRange)"
  by (auto simp: ev_at_def ev_list_def ev_inv_def)

lemma ev_eq_list:
  "ev_inv v \<Longrightarrow> ev_inv w \<Longrightarrow> ev_eq eq v w = list_all2 eq (ev_list v) (ev_list w)"
  by (auto simp: ev_eq_def ev_list_def ev_inv_def list_all2_conv_all_nth)

lemma ev_full_size_pushes:
  "ev_inv v \<Longrightarrow> ev_full_size (foldl ev_push_back v xs) = max (ev_full_size v) (ev_size v + length xs)"
proof (induction xs arbitrary: v)
  case (Cons x xs)
  then have "ev_full_size (foldl ev_push_back (ev_push_back v x) xs) =
      max (ev_full_size (ev_push_back v x)) (ev_size (ev_push_back v x) + length xs)"
    by simp
  moreover have "max (ev_full_size (ev_push_back v x)) (ev_size (ev_push_back v x) + length xs) =
      max (ev_full_size v) (ev_size v + length (x # xs))"
    using Cons.prems by (auto simp: ev_full_size_def ev_push_back_def ev_inv_def)
  ultimately show ?case by simp
qed (auto simp: ev_full_size_def ev_inv_def)

text \<open>
  Whatever a vector held before, after \<open>clear()\<close> and a sequence of \<open>push_back\<close>s it reads
  as exactly the pushed elements, and the storage it had is kept: it grows only when more
  elements are pushed than were ever stored.
\<close>

theorem ev_clear_push:
  assumes "ev_inv v"
  shows "let w = foldl ev_push_back (ev_clear clr v) xs in
    ev_list w = xs \<and> ev_size w = length xs \<and> ev_full_size w = max (ev_full_size v) (length xs)"
proof -
  let ?w = "foldl ev_push_back (ev_clear clr v) xs"
  have l: "ev_list ?w = xs" "ev_inv ?w" using ev_list_pushes [of "ev_clear clr v" xs] assms by auto
  moreover have "ev_size ?w = length xs" using ev_size_list [OF l(2)] l(1) by simp
  moreover have "ev_full_size ?w = max (ev_full_size v) (length xs)"
    by (subst ev_full_size_pushes) (simp_all add: assms, simp add: ev_full_size_def ev_clear_def)
  ultimately show ?thesis by simp
qed

theorem ev_clear_push_witness:
  "let w = foldl ev_push_back (ev_clear (\<lambda>_. 0) \<lparr>ev_data = [1, 2, 3 :: nat], ev_size = 2\<rparr>) [7] in
    ev_list w = [7] \<and> ev_size w = length [7 :: nat] \<and>
    ev_full_size w = max (ev_full_size \<lparr>ev_data = [1, 2, 3 :: nat], ev_size = 2\<rparr>) (length [7 :: nat])"
  using ev_clear_push [of "\<lparr>ev_data = [1, 2, 3 :: nat], ev_size = 2\<rparr>" "\<lambda>_. 0" "[7]"]
  by (simp add: ev_inv_def)

subsection \<open>Element types whose clear() resets everything\<close>

text \<open>
  The contract \<open>CExpandingVector\<close> needs of its element type for \<open>push_back()\<close> to hand out a
  fresh element: \<open>clear()\<close> leaves a value that is \<open>operator==\<close> to a default-constructed one.
\<close>

locale clearable =
  fixes clr :: "'a \<Rightarrow> 'a" and dflt :: 'a and eq :: "'a \<Rightarrow> 'a \<Rightarrow> bool"
  assumes clr_dflt: "eq (clr x) dflt"
    and dflt_dflt: "eq dflt dflt"
begin

lemma fresh_after_clear:
  assumes "ev_inv v"
  obtains y where "ev_back (ev_push_back_ref dflt (ev_clear clr v)) = Inr y" "eq y dflt"
  using assms
  by (cases "ev_data v")
    (auto simp: ev_back_def ev_push_back_ref_def ev_clear_def ev_inv_def clr_dflt dflt_dflt)

lemma clear_all_dflt: "\<forall>y \<in> set (ev_data (ev_clear clr v)). eq y dflt"
  by (auto simp: ev_clear_def clr_dflt)

text \<open>
  So filling a cleared vector through references gives what filling a new one gives, as long as
  the writes do not look at more of the element than \<open>operator==\<close> does.
\<close>

lemma fill_step:
  assumes "ev_inv w" "\<forall>y \<in> set (drop (ev_size w) (ev_data w)). eq y dflt"
  obtains y where "eq y dflt"
    "ev_list (ev_set_back (ev_push_back_ref dflt w) f) = ev_list w @ [f y]"
    "\<forall>y \<in> set (drop (ev_size (ev_set_back (ev_push_back_ref dflt w) f))
        (ev_data (ev_set_back (ev_push_back_ref dflt w) f))). eq y dflt"
proof (cases "ev_size w = length (ev_data w)")
  case True
  then show ?thesis using that [of dflt]
    by (simp add: ev_set_back_def ev_push_back_ref_def ev_list_def dflt_dflt)
next
  case False
  then have lt: "ev_size w < length (ev_data w)" using assms(1) by (simp add: ev_inv_def)
  then have "drop (ev_size w) (ev_data w) =
      ev_data w ! ev_size w # drop (Suc (ev_size w)) (ev_data w)"
    by (simp add: Cons_nth_drop_Suc)
  then have "eq (ev_data w ! ev_size w) dflt"
    "\<forall>y \<in> set (drop (Suc (ev_size w)) (ev_data w)). eq y dflt"
    using assms(2) by auto
  then show ?thesis using lt that [of "ev_data w ! ev_size w"]
    by (simp add: ev_set_back_def ev_push_back_ref_def ev_list_def take_Suc_conv_app_nth)
qed

lemma fill_after_clear:
  assumes "ev_inv v" and resp: "\<And>f x y. f \<in> set fs \<Longrightarrow> eq x y \<Longrightarrow> eq (f x) (f y)"
  shows "list_all2 eq (ev_list (foldl (\<lambda>w f. ev_set_back (ev_push_back_ref dflt w) f) (ev_clear clr v) fs))
    (map (\<lambda>f. f dflt) fs)"
proof -
  let ?step = "\<lambda>w f. ev_set_back (ev_push_back_ref dflt w) f"
  have "\<exists>ys. ev_list (foldl ?step w fs) = ev_list w @ ys \<and> list_all2 eq ys (map (\<lambda>f. f dflt) fs)"
    if "ev_inv w" "\<forall>y \<in> set (drop (ev_size w) (ev_data w)). eq y dflt" for w
    using that resp
  proof (induction fs arbitrary: w)
    case (Cons f fs)
    obtain y where y: "eq y dflt" "ev_list (?step w f) = ev_list w @ [f y]"
      "\<forall>y \<in> set (drop (ev_size (?step w f)) (ev_data (?step w f))). eq y dflt"
      using fill_step [OF Cons.prems(1,2)] by blast
    have "\<exists>ys. ev_list (foldl ?step (?step w f) fs) = ev_list (?step w f) @ ys \<and>
        list_all2 eq ys (map (\<lambda>f. f dflt) fs)"
      using Cons.prems y by (intro Cons.IH) auto
    then show ?case using y Cons.prems(3) [of f] by auto
  qed simp
  from this [of "ev_clear clr v"] show ?thesis
    using assms(1) clear_all_dflt set_drop_subset by fastforce
qed

end

text \<open>Strings, the elements of the memory file list.\<close>

interpretation str: clearable "\<lambda>_ :: string. []" "[]" "(=)"
  by unfold_locales simp_all

end
