(* ===== verification/Core_Types.thy ===== *)
theory Core_Types
  imports Expanding_Vector Std_Map
begin

text \<open>
  The registration and payload structs the components exchange:
  \<open>ecal/core/src/serialization/ecal_struct_sample_registration.h\<close>,
  \<open>ecal_struct_service.h\<close>, \<open>ecal_struct_sample_payload.h\<close>, \<open>ecal_struct_sample_common.h\<close> and
  \<open>ecal/core/include/ecal/types.h\<close>. For each struct: the record, its default value
  (\<open>_new\<close>), its \<open>operator==\<close> (\<open>_eq\<close>) and its \<open>clear()\<close> (\<open>_clear\<close>).
\<close>

subsection \<open>Enumerations\<close>

text \<open>
  An enumeration that is read from a message gets any number the message has (\<open>static_cast\<close>): the last constructor of
  each of them is a value that has no enumerator, with its number.
\<close>

datatype cmd_type =
    BctNone | BctSetSample | BctRegPublisher | BctRegSubscriber | BctRegProcess | BctRegService
  | BctRegClient | BctUnregPublisher | BctUnregSubscriber | BctUnregProcess | BctUnregService
  | BctUnregClient | is_BctForeign: BctForeign i32

datatype tlayer_type = TlNone | TlEcalUdp | TlEcalShm | TlEcalTcp | TlAll | TlForeign i32

datatype process_severity =
  ProcSevUnknown | ProcSevHealthy | ProcSevWarning | ProcSevCritical | ProcSevFailed
  | ProcSevForeign i32

datatype process_severity_level =
  ProcSevLevelUnknown | ProcSevLevel1 | ProcSevLevel2 | ProcSevLevel3 | ProcSevLevel4 | ProcSevLevel5
  | ProcSevLevelForeign i32

datatype time_sync_state = TsyncNone | TsyncRealtime | TsyncReplay | TsyncForeign i32

subsection \<open>Registration structs\<close>

text \<open>\<open>SDataTypeInformation\<close>.\<close>

record data_type_info =
  dti_name :: "string"
  dti_encoding :: "string"
  dti_descriptor :: "string"

definition dti_new :: data_type_info where
  "dti_new = \<lparr>dti_name = [],
     dti_encoding = [],
     dti_descriptor = []\<rparr>"

definition dti_eq :: "data_type_info \<Rightarrow> data_type_info \<Rightarrow> bool" where
  "dti_eq a b \<longleftrightarrow>
     dti_name a = dti_name b \<and>
     dti_encoding a = dti_encoding b \<and>
     dti_descriptor a = dti_descriptor b"

definition dti_clear :: "data_type_info \<Rightarrow> data_type_info" where
  "dti_clear a = a\<lparr>dti_name := [],
     dti_encoding := [],
     dti_descriptor := []\<rparr>"

text \<open>\<open>OSInfo\<close>.\<close>

record os_info =
  osi_name :: "string"

definition osi_new :: os_info where
  "osi_new = \<lparr>osi_name = []\<rparr>"

definition osi_eq :: "os_info \<Rightarrow> os_info \<Rightarrow> bool" where
  "osi_eq a b \<longleftrightarrow>
     osi_name a = osi_name b"

definition osi_clear :: "os_info \<Rightarrow> os_info" where
  "osi_clear a = a\<lparr>osi_name := []\<rparr>"

text \<open>\<open>ProcessState\<close>.\<close>

record process_state =
  pst_severity :: "process_severity"
  pst_severity_level :: "process_severity_level"
  pst_info :: "string"

definition pst_new :: process_state where
  "pst_new = \<lparr>pst_severity = ProcSevUnknown,
     pst_severity_level = ProcSevLevelUnknown,
     pst_info = []\<rparr>"

definition pst_eq :: "process_state \<Rightarrow> process_state \<Rightarrow> bool" where
  "pst_eq a b \<longleftrightarrow>
     pst_severity a = pst_severity b \<and>
     pst_severity_level a = pst_severity_level b \<and>
     pst_info a = pst_info b"

definition pst_clear :: "process_state \<Rightarrow> process_state" where
  "pst_clear a = a\<lparr>pst_severity := ProcSevUnknown,
     pst_severity_level := ProcSevLevelUnknown,
     pst_info := []\<rparr>"

text \<open>\<open>LayerParUdpMC\<close> has no members.\<close>

datatype layer_par_udpmc = LayerParUdpmc

definition lpu_new :: layer_par_udpmc where "lpu_new = LayerParUdpmc"

definition lpu_eq :: "layer_par_udpmc \<Rightarrow> layer_par_udpmc \<Rightarrow> bool" where
  "lpu_eq a b \<longleftrightarrow> True"

definition lpu_clear :: "layer_par_udpmc \<Rightarrow> layer_par_udpmc" where
  "lpu_clear a = a"

text \<open>\<open>LayerParTcp\<close>.\<close>

record layer_par_tcp =
  lpt_port :: "i32"

definition lpt_new :: layer_par_tcp where
  "lpt_new = \<lparr>lpt_port = 0\<rparr>"

definition lpt_eq :: "layer_par_tcp \<Rightarrow> layer_par_tcp \<Rightarrow> bool" where
  "lpt_eq a b \<longleftrightarrow>
     lpt_port a = lpt_port b"

definition lpt_clear :: "layer_par_tcp \<Rightarrow> layer_par_tcp" where
  "lpt_clear a = a\<lparr>lpt_port := 0\<rparr>"

text \<open>\<open>LayerParShm\<close>.\<close>

record layer_par_shm =
  lps_memory_file_list :: "string evec"

definition lps_new :: layer_par_shm where
  "lps_new = \<lparr>lps_memory_file_list = ev_new\<rparr>"

definition lps_eq :: "layer_par_shm \<Rightarrow> layer_par_shm \<Rightarrow> bool" where
  "lps_eq a b \<longleftrightarrow>
     ev_eq (=) (lps_memory_file_list a) (lps_memory_file_list b)"

definition lps_clear :: "layer_par_shm \<Rightarrow> layer_par_shm" where
  "lps_clear a = a\<lparr>lps_memory_file_list := ev_clear (\<lambda>_. []) (lps_memory_file_list a)\<rparr>"

text \<open>\<open>ConnectionPar\<close>.\<close>

record connection_par =
  cp_layer_par_udpmc :: "layer_par_udpmc"
  cp_layer_par_tcp :: "layer_par_tcp"
  cp_layer_par_shm :: "layer_par_shm"

definition cp_new :: connection_par where
  "cp_new = \<lparr>cp_layer_par_udpmc = lpu_new,
     cp_layer_par_tcp = lpt_new,
     cp_layer_par_shm = lps_new\<rparr>"

definition cp_eq :: "connection_par \<Rightarrow> connection_par \<Rightarrow> bool" where
  "cp_eq a b \<longleftrightarrow>
     lpu_eq (cp_layer_par_udpmc a) (cp_layer_par_udpmc b) \<and>
     lpt_eq (cp_layer_par_tcp a) (cp_layer_par_tcp b) \<and>
     lps_eq (cp_layer_par_shm a) (cp_layer_par_shm b)"

definition cp_clear :: "connection_par \<Rightarrow> connection_par" where
  "cp_clear a = a\<lparr>cp_layer_par_udpmc := lpu_clear (cp_layer_par_udpmc a),
     cp_layer_par_tcp := lpt_clear (cp_layer_par_tcp a),
     cp_layer_par_shm := lps_clear (cp_layer_par_shm a)\<rparr>"

text \<open>\<open>TLayer\<close>.\<close>

record tlayer =
  tl_type :: "tlayer_type"
  tl_version :: "i32"
  tl_enabled :: "bool"
  tl_active :: "bool"
  tl_par_layer :: "connection_par"

definition tl_new :: tlayer where
  "tl_new = \<lparr>tl_type = TlNone,
     tl_version = 0,
     tl_enabled = False,
     tl_active = False,
     tl_par_layer = cp_new\<rparr>"

definition tl_eq :: "tlayer \<Rightarrow> tlayer \<Rightarrow> bool" where
  "tl_eq a b \<longleftrightarrow>
     tl_type a = tl_type b \<and>
     tl_version a = tl_version b \<and>
     tl_enabled a = tl_enabled b \<and>
     tl_active a = tl_active b \<and>
     cp_eq (tl_par_layer a) (tl_par_layer b)"

definition tl_clear :: "tlayer \<Rightarrow> tlayer" where
  "tl_clear a = a\<lparr>tl_type := TlNone,
     tl_version := 0,
     tl_enabled := False,
     tl_active := False,
     tl_par_layer := cp_clear (tl_par_layer a)\<rparr>"

text \<open>\<open>Process\<close>.\<close>

record process_info =
  pri_registration_clock :: "i32"
  pri_shm_transport_domain :: "string"
  pri_process_name :: "string"
  pri_unit_name :: "string"
  pri_process_parameter :: "string"
  pri_state :: "process_state"
  pri_time_sync_state :: "time_sync_state"
  pri_time_sync_module_name :: "string"
  pri_component_init_state :: "i32"
  pri_component_init_info :: "string"
  pri_ecal_runtime_version :: "string"
  pri_config_file_path :: "string"

definition pri_new :: process_info where
  "pri_new = \<lparr>pri_registration_clock = 0,
     pri_shm_transport_domain = [],
     pri_process_name = [],
     pri_unit_name = [],
     pri_process_parameter = [],
     pri_state = pst_new,
     pri_time_sync_state = TsyncNone,
     pri_time_sync_module_name = [],
     pri_component_init_state = 0,
     pri_component_init_info = [],
     pri_ecal_runtime_version = [],
     pri_config_file_path = []\<rparr>"

definition pri_eq :: "process_info \<Rightarrow> process_info \<Rightarrow> bool" where
  "pri_eq a b \<longleftrightarrow>
     pri_registration_clock a = pri_registration_clock b \<and>
     pri_shm_transport_domain a = pri_shm_transport_domain b \<and>
     pri_process_name a = pri_process_name b \<and>
     pri_unit_name a = pri_unit_name b \<and>
     pri_process_parameter a = pri_process_parameter b \<and>
     pst_eq (pri_state a) (pri_state b) \<and>
     pri_time_sync_state a = pri_time_sync_state b \<and>
     pri_time_sync_module_name a = pri_time_sync_module_name b \<and>
     pri_component_init_state a = pri_component_init_state b \<and>
     pri_component_init_info a = pri_component_init_info b \<and>
     pri_ecal_runtime_version a = pri_ecal_runtime_version b \<and>
     pri_config_file_path a = pri_config_file_path b"

definition pri_clear :: "process_info \<Rightarrow> process_info" where
  "pri_clear a = a\<lparr>pri_registration_clock := 0,
     pri_shm_transport_domain := [],
     pri_process_name := [],
     pri_unit_name := [],
     pri_process_parameter := [],
     pri_state := pst_clear (pri_state a),
     pri_time_sync_state := TsyncNone,
     pri_time_sync_module_name := [],
     pri_component_init_state := 0,
     pri_component_init_info := [],
     pri_ecal_runtime_version := [],
     pri_config_file_path := []\<rparr>"

text \<open>\<open>Topic\<close>.\<close>

record topic =
  tp_registration_clock :: "i32"
  tp_shm_transport_domain :: "string"
  tp_process_name :: "string"
  tp_unit_name :: "string"
  tp_topic_name :: "string"
  tp_direction :: "string"
  tp_datatype_information :: "data_type_info"
  tp_transport_layer :: "tlayer evec"
  tp_topic_size :: "i32"
  tp_connections_local :: "i32"
  tp_connections_external :: "i32"
  tp_message_drops :: "i32"
  tp_data_id :: "i64"
  tp_data_clock :: "i64"
  tp_data_frequency :: "i32"

definition tp_new :: topic where
  "tp_new = \<lparr>tp_registration_clock = 0,
     tp_shm_transport_domain = [],
     tp_process_name = [],
     tp_unit_name = [],
     tp_topic_name = [],
     tp_direction = [],
     tp_datatype_information = dti_new,
     tp_transport_layer = ev_new,
     tp_topic_size = 0,
     tp_connections_local = 0,
     tp_connections_external = 0,
     tp_message_drops = 0,
     tp_data_id = 0,
     tp_data_clock = 0,
     tp_data_frequency = 0\<rparr>"

definition tp_eq :: "topic \<Rightarrow> topic \<Rightarrow> bool" where
  "tp_eq a b \<longleftrightarrow>
     tp_registration_clock a = tp_registration_clock b \<and>
     tp_shm_transport_domain a = tp_shm_transport_domain b \<and>
     tp_process_name a = tp_process_name b \<and>
     tp_unit_name a = tp_unit_name b \<and>
     tp_topic_name a = tp_topic_name b \<and>
     tp_direction a = tp_direction b \<and>
     dti_eq (tp_datatype_information a) (tp_datatype_information b) \<and>
     ev_eq tl_eq (tp_transport_layer a) (tp_transport_layer b) \<and>
     tp_topic_size a = tp_topic_size b \<and>
     tp_connections_local a = tp_connections_local b \<and>
     tp_connections_external a = tp_connections_external b \<and>
     tp_message_drops a = tp_message_drops b \<and>
     tp_data_id a = tp_data_id b \<and>
     tp_data_clock a = tp_data_clock b \<and>
     tp_data_frequency a = tp_data_frequency b"

definition tp_clear :: "topic \<Rightarrow> topic" where
  "tp_clear a = a\<lparr>tp_registration_clock := 0,
     tp_shm_transport_domain := [],
     tp_process_name := [],
     tp_unit_name := [],
     tp_topic_name := [],
     tp_direction := [],
     tp_datatype_information := dti_clear (tp_datatype_information a),
     tp_transport_layer := ev_clear tl_clear (tp_transport_layer a),
     tp_topic_size := 0,
     tp_connections_local := 0,
     tp_connections_external := 0,
     tp_message_drops := 0,
     tp_data_id := 0,
     tp_data_clock := 0,
     tp_data_frequency := 0\<rparr>"

text \<open>\<open>Service::Method\<close>. Its \<open>clear()\<close> leaves the two \<open>SDataTypeInformation\<close> members alone.\<close>

record service_method =
  sm_method_name :: "string"
  sm_req_type :: "string"
  sm_req_desc :: "string"
  sm_resp_type :: "string"
  sm_resp_desc :: "string"
  sm_request_datatype_information :: "data_type_info"
  sm_response_datatype_information :: "data_type_info"
  sm_call_count :: "i64"

definition sm_new :: service_method where
  "sm_new = \<lparr>sm_method_name = [],
     sm_req_type = [],
     sm_req_desc = [],
     sm_resp_type = [],
     sm_resp_desc = [],
     sm_request_datatype_information = dti_new,
     sm_response_datatype_information = dti_new,
     sm_call_count = 0\<rparr>"

definition sm_eq :: "service_method \<Rightarrow> service_method \<Rightarrow> bool" where
  "sm_eq a b \<longleftrightarrow>
     sm_method_name a = sm_method_name b \<and>
     sm_req_type a = sm_req_type b \<and>
     sm_req_desc a = sm_req_desc b \<and>
     sm_resp_type a = sm_resp_type b \<and>
     sm_resp_desc a = sm_resp_desc b \<and>
     dti_eq (sm_request_datatype_information a) (sm_request_datatype_information b) \<and>
     dti_eq (sm_response_datatype_information a) (sm_response_datatype_information b) \<and>
     sm_call_count a = sm_call_count b"

definition sm_clear :: "service_method \<Rightarrow> service_method" where
  "sm_clear a = a\<lparr>sm_method_name := [],
     sm_req_type := [],
     sm_req_desc := [],
     sm_resp_type := [],
     sm_resp_desc := [],
     sm_call_count := 0\<rparr>"

text \<open>\<open>Service::Service\<close>.\<close>

record service =
  sv_registration_clock :: "i32"
  sv_process_name :: "string"
  sv_unit_name :: "string"
  sv_service_name :: "string"
  sv_methods :: "service_method evec"
  sv_version :: "u32"
  sv_tcp_port_v0 :: "u32"
  sv_tcp_port_v1 :: "u32"

definition sv_new :: service where
  "sv_new = \<lparr>sv_registration_clock = 0,
     sv_process_name = [],
     sv_unit_name = [],
     sv_service_name = [],
     sv_methods = ev_new,
     sv_version = 0,
     sv_tcp_port_v0 = 0,
     sv_tcp_port_v1 = 0\<rparr>"

definition sv_eq :: "service \<Rightarrow> service \<Rightarrow> bool" where
  "sv_eq a b \<longleftrightarrow>
     sv_registration_clock a = sv_registration_clock b \<and>
     sv_process_name a = sv_process_name b \<and>
     sv_unit_name a = sv_unit_name b \<and>
     sv_service_name a = sv_service_name b \<and>
     ev_eq sm_eq (sv_methods a) (sv_methods b) \<and>
     sv_version a = sv_version b \<and>
     sv_tcp_port_v0 a = sv_tcp_port_v0 b \<and>
     sv_tcp_port_v1 a = sv_tcp_port_v1 b"

definition sv_clear :: "service \<Rightarrow> service" where
  "sv_clear a = a\<lparr>sv_registration_clock := 0,
     sv_process_name := [],
     sv_unit_name := [],
     sv_service_name := [],
     sv_methods := ev_clear sm_clear (sv_methods a),
     sv_version := 0,
     sv_tcp_port_v0 := 0,
     sv_tcp_port_v1 := 0\<rparr>"

text \<open>\<open>Service::Client\<close>.\<close>

record client =
  cl_registration_clock :: "i32"
  cl_process_name :: "string"
  cl_unit_name :: "string"
  cl_service_name :: "string"
  cl_methods :: "service_method evec"
  cl_version :: "u32"

definition cl_new :: client where
  "cl_new = \<lparr>cl_registration_clock = 0,
     cl_process_name = [],
     cl_unit_name = [],
     cl_service_name = [],
     cl_methods = ev_new,
     cl_version = 0\<rparr>"

definition cl_eq :: "client \<Rightarrow> client \<Rightarrow> bool" where
  "cl_eq a b \<longleftrightarrow>
     cl_registration_clock a = cl_registration_clock b \<and>
     cl_process_name a = cl_process_name b \<and>
     cl_unit_name a = cl_unit_name b \<and>
     cl_service_name a = cl_service_name b \<and>
     ev_eq sm_eq (cl_methods a) (cl_methods b) \<and>
     cl_version a = cl_version b"

definition cl_clear :: "client \<Rightarrow> client" where
  "cl_clear a = a\<lparr>cl_registration_clock := 0,
     cl_process_name := [],
     cl_unit_name := [],
     cl_service_name := [],
     cl_methods := ev_clear sm_clear (cl_methods a),
     cl_version := 0\<rparr>"

text \<open>\<open>SampleIdentifier\<close>; equality and order look at the entity id only.\<close>

record sample_identifier =
  si_entity_id :: "u64"
  si_process_id :: "i32"
  si_host_name :: "string"

definition si_new :: sample_identifier where
  "si_new = \<lparr>si_entity_id = 0,
     si_process_id = 0,
     si_host_name = []\<rparr>"

definition si_eq :: "sample_identifier \<Rightarrow> sample_identifier \<Rightarrow> bool" where
  "si_eq a b \<longleftrightarrow> si_entity_id a = si_entity_id b"

definition si_less :: "sample_identifier \<Rightarrow> sample_identifier \<Rightarrow> bool" where
  "si_less a b \<longleftrightarrow> si_entity_id a < si_entity_id b"

definition si_clear :: "sample_identifier \<Rightarrow> sample_identifier" where
  "si_clear a = a\<lparr>si_entity_id := 0,
     si_process_id := 0,
     si_host_name := []\<rparr>"

text \<open>\<open>Registration::Sample\<close>.\<close>

record sample =
  sa_identifier :: "sample_identifier"
  sa_cmd_type :: "cmd_type"
  sa_process :: "process_info"
  sa_service :: "service"
  sa_client :: "client"
  sa_topic :: "topic"

definition sa_new :: sample where
  "sa_new = \<lparr>sa_identifier = si_new,
     sa_cmd_type = BctNone,
     sa_process = pri_new,
     sa_service = sv_new,
     sa_client = cl_new,
     sa_topic = tp_new\<rparr>"

definition sa_eq :: "sample \<Rightarrow> sample \<Rightarrow> bool" where
  "sa_eq a b \<longleftrightarrow>
     si_eq (sa_identifier a) (sa_identifier b) \<and>
     sa_cmd_type a = sa_cmd_type b \<and>
     pri_eq (sa_process a) (sa_process b) \<and>
     sv_eq (sa_service a) (sa_service b) \<and>
     cl_eq (sa_client a) (sa_client b) \<and>
     tp_eq (sa_topic a) (sa_topic b)"

definition sa_clear :: "sample \<Rightarrow> sample" where
  "sa_clear a = a\<lparr>sa_identifier := si_clear (sa_identifier a),
     sa_cmd_type := BctNone,
     sa_process := pri_clear (sa_process a),
     sa_service := sv_clear (sa_service a),
     sa_client := cl_clear (sa_client a),
     sa_topic := tp_clear (sa_topic a)\<rparr>"

type_synonym sample_list = "sample evec"

subsection \<open>Identifiers and payload\<close>

text \<open>\<open>SEntityId\<close> and \<open>STopicId\<close>, \<open>SServiceId\<close>.\<close>

record entity_id =
  ei_entity_id :: u64
  ei_process_id :: i32
  ei_host_name :: string

record topic_id =
  ti_topic_id :: entity_id
  ti_topic_name :: string

record service_id =
  svi_service_id :: entity_id
  svi_service_name :: string

text \<open>\<open>Payload::TopicInfo\<close>.\<close>

record topic_info =
  pti_host_name :: string
  pti_topic_id :: u64
  pti_topic_name :: string
  pti_process_id :: i32

datatype payload_type = PlNone | PlRaw | PlVec

text \<open>
  \<open>Payload::Payload\<close>: a raw pointer with a size, or a vector. The bytes a raw pointer points
  to are its value here; a null pointer is \<open>None\<close>.
\<close>

record payload =
  pl_type :: payload_type
  pl_raw_addr :: "u8 list option"
  pl_raw_size :: u64
  pl_vec :: "u8 list"

record content =
  ct_id :: i64
  ct_clock :: i64
  ct_time :: i64
  ct_hash :: i64
  ct_size :: i32
  ct_payload :: payload

record payload_sample =
  ps_cmd_type :: cmd_type
  ps_topic_info :: topic_info
  ps_content :: content
  ps_padding :: "u8 list"

subsection \<open>clear() resets\<close>

named_theorems clears \<open>what the clear functions leave\<close>

lemma plain_clears [clears]:
  "dti_clear a = dti_new" "osi_clear o1 = osi_new" "pst_clear b = pst_new"
  "lpu_clear c = lpu_new" "lpt_clear d = lpt_new" "si_clear e = si_new" "pri_clear f = pri_new"
  by (simp_all add: dti_clear_def dti_new_def osi_clear_def osi_new_def pst_clear_def pst_new_def
      lpu_clear_def lpu_new_def lpt_clear_def lpt_new_def si_clear_def si_new_def pri_clear_def
      pri_new_def) (cases c; simp)+

text \<open>The element types of the vectors meet the contract of \<open>CExpandingVector\<close>.\<close>

lemma ev_eq_refl: "(\<And>x. eq x x) \<Longrightarrow> ev_eq eq v v"
  by (simp add: ev_eq_def)

lemma eq_refls [simp]:
  "dti_eq a a" "lpu_eq u u" "lpt_eq t t" "lps_eq s s" "cp_eq c c" "tl_eq l l" "pst_eq p p"
  "pri_eq i i" "tp_eq n n" "sm_eq m m" "sv_eq v v" "cl_eq k k" "si_eq e e"
  by (simp_all add: dti_eq_def lpu_eq_def lpt_eq_def lps_eq_def cp_eq_def tl_eq_def pst_eq_def
      pri_eq_def tp_eq_def sm_eq_def sv_eq_def cl_eq_def si_eq_def ev_eq_refl)

lemma ev_eq_clear [simp]: "ev_eq eq (ev_clear clr v) ev_new"
  by (simp add: ev_eq_def ev_clear_def ev_new_def)

lemma lps_cp_clear [clears]: "lps_eq (lps_clear s) lps_new" "cp_eq (cp_clear c) cp_new"
  by (simp_all add: lps_eq_def lps_clear_def lps_new_def cp_eq_def cp_clear_def cp_new_def clears)

lemma tl_tp_clear [clears]: "tl_eq (tl_clear l) tl_new" "tp_eq (tp_clear n) tp_new"
  by (simp_all add: tl_eq_def tl_clear_def tl_new_def tp_eq_def tp_clear_def tp_new_def clears)

lemma sv_cl_clear [clears]: "sv_eq (sv_clear v) sv_new" "cl_eq (cl_clear c) cl_new"
  by (simp_all add: sv_eq_def sv_clear_def sv_new_def cl_eq_def cl_clear_def cl_new_def)

interpretation layers: clearable tl_clear tl_new tl_eq
  by unfold_locales (simp_all add: clears)

interpretation samples: clearable sa_clear sa_new sa_eq
  by unfold_locales (simp_all add: sa_eq_def sa_clear_def sa_new_def clears)

text \<open>
  A transport layer list that is cleared and filled again through \<open>push_back()\<close> (as the
  deserializer does for every topic) has exactly the layers written, whatever list was there
  before: each write is applied to a layer equal to a default-constructed one.
\<close>

theorem layer_list_refill:
  assumes "ev_inv v" "\<And>f x y. f \<in> set fs \<Longrightarrow> tl_eq x y \<Longrightarrow> tl_eq (f x) (f y)"
  shows "list_all2 tl_eq
    (ev_list (foldl (\<lambda>w f. ev_set_back (ev_push_back_ref tl_new w) f) (ev_clear tl_clear v) fs))
    (map (\<lambda>f. f tl_new) fs)"
  using assms by (rule layers.fill_after_clear)

definition stale_layers :: "tlayer evec" where
  "stale_layers = ev_of_list [tl_new\<lparr>tl_type := TlEcalShm, tl_version := 1, tl_active := True\<rparr>]"

theorem layer_list_refill_witness:
  "list_all2 tl_eq
    (ev_list (foldl (\<lambda>w f. ev_set_back (ev_push_back_ref tl_new w) f) (ev_clear tl_clear stale_layers)
      [tl_type_update (\<lambda>_. TlEcalUdp)]))
    (map (\<lambda>f. f tl_new) [tl_type_update (\<lambda>_. TlEcalUdp)])"
  by (rule layer_list_refill) (auto simp: stale_layers_def ev_of_list_def tl_eq_def)

text \<open>
  \<open>Service::Method::clear()\<close> leaves the two \<open>SDataTypeInformation\<close> members, so a method
  list that is cleared and refilled hands out an element that still carries the data type
  information of the method stored there before.
\<close>

theorem method_reuse_stale:
  "ev_back (ev_push_back_ref sm_new (ev_clear sm_clear (ev_of_list [m]))) =
    Inr (sm_new\<lparr>sm_request_datatype_information := sm_request_datatype_information m,
      sm_response_datatype_information := sm_response_datatype_information m\<rparr>)"
  by (cases m) (simp add: ev_of_list_def ev_push_back_def ev_new_def ev_clear_def
      ev_push_back_ref_def ev_back_def sm_clear_def sm_new_def)

end
