(* ===== verification/Timeout_Provider.thy ===== *)
theory Timeout_Provider
  imports Expiration_Map Core_Types
begin

text \<open>
  \<open>ecal/core/src/registration/ecal_registration_timeout_provider.{h,cpp}\<close>: classification of
  registration samples, the unregistration sample made from a registration, and
  \<open>CTimeoutProvider\<close>, which turns silence of an entity into an unregistration. The callback the
  provider calls is represented by the list of the samples it is called with, in order.
\<close>

subsection \<open>Samples\<close>

definition IsUnregistrationSample :: "sample \<Rightarrow> bool" where
  "IsUnregistrationSample s \<longleftrightarrow>
     sa_cmd_type s = BctUnregClient \<or> sa_cmd_type s = BctUnregProcess \<or>
     sa_cmd_type s = BctUnregPublisher \<or> sa_cmd_type s = BctUnregService \<or>
     sa_cmd_type s = BctUnregSubscriber"

definition GetUnregistrationType :: "sample \<Rightarrow> cmd_type" where
  "GetUnregistrationType s =
     (if sa_cmd_type s = BctRegClient then BctUnregClient
      else if sa_cmd_type s = BctRegProcess then BctUnregProcess
      else if sa_cmd_type s = BctRegPublisher then BctUnregPublisher
      else if sa_cmd_type s = BctRegService then BctUnregService
      else if sa_cmd_type s = BctRegSubscriber then BctUnregSubscriber
      else BctNone)"

definition IsProcessRegistration :: "sample \<Rightarrow> bool" where
  "IsProcessRegistration s \<longleftrightarrow> sa_cmd_type s = BctRegProcess \<or> sa_cmd_type s = BctUnregProcess"

definition IsTopicRegistration :: "sample \<Rightarrow> bool" where
  "IsTopicRegistration s \<longleftrightarrow>
     sa_cmd_type s = BctRegPublisher \<or> sa_cmd_type s = BctRegSubscriber \<or>
     sa_cmd_type s = BctUnregPublisher \<or> sa_cmd_type s = BctUnregSubscriber"

text \<open>The four blocks of \<open>CreateUnregisterSample\<close>, in their order.\<close>

definition cus_process :: "sample \<Rightarrow> sample \<Rightarrow> sample" where
  "cus_process s u =
     (if IsProcessRegistration u
      then u\<lparr>sa_process := (sa_process u)
        \<lparr>pri_process_name := pri_process_name (sa_process s),
         pri_unit_name := pri_unit_name (sa_process s)\<rparr>\<rparr>
      else u)"

definition cus_topic :: "sample \<Rightarrow> sample \<Rightarrow> sample" where
  "cus_topic s u =
     (if IsTopicRegistration u
      then u\<lparr>sa_topic := (sa_topic u)
        \<lparr>tp_shm_transport_domain := tp_shm_transport_domain (sa_topic s),
         tp_process_name := tp_process_name (sa_topic s),
         tp_topic_name := tp_topic_name (sa_topic s),
         tp_unit_name := tp_unit_name (sa_topic s)\<rparr>\<rparr>
      else u)"

definition cus_service :: "sample \<Rightarrow> sample \<Rightarrow> sample" where
  "cus_service s u =
     (if sa_cmd_type u = BctUnregService
      then u\<lparr>sa_service := (sa_service u)
        \<lparr>sv_process_name := sv_process_name (sa_service s),
         sv_service_name := sv_service_name (sa_service s),
         sv_unit_name := sv_unit_name (sa_service s),
         sv_version := sv_version (sa_service s)\<rparr>\<rparr>
      else u)"

definition cus_client :: "sample \<Rightarrow> sample \<Rightarrow> sample" where
  "cus_client s u =
     (if sa_cmd_type u = BctUnregClient
      then u\<lparr>sa_client := (sa_client u)
        \<lparr>cl_process_name := cl_process_name (sa_client s),
         cl_service_name := cl_service_name (sa_client s),
         cl_unit_name := cl_unit_name (sa_client s),
         cl_version := cl_version (sa_client s)\<rparr>\<rparr>
      else u)"

definition CreateUnregisterSample :: "sample \<Rightarrow> sample" where
  "CreateUnregisterSample s =
     cus_client s (cus_service s (cus_topic s (cus_process s
       (sa_new\<lparr>sa_cmd_type := GetUnregistrationType s, sa_identifier := sa_identifier s\<rparr>))))"

subsection \<open>The provider\<close>

type_synonym sample_tracker = "(sample_identifier, sample) emap"

record timeout_provider =
  tmo_sample_tracker :: sample_tracker

definition tmo_new :: "int \<Rightarrow> timeout_provider" where
  "tmo_new timeout = \<lparr>tmo_sample_tracker = em_new timeout\<rparr>"

definition tmo_DeleteUnregisterSample :: "timeout_provider \<Rightarrow> sample \<Rightarrow> timeout_provider" where
  "tmo_DeleteUnregisterSample p s =
     p\<lparr>tmo_sample_tracker := snd (em_erase si_entity_id (tmo_sample_tracker p) (sa_identifier s))\<rparr>"

definition tmo_UpdateOrInsertSample ::
  "time_point \<Rightarrow> timeout_provider \<Rightarrow> sample \<Rightarrow> timeout_provider option" where
  "tmo_UpdateOrInsertSample now p s =
     (let tr = tmo_sample_tracker p; k = sa_identifier s in
      map_option (\<lambda>tr'. p\<lparr>tmo_sample_tracker := tr'\<rparr>)
        (case em_find si_entity_id tr k of
           None \<Rightarrow> Some (snd (em_insert si_entity_id now tr k (CreateUnregisterSample s)))
         | Some _ \<Rightarrow> em_update si_entity_id now tr k))"

text \<open>\<open>ApplySample\<close> always returns true.\<close>

definition tmo_ApplySample ::
  "time_point \<Rightarrow> timeout_provider \<Rightarrow> sample \<Rightarrow> (bool \<times> timeout_provider) option" where
  "tmo_ApplySample now p s =
     (if IsUnregistrationSample s then Some (True, tmo_DeleteUnregisterSample p s)
      else map_option (Pair True) (tmo_UpdateOrInsertSample now p s))"

definition tmo_CheckForTimeouts ::
  "time_point \<Rightarrow> timeout_provider \<Rightarrow> (sample list \<times> timeout_provider) option" where
  "tmo_CheckForTimeouts now p =
     map_option (\<lambda>(expired, tr). (map snd expired, p\<lparr>tmo_sample_tracker := tr\<rparr>))
       (em_erase_expired si_entity_id now (tmo_sample_tracker p))"

text \<open>A history of calls, each at a time, and what the callback received.\<close>

datatype tmo_call = TmoApply sample | TmoCheck

fun tmo_run ::
  "timeout_provider \<Rightarrow> (time_point \<times> tmo_call) list \<Rightarrow> ((time_point \<times> sample) list \<times> timeout_provider) option" where
  "tmo_run p [] = Some ([], p)"
| "tmo_run p ((now, TmoApply s) # cs) =
     (case tmo_ApplySample now p s of None \<Rightarrow> None | Some (_, p') \<Rightarrow> tmo_run p' cs)"
| "tmo_run p ((now, TmoCheck) # cs) =
     (case tmo_CheckForTimeouts now p of
        None \<Rightarrow> None
      | Some (out, p') \<Rightarrow>
          (case tmo_run p' cs of
             None \<Rightarrow> None
           | Some (outs, p'') \<Rightarrow> Some (map (Pair now) out @ outs, p'')))"

subsection \<open>The unregistration sample\<close>

lemmas cus_defs = cus_process_def cus_topic_def cus_service_def cus_client_def

text \<open>
  The unregistration sample made from a registration of an entity is an unregistration of
  the same entity: its command is the counterpart of the registration's, its identifier the same,
  and it carries the names by which the gates look the entity up.
\<close>

theorem create_unregister_sample:
  assumes "sa_cmd_type s \<in> {BctRegPublisher, BctRegSubscriber, BctRegProcess, BctRegService, BctRegClient}"
  shows "let u = CreateUnregisterSample s in
    IsUnregistrationSample u \<and> sa_identifier u = sa_identifier s \<and>
    IsTopicRegistration u = IsTopicRegistration s \<and> IsProcessRegistration u = IsProcessRegistration s \<and>
    (IsTopicRegistration s \<longrightarrow>
       tp_topic_name (sa_topic u) = tp_topic_name (sa_topic s) \<and>
       tp_shm_transport_domain (sa_topic u) = tp_shm_transport_domain (sa_topic s)) \<and>
    (sa_cmd_type s = BctRegService \<longrightarrow> sv_service_name (sa_service u) = sv_service_name (sa_service s)) \<and>
    (sa_cmd_type s = BctRegClient \<longrightarrow> cl_service_name (sa_client u) = cl_service_name (sa_client s)) \<and>
    (sa_cmd_type s = BctRegProcess \<longrightarrow> pri_process_name (sa_process u) = pri_process_name (sa_process s))"
  using assms
  by (auto simp: CreateUnregisterSample_def cus_defs IsUnregistrationSample_def GetUnregistrationType_def
      IsTopicRegistration_def IsProcessRegistration_def Let_def)

definition demo_pub_reg :: "u64 \<Rightarrow> string \<Rightarrow> sample" where
  "demo_pub_reg i n = sa_new\<lparr>sa_cmd_type := BctRegPublisher,
     sa_identifier := si_new\<lparr>si_entity_id := i\<rparr>, sa_topic := tp_new\<lparr>tp_topic_name := n\<rparr>\<rparr>"

theorem create_unregister_sample_witness:
  "IsUnregistrationSample (CreateUnregisterSample (demo_pub_reg 4 ''t'')) \<and>
   tp_topic_name (sa_topic (CreateUnregisterSample (demo_pub_reg 4 ''t''))) = ''t''"
  using create_unregister_sample [of "demo_pub_reg 4 ''t''"]
  by (simp add: demo_pub_reg_def IsTopicRegistration_def Let_def)

subsection \<open>The provider against its specification\<close>

text \<open>
  The abstract provider: for every entity the unregistration sample to send and the time it was
  last heard of.
\<close>

type_synonym tmo_abs = "u64 \<Rightarrow> (sample \<times> time_point) option"

definition tmo_abs :: "timeout_provider \<Rightarrow> tmo_abs" where
  "tmo_abs p e = em_abs si_entity_id (tmo_sample_tracker p) (si_new\<lparr>si_entity_id := e\<rparr>)"

definition tmo_inv :: "time_point \<Rightarrow> timeout_provider \<Rightarrow> bool" where
  "tmo_inv now p \<longleftrightarrow> em_inv si_entity_id now (tmo_sample_tracker p)"

abbreviation tmo_timeout :: "timeout_provider \<Rightarrow> int" where
  "tmo_timeout p \<equiv> em_timeout (tmo_sample_tracker p)"

definition spec_apply :: "time_point \<Rightarrow> sample \<Rightarrow> tmo_abs \<Rightarrow> tmo_abs" where
  "spec_apply now s a =
     (let e = si_entity_id (sa_identifier s) in
      if IsUnregistrationSample s then a(e := None)
      else a(e \<mapsto> (case a e of None \<Rightarrow> CreateUnregisterSample s | Some (u, _) \<Rightarrow> u, now)))"

definition spec_expired :: "int \<Rightarrow> time_point \<Rightarrow> tmo_abs \<Rightarrow> u64 \<Rightarrow> sample option" where
  "spec_expired timeout now a e =
     (case a e of Some (u, t) \<Rightarrow> if t + timeout < now then Some u else None | None \<Rightarrow> None)"

definition spec_check :: "int \<Rightarrow> time_point \<Rightarrow> tmo_abs \<Rightarrow> tmo_abs" where
  "spec_check timeout now a e = (if spec_expired timeout now a e = None then a e else None)"

lemma em_abs_cong: "pr k = pr k' \<Longrightarrow> em_abs pr m k = em_abs pr m k'"
  by (simp add: em_abs_def em_look_def) (metis om_find_cong)

lemma tmo_abs_of: "em_abs si_entity_id (tmo_sample_tracker p) k = tmo_abs p (si_entity_id k)"
  unfolding tmo_abs_def by (rule em_abs_cong) simp

lemma tmo_inv_later: "tmo_inv now p \<Longrightarrow> now \<le> now' \<Longrightarrow> tmo_inv now' p"
  by (simp add: tmo_inv_def em_inv_later)

lemma tmo_apply_refines:
  assumes "tmo_inv now p"
  obtains p' where "tmo_ApplySample now p s = Some (True, p')" "tmo_inv now p'"
    "tmo_timeout p' = tmo_timeout p" "tmo_abs p' = spec_apply now s (tmo_abs p)"
proof (cases "IsUnregistrationSample s")
  case True
  then show ?thesis
    using that [of "tmo_DeleteUnregisterSample p s"] em.del [where pr = si_entity_id and now = now and m = "tmo_sample_tracker p" and k = "sa_identifier s"] assms
    by (simp add: tmo_ApplySample_def tmo_DeleteUnregisterSample_def tmo_inv_def tmo_abs_def spec_apply_def Let_def fun_eq_iff)
next
  case False
  have I: "em_inv si_entity_id now (tmo_sample_tracker p)" using assms by (simp add: tmo_inv_def)
  obtain tr' where tr': "(case em_abs si_entity_id (tmo_sample_tracker p) (sa_identifier s) of
        None \<Rightarrow> Some (snd (em_insert si_entity_id now (tmo_sample_tracker p) (sa_identifier s) (CreateUnregisterSample s)))
      | Some _ \<Rightarrow> em_update si_entity_id now (tmo_sample_tracker p) (sa_identifier s)) = Some tr'"
    "em_inv si_entity_id now tr'" "em_timeout tr' = tmo_timeout p"
    "\<And>k'. em_abs si_entity_id tr' k' = (if si_entity_id (sa_identifier s) = si_entity_id k'
        then Some (case em_abs si_entity_id (tmo_sample_tracker p) (sa_identifier s) of
            None \<Rightarrow> CreateUnregisterSample s | Some (w, _) \<Rightarrow> w, now)
        else em_abs si_entity_id (tmo_sample_tracker p) k')"
    using em.touch [OF I, of "sa_identifier s" "CreateUnregisterSample s"] by blast
  have "tmo_UpdateOrInsertSample now p s = Some (p\<lparr>tmo_sample_tracker := tr'\<rparr>)"
    using tr'(1) by (simp add: tmo_UpdateOrInsertSample_def em_find_abs Let_def split: option.splits)
  moreover have "tmo_abs (p\<lparr>tmo_sample_tracker := tr'\<rparr>) e = spec_apply now s (tmo_abs p) e" for e
  proof -
    have "tmo_abs (p\<lparr>tmo_sample_tracker := tr'\<rparr>) e = em_abs si_entity_id tr' (si_new\<lparr>si_entity_id := e\<rparr>)"
      by (simp add: tmo_abs_def)
    then show ?thesis using False by (simp add: tr'(4) tmo_abs_of spec_apply_def Let_def)
  qed
  ultimately show ?thesis using that tr'(2,3) False by (simp add: tmo_ApplySample_def tmo_inv_def fun_eq_iff)
qed

lemma tmo_check_refines:
  assumes "tmo_inv now p"
  obtains out p' where "tmo_CheckForTimeouts now p = Some (out, p')" "tmo_inv now p'"
    "tmo_timeout p' = tmo_timeout p" "tmo_abs p' = spec_check (tmo_timeout p) now (tmo_abs p)"
    "set out = ran (spec_expired (tmo_timeout p) now (tmo_abs p))"
proof -
  have I: "em_inv si_entity_id now (tmo_sample_tracker p)" using assms by (simp add: tmo_inv_def)
  obtain er tr where e: "em_erase_expired si_entity_id now (tmo_sample_tracker p) = Some (er, tr)"
    "em_inv si_entity_id now tr" "om_invar si_entity_id er" "em_timeout tr = tmo_timeout p"
    and a: "\<forall>k. em_abs si_entity_id tr k = (case em_abs si_entity_id (tmo_sample_tracker p) k of
        Some (v, t) \<Rightarrow> if t < now - tmo_timeout p then None else Some (v, t) | None \<Rightarrow> None)"
    and f: "\<forall>k. om_find si_entity_id er k = (case em_abs si_entity_id (tmo_sample_tracker p) k of
        Some (v, t) \<Rightarrow> if t < now - tmo_timeout p then Some v else None | None \<Rightarrow> None)"
    using em_erase_expired_spec [OF I] by blast
  have f': "om_find si_entity_id er k = spec_expired (tmo_timeout p) now (tmo_abs p) (si_entity_id k)" for k
    by (simp add: f tmo_abs_of spec_expired_def less_diff_eq cong: option.case_cong)
  have "u \<in> set (map snd er) \<longleftrightarrow> (\<exists>k. om_find si_entity_id er k = Some u)" for u
    using om_find_mem [OF e(3)] om_find_in_set [of si_entity_id er] by force
  then have "set (map snd er) = ran (spec_expired (tmo_timeout p) now (tmo_abs p))"
    by (auto simp: ran_def f') (metis sample_identifier.select_convs(1))
  moreover have "tmo_abs (p\<lparr>tmo_sample_tracker := tr\<rparr>) = spec_check (tmo_timeout p) now (tmo_abs p)"
    by (auto simp: tmo_abs_def a spec_check_def spec_expired_def fun_eq_iff less_diff_eq split: option.splits)
  ultimately show ?thesis using that e by (simp add: tmo_CheckForTimeouts_def tmo_inv_def)
qed

text \<open>The abstract history: the callback's calls at a time are those of the entities that expired.\<close>

fun spec_run :: "int \<Rightarrow> tmo_abs \<Rightarrow> (time_point \<times> tmo_call) list \<Rightarrow> (time_point \<times> sample) set \<times> tmo_abs" where
  "spec_run timeout a [] = ({}, a)"
| "spec_run timeout a ((now, TmoApply s) # cs) = spec_run timeout (spec_apply now s a) cs"
| "spec_run timeout a ((now, TmoCheck) # cs) =
     (let (outs, a') = spec_run timeout (spec_check timeout now a) cs
      in (Pair now ` ran (spec_expired timeout now a) \<union> outs, a'))"

lemma tmo_run_refines:
  assumes "tmo_inv t0 p" "sorted (t0 # map fst cs)"
  shows "\<exists>outs p'. tmo_run p cs = Some (outs, p') \<and>
    (set outs, tmo_abs p') = spec_run (tmo_timeout p) (tmo_abs p) cs"
  using assms
proof (induction cs arbitrary: t0 p)
  case (Cons c cs)
  obtain now call where c: "c = (now, call)" by (cases c)
  have I: "tmo_inv now p" using Cons.prems tmo_inv_later by (auto simp: c)
  have S: "sorted (now # map fst cs)" using Cons.prems by (simp add: c)
  show ?case
  proof (cases call)
    case (TmoApply s)
    obtain p' where p': "tmo_ApplySample now p s = Some (True, p')" "tmo_inv now p'"
      "tmo_timeout p' = tmo_timeout p" "tmo_abs p' = spec_apply now s (tmo_abs p)"
      using tmo_apply_refines [OF I] by blast
    with Cons.IH [OF p'(2) S] show ?thesis by (simp add: c TmoApply)
  next
    case TmoCheck
    obtain out p' where p': "tmo_CheckForTimeouts now p = Some (out, p')" "tmo_inv now p'"
      "tmo_timeout p' = tmo_timeout p" "tmo_abs p' = spec_check (tmo_timeout p) now (tmo_abs p)"
      "set out = ran (spec_expired (tmo_timeout p) now (tmo_abs p))"
      using tmo_check_refines [OF I] by blast
    from Cons.IH [OF p'(2) S] obtain outs p'' where o: "tmo_run p' cs = Some (outs, p'')"
      "(set outs, tmo_abs p'') = spec_run (tmo_timeout p) (spec_check (tmo_timeout p) now (tmo_abs p)) cs"
      by (auto simp: p'(3,4))
    show ?thesis by (simp add: c TmoCheck p'(1,5) o(1) o(2) [symmetric])
  qed
qed simp

lemma tmo_inv_new: "tmo_inv t (tmo_new timeout)"
  by (simp add: tmo_inv_def tmo_new_def)

lemma tmo_abs_new: "tmo_abs (tmo_new timeout) = Map.empty"
  by (auto simp: tmo_abs_def tmo_new_def em_new_def em_abs_def em_look_def)

text \<open>
  C8. \<open>CTimeoutProvider\<close> implements its specification: for any history of samples and timeout
  checks in the order of their times, nothing undefined happens, and the callback receives at each
  check exactly the unregistration samples of the entities not heard of for longer than the
  timeout, each until it is heard of again only once.
\<close>

theorem timeout_provider_refines:
  assumes "sorted (map fst cs)"
  shows "\<exists>outs p. tmo_run (tmo_new timeout) cs = Some (outs, p) \<and>
    (set outs, tmo_abs p) = spec_run timeout Map.empty cs"
proof (cases cs)
  case (Cons c cs')
  then have "sorted (fst c # map fst cs)" using assms by simp
  from tmo_run_refines [OF tmo_inv_new this, of timeout] show ?thesis
    by (simp add: tmo_abs_new) (simp add: tmo_new_def em_new_def)
qed (simp add: tmo_abs_new)

definition demo_calls :: "(time_point \<times> tmo_call) list" where
  "demo_calls = [(0, TmoApply (demo_pub_reg 4 ''t'')), (5, TmoCheck), (8, TmoApply (demo_pub_reg 4 ''t'')),
     (15, TmoCheck), (30, TmoCheck), (60, TmoCheck)]"

theorem timeout_provider_refines_witness:
  "\<exists>outs p. tmo_run (tmo_new 10) demo_calls = Some (outs, p) \<and>
    (set outs, tmo_abs p) = spec_run 10 Map.empty demo_calls"
  by (rule timeout_provider_refines) (simp add: demo_calls_def)

lemma demo_calls_out:
  "fst (spec_run 10 Map.empty demo_calls) = {(30, CreateUnregisterSample (demo_pub_reg 4 ''t''))}"
  by (simp add: demo_calls_def spec_apply_def spec_check_def spec_expired_def ran_def
      demo_pub_reg_def IsUnregistrationSample_def Let_def)

text \<open>
  The specification on one entity: heard of at \<open>t\<close>, checked at \<open>now\<close>.
\<close>

lemma spec_check_apply:
  assumes "\<not> IsUnregistrationSample s" "a (si_entity_id (sa_identifier s)) = None"
  shows "spec_expired timeout now (spec_apply t s a) (si_entity_id (sa_identifier s)) =
    (if t + timeout < now then Some (CreateUnregisterSample s) else None)"
  using assms by (simp add: spec_expired_def spec_apply_def Let_def)

end
