(* ===== verification/Desc_Gate.thy ===== *)
theory Desc_Gate
  imports Core_Types "HOL-Library.Product_Lexorder"
begin

text \<open>
  \<open>ecal/core/src/ecal_descgate.{h,cpp}\<close>: \<open>CDescGate\<close>, the description database of a process: the
  publishers, subscribers, servers and clients currently registered, with their data types, and
  the callbacks for topic events. An unordered map is an ordered one (its order is not observable:
  the lists of ids are sets), a callback is a value, and the callbacks an operation calls are the
  list it returns.
\<close>

subsection \<open>Service method sets\<close>

record method_info =
  mi_method_name :: string
  mi_request_type :: data_type_info
  mi_response_type :: data_type_info

definition dti_key :: "data_type_info \<Rightarrow> string \<times> string \<times> string" where
  "dti_key d = (dti_name d, dti_encoding d, dti_descriptor d)"

text \<open>\<open>operator<\<close> of \<open>SServiceMethodInformation\<close> ties the method name, the method name again and
  the response type.\<close>

definition mi_key :: "method_info \<Rightarrow> string \<times> string \<times> string \<times> string \<times> string" where
  "mi_key m = (mi_method_name m, mi_method_name m, dti_key (mi_response_type m))"

definition mi_eq :: "method_info \<Rightarrow> method_info \<Rightarrow> bool" where
  "mi_eq a b \<longleftrightarrow> mi_method_name a = mi_method_name b \<and>
     dti_eq (mi_request_type a) (mi_request_type b) \<and> dti_eq (mi_response_type a) (mi_response_type b)"

definition GetDataTypeInformation :: "data_type_info \<Rightarrow> string \<Rightarrow> string \<Rightarrow> data_type_info" where
  "GetDataTypeInformation d legacy_type legacy_desc =
     (if dti_name d \<noteq> [] then d
      else dti_new\<lparr>dti_name := legacy_type, dti_descriptor := legacy_desc\<rparr>)"

definition ConvertMethod :: "service_method \<Rightarrow> method_info" where
  "ConvertMethod m =
     \<lparr>mi_method_name = sm_method_name m,
      mi_request_type = GetDataTypeInformation (sm_request_datatype_information m) (sm_req_type m) (sm_req_desc m),
      mi_response_type = GetDataTypeInformation (sm_response_datatype_information m) (sm_resp_type m) (sm_resp_desc m)\<rparr>"

definition ConvertMethods :: "service_method evec \<Rightarrow> method_info oset" where
  "ConvertMethods ms = foldl (\<lambda>s m. os_insert mi_key s (ConvertMethod m)) [] (ev_list ms)"

subsection \<open>The collections\<close>

definition ConvertToEntityId :: "sample_identifier \<Rightarrow> entity_id" where
  "ConvertToEntityId i =
     \<lparr>ei_entity_id = si_entity_id i, ei_process_id = si_process_id i, ei_host_name = si_host_name i\<rparr>"

definition ti_key :: "topic_id \<Rightarrow> u64 \<times> string" where
  "ti_key t = (ei_entity_id (ti_topic_id t), ti_topic_name t)"

definition svi_key :: "service_id \<Rightarrow> u64 \<times> string" where
  "svi_key t = (ei_entity_id (svi_service_id t), svi_service_name t)"

type_synonym topic_infos = "(u64, topic_id \<times> data_type_info) omap"
type_synonym service_infos = "(u64, service_id \<times> method_info oset) omap"

text \<open>The topic id of a new topic is returned, for \<open>on_new_topic\<close>.\<close>

definition cti_RegisterSample :: "topic_infos \<Rightarrow> sample \<Rightarrow> topic_infos \<times> topic_id option" where
  "cti_RegisterSample mp s =
     (let e = si_entity_id (sa_identifier s); d = tp_datatype_information (sa_topic s) in
      case om_find id mp e of
        Some (i, _) \<Rightarrow> (om_set id mp e (i, d), None)
      | None \<Rightarrow>
          (let i = \<lparr>ti_topic_id = ConvertToEntityId (sa_identifier s), ti_topic_name = tp_topic_name (sa_topic s)\<rparr>
           in (om_emplace id mp e (i, d), Some i)))"

definition cti_UnregisterSample :: "topic_infos \<Rightarrow> sample \<Rightarrow> topic_infos \<times> topic_id option" where
  "cti_UnregisterSample mp s =
     (let e = si_entity_id (sa_identifier s) in
      case om_find id mp e of
        None \<Rightarrow> (mp, None)
      | Some (i, _) \<Rightarrow> (om_erase id mp e, Some i))"

definition cti_GetIDs :: "topic_infos \<Rightarrow> topic_id oset" where
  "cti_GetIDs mp = os_of_list ti_key (map (fst \<circ> snd) mp)"

definition cti_GetInfo :: "topic_infos \<Rightarrow> topic_id \<Rightarrow> data_type_info option" where
  "cti_GetInfo mp t = map_option snd (om_find id mp (ei_entity_id (ti_topic_id t)))"

definition csi_RegisterSample ::
  "service_infos \<Rightarrow> sample_identifier \<Rightarrow> string \<Rightarrow> method_info oset \<Rightarrow> service_infos" where
  "csi_RegisterSample mp i name ms =
     (case om_find id mp (si_entity_id i) of
        Some (sid, _) \<Rightarrow> om_set id mp (si_entity_id i) (sid, ms)
      | None \<Rightarrow> om_emplace id mp (si_entity_id i)
          (\<lparr>svi_service_id = ConvertToEntityId i, svi_service_name = name\<rparr>, ms))"

definition csi_UnregisterSample :: "service_infos \<Rightarrow> sample \<Rightarrow> service_infos" where
  "csi_UnregisterSample mp s =
     (case om_find id mp (si_entity_id (sa_identifier s)) of
        None \<Rightarrow> mp
      | Some _ \<Rightarrow> om_erase id mp (si_entity_id (sa_identifier s)))"

definition csi_GetIDs :: "service_infos \<Rightarrow> service_id oset" where
  "csi_GetIDs mp = os_of_list svi_key (map (fst \<circ> snd) mp)"

definition csi_GetInfo :: "service_infos \<Rightarrow> service_id \<Rightarrow> method_info oset option" where
  "csi_GetInfo mp t = map_option snd (om_find id mp (ei_entity_id (svi_service_id t)))"

subsection \<open>CDescGate\<close>

datatype registration_event = NewEntity | DeletedEntity

text \<open>An empty \<open>std::function\<close> in the callback map is \<open>None\<close>.\<close>

record 'cb desc_gate =
  dg_publisher_infos :: topic_infos
  dg_publisher_callbacks :: "(u64, 'cb option) omap"
  dg_subscriber_infos :: topic_infos
  dg_subscriber_callbacks :: "(u64, 'cb option) omap"
  dg_server_infos :: service_infos
  dg_client_infos :: service_infos
  dg_callback_token :: u64

definition dg_new :: "'cb desc_gate" where
  "dg_new = \<lparr>dg_publisher_infos = [], dg_publisher_callbacks = [], dg_subscriber_infos = [],
     dg_subscriber_callbacks = [], dg_server_infos = [], dg_client_infos = [], dg_callback_token = 0\<rparr>"

definition dg_CreateToken :: "'cb desc_gate \<Rightarrow> u64 \<times> 'cb desc_gate" where
  "dg_CreateToken g = (dg_callback_token g + 1, g\<lparr>dg_callback_token := dg_callback_token g + 1\<rparr>)"

definition dg_AddPublisherEventCallback :: "'cb desc_gate \<Rightarrow> 'cb option \<Rightarrow> u64 \<times> 'cb desc_gate" where
  "dg_AddPublisherEventCallback g cb =
     (let (t, g) = dg_CreateToken g
      in (t, g\<lparr>dg_publisher_callbacks := om_set id (dg_publisher_callbacks g) t cb\<rparr>))"

definition dg_RemPublisherEventCallback :: "'cb desc_gate \<Rightarrow> u64 \<Rightarrow> 'cb desc_gate" where
  "dg_RemPublisherEventCallback g t =
     g\<lparr>dg_publisher_callbacks := om_erase id (dg_publisher_callbacks g) t\<rparr>"

definition dg_AddSubscriberEventCallback :: "'cb desc_gate \<Rightarrow> 'cb option \<Rightarrow> u64 \<times> 'cb desc_gate" where
  "dg_AddSubscriberEventCallback g cb =
     (let (t, g) = dg_CreateToken g
      in (t, g\<lparr>dg_subscriber_callbacks := om_set id (dg_subscriber_callbacks g) t cb\<rparr>))"

definition dg_RemSubscriberEventCallback :: "'cb desc_gate \<Rightarrow> u64 \<Rightarrow> 'cb desc_gate" where
  "dg_RemSubscriberEventCallback g t =
     g\<lparr>dg_subscriber_callbacks := om_erase id (dg_subscriber_callbacks g) t\<rparr>"

definition dg_GetPublisherIDs :: "'cb desc_gate \<Rightarrow> topic_id oset" where
  "dg_GetPublisherIDs g = cti_GetIDs (dg_publisher_infos g)"

definition dg_GetPublisherInfo :: "'cb desc_gate \<Rightarrow> topic_id \<Rightarrow> data_type_info option" where
  "dg_GetPublisherInfo g t = cti_GetInfo (dg_publisher_infos g) t"

definition dg_GetSubscriberIDs :: "'cb desc_gate \<Rightarrow> topic_id oset" where
  "dg_GetSubscriberIDs g = cti_GetIDs (dg_subscriber_infos g)"

definition dg_GetSubscriberInfo :: "'cb desc_gate \<Rightarrow> topic_id \<Rightarrow> data_type_info option" where
  "dg_GetSubscriberInfo g t = cti_GetInfo (dg_subscriber_infos g) t"

definition dg_GetServerIDs :: "'cb desc_gate \<Rightarrow> service_id oset" where
  "dg_GetServerIDs g = csi_GetIDs (dg_server_infos g)"

definition dg_GetServerInfo :: "'cb desc_gate \<Rightarrow> service_id \<Rightarrow> method_info oset option" where
  "dg_GetServerInfo g t = csi_GetInfo (dg_server_infos g) t"

definition dg_GetClientIDs :: "'cb desc_gate \<Rightarrow> service_id oset" where
  "dg_GetClientIDs g = csi_GetIDs (dg_client_infos g)"

definition dg_GetClientInfo :: "'cb desc_gate \<Rightarrow> service_id \<Rightarrow> method_info oset option" where
  "dg_GetClientInfo g t = csi_GetInfo (dg_client_infos g) t"

text \<open>\<open>MakeNotifyLambda\<close>: every non-empty callback, in the order of the tokens.\<close>

type_synonym 'cb dg_calls = "('cb \<times> topic_id \<times> registration_event) list"

definition dg_notify ::
  "(u64, 'cb option) omap \<Rightarrow> registration_event \<Rightarrow> topic_id option \<Rightarrow> 'cb dg_calls" where
  "dg_notify cbs ev t =
     (case t of
        None \<Rightarrow> []
      | Some i \<Rightarrow> concat (map (\<lambda>(_, cb). case cb of None \<Rightarrow> [] | Some c \<Rightarrow> [(c, i, ev)]) cbs))"

definition dg_ApplySample :: "'cb desc_gate \<Rightarrow> sample \<Rightarrow> 'cb desc_gate \<times> 'cb dg_calls" where
  "dg_ApplySample g s =
     (case sa_cmd_type s of
        BctNone \<Rightarrow> (g, [])
      | BctForeign _ \<Rightarrow> (g, [])
      | BctSetSample \<Rightarrow> (g, [])
      | BctRegProcess \<Rightarrow> (g, [])
      | BctUnregProcess \<Rightarrow> (g, [])
      | BctRegService \<Rightarrow>
          (g\<lparr>dg_server_infos := csi_RegisterSample (dg_server_infos g) (sa_identifier s)
             (sv_service_name (sa_service s)) (ConvertMethods (sv_methods (sa_service s)))\<rparr>, [])
      | BctUnregService \<Rightarrow> (g\<lparr>dg_server_infos := csi_UnregisterSample (dg_server_infos g) s\<rparr>, [])
      | BctRegClient \<Rightarrow>
          (g\<lparr>dg_client_infos := csi_RegisterSample (dg_client_infos g) (sa_identifier s)
             (cl_service_name (sa_client s)) (ConvertMethods (cl_methods (sa_client s)))\<rparr>, [])
      | BctUnregClient \<Rightarrow> (g\<lparr>dg_client_infos := csi_UnregisterSample (dg_client_infos g) s\<rparr>, [])
      | BctRegPublisher \<Rightarrow>
          (let (mp, t) = cti_RegisterSample (dg_publisher_infos g) s
           in (g\<lparr>dg_publisher_infos := mp\<rparr>, dg_notify (dg_publisher_callbacks g) NewEntity t))
      | BctUnregPublisher \<Rightarrow>
          (let (mp, t) = cti_UnregisterSample (dg_publisher_infos g) s
           in (g\<lparr>dg_publisher_infos := mp\<rparr>, dg_notify (dg_publisher_callbacks g) DeletedEntity t))
      | BctRegSubscriber \<Rightarrow>
          (let (mp, t) = cti_RegisterSample (dg_subscriber_infos g) s
           in (g\<lparr>dg_subscriber_infos := mp\<rparr>, dg_notify (dg_subscriber_callbacks g) NewEntity t))
      | BctUnregSubscriber \<Rightarrow>
          (let (mp, t) = cti_UnregisterSample (dg_subscriber_infos g) s
           in (g\<lparr>dg_subscriber_infos := mp\<rparr>, dg_notify (dg_subscriber_callbacks g) DeletedEntity t)))"

fun dg_apply_all :: "'cb desc_gate \<Rightarrow> sample list \<Rightarrow> 'cb desc_gate \<times> 'cb dg_calls" where
  "dg_apply_all g [] = (g, [])"
| "dg_apply_all g (s # ss) =
     (let (g', c) = dg_ApplySample g s; (g'', cs) = dg_apply_all g' ss in (g'', c @ cs))"

subsection \<open>Service methods\<close>

lemma ConvertMethods_of_list: "ConvertMethods ms = os_of_list mi_key (map ConvertMethod (ev_list ms))"
  by (simp add: ConvertMethods_def os_of_list_def foldl_map)

lemma mi_key_ConvertMethod [simp]: "fst (mi_key (ConvertMethod m)) = sm_method_name m"
  by (simp add: mi_key_def ConvertMethod_def)

text \<open>Methods of different names are all kept.\<close>

lemma ConvertMethods_distinct:
  assumes "distinct (map sm_method_name (ev_list ms))"
  shows "set (os_elems (ConvertMethods ms)) = ConvertMethod ` set (ev_list ms)"
proof -
  have "distinct (map fst (map mi_key (map ConvertMethod (ev_list ms))))"
    using assms by (simp add: comp_def)
  then have "distinct (map mi_key (map ConvertMethod (ev_list ms)))" by (simp only: distinct_map)
  then show ?thesis by (simp add: ConvertMethods_of_list os_of_list_elems)
qed

text \<open>
  \<open>operator<\<close> of \<open>SServiceMethodInformation\<close> does not look at the request type: of two
  methods that differ in it only, and so are not \<open>operator==\<close>, the description database keeps the
  first.
\<close>

theorem ConvertMethods_drops:
  assumes "sm_method_name a = sm_method_name b"
    "mi_response_type (ConvertMethod a) = mi_response_type (ConvertMethod b)"
    "mi_request_type (ConvertMethod a) \<noteq> mi_request_type (ConvertMethod b)"
  shows "os_elems (ConvertMethods (ev_of_list [a, b])) = [ConvertMethod a] \<and>
    \<not> mi_eq (ConvertMethod a) (ConvertMethod b)"
proof -
  have "mi_key (ConvertMethod a) = mi_key (ConvertMethod b)"
    using assms(1,2) by (simp add: mi_key_def) (simp add: ConvertMethod_def)
  moreover have "\<not> dti_eq (mi_request_type (ConvertMethod a)) (mi_request_type (ConvertMethod b))"
    using assms(3) by (auto simp: dti_eq_def intro: data_type_info.equality)
  ultimately show ?thesis
    by (simp add: ConvertMethods_of_list os_of_list_def os_insert_def os_elems_def om_emplace_def mi_eq_def)
qed

definition demo_method :: "string \<Rightarrow> service_method" where
  "demo_method t = sm_new\<lparr>sm_method_name := ''m'', sm_req_type := t\<rparr>"

theorem ConvertMethods_drops_witness:
  "os_elems (ConvertMethods (ev_of_list [demo_method ''A'', demo_method ''B''])) = [ConvertMethod (demo_method ''A'')]"
  using ConvertMethods_drops [of "demo_method ''A''" "demo_method ''B''"]
  by (simp add: demo_method_def ConvertMethod_def GetDataTypeInformation_def sm_new_def dti_new_def)

subsection \<open>The publisher database over a history of samples\<close>

definition cti_inv :: "topic_infos \<Rightarrow> bool" where
  "cti_inv mp \<longleftrightarrow> om_invar id mp \<and> (\<forall>(k, i, d) \<in> set mp. ei_entity_id (ti_topic_id i) = k)"

lemma cti_inv_find: "cti_inv mp \<Longrightarrow> om_find id mp k = Some (i, d) \<Longrightarrow> ei_entity_id (ti_topic_id i) = k"
  using om_find_in_set [of id mp k "(i, d)"] by (auto simp: cti_inv_def)

lemma om_set_subset: "set (om_set pr m k v) \<subseteq> set m \<union> {(k', w). pr k' = pr k \<and> w = v}"
  by (induction pr m k v rule: om_set.induct) auto

lemma om_erase_subset: "set (om_erase pr m k) \<subseteq> set m"
  by (induction pr m k rule: om_erase.induct) auto

lemma cti_inv_ops [ecal_inv, simp]:
  assumes "cti_inv mp"
  shows "cti_inv (fst (cti_RegisterSample mp s))" "cti_inv (fst (cti_UnregisterSample mp s))"
proof -
  have ins: "cti_inv (om_set id mp e (i, d))" if "ei_entity_id (ti_topic_id i) = e" for e i d
    using om_set_subset [of id mp e "(i, d)"] assms that by (fastforce simp: cti_inv_def)
  have del: "cti_inv (om_erase id mp e)" for e
    using om_erase_subset [of id mp e] assms by (fastforce simp: cti_inv_def)
  show "cti_inv (fst (cti_RegisterSample mp s))"
    using ins cti_inv_find [OF assms]
    by (auto simp: cti_RegisterSample_def Let_def om_emplace_def ConvertToEntityId_def split: option.splits)
  show "cti_inv (fst (cti_UnregisterSample mp s))"
    using del assms by (auto simp: cti_UnregisterSample_def Let_def split: option.splits)
qed

lemma cti_find_Register:
  "om_find id (fst (cti_RegisterSample mp s)) e =
    (if e = si_entity_id (sa_identifier s)
     then Some (case om_find id mp e of Some (i, _) \<Rightarrow> i
         | None \<Rightarrow> \<lparr>ti_topic_id = ConvertToEntityId (sa_identifier s), ti_topic_name = tp_topic_name (sa_topic s)\<rparr>,
       tp_datatype_information (sa_topic s))
     else om_find id mp e)"
  by (auto simp: cti_RegisterSample_def Let_def om_find_set om_find_emplace split: option.splits)

lemma cti_find_Unregister:
  "om_invar id mp \<Longrightarrow> om_find id (fst (cti_UnregisterSample mp s)) e =
    (if e = si_entity_id (sa_identifier s) then None else om_find id mp e)"
  by (auto simp: cti_UnregisterSample_def Let_def om_find_erase split: option.splits)

text \<open>The specification: the last registration of an entity that was not unregistered since.\<close>

definition pub_spec_step :: "(u64 \<Rightarrow> data_type_info option) \<Rightarrow> sample \<Rightarrow> u64 \<Rightarrow> data_type_info option" where
  "pub_spec_step a s =
     (if sa_cmd_type s = BctRegPublisher
      then a(si_entity_id (sa_identifier s) \<mapsto> tp_datatype_information (sa_topic s))
      else if sa_cmd_type s = BctUnregPublisher then a(si_entity_id (sa_identifier s) := None)
      else a)"

definition dg_pub :: "'cb desc_gate \<Rightarrow> u64 \<Rightarrow> data_type_info option" where
  "dg_pub g e = map_option snd (om_find id (dg_publisher_infos g) e)"

lemma dg_step_pub:
  assumes "cti_inv (dg_publisher_infos g)"
  shows "cti_inv (dg_publisher_infos (fst (dg_ApplySample g s))) \<and>
    dg_pub (fst (dg_ApplySample g s)) = pub_spec_step (dg_pub g) s"
  using assms cti_find_Register [of "dg_publisher_infos g" s] cti_find_Unregister [of "dg_publisher_infos g" s]
    cti_inv_ops [OF assms, of s]
  by (cases "sa_cmd_type s")
    (simp_all add: dg_ApplySample_def Let_def split_beta dg_pub_def fun_eq_iff pub_spec_step_def cti_inv_def)

lemma dg_pub_refines:
  "cti_inv (dg_publisher_infos g) \<Longrightarrow>
    cti_inv (dg_publisher_infos (fst (dg_apply_all g ss))) \<and>
    dg_pub (fst (dg_apply_all g ss)) = foldl pub_spec_step (dg_pub g) ss"
  by (induction ss arbitrary: g) (auto simp: split_beta dg_step_pub)

lemma dg_pub_new: "cti_inv (dg_publisher_infos dg_new)" "dg_pub dg_new = Map.empty"
  by (auto simp: cti_inv_def dg_new_def dg_pub_def)

text \<open>
  C25. The publisher part of the description database after any history of registration samples:
  a publisher id is listed, and its data type found, exactly for the entities whose last
  registration was not followed by an unregistration, with the data type of that registration.
\<close>

theorem dg_publishers_correct:
  "let g = fst (dg_apply_all (dg_new :: 'cb desc_gate) ss); spec = foldl pub_spec_step Map.empty ss
   in dg_GetPublisherInfo g t = spec (ei_entity_id (ti_topic_id t)) \<and>
    (\<lambda>i. ei_entity_id (ti_topic_id i)) ` set (os_elems (dg_GetPublisherIDs g)) = dom spec"
proof -
  let ?g = "fst (dg_apply_all (dg_new :: 'cb desc_gate) ss)" and ?spec = "foldl pub_spec_step Map.empty ss"
  have "cti_inv (dg_publisher_infos ?g) \<and> dg_pub ?g = foldl pub_spec_step (dg_pub (dg_new :: 'cb desc_gate)) ss"
    by (rule dg_pub_refines [OF dg_pub_new(1)])
  then have I: "cti_inv (dg_publisher_infos ?g)" and S: "dg_pub ?g = ?spec"
    by (simp_all add: dg_pub_new(2))
  let ?m = "dg_publisher_infos ?g"
  have keys: "map (\<lambda>x. ei_entity_id (ti_topic_id (fst (snd x)))) ?m = om_keys id ?m"
    using I by (auto simp: cti_inv_def om_keys_def)
  then have "distinct (map fst (map ti_key (map (fst \<circ> snd) ?m)))"
    using I by (simp add: cti_inv_def om_invar_def ti_key_def comp_def strict_sorted_iff)
  then have "distinct (map ti_key (map (fst \<circ> snd) ?m))" by (simp only: distinct_map)
  then have "set (os_elems (dg_GetPublisherIDs ?g)) = set (map (fst \<circ> snd) ?m)"
    unfolding dg_GetPublisherIDs_def cti_GetIDs_def by (rule os_of_list_elems)
  then have "(\<lambda>i. ei_entity_id (ti_topic_id i)) ` set (os_elems (dg_GetPublisherIDs ?g)) = set (om_keys id ?m)"
    using arg_cong [OF keys, of set] by (simp add: image_image)
  also have "\<dots> = dom (dg_pub ?g)"
  proof -
    have "k \<in> set (om_keys id ?m) \<longleftrightarrow> dg_pub ?g k \<noteq> None" for k
      using om_find_None_iff [of id ?m k] by (simp add: dg_pub_def)
    then show ?thesis by (simp add: dom_def set_eq_iff)
  qed
  finally show ?thesis using S by (simp add: Let_def dg_GetPublisherInfo_def cti_GetInfo_def dg_pub_def fun_eq_iff)
qed

subsection \<open>Topic events\<close>

text \<open>
  C16's vocabulary: the events callback \<open>c\<close> received for entity \<open>e\<close>, and the sequences of events
  that alternate, beginning with a new entity when it is not present.
\<close>

definition dg_events :: "'cb \<Rightarrow> u64 \<Rightarrow> 'cb dg_calls \<Rightarrow> registration_event list" where
  "dg_events c e log = map (\<lambda>(_, _, ev). ev)
     (filter (\<lambda>(c', i, _). c' = c \<and> ei_entity_id (ti_topic_id i) = e) log)"

fun dg_alternates :: "bool \<Rightarrow> registration_event list \<Rightarrow> bool" where
  "dg_alternates present [] \<longleftrightarrow> True"
| "dg_alternates present (ev # evs) \<longleftrightarrow>
     ev = (if present then DeletedEntity else NewEntity) \<and> dg_alternates (\<not> present) evs"

definition dg_present :: "'cb desc_gate \<Rightarrow> u64 \<Rightarrow> bool" where
  "dg_present g e \<longleftrightarrow> om_find id (dg_publisher_infos g) e \<noteq> None"

definition dg_registered_once :: "'cb \<Rightarrow> 'cb desc_gate \<Rightarrow> bool" where
  "dg_registered_once c g \<longleftrightarrow>
     (\<exists>t. filter (\<lambda>(_, cb). cb = Some c) (dg_publisher_callbacks g) = [(t, Some c)]) \<and>
     filter (\<lambda>(_, cb). cb = Some c) (dg_subscriber_callbacks g) = []"

lemma dg_events_append [simp]: "dg_events c e (a @ b) = dg_events c e a @ dg_events c e b"
  by (simp add: dg_events_def)

lemma dg_events_notify:
  "dg_events c e (dg_notify cbs ev t) =
    (case t of None \<Rightarrow> [] | Some i \<Rightarrow>
      if ei_entity_id (ti_topic_id i) = e then map (\<lambda>_. ev) (filter (\<lambda>(_, cb). cb = Some c) cbs) else [])"
proof (cases t)
  case (Some i)
  show ?thesis by (induction cbs) (auto simp: Some dg_notify_def dg_events_def split: option.splits)
qed (simp add: dg_notify_def dg_events_def)

lemma cti_Register_event:
  "snd (cti_RegisterSample mp s) =
    (if om_find id mp (si_entity_id (sa_identifier s)) = None
     then Some \<lparr>ti_topic_id = ConvertToEntityId (sa_identifier s), ti_topic_name = tp_topic_name (sa_topic s)\<rparr>
     else None)"
  by (auto simp: cti_RegisterSample_def Let_def split: option.splits)

lemma cti_Unregister_event:
  "snd (cti_UnregisterSample mp s) = map_option fst (om_find id mp (si_entity_id (sa_identifier s)))"
  by (auto simp: cti_UnregisterSample_def Let_def split: option.splits)

lemma ConvertToEntityId_id [simp]: "ei_entity_id (ConvertToEntityId i) = si_entity_id i"
  by (simp add: ConvertToEntityId_def)

lemma dg_registered_once_step: "dg_registered_once c g \<Longrightarrow> dg_registered_once c (fst (dg_ApplySample g s))"
  by (cases "sa_cmd_type s") (auto simp: dg_ApplySample_def dg_registered_once_def split_beta Let_def)

lemma dg_step_events:
  assumes "cti_inv (dg_publisher_infos g)" "dg_registered_once c g"
  shows "\<exists>evs. dg_events c e (snd (dg_ApplySample g s)) = evs \<and>
    (evs = [] \<and> dg_present (fst (dg_ApplySample g s)) e = dg_present g e \<or>
     evs = [if dg_present g e then DeletedEntity else NewEntity] \<and>
       dg_present (fst (dg_ApplySample g s)) e = (\<not> dg_present g e))"
proof -
  obtain t where t: "filter (\<lambda>(_, cb). cb = Some c) (dg_publisher_callbacks g) = [(t, Some c)]"
    "filter (\<lambda>(_, cb). cb = Some c) (dg_subscriber_callbacks g) = []"
    using assms(2) by (auto simp: dg_registered_once_def)
  have inv: "om_invar id (dg_publisher_infos g)" using assms(1) by (simp add: cti_inv_def)
  have nil: "dg_events c e [] = []" by (simp add: dg_events_def)
  consider "sa_cmd_type s = BctRegPublisher" | "sa_cmd_type s = BctUnregPublisher"
    | "sa_cmd_type s \<noteq> BctRegPublisher" "sa_cmd_type s \<noteq> BctUnregPublisher" by blast
  then show ?thesis
  proof cases
    case 1
    then show ?thesis
      by (auto simp: dg_ApplySample_def split_beta dg_events_notify t cti_Register_event dg_present_def
          cti_find_Register)
  next
    case 2
    then show ?thesis using cti_inv_find [OF assms(1), of "si_entity_id (sa_identifier s)"]
      by (cases "om_find id (dg_publisher_infos g) (si_entity_id (sa_identifier s))")
        (auto simp: dg_ApplySample_def split_beta dg_events_notify t cti_Unregister_event dg_present_def
          cti_find_Unregister [OF inv])
  next
    case 3
    then show ?thesis
      by (cases "sa_cmd_type s")
        (auto simp: dg_ApplySample_def split_beta dg_events_notify t dg_present_def nil split: option.splits)
  qed
qed

text \<open>
  C23. A callback registered for publisher events receives, for every entity and over any history
  of registration samples, alternating new and deleted events, starting with a new one exactly if
  the entity was not known, and the entity is known at the end exactly if the last event was new
  (repeated registrations and unregistrations of unknown entities are silent).
\<close>

theorem dg_events_alternate:
  assumes "cti_inv (dg_publisher_infos g)" "dg_registered_once c g"
  shows "let (g', log) = dg_apply_all g ss; evs = dg_events c e log in
    dg_alternates (dg_present g e) evs \<and> (dg_present g' e \<longleftrightarrow> (dg_present g e = even (length evs)))"
  using assms
proof (induction ss arbitrary: g)
  case (Cons s ss)
  let ?g = "fst (dg_ApplySample g s)"
  obtain g' log where r: "dg_apply_all ?g ss = (g', log)" by (cases "dg_apply_all ?g ss")
  have "cti_inv (dg_publisher_infos ?g)" "dg_registered_once c ?g"
    using dg_step_pub [OF Cons.prems(1)] dg_registered_once_step [OF Cons.prems(2)] by auto
  from Cons.IH [OF this] have IH: "dg_alternates (dg_present ?g e) (dg_events c e log) \<and>
      (dg_present g' e \<longleftrightarrow> (dg_present ?g e = even (length (dg_events c e log))))"
    by (simp add: r Let_def)
  then show ?case using dg_step_events [OF Cons.prems, of e s]
    by (auto simp: split_beta r Let_def)
qed (simp add: dg_events_def)

definition demo_gate :: "string desc_gate" where
  "demo_gate = snd (dg_AddPublisherEventCallback dg_new (Some ''cb''))"

theorem dg_events_alternate_witness:
  "let (g', log) = dg_apply_all demo_gate [sa_new\<lparr>sa_cmd_type := BctRegPublisher\<rparr>]; evs = dg_events ''cb'' 0 log in
    dg_alternates (dg_present demo_gate 0) evs \<and> (dg_present g' 0 \<longleftrightarrow> (dg_present demo_gate 0 = even (length evs)))"
proof (rule dg_events_alternate)
  show "cti_inv (dg_publisher_infos demo_gate)"
    by (simp add: demo_gate_def dg_AddPublisherEventCallback_def dg_CreateToken_def dg_new_def cti_inv_def)
  show "dg_registered_once ''cb'' demo_gate"
    by (simp add: demo_gate_def dg_AddPublisherEventCallback_def dg_CreateToken_def dg_new_def dg_registered_once_def)
qed

end
