(* ===== verification/Sample_Applier.thy ===== *)
theory Sample_Applier
  imports Core_Types
begin

text \<open>
  \<open>ecal/core/src/registration/ecal_registration_sample_applier.{h,cpp}\<close> (which registration samples
  a process accepts, and to whom it hands them) and
  \<open>ecal_registration_sample_applier_gates.cpp\<close> (which gate operation a sample stands for). A
  callback is a value of type \<open>'cb\<close>; \<open>ApplySample\<close> returns the callbacks it calls, in order.
\<close>

subsection \<open>CSampleApplier\<close>

record sap_attributes =
  sat_network_enabled :: bool
  sat_loopback :: bool
  sat_shm_transport_domain :: string
  sat_host_name :: string
  sat_process_id :: i32

record 'cb sample_applier =
  sap_attr :: sap_attributes
  sap_callbacks :: "(string, 'cb) omap"

definition sap_new :: "sap_attributes \<Rightarrow> 'cb sample_applier" where
  "sap_new attr = \<lparr>sap_attr = attr, sap_callbacks = []\<rparr>"

definition sap_IsSameProcess :: "sap_attributes \<Rightarrow> sample \<Rightarrow> bool" where
  "sap_IsSameProcess a s \<longleftrightarrow> si_process_id (sa_identifier s) = sat_process_id a"

definition sap_IsSameHost :: "sap_attributes \<Rightarrow> sample \<Rightarrow> bool" where
  "sap_IsSameHost a s \<longleftrightarrow> si_host_name (sa_identifier s) = sat_host_name a"

text \<open>Only topic samples carry a domain; for the others it is the empty string.\<close>

definition sap_sample_domain :: "sample \<Rightarrow> string" where
  "sap_sample_domain s =
     (case sa_cmd_type s of
        BctRegPublisher \<Rightarrow> tp_shm_transport_domain (sa_topic s)
      | BctUnregPublisher \<Rightarrow> tp_shm_transport_domain (sa_topic s)
      | BctRegSubscriber \<Rightarrow> tp_shm_transport_domain (sa_topic s)
      | BctUnregSubscriber \<Rightarrow> tp_shm_transport_domain (sa_topic s)
      | _ \<Rightarrow> [])"

definition sap_IsSameShmTransportDomain :: "sap_attributes \<Rightarrow> sample \<Rightarrow> bool" where
  "sap_IsSameShmTransportDomain a s \<longleftrightarrow> sap_sample_domain s = sat_shm_transport_domain a"

definition sap_IsShmTransportDomainMember :: "sap_attributes \<Rightarrow> sample \<Rightarrow> bool" where
  "sap_IsShmTransportDomainMember a s \<longleftrightarrow>
     (if sap_IsSameHost a s then True
      else if sap_IsSameShmTransportDomain a s then True
      else False)"

definition sap_AcceptRegistrationSample :: "sap_attributes \<Rightarrow> sample \<Rightarrow> bool" where
  "sap_AcceptRegistrationSample a s \<longleftrightarrow>
     (if sap_IsShmTransportDomainMember a s
      then \<not> sap_IsSameProcess a s \<or> sat_loopback a
      else sat_network_enabled a)"

definition sap_ApplySample :: "'cb sample_applier \<Rightarrow> sample \<Rightarrow> bool \<times> 'cb list" where
  "sap_ApplySample ap s =
     (if \<not> sap_AcceptRegistrationSample (sap_attr ap) s then (False, [])
      else (True, map snd (sap_callbacks ap)))"

definition sap_SetCustomApplySampleCallback ::
  "'cb sample_applier \<Rightarrow> string \<Rightarrow> 'cb \<Rightarrow> 'cb sample_applier" where
  "sap_SetCustomApplySampleCallback ap customer cb =
     ap\<lparr>sap_callbacks := om_set id (sap_callbacks ap) customer cb\<rparr>"

definition sap_RemCustomApplySampleCallback ::
  "'cb sample_applier \<Rightarrow> string \<Rightarrow> 'cb sample_applier" where
  "sap_RemCustomApplySampleCallback ap customer =
     (case om_find id (sap_callbacks ap) customer of
        None \<Rightarrow> ap
      | Some _ \<Rightarrow> ap\<lparr>sap_callbacks := om_erase id (sap_callbacks ap) customer\<rparr>)"

subsection \<open>CSampleApplierGates\<close>

text \<open>The gate operation a sample is forwarded to, if that gate exists.\<close>

datatype gate_call =
    GcServiceRegistration sample
  | GcSubscriberRegistration sample
  | GcSubscriberUnregistration sample
  | GcPublisherRegistration sample
  | GcPublisherUnregistration sample

record gates_present =
  gp_clientgate :: bool
  gp_pubgate :: bool
  gp_subgate :: bool

definition sag_ApplySample :: "gates_present \<Rightarrow> sample \<Rightarrow> gate_call option" where
  "sag_ApplySample g s =
     (case sa_cmd_type s of
        BctNone \<Rightarrow> None
      | BctSetSample \<Rightarrow> None
      | BctRegProcess \<Rightarrow> None
      | BctUnregProcess \<Rightarrow> None
      | BctRegService \<Rightarrow> if gp_clientgate g then Some (GcServiceRegistration s) else None
      | BctUnregService \<Rightarrow> None
      | BctRegClient \<Rightarrow> None
      | BctUnregClient \<Rightarrow> None
      | BctRegSubscriber \<Rightarrow> if gp_pubgate g then Some (GcSubscriberRegistration s) else None
      | BctUnregSubscriber \<Rightarrow> if gp_pubgate g then Some (GcSubscriberUnregistration s) else None
      | BctRegPublisher \<Rightarrow> if gp_subgate g then Some (GcPublisherRegistration s) else None
      | BctUnregPublisher \<Rightarrow> if gp_subgate g then Some (GcPublisherUnregistration s) else None
      | BctForeign _ \<Rightarrow> None)"

subsection \<open>Lemmas\<close>

lemmas sap_accept_defs = sap_AcceptRegistrationSample_def sap_IsShmTransportDomainMember_def
  sap_IsSameHost_def sap_IsSameShmTransportDomain_def sap_IsSameProcess_def

lemma sap_callbacks_invar:
  "om_invar id (sap_callbacks ap) \<Longrightarrow>
    om_invar id (sap_callbacks (sap_SetCustomApplySampleCallback ap c cb)) \<and>
    om_invar id (sap_callbacks (sap_RemCustomApplySampleCallback ap c))"
  by (auto simp: sap_SetCustomApplySampleCallback_def sap_RemCustomApplySampleCallback_def split: option.splits)

text \<open>A sample a process sent itself, on its own host.\<close>

definition sap_own :: "sap_attributes \<Rightarrow> sample \<Rightarrow> bool" where
  "sap_own a s \<longleftrightarrow> sap_IsSameHost a s \<and> sap_IsSameProcess a s"

text \<open>Acceptance by origin.\<close>

lemma sap_accept_by_origin:
  fixes a :: sap_attributes and s :: sample
  defines "acc \<equiv> sap_AcceptRegistrationSample a s"
  shows "sap_own a s \<Longrightarrow> acc = sat_loopback a"
    and "sap_IsSameHost a s \<Longrightarrow> \<not> sap_IsSameProcess a s \<Longrightarrow> acc"
    and "\<not> sap_IsSameHost a s \<Longrightarrow> sap_sample_domain s \<noteq> sat_shm_transport_domain a \<Longrightarrow>
      acc = sat_network_enabled a"
  by (auto simp: acc_def sap_own_def sap_accept_defs)

text \<open>
  Service, client and process samples carry no shared memory domain. A process that is
  configured with the empty domain (the default) therefore takes every such sample of another host
  for one of its own domain: it accepts it with the network disabled, and, with the network
  enabled and without loopback, drops it if the process ids of the two hosts coincide.
\<close>

theorem sap_remote_service_accept:
  assumes "\<not> sap_IsSameHost a s"
    "sa_cmd_type s \<in> {BctRegService, BctUnregService, BctRegClient, BctUnregClient, BctRegProcess, BctUnregProcess}"
  shows "sap_AcceptRegistrationSample a s \<longleftrightarrow>
    (if sat_shm_transport_domain a = []
     then si_process_id (sa_identifier s) \<noteq> sat_process_id a \<or> sat_loopback a
     else sat_network_enabled a)"
  using assms by (auto simp: sap_accept_defs sap_sample_domain_def)

definition demo_attr :: sap_attributes where
  "demo_attr = \<lparr>sat_network_enabled = False, sat_loopback = False, sat_shm_transport_domain = [],
     sat_host_name = ''A'', sat_process_id = 7\<rparr>"

definition demo_service :: sample where
  "demo_service = sa_new\<lparr>sa_cmd_type := BctRegService,
     sa_identifier := si_new\<lparr>si_host_name := ''B'', si_process_id := 8\<rparr>\<rparr>"

theorem sap_remote_service_accept_witness:
  "sap_AcceptRegistrationSample demo_attr demo_service"
  using sap_remote_service_accept [of demo_attr demo_service]
  by (simp add: demo_attr_def demo_service_def sap_IsSameHost_def)

end
