(* ===== verification/Frequency.thy ===== *)
theory Frequency
  imports Complex_Main Ecal_Prelude
begin

text \<open>
  \<open>ecal/core/src/util/frequency_calculator.h\<close> and \<open>GetFrequency\<close> of the publisher and the
  subscriber. A \<open>double\<close> is a rational number: rounding is not modelled, the largest \<open>double\<close>,
  which the code returns for ticks without elapsed time, is. Times are nanoseconds
  (\<open>steady_clock\<close>, period 1 / 10^9).
\<close>

definition double_max :: rat where
  "double_max = 2 ^ 1024 - 2 ^ 971"

definition trunc_rat :: "rat \<Rightarrow> int" where
  "trunc_rat q = (if 0 \<le> q then \<lfloor>q\<rfloor> else - \<lfloor>- q\<rfloor>)"

definition calculateFrequency :: "time_point \<Rightarrow> time_point \<Rightarrow> int \<Rightarrow> rat" where
  "calculateFrequency start finish ticks =
     (let delta = finish - start in
      if delta = 0 then double_max else of_int (1000000000 * ticks) / of_int (1 * delta))"

record frequency_calculator =
  fc_counted_elements :: int
  fc_first_tick_time :: time_point
  fc_last_tick_time :: time_point
  fc_previous_frequency :: rat

definition fc_new :: "time_point \<Rightarrow> frequency_calculator" where
  "fc_new now = \<lparr>fc_counted_elements = 0, fc_first_tick_time = now, fc_last_tick_time = now,
     fc_previous_frequency = 0\<rparr>"

definition fc_addTick :: "frequency_calculator \<Rightarrow> time_point \<Rightarrow> frequency_calculator" where
  "fc_addTick c now = c\<lparr>fc_counted_elements := fc_counted_elements c + 1, fc_last_tick_time := now\<rparr>"

definition fc_getFrequency :: "frequency_calculator \<Rightarrow> rat \<times> frequency_calculator" where
  "fc_getFrequency c =
     (if fc_counted_elements c = 0 then (fc_previous_frequency c, c)
      else (let f = calculateFrequency (fc_first_tick_time c) (fc_last_tick_time c) (fc_counted_elements c)
        in (f, c\<lparr>fc_previous_frequency := f, fc_first_tick_time := fc_last_tick_time c,
                fc_counted_elements := 0\<rparr>)))"

record resettable_frequency_calculator =
  rfc_reset_factor :: rat
  rfc_last_tick_time :: time_point
  rfc_received_tick :: bool
  rfc_calculator :: "frequency_calculator option"

text \<open>The default-constructed time point is 0.\<close>

definition rfc_new :: "rat \<Rightarrow> resettable_frequency_calculator" where
  "rfc_new factor = \<lparr>rfc_reset_factor = factor, rfc_last_tick_time = 0, rfc_received_tick = False,
     rfc_calculator = None\<rparr>"

definition rfc_addTick ::
  "resettable_frequency_calculator \<Rightarrow> time_point \<Rightarrow> resettable_frequency_calculator" where
  "rfc_addTick r now =
     (let c = (case rfc_calculator r of None \<Rightarrow> fc_new now | Some c \<Rightarrow> fc_addTick c now)
      in r\<lparr>rfc_calculator := Some c, rfc_last_tick_time := now, rfc_received_tick := True\<rparr>)"

definition rfc_getFrequency ::
  "resettable_frequency_calculator \<Rightarrow> time_point \<Rightarrow> rat \<times> resettable_frequency_calculator" where
  "rfc_getFrequency r now =
     (let (frequency, r) = (case rfc_calculator r of
          None \<Rightarrow> (0, r)
        | Some c \<Rightarrow> (let (f, c') = fc_getFrequency c in (f, r\<lparr>rfc_calculator := Some c'\<rparr>)))
      in if frequency = 0 then (0, r)
         else if rfc_received_tick r then (frequency, r\<lparr>rfc_received_tick := False\<rparr>)
         else (let timeout_time = rfc_last_tick_time r +
                 trunc_rat (1000000000 * (1 / frequency * rfc_reset_factor r))
           in if now > timeout_time then (0, r\<lparr>rfc_calculator := None\<rparr>)
              else (frequency, r)))"

text \<open>\<open>GetFrequency\<close>: in millihertz, clamped to the range of \<open>int32_t\<close>.\<close>

definition clamp_frequency :: "rat \<Rightarrow> i32" where
  "clamp_frequency f =
     (let mhz = f * 1000 in
      if mhz > 2147483647 then 2147483647
      else if mhz < - 2147483648 then - 2147483648
      else word_of_int (trunc_rat mhz))"

subsection \<open>Properties\<close>

lemma fc_after_ticks:
  "ts \<noteq> [] \<Longrightarrow> foldl fc_addTick (fc_new t0) ts =
    \<lparr>fc_counted_elements = int (length ts), fc_first_tick_time = t0, fc_last_tick_time = last ts,
     fc_previous_frequency = 0\<rparr>"
proof (induction ts rule: rev_induct)
  case (snoc t ts)
  then show ?case by (cases "ts = []") (simp_all add: fc_addTick_def fc_new_def)
qed simp

lemma rfc_after_ticks:
  "foldl rfc_addTick (rfc_new k) (t0 # ts) =
    \<lparr>rfc_reset_factor = k, rfc_last_tick_time = last (t0 # ts), rfc_received_tick = True,
     rfc_calculator = Some (foldl fc_addTick (fc_new t0) ts)\<rparr>"
proof (induction ts rule: rev_induct)
  case Nil
  show ?case by (simp add: rfc_addTick_def rfc_new_def)
next
  case (snoc t ts)
  then show ?case by (simp add: rfc_addTick_def)
qed

lemma calculateFrequency_pos: "a < b \<Longrightarrow> 0 < n \<Longrightarrow> calculateFrequency a b n > 0"
  by (simp add: calculateFrequency_def Let_def)

text \<open>
  The frequency of a sequence of ticks is the number of intervals per second between the
  first and the last, whatever the intermediate times; asked again without a new tick it stays
  until the reset factor times the period has passed since the last tick, and is 0 from then on.
\<close>

theorem frequency_of_ticks:
  assumes "ts \<noteq> []" "t0 < last ts"
  shows "let f = of_int (1000000000 * int (length ts)) / of_int (last ts - t0);
      (f1, r1) = rfc_getFrequency (foldl rfc_addTick (rfc_new k) (t0 # ts)) now1;
      (f2, r2) = rfc_getFrequency r1 now2
    in f1 = f \<and>
      f2 = (if now2 > last ts + trunc_rat (1000000000 * (1 / f * k)) then 0 else f) \<and>
      (now2 > last ts + trunc_rat (1000000000 * (1 / f * k)) \<longrightarrow> fst (rfc_getFrequency r2 now3) = 0)"
proof -
  let ?f = "calculateFrequency t0 (last ts) (int (length ts))"
  have f: "?f = of_int (1000000000 * int (length ts)) / of_int (last ts - t0)"
    using assms(2) by (simp add: calculateFrequency_def Let_def)
  have pos: "?f \<noteq> 0" using calculateFrequency_pos [OF assms(2), of "int (length ts)"] assms(1) by simp
  have n: "int (length ts) \<noteq> 0" "last (t0 # ts) = last ts" using assms(1) by auto
  show ?thesis unfolding f [symmetric] rfc_after_ticks fc_after_ticks [OF assms(1)] n(2) using pos n(1)
    by (simp add: rfc_getFrequency_def fc_getFrequency_def Let_def)
qed

theorem frequency_of_ticks_witness:
  "let (f1, r1) = rfc_getFrequency (foldl rfc_addTick (rfc_new 3) [0, 100000000, 200000000]) 250000000;
      (f2, r2) = rfc_getFrequency r1 600000000 in f1 = 10 \<and> f2 = 0"
  using frequency_of_ticks [of "[100000000, 200000000]" 0 3 250000000 600000000 0]
  by (simp add: Let_def split_beta trunc_rat_def)

text \<open>
  The registered frequency saturates: it is the frequency in millihertz rounded towards zero
  when that fits into \<open>int32_t\<close>, and the nearest bound otherwise, in particular for ticks without
  elapsed time.
\<close>

lemma trunc_rat_mono: "a \<le> b \<Longrightarrow> trunc_rat a \<le> trunc_rat b"
proof (cases "0 \<le> a \<or> b < 0")
  case False
  then have "0 \<le> \<lfloor>b\<rfloor>" "0 \<le> \<lfloor>- a\<rfloor>" by auto
  then have "- \<lfloor>- a\<rfloor> \<le> \<lfloor>b\<rfloor>" by linarith
  then show "a \<le> b \<Longrightarrow> ?thesis" using False by (auto simp: trunc_rat_def)
qed (auto simp: trunc_rat_def floor_mono)

theorem clamp_frequency_saturates:
  "sint (clamp_frequency f) = max (- 2147483648) (min 2147483647 (trunc_rat (f * 1000)))"
proof (cases "f * 1000 > 2147483647 \<or> f * 1000 < - 2147483648")
  case True
  have "trunc_rat 2147483647 = 2147483647" "trunc_rat (- 2147483648) = - 2147483648"
    by (simp_all add: trunc_rat_def)
  then show ?thesis using True trunc_rat_mono [of 2147483647 "f * 1000"] trunc_rat_mono [of "f * 1000" "- 2147483648"]
    by (auto simp: clamp_frequency_def Let_def)
next
  case False
  then have b: "trunc_rat (f * 1000) \<le> 2147483647" "- 2147483648 \<le> trunc_rat (f * 1000)"
    using trunc_rat_mono [of "f * 1000" 2147483647] trunc_rat_mono [of "- 2147483648" "f * 1000"]
    by (auto simp: trunc_rat_def)
  then have "sint (word_of_int (trunc_rat (f * 1000)) :: i32) = trunc_rat (f * 1000)"
    by (simp add: signed_of_int signed_take_bit_int_eq_self)
  then show ?thesis using False b by (simp add: clamp_frequency_def Let_def)
qed

end
