(* ===== verification/Subscriber.thy ===== *)
theory Subscriber
  imports Core_Types Counter_Cache Message_Drop Frequency
begin

text \<open>
  \<open>ecal/core/src/pubsub/ecal_subscriber_impl.{h,cpp}\<close>: \<open>CSubscriberImpl\<close>. The state is one
  record; a callback is a value of type \<open>'cb\<close>; what an operation does outside the object (calls
  of the user's callbacks, of the transport layers, of the registration provider) is the list of
  effects it returns, in order. Values read from outside are arguments: the time \<open>now\<close> of
  \<open>steady_clock\<close> and \<open>oo\<close>, the configuration value \<open>GetDropOutOfOrderMessages()\<close>. The three
  transport layers are built in (the \<open>ECAL_CORE_TRANSPORT\<close> options are on); the event time of the
  event callback data is left out.
\<close>

subsection \<open>State\<close>

record sub_attributes =
  sua_udp_enable :: bool
  sua_shm_enable :: bool
  sua_tcp_enable :: bool
  sua_topic_name :: string
  sua_host :: string
  sua_domain :: string
  sua_pid :: i32
  sua_process_name :: string
  sua_unit_name :: string

record layer_state =
  ls_write_enabled :: bool
  ls_read_enabled :: bool
  ls_active :: bool

record layer_states =
  lss_udp :: layer_state
  lss_shm :: layer_state
  lss_tcp :: layer_state

definition ls_new :: layer_state where
  "ls_new = \<lparr>ls_write_enabled = False, ls_read_enabled = False, ls_active = False\<rparr>"

definition lss_new :: layer_states where
  "lss_new = \<lparr>lss_udp = ls_new, lss_shm = ls_new, lss_tcp = ls_new\<rparr>"

record sconnection =
  scn_data_type_info :: data_type_info
  scn_layer_states :: layer_states
  scn_state :: bool

definition scn_new :: sconnection where
  "scn_new = \<lparr>scn_data_type_info = dti_new, scn_layer_states = lss_new, scn_state = False\<rparr>"

type_synonym connection_map = "(sample_identifier, sconnection) omap"

record 'cb subscriber =
  sb_subscriber_id :: u64
  sb_topic_info :: data_type_info
  sb_topic_id :: topic_id
  sb_topic_size :: u64
  sb_connection_map :: connection_map
  sb_connection_count :: nat
  sb_read_buf_received :: bool
  sb_read_buf :: "u8 list"
  sb_read_time :: i64
  sb_receive_callback :: "'cb option"
  sb_receive_time :: i32
  sb_event_id_callback :: "'cb option"
  sb_clock :: i64
  sb_frequency_calculator :: resettable_frequency_calculator
  sb_message_drop_map :: "sample_identifier message_drop_map"
  sb_counter_map :: "sample_identifier counter_cache_map"
  sb_id_set :: "i64 set"
  sb_layers :: layer_states
  sb_created :: bool
  sb_attributes :: sub_attributes

text \<open>\<open>SReaderLayerPar\<close> and the data of the callbacks.\<close>

record reader_layer_par =
  rlp_host_name :: string
  rlp_process_id :: i32
  rlp_topic_name :: string
  rlp_topic_id :: u64
  rlp_parameter :: connection_par

record receive_data =
  rcd_buffer :: "u8 list"
  rcd_send_timestamp :: i64
  rcd_send_clock :: i64

datatype subscriber_event = SubConnected | SubDisconnected | SubDropped

datatype 'cb sub_effect =
    SubReceive 'cb topic_id data_type_info receive_data
  | SubEvent 'cb topic_id subscriber_event data_type_info
  | SubLayerInitialize tlayer_type
  | SubAddSubscription tlayer_type string string u64
  | SubRemSubscription tlayer_type string string u64
  | SubConnectionParameter tlayer_type reader_layer_par
  | SubRegister sample
  | SubUnregister sample

abbreviation cache_window :: u64 where
  "cache_window \<equiv> 1024"

abbreviation ecal_transport_layer_version :: i32 where
  "ecal_transport_layer_version \<equiv> 2"

subsection \<open>Construction and layers\<close>

definition sb_InitializeLayers :: "'cb subscriber \<Rightarrow> 'cb sub_effect list" where
  "sb_InitializeLayers s =
     (let a = sb_attributes s in
      (if sua_udp_enable a then [SubLayerInitialize TlEcalUdp] else []) @
      (if sua_shm_enable a then [SubLayerInitialize TlEcalShm] else []) @
      (if sua_tcp_enable a then [SubLayerInitialize TlEcalTcp] else []))"

definition sb_enable_layers :: "bool \<Rightarrow> sub_attributes \<Rightarrow> layer_states \<Rightarrow> layer_states" where
  "sb_enable_layers b a l =
     \<lparr>lss_udp = (if sua_udp_enable a then (lss_udp l)\<lparr>ls_read_enabled := b\<rparr> else lss_udp l),
      lss_shm = (if sua_shm_enable a then (lss_shm l)\<lparr>ls_read_enabled := b\<rparr> else lss_shm l),
      lss_tcp = (if sua_tcp_enable a then (lss_tcp l)\<lparr>ls_read_enabled := b\<rparr> else lss_tcp l)\<rparr>"

definition sb_each_layer ::
  "(tlayer_type \<Rightarrow> string \<Rightarrow> string \<Rightarrow> u64 \<Rightarrow> 'cb sub_effect) \<Rightarrow> 'cb subscriber \<Rightarrow> 'cb sub_effect list" where
  "sb_each_layer eff s =
     (let a = sb_attributes s; e = (\<lambda>l. eff l (sua_host a) (sua_topic_name a) (sb_subscriber_id s)) in
      (if sua_udp_enable a then [e TlEcalUdp] else []) @
      (if sua_shm_enable a then [e TlEcalShm] else []) @
      (if sua_tcp_enable a then [e TlEcalTcp] else []))"

definition sb_StartTransportLayer :: "'cb subscriber \<Rightarrow> 'cb subscriber \<times> 'cb sub_effect list" where
  "sb_StartTransportLayer s =
     (s\<lparr>sb_layers := sb_enable_layers True (sb_attributes s) (sb_layers s)\<rparr>,
      sb_each_layer SubAddSubscription s)"

definition sb_StopTransportLayer :: "'cb subscriber \<Rightarrow> 'cb subscriber \<times> 'cb sub_effect list" where
  "sb_StopTransportLayer s =
     (s\<lparr>sb_layers := sb_enable_layers False (sb_attributes s) (sb_layers s)\<rparr>,
      sb_each_layer SubRemSubscription s)"

text \<open>The constructor; the id is the clock value it reads.\<close>

definition sb_new ::
  "u64 \<Rightarrow> data_type_info \<Rightarrow> sub_attributes \<Rightarrow> 'cb subscriber \<times> 'cb sub_effect list" where
  "sb_new i ti attr =
     (let s = \<lparr>sb_subscriber_id = i, sb_topic_info = ti,
          sb_topic_id = \<lparr>ti_topic_id = \<lparr>ei_entity_id = i, ei_process_id = sua_pid attr, ei_host_name = sua_host attr\<rparr>,
            ti_topic_name = sua_topic_name attr\<rparr>,
          sb_topic_size = 0, sb_connection_map = [], sb_connection_count = 0,
          sb_read_buf_received = False, sb_read_buf = [], sb_read_time = 0, sb_receive_callback = None,
          sb_receive_time = 0, sb_event_id_callback = None, sb_clock = 0,
          sb_frequency_calculator = rfc_new 3, sb_message_drop_map = [], sb_counter_map = [],
          sb_id_set = {}, sb_layers = lss_new, sb_created = False, sb_attributes = attr\<rparr>;
          effs1 = sb_InitializeLayers s;
          (s, effs2) = sb_StartTransportLayer s
      in (s\<lparr>sb_created := True\<rparr>, effs1 @ effs2))"

subsection \<open>Callbacks and reading\<close>

definition sb_SetReceiveCallback :: "'cb subscriber \<Rightarrow> 'cb option \<Rightarrow> bool \<times> 'cb subscriber" where
  "sb_SetReceiveCallback s cb =
     (if \<not> sb_created s then (False, s) else (True, s\<lparr>sb_receive_callback := cb\<rparr>))"

definition sb_RemoveReceiveCallback :: "'cb subscriber \<Rightarrow> bool \<times> 'cb subscriber" where
  "sb_RemoveReceiveCallback s =
     (if \<not> sb_created s then (False, s) else (True, s\<lparr>sb_receive_callback := None\<rparr>))"

definition sb_SetEventCallback :: "'cb subscriber \<Rightarrow> 'cb option \<Rightarrow> bool \<times> 'cb subscriber" where
  "sb_SetEventCallback s cb =
     (if \<not> sb_created s then (False, s) else (True, s\<lparr>sb_event_id_callback := cb\<rparr>))"

definition sb_RemoveEventCallback :: "'cb subscriber \<Rightarrow> bool \<times> 'cb subscriber" where
  "sb_RemoveEventCallback s =
     (if \<not> sb_created s then (False, s) else (True, s\<lparr>sb_event_id_callback := None\<rparr>))"

definition sb_SetFilterIDs :: "'cb subscriber \<Rightarrow> i64 set \<Rightarrow> 'cb subscriber" where
  "sb_SetFilterIDs s ids = s\<lparr>sb_id_set := ids\<rparr>"

text \<open>
  \<open>Read\<close> in the state at the end of its wait: the buffer and its time if something was received.
\<close>

definition sb_Read :: "'cb subscriber \<Rightarrow> (u8 list \<times> i64) option \<times> 'cb subscriber" where
  "sb_Read s =
     (if \<not> sb_created s then (None, s)
      else if sb_read_buf_received s
      then (Some (sb_read_buf s, sb_read_time s), s\<lparr>sb_read_buf := [], sb_read_buf_received := False\<rparr>)
      else (None, s))"

definition sb_FireEvent ::
  "'cb subscriber \<Rightarrow> subscriber_event \<Rightarrow> sample_identifier \<Rightarrow> data_type_info \<Rightarrow> 'cb sub_effect list" where
  "sb_FireEvent s ev pub d =
     (case sb_event_id_callback s of
        None \<Rightarrow> []
      | Some cb \<Rightarrow>
          [SubEvent cb
            \<lparr>ti_topic_id = \<lparr>ei_entity_id = si_entity_id pub, ei_process_id = si_process_id pub,
               ei_host_name = si_host_name pub\<rparr>,
             ti_topic_name = sua_topic_name (sb_attributes s)\<rparr> ev d])"

definition sb_FireConnectEvent ::
  "'cb subscriber \<Rightarrow> sample_identifier \<Rightarrow> data_type_info \<Rightarrow> 'cb sub_effect list" where
  "sb_FireConnectEvent s = sb_FireEvent s SubConnected"

definition sb_FireDisconnectEvent ::
  "'cb subscriber \<Rightarrow> sample_identifier \<Rightarrow> data_type_info \<Rightarrow> 'cb sub_effect list" where
  "sb_FireDisconnectEvent s = sb_FireEvent s SubDisconnected"

definition sb_FireDroppedEvent ::
  "'cb subscriber \<Rightarrow> sample_identifier \<Rightarrow> data_type_info \<Rightarrow> 'cb sub_effect list" where
  "sb_FireDroppedEvent s = sb_FireEvent s SubDropped"

subsection \<open>Publishers\<close>

definition sb_GetConnectionCount :: "'cb subscriber \<Rightarrow> nat" where
  "sb_GetConnectionCount s = length (filter (\<lambda>(_, c). scn_state c) (sb_connection_map s))"

definition sb_set_write_enabled :: "layer_states \<Rightarrow> layer_states \<Rightarrow> layer_states" where
  "sb_set_write_enabled pub l =
     \<lparr>lss_udp = (lss_udp l)\<lparr>ls_write_enabled := ls_write_enabled (lss_udp pub)\<rparr>,
      lss_shm = (lss_shm l)\<lparr>ls_write_enabled := ls_write_enabled (lss_shm pub)\<rparr>,
      lss_tcp = (lss_tcp l)\<lparr>ls_write_enabled := ls_write_enabled (lss_tcp pub)\<rparr>\<rparr>"

definition sb_ApplyPublisherRegistration ::
  "'cb subscriber \<Rightarrow> sample_identifier \<Rightarrow> data_type_info \<Rightarrow> layer_states \<Rightarrow> 'cb subscriber \<times> 'cb sub_effect list" where
  "sb_ApplyPublisherRegistration s pub d pl =
     (let s = s\<lparr>sb_layers := sb_set_write_enabled pl (sb_layers s)\<rparr>;
          (is_new, mp) =
            (case om_find si_entity_id (sb_connection_map s) pub of
               None \<Rightarrow> (False, om_set si_entity_id (sb_connection_map s) pub
                 \<lparr>scn_data_type_info = d, scn_layer_states = pl, scn_state = False\<rparr>)
             | Some c \<Rightarrow> (\<not> scn_state c, om_set si_entity_id (sb_connection_map s) pub
                 \<lparr>scn_data_type_info = d, scn_layer_states = pl, scn_state = True\<rparr>));
          s = s\<lparr>sb_connection_map := mp\<rparr>;
          s = s\<lparr>sb_connection_count := sb_GetConnectionCount s\<rparr>
      in (s, if is_new then sb_FireConnectEvent s pub d else []))"

definition sb_ApplyPublisherUnregistration ::
  "'cb subscriber \<Rightarrow> sample_identifier \<Rightarrow> data_type_info \<Rightarrow> 'cb subscriber \<times> 'cb sub_effect list" where
  "sb_ApplyPublisherUnregistration s pub d =
     (let s = s\<lparr>sb_connection_map := om_erase si_entity_id (sb_connection_map s) pub\<rparr>;
          s = s\<lparr>sb_connection_count := sb_GetConnectionCount s\<rparr>
      in (s, sb_FireDisconnectEvent s pub d))"

definition sb_ApplyLayerParameter ::
  "'cb subscriber \<Rightarrow> sample_identifier \<Rightarrow> tlayer_type \<Rightarrow> connection_par \<Rightarrow> 'cb sub_effect list" where
  "sb_ApplyLayerParameter s pub l par =
     (let p = \<lparr>rlp_host_name = si_host_name pub, rlp_process_id = si_process_id pub,
          rlp_topic_name = sua_topic_name (sb_attributes s), rlp_topic_id = si_entity_id pub,
          rlp_parameter = par\<rparr>
      in case l of
          TlEcalShm \<Rightarrow> [SubConnectionParameter TlEcalShm p]
        | TlEcalTcp \<Rightarrow> [SubConnectionParameter TlEcalTcp p]
        | _ \<Rightarrow> [])"

definition sb_IsPublished :: "'cb subscriber \<Rightarrow> bool" where
  "sb_IsPublished s \<longleftrightarrow> sb_connection_count s > 0"

definition sb_GetPublisherCount :: "'cb subscriber \<Rightarrow> nat" where
  "sb_GetPublisherCount s = sb_connection_count s"

subsection \<open>Receiving samples\<close>

definition sb_PublicationInfoFromTopicInfo :: "topic_info \<Rightarrow> sample_identifier" where
  "sb_PublicationInfoFromTopicInfo ti =
     \<lparr>si_entity_id = pti_topic_id ti, si_process_id = pti_process_id ti, si_host_name = pti_host_name ti\<rparr>"

definition sb_ShouldApplySampleBasedOnLayer :: "'cb subscriber \<Rightarrow> tlayer_type \<Rightarrow> bool" where
  "sb_ShouldApplySampleBasedOnLayer s l =
     (case l of
        TlEcalUdp \<Rightarrow> sua_udp_enable (sb_attributes s)
      | TlEcalShm \<Rightarrow> sua_shm_enable (sb_attributes s)
      | TlEcalTcp \<Rightarrow> sua_tcp_enable (sb_attributes s)
      | _ \<Rightarrow> True)"

definition sb_ShouldApplySampleBasedOnClock ::
  "bool \<Rightarrow> 'cb subscriber \<Rightarrow> sample_identifier \<Rightarrow> i64 \<Rightarrow> bool" where
  "sb_ShouldApplySampleBasedOnClock oo s pub clock =
     (if ccm_HasCounter cache_window si_entity_id (sb_counter_map s) pub clock \<noteq> InCacheFalse then False
      else if \<not> ccm_IsMonotonic si_entity_id (sb_counter_map s) pub clock then (if oo then False else True)
      else True)"

definition sb_ShouldApplySampleBasedOnId :: "'cb subscriber \<Rightarrow> i64 \<Rightarrow> bool" where
  "sb_ShouldApplySampleBasedOnId s i =
     (if sb_id_set s \<noteq> {} \<and> i \<notin> sb_id_set s then False else True)"

definition sb_TriggerFrequencyUpdate :: "time_point \<Rightarrow> 'cb subscriber \<Rightarrow> 'cb subscriber" where
  "sb_TriggerFrequencyUpdate now s =
     s\<lparr>sb_frequency_calculator := rfc_addTick (sb_frequency_calculator s) now\<rparr>"

definition sb_TriggerMessageDropUpdate :: "'cb subscriber \<Rightarrow> sample_identifier \<Rightarrow> u64 \<Rightarrow> 'cb subscriber" where
  "sb_TriggerMessageDropUpdate s pub c =
     s\<lparr>sb_message_drop_map := mdm_RegisterReceivedMessage si_entity_id (sb_message_drop_map s) pub c\<rparr>"

definition sb_set_active :: "tlayer_type \<Rightarrow> layer_states \<Rightarrow> layer_states" where
  "sb_set_active l ls =
     \<lparr>lss_udp = (lss_udp ls)\<lparr>ls_active := ls_active (lss_udp ls) \<or> l = TlEcalUdp\<rparr>,
      lss_shm = (lss_shm ls)\<lparr>ls_active := ls_active (lss_shm ls) \<or> l = TlEcalShm\<rparr>,
      lss_tcp = (lss_tcp ls)\<lparr>ls_active := ls_active (lss_tcp ls) \<or> l = TlEcalTcp\<rparr>\<rparr>"

text \<open>
  The callback part of \<open>ApplySample\<close>: \<open>m_connection_map[pub_info]\<close> inserts a default connection
  for an unknown publisher.
\<close>

definition sb_call_receive ::
  "'cb subscriber \<Rightarrow> 'cb \<Rightarrow> topic_info \<Rightarrow> u8 list \<Rightarrow> i64 \<Rightarrow> i64 \<Rightarrow> 'cb subscriber \<times> 'cb sub_effect list" where
  "sb_call_receive s cb ti pl clock t =
     (let data = \<lparr>rcd_buffer = pl, rcd_send_timestamp = t, rcd_send_clock = clock\<rparr>;
          topic = \<lparr>ti_topic_id = \<lparr>ei_entity_id = pti_topic_id ti, ei_process_id = pti_process_id ti,
              ei_host_name = pti_host_name ti\<rparr>, ti_topic_name = pti_topic_name ti\<rparr>;
          pub = \<lparr>si_entity_id = pti_topic_id ti, si_process_id = pti_process_id ti,
            si_host_name = pti_host_name ti\<rparr>;
          (c, mp) = om_access si_entity_id (sb_connection_map s) pub scn_new
      in (s\<lparr>sb_connection_map := mp\<rparr>, [SubReceive cb topic (scn_data_type_info c) data]))"

definition sb_ApplySample ::
  "time_point \<Rightarrow> bool \<Rightarrow> 'cb subscriber \<Rightarrow> topic_info \<Rightarrow> u8 list \<Rightarrow> i64 \<Rightarrow> i64 \<Rightarrow> i64 \<Rightarrow> tlayer_type \<Rightarrow>
   u64 \<times> 'cb subscriber \<times> 'cb sub_effect list" where
  "sb_ApplySample now oo s ti pl i clock t layer =
     (let size = word_of_nat (length pl); pub = sb_PublicationInfoFromTopicInfo ti in
      if \<not> sb_created s then (0, s, [])
      else if \<not> sb_ShouldApplySampleBasedOnLayer s layer then (0, s, [])
      else if \<not> sb_ShouldApplySampleBasedOnClock oo s pub clock then (size, s, [])
      else if \<not> sb_ShouldApplySampleBasedOnId s i then (0, s, [])
      else
        (let s = s\<lparr>sb_layers := sb_set_active layer (sb_layers s), sb_clock := sb_clock s + 1\<rparr>;
             s = sb_TriggerMessageDropUpdate s pub clock;
             s = sb_TriggerFrequencyUpdate now s;
             s = s\<lparr>sb_receive_time := 0, sb_topic_size := size\<rparr>
         in case sb_receive_callback s of
              Some cb \<Rightarrow> (let (s, effs) = sb_call_receive s cb ti pl clock t in (size, s, effs))
            | None \<Rightarrow>
                (size, s\<lparr>sb_read_buf := pl, sb_read_time := t, sb_read_buf_received := True\<rparr>, [])))"

subsection \<open>Registration\<close>

definition sb_GetFrequency :: "time_point \<Rightarrow> 'cb subscriber \<Rightarrow> i32 \<times> 'cb subscriber" where
  "sb_GetFrequency now s =
     (let (f, r) = rfc_getFrequency (sb_frequency_calculator s) now
      in (clamp_frequency f, s\<lparr>sb_frequency_calculator := r\<rparr>))"

text \<open>One round of the loop; \<open>int32_t += uint64_t\<close> keeps the lower 32 bits.\<close>

definition sb_drop_step ::
  "i32 \<times> 'cb subscriber \<times> 'cb sub_effect list \<Rightarrow> sample_identifier \<times> drop_summary \<Rightarrow>
   i32 \<times> 'cb subscriber \<times> 'cb sub_effect list" where
  "sb_drop_step acc p =
     (case (acc, p) of ((n, s, effs), (pub, summary)) \<Rightarrow>
        (let (s, effs) =
           (if ds_new_drops summary
            then (let (c, mp) = om_access si_entity_id (sb_connection_map s) pub scn_new
              in (s\<lparr>sb_connection_map := mp\<rparr>, effs @ sb_FireDroppedEvent s pub (scn_data_type_info c)))
            else (s, effs))
         in (n + ucast (ds_drops summary), s, effs)))"

definition sb_GetMessageDropsAndFireDroppedEvents ::
  "'cb subscriber \<Rightarrow> i32 \<times> 'cb subscriber \<times> 'cb sub_effect list" where
  "sb_GetMessageDropsAndFireDroppedEvents s =
     (let (summaries, mp) = mdm_GetSummary si_entity_id (sb_message_drop_map s)
      in foldl sb_drop_step (0, s\<lparr>sb_message_drop_map := mp\<rparr>, []) summaries)"

definition sb_identifier :: "'cb subscriber \<Rightarrow> sample_identifier \<Rightarrow> sample_identifier" where
  "sb_identifier s i = i\<lparr>si_process_id := sua_pid (sb_attributes s), si_entity_id := sb_subscriber_id s,
     si_host_name := sua_host (sb_attributes s)\<rparr>"

definition sb_tlayer :: "tlayer_type \<Rightarrow> layer_state \<Rightarrow> tlayer" where
  "sb_tlayer t l = tl_new\<lparr>tl_type := t, tl_version := ecal_transport_layer_version,
     tl_enabled := ls_read_enabled l, tl_active := ls_active l\<rparr>"

definition sb_GetRegistrationSample ::
  "time_point \<Rightarrow> 'cb subscriber \<Rightarrow> sample \<Rightarrow> sample \<times> 'cb subscriber \<times> 'cb sub_effect list" where
  "sb_GetRegistrationSample now s sa =
     (let a = sb_attributes s; ti = sb_topic_info s; ls = sb_layers s;
          (freq, s) = sb_GetFrequency now s;
          (drops, s, effs) = sb_GetMessageDropsAndFireDroppedEvents s;
          tp = sa_topic sa;
          dt = (tp_datatype_information tp)\<lparr>dti_encoding := dti_encoding ti, dti_name := dti_name ti,
            dti_descriptor := dti_descriptor ti\<rparr>;
          layers = ev_push_back (ev_push_back (ev_push_back (tp_transport_layer tp)
            (sb_tlayer TlEcalUdp (lss_udp ls))) (sb_tlayer TlEcalShm (lss_shm ls)))
            (sb_tlayer TlEcalTcp (lss_tcp ls))
      in (sa\<lparr>sa_cmd_type := BctRegSubscriber,
             sa_identifier := sb_identifier s (sa_identifier sa),
             sa_topic := tp\<lparr>tp_shm_transport_domain := sua_domain a,
               tp_topic_name := sua_topic_name a,
               tp_datatype_information := dt,
               tp_topic_size := ucast (sb_topic_size s),
               tp_transport_layer := layers,
               tp_process_name := sua_process_name a,
               tp_unit_name := sua_unit_name a,
               tp_data_clock := sb_clock s,
               tp_data_frequency := freq,
               tp_message_drops := drops,
               tp_connections_local := 0,
               tp_connections_external := 0\<rparr>\<rparr>,
          s, effs))"

definition sb_GetUnregistrationSample :: "'cb subscriber \<Rightarrow> sample \<Rightarrow> sample" where
  "sb_GetUnregistrationSample s sa =
     (let a = sb_attributes s in
      sa\<lparr>sa_cmd_type := BctUnregSubscriber,
        sa_identifier := sb_identifier s (sa_identifier sa),
        sa_topic := (sa_topic sa)\<lparr>tp_shm_transport_domain := sua_domain a,
          tp_process_name := sua_process_name a, tp_topic_name := sua_topic_name a,
          tp_unit_name := sua_unit_name a\<rparr>\<rparr>)"

definition sb_Register :: "time_point \<Rightarrow> 'cb subscriber \<Rightarrow> 'cb subscriber \<times> 'cb sub_effect list" where
  "sb_Register now s =
     (let (sa, s, effs) = sb_GetRegistrationSample now s sa_new in (s, effs @ [SubRegister sa]))"

definition sb_Unregister :: "'cb subscriber \<Rightarrow> 'cb sub_effect list" where
  "sb_Unregister s = [SubUnregister (sb_GetUnregistrationSample s sa_new)]"

text \<open>The destructor.\<close>

definition sb_destroy :: "'cb subscriber \<Rightarrow> 'cb subscriber \<times> 'cb sub_effect list" where
  "sb_destroy s =
     (if \<not> sb_created s then (s, [])
      else (let (s, effs) = sb_StopTransportLayer s;
                s = s\<lparr>sb_receive_callback := None, sb_created := False\<rparr>
        in (s, effs @ sb_Unregister s)))"

subsection \<open>Reachable subscribers\<close>

text \<open>Every operation that changes a subscriber, and the subscribers a history of them leads to.\<close>

datatype 'cb sb_op =
    SbApplySample time_point bool topic_info "u8 list" i64 i64 i64 tlayer_type
  | SbPublisherRegistration sample_identifier data_type_info layer_states
  | SbPublisherUnregistration sample_identifier data_type_info
  | SbSetReceiveCallback "'cb option"
  | SbRemoveReceiveCallback
  | SbSetEventCallback "'cb option"
  | SbRemoveEventCallback
  | SbSetFilterIDs "i64 set"
  | SbRead
  | SbRegister time_point
  | SbDestroy

definition sb_exec :: "'cb sb_op \<Rightarrow> 'cb subscriber \<Rightarrow> 'cb subscriber \<times> 'cb sub_effect list" where
  "sb_exec op s =
     (case op of
        SbApplySample now oo ti pl i clock t layer \<Rightarrow> snd (sb_ApplySample now oo s ti pl i clock t layer)
      | SbPublisherRegistration pub d pl \<Rightarrow> sb_ApplyPublisherRegistration s pub d pl
      | SbPublisherUnregistration pub d \<Rightarrow> sb_ApplyPublisherUnregistration s pub d
      | SbSetReceiveCallback cb \<Rightarrow> (snd (sb_SetReceiveCallback s cb), [])
      | SbRemoveReceiveCallback \<Rightarrow> (snd (sb_RemoveReceiveCallback s), [])
      | SbSetEventCallback cb \<Rightarrow> (snd (sb_SetEventCallback s cb), [])
      | SbRemoveEventCallback \<Rightarrow> (snd (sb_RemoveEventCallback s), [])
      | SbSetFilterIDs ids \<Rightarrow> (sb_SetFilterIDs s ids, [])
      | SbRead \<Rightarrow> (snd (sb_Read s), [])
      | SbRegister now \<Rightarrow> sb_Register now s
      | SbDestroy \<Rightarrow> sb_destroy s)"

inductive sb_reachable :: "'cb subscriber \<Rightarrow> bool" where
  reach_new: "sb_reachable (fst (sb_new i ti attr))"
| reach_op: "sb_reachable s \<Longrightarrow> sb_reachable (fst (sb_exec op s))"

definition sb_inv :: "'cb subscriber \<Rightarrow> bool" where
  "sb_inv s \<longleftrightarrow> om_invar si_entity_id (sb_connection_map s) \<and>
     sb_connection_count s = sb_GetConnectionCount s \<and> sb_counter_map s = []"

text \<open>
  The phase of a publisher: unknown, seen (registered once, or heard of otherwise), connected.
\<close>

datatype phase = Unknown | Seen | Connected

definition sb_phase :: "'cb subscriber \<Rightarrow> u64 \<Rightarrow> phase" where
  "sb_phase s e =
     (case om_find si_entity_id (sb_connection_map s) (si_new\<lparr>si_entity_id := e\<rparr>) of
        None \<Rightarrow> Unknown | Some c \<Rightarrow> if scn_state c then Connected else Seen)"

lemma sb_phase_of:
  "si_entity_id k = e \<Longrightarrow> sb_phase s e =
    (case om_find si_entity_id (sb_connection_map s) k of
       None \<Rightarrow> Unknown | Some c \<Rightarrow> if scn_state c then Connected else Seen)"
  unfolding sb_phase_def by (subst om_find_cong [of si_entity_id _ k]) simp_all

text \<open>The rounds of the loop over the drop summaries touch the connection map only.\<close>

lemma om_access_count:
  "\<not> P d \<Longrightarrow> length (filter (\<lambda>(_, v). P v) (snd (om_access pr m k d))) = length (filter (\<lambda>(_, v). P v) m)"
proof -
  assume d: "\<not> P d"
  have "om_find pr m k = None \<Longrightarrow> length (filter (\<lambda>(_, v). P v) (om_set pr m k d)) = length (filter (\<lambda>(_, v). P v) m)"
    using d by (induction pr m k d rule: om_set.induct) (auto split: if_splits)
  then show ?thesis by (simp add: om_access_def split: option.split)
qed

definition sb_touched :: "'cb subscriber \<Rightarrow> connection_map \<Rightarrow> bool" where
  "sb_touched s mp \<longleftrightarrow> (om_invar si_entity_id (sb_connection_map s) \<longrightarrow> om_invar si_entity_id mp) \<and>
     length (filter (\<lambda>(_, c). scn_state c) mp) = length (filter (\<lambda>(_, c). scn_state c) (sb_connection_map s)) \<and>
     (\<forall>k. om_find si_entity_id mp k = om_find si_entity_id (sb_connection_map s) k \<or>
        om_find si_entity_id (sb_connection_map s) k = None \<and> om_find si_entity_id mp k = Some scn_new)"

lemma sb_touched_access:
  assumes "sb_touched s mp"
  shows "sb_touched s (snd (om_access si_entity_id mp k scn_new))" (is "sb_touched s ?mp")
proof -
  have "om_find si_entity_id ?mp k' = om_find si_entity_id (sb_connection_map s) k' \<or>
      om_find si_entity_id (sb_connection_map s) k' = None \<and> om_find si_entity_id ?mp k' = Some scn_new" for k'
  proof -
    have "om_find si_entity_id mp k' = om_find si_entity_id (sb_connection_map s) k' \<or>
        om_find si_entity_id (sb_connection_map s) k' = None \<and> om_find si_entity_id mp k' = Some scn_new"
      using assms by (simp add: sb_touched_def)
    then show ?thesis by (auto simp only: om_find_access' split: if_splits)
  qed
  moreover have "\<not> scn_state scn_new" by (simp add: scn_new_def)
  ultimately show ?thesis using assms om_access_count [of scn_state scn_new si_entity_id mp k]
    by (simp add: sb_touched_def)
qed

lemma sb_drop_steps:
  assumes "foldl sb_drop_step (n, s, effs) sms = (n', s', effs')" "sb_touched s0 (sb_connection_map s)"
  shows "\<exists>mp. s' = s\<lparr>sb_connection_map := mp\<rparr> \<and> sb_touched s0 mp \<and>
    (\<forall>ef \<in> set effs'. ef \<in> set effs \<or> (\<exists>cb t d. ef = SubEvent cb t SubDropped d))"
  using assms
proof (induction sms arbitrary: n s effs)
  case Nil
  then show ?case by (intro exI [of _ "sb_connection_map s"]) auto
next
  case (Cons p sms)
  obtain pub sm where p: "p = (pub, sm)" by (cases p)
  let ?a = "om_access si_entity_id (sb_connection_map s) pub scn_new"
  show ?case
  proof (cases "ds_new_drops sm")
    case True
    let ?s = "s\<lparr>sb_connection_map := snd ?a\<rparr>"
    let ?effs = "effs @ sb_FireDroppedEvent s pub (scn_data_type_info (fst ?a))"
    have step: "sb_drop_step (n, s, effs) p = (n + ucast (ds_drops sm), ?s, ?effs)"
      using True by (simp add: p sb_drop_step_def split_beta)
    have "foldl sb_drop_step (n + ucast (ds_drops sm), ?s, ?effs) sms = (n', s', effs')"
      using Cons.prems(1) by (simp only: foldl_Cons step)
    moreover have "sb_touched s0 (sb_connection_map ?s)"
      using Cons.prems(2) by (simp add: sb_touched_access)
    ultimately have "\<exists>mp. s' = ?s\<lparr>sb_connection_map := mp\<rparr> \<and> sb_touched s0 mp \<and>
        (\<forall>ef \<in> set effs'. ef \<in> set ?effs \<or> (\<exists>cb t d. ef = SubEvent cb t SubDropped d))"
      by (rule Cons.IH)
    moreover have "\<forall>ef \<in> set (sb_FireDroppedEvent s pub d). \<exists>cb t d. ef = SubEvent cb t SubDropped d" for d
      by (auto simp: sb_FireDroppedEvent_def sb_FireEvent_def split: option.splits)
    ultimately show ?thesis by fastforce
  next
    case False
    then show ?thesis using Cons by (simp add: p sb_drop_step_def)
  qed
qed

lemma sb_touched_refl: "sb_touched s (sb_connection_map s)"
  by (simp add: sb_touched_def)

lemma sb_Register_shape:
  obtains mp r dm effs where
    "sb_Register now s = (s\<lparr>sb_connection_map := mp, sb_frequency_calculator := r, sb_message_drop_map := dm\<rparr>, effs)"
    "sb_touched s mp"
    "\<forall>ef \<in> set effs. (\<exists>cb t d. ef = SubEvent cb t SubDropped d) \<or> (\<exists>sa. ef = SubRegister sa)"
proof -
  obtain f r where fr: "rfc_getFrequency (sb_frequency_calculator s) now = (f, r)"
    by (cases "rfc_getFrequency (sb_frequency_calculator s) now")
  obtain sms dm where sd: "mdm_GetSummary si_entity_id (sb_message_drop_map s) = (sms, dm)"
    by (cases "mdm_GetSummary si_entity_id (sb_message_drop_map s)")
  let ?s = "s\<lparr>sb_frequency_calculator := r, sb_message_drop_map := dm\<rparr>"
  obtain n s' effs where l: "foldl sb_drop_step (0, ?s, []) sms = (n, s', effs)"
    by (cases "foldl sb_drop_step (0, ?s, []) sms") auto
  have "sb_touched s (sb_connection_map ?s)" by (simp add: sb_touched_def)
  from sb_drop_steps [OF l this] obtain mp where mp: "s' = ?s\<lparr>sb_connection_map := mp\<rparr>" "sb_touched s mp"
    "\<forall>ef \<in> set effs. \<exists>cb t d. ef = SubEvent cb t SubDropped d"
    by auto
  have "\<exists>sa. sb_Register now s = (s', effs @ [SubRegister sa])"
    by (simp add: sb_Register_def sb_GetRegistrationSample_def sb_GetFrequency_def fr
        sb_GetMessageDropsAndFireDroppedEvents_def sd l Let_def)
  then obtain sa where "sb_Register now s =
      (s\<lparr>sb_connection_map := mp, sb_frequency_calculator := r, sb_message_drop_map := dm\<rparr>, effs @ [SubRegister sa])"
    by (auto simp: mp(1))
  then show ?thesis by (rule that) (use mp(2,3) in auto)
qed

lemma sb_ApplySample_shape:
  obtains size s' effs where "sb_ApplySample now oo s ti pl i clock t layer = (size, s', effs)"
    "sb_touched s (sb_connection_map s')" "sb_connection_count s' = sb_connection_count s"
    "sb_counter_map s' = sb_counter_map s" "\<forall>ef \<in> set effs. \<exists>cb x d y. ef = SubReceive cb x d y"
    "sb_event_id_callback s' = sb_event_id_callback s"
proof -
  obtain size s' effs where r: "sb_ApplySample now oo s ti pl i clock t layer = (size, s', effs)"
    by (cases "sb_ApplySample now oo s ti pl i clock t layer") auto
  moreover have "sb_touched s (sb_connection_map s')" "sb_connection_count s' = sb_connection_count s"
    "sb_counter_map s' = sb_counter_map s" "\<forall>ef \<in> set effs. \<exists>cb x d y. ef = SubReceive cb x d y"
    "sb_event_id_callback s' = sb_event_id_callback s"
    using r sb_touched_access [OF sb_touched_refl, of s]
    by (auto simp: sb_ApplySample_def sb_call_receive_def Let_def split_beta sb_touched_refl
        sb_TriggerMessageDropUpdate_def sb_TriggerFrequencyUpdate_def split: if_splits option.splits)
  ultimately show ?thesis by (rule that)
qed

lemma sb_inv_touched:
  assumes "sb_inv s" "sb_touched s (sb_connection_map s')" "sb_connection_count s' = sb_connection_count s"
    "sb_counter_map s' = sb_counter_map s"
  shows "sb_inv s'"
  using assms by (simp add: sb_inv_def sb_touched_def sb_GetConnectionCount_def)

lemma sb_inv_exec [ecal_inv]:
  assumes "sb_inv s"
  shows "sb_inv (fst (sb_exec op s))"
proof (cases op)
  case (SbApplySample now oo ti pl i clock t layer)
  show ?thesis
    by (rule sb_ApplySample_shape [of now oo s ti pl i clock t layer])
      (use assms in \<open>simp add: SbApplySample sb_exec_def sb_inv_touched\<close>)
next
  case (SbRegister now)
  show ?thesis
    by (rule sb_Register_shape [of now s])
      (use assms in \<open>simp add: SbRegister sb_exec_def sb_inv_touched\<close>)
next
  case (SbPublisherRegistration pub d pl)
  then show ?thesis using assms
    by (auto simp: sb_exec_def sb_inv_def sb_ApplyPublisherRegistration_def Let_def
        sb_GetConnectionCount_def split: option.splits)
next
  case (SbDestroy)
  then show ?thesis using assms
    by (simp add: sb_exec_def sb_destroy_def sb_StopTransportLayer_def sb_inv_def sb_GetConnectionCount_def Let_def)
qed (use assms in \<open>simp_all add: sb_exec_def sb_inv_def sb_ApplyPublisherUnregistration_def Let_def
    sb_SetReceiveCallback_def sb_RemoveReceiveCallback_def sb_SetEventCallback_def
    sb_RemoveEventCallback_def sb_SetFilterIDs_def sb_Read_def sb_GetConnectionCount_def\<close>)

lemma sb_reachable_inv: "sb_reachable s \<Longrightarrow> sb_inv s"
proof (induction rule: sb_reachable.induct)
  case (reach_new i ti attr)
  show ?case
    by (simp add: sb_inv_def sb_new_def sb_StartTransportLayer_def Let_def sb_GetConnectionCount_def)
qed (rule sb_inv_exec)

inductive_cases sb_reachableE: "sb_reachable s"

text \<open>
  Whatever happened to a subscriber, its publisher count is the number of publishers that are
  connected, that is, registered for at least the second time since they were last unregistered.
\<close>

theorem sb_publisher_count:
  assumes "sb_reachable s"
  shows "sb_GetPublisherCount s = card {e. sb_phase s e = Connected}"
proof -
  have I: "om_invar si_entity_id (sb_connection_map s)" "sb_connection_count s = sb_GetConnectionCount s"
    using sb_reachable_inv [OF assms] by (simp_all add: sb_inv_def)
  let ?m = "filter (\<lambda>(_, c). scn_state c) (sb_connection_map s)"
  have "{e. sb_phase s e = Connected} = (\<lambda>(k, _). si_entity_id k) ` set ?m"
  proof (intro set_eqI iffI)
    fix e assume "e \<in> {e. sb_phase s e = Connected}"
    then obtain c where c: "om_find si_entity_id (sb_connection_map s) (si_new\<lparr>si_entity_id := e\<rparr>) = Some c" "scn_state c"
      by (auto simp: sb_phase_def split: option.splits if_splits)
    then obtain k where "si_entity_id k = e" "(k, c) \<in> set (sb_connection_map s)"
      using om_find_in_set by fastforce
    then show "e \<in> (\<lambda>(k, _). si_entity_id k) ` set ?m" using c(2) by force
  next
    fix e assume "e \<in> (\<lambda>(k, _). si_entity_id k) ` set ?m"
    then obtain k c where k: "(k, c) \<in> set (sb_connection_map s)" "scn_state c" "si_entity_id k = e" by auto
    then show "e \<in> {e. sb_phase s e = Connected}"
      using om_find_mem [OF I(1) k(1)] by (simp add: sb_phase_of [OF k(3)])
  qed
  moreover have "distinct (map (\<lambda>(k, _). si_entity_id k) ?m)"
  proof -
    have "distinct (map (\<lambda>(k, _). si_entity_id k) (sb_connection_map s))"
      using I(1) by (simp add: om_invar_def strict_sorted_iff om_keys_def comp_def case_prod_unfold)
    then show ?thesis by (rule distinct_map_filter)
  qed
  then have "length ?m = card (set (map (\<lambda>(k, _). si_entity_id k) ?m))"
    by (simp only: distinct_card length_map)
  ultimately show ?thesis
    by (simp add: sb_GetPublisherCount_def I(2) sb_GetConnectionCount_def)
qed

definition demo_sub_attr :: sub_attributes where
  "demo_sub_attr = \<lparr>sua_udp_enable = True, sua_shm_enable = True, sua_tcp_enable = False,
     sua_topic_name = ''t'', sua_host = ''h'', sua_domain = ''h'', sua_pid = 1,
     sua_process_name = ''p'', sua_unit_name = ''u''\<rparr>"

definition demo_sub :: "string subscriber" where
  "demo_sub = fst (sb_exec (SbSetReceiveCallback (Some ''cb'')) (fst (sb_new 9 dti_new demo_sub_attr)))"

lemma demo_sub_reachable: "sb_reachable demo_sub"
  unfolding demo_sub_def by (intro sb_reachable.intros)

theorem sb_publisher_count_witness:
  "sb_GetPublisherCount demo_sub = card {e. sb_phase demo_sub e = Connected}"
  by (rule sb_publisher_count [OF demo_sub_reachable])

subsection \<open>Connection events\<close>

text \<open>The events of a kind for an entity among the effects.\<close>

definition sb_events :: "subscriber_event \<Rightarrow> u64 \<Rightarrow> 'cb sub_effect list \<Rightarrow> nat" where
  "sb_events ev e effs = length (filter (\<lambda>ef. case ef of
     SubEvent _ t ev' _ \<Rightarrow> ev' = ev \<and> ei_entity_id (ti_topic_id t) = e | _ \<Rightarrow> False) effs)"

lemma sb_events_none:
  "\<forall>ef \<in> set effs. \<not> (\<exists>cb t d. ef = SubEvent cb t ev d) \<Longrightarrow> sb_events ev e effs = 0"
  by (auto simp: sb_events_def filter_empty_conv split: sub_effect.splits)

lemma sb_events_fire:
  "sb_events ev e (sb_FireEvent s ev' pub d) =
    (if sb_event_id_callback s \<noteq> None \<and> ev = ev' \<and> si_entity_id pub = e then 1 else 0)"
  by (auto simp: sb_events_def sb_FireEvent_def split: option.splits)

lemma sb_phase_cong: "sb_connection_map s = sb_connection_map s' \<Longrightarrow> sb_phase s = sb_phase s'"
  by (simp add: sb_phase_def fun_eq_iff)

lemma sb_phase_simps [simp]:
  "sb_phase (s\<lparr>sb_receive_callback := a\<rparr>) = sb_phase s" "sb_phase (s\<lparr>sb_event_id_callback := a\<rparr>) = sb_phase s"
  "sb_phase (s\<lparr>sb_id_set := b\<rparr>) = sb_phase s"
  "sb_phase (s\<lparr>sb_read_buf := c, sb_read_buf_received := r\<rparr>) = sb_phase s"
  by (simp_all add: sb_phase_def fun_eq_iff)

lemma sb_phase_touched:
  assumes "sb_touched s (sb_connection_map s')"
  shows "sb_phase s' e = sb_phase s e \<or> sb_phase s e = Unknown \<and> sb_phase s' e = Seen"
proof -
  let ?k = "si_new\<lparr>si_entity_id := e\<rparr>"
  have "om_find si_entity_id (sb_connection_map s') ?k = om_find si_entity_id (sb_connection_map s) ?k \<or>
      om_find si_entity_id (sb_connection_map s) ?k = None \<and> om_find si_entity_id (sb_connection_map s') ?k = Some scn_new"
    using assms by (simp add: sb_touched_def)
  moreover have "\<not> scn_state scn_new" by (simp add: scn_new_def)
  ultimately show ?thesis by (auto simp: sb_phase_def)
qed

lemma sb_Destroy_effects:
  "fst (sb_destroy s) = s \<or> sb_connection_map (fst (sb_destroy s)) = sb_connection_map s"
  "ef \<in> set (snd (sb_destroy s)) \<Longrightarrow> \<not> (\<exists>cb t ev d. ef = SubEvent cb t ev d)"
  by (auto simp: sb_destroy_def sb_StopTransportLayer_def sb_Unregister_def sb_each_layer_def Let_def split: if_splits)

lemma om_find_id_key [simp]:
  "om_find si_entity_id m (si_new\<lparr>si_entity_id := si_entity_id k\<rparr>) = om_find si_entity_id m k"
  by (rule om_find_cong) simp

lemma sb_phase_registration:
  "sb_phase (fst (sb_ApplyPublisherRegistration s pub d pl)) e =
    (if e = si_entity_id pub then (if sb_phase s e = Unknown then Seen else Connected) else sb_phase s e)"
proof (cases "om_find si_entity_id (sb_connection_map s) pub")
  case None
  then show ?thesis
    by (auto simp: sb_ApplyPublisherRegistration_def Let_def sb_phase_def om_find_set sb_phase_of [of pub, OF refl])
next
  case (Some c)
  then show ?thesis
    by (auto simp: sb_ApplyPublisherRegistration_def Let_def sb_phase_def om_find_set sb_phase_of [of pub, OF refl])
qed

lemma sb_events_registration:
  "sb_events SubConnected e (snd (sb_ApplyPublisherRegistration s pub d pl)) =
    (if sb_event_id_callback s \<noteq> None \<and> e = si_entity_id pub \<and> sb_phase s e = Seen then 1 else 0)"
  using sb_events_none [of "[]"]
  by (auto simp: sb_ApplyPublisherRegistration_def Let_def sb_FireConnectEvent_def sb_events_fire
      sb_phase_of [of pub, OF refl] split: option.splits)

text \<open>
  C20. Connection events over any operation of a reachable subscriber with an event callback. A
  connected event is fired for a publisher exactly when it passes from seen to connected, which is the only way to become
  connected. A disconnected event is fired at every unregistration of the publisher, which leaves it unknown and is
  the only way to stop being connected, but whatever it was before: also for a publisher that never was
  connected or never heard of, where the documentation of the event speaks of a previously connected one.
\<close>

theorem sb_connection_events:
  assumes "sb_reachable s" "sb_event_id_callback s \<noteq> None" "sb_exec op s = (s', effs)"
  shows "sb_events SubConnected e effs = (if sb_phase s e = Seen \<and> sb_phase s' e = Connected then 1 else 0) \<and>
    sb_events SubDisconnected e effs =
      (if \<exists>pub d. op = SbPublisherUnregistration pub d \<and> si_entity_id pub = e then 1 else 0) \<and>
    ((\<exists>pub d. op = SbPublisherUnregistration pub d \<and> si_entity_id pub = e) \<longrightarrow> sb_phase s' e = Unknown) \<and>
    (sb_phase s' e = Connected \<longrightarrow> sb_phase s e \<noteq> Unknown) \<and>
    (sb_phase s e = Connected \<longrightarrow> sb_phase s' e = Connected \<or> sb_phase s' e = Unknown \<and>
      (\<exists>pub d. op = SbPublisherUnregistration pub d \<and> si_entity_id pub = e))"
proof -
  have I: "om_invar si_entity_id (sb_connection_map s)"
    using sb_reachable_inv [OF assms(1)] by (simp add: sb_inv_def)
  have quiet: ?thesis if "sb_touched s (sb_connection_map s')" "\<not> (\<exists>pub d. op = SbPublisherUnregistration pub d)"
    "\<forall>ef \<in> set effs. \<not> (\<exists>cb t d. ef = SubEvent cb t SubConnected d)"
    "\<forall>ef \<in> set effs. \<not> (\<exists>cb t d. ef = SubEvent cb t SubDisconnected d)"
    using sb_phase_touched [OF that(1), of e] that(2) sb_events_none [OF that(3)] sb_events_none [OF that(4)]
    by auto
  show ?thesis
  proof (cases op)
    case (SbApplySample now oo ti pl i clock t layer)
    obtain size where r: "sb_ApplySample now oo s ti pl i clock t layer = (size, s', effs)"
      using assms(3) by (cases "sb_ApplySample now oo s ti pl i clock t layer") (simp add: SbApplySample sb_exec_def)
    show ?thesis
      by (rule sb_ApplySample_shape [of now oo s ti pl i clock t layer], rule quiet)
        (use r SbApplySample in auto)
  next
    case (SbRegister now)
    show ?thesis
      by (rule sb_Register_shape [of now s], rule quiet) (use assms(3) SbRegister in \<open>auto simp: sb_exec_def\<close>)
  next
    case (SbPublisherRegistration pub d pl)
    then have r: "s' = fst (sb_ApplyPublisherRegistration s pub d pl)" "effs = snd (sb_ApplyPublisherRegistration s pub d pl)"
      using assms(3) by (simp_all add: sb_exec_def)
    have "sb_events SubDisconnected e effs = 0"
      unfolding r by (rule sb_events_none)
        (auto simp: sb_ApplyPublisherRegistration_def Let_def sb_FireConnectEvent_def sb_FireEvent_def split: option.splits if_splits)
    then show ?thesis unfolding r sb_events_registration sb_phase_registration
      using assms(2) SbPublisherRegistration by (auto simp: sb_events_def)
  next
    case (SbPublisherUnregistration pub d)
    then show ?thesis using assms(2,3) sb_events_none [of "[]"]
      by (auto simp: sb_exec_def sb_ApplyPublisherUnregistration_def Let_def sb_FireDisconnectEvent_def sb_events_fire
          sb_phase_def om_find_erase [OF I])
  next
    case SbDestroy
    show ?thesis
      by (rule quiet) (use assms(3) SbDestroy sb_Destroy_effects(1) [of s] sb_Destroy_effects(2) [where s = s] sb_touched_refl [of s] in \<open>auto simp: sb_exec_def\<close>)
  qed (use assms(3) in \<open>auto simp: sb_exec_def sb_SetReceiveCallback_def sb_RemoveReceiveCallback_def
      sb_SetEventCallback_def sb_RemoveEventCallback_def sb_SetFilterIDs_def sb_Read_def sb_events_def
      split: if_splits\<close>)
qed

lemma demo_sub_events_reachable:
  "sb_reachable (fst (sb_exec (SbSetEventCallback (Some ''ev'')) demo_sub))"
  by (rule reach_op [OF demo_sub_reachable])

theorem sb_connection_events_witness:
  "let s = fst (sb_exec (SbSetEventCallback (Some ''ev'')) demo_sub);
       s1 = fst (sb_exec (SbPublisherRegistration si_new dti_new lss_new) s)
   in sb_events SubConnected 0 (snd (sb_exec (SbPublisherRegistration si_new dti_new lss_new) s1)) = 1 \<and>
     sb_phase s1 0 = Seen \<and> sb_events SubDisconnected 0 (snd (sb_exec (SbPublisherUnregistration si_new dti_new) s1)) = 1"
proof -
  let ?s = "fst (sb_exec (SbSetEventCallback (Some ''ev'')) demo_sub)"
  let ?op = "SbPublisherRegistration si_new dti_new lss_new :: string sb_op" and ?un = "SbPublisherUnregistration si_new dti_new :: string sb_op"
  let ?s1 = "fst (sb_exec ?op ?s)"
  have c: "sb_event_id_callback ?s1 \<noteq> None" and m: "sb_connection_map ?s = []"
    by (simp_all add: demo_sub_def sb_exec_def sb_new_def sb_StartTransportLayer_def sb_SetReceiveCallback_def
        sb_SetEventCallback_def sb_ApplyPublisherRegistration_def Let_def)
  note T = sb_connection_events [OF reach_op [OF demo_sub_events_reachable] c, OF surjective_pairing, where e = 0]
  have p: "sb_phase ?s1 0 = Seen" "sb_phase (fst (sb_exec ?op ?s1)) 0 = Connected"
    by (simp_all add: sb_exec_def sb_ApplyPublisherRegistration_def Let_def sb_phase_def si_new_def m [unfolded sb_exec_def, simplified])
  have "sb_events SubConnected 0 (snd (sb_exec ?op ?s1)) = 1" using T [where op = ?op] p by simp
  moreover have "sb_events SubDisconnected 0 (snd (sb_exec ?un ?s1)) = 1" using T [where op = ?un] by (auto simp: si_new_def)
  ultimately show ?thesis using p(1) by (simp add: Let_def)
qed

subsection \<open>Samples\<close>

text \<open>The counters of the received messages are never stored, so the clock check accepts everything.\<close>

lemma sb_clock_accepts: "sb_inv s \<Longrightarrow> sb_ShouldApplySampleBasedOnClock oo s pub clock"
  by (simp add: sb_inv_def sb_ShouldApplySampleBasedOnClock_def ccm_HasCounter_def ccm_IsMonotonic_def)

lemma access_type:
  "scn_data_type_info (fst (om_access si_entity_id m k scn_new)) =
    (case om_find si_entity_id m k of Some c \<Rightarrow> scn_data_type_info c | None \<Rightarrow> dti_new)"
  by (simp add: om_access_def scn_new_def split: option.split)

definition sb_accepts :: "'cb subscriber \<Rightarrow> tlayer_type \<Rightarrow> i64 \<Rightarrow> bool" where
  "sb_accepts s layer i \<longleftrightarrow> sb_created s \<and> sb_ShouldApplySampleBasedOnLayer s layer \<and>
     sb_ShouldApplySampleBasedOnId s i"

lemma sb_accepts_cong:
  "sb_created s' = sb_created s \<Longrightarrow> sb_attributes s' = sb_attributes s \<Longrightarrow> sb_id_set s' = sb_id_set s \<Longrightarrow>
    sb_accepts s' l i = sb_accepts s l i"
  by (cases l) (simp_all add: sb_accepts_def sb_ShouldApplySampleBasedOnLayer_def sb_ShouldApplySampleBasedOnId_def)

lemma sb_ApplySample_callback:
  assumes "sb_inv s" "sb_accepts s layer i" "sb_receive_callback s = Some cb"
  obtains s' where
    "sb_ApplySample now oo s ti pl i clock t layer = (word_of_nat (length pl), s',
       [SubReceive cb
         \<lparr>ti_topic_id = \<lparr>ei_entity_id = pti_topic_id ti, ei_process_id = pti_process_id ti,
            ei_host_name = pti_host_name ti\<rparr>, ti_topic_name = pti_topic_name ti\<rparr>
         (case om_find si_entity_id (sb_connection_map s) (sb_PublicationInfoFromTopicInfo ti) of
            Some c \<Rightarrow> scn_data_type_info c | None \<Rightarrow> dti_new)
         \<lparr>rcd_buffer = pl, rcd_send_timestamp = t, rcd_send_clock = clock\<rparr>])"
    "sb_connection_map s' = snd (om_access si_entity_id (sb_connection_map s) (sb_PublicationInfoFromTopicInfo ti) scn_new)"
    "sb_message_drop_map s' = mdm_RegisterReceivedMessage si_entity_id (sb_message_drop_map s)
       (sb_PublicationInfoFromTopicInfo ti) clock"
    "sb_accepts s' layer i" "sb_receive_callback s' = Some cb" "sb_inv s'"
    "sb_event_id_callback s' = sb_event_id_callback s" "sb_attributes s' = sb_attributes s"
proof -
  let ?pub = "sb_PublicationInfoFromTopicInfo ti"
  let ?s' = "s\<lparr>sb_layers := sb_set_active layer (sb_layers s), sb_clock := sb_clock s + 1,
    sb_message_drop_map := mdm_RegisterReceivedMessage si_entity_id (sb_message_drop_map s) ?pub clock,
    sb_frequency_calculator := rfc_addTick (sb_frequency_calculator s) now,
    sb_receive_time := 0, sb_topic_size := word_of_nat (length pl),
    sb_connection_map := snd (om_access si_entity_id (sb_connection_map s) ?pub scn_new)\<rparr>"
  have eq: "sb_ApplySample now oo s ti pl i clock t layer = (word_of_nat (length pl), ?s',
      [SubReceive cb
         \<lparr>ti_topic_id = \<lparr>ei_entity_id = pti_topic_id ti, ei_process_id = pti_process_id ti,
            ei_host_name = pti_host_name ti\<rparr>, ti_topic_name = pti_topic_name ti\<rparr>
         (scn_data_type_info (fst (om_access si_entity_id (sb_connection_map s) ?pub scn_new)))
         \<lparr>rcd_buffer = pl, rcd_send_timestamp = t, rcd_send_clock = clock\<rparr>])"
    using assms(2,3) sb_clock_accepts [OF assms(1)]
    by (simp add: sb_ApplySample_def sb_accepts_def Let_def sb_call_receive_def split_beta
        sb_TriggerMessageDropUpdate_def sb_TriggerFrequencyUpdate_def sb_PublicationInfoFromTopicInfo_def)
  have "sb_inv ?s'"
    using sb_inv_exec [OF assms(1), of "SbApplySample now oo ti pl i clock t layer"] by (simp add: sb_exec_def eq)
  moreover have "sb_accepts ?s' layer i"
    using assms(2) by (subst sb_accepts_cong [of _ s]) simp_all
  ultimately show ?thesis using eq assms(3) by (intro that [of ?s']) (simp_all add: access_type)
qed

text \<open>
  No duplicate is filtered: a subscriber, however it got into its state and whatever the
  configuration about out-of-order messages, calls the receive callback a second time, with the
  same data, when the same sample (same publisher, same clock) arrives again.
\<close>

theorem sb_duplicate_applied:
  assumes "sb_reachable s" "sb_accepts s layer i" "sb_receive_callback s = Some cb"
    "sb_ApplySample now oo s ti pl i clock t layer = (n1, s1, effs1)"
    "sb_ApplySample now' oo s1 ti pl i clock t layer = (n2, s2, effs2)"
  shows "n2 = word_of_nat (length pl) \<and> length effs2 = 1 \<and> effs2 = effs1"
proof -
  let ?pub = "sb_PublicationInfoFromTopicInfo ti"
  obtain s1' where A: "sb_ApplySample now oo s ti pl i clock t layer = (n1, s1', effs1)"
    and e1: "effs1 = [SubReceive cb
         \<lparr>ti_topic_id = \<lparr>ei_entity_id = pti_topic_id ti, ei_process_id = pti_process_id ti,
            ei_host_name = pti_host_name ti\<rparr>, ti_topic_name = pti_topic_name ti\<rparr>
         (case om_find si_entity_id (sb_connection_map s) ?pub of
            Some c \<Rightarrow> scn_data_type_info c | None \<Rightarrow> dti_new)
         \<lparr>rcd_buffer = pl, rcd_send_timestamp = t, rcd_send_clock = clock\<rparr>]"
    and m: "sb_connection_map s1' = snd (om_access si_entity_id (sb_connection_map s) ?pub scn_new)"
    and I: "sb_accepts s1' layer i" "sb_receive_callback s1' = Some cb" "sb_inv s1'"
    by (rule sb_ApplySample_callback [OF sb_reachable_inv [OF assms(1)] assms(2,3), of now oo ti pl clock t])
      (use assms(4) in auto)
  have s1: "s1' = s1" using A assms(4) by simp
  have find: "(case om_find si_entity_id (sb_connection_map s1) ?pub of Some c \<Rightarrow> scn_data_type_info c | None \<Rightarrow> dti_new) =
      (case om_find si_entity_id (sb_connection_map s) ?pub of Some c \<Rightarrow> scn_data_type_info c | None \<Rightarrow> dti_new)"
    using m by (simp add: s1 om_find_access scn_new_def split: option.split)
  show ?thesis
    by (rule sb_ApplySample_callback [OF I(3,1,2), of now' oo ti pl clock t])
      (use assms(5) in \<open>simp add: s1 e1 find\<close>)
qed

definition demo_info :: topic_info where
  "demo_info = \<lparr>pti_host_name = ''h'', pti_topic_id = 5, pti_topic_name = ''t'', pti_process_id = 2\<rparr>"

lemma demo_sub_accepts: "sb_accepts demo_sub TlEcalShm 0" "sb_receive_callback demo_sub = Some ''cb''"
  by (simp_all add: demo_sub_def sb_accepts_def sb_exec_def sb_new_def sb_StartTransportLayer_def Let_def
      sb_SetReceiveCallback_def sb_ShouldApplySampleBasedOnLayer_def sb_ShouldApplySampleBasedOnId_def demo_sub_attr_def)

theorem sb_duplicate_applied_witness:
  "let (n1, s1, effs1) = sb_ApplySample 0 True demo_sub demo_info [1, 2] 0 7 0 TlEcalShm;
       (n2, s2, effs2) = sb_ApplySample 1 True s1 demo_info [1, 2] 0 7 0 TlEcalShm
   in n2 = 2 \<and> length effs2 = 1 \<and> effs2 = effs1"
proof -
  obtain n1 s1 effs1 where a: "sb_ApplySample 0 True demo_sub demo_info [1, 2] 0 7 0 TlEcalShm = (n1, s1, effs1)"
    by (cases "sb_ApplySample 0 True demo_sub demo_info [1, 2] 0 7 0 TlEcalShm") auto
  obtain n2 s2 effs2 where b: "sb_ApplySample 1 True s1 demo_info [1, 2] 0 7 0 TlEcalShm = (n2, s2, effs2)"
    by (cases "sb_ApplySample 1 True s1 demo_info [1, 2] 0 7 0 TlEcalShm") auto
  show ?thesis using sb_duplicate_applied [OF demo_sub_reachable demo_sub_accepts a b] by (auto simp: a b)
qed

text \<open>
  A sample that arrives twice is reported as lost messages: the drop counters of the subscriber
  wrap, its registration carries -1 message drops, and a dropped event is fired although every
  message arrived.
\<close>

theorem sb_duplicate_reports_drops:
  assumes "sb_reachable s" "sb_accepts s layer i" "sb_receive_callback s = Some cb"
    "sb_event_id_callback s = Some ecb" "sb_message_drop_map s = []"
    "sb_ApplySample now oo s ti pl i clock t layer = (n1, s1, effs1)"
    "sb_ApplySample now' oo s1 ti pl i clock t layer = (n2, s2, effs2)"
    "sb_GetMessageDropsAndFireDroppedEvents s2 = (drops, s3, effs3)"
  shows "drops = - 1 \<and> sb_events SubDropped (pti_topic_id ti) effs3 = 1"
proof -
  let ?pub = "sb_PublicationInfoFromTopicInfo ti"
  have 1: "sb_message_drop_map s1 = [(?pub, md_RegisterReceivedMessage md_new clock)]"
    "sb_accepts s1 layer i" "sb_receive_callback s1 = Some cb" "sb_inv s1" "sb_event_id_callback s1 = Some ecb"
    using assms(4,5,6)
    by (rule_tac sb_ApplySample_callback [OF sb_reachable_inv [OF assms(1)] assms(2,3), of now oo ti pl clock t],
        simp add: mdm_RegisterReceivedMessage_def om_access_def)+
  have 2: "sb_message_drop_map s2 =
      [(?pub, md_RegisterReceivedMessage (md_RegisterReceivedMessage md_new clock) clock)]"
    "sb_event_id_callback s2 = Some ecb"
    using assms(7) 1(1,5)
    by (rule_tac sb_ApplySample_callback [OF 1(4,2,3), of now' oo ti pl clock t],
        simp add: mdm_RegisterReceivedMessage_def om_access_def)+
  have d: "md_GetSummary (md_RegisterReceivedMessage (md_RegisterReceivedMessage md_new clock) clock) =
      (\<lparr>ds_new_drops = True, ds_drops = - 1\<rparr>,
       (md_RegisterReceivedMessage (md_RegisterReceivedMessage md_new clock) clock)\<lparr>md_previous_drops := - 1\<rparr>)"
    by (simp add: md_GetSummary_def md_RegisterReceivedMessage_def md_new_def Let_def word_greater_zero_iff)
  show ?thesis using assms(8) 2
    by (auto simp: sb_GetMessageDropsAndFireDroppedEvents_def mdm_GetSummary_def d sb_drop_step_def
        split_beta Let_def sb_FireDroppedEvent_def sb_events_fire sb_PublicationInfoFromTopicInfo_def ucast_m1)
qed

text \<open>Witness of C22: a subscriber with both callbacks.\<close>

definition demo_sub2 :: "string subscriber" where
  "demo_sub2 = fst (sb_exec (SbSetEventCallback (Some ''ev'')) demo_sub)"

lemma demo_sub2_facts:
  "sb_reachable demo_sub2" "sb_accepts demo_sub2 TlEcalShm 0" "sb_receive_callback demo_sub2 = Some ''cb''"
  "sb_event_id_callback demo_sub2 = Some ''ev''" "sb_message_drop_map demo_sub2 = []"
  using reach_op [OF demo_sub_reachable, of "SbSetEventCallback (Some ''ev'')"]
  by (simp_all add: demo_sub2_def demo_sub_def sb_accepts_def sb_exec_def sb_new_def sb_StartTransportLayer_def Let_def
      sb_SetReceiveCallback_def sb_SetEventCallback_def sb_ShouldApplySampleBasedOnLayer_def
      sb_ShouldApplySampleBasedOnId_def demo_sub_attr_def)

theorem sb_duplicate_reports_drops_witness:
  "let (n1, s1, effs1) = sb_ApplySample 0 True demo_sub2 demo_info [1, 2] 0 7 0 TlEcalShm;
       (n2, s2, effs2) = sb_ApplySample 1 True s1 demo_info [1, 2] 0 7 0 TlEcalShm
   in fst (sb_GetMessageDropsAndFireDroppedEvents s2) = - 1"
proof -
  obtain n1 s1 effs1 where a: "sb_ApplySample 0 True demo_sub2 demo_info [1, 2] 0 7 0 TlEcalShm = (n1, s1, effs1)"
    by (cases "sb_ApplySample 0 True demo_sub2 demo_info [1, 2] 0 7 0 TlEcalShm") auto
  obtain n2 s2 effs2 where b: "sb_ApplySample 1 True s1 demo_info [1, 2] 0 7 0 TlEcalShm = (n2, s2, effs2)"
    by (cases "sb_ApplySample 1 True s1 demo_info [1, 2] 0 7 0 TlEcalShm") auto
  obtain d s3 effs3 where c: "sb_GetMessageDropsAndFireDroppedEvents s2 = (d, s3, effs3)"
    by (cases "sb_GetMessageDropsAndFireDroppedEvents s2") auto
  show ?thesis using sb_duplicate_reports_drops [OF demo_sub2_facts a b c] by (simp add: a b c)
qed

text \<open>
  Without a receive callback the next \<open>Read\<close> returns the bytes and the send time of the
  sample applied last, and a \<open>Read\<close> after that nothing.
\<close>

theorem sb_read_returns_last:
  assumes "sb_reachable s" "sb_accepts s layer i" "sb_receive_callback s = None"
  shows "let (n, s1, effs) = sb_ApplySample now oo s ti pl i clock t layer; (r1, s2) = sb_Read s1; (r2, s3) = sb_Read s2
    in n = word_of_nat (length pl) \<and> effs = [] \<and> r1 = Some (pl, t) \<and> r2 = None"
  using assms sb_clock_accepts [OF sb_reachable_inv [OF assms(1)]]
  by (simp add: sb_ApplySample_def sb_accepts_def Let_def sb_TriggerMessageDropUpdate_def
      sb_TriggerFrequencyUpdate_def sb_Read_def)

theorem sb_read_returns_last_witness:
  "let (n, s1, effs) = sb_ApplySample 0 True (fst (sb_exec SbRemoveReceiveCallback demo_sub)) demo_info [1, 2] 0 7 9 TlEcalShm;
       (r1, s2) = sb_Read s1; (r2, s3) = sb_Read s2
    in n = word_of_nat (length [1, 2 :: u8]) \<and> effs = [] \<and> r1 = Some ([1, 2], 9) \<and> r2 = None"
proof (rule sb_read_returns_last)
  show "sb_reachable (fst (sb_exec SbRemoveReceiveCallback demo_sub))" by (rule reach_op [OF demo_sub_reachable])
  have c: "sb_created demo_sub" using demo_sub_accepts(1) by (simp add: sb_accepts_def)
  then show "sb_receive_callback (fst (sb_exec SbRemoveReceiveCallback demo_sub)) = None"
    by (simp add: sb_exec_def sb_RemoveReceiveCallback_def)
  show "sb_accepts (fst (sb_exec SbRemoveReceiveCallback demo_sub)) TlEcalShm 0"
    using demo_sub_accepts(1) sb_accepts_cong [of "fst (sb_exec SbRemoveReceiveCallback demo_sub)" demo_sub]
    by (simp add: sb_exec_def sb_RemoveReceiveCallback_def c)
qed

text \<open>
  A sample that is still under way when its publisher is unregistered brings the publisher
  back into the connection map of a subscriber with a receive callback: it is seen again without
  any registration, and its next registration, the first after the unregistration, connects it.
\<close>

theorem sb_late_sample_resurrects:
  assumes "sb_reachable s" "sb_accepts s layer i" "sb_receive_callback s = Some cb"
    "pub = sb_PublicationInfoFromTopicInfo ti"
  shows "let s1 = fst (sb_ApplyPublisherUnregistration s pub d);
       s2 = fst (snd (sb_ApplySample now oo s1 ti pl i clock t layer));
       s3 = fst (sb_ApplyPublisherRegistration s2 pub d ls); e = pti_topic_id ti
    in sb_phase s1 e = Unknown \<and> sb_phase s2 e = Seen \<and> sb_phase s3 e = Connected"
proof -
  have I: "sb_inv s" using sb_reachable_inv [OF assms(1)] .
  let ?s1 = "fst (sb_ApplyPublisherUnregistration s pub d)"
  have e: "pti_topic_id ti = si_entity_id pub" by (simp add: assms(4) sb_PublicationInfoFromTopicInfo_def)
  have I1: "sb_inv ?s1" using sb_inv_exec [OF I, of "SbPublisherUnregistration pub d"] by (simp add: sb_exec_def)
  have a1: "sb_accepts ?s1 layer i" "sb_receive_callback ?s1 = Some cb"
    using assms(2,3) sb_accepts_cong [of ?s1 s layer i]
    by (simp_all add: sb_ApplyPublisherUnregistration_def Let_def)
  have f1: "om_find si_entity_id (sb_connection_map ?s1) pub = None"
    using I by (simp add: sb_ApplyPublisherUnregistration_def Let_def sb_inv_def om_find_erase)
  have p2: "sb_phase (fst (snd (sb_ApplySample now oo ?s1 ti pl i clock t layer))) (si_entity_id pub) = Seen"
    by (rule sb_ApplySample_callback [OF I1 a1, of now oo ti pl clock t])
      (simp add: sb_phase_of [of pub, OF refl] om_find_access f1 assms(4) [symmetric] scn_new_def)
  have "sb_phase ?s1 (si_entity_id pub) = Unknown" using f1 by (simp add: sb_phase_of [of pub, OF refl])
  then show ?thesis using p2 by (simp add: Let_def e sb_phase_registration)
qed

theorem sb_late_sample_resurrects_witness:
  "sb_phase (fst (snd (sb_ApplySample 0 True (fst (sb_ApplyPublisherUnregistration demo_sub
    (sb_PublicationInfoFromTopicInfo demo_info) dti_new)) demo_info [1] 0 7 9 TlEcalShm))) 5 = Seen"
  using sb_late_sample_resurrects [OF demo_sub_reachable demo_sub_accepts refl, of demo_info dti_new 0 True "[1]" 7 9 lss_new]
  by (simp add: Let_def demo_info_def)

end
