(* ===== verification/Publisher.thy ===== *)
theory Publisher
  imports Subscriber
begin

text \<open>
  \<open>ecal/core/src/pubsub/ecal_publisher_impl.{h,cpp}\<close> (\<open>CPublisherImpl\<close>) and the sending part of
  \<open>ecal_publisher.cpp\<close>. As for the subscriber, the state is one record and the calls of user
  callbacks, layer writers and the registration provider are effects. The layer writers are used
  through the virtual functions of \<open>CDataWriterBase\<close> (\<open>ecal_writer_base.h\<close>): a record
  \<open>data_writer\<close> of functions per layer, over a type \<open>'w\<close> of writer objects. The \<open>std::hash\<close>
  functions are the arguments \<open>h1\<close> and \<open>h2\<close>; all clock readings of one call are the argument
  \<open>now\<close>; sleeping is left out. A payload object is the bytes it writes.
\<close>

subsection \<open>State\<close>

datatype transport_type = TtNone | TtUdpMc | TtShm | TtTcp

record pub_attributes =
  pua_layer_priority_local :: "transport_type list"
  pua_layer_priority_remote :: "transport_type list"
  pua_loopback :: bool
  pua_host :: string
  pua_domain :: string
  pua_pid :: i32
  pua_process_name :: string
  pua_unit_name :: string
  pua_topic_name :: string
  pua_udp_enable :: bool
  pua_tcp_enable :: bool
  pua_shm_enable :: bool
  pua_zero_copy_mode :: bool
  pua_acknowledge_timeout_ms :: u32

text \<open>\<open>SWriterAttr\<close> (\<open>ecal_writer_data.h\<close>).\<close>

record writer_attr =
  wa_len :: u64
  wa_id :: i64
  wa_clock :: i64
  wa_hash :: u64
  wa_time :: i64
  wa_loopback :: bool
  wa_zero_copy :: bool
  wa_acknowledge_timeout_ms :: i64

definition wa_new :: writer_attr where
  "wa_new = \<lparr>wa_len = 0, wa_id = 0, wa_clock = 0, wa_hash = 0, wa_time = 0, wa_loopback = False,
     wa_zero_copy = False, wa_acknowledge_timeout_ms = 0\<rparr>"

record 'w data_writer =
  dw_create :: "pub_attributes \<Rightarrow> u64 \<Rightarrow> 'w"
  dw_ApplySubscription :: "'w \<Rightarrow> sample_identifier \<Rightarrow> string \<Rightarrow> 'w"
  dw_RemoveSubscription :: "'w \<Rightarrow> sample_identifier \<Rightarrow> 'w"
  dw_GetConnectionParameter :: "'w \<Rightarrow> connection_par"
  dw_PrepareWrite :: "'w \<Rightarrow> writer_attr \<Rightarrow> bool \<times> 'w"
  dw_Write :: "'w \<Rightarrow> u8 list \<Rightarrow> writer_attr \<Rightarrow> bool \<times> 'w"

text \<open>What \<open>CDataWriterBase\<close> does where a layer does not override it.\<close>

definition dw_base :: "(pub_attributes \<Rightarrow> u64 \<Rightarrow> 'w) \<Rightarrow> 'w data_writer" where
  "dw_base create = \<lparr>dw_create = create, dw_ApplySubscription = (\<lambda>w _ _. w),
     dw_RemoveSubscription = (\<lambda>w _. w), dw_GetConnectionParameter = (\<lambda>_. cp_new),
     dw_PrepareWrite = (\<lambda>w _. (False, w)), dw_Write = (\<lambda>w _ _. (False, w))\<rparr>"

record 'w writers =
  ws_udp :: "'w data_writer"
  ws_shm :: "'w data_writer"
  ws_tcp :: "'w data_writer"

record ('cb, 'w) publisher =
  pb_publisher_id :: u64
  pb_topic_info :: data_type_info
  pb_topic_size :: u64
  pb_attributes :: pub_attributes
  pb_topic_id :: topic_id
  pb_payload_buffer :: "u8 list"
  pb_connection_map :: connection_map
  pb_connection_count :: nat
  pb_event_id_callback :: "'cb option"
  pb_id :: i64
  pb_clock :: i64
  pb_frequency_calculator :: resettable_frequency_calculator
  pb_writer_udp :: "'w option"
  pb_writer_shm :: "'w option"
  pb_writer_tcp :: "'w option"
  pb_layers :: layer_states
  pb_created :: bool

datatype publisher_event = PubConnected | PubDisconnected

datatype 'cb pub_effect =
    PubEvent 'cb topic_id publisher_event data_type_info
  | PubLayerWrite tlayer_type "u8 list" writer_attr
  | PubRegister sample
  | PubUnregister sample

definition pb_new :: "u64 \<Rightarrow> data_type_info \<Rightarrow> pub_attributes \<Rightarrow> ('cb, 'w) publisher" where
  "pb_new i ti attr = \<lparr>pb_publisher_id = i, pb_topic_info = ti, pb_topic_size = 0, pb_attributes = attr,
     pb_topic_id = \<lparr>ti_topic_id = \<lparr>ei_entity_id = i, ei_process_id = pua_pid attr, ei_host_name = pua_host attr\<rparr>,
       ti_topic_name = pua_topic_name attr\<rparr>,
     pb_payload_buffer = [], pb_connection_map = [], pb_connection_count = 0, pb_event_id_callback = None,
     pb_id = 0, pb_clock = 0, pb_frequency_calculator = rfc_new 3, pb_writer_udp = None,
     pb_writer_shm = None, pb_writer_tcp = None, pb_layers = lss_new, pb_created = True\<rparr>"

subsection \<open>Small operations\<close>

definition pb_SetDataTypeInformation :: "('cb, 'w) publisher \<Rightarrow> data_type_info \<Rightarrow> bool \<times> ('cb, 'w) publisher" where
  "pb_SetDataTypeInformation p ti = (True, p\<lparr>pb_topic_info := ti\<rparr>)"

definition pb_SetEventCallback :: "('cb, 'w) publisher \<Rightarrow> 'cb option \<Rightarrow> bool \<times> ('cb, 'w) publisher" where
  "pb_SetEventCallback p cb =
     (if \<not> pb_created p then (False, p) else (True, p\<lparr>pb_event_id_callback := cb\<rparr>))"

definition pb_RemoveEventCallback :: "('cb, 'w) publisher \<Rightarrow> bool \<times> ('cb, 'w) publisher" where
  "pb_RemoveEventCallback p =
     (if \<not> pb_created p then (False, p) else (True, p\<lparr>pb_event_id_callback := None\<rparr>))"

definition pb_RefreshSendCounter :: "time_point \<Rightarrow> ('cb, 'w) publisher \<Rightarrow> ('cb, 'w) publisher" where
  "pb_RefreshSendCounter now p =
     p\<lparr>pb_clock := pb_clock p + 1,
       pb_frequency_calculator := rfc_addTick (pb_frequency_calculator p) now\<rparr>"

definition pb_IsSubscribed :: "('cb, 'w) publisher \<Rightarrow> bool" where
  "pb_IsSubscribed p \<longleftrightarrow> pb_connection_count p > 0"

definition pb_GetSubscriberCount :: "('cb, 'w) publisher \<Rightarrow> nat" where
  "pb_GetSubscriberCount p = pb_connection_count p"

definition pb_GetConnectionCount :: "('cb, 'w) publisher \<Rightarrow> nat" where
  "pb_GetConnectionCount p = length (filter (\<lambda>(_, c). scn_state c) (pb_connection_map p))"

definition pb_FireEvent ::
  "('cb, 'w) publisher \<Rightarrow> publisher_event \<Rightarrow> sample_identifier \<Rightarrow> data_type_info \<Rightarrow> 'cb pub_effect list" where
  "pb_FireEvent p ev sub d =
     (case pb_event_id_callback p of
        None \<Rightarrow> []
      | Some cb \<Rightarrow>
          [PubEvent cb
            \<lparr>ti_topic_id = \<lparr>ei_entity_id = si_entity_id sub, ei_process_id = si_process_id sub,
               ei_host_name = si_host_name sub\<rparr>,
             ti_topic_name = pua_topic_name (pb_attributes p)\<rparr> ev d])"

definition pb_FireConnectEvent ::
  "('cb, 'w) publisher \<Rightarrow> sample_identifier \<Rightarrow> data_type_info \<Rightarrow> 'cb pub_effect list" where
  "pb_FireConnectEvent p = pb_FireEvent p PubConnected"

definition pb_FireDisconnectEvent ::
  "('cb, 'w) publisher \<Rightarrow> sample_identifier \<Rightarrow> data_type_info \<Rightarrow> 'cb pub_effect list" where
  "pb_FireDisconnectEvent p = pb_FireEvent p PubDisconnected"

subsection \<open>Registration\<close>

definition pb_GetFrequency :: "time_point \<Rightarrow> ('cb, 'w) publisher \<Rightarrow> i32 \<times> ('cb, 'w) publisher" where
  "pb_GetFrequency now p =
     (let (f, r) = rfc_getFrequency (pb_frequency_calculator p) now
      in (clamp_frequency f, p\<lparr>pb_frequency_calculator := r\<rparr>))"

definition pb_identifier :: "('cb, 'w) publisher \<Rightarrow> sample_identifier \<Rightarrow> sample_identifier" where
  "pb_identifier p i = i\<lparr>si_process_id := pua_pid (pb_attributes p), si_entity_id := pb_publisher_id p,
     si_host_name := pua_host (pb_attributes p)\<rparr>"

text \<open>The layers with a writer, each with its parameters.\<close>

definition pb_tlayer :: "tlayer_type \<Rightarrow> layer_state \<Rightarrow> connection_par \<Rightarrow> tlayer" where
  "pb_tlayer t l par = tl_new\<lparr>tl_type := t, tl_version := ecal_transport_layer_version,
     tl_enabled := ls_write_enabled l, tl_active := ls_active l, tl_par_layer := par\<rparr>"

definition pb_push_layers :: "'w writers \<Rightarrow> ('cb, 'w) publisher \<Rightarrow> tlayer evec \<Rightarrow> tlayer evec" where
  "pb_push_layers ws p v =
     (let v = (case pb_writer_udp p of None \<Rightarrow> v | Some w \<Rightarrow>
          ev_push_back v (pb_tlayer TlEcalUdp (lss_udp (pb_layers p))
            (cp_new\<lparr>cp_layer_par_udpmc := cp_layer_par_udpmc (dw_GetConnectionParameter (ws_udp ws) w)\<rparr>)));
          v = (case pb_writer_shm p of None \<Rightarrow> v | Some w \<Rightarrow>
          ev_push_back v (pb_tlayer TlEcalShm (lss_shm (pb_layers p))
            (cp_new\<lparr>cp_layer_par_shm := cp_layer_par_shm (dw_GetConnectionParameter (ws_shm ws) w)\<rparr>)))
      in (case pb_writer_tcp p of None \<Rightarrow> v | Some w \<Rightarrow>
          ev_push_back v (pb_tlayer TlEcalTcp (lss_tcp (pb_layers p))
            (cp_new\<lparr>cp_layer_par_tcp := cp_layer_par_tcp (dw_GetConnectionParameter (ws_tcp ws) w)\<rparr>))))"

definition pb_GetRegistrationSample ::
  "'w writers \<Rightarrow> time_point \<Rightarrow> ('cb, 'w) publisher \<Rightarrow> sample \<Rightarrow> sample \<times> ('cb, 'w) publisher" where
  "pb_GetRegistrationSample ws now p sa =
     (let a = pb_attributes p; ti = pb_topic_info p; tp = sa_topic sa;
          dt = (tp_datatype_information tp)\<lparr>dti_encoding := dti_encoding ti, dti_name := dti_name ti,
            dti_descriptor := dti_descriptor ti\<rparr>;
          layers = pb_push_layers ws p (tp_transport_layer tp);
          (freq, p) = pb_GetFrequency now p;
          loc = length (filter (\<lambda>(k, _). si_host_name k = pua_host a) (pb_connection_map p));
          ext = length (pb_connection_map p) - loc
      in (sa\<lparr>sa_cmd_type := BctRegPublisher,
             sa_identifier := pb_identifier p (sa_identifier sa),
             sa_topic := tp\<lparr>tp_shm_transport_domain := pua_domain a,
               tp_topic_name := pua_topic_name a,
               tp_datatype_information := dt,
               tp_topic_size := ucast (pb_topic_size p),
               tp_transport_layer := layers,
               tp_process_name := pua_process_name a,
               tp_unit_name := pua_unit_name a,
               tp_data_id := pb_id p,
               tp_data_clock := pb_clock p,
               tp_data_frequency := freq,
               tp_connections_local := word_of_nat loc,
               tp_connections_external := word_of_nat ext\<rparr>\<rparr>, p))"

definition pb_GetUnregistrationSample :: "('cb, 'w) publisher \<Rightarrow> sample \<Rightarrow> sample" where
  "pb_GetUnregistrationSample p sa =
     (let a = pb_attributes p in
      sa\<lparr>sa_cmd_type := BctUnregPublisher,
        sa_identifier := pb_identifier p (sa_identifier sa),
        sa_topic := (sa_topic sa)\<lparr>tp_shm_transport_domain := pua_domain a,
          tp_process_name := pua_process_name a, tp_topic_name := pua_topic_name a,
          tp_unit_name := pua_unit_name a\<rparr>\<rparr>)"

definition pb_Register ::
  "'w writers \<Rightarrow> time_point \<Rightarrow> ('cb, 'w) publisher \<Rightarrow> ('cb, 'w) publisher \<times> 'cb pub_effect list" where
  "pb_Register ws now p =
     (let (sa, p) = pb_GetRegistrationSample ws now p sa_new in (p, [PubRegister sa]))"

definition pb_Unregister :: "('cb, 'w) publisher \<Rightarrow> 'cb pub_effect list" where
  "pb_Unregister p = [PubUnregister (pb_GetUnregistrationSample p sa_new)]"

subsection \<open>Starting and stopping layers\<close>

definition pb_set_layer_write :: "tlayer_type \<Rightarrow> bool \<Rightarrow> layer_states \<Rightarrow> layer_states" where
  "pb_set_layer_write t b l =
     (case t of
        TlEcalUdp \<Rightarrow> l\<lparr>lss_udp := (lss_udp l)\<lparr>ls_write_enabled := b\<rparr>\<rparr>
      | TlEcalShm \<Rightarrow> l\<lparr>lss_shm := (lss_shm l)\<lparr>ls_write_enabled := b\<rparr>\<rparr>
      | TlEcalTcp \<Rightarrow> l\<lparr>lss_tcp := (lss_tcp l)\<lparr>ls_write_enabled := b\<rparr>\<rparr>
      | _ \<Rightarrow> l)"

definition pb_StartUdpLayer ::
  "'w writers \<Rightarrow> time_point \<Rightarrow> ('cb, 'w) publisher \<Rightarrow> bool \<times> ('cb, 'w) publisher \<times> 'cb pub_effect list" where
  "pb_StartUdpLayer ws now p =
     (if ls_write_enabled (lss_udp (pb_layers p)) then (False, p, [])
      else (True, pb_Register ws now (p\<lparr>pb_layers := pb_set_layer_write TlEcalUdp True (pb_layers p),
             pb_writer_udp := Some (dw_create (ws_udp ws) (pb_attributes p) (pb_publisher_id p))\<rparr>)))"

definition pb_StartShmLayer ::
  "'w writers \<Rightarrow> time_point \<Rightarrow> ('cb, 'w) publisher \<Rightarrow> bool \<times> ('cb, 'w) publisher \<times> 'cb pub_effect list" where
  "pb_StartShmLayer ws now p =
     (if ls_write_enabled (lss_shm (pb_layers p)) then (False, p, [])
      else (True, pb_Register ws now (p\<lparr>pb_layers := pb_set_layer_write TlEcalShm True (pb_layers p),
             pb_writer_shm := Some (dw_create (ws_shm ws) (pb_attributes p) (pb_publisher_id p))\<rparr>)))"

definition pb_StartTcpLayer ::
  "'w writers \<Rightarrow> time_point \<Rightarrow> ('cb, 'w) publisher \<Rightarrow> bool \<times> ('cb, 'w) publisher \<times> 'cb pub_effect list" where
  "pb_StartTcpLayer ws now p =
     (if ls_write_enabled (lss_tcp (pb_layers p)) then (False, p, [])
      else (True, pb_Register ws now (p\<lparr>pb_layers := pb_set_layer_write TlEcalTcp True (pb_layers p),
             pb_writer_tcp := Some (dw_create (ws_tcp ws) (pb_attributes p) (pb_publisher_id p))\<rparr>)))"

definition pb_StopAllLayer :: "('cb, 'w) publisher \<Rightarrow> ('cb, 'w) publisher" where
  "pb_StopAllLayer p =
     p\<lparr>pb_layers := pb_set_layer_write TlEcalTcp False (pb_set_layer_write TlEcalShm False
          (pb_set_layer_write TlEcalUdp False (pb_layers p))),
       pb_writer_udp := None, pb_writer_shm := None, pb_writer_tcp := None\<rparr>"

definition transport_layer_mapping :: "transport_type \<Rightarrow> tlayer_type" where
  "transport_layer_mapping t =
     (case t of TtNone \<Rightarrow> TlNone | TtShm \<Rightarrow> TlEcalShm | TtUdpMc \<Rightarrow> TlEcalUdp | TtTcp \<Rightarrow> TlEcalTcp)"

fun pb_first_common :: "transport_type list \<Rightarrow> tlayer_type list \<Rightarrow> tlayer_type list \<Rightarrow> transport_type" where
  "pb_first_common [] pub sub = TtNone"
| "pb_first_common (l # ls) pub sub =
     (if transport_layer_mapping l \<in> set pub \<and> transport_layer_mapping l \<in> set sub then l
      else pb_first_common ls pub sub)"

definition pb_DetermineTransportLayer2Start ::
  "('cb, 'w) publisher \<Rightarrow> tlayer_type list \<Rightarrow> tlayer_type list \<Rightarrow> bool \<Rightarrow> transport_type" where
  "pb_DetermineTransportLayer2Start p pub sub same_host =
     pb_first_common (if same_host then pua_layer_priority_local (pb_attributes p)
       else pua_layer_priority_remote (pb_attributes p)) pub sub"

text \<open>The destructor.\<close>

definition pb_destroy :: "('cb, 'w) publisher \<Rightarrow> ('cb, 'w) publisher \<times> 'cb pub_effect list" where
  "pb_destroy p =
     (if \<not> pb_created p then (p, [])
      else (let p = (pb_StopAllLayer p)\<lparr>pb_connection_map := [], pb_created := False\<rparr>
        in (p, pb_Unregister p)))"

subsection \<open>Subscribers\<close>

definition pb_layer_list :: "bool \<Rightarrow> bool \<Rightarrow> bool \<Rightarrow> tlayer_type list" where
  "pb_layer_list udp shm tcp =
     (if udp then [TlEcalUdp] else []) @ (if shm then [TlEcalShm] else []) @ (if tcp then [TlEcalTcp] else [])"

definition pb_set_read_enabled :: "layer_states \<Rightarrow> layer_states \<Rightarrow> layer_states" where
  "pb_set_read_enabled sub l =
     \<lparr>lss_udp = (lss_udp l)\<lparr>ls_read_enabled := ls_read_enabled (lss_udp sub)\<rparr>,
      lss_shm = (lss_shm l)\<lparr>ls_read_enabled := ls_read_enabled (lss_shm sub)\<rparr>,
      lss_tcp = (lss_tcp l)\<lparr>ls_read_enabled := ls_read_enabled (lss_tcp sub)\<rparr>\<rparr>"

definition pb_map_writers ::
  "('w data_writer \<Rightarrow> 'w \<Rightarrow> 'w) \<Rightarrow> 'w writers \<Rightarrow> ('cb, 'w) publisher \<Rightarrow> ('cb, 'w) publisher" where
  "pb_map_writers f ws p =
     p\<lparr>pb_writer_udp := map_option (f (ws_udp ws)) (pb_writer_udp p),
       pb_writer_shm := map_option (f (ws_shm ws)) (pb_writer_shm p),
       pb_writer_tcp := map_option (f (ws_tcp ws)) (pb_writer_tcp p)\<rparr>"

definition pb_start_layer ::
  "'w writers \<Rightarrow> time_point \<Rightarrow> transport_type \<Rightarrow> ('cb, 'w) publisher \<Rightarrow> ('cb, 'w) publisher \<times> 'cb pub_effect list" where
  "pb_start_layer ws now l p =
     (case l of
        TtUdpMc \<Rightarrow> snd (pb_StartUdpLayer ws now p)
      | TtShm \<Rightarrow> snd (pb_StartShmLayer ws now p)
      | TtTcp \<Rightarrow> snd (pb_StartTcpLayer ws now p)
      | TtNone \<Rightarrow> (p, []))"

text \<open>The part of the registration that updates the connection map.\<close>

definition pb_connect ::
  "('cb, 'w) publisher \<Rightarrow> sample_identifier \<Rightarrow> data_type_info \<Rightarrow> layer_states \<Rightarrow> ('cb, 'w) publisher \<times> 'cb pub_effect list" where
  "pb_connect p sub d sl =
     (let (is_new, mp) =
            (case om_find si_entity_id (pb_connection_map p) sub of
               None \<Rightarrow> (False, om_set si_entity_id (pb_connection_map p) sub
                 \<lparr>scn_data_type_info = d, scn_layer_states = sl, scn_state = False\<rparr>)
             | Some c \<Rightarrow> (\<not> scn_state c, om_set si_entity_id (pb_connection_map p) sub
                 \<lparr>scn_data_type_info = d, scn_layer_states = sl, scn_state = True\<rparr>));
          p = p\<lparr>pb_connection_map := mp\<rparr>;
          p = p\<lparr>pb_connection_count := pb_GetConnectionCount p\<rparr>
      in (p, if is_new then pb_FireConnectEvent p sub d else []))"

definition pb_ApplySubscriberRegistration ::
  "'w writers \<Rightarrow> time_point \<Rightarrow> ('cb, 'w) publisher \<Rightarrow> sample_identifier \<Rightarrow> data_type_info \<Rightarrow> layer_states \<Rightarrow> string \<Rightarrow>
   ('cb, 'w) publisher \<times> 'cb pub_effect list" where
  "pb_ApplySubscriberRegistration ws now p sub d sl reader_par =
     (let a = pb_attributes p;
          pub_layers = pb_layer_list (pua_udp_enable a) (pua_shm_enable a) (pua_tcp_enable a);
          sub_layers = pb_layer_list (ls_read_enabled (lss_udp sl)) (ls_read_enabled (lss_shm sl))
            (ls_read_enabled (lss_tcp sl));
          p = p\<lparr>pb_layers := pb_set_read_enabled sl (pb_layers p)\<rparr>;
          layer = pb_DetermineTransportLayer2Start p pub_layers sub_layers (pua_host a = si_host_name sub);
          (p, effs1) = pb_start_layer ws now layer p;
          p = pb_map_writers (\<lambda>dw w. dw_ApplySubscription dw w sub reader_par) ws p;
          (p, effs2) = pb_connect p sub d sl
      in (p, effs1 @ effs2))"

definition pb_ApplySubscriberUnregistration ::
  "'w writers \<Rightarrow> ('cb, 'w) publisher \<Rightarrow> sample_identifier \<Rightarrow> data_type_info \<Rightarrow> ('cb, 'w) publisher \<times> 'cb pub_effect list" where
  "pb_ApplySubscriberUnregistration ws p sub d =
     (let p = pb_map_writers (\<lambda>dw w. dw_RemoveSubscription dw w sub) ws p;
          p = p\<lparr>pb_connection_map := om_erase si_entity_id (pb_connection_map p) sub\<rparr>;
          p = p\<lparr>pb_connection_count := pb_GetConnectionCount p\<rparr>
      in (p, pb_FireDisconnectEvent p sub d))"

subsection \<open>Writing\<close>

text \<open>\<open>std::hash<SSndHash>\<close>.\<close>

definition pb_snd_hash :: "(u64 \<Rightarrow> u64) \<Rightarrow> (i64 \<Rightarrow> u64) \<Rightarrow> u64 \<Rightarrow> i64 \<Rightarrow> u64" where
  "pb_snd_hash h1 h2 topic clock = h1 topic XOR push_bit 1 (h2 clock)"

definition pb_PrepareWrite ::
  "(u64 \<Rightarrow> u64) \<Rightarrow> (i64 \<Rightarrow> u64) \<Rightarrow> time_point \<Rightarrow> ('cb, 'w) publisher \<Rightarrow> i64 \<Rightarrow> u64 \<Rightarrow> u64 \<times> ('cb, 'w) publisher" where
  "pb_PrepareWrite h1 h2 now p i len =
     (let p = p\<lparr>pb_id := i\<rparr>;
          p = pb_RefreshSendCounter now p;
          h = pb_snd_hash h1 h2 (pb_publisher_id p) (pb_clock p)
      in (h, p\<lparr>pb_topic_size := len\<rparr>))"

definition pb_allow_zero_copy :: "('cb, 'w) publisher \<Rightarrow> bool" where
  "pb_allow_zero_copy p \<longleftrightarrow>
     pua_zero_copy_mode (pb_attributes p) \<and> pb_writer_udp p = None \<and> pb_writer_tcp p = None"

definition pb_set_layer_active :: "tlayer_type \<Rightarrow> layer_states \<Rightarrow> layer_states" where
  "pb_set_layer_active t l =
     (case t of
        TlEcalUdp \<Rightarrow> l\<lparr>lss_udp := (lss_udp l)\<lparr>ls_active := True\<rparr>\<rparr>
      | TlEcalShm \<Rightarrow> l\<lparr>lss_shm := (lss_shm l)\<lparr>ls_active := True\<rparr>\<rparr>
      | TlEcalTcp \<Rightarrow> l\<lparr>lss_tcp := (lss_tcp l)\<lparr>ls_active := True\<rparr>\<rparr>
      | _ \<Rightarrow> l)"

definition pb_write_shm ::
  "'w writers \<Rightarrow> time_point \<Rightarrow> bool \<Rightarrow> u8 list \<Rightarrow> writer_attr \<Rightarrow> ('cb, 'w) publisher \<Rightarrow>
   bool \<times> ('cb, 'w) publisher \<times> 'cb pub_effect list" where
  "pb_write_shm ws now zero_copy payload attr p =
     (case pb_writer_shm p of
        None \<Rightarrow> (False, p, [])
      | Some w \<Rightarrow>
          (let a = pb_attributes p;
               attr = attr\<lparr>wa_zero_copy := pua_zero_copy_mode a,
                 wa_acknowledge_timeout_ms := ucast (pua_acknowledge_timeout_ms a)\<rparr>;
               (changed, w) = dw_PrepareWrite (ws_shm ws) w attr;
               p = p\<lparr>pb_writer_shm := Some w\<rparr>;
               (p, effs) = (if changed then pb_Register ws now p else (p, []));
               bytes = (if zero_copy then payload else pb_payload_buffer p);
               (sent, w) = dw_Write (ws_shm ws) w bytes attr
           in (sent, p\<lparr>pb_writer_shm := Some w, pb_layers := pb_set_layer_active TlEcalShm (pb_layers p)\<rparr>,
               effs @ [PubLayerWrite TlEcalShm bytes attr])))"

definition pb_write_udp ::
  "'w writers \<Rightarrow> time_point \<Rightarrow> writer_attr \<Rightarrow> ('cb, 'w) publisher \<Rightarrow>
   bool \<times> ('cb, 'w) publisher \<times> 'cb pub_effect list" where
  "pb_write_udp ws now attr p =
     (case pb_writer_udp p of
        None \<Rightarrow> (False, p, [])
      | Some w \<Rightarrow>
          (let attr = attr\<lparr>wa_loopback := pua_loopback (pb_attributes p)\<rparr>;
               (changed, w) = dw_PrepareWrite (ws_udp ws) w attr;
               p = p\<lparr>pb_writer_udp := Some w\<rparr>;
               (p, effs) = (if changed then pb_Register ws now p else (p, []));
               bytes = pb_payload_buffer p;
               (sent, w) = dw_Write (ws_udp ws) w bytes attr
           in (sent, p\<lparr>pb_writer_udp := Some w, pb_layers := pb_set_layer_active TlEcalUdp (pb_layers p)\<rparr>,
               effs @ [PubLayerWrite TlEcalUdp bytes attr])))"

definition pb_write_tcp ::
  "'w writers \<Rightarrow> writer_attr \<Rightarrow> ('cb, 'w) publisher \<Rightarrow>
   bool \<times> ('cb, 'w) publisher \<times> 'cb pub_effect list" where
  "pb_write_tcp ws attr p =
     (case pb_writer_tcp p of
        None \<Rightarrow> (False, p, [])
      | Some w \<Rightarrow>
          (let bytes = pb_payload_buffer p;
               (sent, w) = dw_Write (ws_tcp ws) w bytes attr
           in (sent, p\<lparr>pb_writer_tcp := Some w, pb_layers := pb_set_layer_active TlEcalTcp (pb_layers p)\<rparr>,
               [PubLayerWrite TlEcalTcp bytes attr])))"

definition pb_Write ::
  "'w writers \<Rightarrow> (u64 \<Rightarrow> u64) \<Rightarrow> (i64 \<Rightarrow> u64) \<Rightarrow> time_point \<Rightarrow> ('cb, 'w) publisher \<Rightarrow> u8 list \<Rightarrow> i64 \<Rightarrow> i64 \<Rightarrow>
   bool \<times> ('cb, 'w) publisher \<times> 'cb pub_effect list" where
  "pb_Write ws h1 h2 now p payload t filter_id =
     (let size = word_of_nat (length payload);
          zero_copy = pb_allow_zero_copy p;
          p = (if \<not> zero_copy then p\<lparr>pb_payload_buffer := payload\<rparr> else p);
          (h, p) = pb_PrepareWrite h1 h2 now p filter_id size;
          attr = wa_new\<lparr>wa_len := size, wa_id := pb_id p, wa_clock := pb_clock p, wa_hash := h, wa_time := t\<rparr>;
          (shm_sent, p, effs1) = pb_write_shm ws now zero_copy payload attr p;
          (udp_sent, p, effs2) = pb_write_udp ws now attr p;
          (tcp_sent, p, effs3) = pb_write_tcp ws attr p
      in (shm_sent \<or> udp_sent \<or> tcp_sent, p, effs1 @ effs2 @ effs3))"

text \<open>\<open>CPublisher::Send\<close>; \<open>micros\<close> is \<open>eCAL::Time::GetMicroSeconds()\<close>, the default time is -1.\<close>

definition pb_Send ::
  "'w writers \<Rightarrow> (u64 \<Rightarrow> u64) \<Rightarrow> (i64 \<Rightarrow> u64) \<Rightarrow> time_point \<Rightarrow> i64 \<Rightarrow> ('cb, 'w) publisher \<Rightarrow> u8 list \<Rightarrow> i64 \<Rightarrow>
   bool \<times> ('cb, 'w) publisher \<times> 'cb pub_effect list" where
  "pb_Send ws h1 h2 now micros p payload t =
     (if pb_GetSubscriberCount p = 0 then (False, pb_RefreshSendCounter now p, [])
      else pb_Write ws h1 h2 now p payload (if t = - 1 then micros else t) 0)"

subsection \<open>The layer that is started\<close>

abbreviation pb_common :: "tlayer_type list \<Rightarrow> tlayer_type list \<Rightarrow> transport_type \<Rightarrow> bool" where
  "pb_common pub sub l \<equiv> transport_layer_mapping l \<in> set pub \<and> transport_layer_mapping l \<in> set sub"

lemma pb_first_common_cases:
  "(\<exists>before after. prio = before @ pb_first_common prio pub sub # after \<and>
      pb_common pub sub (pb_first_common prio pub sub) \<and> (\<forall>l \<in> set before. \<not> pb_common pub sub l)) \<or>
   pb_first_common prio pub sub = TtNone \<and> (\<forall>l \<in> set prio. \<not> pb_common pub sub l)"
proof (induction prio)
  case (Cons l prio)
  show ?case
  proof (cases "pb_common pub sub l")
    case True
    then show ?thesis by (intro disjI1 exI [of _ "[]"] exI [of _ prio]) auto
  next
    case False
    from Cons.IH show ?thesis
    proof (elim disjE exE conjE)
      fix before after
      assume "prio = before @ pb_first_common prio pub sub # after"
        "transport_layer_mapping (pb_first_common prio pub sub) \<in> set pub"
        "transport_layer_mapping (pb_first_common prio pub sub) \<in> set sub"
        "\<forall>l \<in> set before. \<not> pb_common pub sub l"
      then show ?thesis using False
        by (intro disjI1 exI [of _ "l # before"] exI [of _ after]) auto
    qed (use False in auto)
  qed
qed simp

text \<open>
  The layer started for a subscriber is the first of the priority list (the local one if
  publisher and subscriber are on the same host) that both sides have enabled; if no layer of the
  list is enabled on both sides, none is started.
\<close>

theorem pb_layer_choice:
  "let prio = (if same then pua_layer_priority_local (pb_attributes p) else pua_layer_priority_remote (pb_attributes p));
       r = pb_DetermineTransportLayer2Start p pub sub same
   in (\<exists>before after. prio = before @ r # after \<and> pb_common pub sub r \<and> (\<forall>l \<in> set before. \<not> pb_common pub sub l)) \<or>
     r = TtNone \<and> (\<forall>l \<in> set prio. \<not> pb_common pub sub l)"
  unfolding Let_def pb_DetermineTransportLayer2Start_def by (rule pb_first_common_cases)

definition demo_pub_attr :: pub_attributes where
  "demo_pub_attr = \<lparr>pua_layer_priority_local = [TtShm, TtUdpMc, TtTcp], pua_layer_priority_remote = [TtUdpMc, TtTcp],
     pua_loopback = True, pua_host = ''h'', pua_domain = ''h'', pua_pid = 1, pua_process_name = ''p'',
     pua_unit_name = ''u'', pua_topic_name = ''t'', pua_udp_enable = True, pua_tcp_enable = True,
     pua_shm_enable = True, pua_zero_copy_mode = False, pua_acknowledge_timeout_ms = 0\<rparr>"

theorem pb_layer_choice_witness:
  "pb_DetermineTransportLayer2Start (pb_new 3 dti_new demo_pub_attr :: (unit, unit) publisher) [TlEcalUdp, TlEcalTcp] [TlEcalShm, TlEcalTcp] True = TtTcp"
proof -
  let ?p = "pb_new 3 dti_new demo_pub_attr :: (unit, unit) publisher"
  obtain r where r: "pb_DetermineTransportLayer2Start ?p [TlEcalUdp, TlEcalTcp] [TlEcalShm, TlEcalTcp] True = r" by blast
  have "pua_layer_priority_local (pb_attributes ?p) = [TtShm, TtUdpMc, TtTcp]"
    by (simp add: pb_new_def demo_pub_attr_def)
  then show ?thesis
    using pb_layer_choice [of True ?p "[TlEcalUdp, TlEcalTcp]" "[TlEcalShm, TlEcalTcp]"] unfolding r
    by (cases r) (simp_all add: Let_def transport_layer_mapping_def Cons_eq_append_conv)
qed

subsection \<open>Reachable publishers\<close>

datatype 'cb pb_op =
    PbSend i64 "u8 list" i64
  | PbSubscriberRegistration sample_identifier data_type_info layer_states string
  | PbSubscriberUnregistration sample_identifier data_type_info
  | PbSetEventCallback "'cb option"
  | PbRemoveEventCallback
  | PbSetDataTypeInformation data_type_info
  | PbRegister

definition pb_exec ::
  "'w writers \<Rightarrow> (u64 \<Rightarrow> u64) \<Rightarrow> (i64 \<Rightarrow> u64) \<Rightarrow> time_point \<Rightarrow> 'cb pb_op \<Rightarrow> ('cb, 'w) publisher \<Rightarrow>
   ('cb, 'w) publisher \<times> 'cb pub_effect list" where
  "pb_exec ws h1 h2 now op p =
     (case op of
        PbSend micros payload t \<Rightarrow> snd (pb_Send ws h1 h2 now micros p payload t)
      | PbSubscriberRegistration sub d sl par \<Rightarrow> pb_ApplySubscriberRegistration ws now p sub d sl par
      | PbSubscriberUnregistration sub d \<Rightarrow> pb_ApplySubscriberUnregistration ws p sub d
      | PbSetEventCallback cb \<Rightarrow> (snd (pb_SetEventCallback p cb), [])
      | PbRemoveEventCallback \<Rightarrow> (snd (pb_RemoveEventCallback p), [])
      | PbSetDataTypeInformation d \<Rightarrow> (snd (pb_SetDataTypeInformation p d), [])
      | PbRegister \<Rightarrow> pb_Register ws now p)"

inductive pb_reachable :: "'w writers \<Rightarrow> ('cb, 'w) publisher \<Rightarrow> bool" for ws where
  pb_reach_new: "pb_reachable ws (pb_new i ti attr)"
| pb_reach_op: "pb_reachable ws p \<Longrightarrow> pb_reachable ws (fst (pb_exec ws h1 h2 now op p))"

text \<open>A layer has a writer exactly while it is flagged as written to, and only if it is enabled.\<close>

definition pb_layers_inv :: "('cb, 'w) publisher \<Rightarrow> bool" where
  "pb_layers_inv p \<longleftrightarrow>
     (pb_writer_udp p \<noteq> None \<longleftrightarrow> ls_write_enabled (lss_udp (pb_layers p))) \<and>
     (pb_writer_shm p \<noteq> None \<longleftrightarrow> ls_write_enabled (lss_shm (pb_layers p))) \<and>
     (pb_writer_tcp p \<noteq> None \<longleftrightarrow> ls_write_enabled (lss_tcp (pb_layers p))) \<and>
     (pb_writer_udp p \<noteq> None \<longrightarrow> pua_udp_enable (pb_attributes p)) \<and>
     (pb_writer_shm p \<noteq> None \<longrightarrow> pua_shm_enable (pb_attributes p)) \<and>
     (pb_writer_tcp p \<noteq> None \<longrightarrow> pua_tcp_enable (pb_attributes p))"

definition pb_inv :: "('cb, 'w) publisher \<Rightarrow> bool" where
  "pb_inv p \<longleftrightarrow> pb_layers_inv p \<and> om_invar si_entity_id (pb_connection_map p) \<and>
     pb_connection_count p = pb_GetConnectionCount p"

lemma pb_Register_simp:
  obtains r sa where "pb_Register ws now p = (p\<lparr>pb_frequency_calculator := r\<rparr>, [PubRegister sa])"
  by (cases "rfc_getFrequency (pb_frequency_calculator p) now")
    (simp add: pb_Register_def pb_GetRegistrationSample_def pb_GetFrequency_def Let_def)

lemma pb_inv_frequency [simp]: "pb_inv (p\<lparr>pb_frequency_calculator := r\<rparr>) = pb_inv p"
  by (simp add: pb_inv_def pb_layers_inv_def pb_GetConnectionCount_def)

text \<open>Starting a layer that is enabled changes only its writer and flag.\<close>

lemma pb_start_layer_inv:
  assumes "pb_layers_inv p" "l \<noteq> TtNone \<longrightarrow>
    transport_layer_mapping l \<in> set (pb_layer_list (pua_udp_enable (pb_attributes p)) (pua_shm_enable (pb_attributes p))
      (pua_tcp_enable (pb_attributes p)))"
  shows "pb_layers_inv (fst (pb_start_layer ws now l p)) \<and>
    pb_connection_map (fst (pb_start_layer ws now l p)) = pb_connection_map p \<and>
    pb_attributes (fst (pb_start_layer ws now l p)) = pb_attributes p"
proof (cases l)
  case TtUdpMc
  show ?thesis
    by (rule pb_Register_simp [of ws now "p\<lparr>pb_layers := pb_set_layer_write TlEcalUdp True (pb_layers p),
        pb_writer_udp := Some (dw_create (ws_udp ws) (pb_attributes p) (pb_publisher_id p))\<rparr>"])
      (use assms TtUdpMc in \<open>simp add: pb_start_layer_def pb_StartUdpLayer_def pb_layers_inv_def pb_set_layer_write_def
        transport_layer_mapping_def pb_layer_list_def split: if_splits\<close>)
next
  case TtShm
  show ?thesis
    by (rule pb_Register_simp [of ws now "p\<lparr>pb_layers := pb_set_layer_write TlEcalShm True (pb_layers p),
        pb_writer_shm := Some (dw_create (ws_shm ws) (pb_attributes p) (pb_publisher_id p))\<rparr>"])
      (use assms TtShm in \<open>simp add: pb_start_layer_def pb_StartShmLayer_def pb_layers_inv_def pb_set_layer_write_def
        transport_layer_mapping_def pb_layer_list_def split: if_splits\<close>)
next
  case TtTcp
  show ?thesis
    by (rule pb_Register_simp [of ws now "p\<lparr>pb_layers := pb_set_layer_write TlEcalTcp True (pb_layers p),
        pb_writer_tcp := Some (dw_create (ws_tcp ws) (pb_attributes p) (pb_publisher_id p))\<rparr>"])
      (use assms TtTcp in \<open>simp add: pb_start_layer_def pb_StartTcpLayer_def pb_layers_inv_def pb_set_layer_write_def
        transport_layer_mapping_def pb_layer_list_def split: if_splits\<close>)
qed (simp add: pb_start_layer_def assms(1))

text \<open>What writing to a layer leaves alone.\<close>

definition pb_flags :: "layer_states \<Rightarrow> bool \<times> bool \<times> bool" where
  "pb_flags l = (ls_write_enabled (lss_udp l), ls_write_enabled (lss_shm l), ls_write_enabled (lss_tcp l))"

definition pb_same :: "('cb, 'w) publisher \<Rightarrow> ('cb, 'w) publisher \<Rightarrow> bool" where
  "pb_same p q \<longleftrightarrow>
     (pb_writer_udp q = None \<longleftrightarrow> pb_writer_udp p = None) \<and> (pb_writer_shm q = None \<longleftrightarrow> pb_writer_shm p = None) \<and>
     (pb_writer_tcp q = None \<longleftrightarrow> pb_writer_tcp p = None) \<and> pb_flags (pb_layers q) = pb_flags (pb_layers p) \<and>
     pb_attributes q = pb_attributes p \<and> pb_connection_map q = pb_connection_map p \<and>
     pb_connection_count q = pb_connection_count p \<and> pb_payload_buffer q = pb_payload_buffer p \<and>
     pb_clock q = pb_clock p"

lemma pb_same_refl: "pb_same p p"
  by (simp add: pb_same_def)

lemma pb_same_trans: "pb_same p q \<Longrightarrow> pb_same q r \<Longrightarrow> pb_same p r"
  by (simp add: pb_same_def)

lemma pb_same_inv: "pb_same p q \<Longrightarrow> pb_inv p \<Longrightarrow> pb_inv q"
  by (auto simp: pb_same_def pb_inv_def pb_layers_inv_def pb_flags_def pb_GetConnectionCount_def)

definition pb_sent :: "'cb pub_effect list \<Rightarrow> (tlayer_type \<times> u8 list \<times> u64 \<times> i64 \<times> i64 \<times> i64) list" where
  "pb_sent effs = concat (map (\<lambda>ef. case ef of
     PubLayerWrite l b a \<Rightarrow> [(l, b, wa_len a, wa_id a, wa_clock a, wa_time a)] | _ \<Rightarrow> []) effs)"

lemma pb_sent_append [simp]: "pb_sent (a @ b) = pb_sent a @ pb_sent b"
  by (simp add: pb_sent_def)

lemma pb_flags_active [simp]: "pb_flags (pb_set_layer_active t l) = pb_flags l"
  by (cases t) (simp_all add: pb_flags_def pb_set_layer_active_def)

lemma pb_Register_same:
  "pb_same p (fst (pb_Register ws now p))" "pb_sent (snd (pb_Register ws now p)) = []"
  by (rule pb_Register_simp [of ws now p], simp add: pb_same_def pb_sent_def)+

text \<open>
  One layer: nothing without a writer, and otherwise one write of the payload buffer (for shared
  memory with zero copy, of the payload itself).
\<close>

lemma pb_write_shm_spec:
  "pb_same p (fst (snd (pb_write_shm ws now z payload a p)))"
  "pb_sent (snd (snd (pb_write_shm ws now z payload a p))) =
    (if pb_writer_shm p = None then []
     else [(TlEcalShm, if z then payload else pb_payload_buffer p, wa_len a, wa_id a, wa_clock a, wa_time a)])"
proof -
  have "pb_same p (fst (snd (pb_write_shm ws now z payload a p))) \<and>
    pb_sent (snd (snd (pb_write_shm ws now z payload a p))) =
      (if pb_writer_shm p = None then []
       else [(TlEcalShm, if z then payload else pb_payload_buffer p, wa_len a, wa_id a, wa_clock a, wa_time a)])"
  proof (cases "pb_writer_shm p")
    case (Some w)
    let ?p = "p\<lparr>pb_writer_shm := Some (snd (dw_PrepareWrite (ws_shm ws) w
      (a\<lparr>wa_zero_copy := pua_zero_copy_mode (pb_attributes p),
        wa_acknowledge_timeout_ms := ucast (pua_acknowledge_timeout_ms (pb_attributes p))\<rparr>)))\<rparr>"
    show ?thesis
      by (rule pb_Register_simp [of ws now ?p])
        (simp add: Some pb_write_shm_def split_beta Let_def pb_same_def pb_sent_def)
  qed (simp add: pb_write_shm_def pb_same_refl pb_sent_def)
  then show "pb_same p (fst (snd (pb_write_shm ws now z payload a p)))"
    "pb_sent (snd (snd (pb_write_shm ws now z payload a p))) =
      (if pb_writer_shm p = None then []
       else [(TlEcalShm, if z then payload else pb_payload_buffer p, wa_len a, wa_id a, wa_clock a, wa_time a)])"
    by simp_all
qed

lemma pb_write_udp_spec:
  "pb_same p (fst (snd (pb_write_udp ws now a p)))"
  "pb_sent (snd (snd (pb_write_udp ws now a p))) =
    (if pb_writer_udp p = None then []
     else [(TlEcalUdp, pb_payload_buffer p, wa_len a, wa_id a, wa_clock a, wa_time a)])"
proof -
  have "pb_same p (fst (snd (pb_write_udp ws now a p))) \<and>
    pb_sent (snd (snd (pb_write_udp ws now a p))) =
      (if pb_writer_udp p = None then []
       else [(TlEcalUdp, pb_payload_buffer p, wa_len a, wa_id a, wa_clock a, wa_time a)])"
  proof (cases "pb_writer_udp p")
    case (Some w)
    let ?p = "p\<lparr>pb_writer_udp := Some (snd (dw_PrepareWrite (ws_udp ws) w
      (a\<lparr>wa_loopback := pua_loopback (pb_attributes p)\<rparr>)))\<rparr>"
    show ?thesis
      by (rule pb_Register_simp [of ws now ?p])
        (simp add: Some pb_write_udp_def split_beta Let_def pb_same_def pb_sent_def)
  qed (simp add: pb_write_udp_def pb_same_refl pb_sent_def)
  then show "pb_same p (fst (snd (pb_write_udp ws now a p)))"
    "pb_sent (snd (snd (pb_write_udp ws now a p))) =
      (if pb_writer_udp p = None then []
       else [(TlEcalUdp, pb_payload_buffer p, wa_len a, wa_id a, wa_clock a, wa_time a)])"
    by simp_all
qed

lemma pb_write_tcp_spec:
  "pb_same p (fst (snd (pb_write_tcp ws a p)))"
  "pb_sent (snd (snd (pb_write_tcp ws a p))) =
    (if pb_writer_tcp p = None then []
     else [(TlEcalTcp, pb_payload_buffer p, wa_len a, wa_id a, wa_clock a, wa_time a)])"
  by (auto simp: pb_write_tcp_def split_beta Let_def pb_same_def pb_sent_def split: option.splits)

text \<open>The state in which the layers are written to.\<close>

definition pb_prepared :: "(u64 \<Rightarrow> u64) \<Rightarrow> (i64 \<Rightarrow> u64) \<Rightarrow> time_point \<Rightarrow> ('cb, 'w) publisher \<Rightarrow> u8 list \<Rightarrow> i64 \<Rightarrow> ('cb, 'w) publisher" where
  "pb_prepared h1 h2 now p payload fid =
     snd (pb_PrepareWrite h1 h2 now (if \<not> pb_allow_zero_copy p then p\<lparr>pb_payload_buffer := payload\<rparr> else p) fid
       (word_of_nat (length payload)))"

lemma pb_Write_spec:
  shows "pb_same (pb_prepared h1 h2 now p payload fid) (fst (snd (pb_Write ws h1 h2 now p payload t fid)))"
    and "pb_sent (snd (snd (pb_Write ws h1 h2 now p payload t fid))) =
      concat (map (\<lambda>(l, w). if w = None then [] else
        [(l, payload, word_of_nat (length payload), fid, pb_clock p + 1, t)])
        [(TlEcalShm, pb_writer_shm p), (TlEcalUdp, pb_writer_udp p), (TlEcalTcp, pb_writer_tcp p)])"
proof -
  let ?p = "pb_prepared h1 h2 now p payload fid"
  let ?h = "pb_snd_hash h1 h2 (pb_publisher_id p) (pb_clock p + 1)"
  let ?z = "pb_allow_zero_copy p"
  let ?a = "wa_new\<lparr>wa_len := word_of_nat (length payload), wa_id := fid, wa_clock := pb_clock p + 1,
    wa_hash := ?h, wa_time := t\<rparr>"
  let ?p1 = "fst (snd (pb_write_shm ws now ?z payload ?a ?p))"
  let ?p2 = "fst (snd (pb_write_udp ws now ?a ?p1))"
  have p: "pb_writer_shm ?p = pb_writer_shm p" "pb_writer_udp ?p = pb_writer_udp p" "pb_writer_tcp ?p = pb_writer_tcp p"
    "\<not> ?z \<Longrightarrow> pb_payload_buffer ?p = payload"
    by (simp_all add: pb_prepared_def pb_PrepareWrite_def pb_RefreshSendCounter_def Let_def)
  have w: "fst (snd (pb_Write ws h1 h2 now p payload t fid)) = fst (snd (pb_write_tcp ws ?a ?p2))"
    "snd (snd (pb_Write ws h1 h2 now p payload t fid)) =
      snd (snd (pb_write_shm ws now ?z payload ?a ?p)) @ snd (snd (pb_write_udp ws now ?a ?p1)) @
      snd (snd (pb_write_tcp ws ?a ?p2))"
    by (simp_all add: pb_Write_def Let_def split_beta pb_prepared_def pb_PrepareWrite_def pb_RefreshSendCounter_def)
  have s: "pb_same ?p ?p1" "pb_same ?p1 ?p2" by (rule pb_write_shm_spec pb_write_udp_spec)+
  show "pb_same ?p (fst (snd (pb_Write ws h1 h2 now p payload t fid)))"
    unfolding w by (rule pb_same_trans [OF s(1) pb_same_trans [OF s(2) pb_write_tcp_spec(1)]])
  have n: "pb_writer_udp ?p1 = None \<longleftrightarrow> pb_writer_udp p = None" "pb_writer_tcp ?p2 = None \<longleftrightarrow> pb_writer_tcp p = None"
    "pb_payload_buffer ?p1 = pb_payload_buffer ?p" "pb_payload_buffer ?p2 = pb_payload_buffer ?p"
    using s p by (simp_all add: pb_same_def)
  have z: "?z \<Longrightarrow> pb_writer_udp p = None" "?z \<Longrightarrow> pb_writer_tcp p = None" by (simp_all add: pb_allow_zero_copy_def)
  show "pb_sent (snd (snd (pb_Write ws h1 h2 now p payload t fid))) =
      concat (map (\<lambda>(l, w). if w = None then [] else
        [(l, payload, word_of_nat (length payload), fid, pb_clock p + 1, t)])
        [(TlEcalShm, pb_writer_shm p), (TlEcalUdp, pb_writer_udp p), (TlEcalTcp, pb_writer_tcp p)])"
    unfolding w pb_sent_append pb_write_shm_spec(2) pb_write_udp_spec(2) pb_write_tcp_spec(2) n
    using z p by (cases ?z) (auto simp: wa_new_def)
qed

lemma pb_Send_spec:
  assumes "pb_Send ws h1 h2 now micros p payload t = (sent, p', effs)"
  shows "pb_clock p' = pb_clock p + 1 \<and>
    pb_sent effs =
      (if pb_GetSubscriberCount p = 0 then []
       else concat (map (\<lambda>(l, w). if w = None then [] else
         [(l, payload, word_of_nat (length payload), 0, pb_clock p + 1, if t = - 1 then micros else t)])
         [(TlEcalShm, pb_writer_shm p), (TlEcalUdp, pb_writer_udp p), (TlEcalTcp, pb_writer_tcp p)])) \<and>
    (pb_GetSubscriberCount p = 0 \<longrightarrow> \<not> sent)"
proof (cases "pb_GetSubscriberCount p = 0")
  case True
  then show ?thesis using assms by (auto simp: pb_Send_def pb_RefreshSendCounter_def pb_sent_def)
next
  case False
  let ?t = "if t = - 1 then micros else t"
  have w: "pb_Write ws h1 h2 now p payload ?t 0 = (sent, p', effs)" using assms False by (simp add: pb_Send_def)
  have "pb_clock (pb_prepared h1 h2 now p payload 0) = pb_clock p + 1"
    by (simp add: pb_prepared_def pb_PrepareWrite_def pb_RefreshSendCounter_def Let_def)
  then show ?thesis
    using pb_Write_spec(1) [of h1 h2 now p payload 0 ws ?t] pb_Write_spec(2) [of ws h1 h2 now p payload ?t 0] False
    unfolding w by (simp add: pb_same_def)
qed

text \<open>
  C29. A send hands every layer that has a writer, in the order shared memory, UDP, TCP, exactly
  the payload with its length, the time given and the next send clock, whether or not the zero copy
  mode is on; without subscribers no layer gets anything, and the send clock advances all the same.
\<close>

theorem pb_send_delivers:
  assumes "pb_Send ws h1 h2 now micros p payload t = (sent, p', effs)"
  shows "pb_clock p' = pb_clock p + 1 \<and>
    pb_sent effs =
      (if pb_GetSubscriberCount p = 0 then []
       else concat (map (\<lambda>(l, w). if w = None then [] else
         [(l, payload, word_of_nat (length payload), 0, pb_clock p + 1, if t = - 1 then micros else t)])
         [(TlEcalShm, pb_writer_shm p), (TlEcalUdp, pb_writer_udp p), (TlEcalTcp, pb_writer_tcp p)])) \<and>
    (pb_GetSubscriberCount p = 0 \<longrightarrow> \<not> sent)"
  using pb_Send_spec [OF assms] .

definition demo_writer :: "nat data_writer" where
  "demo_writer = (dw_base (\<lambda>_ _. 0))\<lparr>dw_Write := \<lambda>w _ _. (True, Suc w)\<rparr>"

definition demo_writers :: "nat writers" where
  "demo_writers = \<lparr>ws_udp = demo_writer, ws_shm = demo_writer, ws_tcp = demo_writer\<rparr>"

definition demo_publisher :: "(string, nat) publisher" where
  "demo_publisher = (pb_new 3 dti_new demo_pub_attr)\<lparr>pb_connection_count := 1, pb_writer_shm := Some 0\<rparr>"

theorem pb_send_delivers_witness:
  "let (sent, p', effs) = pb_Send demo_writers id id 0 77 demo_publisher [1, 2] (- 1)
   in pb_clock p' = 1 \<and> pb_sent effs = [(TlEcalShm, [1, 2], 2, 0, 1, 77)]"
proof -
  obtain sent p' effs where r: "pb_Send demo_writers id id 0 77 demo_publisher [1, 2] (- 1) = (sent, p', effs)"
    by (cases "pb_Send demo_writers id id 0 77 demo_publisher [1, 2] (- 1)") auto
  show ?thesis unfolding r using pb_send_delivers [OF r]
    by (simp add: demo_publisher_def pb_GetSubscriberCount_def pb_new_def)
qed

subsection \<open>The invariant\<close>

lemma pb_map_writers_simps [simp]:
  "pb_layers_inv (pb_map_writers f ws p) = pb_layers_inv p" "pb_connection_map (pb_map_writers f ws p) = pb_connection_map p"
  by (simp_all add: pb_map_writers_def pb_layers_inv_def)

lemma pb_inv_connect:
  assumes "pb_layers_inv p" "om_invar si_entity_id (pb_connection_map p)"
  shows "pb_inv (fst (pb_connect p sub d sl))"
  using assms by (simp add: pb_connect_def Let_def split_beta pb_inv_def pb_layers_inv_def pb_GetConnectionCount_def
      split: option.split)

lemma pb_inv_registration:
  assumes "pb_inv p"
  shows "pb_inv (fst (pb_ApplySubscriberRegistration ws now p sub d sl par))"
proof -
  let ?p = "p\<lparr>pb_layers := pb_set_read_enabled sl (pb_layers p)\<rparr>" and ?a = "pb_attributes p"
  let ?pl = "pb_layer_list (pua_udp_enable ?a) (pua_shm_enable ?a) (pua_tcp_enable ?a)"
  let ?l = "pb_DetermineTransportLayer2Start ?p ?pl (pb_layer_list (ls_read_enabled (lss_udp sl))
    (ls_read_enabled (lss_shm sl)) (ls_read_enabled (lss_tcp sl))) (pua_host ?a = si_host_name sub)"
  have "?l \<noteq> TtNone \<longrightarrow> transport_layer_mapping ?l \<in> set ?pl"
    unfolding pb_DetermineTransportLayer2Start_def using pb_first_common_cases by blast
  moreover have "pb_layers_inv ?p" using assms
    by (simp add: pb_inv_def pb_layers_inv_def pb_set_read_enabled_def)
  ultimately have "pb_layers_inv (fst (pb_start_layer ws now ?l ?p))"
    "pb_connection_map (fst (pb_start_layer ws now ?l ?p)) = pb_connection_map p"
    using pb_start_layer_inv [of ?p ?l ws now] by auto
  then have "pb_inv (fst (pb_connect (pb_map_writers (\<lambda>dw w. dw_ApplySubscription dw w sub par) ws
      (fst (pb_start_layer ws now ?l ?p))) sub d sl))"
    using assms by (intro pb_inv_connect) (simp_all add: pb_inv_def)
  then show ?thesis by (simp add: pb_ApplySubscriberRegistration_def Let_def split_beta)
qed

lemma pb_inv_exec [ecal_inv]:
  assumes "pb_inv p"
  shows "pb_inv (fst (pb_exec ws h1 h2 now op p))"
proof (cases op)
  case (PbSend micros payload t)
  have "pb_inv (pb_prepared h1 h2 now p payload 0)" "pb_inv (pb_RefreshSendCounter now p)"
    using assms by (simp_all add: pb_prepared_def pb_PrepareWrite_def pb_RefreshSendCounter_def Let_def pb_inv_def
        pb_layers_inv_def pb_GetConnectionCount_def)
  then show ?thesis
    by (auto simp: PbSend pb_exec_def pb_Send_def intro: pb_same_inv [OF pb_Write_spec(1)])
next
  case (PbSubscriberRegistration sub d sl par)
  then show ?thesis using pb_inv_registration [OF assms] by (simp add: pb_exec_def)
next
  case (PbSubscriberUnregistration sub d)
  have "pb_layers_inv (pb_map_writers (\<lambda>dw w. dw_RemoveSubscription dw w sub) ws p)"
    using assms by (simp add: pb_inv_def)
  then show ?thesis using assms PbSubscriberUnregistration
    by (simp add: pb_exec_def pb_ApplySubscriberUnregistration_def Let_def pb_inv_def pb_layers_inv_def
        pb_GetConnectionCount_def)
next
  case PbRegister
  then show ?thesis using pb_same_inv [OF pb_Register_same(1) assms] by (simp add: pb_exec_def)
qed (use assms in \<open>simp_all add: pb_exec_def pb_SetEventCallback_def pb_RemoveEventCallback_def
    pb_SetDataTypeInformation_def pb_inv_def pb_layers_inv_def pb_GetConnectionCount_def\<close>)

lemma pb_reachable_inv: "pb_reachable ws p \<Longrightarrow> pb_inv p"
proof (induction rule: pb_reachable.induct)
  case (pb_reach_new i ti attr)
  show ?case by (simp add: pb_inv_def pb_layers_inv_def pb_new_def lss_new_def ls_new_def pb_GetConnectionCount_def om_invar_def)
qed (rule pb_inv_exec)

text \<open>
  C19. In every reachable state of a publisher a layer is announced as written to exactly while its
  writer exists, only layers enabled in the configuration have a writer, and the subscriber count is
  the number of connections in the connected state.
\<close>

theorem pb_layers_consistent:
  assumes "pb_reachable ws p"
  shows "(pb_writer_udp p \<noteq> None \<longleftrightarrow> ls_write_enabled (lss_udp (pb_layers p))) \<and>
    (pb_writer_shm p \<noteq> None \<longleftrightarrow> ls_write_enabled (lss_shm (pb_layers p))) \<and>
    (pb_writer_tcp p \<noteq> None \<longleftrightarrow> ls_write_enabled (lss_tcp (pb_layers p))) \<and>
    (pb_writer_udp p \<noteq> None \<longrightarrow> pua_udp_enable (pb_attributes p)) \<and>
    (pb_writer_shm p \<noteq> None \<longrightarrow> pua_shm_enable (pb_attributes p)) \<and>
    (pb_writer_tcp p \<noteq> None \<longrightarrow> pua_tcp_enable (pb_attributes p)) \<and>
    pb_GetSubscriberCount p = length (filter (\<lambda>(_, c). scn_state c) (pb_connection_map p))"
  using pb_reachable_inv [OF assms]
  by (simp add: pb_inv_def pb_layers_inv_def pb_GetSubscriberCount_def pb_GetConnectionCount_def)

lemma demo_pub_reachable:
  "pb_reachable demo_writers (fst (pb_exec demo_writers id id 0
     (PbSubscriberRegistration (si_new\<lparr>si_host_name := ''h''\<rparr>) dti_new
       (lss_new\<lparr>lss_shm := ls_new\<lparr>ls_read_enabled := True\<rparr>\<rparr>) []) (pb_new 3 dti_new demo_pub_attr :: (string, nat) publisher)))"
  by (intro pb_reachable.intros)

theorem pb_layers_consistent_witness:
  "let p = fst (pb_exec demo_writers id id 0
     (PbSubscriberRegistration (si_new\<lparr>si_host_name := ''h''\<rparr>) dti_new
       (lss_new\<lparr>lss_shm := ls_new\<lparr>ls_read_enabled := True\<rparr>\<rparr>) []) (pb_new 3 dti_new demo_pub_attr :: (string, nat) publisher))
   in pb_writer_shm p \<noteq> None \<longleftrightarrow> ls_write_enabled (lss_shm (pb_layers p))"
  using pb_layers_consistent [OF demo_pub_reachable] by (simp only: Let_def)

end
