(* ===== verification/Pub_Sub_Gates.thy ===== *)
theory Pub_Sub_Gates
  imports Publisher Sample_Applier "HOL-Library.Multiset"
begin

text \<open>
  \<open>ecal/core/src/pubsub/ecal_subgate.{h,cpp}\<close> and \<open>ecal_pubgate.{h,cpp}\<close>: the objects through which
  incoming samples and registrations reach the subscribers and publishers of a process. The map from
  topic names to objects is a list in iteration order: sorted by name and stable for the \<open>std::multimap\<close>
  of the publishers; for the \<open>std::unordered_multimap\<close> of the subscribers, where the standard leaves the
  place of a new entry open, the operation takes the place as an argument. The gate owns the objects
  (the user's \<open>CSubscriber\<close> holds a weak pointer), so an entry holds the object itself, with the number
  that identifies its \<open>shared_ptr\<close>. Erasing an entry destroys the object.
\<close>

subsection \<open>The multimap\<close>

record 'o gate =
  gt_created :: bool
  gt_map :: "(string \<times> nat \<times> 'o) list"

definition gt_new :: "'o gate" where
  "gt_new = \<lparr>gt_created = False, gt_map = []\<rparr>"

fun mm_emplace :: "(string \<times> 'v) list \<Rightarrow> string \<Rightarrow> 'v \<Rightarrow> (string \<times> 'v) list" where
  "mm_emplace [] k v = [(k, v)]"
| "mm_emplace ((k', w) # m) k v = (if k < k' then (k, v) # (k', w) # m else (k', w) # mm_emplace m k v)"

text \<open>\<open>std::unordered_multimap::emplace\<close>: the entry comes to stand at some place \<open>pos\<close>.\<close>

definition um_emplace :: "nat \<Rightarrow> (string \<times> 'v) list \<Rightarrow> string \<Rightarrow> 'v \<Rightarrow> (string \<times> 'v) list" where
  "um_emplace pos m k v = take pos m @ (k, v) # drop pos m"

definition mm_equal_range :: "(string \<times> 'v) list \<Rightarrow> string \<Rightarrow> 'v list" where
  "mm_equal_range m k = map snd (filter (\<lambda>(k', _). k' = k) m)"

text \<open>A loop over the range of a name that calls an operation on each object, in order.\<close>

fun mm_visit :: "('o \<Rightarrow> 'o \<times> 'e list) \<Rightarrow> string \<Rightarrow> (string \<times> nat \<times> 'o) list \<Rightarrow> (string \<times> nat \<times> 'o) list \<times> 'e list" where
  "mm_visit f k [] = ([], [])"
| "mm_visit f k ((k', r, x) # m) =
     (if k' = k
      then (let (x', e) = f x; (m', es) = mm_visit f k m in ((k', r, x') # m', e @ es))
      else (let (m', es) = mm_visit f k m in ((k', r, x) # m', es)))"

text \<open>Erase the first entry of the range that holds object \<open>r\<close>; the erased object is returned.\<close>

fun mm_erase_ref :: "(string \<times> nat \<times> 'o) list \<Rightarrow> string \<Rightarrow> nat \<Rightarrow> (string \<times> nat \<times> 'o) list \<times> 'o option" where
  "mm_erase_ref [] k r = ([], None)"
| "mm_erase_ref ((k', r', x) # m) k r =
     (if k' = k \<and> r' = r then (m, Some x)
      else (let (m', y) = mm_erase_ref m k r in ((k', r', x) # m', y)))"

subsection \<open>CSubGate\<close>

type_synonym 'cb sub_gate = "'cb subscriber gate"

definition sg_Start :: "'cb sub_gate \<Rightarrow> 'cb sub_gate" where
  "sg_Start g = (if gt_created g then g else g\<lparr>gt_created := True\<rparr>)"

definition sg_Stop :: "'cb sub_gate \<Rightarrow> 'cb sub_gate \<times> 'cb sub_effect list" where
  "sg_Stop g =
     (if \<not> gt_created g then (g, [])
      else (g\<lparr>gt_map := [], gt_created := False\<rparr>,
        concat (map (\<lambda>(_, _, s). snd (sb_destroy s)) (gt_map g))))"

definition sg_Register :: "nat \<Rightarrow> 'cb sub_gate \<Rightarrow> string \<Rightarrow> nat \<Rightarrow> 'cb subscriber \<Rightarrow> bool \<times> 'cb sub_gate" where
  "sg_Register pos g topic_name r s =
     (if \<not> gt_created g then (False, g)
      else (True, g\<lparr>gt_map := um_emplace pos (gt_map g) topic_name (r, s)\<rparr>))"

definition sg_Unregister :: "'cb sub_gate \<Rightarrow> string \<Rightarrow> nat \<Rightarrow> bool \<times> 'cb sub_gate \<times> 'cb sub_effect list" where
  "sg_Unregister g topic_name r =
     (if \<not> gt_created g then (False, g, [])
      else case mm_erase_ref (gt_map g) topic_name r of
          (m, None) \<Rightarrow> (False, g\<lparr>gt_map := m\<rparr>, [])
        | (m, Some s) \<Rightarrow> (True, g\<lparr>gt_map := m\<rparr>, snd (sb_destroy s)))"

definition sg_HasSample :: "'cb sub_gate \<Rightarrow> string \<Rightarrow> bool" where
  "sg_HasSample g sample_name \<longleftrightarrow> mm_equal_range (gt_map g) sample_name \<noteq> []"

text \<open>
  The loop \<open>applied_size = reader->ApplySample(...)\<close> over the readers of the topic; \<open>now\<close> and \<open>oo\<close>
  as for the subscriber.
\<close>

fun sg_apply_readers ::
  "('cb subscriber \<Rightarrow> u64 \<times> 'cb subscriber \<times> 'cb sub_effect list) \<Rightarrow> string \<Rightarrow> u64 \<Rightarrow>
   (string \<times> nat \<times> 'cb subscriber) list \<Rightarrow> u64 \<times> (string \<times> nat \<times> 'cb subscriber) list \<times> 'cb sub_effect list" where
  "sg_apply_readers f k n [] = (n, [], [])"
| "sg_apply_readers f k n ((k', r, s) # m) =
     (if k' = k
      then (let (n, s', e) = f s; (n, m', es) = sg_apply_readers f k n m
        in (n, (k', r, s') # m', e @ es))
      else (let (n, m', es) = sg_apply_readers f k n m in (n, (k', r, s) # m', es)))"

definition sg_ApplySample ::
  "time_point \<Rightarrow> bool \<Rightarrow> 'cb sub_gate \<Rightarrow> topic_info \<Rightarrow> u8 list \<Rightarrow> i64 \<Rightarrow> i64 \<Rightarrow> i64 \<Rightarrow> tlayer_type \<Rightarrow>
   bool \<times> 'cb sub_gate \<times> 'cb sub_effect list" where
  "sg_ApplySample now oo g ti buf i clock t layer =
     (if \<not> gt_created g then (False, g, [])
      else (let (applied_size, m, effs) =
          sg_apply_readers (\<lambda>s. sb_ApplySample now oo s ti buf i clock t layer) (pti_topic_name ti) 0 (gt_map g)
        in (applied_size > 0, g\<lparr>gt_map := m\<rparr>, effs)))"

text \<open>
  The variant for a serialized sample. \<open>deserialize\<close> is \<open>DeserializeFromBuffer\<close>. A payload of
  neither kind is the null pointer with size 0: no bytes.
\<close>

definition payload_bytes :: "payload \<Rightarrow> u8 list" where
  "payload_bytes p =
     (case pl_type p of
        PlRaw \<Rightarrow> (case pl_raw_addr p of None \<Rightarrow> [] | Some bs \<Rightarrow> take (unat (pl_raw_size p)) bs)
      | PlVec \<Rightarrow> pl_vec p
      | PlNone \<Rightarrow> [])"

definition sg_ApplySerializedSample ::
  "(u8 list \<Rightarrow> payload_sample option) \<Rightarrow> time_point \<Rightarrow> bool \<Rightarrow> 'cb sub_gate \<Rightarrow> u8 list \<Rightarrow> tlayer_type \<Rightarrow>
   bool \<times> 'cb sub_gate \<times> 'cb sub_effect list" where
  "sg_ApplySerializedSample deserialize now oo g buf layer =
     (if \<not> gt_created g then (False, g, [])
      else case deserialize buf of
          None \<Rightarrow> (False, g, [])
        | Some s \<Rightarrow>
            (if ps_cmd_type s = BctSetSample
             then (let c = ps_content s;
                    (applied_size, m, effs) =
                      sg_apply_readers (\<lambda>sub. sb_ApplySample now oo sub (ps_topic_info s) (payload_bytes (ct_payload c))
                        (ct_id c) (ct_clock c) (ct_time c) layer) (pti_topic_name (ps_topic_info s)) 0 (gt_map g)
                in (applied_size > 0, g\<lparr>gt_map := m\<rparr>, effs))
             else (False, g, [])))"

text \<open>The layer states from the transport layers of a registration, for either direction.\<close>

definition set_layer_state ::
  "(layer_state \<Rightarrow> layer_state) \<Rightarrow> layer_states \<Rightarrow> tlayer \<Rightarrow> layer_states" where
  "set_layer_state f ls l =
     (if tl_enabled l \<or> tl_version l <s 2
      then (case tl_type l of
          TlEcalUdp \<Rightarrow> ls\<lparr>lss_udp := f (lss_udp ls)\<rparr>
        | TlEcalShm \<Rightarrow> ls\<lparr>lss_shm := f (lss_shm ls)\<rparr>
        | TlEcalTcp \<Rightarrow> ls\<lparr>lss_tcp := f (lss_tcp ls)\<rparr>
        | _ \<Rightarrow> ls)
      else ls)"

definition sg_layer_states :: "tlayer evec \<Rightarrow> layer_states" where
  "sg_layer_states v = foldl (set_layer_state (\<lambda>l. l\<lparr>ls_write_enabled := True\<rparr>)) lss_new (ev_list v)"

definition sg_ApplyPublisherRegistration :: "'cb sub_gate \<Rightarrow> sample \<Rightarrow> 'cb sub_gate \<times> 'cb sub_effect list" where
  "sg_ApplyPublisherRegistration g sa =
     (let tp = sa_topic sa in
      if \<not> gt_created g then (g, [])
      else if tp_topic_name tp = [] then (g, [])
      else (let states = sg_layer_states (tp_transport_layer tp);
                (m, effs) = mm_visit (\<lambda>s.
                  let par_effs = concat (map (\<lambda>l. sb_ApplyLayerParameter s (sa_identifier sa) (tl_type l) (tl_par_layer l))
                        (ev_list (tp_transport_layer tp)));
                      (s', effs) = sb_ApplyPublisherRegistration s (sa_identifier sa) (tp_datatype_information tp) states
                  in (s', par_effs @ effs)) (tp_topic_name tp) (gt_map g)
            in (g\<lparr>gt_map := m\<rparr>, effs)))"

definition sg_ApplyPublisherUnregistration :: "'cb sub_gate \<Rightarrow> sample \<Rightarrow> 'cb sub_gate \<times> 'cb sub_effect list" where
  "sg_ApplyPublisherUnregistration g sa =
     (let tp = sa_topic sa in
      if \<not> gt_created g then (g, [])
      else if tp_topic_name tp = [] then (g, [])
      else (let (m, effs) = mm_visit
              (\<lambda>s. sb_ApplyPublisherUnregistration s (sa_identifier sa) (tp_datatype_information tp))
              (tp_topic_name tp) (gt_map g)
        in (g\<lparr>gt_map := m\<rparr>, effs)))"

text \<open>Every subscriber writes into the element \<open>push_back()\<close> hands out.\<close>

definition back_or :: "'a \<Rightarrow> 'a evec \<Rightarrow> 'a" where
  "back_or d v = (case ev_back v of Inr x \<Rightarrow> x | Inl _ \<Rightarrow> d)"

definition sg_GetRegistrations ::
  "time_point \<Rightarrow> 'cb sub_gate \<Rightarrow> sample_list \<Rightarrow> sample_list \<times> 'cb sub_gate \<times> 'cb sub_effect list" where
  "sg_GetRegistrations now g v =
     (if \<not> gt_created g then (v, g, [])
      else (let (v, m, effs) = foldl (\<lambda>(v, m, effs) (k, r, s).
                let v = ev_push_back_ref sa_new v; (sa, s', e) = sb_GetRegistrationSample now s (back_or sa_new v)
                in (ev_set_back v (\<lambda>_. sa), m @ [(k, r, s')], effs @ e)) (v, [], []) (gt_map g)
        in (v, g\<lparr>gt_map := m\<rparr>, effs)))"

subsection \<open>CPubGate\<close>

type_synonym ('cb, 'w) pub_gate = "('cb, 'w) publisher gate"

definition pg_Start :: "('cb, 'w) pub_gate \<Rightarrow> ('cb, 'w) pub_gate" where
  "pg_Start g = (if gt_created g then g else g\<lparr>gt_created := True\<rparr>)"

definition pg_Stop :: "('cb, 'w) pub_gate \<Rightarrow> ('cb, 'w) pub_gate \<times> 'cb pub_effect list" where
  "pg_Stop g =
     (if \<not> gt_created g then (g, [])
      else (g\<lparr>gt_map := [], gt_created := False\<rparr>,
        concat (map (\<lambda>(_, _, p). snd (pb_destroy p)) (gt_map g))))"

definition pg_Register :: "('cb, 'w) pub_gate \<Rightarrow> string \<Rightarrow> nat \<Rightarrow> ('cb, 'w) publisher \<Rightarrow> bool \<times> ('cb, 'w) pub_gate" where
  "pg_Register g topic_name r p =
     (if \<not> gt_created g then (False, g)
      else (True, g\<lparr>gt_map := mm_emplace (gt_map g) topic_name (r, p)\<rparr>))"

definition pg_Unregister :: "('cb, 'w) pub_gate \<Rightarrow> string \<Rightarrow> nat \<Rightarrow> bool \<times> ('cb, 'w) pub_gate \<times> 'cb pub_effect list" where
  "pg_Unregister g topic_name r =
     (if \<not> gt_created g then (False, g, [])
      else case mm_erase_ref (gt_map g) topic_name r of
          (m, None) \<Rightarrow> (False, g\<lparr>gt_map := m\<rparr>, [])
        | (m, Some p) \<Rightarrow> (True, g\<lparr>gt_map := m\<rparr>, snd (pb_destroy p)))"

definition pg_layer_states :: "tlayer evec \<Rightarrow> layer_states" where
  "pg_layer_states v = foldl (set_layer_state (\<lambda>l. l\<lparr>ls_read_enabled := True\<rparr>)) lss_new (ev_list v)"

definition pg_ApplySubscriberRegistration ::
  "'w writers \<Rightarrow> time_point \<Rightarrow> ('cb, 'w) pub_gate \<Rightarrow> sample \<Rightarrow> ('cb, 'w) pub_gate \<times> 'cb pub_effect list" where
  "pg_ApplySubscriberRegistration ws now g sa =
     (let tp = sa_topic sa in
      if \<not> gt_created g then (g, [])
      else if tp_topic_name tp = [] then (g, [])
      else (let (m, effs) = mm_visit
              (\<lambda>p. pb_ApplySubscriberRegistration ws now p (sa_identifier sa) (tp_datatype_information tp)
                (pg_layer_states (tp_transport_layer tp)) [])
              (tp_topic_name tp) (gt_map g)
        in (g\<lparr>gt_map := m\<rparr>, effs)))"

definition pg_ApplySubscriberUnregistration ::
  "'w writers \<Rightarrow> ('cb, 'w) pub_gate \<Rightarrow> sample \<Rightarrow> ('cb, 'w) pub_gate \<times> 'cb pub_effect list" where
  "pg_ApplySubscriberUnregistration ws g sa =
     (let tp = sa_topic sa in
      if \<not> gt_created g then (g, [])
      else if tp_topic_name tp = [] then (g, [])
      else (let (m, effs) = mm_visit
              (\<lambda>p. pb_ApplySubscriberUnregistration ws p (sa_identifier sa) (tp_datatype_information tp))
              (tp_topic_name tp) (gt_map g)
        in (g\<lparr>gt_map := m\<rparr>, effs)))"

definition pg_GetRegistrations ::
  "'w writers \<Rightarrow> time_point \<Rightarrow> ('cb, 'w) pub_gate \<Rightarrow> sample_list \<Rightarrow> sample_list \<times> ('cb, 'w) pub_gate" where
  "pg_GetRegistrations ws now g v =
     (if \<not> gt_created g then (v, g)
      else (let (v, m) = foldl (\<lambda>(v, m) (k, r, p).
                let v = ev_push_back_ref sa_new v; (sa, p') = pb_GetRegistrationSample ws now p (back_or sa_new v)
                in (ev_set_back v (\<lambda>_. sa), m @ [(k, r, p')])) (v, []) (gt_map g)
        in (v, g\<lparr>gt_map := m\<rparr>)))"

subsection \<open>The multimap\<close>

lemma mm_range_emplace:
  "sorted (map fst m) \<Longrightarrow> mm_equal_range (mm_emplace m k v) k' =
    (if k' = k then mm_equal_range m k' @ [v] else mm_equal_range m k')"
proof (induction m k v rule: mm_emplace.induct)
  case (2 l w m k v)
  show ?case
  proof (cases "k < l")
    case True
    then have "filter (\<lambda>(k', _). k' = k) m = []" using 2 by (fastforce simp: filter_empty_conv)
    then show ?thesis using True by (auto simp: mm_equal_range_def)
  next
    case False
    then show ?thesis using 2 by (auto simp: mm_equal_range_def)
  qed
qed (simp add: mm_equal_range_def)

lemma mm_sorted_emplace: "sorted (map fst m) \<Longrightarrow> sorted (map fst (mm_emplace m k v))"
proof (induction m k v rule: mm_emplace.induct)
  case (2 k' w m k v)
  have "set (mm_emplace m k v) = insert (k, v) (set m)" for m :: "(string \<times> 'a) list" and k v
    by (induction m k v rule: mm_emplace.induct) auto
  then show ?case using 2 by fastforce
qed simp

lemma mm_erase_emplace:
  "(\<And>x. (k, r, x) \<notin> set m) \<Longrightarrow> mm_erase_ref (mm_emplace m k (r, y)) k r = (m, Some y)"
proof (induction m)
  case (Cons e m)
  obtain k' r' x where e: "e = (k', r', x)" by (cases e)
  show ?case
  proof (cases "k' = k \<and> r' = r")
    case True
    then show ?thesis using Cons.prems [of x] by (simp add: e)
  next
    case False
    then have "mm_erase_ref (mm_emplace m k (r, y)) k r = (m, Some y)"
      using Cons.prems by (intro Cons.IH) auto
    then show ?thesis using False by (auto simp: e)
  qed
qed simp

lemma um_range_emplace:
  "mset (mm_equal_range (um_emplace pos m k v) k') =
    mset (mm_equal_range m k') + (if k' = k then {#v#} else {#})"
proof -
  have "filter (\<lambda>(l, _). l = k') m = filter (\<lambda>(l, _). l = k') (take pos m) @ filter (\<lambda>(l, _). l = k') (drop pos m)"
    by (simp flip: filter_append)
  then show ?thesis by (simp add: mm_equal_range_def um_emplace_def)
qed

lemma mm_erase_mid:
  "\<forall>x. (k, r, x) \<notin> set m \<Longrightarrow> mm_erase_ref (m @ (k, r, y) # m') k r = (m @ m', Some y)"
  by (induction m) (auto split: prod.splits)

lemma um_erase_emplace:
  "(\<And>x. (k, r, x) \<notin> set m) \<Longrightarrow> mm_erase_ref (um_emplace pos m k (r, y)) k r = (m, Some y)"
  unfolding um_emplace_def by (subst mm_erase_mid) (auto dest: in_set_takeD)

lemma mm_visit_map:
  "mm_visit f k m = (map (\<lambda>(k', r, x). (k', r, if k' = k then fst (f x) else x)) m,
    concat (map (\<lambda>x. snd (f x)) (map snd (mm_equal_range m k))))"
proof (induction m)
  case (Cons e m)
  then show ?case by (cases e) (simp add: mm_equal_range_def split_beta Let_def)
qed (simp add: mm_equal_range_def)

lemma sg_apply_readers_map:
  "sg_apply_readers f k n m =
    (case map snd (mm_equal_range m k) of [] \<Rightarrow> n | ss \<Rightarrow> fst (f (last ss)),
     map (\<lambda>(k', r, x). (k', r, if k' = k then fst (snd (f x)) else x)) m,
     concat (map (\<lambda>x. snd (snd (f x))) (map snd (mm_equal_range m k))))"
proof (induction m arbitrary: n)
  case (Cons e m)
  then show ?case by (cases e) (simp add: mm_equal_range_def split_beta Let_def split: list.split)
qed (simp add: mm_equal_range_def)

text \<open>The readers of a topic are the readers registered for it, in the order the map lists them.\<close>

definition gt_objects :: "'o gate \<Rightarrow> string \<Rightarrow> 'o list" where
  "gt_objects g k = map snd (mm_equal_range (gt_map g) k)"

text \<open>
  A sample reaches exactly the subscribers of its topic, each once and in the order of the map,
  and leaves all others as they are; the result of the gate is that of the last subscriber
  alone, whatever the others did with the sample.
\<close>

theorem sg_dispatch:
  assumes "gt_created g" "sg_ApplySample now oo g ti buf i clock t layer = (applied, g', effs)"
  shows "gt_map g' = map (\<lambda>(k, r, s). (k, r, if k = pti_topic_name ti
        then fst (snd (sb_ApplySample now oo s ti buf i clock t layer)) else s)) (gt_map g) \<and>
    effs = concat (map (\<lambda>s. snd (snd (sb_ApplySample now oo s ti buf i clock t layer))) (gt_objects g (pti_topic_name ti))) \<and>
    (applied \<longleftrightarrow> (case gt_objects g (pti_topic_name ti) of [] \<Rightarrow> False
       | ss \<Rightarrow> 0 < fst (sb_ApplySample now oo (last ss) ti buf i clock t layer)))"
  using assms by (auto simp: sg_ApplySample_def sg_apply_readers_map gt_objects_def split: list.splits)

definition demo_sub_gate :: "string sub_gate" where
  "demo_sub_gate = snd (sg_Register 1 (snd (sg_Register 0 (sg_Start gt_new) ''t'' 0 demo_sub)) ''t'' 1
     (fst (sb_new 10 dti_new (demo_sub_attr\<lparr>sua_shm_enable := False\<rparr>))))"

text \<open>
  The witness: two subscribers of one topic, the second without the shared memory layer. The first
  applies the sample, the gate says that it was not applied.
\<close>

theorem sg_dispatch_witness:
  "let (applied, g', effs) = sg_ApplySample 0 True demo_sub_gate demo_info [1, 2] 0 7 0 TlEcalShm
   in \<not> applied \<and> length effs = 1"
proof -
  let ?s2 = "fst (sb_new 10 dti_new (demo_sub_attr\<lparr>sua_shm_enable := False\<rparr>)) :: string subscriber"
  obtain applied g' effs where r: "sg_ApplySample 0 True demo_sub_gate demo_info [1, 2] 0 7 0 TlEcalShm = (applied, g', effs)"
    by (cases "sg_ApplySample 0 True demo_sub_gate demo_info [1, 2] 0 7 0 TlEcalShm") auto
  have g: "gt_created demo_sub_gate" "gt_objects demo_sub_gate ''t'' = [demo_sub, ?s2]"
    by (simp_all add: demo_sub_gate_def sg_Register_def sg_Start_def gt_new_def gt_objects_def mm_equal_range_def um_emplace_def)
  have s2: "sb_ApplySample 0 True ?s2 demo_info [1, 2] 0 7 0 TlEcalShm = (0, ?s2, [])"
    by (simp add: sb_ApplySample_def sb_new_def sb_StartTransportLayer_def Let_def sb_ShouldApplySampleBasedOnLayer_def)
  have "length (snd (snd (sb_ApplySample 0 True demo_sub demo_info [1, 2] 0 7 0 TlEcalShm))) = 1"
    by (rule sb_ApplySample_callback [OF sb_reachable_inv [OF demo_sub_reachable] demo_sub_accepts, of 0 True demo_info "[1, 2]" 7 0])
      simp
  moreover have "pti_topic_name demo_info = ''t''" by (simp add: demo_info_def)
  ultimately show ?thesis using sg_dispatch [OF g(1) r] g(2) s2 by (simp add: r)
qed

text \<open>
  Registering a subscriber and unregistering it again gives back the map as it was and
  destroys the subscriber, which announces its unregistration.
\<close>

theorem sg_register_unregister:
  assumes "gt_created g" "\<And>x. (k, r, x) \<notin> set (gt_map g)" "sb_created s"
    "sg_Register pos g k r s = (ok1, g1)" "sg_Unregister g1 k r = (ok2, g2, effs)"
  shows "ok1 \<and> ok2 \<and> g2 = g \<and> SubUnregister (sb_GetUnregistrationSample s sa_new) \<in> set effs"
proof -
  have g1: "g1 = g\<lparr>gt_map := um_emplace pos (gt_map g) k (r, s)\<rparr>" "ok1"
    using assms(1,4) by (simp_all add: sg_Register_def)
  then have "ok2" "g2 = g" "effs = snd (sb_destroy s)"
    using assms(1,5) um_erase_emplace [of k r "gt_map g" pos s, OF assms(2)] by (auto simp: sg_Unregister_def)
  then show ?thesis using assms(3) g1(2)
    by (simp add: sb_destroy_def sb_StopTransportLayer_def sb_Unregister_def Let_def
        sb_GetUnregistrationSample_def sb_identifier_def)
qed

theorem sg_register_unregister_witness:
  "let g = sg_Start gt_new; (ok1, g1) = sg_Register 0 g ''t'' 0 demo_sub; (ok2, g2, effs) = sg_Unregister g1 ''t'' 0
   in ok1 \<and> ok2 \<and> g2 = g \<and> SubUnregister (sb_GetUnregistrationSample demo_sub sa_new) \<in> set effs"
proof -
  let ?g = "sg_Start gt_new :: string sub_gate"
  obtain ok1 g1 where a: "sg_Register 0 ?g ''t'' 0 demo_sub = (ok1, g1)" by (cases "sg_Register 0 ?g ''t'' 0 demo_sub")
  obtain ok2 g2 effs where b: "sg_Unregister g1 ''t'' 0 = (ok2, g2, effs)" by (cases "sg_Unregister g1 ''t'' 0") auto
  have "sb_created demo_sub" using demo_sub_accepts(1) by (simp add: sb_accepts_def)
  from sg_register_unregister [OF _ _ this a b] have "ok1 \<and> ok2 \<and> g2 = ?g \<and>
      SubUnregister (sb_GetUnregistrationSample demo_sub sa_new) \<in> set effs"
    by (simp add: sg_Start_def gt_new_def)
  then show ?thesis by (simp add: a b Let_def)
qed

end
