(* ===== verification/Handshake.thy ===== *)
theory Handshake
  imports Pub_Sub_Gates
begin

text \<open>
  A publisher and a subscriber that hear each other's registrations: what the registrations say about the
  transport layers, and what two rounds of them establish. The definitions composed here are those of
  \<open>Publisher\<close>, \<open>Subscriber\<close> and \<open>Pub_Sub_Gates\<close>.
\<close>

subsection \<open>What a registration says about the layers\<close>

text \<open>The write flags alone, and the read flags alone.\<close>

definition lss_written :: "layer_states \<Rightarrow> layer_states" where
  "lss_written l = \<lparr>lss_udp = ls_new\<lparr>ls_write_enabled := ls_write_enabled (lss_udp l)\<rparr>,
     lss_shm = ls_new\<lparr>ls_write_enabled := ls_write_enabled (lss_shm l)\<rparr>,
     lss_tcp = ls_new\<lparr>ls_write_enabled := ls_write_enabled (lss_tcp l)\<rparr>\<rparr>"

definition lss_readable :: "layer_states \<Rightarrow> layer_states" where
  "lss_readable l = \<lparr>lss_udp = ls_new\<lparr>ls_read_enabled := ls_read_enabled (lss_udp l)\<rparr>,
     lss_shm = ls_new\<lparr>ls_read_enabled := ls_read_enabled (lss_shm l)\<rparr>,
     lss_tcp = ls_new\<lparr>ls_read_enabled := ls_read_enabled (lss_tcp l)\<rparr>\<rparr>"

lemma tl_sa_new [simp]: "tp_transport_layer (sa_topic sa_new) = ev_new"
  by (simp add: sa_new_def tp_new_def)

lemma sb_layers_announced:
  "pg_layer_states (tp_transport_layer (sa_topic (fst (sb_GetRegistrationSample now s sa_new)))) = lss_readable (sb_layers s)"
proof -
  have "ev_list (tp_transport_layer (sa_topic (fst (sb_GetRegistrationSample now s sa_new)))) =
      [sb_tlayer TlEcalUdp (lss_udp (sb_layers s)), sb_tlayer TlEcalShm (lss_shm (sb_layers s)),
       sb_tlayer TlEcalTcp (lss_tcp (sb_layers s))]"
    by (simp add: sb_GetRegistrationSample_def Let_def split_beta)
  then show ?thesis
    by (simp add: pg_layer_states_def set_layer_state_def sb_tlayer_def lss_readable_def lss_new_def ls_new_def)
qed

lemma pb_layers_announced:
  assumes "pb_layers_inv p"
  shows "sg_layer_states (tp_transport_layer (sa_topic (fst (pb_GetRegistrationSample ws now p sa_new)))) = lss_written (pb_layers p)"
proof -
  have "ev_list (tp_transport_layer (sa_topic (fst (pb_GetRegistrationSample ws now p sa_new)))) = ev_list (pb_push_layers ws p ev_new)"
    by (simp add: pb_GetRegistrationSample_def Let_def split_beta)
  also have "foldl (set_layer_state (\<lambda>l. l\<lparr>ls_write_enabled := True\<rparr>)) lss_new (ev_list (pb_push_layers ws p ev_new)) =
      lss_written (pb_layers p)"
    using assms by (cases "pb_writer_udp p"; cases "pb_writer_shm p"; cases "pb_writer_tcp p")
      (simp_all add: pb_push_layers_def Let_def set_layer_state_def pb_tlayer_def lss_written_def lss_new_def ls_new_def
        pb_layers_inv_def)
  finally show ?thesis by (simp add: sg_layer_states_def)
qed

text \<open>
  The layers a gate reads out of a registration are the layers of the object that registered:
  a publisher's registration says exactly which layers it writes to, a subscriber's exactly which
  it reads from, whatever happened to the two before.
\<close>

theorem layers_announced:
  assumes "pb_reachable ws p"
  shows "sg_layer_states (tp_transport_layer (sa_topic (fst (pb_GetRegistrationSample ws now p sa_new)))) =
      lss_written (pb_layers p) \<and>
    pg_layer_states (tp_transport_layer (sa_topic (fst (sb_GetRegistrationSample now s sa_new)))) =
      lss_readable (sb_layers s)"
  using pb_layers_announced sb_layers_announced pb_reachable_inv [OF assms] by (auto simp: pb_inv_def)

theorem layers_announced_witness:
  "pg_layer_states (tp_transport_layer (sa_topic (fst (sb_GetRegistrationSample 0 demo_sub sa_new)))) =
    lss_readable (sb_layers demo_sub)"
  using layers_announced [OF demo_pub_reachable, of 0 demo_sub] by blast

subsection \<open>The handshake\<close>

text \<open>
  One round of registrations: the subscriber registers and the publisher's gate applies it, then
  the publisher registers and the subscriber's gate applies it.
\<close>

definition exchange ::
  "'w writers \<Rightarrow> time_point \<Rightarrow> ('cb, 'w) publisher \<times> 'cb2 subscriber \<Rightarrow> ('cb, 'w) publisher \<times> 'cb2 subscriber" where
  "exchange ws now = (\<lambda>(p, s).
     let (sa, s, _) = sb_GetRegistrationSample now s sa_new;
         (p, _) = pb_ApplySubscriberRegistration ws now p (sa_identifier sa)
           (tp_datatype_information (sa_topic sa)) (pg_layer_states (tp_transport_layer (sa_topic sa))) [];
         (sa, p) = pb_GetRegistrationSample ws now p sa_new;
         (s, _) = sb_ApplyPublisherRegistration s (sa_identifier sa)
           (tp_datatype_information (sa_topic sa)) (sg_layer_states (tp_transport_layer (sa_topic sa)))
     in (p, s))"

text \<open>The layer a publisher chooses for a subscriber.\<close>

definition chosen_layer :: "('cb, 'w) publisher \<Rightarrow> 'cb2 subscriber \<Rightarrow> transport_type" where
  "chosen_layer p s =
     (let a = pb_attributes p; l = sb_layers s in
      pb_DetermineTransportLayer2Start p
        (pb_layer_list (pua_udp_enable a) (pua_shm_enable a) (pua_tcp_enable a))
        (pb_layer_list (ls_read_enabled (lss_udp l)) (ls_read_enabled (lss_shm l)) (ls_read_enabled (lss_tcp l)))
        (pua_host a = sua_host (sb_attributes s)))"

definition layer_written :: "transport_type \<Rightarrow> layer_states \<Rightarrow> bool" where
  "layer_written l ls =
     (case l of TtNone \<Rightarrow> False | TtShm \<Rightarrow> ls_write_enabled (lss_shm ls)
      | TtUdpMc \<Rightarrow> ls_write_enabled (lss_udp ls) | TtTcp \<Rightarrow> ls_write_enabled (lss_tcp ls))"

definition pub_key :: "('cb, 'w) publisher \<Rightarrow> sample_identifier" where
  "pub_key p = pb_identifier p si_new"

definition sub_key :: "'cb subscriber \<Rightarrow> sample_identifier" where
  "sub_key s = sb_identifier s si_new"

lemma sb_registration_shape:
  obtains sa s' effs where "sb_GetRegistrationSample now s sa_new = (sa, s', effs)"
    "sa_identifier sa = sub_key s" "sb_touched s (sb_connection_map s')"
    "sb_layers s' = sb_layers s" "sb_attributes s' = sb_attributes s" "sb_subscriber_id s' = sb_subscriber_id s"
    "sb_connection_count s' = sb_connection_count s" "sb_counter_map s' = sb_counter_map s"
    "pg_layer_states (tp_transport_layer (sa_topic sa)) = lss_readable (sb_layers s)"
proof -
  obtain sa s' effs where g: "sb_GetRegistrationSample now s sa_new = (sa, s', effs)"
    by (cases "sb_GetRegistrationSample now s sa_new") auto
  obtain mp r dm e where r: "sb_Register now s =
      (s\<lparr>sb_connection_map := mp, sb_frequency_calculator := r, sb_message_drop_map := dm\<rparr>, e)" "sb_touched s mp"
    by (rule sb_Register_shape)
  have s': "s' = s\<lparr>sb_connection_map := mp, sb_frequency_calculator := r, sb_message_drop_map := dm\<rparr>"
    using r(1) by (simp add: sb_Register_def g)
  have "sa_identifier sa = sb_identifier s' si_new"
    using g by (auto simp: sb_GetRegistrationSample_def Let_def split_beta sa_new_def)
  then have "sa_identifier sa = sub_key s" by (simp add: sub_key_def s' sb_identifier_def)
  moreover have "pg_layer_states (tp_transport_layer (sa_topic sa)) = lss_readable (sb_layers s)"
    using sb_layers_announced [of now s] by (simp add: g)
  ultimately show ?thesis using r(2) by (intro that [OF g]) (simp_all add: s')
qed

lemma pb_registration_shape:
  assumes "pb_layers_inv p"
  obtains sa r where "pb_GetRegistrationSample ws now p sa_new = (sa, p\<lparr>pb_frequency_calculator := r\<rparr>)"
    "sa_identifier sa = pub_key p" "sg_layer_states (tp_transport_layer (sa_topic sa)) = lss_written (pb_layers p)"
proof -
  obtain f r where fr: "rfc_getFrequency (pb_frequency_calculator p) now = (f, r)"
    by (cases "rfc_getFrequency (pb_frequency_calculator p) now")
  obtain sa p' where g: "pb_GetRegistrationSample ws now p sa_new = (sa, p')"
    by (cases "pb_GetRegistrationSample ws now p sa_new")
  have "p' = p\<lparr>pb_frequency_calculator := r\<rparr>" "sa_identifier sa = pub_key p"
    using g by (auto simp: pb_GetRegistrationSample_def pb_GetFrequency_def fr Let_def pub_key_def
        pb_identifier_def sa_new_def)
  then show ?thesis using g pb_layers_announced [OF assms, of ws now] by (intro that) simp_all
qed

lemma pb_start_layer_written:
  "l \<noteq> TtNone \<Longrightarrow> layer_written l (pb_layers (fst (pb_start_layer ws now l p)))"
  "pb_publisher_id (fst (pb_start_layer ws now l p)) = pb_publisher_id p"
  by (cases l; simp add: pb_start_layer_def pb_StartUdpLayer_def pb_StartShmLayer_def pb_StartTcpLayer_def
      pb_Register_def pb_GetRegistrationSample_def pb_GetFrequency_def pb_set_layer_write_def layer_written_def
      Let_def split_beta)+

text \<open>What a subscriber's registration does to the publisher.\<close>

lemma pb_registration_effect:
  fixes p :: "('cb, 'w) publisher" and ws :: "'w writers" and now :: time_point and par :: string
    and sub :: sample_identifier and sl :: layer_states and d :: data_type_info
  assumes "pb_inv p"
  defines "a \<equiv> pb_attributes p"
  defines "l \<equiv> pb_DetermineTransportLayer2Start p
        (pb_layer_list (pua_udp_enable a) (pua_shm_enable a) (pua_tcp_enable a))
        (pb_layer_list (ls_read_enabled (lss_udp sl)) (ls_read_enabled (lss_shm sl)) (ls_read_enabled (lss_tcp sl)))
        (pua_host a = si_host_name sub)"
  defines "p' \<equiv> fst (pb_ApplySubscriberRegistration ws now p sub d sl par)"
  shows "pb_attributes p' = a" "pb_publisher_id p' = pb_publisher_id p"
    "\<exists>c. om_find si_entity_id (pb_connection_map p') sub = Some c \<and>
      (scn_state c \<longleftrightarrow> om_find si_entity_id (pb_connection_map p) sub \<noteq> None)"
    "l \<noteq> TtNone \<Longrightarrow> layer_written l (pb_layers p')"
proof -
  let ?p = "p\<lparr>pb_layers := pb_set_read_enabled sl (pb_layers p)\<rparr>"
  let ?pl = "pb_layer_list (pua_udp_enable a) (pua_shm_enable a) (pua_tcp_enable a)"
  let ?q = "fst (pb_start_layer ws now l ?p)"
  have l: "pb_DetermineTransportLayer2Start ?p x y z = pb_DetermineTransportLayer2Start p x y z" for x y z
    by (simp add: pb_DetermineTransportLayer2Start_def)
  have "l \<noteq> TtNone \<longrightarrow> transport_layer_mapping l \<in> set ?pl"
    unfolding l_def pb_DetermineTransportLayer2Start_def using pb_first_common_cases by blast
  moreover have "pb_layers_inv ?p" using assms(1)
    by (simp add: pb_inv_def pb_layers_inv_def pb_set_read_enabled_def)
  ultimately have q: "pb_connection_map ?q = pb_connection_map p" "pb_attributes ?q = a"
    using pb_start_layer_inv [of ?p l ws now] by (auto simp: a_def)
  have p': "p' = fst (pb_connect (pb_map_writers (\<lambda>dw w. dw_ApplySubscription dw w sub par) ws ?q) sub d sl)"
    by (simp add: p'_def pb_ApplySubscriberRegistration_def Let_def split_beta l l_def a_def)
  show "pb_attributes p' = a" "pb_publisher_id p' = pb_publisher_id p"
    using q pb_start_layer_written(2) [of ws now l ?p]
    by (simp_all add: p' pb_connect_def Let_def split_beta pb_map_writers_def)
  show "\<exists>c. om_find si_entity_id (pb_connection_map p') sub = Some c \<and>
      (scn_state c \<longleftrightarrow> om_find si_entity_id (pb_connection_map p) sub \<noteq> None)"
    using q(1) by (cases "om_find si_entity_id (pb_connection_map p) sub")
      (simp_all add: p' pb_connect_def Let_def pb_map_writers_def om_find_set)
  show "layer_written l (pb_layers p')" if "l \<noteq> TtNone"
    using pb_start_layer_written(1) [OF that, of ws now ?p]
    by (simp add: p' pb_connect_def Let_def split_beta pb_map_writers_def)
qed

text \<open>One round.\<close>

lemma exchange_step:
  fixes p p' :: "('cb, 'w) publisher" and s s' :: "'cb2 subscriber"
  assumes "pb_inv p" "sb_inv s" "exchange ws now (p, s) = (p', s')"
  shows "pb_inv p'" "sb_inv s'" "pub_key p' = pub_key p" "sub_key s' = sub_key s"
    "chosen_layer p' s' = chosen_layer p s"
    "\<exists>c. om_find si_entity_id (pb_connection_map p') (sub_key s) = Some c \<and>
      (scn_state c \<longleftrightarrow> om_find si_entity_id (pb_connection_map p) (sub_key s) \<noteq> None)"
    "\<exists>c. om_find si_entity_id (sb_connection_map s') (pub_key p) = Some c \<and>
      (om_find si_entity_id (sb_connection_map s) (pub_key p) \<noteq> None \<longrightarrow> scn_state c) \<and>
      scn_layer_states c = lss_written (pb_layers p')"
    "chosen_layer p s \<noteq> TtNone \<Longrightarrow> layer_written (chosen_layer p s) (pb_layers p')"
proof -
  obtain sa s1 effs where s1: "sb_GetRegistrationSample now s sa_new = (sa, s1, effs)"
    "sa_identifier sa = sub_key s" "sb_touched s (sb_connection_map s1)"
    "sb_layers s1 = sb_layers s" "sb_attributes s1 = sb_attributes s" "sb_subscriber_id s1 = sb_subscriber_id s"
    "sb_connection_count s1 = sb_connection_count s" "sb_counter_map s1 = sb_counter_map s"
    "pg_layer_states (tp_transport_layer (sa_topic sa)) = lss_readable (sb_layers s)"
    by (rule sb_registration_shape)
  let ?p1 = "fst (pb_ApplySubscriberRegistration ws now p (sub_key s)
    (tp_datatype_information (sa_topic sa)) (lss_readable (sb_layers s)) [])"
  have I1: "pb_inv ?p1" by (rule pb_inv_registration [OF assms(1)])
  then have "pb_layers_inv ?p1" by (simp add: pb_inv_def)
  then obtain sb r where p2: "pb_GetRegistrationSample ws now ?p1 sa_new = (sb, ?p1\<lparr>pb_frequency_calculator := r\<rparr>)"
    "sa_identifier sb = pub_key ?p1" "sg_layer_states (tp_transport_layer (sa_topic sb)) = lss_written (pb_layers ?p1)"
    by (rule pb_registration_shape)
  note e = pb_registration_effect [OF assms(1), where ws = ws and now = now and sub = "sub_key s"
      and d = "tp_datatype_information (sa_topic sa)" and sl = "lss_readable (sb_layers s)" and par = "[]"]
  have k: "pub_key ?p1 = pub_key p" using e(1,2) by (simp add: pub_key_def pb_identifier_def)
  have p': "p' = ?p1\<lparr>pb_frequency_calculator := r\<rparr>"
    and s': "s' = fst (sb_ApplyPublisherRegistration s1 (pub_key p) (tp_datatype_information (sa_topic sb)) (lss_written (pb_layers ?p1)))"
    using assms(3) by (simp_all add: exchange_def s1(1,2,9) p2 k Let_def split_beta)
  show "pb_inv p'" using I1 by (simp add: p')
  have "sb_inv s1" using assms(2) s1(3,7,8) by (rule sb_inv_touched)
  then show "sb_inv s'" using sb_inv_exec [of s1 "SbPublisherRegistration (pub_key p)
      (tp_datatype_information (sa_topic sb)) (lss_written (pb_layers ?p1))"] by (simp add: s' sb_exec_def)
  show "pub_key p' = pub_key p" using k by (simp add: p' pub_key_def pb_identifier_def)
  show "sub_key s' = sub_key s" using s1(5,6)
    by (simp add: s' sb_ApplyPublisherRegistration_def Let_def split_beta sub_key_def sb_identifier_def)
  have r: "ls_read_enabled (lss_udp (sb_layers s')) = ls_read_enabled (lss_udp (sb_layers s))"
    "ls_read_enabled (lss_shm (sb_layers s')) = ls_read_enabled (lss_shm (sb_layers s))"
    "ls_read_enabled (lss_tcp (sb_layers s')) = ls_read_enabled (lss_tcp (sb_layers s))"
    "sb_attributes s' = sb_attributes s"
    using s1(4,5) by (simp_all add: s' sb_ApplyPublisherRegistration_def Let_def split_beta sb_set_write_enabled_def)
  then show "chosen_layer p' s' = chosen_layer p s"
    using e(1) by (simp add: chosen_layer_def p' pb_DetermineTransportLayer2Start_def Let_def)
  show "\<exists>c. om_find si_entity_id (pb_connection_map p') (sub_key s) = Some c \<and>
      (scn_state c \<longleftrightarrow> om_find si_entity_id (pb_connection_map p) (sub_key s) \<noteq> None)"
    using e(3) by (simp add: p')
  show "\<exists>c. om_find si_entity_id (sb_connection_map s') (pub_key p) = Some c \<and>
      (om_find si_entity_id (sb_connection_map s) (pub_key p) \<noteq> None \<longrightarrow> scn_state c) \<and>
      scn_layer_states c = lss_written (pb_layers p')"
  proof (cases "om_find si_entity_id (sb_connection_map s1) (pub_key p)")
    case None
    then have "om_find si_entity_id (sb_connection_map s) (pub_key p) = None"
      using s1(3) unfolding sb_touched_def by (metis option.distinct(1))
    then show ?thesis using None
      by (simp add: s' sb_ApplyPublisherRegistration_def Let_def p' om_find_set)
  next
    case (Some c)
    then show ?thesis by (simp add: s' sb_ApplyPublisherRegistration_def Let_def p' om_find_set)
  qed
  have "si_host_name (sub_key s) = sua_host (sb_attributes s)" by (simp add: sub_key_def sb_identifier_def)
  then show "layer_written (chosen_layer p s) (pb_layers p')" if "chosen_layer p s \<noteq> TtNone"
    using e(4) that by (simp add: p' chosen_layer_def lss_readable_def Let_def)
qed

lemma layer_written_lss [simp]: "layer_written l (lss_written ls) = layer_written l ls"
  by (cases l) (simp_all add: layer_written_def lss_written_def)

lemma om_connected_count:
  "om_find pr m k = Some c \<Longrightarrow> scn_state c \<Longrightarrow> 0 < length (filter (\<lambda>(_, c). scn_state c) m)"
  using om_find_in_set [of pr m k c] by (auto simp: length_greater_0_conv filter_empty_conv)

text \<open>
  C7. The handshake. Take any publisher and any subscriber that can reach each other (a transport layer
  is enabled on both sides and in the publisher's priority list). Two rounds of registrations connect
  them: each counts the other, the publisher writes to the layer it chose, and the subscriber has noted
  this for the publisher's connection.
\<close>

theorem handshake:
  fixes p :: "('cb, 'w) publisher" and s :: "'cb2 subscriber"
  assumes "pb_reachable ws p" "sb_reachable s" "chosen_layer p s \<noteq> TtNone"
    "exchange ws t2 (exchange ws t1 (p, s)) = (p2, s2)"
  shows "\<exists>c c'. om_find si_entity_id (pb_connection_map p2) (sub_key s) = Some c \<and> scn_state c \<and>
    om_find si_entity_id (sb_connection_map s2) (pub_key p) = Some c' \<and> scn_state c' \<and>
    layer_written (chosen_layer p s) (pb_layers p2) \<and> layer_written (chosen_layer p s) (scn_layer_states c') \<and>
    0 < pb_GetSubscriberCount p2 \<and> 0 < sb_GetPublisherCount s2"
proof -
  obtain p1 s1 where r1: "exchange ws t1 (p, s) = (p1, s1)" by (cases "exchange ws t1 (p, s)")
  then have r2: "exchange ws t2 (p1, s1) = (p2, s2)" using assms(4) by simp
  note e1 = exchange_step [OF pb_reachable_inv [OF assms(1)] sb_reachable_inv [OF assms(2)] r1]
  note e2 = exchange_step [OF e1(1,2) r2]
  obtain c where c: "om_find si_entity_id (pb_connection_map p2) (sub_key s) = Some c" "scn_state c"
    using e2(6) e1(4,6) by auto
  obtain c' where c': "om_find si_entity_id (sb_connection_map s2) (pub_key p) = Some c'" "scn_state c'"
    "scn_layer_states c' = lss_written (pb_layers p2)"
    using e2(7) e1(3,7) by auto
  have "layer_written (chosen_layer p s) (pb_layers p2)" using e2(8) e1(5) assms(3) by simp
  moreover have "0 < pb_GetSubscriberCount p2"
    using e2(1) om_connected_count [OF c] by (simp add: pb_inv_def pb_GetSubscriberCount_def pb_GetConnectionCount_def)
  moreover have "0 < sb_GetPublisherCount s2"
    using e2(2) om_connected_count [OF c'(1,2)] by (simp add: sb_inv_def sb_GetPublisherCount_def sb_GetConnectionCount_def)
  ultimately show ?thesis using c c' by simp
qed

text \<open>The witness: a publisher and a subscriber on one host that both have the shared memory layer.\<close>

theorem handshake_witness:
  "let p = pb_new 3 dti_new demo_pub_attr :: (string, nat) publisher;
     (p2, s2) = exchange demo_writers 9 (exchange demo_writers 5 (p, demo_sub))
   in 0 < pb_GetSubscriberCount p2 \<and> 0 < sb_GetPublisherCount s2"
proof -
  let ?p = "pb_new 3 dti_new demo_pub_attr :: (string, nat) publisher"
  obtain p2 s2 where r: "exchange demo_writers 9 (exchange demo_writers 5 (?p, demo_sub)) = (p2, s2)"
    by (cases "exchange demo_writers 9 (exchange demo_writers 5 (?p, demo_sub))")
  have "chosen_layer ?p demo_sub = TtShm"
    by (simp add: chosen_layer_def demo_pub_attr_def demo_sub_def demo_sub_attr_def sb_exec_def sb_new_def
        sb_StartTransportLayer_def sb_enable_layers_def sb_SetReceiveCallback_def pb_new_def pb_layer_list_def
        pb_DetermineTransportLayer2Start_def transport_layer_mapping_def Let_def)
  then have "chosen_layer ?p demo_sub \<noteq> TtNone" by simp
  from handshake [OF pb_reach_new demo_sub_reachable this r] show ?thesis by (auto simp: r)
qed

end
