(* ===== verification/Mem_File_Db.thy ===== *)
theory Mem_File_Db
  imports Std_Map
begin

text \<open>
  \<open>ecal/core/src/io/shm/linux/ecal_memfile_os.cpp\<close> and \<open>ecal_memfile_db.{h,cpp}\<close>: named shared memory
  of the operating system and the map of the memory files a process has mapped, with their reference
  counts.

  The operating system (\<open>shm_world\<close>) has memory objects and, apart from them, names for objects:
  \<open>shm_unlink\<close> takes the name away and leaves the object to those that still have it mapped. An
  object begins with the header of \<open>CMemoryFile::SInternalHeader\<close>; what follows it has the type
  \<open>'m\<close>, since the memory files of the payloads hold bytes and the broadcast file a queue. The
  record \<open>mem_ops\<close> says what zeroed memory and a change of the size are for \<open>'m\<close>.

  The C++ objects behind \<open>std::shared_ptr<SMemFileInfo>\<close> are shared and mutable, so they live in a
  store and a pointer is an index. A \<open>CMemoryFile\<close> and the map refer to the same info object.
\<close>

subsection \<open>The operating system\<close>

record internal_header =
  ih_size :: u16
  ih_cur_data_size :: u64
  ih_max_data_size :: u64

text \<open>A default-constructed header: \<open>sizeof(SInternalHeader)\<close> is 24. Zeroed memory reads as \<open>ih_zero\<close>.\<close>

definition ih_new :: internal_header where
  "ih_new = \<lparr>ih_size = 24, ih_cur_data_size = 0, ih_max_data_size = 0\<rparr>"

definition ih_zero :: internal_header where
  "ih_zero = \<lparr>ih_size = 0, ih_cur_data_size = 0, ih_max_data_size = 0\<rparr>"

record 'm shm_object =
  so_size :: nat
  so_header :: internal_header
  so_payload :: 'm

record 'm mem_ops =
  mo_zero :: "nat \<Rightarrow> 'm"
  mo_resize :: "nat \<Rightarrow> 'm \<Rightarrow> 'm"

record 'm shm_world =
  sw_names :: "string \<Rightarrow> nat option"
  sw_objects :: "nat \<Rightarrow> 'm shm_object"
  sw_next :: nat

text \<open>
  What the calls of the operating system return that the program cannot know: the page size and
  whether \<open>mmap\<close> succeeds.
\<close>

record 'm shm_env =
  se_ops :: "'m mem_ops"
  se_page_size :: nat
  se_mmap_ok :: bool

record mem_file_info =
  mfi_refcnt :: int
  mfi_remove :: bool
  mfi_memfile :: "nat option"
  mfi_mapped :: bool
  mfi_name :: string
  mfi_size :: nat
  mfi_exists :: bool

definition mfi_new :: mem_file_info where
  "mfi_new = \<lparr>mfi_refcnt = 0, mfi_remove = False, mfi_memfile = None, mfi_mapped = False, mfi_name = [],
     mfi_size = 0, mfi_exists = False\<rparr>"

definition shm_posix_name :: "string \<Rightarrow> string" where
  "shm_posix_name name = (if name \<noteq> [] then (if hd name \<noteq> CHR ''/'' then CHR ''/'' # name else name) else name)"

text \<open>
  \<open>shm_open\<close> with \<open>O_CREAT | O_EXCL\<close> makes an object of size 0; without, the name has to exist. That it fails for
  another reason (permissions, the number of open files) is not modelled: it would end as a name that does not exist does.
\<close>

definition shm_create_object :: "'m shm_env \<Rightarrow> 'm shm_world \<Rightarrow> string \<Rightarrow> nat \<times> 'm shm_world" where
  "shm_create_object e w name =
     (let i = sw_next w in
      (i, w\<lparr>sw_names := (sw_names w)(name \<mapsto> i), sw_next := Suc i,
        sw_objects := (sw_objects w)(i := \<lparr>so_size = 0, so_header = ih_zero, so_payload = mo_zero (se_ops e) 0\<rparr>)\<rparr>))"

definition shm_AllocFile ::
  "'m shm_env \<Rightarrow> string \<Rightarrow> bool \<Rightarrow> 'm shm_world \<Rightarrow> mem_file_info \<Rightarrow> bool \<times> 'm shm_world \<times> mem_file_info" where
  "shm_AllocFile e name create w f =
     (let n = shm_posix_name name; f = f\<lparr>mfi_name := n\<rparr>;
          (fd, w, f) =
            (if create
             then (case sw_names w n of
                 None \<Rightarrow> (let (i, w) = shm_create_object e w n in (Some i, w, f))
               | Some i \<Rightarrow> (Some i, w, f\<lparr>mfi_exists := True\<rparr>))
             else (sw_names w n, w, f\<lparr>mfi_exists := True\<rparr>))
      in case fd of
          None \<Rightarrow> (False, w, f\<lparr>mfi_memfile := None, mfi_name := [], mfi_exists := False\<rparr>)
        | Some i \<Rightarrow> (True, w, f\<lparr>mfi_memfile := Some i, mfi_size := 0\<rparr>))"

definition shm_DeAllocFile :: "mem_file_info \<Rightarrow> mem_file_info" where
  "shm_DeAllocFile f = f\<lparr>mfi_memfile := None, mfi_name := [], mfi_size := 0\<rparr>"

definition shm_RemoveFile :: "'m shm_world \<Rightarrow> mem_file_info \<Rightarrow> 'm shm_world" where
  "shm_RemoveFile w f = w\<lparr>sw_names := (sw_names w)(mfi_name f := None)\<rparr>"

definition shm_truncate :: "'m shm_env \<Rightarrow> nat \<Rightarrow> 'm shm_object \<Rightarrow> 'm shm_object" where
  "shm_truncate e n so = so\<lparr>so_size := n, so_payload := mo_resize (se_ops e) n (so_payload so)\<rparr>"

definition shm_MapFile ::
  "'m shm_env \<Rightarrow> bool \<Rightarrow> 'm shm_world \<Rightarrow> mem_file_info \<Rightarrow> bool \<times> 'm shm_world \<times> mem_file_info" where
  "shm_MapFile e create w f =
     (if mfi_mapped f then (True, w, f)
      else (let w = (case mfi_memfile f of
                  Some i \<Rightarrow> if create then w\<lparr>sw_objects := (sw_objects w)(i := shm_truncate e (mfi_size f) (sw_objects w i))\<rparr> else w
                | None \<Rightarrow> w)
        in if se_mmap_ok e then (True, w, f\<lparr>mfi_mapped := True\<rparr>) else (False, w, f)))"

definition shm_UnMapFile :: "mem_file_info \<Rightarrow> bool \<times> mem_file_info" where
  "shm_UnMapFile f = (if mfi_mapped f then (True, f\<lparr>mfi_mapped := False\<rparr>) else (False, f))"

definition shm_CheckFileSize ::
  "'m shm_env \<Rightarrow> nat \<Rightarrow> bool \<Rightarrow> 'm shm_world \<Rightarrow> mem_file_info \<Rightarrow> bool \<times> 'm shm_world \<times> mem_file_info" where
  "shm_CheckFileSize e n create w f =
     (case mfi_memfile f of
        None \<Rightarrow> (False, w, f)
      | Some i \<Rightarrow>
          (let len = max n (se_page_size e) in
           if \<not> mfi_mapped f
           then (let (_, w, f) = shm_MapFile e create w (f\<lparr>mfi_size := len\<rparr>) in (True, w, f))
           else if len > mfi_size f
           then (let f = snd (shm_UnMapFile f);
                     (_, w, f) = shm_MapFile e create w (f\<lparr>mfi_size := len\<rparr>);
                     w = (if create \<and> mfi_mapped f
                          then w\<lparr>sw_objects := (sw_objects w)(i := (sw_objects w i)\<lparr>so_header := ih_zero,
                            so_payload := mo_zero (se_ops e) len\<rparr>)\<rparr> else w)
             in (True, w, f))
           else (True, w, f)))"

subsection \<open>CMemFileMap\<close>

text \<open>
  A process: its map of memory files (a \<open>std::unordered_map\<close>; the one place that iterates over it
  treats the files independently of each other, so the order is of no account) and the store of the
  info objects.
\<close>

record mem_file_map =
  fm_map :: "(string, nat) omap"
  fm_infos :: "nat \<Rightarrow> mem_file_info"
  fm_next :: nat

definition fm_new_info :: "mem_file_map \<Rightarrow> nat \<times> mem_file_map" where
  "fm_new_info m = (fm_next m, m\<lparr>fm_infos := (fm_infos m)(fm_next m := mfi_new), fm_next := Suc (fm_next m)\<rparr>)"

definition fm_set_info :: "mem_file_map \<Rightarrow> nat \<Rightarrow> mem_file_info \<Rightarrow> mem_file_map" where
  "fm_set_info m r f = m\<lparr>fm_infos := (fm_infos m)(r := f)\<rparr>"

text \<open>\<open>AddFile\<close>; the pointer argument is \<open>r\<close>, the result has the pointer it was set to.\<close>

definition fm_AddFile ::
  "'m shm_env \<Rightarrow> 'm shm_world \<Rightarrow> mem_file_map \<Rightarrow> string \<Rightarrow> bool \<Rightarrow> nat \<Rightarrow> nat \<Rightarrow>
   bool \<times> nat \<times> 'm shm_world \<times> mem_file_map" where
  "fm_AddFile e w m name create len r =
     (case om_find id (fm_map m) name of
        None \<Rightarrow>
          (case shm_AllocFile e name create w (fm_infos m r) of
             (False, w, f) \<Rightarrow> (False, r, w, fm_set_info m r f)
           | (True, w, f) \<Rightarrow>
               (let (_, w, f) = shm_CheckFileSize e len create w f;
                    f = f\<lparr>mfi_refcnt := mfi_refcnt f + 1\<rparr>;
                    m = fm_set_info m r f
                in (True, r, w, m\<lparr>fm_map := om_set id (fm_map m) name r\<rparr>)))
      | Some q \<Rightarrow>
          (let f = fm_infos m q; f = f\<lparr>mfi_exists := True, mfi_refcnt := mfi_refcnt f + 1\<rparr>;
               (_, w, f) = shm_CheckFileSize e len False w f
           in (True, q, w, fm_set_info m q f)))"

text \<open>Unmap, remove from the system if marked, and deallocate.\<close>

definition fm_close :: "'m shm_world \<Rightarrow> mem_file_info \<Rightarrow> 'm shm_world \<times> mem_file_info" where
  "fm_close w f =
     (let f = snd (shm_UnMapFile f); w = (if mfi_remove f then shm_RemoveFile w f else w)
      in (w, shm_DeAllocFile f))"

definition fm_RemoveFile ::
  "'m shm_world \<Rightarrow> mem_file_map \<Rightarrow> string \<Rightarrow> bool \<Rightarrow> bool \<times> 'm shm_world \<times> mem_file_map" where
  "fm_RemoveFile w m name remove =
     (case om_find id (fm_map m) name of
        None \<Rightarrow> (False, w, m)
      | Some q \<Rightarrow>
          (let f = fm_infos m q;
               f = f\<lparr>mfi_refcnt := mfi_refcnt f - 1, mfi_remove := mfi_remove f \<or> remove\<rparr>
           in if mfi_refcnt f < 1
              then (let (w, f) = fm_close w f
                in (True, w, (fm_set_info m q f)\<lparr>fm_map := om_erase id (fm_map m) name\<rparr>))
              else (True, w, fm_set_info m q f)))"

definition fm_CheckFileSize ::
  "'m shm_env \<Rightarrow> 'm shm_world \<Rightarrow> mem_file_map \<Rightarrow> nat \<Rightarrow> nat \<Rightarrow> 'm shm_world \<times> mem_file_map" where
  "fm_CheckFileSize e w m len r =
     (let (_, w, f) = shm_CheckFileSize e len False w (fm_infos m r) in (w, fm_set_info m r f))"

definition fm_Stop :: "'m shm_world \<Rightarrow> mem_file_map \<Rightarrow> 'm shm_world \<times> mem_file_map" where
  "fm_Stop w m =
     (let (w, m) = foldl (\<lambda>(w, m) (_, q). let (w, f) = fm_close w (fm_infos m q) in (w, fm_set_info m q f))
            (w, m) (fm_map m)
      in (w, m\<lparr>fm_map := []\<rparr>))"

subsection \<open>What mapping leaves alone\<close>

lemma shm_MapFile_keeps:
  assumes "shm_MapFile e create w f = (ok, w', f')"
  shows "sw_names w' = sw_names w" "mfi_refcnt f' = mfi_refcnt f" "mfi_remove f' = mfi_remove f"
    "mfi_name f' = mfi_name f" "mfi_memfile f' = mfi_memfile f" "mfi_exists f' = mfi_exists f" "mfi_size f' = mfi_size f"
  using assms by (auto simp: shm_MapFile_def Let_def split: if_splits option.splits)

lemma shm_CheckFileSize_keeps:
  assumes "shm_CheckFileSize e n create w f = (ok, w', f')"
  shows "sw_names w' = sw_names w" "mfi_refcnt f' = mfi_refcnt f" "mfi_remove f' = mfi_remove f"
    "mfi_name f' = mfi_name f" "mfi_memfile f' = mfi_memfile f" "mfi_exists f' = mfi_exists f"
proof -
  have "sw_names w' = sw_names w \<and> mfi_refcnt f' = mfi_refcnt f \<and> mfi_remove f' = mfi_remove f \<and>
      mfi_name f' = mfi_name f \<and> mfi_memfile f' = mfi_memfile f \<and> mfi_exists f' = mfi_exists f"
  proof (cases "mfi_memfile f")
    case (Some i)
    let ?len = "max n (se_page_size e)"
    obtain a b c where m1: "shm_MapFile e create w (f\<lparr>mfi_size := ?len\<rparr>) = (a, b, c)"
      by (cases "shm_MapFile e create w (f\<lparr>mfi_size := ?len\<rparr>)") auto
    obtain a' b' c' where m2: "shm_MapFile e create w (f\<lparr>mfi_mapped := False, mfi_size := ?len\<rparr>) = (a', b', c')"
      by (cases "shm_MapFile e create w (f\<lparr>mfi_mapped := False, mfi_size := ?len\<rparr>)") auto
    show ?thesis using assms Some shm_MapFile_keeps [OF m1] shm_MapFile_keeps [OF m2]
      by (auto simp: shm_CheckFileSize_def shm_UnMapFile_def Let_def m1 m2 split: if_splits)
  qed (use assms in \<open>simp add: shm_CheckFileSize_def\<close>)
  then show "sw_names w' = sw_names w" "mfi_refcnt f' = mfi_refcnt f" "mfi_remove f' = mfi_remove f"
    "mfi_name f' = mfi_name f" "mfi_memfile f' = mfi_memfile f" "mfi_exists f' = mfi_exists f" by auto
qed

text \<open>After the check a file that has a descriptor is mapped with at least the requested size, if \<open>mmap\<close> works.\<close>

lemma shm_CheckFileSize_mapped:
  assumes "shm_CheckFileSize e n create w f = (ok, w', f')" "mfi_memfile f \<noteq> None" "se_mmap_ok e"
  shows "ok" "mfi_mapped f'" "n \<le> mfi_size f'" "mfi_size f \<le> mfi_size f' \<or> \<not> mfi_mapped f"
  using assms by (auto simp: shm_CheckFileSize_def shm_MapFile_def shm_UnMapFile_def Let_def split: if_splits option.splits)

subsection \<open>The reference counts\<close>

text \<open>
  The contract of the map: every name has a count of users and a mark for removal; a file can be
  opened if it is open already, may be created, or its name is known to the system; the last user
  takes the name out of the system if any user asked for it.
\<close>

record file_counts =
  fc_count :: "string \<Rightarrow> (int \<times> bool) option"
  fc_linked :: "string set"

datatype fm_op = FmAdd string bool nat | FmRemove string bool

definition fc_exec :: "fm_op \<Rightarrow> file_counts \<Rightarrow> bool \<times> file_counts" where
  "fc_exec op a =
     (case op of
        FmAdd name create len \<Rightarrow>
          (case fc_count a name of
             Some (c, rm) \<Rightarrow> (True, a\<lparr>fc_count := (fc_count a)(name \<mapsto> (c + 1, rm))\<rparr>)
           | None \<Rightarrow>
               if create \<or> shm_posix_name name \<in> fc_linked a
               then (True, a\<lparr>fc_count := (fc_count a)(name \<mapsto> (1, False)),
                 fc_linked := insert (shm_posix_name name) (fc_linked a)\<rparr>)
               else (False, a))
      | FmRemove name remove \<Rightarrow>
          (case fc_count a name of
             None \<Rightarrow> (False, a)
           | Some (c, rm) \<Rightarrow>
               if c - 1 < 1
               then (True, a\<lparr>fc_count := (fc_count a)(name := None),
                 fc_linked := (if rm \<or> remove then fc_linked a - {shm_posix_name name} else fc_linked a)\<rparr>)
               else (True, a\<lparr>fc_count := (fc_count a)(name \<mapsto> (c - 1, rm \<or> remove))\<rparr>)))"

text \<open>The same requests on the map; a user that opens a file comes with a new info object.\<close>

definition fm_exec ::
  "'m shm_env \<Rightarrow> fm_op \<Rightarrow> 'm shm_world \<times> mem_file_map \<Rightarrow> bool \<times> 'm shm_world \<times> mem_file_map" where
  "fm_exec e op = (\<lambda>(w, m).
     case op of
       FmAdd name create len \<Rightarrow>
         (let (r, m) = fm_new_info m; (ok, _, w, m) = fm_AddFile e w m name create len r in (ok, w, m))
     | FmRemove name remove \<Rightarrow> fm_RemoveFile w m name remove)"

text \<open>What the map says of a name.\<close>

definition fm_view :: "mem_file_map \<Rightarrow> string \<Rightarrow> mem_file_info option" where
  "fm_view m name = map_option (fm_infos m) (om_find id (fm_map m) name)"

definition fm_abs :: "'m shm_world \<times> mem_file_map \<Rightarrow> file_counts" where
  "fm_abs = (\<lambda>(w, m). \<lparr>fc_count = (\<lambda>n. map_option (\<lambda>f. (mfi_refcnt f, mfi_remove f)) (fm_view m n)),
     fc_linked = {n. sw_names w n \<noteq> None}\<rparr>)"

definition fm_inv :: "mem_file_map \<Rightarrow> bool" where
  "fm_inv m \<longleftrightarrow> om_invar id (fm_map m) \<and>
     (\<forall>k q. om_find id (fm_map m) k = Some q \<longrightarrow> q < fm_next m) \<and>
     (\<forall>k k' q. om_find id (fm_map m) k = Some q \<longrightarrow> om_find id (fm_map m) k' = Some q \<longrightarrow> k = k') \<and>
     (\<forall>k f. fm_view m k = Some f \<longrightarrow> mfi_name f = shm_posix_name k \<and> mfi_memfile f \<noteq> None)"

abbreviation fm_good :: "string \<Rightarrow> mem_file_info \<Rightarrow> bool" where
  "fm_good name f \<equiv> mfi_name f = shm_posix_name name \<and> mfi_memfile f \<noteq> None"

lemma fm_inv_lt: "fm_inv m \<Longrightarrow> om_find id (fm_map m) k = Some q \<Longrightarrow> q < fm_next m"
  by (simp add: fm_inv_def)

lemma fm_inv_inj:
  "fm_inv m \<Longrightarrow> om_find id (fm_map m) k = Some q \<Longrightarrow> om_find id (fm_map m) k' = Some q \<Longrightarrow> k = k'"
  unfolding fm_inv_def by blast

lemma fm_inv_good: "fm_inv m \<Longrightarrow> fm_view m k = Some f \<Longrightarrow> fm_good k f"
  unfolding fm_inv_def by blast

lemma fm_new_info_view:
  assumes "fm_inv m" "fm_new_info m = (r, m')"
  shows "fm_view m' = fm_view m" "fm_inv m'" "r < fm_next m'" "om_find id (fm_map m') k \<noteq> Some r"
    "fm_infos m' r = mfi_new" "fm_map m' = fm_map m"
proof -
  have m': "m' = m\<lparr>fm_infos := (fm_infos m)(fm_next m := mfi_new), fm_next := Suc (fm_next m)\<rparr>" "r = fm_next m"
    using assms(2) by (auto simp: fm_new_info_def)
  have ne: "om_find id (fm_map m) k = Some q \<Longrightarrow> q \<noteq> fm_next m" for k q
    using fm_inv_lt [OF assms(1)] by fastforce
  show v: "fm_view m' = fm_view m"
  proof
    fix k show "fm_view m' k = fm_view m k"
      using ne [of k] by (cases "om_find id (fm_map m) k") (auto simp: fm_view_def m')
  qed
  show "fm_inv m'" unfolding fm_inv_def v using assms(1)
    by (auto simp: m' less_Suc_eq fm_inv_lt fm_inv_good dest: fm_inv_inj) (simp add: fm_inv_def)
  show "r < fm_next m'" "fm_infos m' r = mfi_new" "fm_map m' = fm_map m" by (simp_all add: m')
  show "om_find id (fm_map m') k \<noteq> Some r" using ne by (auto simp: m')
qed

text \<open>Changing the info of a name, adding one, removing one, and changing one that is not in the map.\<close>

lemma fm_view_update:
  assumes "fm_inv m" "om_find id (fm_map m) name = Some q" "fm_good name f"
  shows "fm_view (fm_set_info m q f) = (fm_view m)(name \<mapsto> f)" "fm_inv (fm_set_info m q f)"
proof -
  have i: "om_find id (fm_map m) k = Some q \<Longrightarrow> k = name" for k using fm_inv_inj [OF assms(1) _ assms(2)] .
  show v: "fm_view (fm_set_info m q f) = (fm_view m)(name \<mapsto> f)"
  proof
    fix k show "fm_view (fm_set_info m q f) k = ((fm_view m)(name \<mapsto> f)) k"
      using assms(2) i [of k] by (cases "om_find id (fm_map m) k") (auto simp: fm_view_def fm_set_info_def)
  qed
  show "fm_inv (fm_set_info m q f)" using assms(1,3) unfolding fm_inv_def v by (auto simp: fm_set_info_def)
qed

lemma fm_view_add:
  fixes f :: mem_file_info and name :: string and r :: nat
  assumes "fm_inv m" "\<And>k. om_find id (fm_map m) k \<noteq> Some r" "r < fm_next m" "fm_good name f"
  defines "m' \<equiv> (fm_set_info m r f)\<lparr>fm_map := om_set id (fm_map m) name r\<rparr>"
  shows "fm_view m' = (fm_view m)(name \<mapsto> f)" "fm_inv m'"
proof -
  show v: "fm_view m' = (fm_view m)(name \<mapsto> f)"
  proof
    fix k show "fm_view m' k = ((fm_view m)(name \<mapsto> f)) k"
      using assms(2) [of k] by (cases "om_find id (fm_map m) k") (auto simp: fm_view_def fm_set_info_def m'_def om_find_set)
  qed
  have "fm_map m' = om_set id (fm_map m) name r" "fm_next m' = fm_next m" by (simp_all add: m'_def fm_set_info_def)
  then show "fm_inv m'" using assms(1-4) unfolding fm_inv_def v by (auto simp: om_find_set om_invar_set)
qed

lemma fm_view_remove:
  fixes f :: mem_file_info
  assumes "fm_inv m" "om_find id (fm_map m) name = Some q"
  defines "m' \<equiv> (fm_set_info m q f)\<lparr>fm_map := om_erase id (fm_map m) name\<rparr>"
  shows "fm_view m' = (fm_view m)(name := None)" "fm_inv m'"
proof -
  have i: "om_find id (fm_map m) k = Some q \<Longrightarrow> k = name" for k using fm_inv_inj [OF assms(1) _ assms(2)] .
  have I: "om_invar id (fm_map m)" using assms(1) by (simp add: fm_inv_def)
  show v: "fm_view m' = (fm_view m)(name := None)"
  proof
    fix k show "fm_view m' k = ((fm_view m)(name := None)) k"
      using i [of k] I by (cases "om_find id (fm_map m) k") (auto simp: fm_view_def fm_set_info_def m'_def om_find_erase)
  qed
  have "fm_map m' = om_erase id (fm_map m) name" "fm_next m' = fm_next m" by (simp_all add: m'_def fm_set_info_def)
  then show "fm_inv m'" using assms(1) I unfolding fm_inv_def v
    by (auto simp: om_find_erase om_invar_erase split: if_splits)
qed

lemma fm_view_skip:
  assumes "fm_inv m" "\<And>k. om_find id (fm_map m) k \<noteq> Some r"
  shows "fm_view (fm_set_info m r f) = fm_view m" "fm_inv (fm_set_info m r f)"
proof -
  show v: "fm_view (fm_set_info m r f) = fm_view m"
  proof
    fix k show "fm_view (fm_set_info m r f) k = fm_view m k"
      using assms(2) [of k] by (cases "om_find id (fm_map m) k") (auto simp: fm_view_def fm_set_info_def)
  qed
  show "fm_inv (fm_set_info m r f)" using assms(1) unfolding fm_inv_def v by (auto simp: fm_set_info_def)
qed

lemma fm_abs_view: "fm_view m = fm_view m' \<Longrightarrow> sw_names w = sw_names w' \<Longrightarrow> fm_abs (w, m) = fm_abs (w', m')"
  by (simp add: fm_abs_def)

lemma shm_AllocFile_spec:
  assumes "shm_AllocFile e name create w mfi_new = (ok, w', f)"
  shows "ok \<longleftrightarrow> create \<or> sw_names w (shm_posix_name name) \<noteq> None"
    "ok \<Longrightarrow> fm_good name f \<and> mfi_refcnt f = 0 \<and> \<not> mfi_remove f"
    "{n. sw_names w' n \<noteq> None} = (if ok then insert (shm_posix_name name) {n. sw_names w n \<noteq> None} else {n. sw_names w n \<noteq> None})"
    "\<not> ok \<Longrightarrow> w' = w"
  using assms by (auto simp: shm_AllocFile_def shm_create_object_def mfi_new_def Let_def split: if_splits option.splits)

lemma fm_exec_add:
  assumes I: "fm_inv m" and x: "fm_exec e (FmAdd name create len) (w, m) = (ok, w', m')"
  shows "fc_exec (FmAdd name create len) (fm_abs (w, m)) = (ok, fm_abs (w', m')) \<and> fm_inv m'"
proof -
  obtain r m1 where n: "fm_new_info m = (r, m1)" by (cases "fm_new_info m")
  note n1 = fm_new_info_view [OF I n]
  show ?thesis
  proof (cases "om_find id (fm_map m1) name")
    case None
    then have v: "fm_view m name = None" by (simp add: fm_view_def n1(1) [symmetric])
    obtain b w1 f1 where a: "shm_AllocFile e name create w mfi_new = (b, w1, f1)"
      by (cases "shm_AllocFile e name create w mfi_new") auto
    note a1 = shm_AllocFile_spec [OF a]
    show ?thesis
    proof (cases b)
      case False
      then have "ok = False" "w' = w" "m' = fm_set_info m1 r f1"
        using x None a a1(4) by (simp_all add: fm_exec_def n fm_AddFile_def n1(5))
      then show ?thesis using v False a1(1) fm_view_skip [OF n1(2,4), of f1] n1(1)
        by (simp add: fc_exec_def fm_abs_def)
    next
      case True
      obtain c w2 f2 where ch: "shm_CheckFileSize e len create w1 f1 = (c, w2, f2)"
        by (cases "shm_CheckFileSize e len create w1 f1") auto
      note k = shm_CheckFileSize_keeps [OF ch]
      let ?f = "f2\<lparr>mfi_refcnt := mfi_refcnt f2 + 1\<rparr>"
      have g: "fm_good name ?f" using a1(2) True k by simp
      have "ok = True" "w' = w2" "m' = (fm_set_info m1 r ?f)\<lparr>fm_map := om_set id (fm_map m1) name r\<rparr>"
        using x None a True ch by (simp_all add: fm_exec_def n fm_AddFile_def n1(5) Let_def fm_set_info_def)
      then show ?thesis using v True a1 k fm_view_add [OF n1(2,4,3) g] n1(1)
        by (auto simp: fc_exec_def fm_abs_def fun_eq_iff)
    qed
  next
    case (Some q)
    then have v: "fm_view m name = Some (fm_infos m1 q)" by (simp add: fm_view_def n1(1) [symmetric])
    let ?f = "(fm_infos m1 q)\<lparr>mfi_exists := True, mfi_refcnt := mfi_refcnt (fm_infos m1 q) + 1\<rparr>"
    obtain c w2 f2 where ch: "shm_CheckFileSize e len False w ?f = (c, w2, f2)"
      by (cases "shm_CheckFileSize e len False w ?f") auto
    note k = shm_CheckFileSize_keeps [OF ch]
    have "fm_good name (fm_infos m1 q)" using fm_inv_good [OF I v] .
    then have g: "fm_good name f2" using k by simp
    have "ok = True" "w' = w2" "m' = fm_set_info m1 q f2"
      using x Some ch by (simp_all add: fm_exec_def n fm_AddFile_def Let_def)
    then show ?thesis using v k fm_view_update [OF n1(2) Some g] n1(1)
      by (auto simp: fc_exec_def fm_abs_def fun_eq_iff)
  qed
qed

lemma fm_exec_remove:
  assumes I: "fm_inv m" and x: "fm_exec e (FmRemove name remove) (w, m) = (ok, w', m')"
  shows "fc_exec (FmRemove name remove) (fm_abs (w, m)) = (ok, fm_abs (w', m')) \<and> fm_inv m'"
proof (cases "om_find id (fm_map m) name")
  case None
  then show ?thesis using x I by (simp add: fm_exec_def fm_RemoveFile_def fc_exec_def fm_abs_def fm_view_def)
next
  case (Some q)
  then have v: "fm_view m name = Some (fm_infos m q)" by (simp add: fm_view_def)
  let ?f = "(fm_infos m q)\<lparr>mfi_refcnt := mfi_refcnt (fm_infos m q) - 1, mfi_remove := mfi_remove (fm_infos m q) \<or> remove\<rparr>"
  have g: "fm_good name ?f" using fm_inv_good [OF I v] by simp
  show ?thesis
  proof (cases "mfi_refcnt ?f < 1")
    case True
    obtain w1 f1 where c: "fm_close w ?f = (w1, f1)" by (cases "fm_close w ?f")
    then have w1: "sw_names w1 = (if mfi_remove ?f then (sw_names w)(shm_posix_name name := None) else sw_names w)"
      using g by (auto simp: fm_close_def shm_UnMapFile_def shm_RemoveFile_def Let_def split: if_splits)
    have "ok = True" "w' = w1" "m' = (fm_set_info m q f1)\<lparr>fm_map := om_erase id (fm_map m) name\<rparr>"
      using x Some True c by (simp_all add: fm_exec_def fm_RemoveFile_def Let_def)
    then show ?thesis using v True w1 fm_view_remove [OF I Some, of f1]
      by (auto simp: fc_exec_def fm_abs_def fun_eq_iff)
  next
    case False
    then have "ok = True" "w' = w" "m' = fm_set_info m q ?f"
      using x Some by (simp_all add: fm_exec_def fm_RemoveFile_def Let_def)
    then show ?thesis using v False fm_view_update [OF I Some g]
      by (auto simp: fc_exec_def fm_abs_def fun_eq_iff)
  qed
qed

text \<open>Sequences of requests, with their results.\<close>

fun fm_run ::
  "'m shm_env \<Rightarrow> fm_op list \<Rightarrow> 'm shm_world \<times> mem_file_map \<Rightarrow> bool list \<times> 'm shm_world \<times> mem_file_map" where
  "fm_run e [] st = ([], st)"
| "fm_run e (op # ops) st = (let (ok, st) = fm_exec e op st; (oks, st) = fm_run e ops st in (ok # oks, st))"

fun fc_run :: "fm_op list \<Rightarrow> file_counts \<Rightarrow> bool list \<times> file_counts" where
  "fc_run [] a = ([], a)"
| "fc_run (op # ops) a = (let (ok, a) = fc_exec op a; (oks, a) = fc_run ops a in (ok # oks, a))"

lemma fm_exec_refines:
  assumes "fm_inv m" "fm_exec e op (w, m) = (ok, w', m')"
  shows "fc_exec op (fm_abs (w, m)) = (ok, fm_abs (w', m'))" "fm_inv m'"
  using assms fm_exec_add [of m e] fm_exec_remove [of m e] by (cases op; blast)+

lemma fm_run_refines:
  "fm_inv m \<Longrightarrow> fm_run e ops (w, m) = (oks, w', m') \<Longrightarrow>
    fc_run ops (fm_abs (w, m)) = (oks, fm_abs (w', m')) \<and> fm_inv m'"
proof (induction ops arbitrary: w m oks w' m')
  case (Cons op ops)
  obtain ok w1 m1 where x: "fm_exec e op (w, m) = (ok, w1, m1)" by (cases "fm_exec e op (w, m)") auto
  obtain oks' w2 m2 where r: "fm_run e ops (w1, m1) = (oks', w2, m2)" by (cases "fm_run e ops (w1, m1)") auto
  show ?case
    using Cons.prems x r fm_exec_refines [OF Cons.prems(1) x] Cons.IH [OF fm_exec_refines(2) [OF Cons.prems(1) x] r]
    by simp
qed simp

definition fm_new :: mem_file_map where
  "fm_new = \<lparr>fm_map = [], fm_infos = (\<lambda>_. mfi_new), fm_next = 0\<rparr>"

lemma fm_inv_new: "fm_inv fm_new"
  by (simp add: fm_inv_def fm_new_def fm_view_def om_invar_def)

text \<open>
  C12. The map of memory files is a reference count: whatever requests a process makes, from the
  first one on, each has the result of the contract, and in the end the counts and the names known
  to the system are those of the contract. In particular a file is unlinked exactly by its last
  user, and only if some user asked for that.
\<close>

theorem file_counts_refined:
  "let (oks, w', m') = fm_run e ops (w, fm_new)
   in fc_run ops \<lparr>fc_count = (\<lambda>_. None), fc_linked = {n. sw_names w n \<noteq> None}\<rparr> = (oks, fm_abs (w', m'))"
proof -
  obtain oks w' m' where r: "fm_run e ops (w, fm_new) = (oks, w', m')" by (cases "fm_run e ops (w, fm_new)") auto
  have "fm_abs (w, fm_new) = \<lparr>fc_count = (\<lambda>_. None), fc_linked = {n. sw_names w n \<noteq> None}\<rparr>"
    by (simp add: fm_abs_def fm_view_def fm_new_def)
  then show ?thesis using fm_run_refines [OF fm_inv_new r] by (simp add: r)
qed

text \<open>Stopping the map closes every file of it; those marked for removal lose their names.\<close>

lemma fm_Stop_empty: "fm_map (snd (fm_Stop w m)) = []"
  by (simp add: fm_Stop_def split_beta)

end
