(* ===== verification/Mem_File_Header.thy ===== *)
theory Mem_File_Header
  imports Ecal_Prelude
begin

text \<open>
  \<open>ecal/core/src/io/shm/ecal_memfile_header.h\<close>: the header a publisher puts in front of the payload in a
  memory file, as bytes. Integers are little-endian; the layout is the natural alignment of a 64-bit
  build: \<open>hdr_size\<close> at 0, \<open>data_size\<close> at 8, \<open>id\<close> at 16, \<open>clock\<close> at 24, \<open>time\<close> at 32, \<open>hash\<close> at 40,
  the option bits at 48 and \<open>ack_timout_ms\<close> at 56, 64 bytes in all. Padding bytes are 0 here; nothing
  reads them.
\<close>

subsection \<open>Little-endian integers\<close>

definition le_bytes :: "nat \<Rightarrow> 'a::len word \<Rightarrow> u8 list" where
  "le_bytes n w = map (\<lambda>i. ucast (drop_bit (8 * i) w)) [0..<n]"

primrec le_word :: "u8 list \<Rightarrow> 'a::len word" where
  "le_word [] = 0"
| "le_word (b # bs) = ucast b OR push_bit 8 (le_word bs)"

lemma length_le_bytes [simp]: "length (le_bytes n w) = n"
  by (simp add: le_bytes_def)

lemma bit_le_word:
  "k < LENGTH('a::len) \<Longrightarrow> bit (le_word bs :: 'a word) k \<longleftrightarrow> k div 8 < length bs \<and> bit (bs ! (k div 8)) (k mod 8)"
proof (induction bs arbitrary: k)
  case (Cons b bs)
  show ?case
  proof (cases "k < 8")
    case True
    then show ?thesis using Cons.prems by (simp add: bit_or_iff bit_push_bit_iff bit_unsigned_iff)
  next
    case False
    then have d: "k div 8 = Suc ((k - 8) div 8)" "k mod 8 = (k - 8) mod 8"
      by (simp_all add: le_div_geq le_mod_geq)
    have "\<not> bit b k" using False bit_imp_le_length [of b k] by auto
    then show ?thesis using Cons.prems Cons.IH [of "k - 8"] False d
      by (simp add: bit_or_iff bit_push_bit_iff bit_unsigned_iff)
  qed
qed simp

lemma le_word_bytes:
  assumes "LENGTH('a) = 8 * n"
  shows "le_word (le_bytes n (w :: 'a::len word)) = w"
proof (rule bit_word_eqI)
  fix k assume k: "k < LENGTH('a)"
  then have d: "k div 8 < n" using assms by (simp add: less_mult_imp_div_less mult.commute)
  have "bit (le_word (le_bytes n w) :: 'a word) k \<longleftrightarrow> bit (le_bytes n w ! (k div 8)) (k mod 8)"
    using bit_le_word [OF k, of "le_bytes n w"] d by simp
  also have "\<dots> \<longleftrightarrow> bit w k"
    using d k by (simp add: le_bytes_def bit_unsigned_iff bit_drop_bit_eq)
  finally show "bit (le_word (le_bytes n w) :: 'a word) k \<longleftrightarrow> bit w k" .
qed

text \<open>A \<open>memcpy\<close> of \<open>src\<close> to offset \<open>off\<close> of \<open>dst\<close>.\<close>

definition splice :: "nat \<Rightarrow> 'a list \<Rightarrow> 'a list \<Rightarrow> 'a list" where
  "splice off src dst = take off dst @ src @ drop (off + length src) dst"

lemma length_splice [simp]: "off + length src \<le> length dst \<Longrightarrow> length (splice off src dst) = length dst"
  by (simp add: splice_def)

lemma splice_read: "off \<le> length dst \<Longrightarrow> take (length src) (drop off (splice off src dst)) = src"
  by (simp add: splice_def)

lemma splice_before: "n \<le> off \<Longrightarrow> off \<le> length dst \<Longrightarrow> take n (splice off src dst) = take n dst"
  by (simp add: splice_def min_def)

subsection \<open>SMemFileHeader\<close>

record mem_file_header =
  mh_hdr_size :: u16
  mh_data_size :: u64
  mh_id :: u64
  mh_clock :: u64
  mh_time :: i64
  mh_hash :: u64
  mh_zero_copy :: bool
  mh_ack_timeout_ms :: i64

definition mh_new :: mem_file_header where
  "mh_new = \<lparr>mh_hdr_size = 64, mh_data_size = 0, mh_id = 0, mh_clock = 0, mh_time = 0, mh_hash = 0,
     mh_zero_copy = False, mh_ack_timeout_ms = 0\<rparr>"

definition mh_bytes :: "mem_file_header \<Rightarrow> u8 list" where
  "mh_bytes h = le_bytes 2 (mh_hdr_size h) @ replicate 6 0 @ le_bytes 8 (mh_data_size h) @ le_bytes 8 (mh_id h) @
     le_bytes 8 (mh_clock h) @ le_bytes 8 (mh_time h) @ le_bytes 8 (mh_hash h) @
     [if mh_zero_copy h then 1 else 0] @ replicate 7 0 @ le_bytes 8 (mh_ack_timeout_ms h)"

definition mh_of_bytes :: "u8 list \<Rightarrow> mem_file_header" where
  "mh_of_bytes bs = \<lparr>mh_hdr_size = le_word (take 2 bs), mh_data_size = le_word (take 8 (drop 8 bs)),
     mh_id = le_word (take 8 (drop 16 bs)), mh_clock = le_word (take 8 (drop 24 bs)),
     mh_time = le_word (take 8 (drop 32 bs)), mh_hash = le_word (take 8 (drop 40 bs)),
     mh_zero_copy = bit (bs ! 48) 0, mh_ack_timeout_ms = le_word (take 8 (drop 56 bs))\<rparr>"

lemma length_mh_bytes [simp]: "length (mh_bytes h) = 64"
  by (simp add: mh_bytes_def)

lemma mh_of_bytes_append: "length bs = 64 \<Longrightarrow> mh_of_bytes (bs @ cs) = mh_of_bytes bs"
  by (simp add: mh_of_bytes_def nth_append)

lemma mh_roundtrip: "mh_of_bytes (mh_bytes h) = h"
proof -
  have 8: "le_word (le_bytes 8 w) = w" for w :: u64 by (rule le_word_bytes) simp
  have 2: "le_word (le_bytes 2 w) = w" for w :: u16 by (rule le_word_bytes) simp
  show ?thesis by (simp add: mh_of_bytes_def mh_bytes_def 8 2 nth_append)
qed

end
