(* ===== verification/Mem_File.thy ===== *)
theory Mem_File
  imports Mem_File_Db Mem_File_Header
begin

text \<open>
  \<open>ecal/core/src/io/shm/ecal_memfile.{h,cpp}\<close>: \<open>CMemoryFile\<close>, access to one named memory file under its
  named mutex. The state a call works on is the object itself, the operating system and the map of the
  process (\<open>'m mf_state\<close>).

  What the mutex does is an argument of each call that locks it: a lock attempt times out (\<open>LkTimeout\<close>)
  or succeeds, with or without having found the previous owner dead. Dereferencing the null pointer of a
  memory file that could not be mapped is the result \<open>None\<close>. The payload begins at the size of the header
  of this version, 24 bytes; a file whose header has another size is covered only as far as its header goes.
\<close>

datatype lock_result = LkTimeout | LkOk bool

datatype access_state = AsClosed | AsRead | AsWrite

record mem_file =
  mf_created :: bool
  mf_auto_sanitizing :: bool
  mf_payload_initialized :: bool
  mf_access :: access_state
  mf_name :: string
  mf_header :: internal_header
  mf_info :: "nat option"

record 'm mf_state =
  ms_file :: mem_file
  ms_world :: "'m shm_world"
  ms_map :: mem_file_map

definition mf_new :: mem_file where
  "mf_new = \<lparr>mf_created = False, mf_auto_sanitizing = False, mf_payload_initialized = False,
     mf_access = AsClosed, mf_name = [], mf_header = ih_new, mf_info = None\<rparr>"

text \<open>The mapped memory of the file: the number of its object.\<close>

definition mf_mem :: "'m mf_state \<Rightarrow> nat option" where
  "mf_mem s = (case mf_info (ms_file s) of None \<Rightarrow> None
     | Some r \<Rightarrow> (let f = fm_infos (ms_map s) r in if mfi_mapped f then mfi_memfile f else None))"

definition mf_set_object :: "nat \<Rightarrow> ('m shm_object \<Rightarrow> 'm shm_object) \<Rightarrow> 'm mf_state \<Rightarrow> 'm mf_state" where
  "mf_set_object i f s =
     s\<lparr>ms_world := (ms_world s)\<lparr>sw_objects := (sw_objects (ms_world s))(i := f (sw_objects (ms_world s) i))\<rparr>\<rparr>"

definition mf_object :: "'m mf_state \<Rightarrow> nat \<Rightarrow> 'm shm_object" where
  "mf_object s i = sw_objects (ms_world s) i"

definition mf_upd :: "(mem_file \<Rightarrow> mem_file) \<Rightarrow> 'm mf_state \<Rightarrow> 'm mf_state" where
  "mf_upd f s = s\<lparr>ms_file := f (ms_file s)\<rparr>"

text \<open>
  \<open>memcpy(&m_header, address, min(sizeof(SInternalHeader), n))\<close>: a header of another version may be
  shorter, so a field can be copied in part. On a little-endian machine the first \<open>k\<close> bytes are
  the low ones.
\<close>

definition copy_low :: "nat \<Rightarrow> 'a::len word \<Rightarrow> 'a word \<Rightarrow> 'a word" where
  "copy_low k src dst = (src AND mask (8 * k)) OR (dst AND NOT (mask (8 * k)))"

definition ih_copy :: "u16 \<Rightarrow> internal_header \<Rightarrow> internal_header \<Rightarrow> internal_header" where
  "ih_copy hdr_size src dst =
     (let n = min 24 (unat hdr_size) in
      \<lparr>ih_size = copy_low n (ih_size src) (ih_size dst),
       ih_cur_data_size = copy_low (n - 8) (ih_cur_data_size src) (ih_cur_data_size dst),
       ih_max_data_size = copy_low (n - 16) (ih_max_data_size src) (ih_max_data_size dst)\<rparr>)"

subsection \<open>Create and Destroy\<close>

definition mf_Destroy :: "bool \<Rightarrow> 'm mf_state \<Rightarrow> bool \<times> 'm mf_state" where
  "mf_Destroy remove s =
     (if \<not> mf_created (ms_file s) then (False, s)
      else (let (ok, w, m) = fm_RemoveFile (ms_world s) (ms_map s) (mf_name (ms_file s)) remove
        in (ok, \<lparr>ms_file = (ms_file s)\<lparr>mf_created := False, mf_payload_initialized := False, mf_access := AsClosed,
             mf_name := [], mf_header := ih_new, mf_info := None\<rparr>, ms_world = w, ms_map = m\<rparr>)))"

text \<open>Dropping an old connection and adding the new file to the map.\<close>

definition mf_reconnect :: "'m shm_env \<Rightarrow> string \<Rightarrow> bool \<Rightarrow> nat \<Rightarrow> 'm mf_state \<Rightarrow> bool \<times> 'm mf_state" where
  "mf_reconnect e name create len s =
     (let (_, s) = mf_Destroy create s;
          (r, m) = fm_new_info (ms_map s);
          (ok, r, w, m) = fm_AddFile e (ms_world s) m name create (if create then len + 24 else 2) r
      in (ok, \<lparr>ms_file = (ms_file s)\<lparr>mf_created := False, mf_payload_initialized := False, mf_access := AsClosed,
           mf_name := [], mf_header := ih_new, mf_info := Some r\<rparr>, ms_world = w, ms_map = m\<rparr>))"

text \<open>
  The header of a file that is created: a new file gets this one, an existing one is read. If the
  lock cannot be taken the header is neither read nor written.
\<close>

definition mf_init_header :: "lock_result \<Rightarrow> nat \<Rightarrow> 'm mf_state \<Rightarrow> 'm mf_state option" where
  "mf_init_header lk len s =
     (let s = mf_upd (\<lambda>f. f\<lparr>mf_header := (mf_header f)\<lparr>ih_max_data_size := word_of_nat len\<rparr>\<rparr>) s in
      case lk of
        LkTimeout \<Rightarrow> Some s
      | LkOk recovered \<Rightarrow>
          (case mf_info (ms_file s) of
             None \<Rightarrow> None
           | Some r \<Rightarrow>
               (case mf_mem s of
                  None \<Rightarrow> Some s
                | Some i \<Rightarrow>
                    (let h = so_header (mf_object s i) in
                     Some (if \<not> mfi_exists (fm_infos (ms_map s) r) \<or> ih_size h = 0 \<or>
                              (mf_auto_sanitizing (ms_file s) \<and> recovered)
                           then mf_set_object i (\<lambda>so. so\<lparr>so_header := mf_header (ms_file s)\<rparr>) s
                           else mf_upd (\<lambda>f. f\<lparr>mf_header := ih_copy (ih_size h) h (mf_header f)\<rparr>) s)))))"

text \<open>The header of a file that is opened: its size is checked first, which may map the file anew.\<close>

definition mf_read_header :: "'m shm_env \<Rightarrow> lock_result \<Rightarrow> 'm mf_state \<Rightarrow> 'm mf_state option" where
  "mf_read_header e lk s =
     (case lk of
        LkTimeout \<Rightarrow> Some s
      | LkOk _ \<Rightarrow>
          (case (mf_info (ms_file s), mf_mem s) of
             (Some r, Some i) \<Rightarrow>
               (let hs = ih_size (so_header (mf_object s i));
                    (w, m) = fm_CheckFileSize e (ms_world s) (ms_map s) (unat hs) r;
                    s = s\<lparr>ms_world := w, ms_map := m\<rparr>
                in (case mf_mem s of
                      None \<Rightarrow> None
                    | Some i \<Rightarrow> Some (mf_upd (\<lambda>f. f\<lparr>mf_header := ih_copy hs (so_header (mf_object s i)) (mf_header f)\<rparr>) s)))
           | _ \<Rightarrow> None))"

text \<open>\<open>mtx_ok\<close>: the named mutex could be created.\<close>

definition mf_Create ::
  "'m shm_env \<Rightarrow> bool \<Rightarrow> lock_result \<Rightarrow> string \<Rightarrow> bool \<Rightarrow> nat \<Rightarrow> bool \<Rightarrow> 'm mf_state \<Rightarrow> (bool \<times> 'm mf_state) option" where
  "mf_Create e mtx_ok lk name create len auto s =
     (let s = mf_upd (\<lambda>f. f\<lparr>mf_auto_sanitizing := auto\<rparr>) s;
          (added, s) =
            (if mf_name (ms_file s) \<noteq> name \<or>
                (create \<and> len > 0 \<and> ih_max_data_size (mf_header (ms_file s)) \<noteq> word_of_nat len)
             then mf_reconnect e name create len s else (True, s))
      in if \<not> added \<or> \<not> mtx_ok then Some (False, s)
         else map_option (\<lambda>s. (True, mf_upd (\<lambda>f. f\<lparr>mf_created := True, mf_name := name\<rparr>) s))
           (if create then mf_init_header lk len s else mf_read_header e lk s))"

subsection \<open>Access\<close>

definition mf_GetAccess :: "'m shm_env \<Rightarrow> lock_result \<Rightarrow> 'm mf_state \<Rightarrow> bool \<times> 'm mf_state" where
  "mf_GetAccess e lk s =
     (if \<not> mf_created (ms_file s) then (False, s)
      else case (mf_info (ms_file s), mf_mem s) of
          (Some r, Some i) \<Rightarrow>
            (case lk of
               LkTimeout \<Rightarrow> (False, s)
             | LkOk recovered \<Rightarrow>
                 (let s = (if mf_auto_sanitizing (ms_file s) \<and> recovered
                        then (let s = mf_upd (\<lambda>f. f\<lparr>mf_header := (mf_header f)\<lparr>ih_cur_data_size := 0\<rparr>\<rparr>) s
                          in mf_set_object i (\<lambda>so. so\<lparr>so_header := mf_header (ms_file s)\<rparr>) s)
                        else s);
                      s = mf_upd (\<lambda>f. f\<lparr>mf_header := ih_copy (ih_size (mf_header f)) (so_header (mf_object s i)) (mf_header f)\<rparr>) s;
                      h = mf_header (ms_file s);
                      len = unat (ucast (ih_size h) + ih_max_data_size h :: u64)
                  in if len > mfi_size (fm_infos (ms_map s) r)
                     then (let (w, m) = fm_CheckFileSize e (ms_world s) (ms_map s) len r
                       in (len \<le> mfi_size (fm_infos m r), s\<lparr>ms_world := w, ms_map := m\<rparr>))
                     else (True, s)))
        | _ \<Rightarrow> (False, s))"

definition mf_set_access :: "access_state \<Rightarrow> 'm mf_state \<Rightarrow> 'm mf_state" where
  "mf_set_access a = mf_upd (\<lambda>f. f\<lparr>mf_access := a\<rparr>)"

definition mf_GetReadAccess :: "'m shm_env \<Rightarrow> lock_result \<Rightarrow> 'm mf_state \<Rightarrow> bool \<times> 'm mf_state" where
  "mf_GetReadAccess e lk s =
     (let (ok, s) = mf_GetAccess e lk s in if ok then (True, mf_set_access AsRead s) else (False, s))"

definition mf_GetWriteAccess :: "'m shm_env \<Rightarrow> lock_result \<Rightarrow> 'm mf_state \<Rightarrow> bool \<times> 'm mf_state" where
  "mf_GetWriteAccess e lk s =
     (let (ok, s) = mf_GetAccess e lk s in if ok then (True, mf_set_access AsWrite s) else (False, s))"

definition mf_ReleaseReadAccess :: "'m mf_state \<Rightarrow> bool \<times> 'm mf_state" where
  "mf_ReleaseReadAccess s =
     (if \<not> mf_created (ms_file s) \<or> mf_access (ms_file s) \<noteq> AsRead then (False, s)
      else (True, mf_set_access AsClosed s))"

definition mf_ReleaseWriteAccess :: "'m mf_state \<Rightarrow> bool \<times> 'm mf_state" where
  "mf_ReleaseWriteAccess s =
     (if \<not> mf_created (ms_file s) \<or> mf_access (ms_file s) \<noteq> AsWrite then (False, s)
      else (True, mf_set_access AsClosed s))"

text \<open>
  The address of the payload, as the object it belongs to; \<open>None\<close> is the result 0. Getting it for
  writing sets the current data size.
\<close>

definition mf_GetReadAddress :: "u64 \<Rightarrow> 'm mf_state \<Rightarrow> nat option" where
  "mf_GetReadAddress len s =
     (let f = ms_file s in
      if \<not> mf_created f \<or> mf_access f \<noteq> AsRead \<or> len = 0 \<or> len > ih_cur_data_size (mf_header f) then None
      else mf_mem s)"

definition mf_GetWriteAddress :: "u64 \<Rightarrow> 'm mf_state \<Rightarrow> nat option \<times> 'm mf_state" where
  "mf_GetWriteAddress len s =
     (let f = ms_file s in
      if \<not> mf_created f \<or> mf_access f \<noteq> AsWrite \<or> len = 0 \<or> len > ih_max_data_size (mf_header f) then (None, s)
      else case mf_mem s of
          None \<Rightarrow> (None, s)
        | Some i \<Rightarrow> (Some i, mf_set_object i (\<lambda>so. so\<lparr>so_header := (so_header so)\<lparr>ih_cur_data_size := len\<rparr>\<rparr>)
            (mf_upd (\<lambda>f. f\<lparr>mf_header := (mf_header f)\<lparr>ih_cur_data_size := len\<rparr>\<rparr>) s)))"

definition mf_MaxDataSize :: "'m mf_state \<Rightarrow> u64" where
  "mf_MaxDataSize s = ih_max_data_size (mf_header (ms_file s))"

definition mf_CurDataSize :: "'m mf_state \<Rightarrow> u64" where
  "mf_CurDataSize s = ih_cur_data_size (mf_header (ms_file s))"

subsection \<open>Reading and writing bytes\<close>

text \<open>\<open>Read\<close> into a buffer that is not null: the bytes read, or \<open>None\<close> for the result 0.\<close>

definition mf_Read :: "u64 \<Rightarrow> u64 \<Rightarrow> u8 list mf_state \<Rightarrow> u8 list option" where
  "mf_Read len off s =
     (case mf_GetReadAddress (len + off) s of
        None \<Rightarrow> None
      | Some i \<Rightarrow> Some (take (unat len) (drop (unat off) (so_payload (mf_object s i)))))"

definition mf_write_at :: "nat \<Rightarrow> u64 \<Rightarrow> u8 list \<Rightarrow> u8 list mf_state \<Rightarrow> u8 list mf_state" where
  "mf_write_at i off bs = mf_set_object i (\<lambda>so. so\<lparr>so_payload := splice (unat off) bs (so_payload so)\<rparr>)"

definition mf_WriteBuffer :: "u8 list \<Rightarrow> u64 \<Rightarrow> u8 list mf_state \<Rightarrow> u64 \<times> u8 list mf_state" where
  "mf_WriteBuffer bs off s =
     (if \<not> mf_created (ms_file s) then (0, s)
      else (let len = word_of_nat (length bs) in
        case mf_GetWriteAddress (len + off) s of
          (None, s) \<Rightarrow> (0, s)
        | (Some i, s) \<Rightarrow> (len, mf_write_at i off bs s)))"

text \<open>
  \<open>CPayloadWriter\<close>: both operations get the memory of the payload and return whether they succeeded,
  with the memory as they left it.
\<close>

record payload_writer =
  pw_WriteFull :: "u8 list \<Rightarrow> bool \<times> u8 list"
  pw_WriteModified :: "u8 list \<Rightarrow> bool \<times> u8 list"

definition mf_WritePayload :: "payload_writer \<Rightarrow> u64 \<Rightarrow> u64 \<Rightarrow> bool \<Rightarrow> u8 list mf_state \<Rightarrow> u64 \<times> u8 list mf_state" where
  "mf_WritePayload pw len off force s =
     (if \<not> mf_created (ms_file s) then (0, s)
      else case mf_GetWriteAddress (len + off) s of
          (None, s) \<Rightarrow> (0, s)
        | (Some i, s) \<Rightarrow>
            (let buf = take (unat len) (drop (unat off) (so_payload (mf_object s i))) in
             if \<not> mf_payload_initialized (ms_file s) \<or> force
             then (let (success, buf) = pw_WriteFull pw buf; s = mf_write_at i off buf s
               in (len, if success then mf_upd (\<lambda>f. f\<lparr>mf_payload_initialized := True\<rparr>) s else s))
             else (let (_, buf) = pw_WriteModified pw buf in (len, mf_write_at i off buf s))))"

subsection \<open>A file that is attached to an object\<close>

text \<open>The object has a header of this version, and its size does not wrap.\<close>

definition so_valid :: "'m shm_object \<Rightarrow> bool" where
  "so_valid so \<longleftrightarrow> ih_size (so_header so) = 24 \<and> unat (ih_max_data_size (so_header so)) + 24 < 2 ^ 64"

definition mf_attached :: "'m mf_state \<Rightarrow> nat \<Rightarrow> bool" where
  "mf_attached s i \<longleftrightarrow> mf_created (ms_file s) \<and> mf_mem s = Some i \<and> ih_size (mf_header (ms_file s)) = 24"

lemma copy_low_all: "LENGTH('a) \<le> 8 * k \<Longrightarrow> copy_low k src (dst :: 'a::len word) = src"
  by (rule bit_word_eqI) (auto simp: copy_low_def bit_and_iff bit_or_iff bit_not_iff bit_mask_iff)

lemma ih_copy_24 [simp]: "ih_copy 24 src dst = src"
  by (simp add: ih_copy_def copy_low_all)

lemma mf_mem_some: "mf_mem s = Some i \<Longrightarrow> \<exists>r. mf_info (ms_file s) = Some r \<and>
    mfi_mapped (fm_infos (ms_map s) r) \<and> mfi_memfile (fm_infos (ms_map s) r) = Some i"
  by (auto simp: mf_mem_def Let_def split: option.splits if_splits)

lemma mf_mem_upd [simp]: "mf_info (f (ms_file s)) = mf_info (ms_file s) \<Longrightarrow> mf_mem (mf_upd f s) = mf_mem s"
  by (simp add: mf_mem_def mf_upd_def split: option.split)

lemma mf_mem_cong: "mf_info (ms_file s) = mf_info (ms_file s') \<Longrightarrow> ms_map s = ms_map s' \<Longrightarrow> mf_mem s = mf_mem s'"
  by (simp add: mf_mem_def split: option.split)

lemma mf_set_object_simps [simp]:
  "ms_file (mf_set_object i f s) = ms_file s" "ms_map (mf_set_object i f s) = ms_map s"
  "mf_mem (mf_set_object i f s) = mf_mem s"
  "mf_object (mf_set_object i f s) j = (if j = i then f (mf_object s i) else mf_object s j)"
  by (simp_all add: mf_set_object_def mf_mem_def mf_object_def split: option.split)

lemma mf_upd_simps [simp]:
  "ms_file (mf_upd f s) = f (ms_file s)" "ms_world (mf_upd f s) = ms_world s" "ms_map (mf_upd f s) = ms_map s"
  "mf_object (mf_upd f s) = mf_object s"
  by (simp_all add: mf_upd_def mf_object_def fun_eq_iff)

text \<open>Mapping an open file anew, without truncating it.\<close>

lemma shm_CheckFileSize_remap:
  assumes "mfi_memfile f = Some i" "mfi_mapped f" "se_mmap_ok e"
  shows "\<exists>f'. shm_CheckFileSize e n False w f = (True, w, f') \<and> mfi_mapped f' \<and> mfi_memfile f' = Some i \<and> n \<le> mfi_size f'"
  using assms by (auto simp: shm_CheckFileSize_def shm_UnMapFile_def shm_MapFile_def Let_def)

lemma mf_GetAccess_ok:
  assumes "mf_attached s i" "so_valid (mf_object s i)" "se_mmap_ok e" "\<not> mf_auto_sanitizing (ms_file s) \<or> \<not> rec"
  shows "\<exists>m. mf_GetAccess e (LkOk rec) s = (True, s\<lparr>ms_map := m,
      ms_file := (ms_file s)\<lparr>mf_header := so_header (mf_object s i)\<rparr>\<rparr>) \<and>
    mf_mem (s\<lparr>ms_map := m\<rparr>) = Some i"
proof -
  let ?h = "so_header (mf_object s i)"
  obtain r where r: "mf_info (ms_file s) = Some r" "mfi_mapped (fm_infos (ms_map s) r)"
    "mfi_memfile (fm_infos (ms_map s) r) = Some i" "mf_created (ms_file s)" "ih_size (mf_header (ms_file s)) = 24"
    "mf_mem s = Some i"
    using assms(1) mf_mem_some by (auto simp: mf_attached_def)
  let ?len = "unat (ucast (ih_size ?h) + ih_max_data_size ?h :: u64)"
  obtain f' where f': "shm_CheckFileSize e ?len False (ms_world s) (fm_infos (ms_map s) r) = (True, ms_world s, f')"
    "mfi_mapped f'" "mfi_memfile f' = Some i" "?len \<le> mfi_size f'"
    using shm_CheckFileSize_remap [OF r(3,2) assms(3), of ?len "ms_world s"] by blast
  let ?s = "mf_upd (\<lambda>f. f\<lparr>mf_header := ?h\<rparr>) s"
  have g: "mf_GetAccess e (LkOk rec) s =
      (if ?len > mfi_size (fm_infos (ms_map s) r)
       then (let (w, m) = fm_CheckFileSize e (ms_world s) (ms_map s) ?len r
         in (?len \<le> mfi_size (fm_infos m r), ?s\<lparr>ms_world := w, ms_map := m\<rparr>))
       else (True, ?s))"
  proof -
    have u: "mf_upd (\<lambda>f. f\<lparr>mf_header := ih_copy (ih_size (mf_header f)) ?h (mf_header f)\<rparr>) s = ?s"
      using r(5) by (simp add: mf_upd_def)
    show ?thesis
      using assms(4) r(1,4-6) unfolding mf_GetAccess_def by (cases rec) (simp_all add: Let_def u)
  qed
  show ?thesis
  proof (cases "mfi_size (fm_infos (ms_map s) r) < ?len")
    case True
    then show ?thesis using r f'
      by (intro exI [of _ "fm_set_info (ms_map s) r f'"])
        (simp add: g fm_CheckFileSize_def mf_upd_def mf_mem_def fm_set_info_def)
  next
    case False
    then show ?thesis using r(6)
      by (intro exI [of _ "ms_map s"]) (simp add: g mf_upd_def)
  qed
qed

text \<open>The lock is refused, the file not attached: no access and nothing changed.\<close>

lemma mf_GetAccess_refused: "mf_GetAccess e LkTimeout s = (False, s)"
  by (simp add: mf_GetAccess_def split: option.split)

subsection \<open>Writing under the lock\<close>

text \<open>The file is open for writing and its header is the one in memory.\<close>

definition mf_writing :: "'m mf_state \<Rightarrow> nat \<Rightarrow> bool" where
  "mf_writing s i \<longleftrightarrow> mf_created (ms_file s) \<and> mf_mem s = Some i \<and> mf_access (ms_file s) = AsWrite \<and>
     mf_header (ms_file s) = so_header (mf_object s i) \<and> so_valid (mf_object s i) \<and> \<not> mf_auto_sanitizing (ms_file s)"

abbreviation so_max :: "'m shm_object \<Rightarrow> nat" where
  "so_max so \<equiv> unat (ih_max_data_size (so_header so))"

lemma mf_GetWriteAccess_ok:
  assumes "mf_attached s i" "so_valid (mf_object s i)" "se_mmap_ok e" "\<not> mf_auto_sanitizing (ms_file s)"
  obtains s' where "mf_GetWriteAccess e (LkOk rec) s = (True, s')" "mf_writing s' i" "ms_world s' = ms_world s"
    "mf_name (ms_file s') = mf_name (ms_file s)"
proof -
  obtain m where m: "mf_GetAccess e (LkOk rec) s = (True, s\<lparr>ms_map := m,
      ms_file := (ms_file s)\<lparr>mf_header := so_header (mf_object s i)\<rparr>\<rparr>)" "mf_mem (s\<lparr>ms_map := m\<rparr>) = Some i"
    using mf_GetAccess_ok [OF assms(1-3) disjI1 [OF assms(4)], of rec] by blast
  let ?s = "mf_set_access AsWrite (s\<lparr>ms_map := m, ms_file := (ms_file s)\<lparr>mf_header := so_header (mf_object s i)\<rparr>\<rparr>)"
  have "mf_mem ?s = mf_mem (s\<lparr>ms_map := m\<rparr>)" by (rule mf_mem_cong) (simp_all add: mf_set_access_def)
  then have "mf_mem ?s = Some i" using m(2) by simp
  then have "mf_writing ?s i" using assms(1,2,4)
    by (simp add: mf_writing_def mf_attached_def mf_set_access_def mf_upd_def mf_object_def)
  then show ?thesis using m(1) by (intro that [of ?s]) (simp_all add: mf_GetWriteAccess_def mf_set_access_def mf_upd_def)
qed

lemma mf_GetReadAccess_ok:
  assumes "mf_attached s i" "so_valid (mf_object s i)" "se_mmap_ok e" "\<not> mf_auto_sanitizing (ms_file s) \<or> \<not> rec"
  obtains s' where "mf_GetReadAccess e (LkOk rec) s = (True, s')" "ms_world s' = ms_world s" "mf_mem s' = Some i"
    "ms_file s' = (ms_file s)\<lparr>mf_header := so_header (mf_object s i), mf_access := AsRead\<rparr>"
proof -
  obtain m where m: "mf_GetAccess e (LkOk rec) s = (True, s\<lparr>ms_map := m,
      ms_file := (ms_file s)\<lparr>mf_header := so_header (mf_object s i)\<rparr>\<rparr>)" "mf_mem (s\<lparr>ms_map := m\<rparr>) = Some i"
    using mf_GetAccess_ok [OF assms] by blast
  let ?s = "mf_set_access AsRead (s\<lparr>ms_map := m, ms_file := (ms_file s)\<lparr>mf_header := so_header (mf_object s i)\<rparr>\<rparr>)"
  have "mf_mem ?s = mf_mem (s\<lparr>ms_map := m\<rparr>)" by (rule mf_mem_cong) (simp_all add: mf_set_access_def)
  then have "mf_mem ?s = Some i" using m(2) by simp
  then show ?thesis using m(1) by (intro that [of ?s]) (simp_all add: mf_GetReadAccess_def mf_set_access_def mf_upd_def)
qed

text \<open>The object after a write of \<open>bs\<close> at \<open>off\<close>.\<close>

definition so_write :: "nat \<Rightarrow> u8 list \<Rightarrow> u8 list shm_object \<Rightarrow> u8 list shm_object" where
  "so_write off bs so = so\<lparr>so_header := (so_header so)\<lparr>ih_cur_data_size := word_of_nat (off + length bs)\<rparr>,
     so_payload := splice off bs (so_payload so)\<rparr>"

lemma so_write_simps [simp]:
  "so_max (so_write off bs so) = so_max so" "so_valid (so_write off bs so) = so_valid so"
  "so_payload (so_write off bs so) = splice off bs (so_payload so)"
  "ih_cur_data_size (so_header (so_write off bs so)) = word_of_nat (off + length bs)"
  "ih_size (so_header (so_write off bs so)) = ih_size (so_header so)"
  by (simp_all add: so_write_def so_valid_def)

lemma word_sum_fits:
  fixes off :: u64
  assumes "unat off + n \<le> unat (m :: u64)"
  shows "word_of_nat n + off = word_of_nat (unat off + n)" "unat (word_of_nat n + off) = unat off + n"
    "\<not> word_of_nat n + off > m" "unat (word_of_nat n :: u64) = n"
proof -
  have b: "unat off + n < 2 ^ 64" using assms unat_lt_u64 [of m] by (simp del: unat_lt_u64)
  then show n: "unat (word_of_nat n :: u64) = n" by (simp add: unat_of_nat)
  show e: "word_of_nat n + off = word_of_nat (unat off + n)" by simp
  show u: "unat (word_of_nat n + off) = unat off + n" using unat_base_plus [OF b] by (simp add: add.commute)
  show "\<not> word_of_nat n + off > m" using assms by (simp add: word_less_nat_alt u)
qed

lemma mf_GetWriteAddress_ok:
  fixes off :: u64
  assumes "mf_writing s i" "0 < n" "unat off + n \<le> so_max (mf_object s i)"
  shows "mf_GetWriteAddress (word_of_nat n + off) s = (Some i, mf_set_object i
      (\<lambda>so. so\<lparr>so_header := (so_header so)\<lparr>ih_cur_data_size := word_of_nat n + off\<rparr>\<rparr>)
      (mf_upd (\<lambda>f. f\<lparr>mf_header := (mf_header f)\<lparr>ih_cur_data_size := word_of_nat n + off\<rparr>\<rparr>) s))"
proof -
  note w = word_sum_fits [OF assms(3)]
  have "word_of_nat n + off \<noteq> 0" using w(2) assms(2) by auto
  then show ?thesis using assms(1) w(3) by (simp add: mf_GetWriteAddress_def mf_writing_def Let_def)
qed

lemma mf_writing_write:
  assumes "mf_writing s i" "unat off + length bs \<le> so_max (mf_object s i)"
  defines "s' \<equiv> mf_write_at i off bs (mf_set_object i
      (\<lambda>so. so\<lparr>so_header := (so_header so)\<lparr>ih_cur_data_size := word_of_nat (length bs) + off\<rparr>\<rparr>)
      (mf_upd (\<lambda>f. f\<lparr>mf_header := (mf_header f)\<lparr>ih_cur_data_size := word_of_nat (length bs) + off\<rparr>\<rparr>) s))"
  shows "mf_writing s' i" "mf_object s' i = so_write (unat off) bs (mf_object s i)"
proof -
  show "mf_object s' i = so_write (unat off) bs (mf_object s i)"
    using word_sum_fits(1) [OF assms(2)] by (simp add: s'_def mf_write_at_def so_write_def)
  then show "mf_writing s' i" using assms(1) word_sum_fits(1) [OF assms(2)]
    by (auto simp: mf_writing_def s'_def mf_write_at_def so_write_def so_valid_def)
qed

lemma mf_WriteBuffer_ok:
  assumes "mf_writing s i" "bs \<noteq> []" "unat off + length bs \<le> so_max (mf_object s i)"
  obtains s' where "mf_WriteBuffer bs off s = (word_of_nat (length bs), s')" "mf_writing s' i"
    "mf_object s' i = so_write (unat off) bs (mf_object s i)"
  using assms mf_GetWriteAddress_ok [OF assms(1) _ assms(3)] mf_writing_write [OF assms(1,3)]
  by (simp add: mf_WriteBuffer_def mf_writing_def Let_def)

text \<open>Writing leaves the names alone.\<close>

lemma mf_WriteBuffer_names: "sw_names (ms_world (snd (mf_WriteBuffer bs off s))) = sw_names (ms_world s)"
  by (auto simp: mf_WriteBuffer_def mf_GetWriteAddress_def mf_write_at_def mf_set_object_def Let_def split: option.split)

lemma mf_ReleaseWriteAccess_world: "ms_world (snd (mf_ReleaseWriteAccess s)) = ms_world s"
  by (simp add: mf_ReleaseWriteAccess_def mf_set_access_def)

text \<open>The object has room for a payload of \<open>n\<close> bytes behind a header of 64.\<close>

definition so_fits :: "u8 list shm_object \<Rightarrow> nat \<Rightarrow> bool" where
  "so_fits so n \<longleftrightarrow> so_valid so \<and> 64 + n \<le> so_max so \<and> 64 + n \<le> length (so_payload so)"

lemma so_fits_write: "off + length bs \<le> length (so_payload so) \<Longrightarrow> so_fits (so_write off bs so) n = so_fits so n"
  by (simp add: so_fits_def)

lemma mf_writing_release:
  assumes "mf_writing s i"
  shows "mf_attached (snd (mf_ReleaseWriteAccess s)) i" "mf_object (snd (mf_ReleaseWriteAccess s)) i = mf_object s i"
    "\<not> mf_auto_sanitizing (ms_file (snd (mf_ReleaseWriteAccess s)))"
  using assms by (auto simp: mf_ReleaseWriteAccess_def mf_writing_def mf_set_access_def mf_attached_def so_valid_def)

text \<open>A payload writer that is a plain buffer (\<open>CBufferPayloadWriter\<close>): it fills the memory it is given.\<close>

definition pw_fills :: "payload_writer \<Rightarrow> u8 list \<Rightarrow> bool" where
  "pw_fills pw bs \<longleftrightarrow> (\<forall>buf. bs \<noteq> [] \<longrightarrow> length buf = length bs \<longrightarrow> pw_WriteFull pw buf = (True, bs) \<and> pw_WriteModified pw buf = (True, bs))"

lemma mf_WritePayload_ok:
  assumes "mf_writing s i" "bs \<noteq> []" "unat off + length bs \<le> so_max (mf_object s i)" "pw_fills pw bs"
    "unat off + length bs \<le> length (so_payload (mf_object s i))"
  obtains s' where "mf_WritePayload pw (word_of_nat (length bs)) off force s = (word_of_nat (length bs), s')" "mf_writing s' i"
    "mf_object s' i = so_write (unat off) bs (mf_object s i)"
proof -
  let ?s = "mf_set_object i (\<lambda>so. so\<lparr>so_header := (so_header so)\<lparr>ih_cur_data_size := word_of_nat (length bs) + off\<rparr>\<rparr>)
      (mf_upd (\<lambda>f. f\<lparr>mf_header := (mf_header f)\<lparr>ih_cur_data_size := word_of_nat (length bs) + off\<rparr>\<rparr>) s)"
  note w = mf_writing_write [OF assms(1,3)]
  have g: "mf_GetWriteAddress (word_of_nat (length bs) + off) s = (Some i, ?s)"
    using mf_GetWriteAddress_ok [OF assms(1) _ assms(3)] assms(2) by simp
  have c: "mf_created (ms_file s)" using assms(1) by (simp add: mf_writing_def)
  have "length (take (length bs) (drop (unat off) (so_payload (mf_object ?s i)))) = length bs"
    using assms(5) by simp
  then have f: "pw_WriteFull pw (take (length bs) (drop (unat off) (so_payload (mf_object ?s i)))) = (True, bs)"
    "pw_WriteModified pw (take (length bs) (drop (unat off) (so_payload (mf_object ?s i)))) = (True, bs)"
    using assms(2,4) by (simp_all add: pw_fills_def)
  have l: "unat (word_of_nat (length bs) :: u64) = length bs" using word_sum_fits(4) [OF assms(3)] .
  show ?thesis
  proof (cases "\<not> mf_payload_initialized (ms_file ?s) \<or> force")
    case True
    let ?t = "mf_upd (\<lambda>f. f\<lparr>mf_payload_initialized := True\<rparr>) (mf_write_at i off bs ?s)"
    have "mf_WritePayload pw (word_of_nat (length bs)) off force s = (word_of_nat (length bs), ?t)"
      using True c f unfolding mf_WritePayload_def g by (simp add: l Let_def)
    moreover have "mf_writing ?t i" using w(1) unfolding mf_writing_def by simp
    moreover have "mf_object ?t i = so_write (unat off) bs (mf_object s i)" using w(2) by simp
    ultimately show ?thesis by (rule that)
  next
    case False
    then have "mf_WritePayload pw (word_of_nat (length bs)) off force s = (word_of_nat (length bs), mf_write_at i off bs ?s)"
      using c f unfolding mf_WritePayload_def g by (simp add: l Let_def)
    then show ?thesis using w by (rule that)
  qed
qed

subsection \<open>Reading under the lock\<close>

text \<open>The file is open for reading and the header is the one in memory.\<close>

definition mf_reading :: "'m mf_state \<Rightarrow> nat \<Rightarrow> bool" where
  "mf_reading s i \<longleftrightarrow> mf_created (ms_file s) \<and> mf_mem s = Some i \<and> mf_access (ms_file s) = AsRead \<and>
     mf_header (ms_file s) = so_header (mf_object s i)"

lemma mf_Read_ok:
  assumes "mf_reading s i" "0 < unat n" "unat n + unat off \<le> unat (ih_cur_data_size (so_header (mf_object s i)))"
  shows "mf_Read n off s = Some (take (unat n) (drop (unat off) (so_payload (mf_object s i))))"
proof -
  have "unat n + unat off < 2 ^ 64" using assms(3) unat_lt_u64 [of "ih_cur_data_size (so_header (mf_object s i))"]
    by (simp del: unat_lt_u64)
  then have u: "unat (n + off) = unat n + unat off" by (rule unat_add_nowrap)
  then have "n + off \<noteq> 0" "\<not> n + off > ih_cur_data_size (so_header (mf_object s i))"
    using assms(2,3) by (auto simp: word_less_nat_alt)
  then show ?thesis using assms(1) by (simp add: mf_Read_def mf_GetReadAddress_def mf_reading_def)
qed

subsection \<open>A new file\<close>

text \<open>Memory files of bytes: an object of size \<open>n\<close> has \<open>n - 24\<close> bytes behind its header.\<close>

definition bytes_ops :: "u8 list mem_ops" where
  "bytes_ops = \<lparr>mo_zero = (\<lambda>n. replicate (n - 24) 0),
     mo_resize = (\<lambda>n bs. take (n - 24) bs @ replicate (n - 24 - length bs) 0)\<rparr>"

text \<open>The name is unknown to the process and to the system, and the system calls succeed.\<close>

definition mf_fresh :: "string \<Rightarrow> 'm mf_state \<Rightarrow> bool" where
  "mf_fresh name s \<longleftrightarrow> name \<noteq> [] \<and> mf_name (ms_file s) = [] \<and> \<not> mf_created (ms_file s) \<and>
     om_find id (fm_map (ms_map s)) name = None \<and> sw_names (ms_world s) (shm_posix_name name) = None"

lemma mf_Create_new:
  assumes "mf_fresh name s" "0 < len" "len + 24 < 2 ^ 64" "se_mmap_ok e" "se_ops e = bytes_ops"
  obtains s' i where "mf_Create e True (LkOk rec) name True len False s = Some (True, s')" "mf_attached s' i"
    "so_valid (mf_object s' i)" "so_max (mf_object s' i) = len" "len \<le> length (so_payload (mf_object s' i))"
    "\<not> mf_auto_sanitizing (ms_file s')" "sw_names (ms_world s') (shm_posix_name name) = Some i"
proof -
  let ?i = "sw_next (ms_world s)" and ?r = "fm_next (ms_map s)" and ?n = "shm_posix_name name"
  let ?sz = "max (len + 24) (se_page_size e)" and ?h = "ih_new\<lparr>ih_max_data_size := word_of_nat len\<rparr>"
  let ?so = "\<lparr>so_size = ?sz, so_header = ih_zero, so_payload = replicate (?sz - 24) 0\<rparr> :: u8 list shm_object"
  let ?w = "(ms_world s)\<lparr>sw_names := (sw_names (ms_world s))(?n \<mapsto> ?i), sw_next := Suc ?i,
    sw_objects := (sw_objects (ms_world s))(?i := ?so)\<rparr>"
  let ?f = "\<lparr>mfi_refcnt = 1, mfi_remove = False, mfi_memfile = Some ?i, mfi_mapped = True, mfi_name = ?n, mfi_size = ?sz, mfi_exists = False\<rparr>"
  let ?m = "\<lparr>fm_map = om_set id (fm_map (ms_map s)) name ?r, fm_infos = (fm_infos (ms_map s))(?r := ?f), fm_next = Suc ?r\<rparr>"
  let ?g = "(ms_file s)\<lparr>mf_created := False, mf_auto_sanitizing := False, mf_payload_initialized := False,
    mf_access := AsClosed, mf_name := [], mf_header := ih_new, mf_info := Some ?r\<rparr>"
  have al: "shm_AllocFile e name True (ms_world s) mfi_new = (True, (ms_world s)\<lparr>sw_names := (sw_names (ms_world s))(?n \<mapsto> ?i),
      sw_next := Suc ?i, sw_objects := (sw_objects (ms_world s))(?i := \<lparr>so_size = 0, so_header = ih_zero, so_payload = []\<rparr>)\<rparr>,
      mfi_new\<lparr>mfi_name := ?n, mfi_memfile := Some ?i, mfi_size := 0\<rparr>)"
    using assms(1,5) by (simp add: shm_AllocFile_def shm_create_object_def mf_fresh_def bytes_ops_def Let_def)
  have ck: "shm_CheckFileSize e (len + 24) True ((ms_world s)\<lparr>sw_names := (sw_names (ms_world s))(?n \<mapsto> ?i),
      sw_next := Suc ?i, sw_objects := (sw_objects (ms_world s))(?i := \<lparr>so_size = 0, so_header = ih_zero, so_payload = []\<rparr>)\<rparr>)
      (mfi_new\<lparr>mfi_name := ?n, mfi_memfile := Some ?i, mfi_size := 0\<rparr>) = (True, ?w, ?f\<lparr>mfi_refcnt := 0\<rparr>)"
    using assms(4,5) by (simp add: shm_CheckFileSize_def shm_MapFile_def shm_truncate_def mfi_new_def bytes_ops_def Let_def)
  have rc: "mf_reconnect e name True len (mf_upd (\<lambda>f. f\<lparr>mf_auto_sanitizing := False\<rparr>) s) = (True, \<lparr>ms_file = ?g, ms_world = ?w, ms_map = ?m\<rparr>)"
    using assms(1) al ck by (simp add: mf_reconnect_def mf_Destroy_def mf_fresh_def fm_new_info_def fm_AddFile_def fm_set_info_def Let_def)
  let ?s1 = "\<lparr>ms_file = ?g\<lparr>mf_header := ?h\<rparr>, ms_world = ?w, ms_map = ?m\<rparr>"
  let ?s' = "mf_upd (\<lambda>f. f\<lparr>mf_created := True, mf_name := name\<rparr>) (mf_set_object ?i (\<lambda>so. so\<lparr>so_header := ?h\<rparr>) ?s1)"
  have mem: "mf_mem ?s1 = Some ?i" by (simp add: mf_mem_def)
  have "mf_init_header (LkOk rec) len \<lparr>ms_file = ?g, ms_world = ?w, ms_map = ?m\<rparr> = Some (mf_set_object ?i (\<lambda>so. so\<lparr>so_header := ?h\<rparr>) ?s1)"
    using mem by (simp add: mf_init_header_def mf_upd_def Let_def)
  then have c: "mf_Create e True (LkOk rec) name True len False s = Some (True, ?s')"
  proof -
    have "mf_name (ms_file (mf_upd (\<lambda>f. f\<lparr>mf_auto_sanitizing := False\<rparr>) s)) \<noteq> name" using assms(1) by (auto simp: mf_fresh_def)
    then show "mf_init_header (LkOk rec) len \<lparr>ms_file = ?g, ms_world = ?w, ms_map = ?m\<rparr> = Some (mf_set_object ?i (\<lambda>so. so\<lparr>so_header := ?h\<rparr>) ?s1) \<Longrightarrow> ?thesis"
      unfolding mf_Create_def Let_def by (simp only: rc) simp
  qed
  have o: "mf_object ?s' ?i = ?so\<lparr>so_header := ?h\<rparr>" by simp (simp add: mf_object_def)
  have len: "unat (word_of_nat len :: u64) = len" using assms(3) by (simp add: unat_of_nat)
  show ?thesis
  proof (rule that [OF c, of ?i])
    show "mf_attached ?s' ?i" using mem by (simp add: mf_attached_def ih_new_def)
    show "so_valid (mf_object ?s' ?i)" using assms(3) len unfolding o by (simp add: so_valid_def ih_new_def)
    show "so_max (mf_object ?s' ?i) = len" unfolding o by (simp add: len)
    show "len \<le> length (so_payload (mf_object ?s' ?i))" unfolding o by simp
    show "\<not> mf_auto_sanitizing (ms_file ?s')" by simp
    show "sw_names (ms_world ?s') ?n = Some ?i" by (simp add: mf_set_object_def)
  qed
qed

text \<open>Opening a file that another process has created, the way a reader does.\<close>

lemma mf_read_header_eq:
  assumes "mf_info (ms_file s) = Some r" "mf_mem s = Some i"
    "fm_CheckFileSize e (ms_world s) (ms_map s) (unat (ih_size (so_header (mf_object s i)))) r = (w, m)"
    "mf_mem (s\<lparr>ms_world := w, ms_map := m\<rparr>) = Some j"
  shows "mf_read_header e (LkOk rec) s = Some (mf_upd (\<lambda>f. f\<lparr>mf_header := ih_copy (ih_size (so_header (mf_object s i)))
      (so_header (mf_object (s\<lparr>ms_world := w, ms_map := m\<rparr>) j)) (mf_header f)\<rparr>) (s\<lparr>ms_world := w, ms_map := m\<rparr>))"
  using assms by (simp add: mf_read_header_def Let_def)

lemma mf_Create_open:
  assumes "name \<noteq> []" "mf_name (ms_file s) = []" "\<not> mf_created (ms_file s)" "om_find id (fm_map (ms_map s)) name = None"
    "sw_names (ms_world s) (shm_posix_name name) = Some i" "so_valid (mf_object s i)" "se_mmap_ok e"
  obtains s' where "mf_Create e True (LkOk rec) name False 0 False s = Some (True, s')" "mf_attached s' i"
    "ms_world s' = ms_world s" "\<not> mf_auto_sanitizing (ms_file s')"
proof -
  let ?r = "fm_next (ms_map s)" and ?n = "shm_posix_name name" and ?sz = "max 2 (se_page_size e)"
  let ?f = "\<lparr>mfi_refcnt = 1, mfi_remove = False, mfi_memfile = Some i, mfi_mapped = True, mfi_name = ?n, mfi_size = ?sz, mfi_exists = True\<rparr>"
  let ?m = "\<lparr>fm_map = om_set id (fm_map (ms_map s)) name ?r, fm_infos = (fm_infos (ms_map s))(?r := ?f), fm_next = Suc ?r\<rparr>"
  let ?g = "(ms_file s)\<lparr>mf_created := False, mf_auto_sanitizing := False, mf_payload_initialized := False,
    mf_access := AsClosed, mf_name := [], mf_header := ih_new, mf_info := Some ?r\<rparr>"
  let ?s0 = "mf_upd (\<lambda>f. f\<lparr>mf_auto_sanitizing := False\<rparr>) s" and ?s1 = "\<lparr>ms_file = ?g, ms_world = ms_world s, ms_map = ?m\<rparr>"
  have al: "shm_AllocFile e name False (ms_world s) mfi_new = (True, ms_world s,
      mfi_new\<lparr>mfi_name := ?n, mfi_exists := True, mfi_memfile := Some i, mfi_size := 0\<rparr>)"
    using assms(5) by (simp add: shm_AllocFile_def Let_def)
  have ck: "shm_CheckFileSize e 2 False (ms_world s) (mfi_new\<lparr>mfi_name := ?n, mfi_exists := True, mfi_memfile := Some i, mfi_size := 0\<rparr>)
      = (True, ms_world s, ?f\<lparr>mfi_refcnt := 0\<rparr>)"
    using assms(7) by (simp add: shm_CheckFileSize_def shm_MapFile_def mfi_new_def Let_def)
  have rc: "mf_reconnect e name False 0 ?s0 = (True, ?s1)"
    using assms(3,4) al ck by (simp add: mf_reconnect_def mf_Destroy_def fm_new_info_def fm_AddFile_def fm_set_info_def Let_def)
  have mem: "mf_mem ?s1 = Some i" by (simp add: mf_mem_def)
  have ob: "mf_object ?s1 = mf_object s" by (simp add: mf_object_def fun_eq_iff)
  have hs: "ih_size (so_header (mf_object s i)) = 24" using assms(6) by (simp add: so_valid_def)
  obtain f' where f': "shm_CheckFileSize e 24 False (ms_world s) ?f = (True, ms_world s, f')" "mfi_mapped f'" "mfi_memfile f' = Some i"
    using shm_CheckFileSize_remap [of ?f i e 24 "ms_world s"] assms(7) by auto
  let ?s2 = "?s1\<lparr>ms_map := fm_set_info ?m ?r f'\<rparr>"
  have mem2: "mf_mem ?s2 = Some i" using f' by (simp add: mf_mem_def fm_set_info_def)
  have ob2: "mf_object ?s2 = mf_object s" by (simp add: mf_object_def fun_eq_iff)
  let ?s3 = "mf_upd (\<lambda>f. f\<lparr>mf_header := so_header (mf_object s i)\<rparr>) ?s2"
  have ck2: "fm_CheckFileSize e (ms_world s) ?m 24 ?r = (ms_world s, fm_set_info ?m ?r f')"
    using f'(1) by (simp add: fm_CheckFileSize_def)
  have w2: "?s1\<lparr>ms_world := ms_world s, ms_map := fm_set_info ?m ?r f'\<rparr> = ?s2" by simp
  have "mf_read_header e (LkOk rec) ?s1 = Some ?s3"
  proof -
    have "fm_CheckFileSize e (ms_world ?s1) (ms_map ?s1) (unat (ih_size (so_header (mf_object ?s1 i)))) ?r
        = (ms_world s, fm_set_info ?m ?r f')" unfolding ob hs using ck2 by simp
    from mf_read_header_eq [OF _ mem this, unfolded w2, OF _ mem2, of rec]
    show ?thesis unfolding ob ob2 hs by (simp add: mf_upd_def)
  qed
  moreover have "mf_name (ms_file ?s0) \<noteq> name" using assms(1,2) by auto
  ultimately have c: "mf_Create e True (LkOk rec) name False 0 False s = Some (True, mf_upd (\<lambda>f. f\<lparr>mf_created := True, mf_name := name\<rparr>) ?s3)"
    unfolding mf_Create_def Let_def by (simp only: rc) simp
  show ?thesis
    by (rule that [OF c]) (use mem2 hs in \<open>simp_all add: mf_attached_def\<close>)
qed

end
