(* ===== verification/Named_Event.thy ===== *)
theory Named_Event
  imports Ecal_Prelude
begin

text \<open>
  \<open>ecal/core/src/ecal_event.cpp\<close> (the Linux part): events that are set by one thread or process and
  waited for by another. A named event is an object of the operating system, found by its name while
  the name exists: a flag that \<open>set\<close> raises and a successful wait lowers again. An unnamed event counts its
  signals. A handle (\<open>EventHandleT\<close>) is copied freely, so it refers to the C++ event object in a heap.
\<close>

datatype ev_object =
    UnnamedEvent u32
  | NamedEvent string "nat option" bool

record ev_world =
  ew_names :: "string \<Rightarrow> nat option"
  ew_set :: "nat \<Rightarrow> bool"
  ew_heap :: "nat \<Rightarrow> ev_object option"
  ew_next :: nat

record ev_handle =
  eh_name :: string
  eh_handle :: "nat option"

definition eh_new :: ev_handle where
  "eh_new = \<lparr>eh_name = [], eh_handle = None\<rparr>"

definition ev_new_object :: "ev_world \<Rightarrow> ev_object \<Rightarrow> nat \<times> ev_world" where
  "ev_new_object w ob = (ew_next w, w\<lparr>ew_heap := (ew_heap w)(ew_next w \<mapsto> ob), ew_next := Suc (ew_next w)\<rparr>)"

text \<open>\<open>ok\<close>: the system calls succeed. A new event starts unset; an existing one is shared.\<close>

definition named_event_open :: "bool \<Rightarrow> string \<Rightarrow> ev_world \<Rightarrow> nat option \<times> ev_world" where
  "named_event_open ok name w =
     (if \<not> ok then (None, w)
      else case ew_names w name of
          Some k \<Rightarrow> (Some k, w)
        | None \<Rightarrow> (let k = ew_next w in
            (Some k, w\<lparr>ew_names := (ew_names w)(name \<mapsto> k), ew_set := (ew_set w)(k := False), ew_next := Suc k\<rparr>)))"

definition ev_posix_name :: "string \<Rightarrow> string" where
  "ev_posix_name name = (let n = name @ ''_evt'' in if hd n \<noteq> CHR ''/'' then CHR ''/'' # n else n)"

definition gOpenNamedEvent :: "bool \<Rightarrow> string \<Rightarrow> bool \<Rightarrow> ev_world \<Rightarrow> ev_handle \<times> ev_world" where
  "gOpenNamedEvent ok name own w =
     (let (k, w) = named_event_open ok (ev_posix_name name) w;
          (p, w) = ev_new_object w (NamedEvent (ev_posix_name name) k own)
      in (\<lparr>eh_name = name, eh_handle = Some p\<rparr>, w))"

definition gOpenUnnamedEvent :: "ev_world \<Rightarrow> ev_handle \<times> ev_world" where
  "gOpenUnnamedEvent w = (let (p, w) = ev_new_object w (UnnamedEvent 0) in (\<lparr>eh_name = [], eh_handle = Some p\<rparr>, w))"

definition gCloseEvent :: "ev_handle \<Rightarrow> ev_world \<Rightarrow> bool \<times> ev_world" where
  "gCloseEvent h w =
     (case eh_handle h of
        None \<Rightarrow> (False, w)
      | Some p \<Rightarrow>
          (let w' = w\<lparr>ew_heap := (ew_heap w)(p := None)\<rparr> in
           (True, case ew_heap w p of
              Some (NamedEvent n (Some k) own) \<Rightarrow> if own then w'\<lparr>ew_names := (ew_names w)(n := None)\<rparr> else w'
            | _ \<Rightarrow> w')))"

definition gSetEvent :: "ev_handle \<Rightarrow> ev_world \<Rightarrow> bool \<times> ev_world" where
  "gSetEvent h w =
     (case eh_handle h of
        None \<Rightarrow> (False, w)
      | Some p \<Rightarrow>
          (True, case ew_heap w p of
             Some (NamedEvent n (Some k) own) \<Rightarrow> w\<lparr>ew_set := (ew_set w)(k := True)\<rparr>
           | Some (UnnamedEvent c) \<Rightarrow> w\<lparr>ew_heap := (ew_heap w)(p \<mapsto> UnnamedEvent (c + 1))\<rparr>
           | _ \<Rightarrow> w))"

text \<open>
  Waiting at most \<open>timeout\<close> milliseconds. If the event is not set when the wait begins, \<open>arrives\<close> says
  whether another party sets it before the time is over; a timeout of 0 only looks, a negative one waits
  for as long as it takes.
\<close>

definition gWaitForEvent :: "ev_handle \<Rightarrow> int \<Rightarrow> bool \<Rightarrow> ev_world \<Rightarrow> bool \<times> ev_world" where
  "gWaitForEvent h timeout arrives w =
     (case eh_handle h of
        None \<Rightarrow> (False, w)
      | Some p \<Rightarrow>
          (case ew_heap w p of
             Some (NamedEvent n (Some k) own) \<Rightarrow>
               if ew_set w k \<or> timeout < 0 \<or> (timeout > 0 \<and> arrives)
               then (True, w\<lparr>ew_set := (ew_set w)(k := False)\<rparr>) else (False, w)
           | Some (UnnamedEvent c) \<Rightarrow>
               if c > 0 then (True, w\<lparr>ew_heap := (ew_heap w)(p \<mapsto> UnnamedEvent (c - 1))\<rparr>)
               else (timeout < 0 \<or> (timeout > 0 \<and> arrives), w)
           | _ \<Rightarrow> (False, w)))"

definition gInvalidateEvent :: "ev_handle \<Rightarrow> bool \<times> ev_handle" where
  "gInvalidateEvent h = (if eh_handle h = None then (False, h) else (True, h\<lparr>eh_handle := None\<rparr>))"

definition gEventIsValid :: "ev_handle \<Rightarrow> bool" where
  "gEventIsValid h \<longleftrightarrow> eh_handle h \<noteq> None"

subsection \<open>Two parties that open an event by its name\<close>

text \<open>The object a handle refers to.\<close>

definition ev_target :: "ev_world \<Rightarrow> ev_handle \<Rightarrow> nat option" where
  "ev_target w h = (case eh_handle h of None \<Rightarrow> None
     | Some p \<Rightarrow> (case ew_heap w p of Some (NamedEvent n k own) \<Rightarrow> k | _ \<Rightarrow> None))"

lemma gSetEvent_target:
  "ev_target w h = Some k \<Longrightarrow> gSetEvent h w = (True, w\<lparr>ew_set := (ew_set w)(k := True)\<rparr>)"
  by (auto simp: ev_target_def gSetEvent_def split: option.splits ev_object.splits)

lemma gWaitForEvent_target:
  "ev_target w h = Some k \<Longrightarrow> gWaitForEvent h t a w =
    (if ew_set w k \<or> t < 0 \<or> (t > 0 \<and> a) then (True, w\<lparr>ew_set := (ew_set w)(k := False)\<rparr>) else (False, w))"
  by (auto simp: ev_target_def gWaitForEvent_def split: option.splits ev_object.splits)

lemma ev_target_set [simp]: "ev_target (w\<lparr>ew_set := f\<rparr>) h = ev_target w h"
  by (cases "eh_handle h") (simp_all add: ev_target_def)

lemma gOpenNamedEvent_target:
  assumes "gOpenNamedEvent True name own w = (h, w')"
  shows "ew_names w' (ev_posix_name name) = ev_target w' h" "ev_target w' h \<noteq> None"
    "ew_names w (ev_posix_name name) = Some k \<Longrightarrow> ev_target w' h = Some k"
  using assms by (auto simp: gOpenNamedEvent_def named_event_open_def ev_new_object_def ev_target_def Let_def
      split: option.splits)

text \<open>
  An event signals once: after a \<open>set\<close> through one handle, a wait through any handle of the same event
  succeeds without waiting, and the next wait that only looks fails.
\<close>

lemma ev_signal_once:
  assumes "ev_target w h = Some k" "ev_target w h' = Some k"
  shows "let (_, w1) = gSetEvent h w; (b, w2) = gWaitForEvent h' t a w1; (b', w3) = gWaitForEvent h' 0 a' w2
    in b \<and> \<not> b'"
  using assms by (simp add: gSetEvent_target gWaitForEvent_target Let_def)

text \<open>What setting and waiting leave alone: the object behind every handle, and the flags of other events.\<close>

lemma ev_target_ops [simp]:
  "ev_target (snd (gSetEvent h w)) h' = ev_target w h'" "ev_target (snd (gWaitForEvent h t a w)) h' = ev_target w h'"
  by (cases "eh_handle h'"; auto simp: gSetEvent_def gWaitForEvent_def ev_target_def split: option.split ev_object.split)+

lemma gWaitForEvent_other: "ev_target w h \<noteq> Some k \<Longrightarrow> ew_set (snd (gWaitForEvent h t a w)) k = ew_set w k"
  by (auto simp: gWaitForEvent_def ev_target_def split: option.splits ev_object.splits)

lemma gSetEvent_keeps: "ew_set w k \<Longrightarrow> ew_set (snd (gSetEvent h w)) k"
  by (auto simp: gSetEvent_def split: option.splits ev_object.splits)

lemma gSetEvent_sets: "ev_target w h = Some k \<Longrightarrow> ew_set (snd (gSetEvent h w)) k"
  by (simp add: gSetEvent_target)

subsection \<open>Opening events\<close>

text \<open>Numbers that are not given out yet are not in use.\<close>

definition event_inv :: "ev_world \<Rightarrow> bool" where
  "event_inv w \<longleftrightarrow> (\<forall>p \<ge> ew_next w. ew_heap w p = None)"

lemma gOpenNamedEvent_keeps:
  assumes "event_inv w" "gOpenNamedEvent ok name own w = (h, w')"
  shows "event_inv w'" "ev_target w h' = Some k \<Longrightarrow> ev_target w' h' = Some k" "ew_next w < ew_next w'"
    "n \<noteq> ev_posix_name name \<Longrightarrow> ew_names w' n = ew_names w n"
  using assms by (auto simp: gOpenNamedEvent_def named_event_open_def ev_new_object_def ev_target_def event_inv_def Let_def
      split: option.splits if_splits)

lemma gOpenNamedEvent_new:
  assumes "ew_names w (ev_posix_name name) = None" "gOpenNamedEvent True name own w = (h, w')"
  shows "ev_target w' h = Some (ew_next w)" "ew_names w' (ev_posix_name name) = Some (ew_next w)"
  using assms by (auto simp: gOpenNamedEvent_def named_event_open_def ev_new_object_def ev_target_def Let_def)

text \<open>The event by which a reader acknowledges is another one.\<close>

lemma ev_posix_name_ack: "n \<noteq> [] \<Longrightarrow> ev_posix_name (n @ ''_ack'') \<noteq> ev_posix_name n"
proof -
  assume "n \<noteq> []"
  then obtain a m where "n = a # m" by (cases n) auto
  then show ?thesis by (simp add: ev_posix_name_def Let_def)
qed

end
