(* ===== verification/Sync_Mem_File.thy ===== *)
theory Sync_Mem_File
  imports Mem_File Named_Event Publisher
begin

text \<open>
  \<open>ecal/core/src/io/shm/ecal_memfile_sync.{h,cpp}\<close> and \<open>ecal_memfile_naming.cpp\<close>: \<open>CSyncMemoryFile\<close>, the
  memory file a publisher writes to, with two events for each process that reads it: one to signal new
  content, one by which the reader acknowledges it.

  The record \<open>sync_env\<close> holds what a call learns from outside: the outcome of each lock attempt, the random
  number of the file name, and for each process the time that has passed when its acknowledgement is
  waited for and whether it comes in time. The float computation of the reserve in \<open>CheckSize\<close> is the
  function \<open>se_reserve\<close> of the reserve and the size. The copy of the event map that \<open>SyncContent\<close> works on
  shares the event objects with the map.
\<close>

subsection \<open>Names\<close>

definition BuildRandomMemFileName :: "string \<Rightarrow> u32 \<Rightarrow> string" where
  "BuildRandomMemFileName base rnd = base @ str_nat 16 (unat rnd)"

subsection \<open>State\<close>

record sync_attr =
  sya_min_size :: u64
  sya_reserve :: u64
  sya_timeout_open_ms :: i64
  sya_timeout_ack_ms :: i64

record event_pair =
  ep_snd :: ev_handle
  ep_ack :: ev_handle
  ep_ack_is_invalid :: bool

record sync_file =
  sy_base :: string
  sy_name :: string
  sy_attr :: sync_attr
  sy_created :: bool
  sy_events :: "(i32, event_pair) omap"
  sy_mem :: "u8 list mf_state"
  sy_ev :: ev_world

record sync_env =
  se_shm :: "u8 list shm_env"
  se_mtx_ok :: bool
  se_lk_create :: lock_result
  se_lk_init :: lock_result
  se_lk_write :: lock_result
  se_lk_rewrite :: lock_result
  se_rnd :: u32
  se_ev_ok :: bool
  se_reserve :: "u64 \<Rightarrow> u64 \<Rightarrow> u64"
  se_elapsed :: "i32 \<Rightarrow> int"
  se_acked :: "i32 \<Rightarrow> bool"

text \<open>The acknowledgement of a process was waited for, at most so many milliseconds.\<close>

datatype sync_effect = SyWaited i32 int

subsection \<open>Connect and Disconnect\<close>

definition sy_event_snd :: "sync_file \<Rightarrow> i32 \<Rightarrow> string" where
  "sy_event_snd s pid = sy_name s @ ''_'' @ str_int (sint pid)"

definition sy_Connect :: "bool \<Rightarrow> i32 \<Rightarrow> sync_file \<Rightarrow> bool \<times> sync_file" where
  "sy_Connect ok pid s =
     (if \<not> sy_created s then (False, s)
      else (let n = sy_event_snd s pid; a = n @ ''_ack'' in
        case om_find id (sy_events s) pid of
          None \<Rightarrow>
            (let (snd_h, w) = gOpenNamedEvent ok n True (sy_ev s);
                 (ack_h, w) = gOpenNamedEvent ok a True w
             in (True, s\<lparr>sy_ev := w, sy_events := om_set id (sy_events s) pid
                  \<lparr>ep_snd = snd_h, ep_ack = ack_h, ep_ack_is_invalid = False\<rparr>\<rparr>))
        | Some p \<Rightarrow>
            (let (h, w) = (if gEventIsValid (ep_ack p) then (ep_ack p, sy_ev s) else gOpenNamedEvent ok a True (sy_ev s))
             in (True, s\<lparr>sy_ev := w, sy_events := om_set id (sy_events s) pid
                  (p\<lparr>ep_ack := h, ep_ack_is_invalid := False\<rparr>)\<rparr>))))"

definition sy_Disconnect :: "i32 \<Rightarrow> sync_file \<Rightarrow> bool \<times> sync_file" where
  "sy_Disconnect pid s =
     (if \<not> sy_created s then (False, s)
      else case om_find id (sy_events s) pid of
          None \<Rightarrow> (False, s)
        | Some p \<Rightarrow> (True, s\<lparr>sy_ev := snd (gSetEvent (ep_ack p) (sy_ev s)),
            sy_events := om_set id (sy_events s) pid (p\<lparr>ep_ack_is_invalid := True\<rparr>)\<rparr>))"

text \<open>Signal all acknowledgements, close all events, invalidate the handles, forget them.\<close>

definition sy_DisconnectAll :: "sync_file \<Rightarrow> sync_file" where
  "sy_DisconnectAll s =
     (let w = fold (\<lambda>(_, p) w. snd (gSetEvent (ep_ack p) w)) (sy_events s) (sy_ev s);
          w = fold (\<lambda>(_, p) w. snd (gCloseEvent (ep_ack p) (snd (gCloseEvent (ep_snd p) w)))) (sy_events s) w
      in s\<lparr>sy_ev := w, sy_events := []\<rparr>)"

subsection \<open>Create, Destroy and Recreate\<close>

definition sy_Create :: "sync_env \<Rightarrow> string \<Rightarrow> u64 \<Rightarrow> sync_file \<Rightarrow> (bool \<times> sync_file) option" where
  "sy_Create e base sz s =
     (if sy_created s then Some (False, s)
      else (let name = BuildRandomMemFileName base (se_rnd e);
                s = s\<lparr>sy_base := base, sy_name := name\<rparr>;
                n = 64 + sz;
                n = (if n < sya_min_size (sy_attr s) then sya_min_size (sy_attr s) else n)
        in case mf_Create (se_shm e) (se_mtx_ok e) (se_lk_create e) name True (unat n) False (sy_mem s) of
            None \<Rightarrow> None
          | Some (False, m) \<Rightarrow> Some (False, s\<lparr>sy_mem := m\<rparr>)
          | Some (True, m) \<Rightarrow>
              (let (_, m) = mf_GetWriteAccess (se_shm e) (se_lk_init e) m;
                   (_, m) = mf_WriteBuffer (mh_bytes mh_new) 0 m;
                   (_, m) = mf_ReleaseWriteAccess m
               in Some (True, s\<lparr>sy_mem := m, sy_created := True\<rparr>))))"

definition sy_Destroy :: "sync_file \<Rightarrow> bool \<times> sync_file" where
  "sy_Destroy s =
     (if \<not> sy_created s then (False, s)
      else (let s = s\<lparr>sy_created := False, sy_name := []\<rparr>; s = sy_DisconnectAll s;
                (ok, m) = mf_Destroy True (sy_mem s)
        in (ok, s\<lparr>sy_mem := m\<rparr>)))"

definition sy_Recreate :: "sync_env \<Rightarrow> u64 \<Rightarrow> sync_file \<Rightarrow> (bool \<times> sync_file) option" where
  "sy_Recreate e sz s =
     (let pids = map fst (sy_events s);
          (_, s) = sy_Destroy s
      in case sy_Create e (sy_base s) sz s of
          None \<Rightarrow> None
        | Some (False, s) \<Rightarrow> Some (False, s)
        | Some (True, s) \<Rightarrow> Some (True, fold (\<lambda>pid s. snd (sy_Connect (se_ev_ok e) pid s)) pids s))"

text \<open>The destructor of the file is \<open>Destroy\<close>, its constructor \<open>Create\<close> on an empty object.\<close>

definition sy_CheckSize :: "sync_env \<Rightarrow> u64 \<Rightarrow> sync_file \<Rightarrow> (bool \<times> sync_file) option" where
  "sy_CheckSize e sz s =
     (if \<not> sy_created s then Some (False, s)
      else if mf_MaxDataSize (sy_mem s) < 64 + sz
      then sy_Recreate e (64 + sz + se_reserve e (sya_reserve (sy_attr s)) sz) s
      else Some (False, s))"

subsection \<open>SyncContent\<close>

text \<open>The milliseconds left when \<open>elapsed\<close> nanoseconds have passed, at least 0.\<close>

definition sy_time_to_wait :: "i64 \<Rightarrow> int \<Rightarrow> int" where
  "sy_time_to_wait timeout_ms elapsed = max 0 ((sint timeout_ms * 1000000 - elapsed) div 1000000)"

text \<open>
  The round over the copy of the map that waits for the acknowledgements; a process that does not
  answer in time is marked in the copy.
\<close>

fun sy_wait_acks ::
  "sync_env \<Rightarrow> i64 \<Rightarrow> (i32, event_pair) omap \<Rightarrow> ev_world \<Rightarrow> (i32, event_pair) omap \<times> ev_world \<times> sync_effect list" where
  "sy_wait_acks e timeout [] w = ([], w, [])"
| "sy_wait_acks e timeout ((pid, p) # m) w =
     (if ep_ack_is_invalid p
      then (let (m, w, effs) = sy_wait_acks e timeout m w in ((pid, p) # m, w, effs))
      else (let t = sy_time_to_wait timeout (se_elapsed e pid);
                (ok, w) = gWaitForEvent (ep_ack p) t (se_acked e pid) w;
                p = (if ok then p else p\<lparr>ep_ack_is_invalid := True\<rparr>);
                (m, w, effs) = sy_wait_acks e timeout m w
            in ((pid, p) # m, w, SyWaited pid t # effs)))"

text \<open>
  The loops that eat old acknowledgements end when the event is not set: for a flag, after the first
  wait. The copy of the map is dropped at the end.
\<close>

definition sy_SyncContent :: "sync_env \<Rightarrow> sync_file \<Rightarrow> sync_file \<times> sync_effect list" where
  "sy_SyncContent e s =
     (if \<not> sy_created s then (s, [])
      else (let copy = sy_events s; ack = sya_timeout_ack_ms (sy_attr s); w = sy_ev s;
                w = (if ack \<noteq> 0 then fold (\<lambda>(_, p) w. snd (gWaitForEvent (ep_ack p) 0 False w)) copy w else w);
                w = fold (\<lambda>(_, p) w. snd (gSetEvent (ep_snd p) w)) copy w;
                (copy, w, effs) = (if ack \<noteq> 0 then sy_wait_acks e ack copy w else (copy, w, []))
        in (s\<lparr>sy_ev := w\<rparr>, effs)))"

subsection \<open>Write\<close>

definition sy_header :: "writer_attr \<Rightarrow> mem_file_header" where
  "sy_header d = mh_new\<lparr>mh_data_size := wa_len d, mh_id := wa_id d, mh_clock := wa_clock d, mh_time := wa_time d,
     mh_hash := wa_hash d, mh_zero_copy := wa_zero_copy d, mh_ack_timeout_ms := wa_acknowledge_timeout_ms d\<rparr>"

text \<open>Header and payload into the file that is open for writing.\<close>

definition sy_write_content :: "payload_writer \<Rightarrow> writer_attr \<Rightarrow> bool \<Rightarrow> u8 list mf_state \<Rightarrow> bool \<times> u8 list mf_state" where
  "sy_write_content pw d force m =
     (let (n, m) = mf_WriteBuffer (mh_bytes (sy_header d)) 0 m; written = (n > 0);
          (written, m) =
            (if wa_len d > 0
             then (let (n, m) = mf_WritePayload pw (wa_len d) 64 force m in (written \<and> n > 0, m))
             else (written, m));
          (_, m) = mf_ReleaseWriteAccess m
      in (written, m))"

definition sy_Write ::
  "sync_env \<Rightarrow> payload_writer \<Rightarrow> writer_attr \<Rightarrow> bool \<Rightarrow> sync_file \<Rightarrow> (bool \<times> sync_file \<times> sync_effect list) option" where
  "sy_Write e pw d force s =
     (if \<not> sy_created s then Some (False, s, [])
      else (let ack = (if wa_acknowledge_timeout_ms d <s 0 then 0 else wa_acknowledge_timeout_ms d);
                s = s\<lparr>sy_attr := (sy_attr s)\<lparr>sya_timeout_ack_ms := ack\<rparr>\<rparr>;
                (access, m) = mf_GetWriteAccess (se_shm e) (se_lk_write e) (sy_mem s);
                s = s\<lparr>sy_mem := m\<rparr>;
                retry =
                  (if access then Some (True, s)
                   else case sy_Recreate e (mf_MaxDataSize m) s of
                       None \<Rightarrow> None
                     | Some (False, s) \<Rightarrow> Some (False, s)
                     | Some (True, s) \<Rightarrow>
                         (let (access, m) = mf_GetWriteAccess (se_shm e) (se_lk_rewrite e) (sy_mem s)
                          in Some (access, s\<lparr>sy_mem := m\<rparr>)))
        in case retry of
            None \<Rightarrow> None
          | Some (False, s) \<Rightarrow> Some (False, s, [])
          | Some (True, s) \<Rightarrow>
              (let (written, m) = sy_write_content pw d force (sy_mem s);
                   s = s\<lparr>sy_mem := m\<rparr>;
                   (s, effs) = (if written then sy_SyncContent e s else (s, []))
               in Some (written, s, effs))))"

text \<open>
  \<open>CBufferPayloadWriter\<close> (\<open>readwrite/ecal_writer_buffer_payload.h\<close>) copies a buffer; writing the modified
  content is by default writing all of it.
\<close>

definition pw_buffer :: "u8 list \<Rightarrow> payload_writer" where
  "pw_buffer bs =
     (let full = (\<lambda>buf. if length buf < length bs \<or> bs = [] then (False, buf) else (True, splice 0 bs buf))
      in \<lparr>pw_WriteFull = full, pw_WriteModified = full\<rparr>)"

subsection \<open>The events of SyncContent\<close>

lemma sy_set_one: "ew_set (snd (gSetEvent h w)) k \<longleftrightarrow> ew_set w k \<or> ev_target w h = Some k"
  by (auto simp: gSetEvent_def ev_target_def split: option.split ev_object.split)

abbreviation sy_set_all :: "(i32, event_pair) omap \<Rightarrow> ev_world \<Rightarrow> ev_world" where
  "sy_set_all m w \<equiv> fold (\<lambda>(_, p) w. snd (gSetEvent (ep_snd p) w)) m w"

lemma sy_set_all:
  "(ew_set (sy_set_all m w) k \<longleftrightarrow> ew_set w k \<or> (\<exists>(_, p) \<in> set m. ev_target w (ep_snd p) = Some k)) \<and>
   ev_target (sy_set_all m w) h = ev_target w h"
proof (induction m arbitrary: w)
  case (Cons e m)
  show ?case using Cons.IH [of "snd (gSetEvent (ep_snd (snd e)) w)"] by (auto simp: sy_set_one split_beta)
qed simp

lemma sy_eat_all:
  "ev_target (fold (\<lambda>(_, p) w. snd (gWaitForEvent (ep_ack p) 0 False w)) m w) h = ev_target w h"
  by (induction m arbitrary: w) (simp_all add: split_beta)

lemma sy_wait_acks_keeps:
  "sy_wait_acks e t m w = (m', w', effs) \<Longrightarrow> ev_target w' h = ev_target w h \<and>
    ((\<forall>(_, p) \<in> set m. ev_target w (ep_ack p) \<noteq> Some k) \<longrightarrow> ew_set w' k = ew_set w k)"
proof (induction m arbitrary: w m' w' effs)
  case (Cons x m)
  obtain pid p where x: "x = (pid, p)" by (cases x)
  let ?w = "if ep_ack_is_invalid p then w
    else snd (gWaitForEvent (ep_ack p) (sy_time_to_wait t (se_elapsed e pid)) (se_acked e pid) w)"
  obtain m1 w1 f1 where r: "sy_wait_acks e t m ?w = (m1, w1, f1)" by (cases "sy_wait_acks e t m ?w") auto
  then have w': "w' = w1" using Cons.prems
    by (cases "gWaitForEvent (ep_ack p) (sy_time_to_wait t (se_elapsed e pid)) (se_acked e pid) w")
      (auto simp: x split: if_splits)
  show ?case using Cons.IH [OF r] by (auto simp: w' x gWaitForEvent_other)
qed simp

text \<open>
  After \<open>SyncContent\<close> the event of every connected process is set, unless that event also serves as
  somebody's acknowledgement.
\<close>

lemma sy_SyncContent_signals:
  assumes "sy_created s" "(pid, p) \<in> set (sy_events s)" "ev_target (sy_ev s) (ep_snd p) = Some k"
    "\<forall>(_, q) \<in> set (sy_events s). ev_target (sy_ev s) (ep_ack q) \<noteq> Some k"
  shows "ew_set (sy_ev (fst (sy_SyncContent e s))) k" "ev_target (sy_ev (fst (sy_SyncContent e s))) h = ev_target (sy_ev s) h"
    "sy_mem (fst (sy_SyncContent e s)) = sy_mem s" "sy_events (fst (sy_SyncContent e s)) = sy_events s"
proof -
  let ?m = "sy_events s" and ?t = "sya_timeout_ack_ms (sy_attr s)"
  let ?w1 = "if ?t \<noteq> 0 then fold (\<lambda>(_, p) w. snd (gWaitForEvent (ep_ack p) 0 False w)) ?m (sy_ev s) else sy_ev s"
  let ?w2 = "sy_set_all ?m ?w1"
  have t1: "ev_target ?w1 h = ev_target (sy_ev s) h" for h by (simp add: sy_eat_all)
  have t2: "ev_target ?w2 h = ev_target (sy_ev s) h" for h using sy_set_all t1 by simp
  have k2: "ew_set ?w2 k" using sy_set_all [of ?m ?w1 k] assms(2,3) t1 by force
  obtain m3 w3 f3 where r: "sy_wait_acks e ?t ?m ?w2 = (m3, w3, f3)" by (cases "sy_wait_acks e ?t ?m ?w2") auto
  have s': "fst (sy_SyncContent e s) = s\<lparr>sy_ev := (if ?t \<noteq> 0 then w3 else ?w2)\<rparr>"
    using assms(1) r by (cases "?t = 0") (simp_all add: sy_SyncContent_def Let_def)
  have k3: "\<forall>(_, q) \<in> set ?m. ev_target ?w2 (ep_ack q) \<noteq> Some k" using assms(4) t2 by simp
  show "ew_set (sy_ev (fst (sy_SyncContent e s))) k" using k2 sy_wait_acks_keeps [OF r, of _ k] k3 by (cases "?t = 0") (simp_all add: s')
  show "ev_target (sy_ev (fst (sy_SyncContent e s))) h = ev_target (sy_ev s) h"
    using t2 [of h] sy_wait_acks_keeps [OF r, of h] by (cases "?t = 0") (simp_all add: s')
  show "sy_mem (fst (sy_SyncContent e s)) = sy_mem s" "sy_events (fst (sy_SyncContent e s)) = sy_events s"
    by (simp_all add: s')
qed

lemma sy_wait_acks_effects:
  "sy_wait_acks e t m w = (m', w', effs) \<Longrightarrow> SyWaited pid ms \<in> set effs \<longleftrightarrow>
    (\<exists>p. (pid, p) \<in> set m \<and> \<not> ep_ack_is_invalid p \<and> ms = sy_time_to_wait t (se_elapsed e pid))"
proof (induction m arbitrary: w m' w' effs)
  case (Cons x m)
  obtain q p where x: "x = (q, p)" by (cases x)
  let ?g = "gWaitForEvent (ep_ack p) (sy_time_to_wait t (se_elapsed e q)) (se_acked e q) w"
  obtain m1 w1 f1 where r: "sy_wait_acks e t m (if ep_ack_is_invalid p then w else snd ?g) = (m1, w1, f1)"
    by (cases "sy_wait_acks e t m (if ep_ack_is_invalid p then w else snd ?g)") auto
  then have "effs = (if ep_ack_is_invalid p then f1 else SyWaited q (sy_time_to_wait t (se_elapsed e q)) # f1)"
    using Cons.prems by (cases ?g) (auto simp: x split: if_splits)
  then show ?case using Cons.IH [OF r] by (auto simp: x)
qed simp

lemma sy_SyncContent_effects:
  assumes "sy_SyncContent e s = (s', effs)"
  shows "sy_events s' = sy_events s \<and> sy_attr s' = sy_attr s \<and> sy_created s' = sy_created s"
    "SyWaited pid ms \<in> set effs \<longleftrightarrow> sy_created s \<and> sya_timeout_ack_ms (sy_attr s) \<noteq> 0 \<and>
      (\<exists>p. (pid, p) \<in> set (sy_events s) \<and> \<not> ep_ack_is_invalid p \<and>
        ms = sy_time_to_wait (sya_timeout_ack_ms (sy_attr s)) (se_elapsed e pid))"
proof -
  let ?m = "sy_events s" and ?t = "sya_timeout_ack_ms (sy_attr s)"
  let ?w2 = "sy_set_all ?m (fold (\<lambda>(_, p) w. snd (gWaitForEvent (ep_ack p) 0 False w)) ?m (sy_ev s))"
  obtain m3 w3 f3 where r: "sy_wait_acks e ?t ?m ?w2 = (m3, w3, f3)" by (cases "sy_wait_acks e ?t ?m ?w2") auto
  show "sy_events s' = sy_events s \<and> sy_attr s' = sy_attr s \<and> sy_created s' = sy_created s"
    using assms r by (cases "?t = 0") (auto simp: sy_SyncContent_def Let_def split: if_splits)
  show "SyWaited pid ms \<in> set effs \<longleftrightarrow> sy_created s \<and> ?t \<noteq> 0 \<and>
      (\<exists>p. (pid, p) \<in> set ?m \<and> \<not> ep_ack_is_invalid p \<and> ms = sy_time_to_wait ?t (se_elapsed e pid))"
    using assms r sy_wait_acks_effects [OF r] by (cases "?t = 0") (auto simp: sy_SyncContent_def Let_def split: if_splits)
qed

text \<open>
  A reader that does not acknowledge is waited for at every write, although the timeout is meant to
  be remembered: the mark goes to the copy of the event map and is lost. Only \<open>Disconnect\<close> ends the waiting.
\<close>

theorem ack_timeout_forgotten:
  assumes "sy_created s" "sya_timeout_ack_ms (sy_attr s) \<noteq> 0" "om_invar id (sy_events s)"
    "om_find id (sy_events s) pid = Some p" "\<not> ep_ack_is_invalid p" "\<not> se_acked e1 pid"
    "sy_SyncContent e1 s = (s1, effs1)" "sy_SyncContent e2 s1 = (s2, effs2)"
    "sy_SyncContent e2 (snd (sy_Disconnect pid s1)) = (s3, effs3)"
  shows "SyWaited pid (sy_time_to_wait (sya_timeout_ack_ms (sy_attr s)) (se_elapsed e2 pid)) \<in> set effs2 \<and>
    (\<forall>ms. SyWaited pid ms \<notin> set effs3)"
proof -
  have p: "(pid, p) \<in> set (sy_events s)" using om_find_in_set [OF assms(4)] by auto
  note k = sy_SyncContent_effects(1) [OF assms(7)]
  let ?d = "snd (sy_Disconnect pid s1)"
  have d: "sy_events ?d = om_set id (sy_events s) pid (p\<lparr>ep_ack_is_invalid := True\<rparr>)"
    using assms(1,4) k by (simp add: sy_Disconnect_def)
  have "(pid, q) \<in> set (sy_events ?d) \<Longrightarrow> ep_ack_is_invalid q" for q
    using om_find_mem [of id "sy_events ?d" pid q] assms(3) by (auto simp: d om_invar_set om_find_set)
  then show ?thesis
    using sy_SyncContent_effects(2) [OF assms(8)] sy_SyncContent_effects(2) [OF assms(9)] k p assms(1,2,5) by auto
qed

subsection \<open>A publisher's file, created and connected\<close>

text \<open>
  The conditions under which \<open>Create\<close> gets a file: the name is new, the locks are free, memory can be
  mapped, and the size in bytes does not wrap.
\<close>

definition sy_can_create :: "sync_env \<Rightarrow> string \<Rightarrow> u64 \<Rightarrow> sync_file \<Rightarrow> bool" where
  "sy_can_create e base sz s \<longleftrightarrow> \<not> sy_created s \<and> mf_fresh (BuildRandomMemFileName base (se_rnd e)) (sy_mem s) \<and>
     (\<exists>r. se_lk_create e = LkOk r) \<and> (\<exists>r. se_lk_init e = LkOk r) \<and> se_mtx_ok e \<and> se_mmap_ok (se_shm e) \<and>
     se_ops (se_shm e) = bytes_ops \<and> unat sz + 88 < 2 ^ 64 \<and> unat (sya_min_size (sy_attr s)) + 24 < 2 ^ 64"

lemma sy_Create_ok:
  assumes C: "sy_can_create e base sz s"
  obtains m i where "sy_Create e base sz s = Some (True, s\<lparr>sy_base := base,
      sy_name := BuildRandomMemFileName base (se_rnd e), sy_mem := m, sy_created := True\<rparr>)"
    "mf_attached m i" "\<not> mf_auto_sanitizing (ms_file m)" "so_valid (mf_object m i)"
    "64 + unat sz \<le> so_max (mf_object m i)" "64 + unat sz \<le> length (so_payload (mf_object m i))"
    "sw_names (ms_world m) (shm_posix_name (BuildRandomMemFileName base (se_rnd e))) = Some i"
proof -
  let ?name = "BuildRandomMemFileName base (se_rnd e)"
  let ?n = "if 64 + sz < sya_min_size (sy_attr s) then sya_min_size (sy_attr s) else 64 + sz"
  obtain r1 r2 where c: "\<not> sy_created s" "mf_fresh ?name (sy_mem s)" "se_lk_create e = LkOk r1" "se_lk_init e = LkOk r2"
    "se_mtx_ok e" "se_mmap_ok (se_shm e)" "se_ops (se_shm e) = bytes_ops" "unat sz + 88 < 2 ^ 64"
    "unat (sya_min_size (sy_attr s)) + 24 < 2 ^ 64"
    using C by (auto simp: sy_can_create_def)
  have u: "unat (64 + sz) = 64 + unat sz" using unat_add_nowrap [of 64 sz] c(8) by simp
  have n: "64 + unat sz \<le> unat ?n" "unat ?n + 24 < 2 ^ 64"
    using u c(8,9) by (auto simp: word_less_nat_alt not_less)
  have n0: "0 < unat ?n" using n(1) by linarith
  from mf_Create_new [OF c(2) n0 n(2) c(6,7), of r1] obtain m0 i where
    m0: "mf_Create (se_shm e) True (LkOk r1) ?name True (unat ?n) False (sy_mem s) = Some (True, m0)"
      "mf_attached m0 i" "so_valid (mf_object m0 i)" "so_max (mf_object m0 i) = unat ?n"
      "unat ?n \<le> length (so_payload (mf_object m0 i))" "\<not> mf_auto_sanitizing (ms_file m0)"
      "sw_names (ms_world m0) (shm_posix_name ?name) = Some i" .
  from mf_GetWriteAccess_ok [OF m0(2,3) c(6) m0(6), of r2] obtain m1 where
    m1: "mf_GetWriteAccess (se_shm e) (LkOk r2) m0 = (True, m1)" "mf_writing m1 i" "ms_world m1 = ms_world m0" .
  have o1: "mf_object m1 i = mf_object m0 i" using m1(3) by (simp add: mf_object_def)
  have h: "mh_bytes mh_new \<noteq> []" using length_mh_bytes [of mh_new] by (metis list.size(3) zero_neq_numeral)
  have f: "unat (0 :: u64) + length (mh_bytes mh_new) \<le> so_max (mf_object m1 i)" using n m0(4) by (simp add: o1)
  from mf_WriteBuffer_ok [OF m1(2) h f] obtain m2 where
    m2: "mf_WriteBuffer (mh_bytes mh_new) 0 m1 = (word_of_nat (length (mh_bytes mh_new)), m2)" "mf_writing m2 i"
      "mf_object m2 i = so_write (unat (0 :: u64)) (mh_bytes mh_new) (mf_object m1 i)" .
  have w2: "sw_names (ms_world m2) = sw_names (ms_world m0)"
    using mf_WriteBuffer_names [of "mh_bytes mh_new" 0 m1] m2(1) m1(3) by simp
  let ?m = "snd (mf_ReleaseWriteAccess m2)"
  note r = mf_writing_release [OF m2(2)]
  have l: "length (so_payload (mf_object ?m i)) = length (so_payload (mf_object m0 i))"
    unfolding r(2) m2(3) so_write_simps by (subst length_splice) (use n m0(5) in \<open>simp_all add: o1\<close>)
  show ?thesis
  proof (rule that [of ?m i])
    show "sy_Create e base sz s = Some (True, s\<lparr>sy_base := base, sy_name := ?name, sy_mem := ?m, sy_created := True\<rparr>)"
      using c(1,3-5) m0(1) m1(1) m2(1) unfolding sy_Create_def Let_def by (simp add: split_beta split del: if_split cong: if_cong)
  qed (use r m0 m2(3) l n w2 in \<open>simp_all add: o1 mf_ReleaseWriteAccess_world\<close>)
qed

text \<open>A process connects for the first time.\<close>

lemma sy_Connect_new:
  assumes "sy_created s" "om_find id (sy_events s) pid = None" "event_inv (sy_ev s)" "sy_name s \<noteq> []"
    "ew_names (sy_ev s) (ev_posix_name (sy_event_snd s pid)) = None"
    "ew_names (sy_ev s) (ev_posix_name (sy_event_snd s pid @ ''_ack'')) = None"
  obtains w p k k' where "sy_Connect True pid s = (True, s\<lparr>sy_ev := w, sy_events := om_set id (sy_events s) pid p\<rparr>)"
    "ev_target w (ep_snd p) = Some k" "ev_target w (ep_ack p) = Some k'" "k' \<noteq> k" "event_inv w"
    "ew_names w (ev_posix_name (sy_event_snd s pid)) = Some k"
proof -
  let ?n = "sy_event_snd s pid"
  obtain h1 w1 where o1: "gOpenNamedEvent True ?n True (sy_ev s) = (h1, w1)" by (cases "gOpenNamedEvent True ?n True (sy_ev s)")
  obtain h2 w2 where o2: "gOpenNamedEvent True (?n @ ''_ack'') True w1 = (h2, w2)"
    by (cases "gOpenNamedEvent True (?n @ ''_ack'') True w1")
  note k1 = gOpenNamedEvent_keeps [OF assms(3) o1] and n1 = gOpenNamedEvent_new [OF assms(5) o1]
  note k2 = gOpenNamedEvent_keeps [OF k1(1) o2]
  have ne: "ev_posix_name (?n @ ''_ack'') \<noteq> ev_posix_name ?n"
    using assms(4) by (intro ev_posix_name_ack) (simp add: sy_event_snd_def)
  have "ew_names w1 (ev_posix_name (?n @ ''_ack'')) = None" using k1(4) [OF ne] assms(6) by simp
  note n2 = gOpenNamedEvent_new [OF this o2]
  show ?thesis
  proof (rule that [where w = w2 and p = "\<lparr>ep_snd = h1, ep_ack = h2, ep_ack_is_invalid = False\<rparr>" and k = "ew_next (sy_ev s)" and k' = "ew_next w1"])
    show "sy_Connect True pid s = (True, s\<lparr>sy_ev := w2, sy_events := om_set id (sy_events s) pid
        \<lparr>ep_snd = h1, ep_ack = h2, ep_ack_is_invalid = False\<rparr>\<rparr>)"
      using assms(1,2) o1 o2 by (simp add: sy_Connect_def Let_def)
  qed (use n1 n2 k1 k2 k2(4) [OF ne [symmetric]] in auto)
qed

lemma ack_timeout_forgotten_witness:
  "\<exists>(s :: sync_file) e s2 s3 effs2 effs3. sy_SyncContent e s = (s2, effs2) \<and> sy_SyncContent e (snd (sy_Disconnect 5 s2)) = (s3, effs3) \<and>
    SyWaited 5 100 \<in> set effs2 \<and> (\<forall>ms. SyWaited 5 ms \<notin> set effs3)"
proof -
  let ?m = "\<lparr>ms_file = mf_new, ms_world = \<lparr>sw_names = (\<lambda>_. None), sw_objects = (\<lambda>_. \<lparr>so_size = 0, so_header = ih_zero, so_payload = []\<rparr>), sw_next = 0\<rparr>,
    ms_map = \<lparr>fm_map = [], fm_infos = (\<lambda>_. mfi_new), fm_next = 0\<rparr>\<rparr>"
  let ?s = "\<lparr>sy_base = ''b'', sy_name = ''n'', sy_attr = \<lparr>sya_min_size = 0, sya_reserve = 0, sya_timeout_open_ms = 5, sya_timeout_ack_ms = 100\<rparr>,
    sy_created = True, sy_events = [(5, \<lparr>ep_snd = eh_new, ep_ack = eh_new, ep_ack_is_invalid = False\<rparr>)], sy_mem = ?m,
    sy_ev = \<lparr>ew_names = (\<lambda>_. None), ew_set = (\<lambda>_. False), ew_heap = (\<lambda>_. None), ew_next = 0\<rparr>\<rparr> :: sync_file"
  let ?e = "\<lparr>se_shm = \<lparr>se_ops = bytes_ops, se_page_size = 4096, se_mmap_ok = True\<rparr>, se_mtx_ok = True, se_lk_create = LkTimeout,
    se_lk_init = LkTimeout, se_lk_write = LkTimeout, se_lk_rewrite = LkTimeout, se_rnd = 0, se_ev_ok = True, se_reserve = (\<lambda>r n. 0),
    se_elapsed = (\<lambda>_. 0), se_acked = (\<lambda>_. False)\<rparr> :: sync_env"
  obtain s1 effs1 where r1: "sy_SyncContent ?e ?s = (s1, effs1)" by (cases "sy_SyncContent ?e ?s")
  obtain s2 effs2 where r2: "sy_SyncContent ?e s1 = (s2, effs2)" by (cases "sy_SyncContent ?e s1")
  obtain s3 effs3 where r3: "sy_SyncContent ?e (snd (sy_Disconnect 5 s1)) = (s3, effs3)"
    by (cases "sy_SyncContent ?e (snd (sy_Disconnect 5 s1))")
  have s1: "s1 = ?s"
    using r1 by (simp add: sy_SyncContent_def gWaitForEvent_def gSetEvent_def eh_new_def Let_def)
  have "SyWaited 5 (sy_time_to_wait (sya_timeout_ack_ms (sy_attr ?s)) (se_elapsed ?e 5)) \<in> set effs2 \<and> (\<forall>ms. SyWaited 5 ms \<notin> set effs3)"
    by (rule ack_timeout_forgotten [OF _ _ _ _ _ _ r1 r2 r3,
        where p = "\<lparr>ep_snd = eh_new, ep_ack = eh_new, ep_ack_is_invalid = False\<rparr>"]) (simp_all add: om_invar_def)
  moreover have "s2 = ?s" using r1 r2 s1 by simp
  ultimately show ?thesis using r2 r3 unfolding s1
    by (intro exI [of _ ?s] exI [of _ ?e] exI [of _ s2] exI [of _ s3] exI [of _ effs2] exI [of _ effs3]) (simp add: sy_time_to_wait_def)
qed

end
