(* ===== verification/Mem_File_Pool.thy ===== *)
theory Mem_File_Pool
  imports Sync_Mem_File
begin

text \<open>
  \<open>ecal/core/src/io/shm/ecal_memfile_pool.{h,cpp}\<close>: the observer of one memory file, a thread that waits for
  the publisher's event and hands new content to a callback, and the pool of the observers of a process.

  A round of the loop in \<open>Observe\<close> is one call of \<open>ob_round\<close>. What the thread finds there is its argument:
  the record \<open>round_env\<close> (clock readings, whether the event arrives in time, whether another thread
  asked it to stop while it waited, the outcome of the lock) and what it shares with other threads and
  processes (\<open>process\<close>: the memory, the map of memory files and the events). The local variables of
  \<open>Observe\<close> are fields of the observer. Joining the thread leaves the observer not observing.
\<close>

subsection \<open>CMemFileObserver\<close>

record process =
  ps_world :: "u8 list shm_world"
  ps_map :: mem_file_map
  ps_ev :: ev_world

record observer =
  ob_created :: bool
  ob_do_stop :: bool
  ob_is_observing :: bool
  ob_life :: time_point
  ob_callback :: bool
  ob_event_snd :: ev_handle
  ob_event_ack :: ev_handle
  ob_file :: mem_file
  ob_timeout :: i32
  ob_last_clock :: u64
  ob_buffer :: "u8 list"
  ob_unprocessed :: bool

text \<open>The callback with its payload, size, id, clock, time and hash.\<close>

datatype ob_effect = ObCallback "u8 list" u64 i64 i64 i64 u64

record round_env =
  re_shm :: "u8 list shm_env"
  re_now :: time_point
  re_now_signal :: time_point
  re_arrives :: bool
  re_stop :: bool
  re_lock :: lock_result

definition ob_new :: "time_point \<Rightarrow> observer" where
  "ob_new now = \<lparr>ob_created = False, ob_do_stop = False, ob_is_observing = False, ob_life = now, ob_callback = False,
     ob_event_snd = eh_new, ob_event_ack = eh_new, ob_file = mf_new, ob_timeout = 0,
     ob_last_clock = 0, ob_buffer = [], ob_unprocessed = False\<rparr>"

text \<open>The memory file of an observer, as the state \<open>CMemoryFile\<close> works on, and back.\<close>

definition ob_state :: "process \<Rightarrow> observer \<Rightarrow> u8 list mf_state" where
  "ob_state pr ob = \<lparr>ms_file = ob_file ob, ms_world = ps_world pr, ms_map = ps_map pr\<rparr>"

definition ob_put :: "u8 list mf_state \<Rightarrow> process \<Rightarrow> observer \<Rightarrow> process \<times> observer" where
  "ob_put s pr ob = (pr\<lparr>ps_world := ms_world s, ps_map := ms_map s\<rparr>, ob\<lparr>ob_file := ms_file s\<rparr>)"

definition ps_set :: "ev_handle \<Rightarrow> process \<Rightarrow> process" where
  "ps_set h pr = pr\<lparr>ps_ev := snd (gSetEvent h (ps_ev pr))\<rparr>"

text \<open>\<open>Create\<close>: whether the memory file can be opened is not looked at.\<close>

definition ob_Create ::
  "u8 list shm_env \<Rightarrow> bool \<Rightarrow> bool \<Rightarrow> lock_result \<Rightarrow> string \<Rightarrow> string \<Rightarrow> process \<Rightarrow> observer \<Rightarrow>
   (bool \<times> process \<times> observer) option" where
  "ob_Create e ev_ok mtx_ok lk memfile_name memfile_event pr ob =
     (if ob_created ob then Some (False, pr, ob)
      else (let (snd_h, ev) = gOpenNamedEvent ev_ok memfile_event False (ps_ev pr);
                (ack_h, ev) = gOpenNamedEvent ev_ok (memfile_event @ ''_ack'') False ev;
                pr = pr\<lparr>ps_ev := ev\<rparr>; ob = ob\<lparr>ob_event_snd := snd_h, ob_event_ack := ack_h, ob_created := True\<rparr>
        in map_option (\<lambda>(_, s). (True, ob_put s pr ob))
             (mf_Create e mtx_ok lk memfile_name False 0 False (ob_state pr ob))))"

definition ob_Destroy :: "process \<Rightarrow> observer \<Rightarrow> bool \<times> process \<times> observer" where
  "ob_Destroy pr ob =
     (if \<not> ob_created ob then (False, pr, ob)
      else (let (_, s) = mf_Destroy False (ob_state pr ob);
                (pr, ob) = ob_put s pr ob;
                ev = snd (gCloseEvent (ob_event_ack ob) (snd (gCloseEvent (ob_event_snd ob) (ps_ev pr))))
        in (True, pr\<lparr>ps_ev := ev\<rparr>, ob\<lparr>ob_created := False\<rparr>)))"

text \<open>The thread enters \<open>Observe\<close> with fresh local variables.\<close>

definition ob_Start :: "i32 \<Rightarrow> bool \<Rightarrow> observer \<Rightarrow> bool \<times> observer" where
  "ob_Start timeout callback ob =
     (if \<not> ob_created ob \<or> ob_is_observing ob then (False, ob)
      else (True, ob\<lparr>ob_callback := callback, ob_is_observing := True, ob_timeout := timeout,
        ob_last_clock := 0, ob_buffer := [], ob_unprocessed := False\<rparr>))"

definition ob_Stop :: "process \<Rightarrow> observer \<Rightarrow> bool \<times> process \<times> observer" where
  "ob_Stop pr ob =
     (if \<not> ob_created ob then (False, pr, ob)
      else if ob_is_observing ob
      then (True, ps_set (ob_event_snd ob) pr, ob\<lparr>ob_do_stop := True, ob_is_observing := False\<rparr>)
      else (True, pr, ob))"

definition ob_ResetTimeout :: "time_point \<Rightarrow> observer \<Rightarrow> bool \<times> observer" where
  "ob_ResetTimeout now ob = (if \<not> ob_is_observing ob then (False, ob) else (True, ob\<lparr>ob_life := now\<rparr>))"

definition ob_ReadFileHeader :: "u8 list mf_state \<Rightarrow> bool \<times> mem_file_header" where
  "ob_ReadFileHeader s =
     (let buffer_size = mf_CurDataSize s; hdr = mh_bytes mh_new in
      if buffer_size \<ge> 2
      then (let hdr = (case mf_Read 2 0 s of None \<Rightarrow> hdr | Some bs \<Rightarrow> splice 0 bs hdr);
                n = min (mh_hdr_size (mh_of_bytes hdr)) 64
        in if ucast n \<le> buffer_size
           then (True, mh_of_bytes (case mf_Read (ucast n) 0 s of None \<Rightarrow> hdr | Some bs \<Rightarrow> splice 0 bs hdr))
           else (False, mh_of_bytes hdr))
      else (False, mh_new))"

definition ob_call :: "observer \<Rightarrow> u8 list \<Rightarrow> u64 \<Rightarrow> mem_file_header \<Rightarrow> ob_effect list" where
  "ob_call ob data n h = (if ob_callback ob then [ObCallback data n (mh_id h) (mh_clock h) (mh_time h) (mh_hash h)] else [])"

text \<open>\<open>receive_buffer.resize(n)\<close>\<close>

definition ob_resize :: "nat \<Rightarrow> u8 list \<Rightarrow> u8 list" where
  "ob_resize n buf = take n buf @ replicate (n - length buf) 0"

text \<open>
  New content in the open file \<open>s\<close>: in zero-copy mode the callback works on the mapped memory, otherwise on
  a copy after the file has been released.
\<close>

definition ob_process :: "mem_file_header \<Rightarrow> u8 list mf_state \<Rightarrow> observer \<Rightarrow> observer \<times> ob_effect list" where
  "ob_process h s ob =
     (let hdr_size = ucast (mh_hdr_size h) :: u64; n = mh_data_size h in
      if mh_zero_copy h
      then (ob\<lparr>ob_last_clock := mh_clock h\<rparr>,
        if n > 0
        then (case mf_GetReadAddress n s of
            None \<Rightarrow> []
          | Some i \<Rightarrow> ob_call ob (take (unat n) (drop (unat hdr_size) (so_payload (mf_object s i)))) n h)
        else ob_call ob [] n h)
      else (let buf = ob_resize (unat n) (ob_buffer ob);
                buf = (if n \<noteq> 0 then (case mf_Read n hdr_size s of None \<Rightarrow> buf | Some bs \<Rightarrow> bs) else buf)
        in (ob\<lparr>ob_buffer := buf, ob_last_clock := mh_clock h\<rparr>, ob_call ob buf (word_of_nat (length buf)) h)))"

text \<open>One attempt to access the file.\<close>

definition ob_access :: "round_env \<Rightarrow> process \<Rightarrow> observer \<Rightarrow> process \<times> observer \<times> ob_effect list" where
  "ob_access e pr ob =
     (let (ok, s) = mf_GetReadAccess (re_shm e) (re_lock e) (ob_state pr ob) in
      if \<not> ok then (let (pr, ob) = ob_put s pr ob in (pr, ob, []))
      else (let h = snd (ob_ReadFileHeader s);
                (pr, ob) = ob_put (snd (mf_ReleaseReadAccess s)) pr (ob\<lparr>ob_unprocessed := False\<rparr>)
        in if mh_clock h \<le> ob_last_clock ob then (pr, ob, [])
           else (let (ob, effs) = ob_process h s ob
             in (if mh_ack_timeout_ms h \<noteq> 0 then ps_set (ob_event_ack ob) pr else pr, ob, effs))))"

text \<open>A round of the loop; the first component is False when the loop is left. The timeout is in milliseconds.\<close>

definition ob_round :: "round_env \<Rightarrow> process \<Rightarrow> observer \<Rightarrow> bool \<times> process \<times> observer \<times> ob_effect list" where
  "ob_round e pr ob =
     (if \<not> (re_now e - ob_life ob < sint (ob_timeout ob) * 1000000 \<and> \<not> ob_do_stop ob)
      then (False, pr, ob\<lparr>ob_is_observing := False\<rparr>, [])
      else (let (pr, ob) =
              (if ob_unprocessed ob then (pr, ob)
               else (let (got, ev) = gWaitForEvent (ob_event_snd ob) 500 (re_arrives e) (ps_ev pr)
                 in (pr\<lparr>ps_ev := ev\<rparr>, ob\<lparr>ob_unprocessed := got, ob_life := (if got then re_now_signal e else ob_life ob)\<rparr>)));
              ob = ob\<lparr>ob_do_stop := ob_do_stop ob \<or> re_stop e\<rparr>
        in if \<not> ob_unprocessed ob then (True, pr, ob, [])
           else if ob_do_stop ob then (False, pr, ob\<lparr>ob_is_observing := False\<rparr>, [])
           else (True, ob_access e pr ob)))"

subsection \<open>CMemFileThreadPool\<close>

record observer_pool =
  op_created :: bool
  op_do_cleanup :: bool
  op_observers :: "(string, observer) omap"

definition op_new :: observer_pool where
  "op_new = \<lparr>op_created = False, op_do_cleanup = False, op_observers = []\<rparr>"

definition op_Start :: "observer_pool \<Rightarrow> observer_pool" where
  "op_Start p = (if op_created p then p else p\<lparr>op_do_cleanup := True, op_created := True\<rparr>)"

text \<open>Erasing an observer from the pool destroys it: \<open>Stop\<close>, then \<open>Destroy\<close>.\<close>

definition ob_delete :: "process \<Rightarrow> observer \<Rightarrow> process" where
  "ob_delete pr ob = (let (_, pr, ob) = ob_Stop pr ob in fst (snd (ob_Destroy pr ob)))"

definition op_Stop :: "process \<Rightarrow> observer_pool \<Rightarrow> process \<times> observer_pool" where
  "op_Stop pr p =
     (if \<not> op_created p then (pr, p)
      else (let (pr, obs) = foldl (\<lambda>(pr, obs) (_, ob). let (_, pr, ob) = ob_Stop pr ob in (pr, obs @ [ob]))
                  (pr, []) (op_observers p)
        in (foldl ob_delete pr obs, \<lparr>op_created = False, op_do_cleanup = False, op_observers = []\<rparr>)))"

definition op_ObserveFile ::
  "u8 list shm_env \<Rightarrow> bool \<Rightarrow> bool \<Rightarrow> lock_result \<Rightarrow> time_point \<Rightarrow> string \<Rightarrow> string \<Rightarrow> i32 \<Rightarrow> bool \<Rightarrow>
   process \<Rightarrow> observer_pool \<Rightarrow> (bool \<times> process \<times> observer_pool) option" where
  "op_ObserveFile e ev_ok mtx_ok lk now memfile_name memfile_event timeout callback pr p =
     (if \<not> op_created p \<or> memfile_name = [] then Some (False, pr, p)
      else case om_find id (op_observers p) memfile_name of
          Some ob \<Rightarrow>
            (let (pr, ob) =
               (if ob_is_observing ob then (pr, snd (ob_ResetTimeout now ob))
                else (let (_, pr, ob) = ob_Stop pr ob in (pr, snd (ob_Start timeout callback ob))))
             in Some (True, pr, p\<lparr>op_observers := om_set id (op_observers p) memfile_name ob\<rparr>))
        | None \<Rightarrow>
            map_option (\<lambda>(_, pr, ob). (True, pr,
                p\<lparr>op_observers := om_set id (op_observers p) memfile_name (snd (ob_Start timeout callback ob))\<rparr>))
              (ob_Create e ev_ok mtx_ok lk memfile_name memfile_event pr (ob_new now)))"

definition op_CleanupPool :: "process \<Rightarrow> observer_pool \<Rightarrow> process \<times> observer_pool" where
  "op_CleanupPool pr p =
     (foldl (\<lambda>pr (_, ob). ob_delete pr ob) pr (filter (\<lambda>(_, ob). \<not> ob_is_observing ob) (op_observers p)),
      p\<lparr>op_observers := filter (\<lambda>(_, ob). ob_is_observing ob) (op_observers p)\<rparr>)"

subsection \<open>The life of an observer\<close>

text \<open>
  Everything that can happen to an observer whose thread runs: a round, with any environment and any state
  of the shared memory, the events and the map; a life signal; a request to stop. The callbacks
  are collected.
\<close>

inductive ob_steps :: "observer \<Rightarrow> ob_effect list \<Rightarrow> observer \<Rightarrow> bool" where
  ob_steps_refl: "ob_steps ob [] ob"
| ob_steps_round: "ob_steps ob0 effs ob \<Longrightarrow> ob_round e pr ob = (on, pr', ob', effs') \<Longrightarrow> ob_steps ob0 (effs @ effs') ob'"
| ob_steps_life: "ob_steps ob0 effs ob \<Longrightarrow> ob_steps ob0 effs (snd (ob_ResetTimeout now ob))"
| ob_steps_stop: "ob_steps ob0 effs ob \<Longrightarrow> ob_Stop pr ob = (ok, pr', ob') \<Longrightarrow> ob_steps ob0 effs ob'"

primrec ob_effect_clock :: "ob_effect \<Rightarrow> u64" where
  "ob_effect_clock (ObCallback data n i clock time hash) = clock"

lemma ob_process_clock:
  "ob_process h s ob = (ob', effs) \<Longrightarrow> ob_last_clock ob' = mh_clock h \<and> length effs \<le> 1 \<and> (\<forall>x \<in> set effs. ob_effect_clock x = mh_clock h)"
  by (auto simp: ob_process_def ob_call_def Let_def split: if_splits option.splits)

lemma ob_access_clock:
  assumes "ob_access e pr ob = (pr', ob', effs)"
  shows "ob_last_clock ob \<le> ob_last_clock ob'" "length effs \<le> 1"
    "x \<in> set effs \<Longrightarrow> ob_last_clock ob < ob_effect_clock x \<and> ob_effect_clock x = ob_last_clock ob'"
proof -
  obtain ok s where a: "mf_GetReadAccess (re_shm e) (re_lock e) (ob_state pr ob) = (ok, s)"
    by (cases "mf_GetReadAccess (re_shm e) (re_lock e) (ob_state pr ob)")
  let ?h = "snd (ob_ReadFileHeader s)"
  obtain pr1 ob1 where p: "ob_put (snd (mf_ReleaseReadAccess s)) pr (ob\<lparr>ob_unprocessed := False\<rparr>) = (pr1, ob1)"
    by (cases "ob_put (snd (mf_ReleaseReadAccess s)) pr (ob\<lparr>ob_unprocessed := False\<rparr>)")
  obtain ob2 effs2 where q: "ob_process ?h s ob1 = (ob2, effs2)" by (cases "ob_process ?h s ob1")
  have c: "ob_last_clock ob1 = ob_last_clock ob" using p by (auto simp: ob_put_def)
  have "ob_last_clock ob \<le> ob_last_clock ob' \<and> length effs \<le> 1 \<and>
      (x \<in> set effs \<longrightarrow> ob_last_clock ob < ob_effect_clock x \<and> ob_effect_clock x = ob_last_clock ob')"
  proof (cases "ok \<and> \<not> mh_clock ?h \<le> ob_last_clock ob")
    case True
    then have "ob' = ob2" "effs = effs2" using assms a p q c by (simp_all add: ob_access_def Let_def)
    then show ?thesis using True ob_process_clock [OF q] by auto
  next
    case False
    then have "effs = [] \<and> ob_last_clock ob' = ob_last_clock ob"
    proof (cases ok)
      case True
      then have "mh_clock ?h \<le> ob_last_clock ob" using False by simp
      then show ?thesis using assms a p c True by (simp add: ob_access_def Let_def)
    next
      case False
      then show ?thesis using assms a by (auto simp: ob_access_def ob_put_def)
    qed
    then show ?thesis by simp
  qed
  then show "ob_last_clock ob \<le> ob_last_clock ob'" "length effs \<le> 1"
    "x \<in> set effs \<Longrightarrow> ob_last_clock ob < ob_effect_clock x \<and> ob_effect_clock x = ob_last_clock ob'" by auto
qed

lemma ob_round_cases:
  assumes "ob_round e pr ob = (on, pr', ob', effs)"
  obtains (idle) "effs = []" "ob_last_clock ob' = ob_last_clock ob"
    | (access) pr1 ob1 where "on" "ob_last_clock ob1 = ob_last_clock ob" "ob_access e pr1 ob1 = (pr', ob', effs)"
proof -
  let ?w = "if ob_unprocessed ob then (pr, ob)
      else (let (got, ev) = gWaitForEvent (ob_event_snd ob) 500 (re_arrives e) (ps_ev pr)
        in (pr\<lparr>ps_ev := ev\<rparr>, ob\<lparr>ob_unprocessed := got, ob_life := (if got then re_now_signal e else ob_life ob)\<rparr>))"
  obtain pr1 ob1 where w: "?w = (pr1, ob1)" by (rule prod.exhaust [of ?w])
  have "ob_last_clock (snd ?w) = ob_last_clock ob" by (simp add: split_beta Let_def)
  then have c: "ob_last_clock ob1 = ob_last_clock ob" unfolding w by simp
  let ?ob = "ob1\<lparr>ob_do_stop := ob_do_stop ob1 \<or> re_stop e\<rparr>"
  have r: "ob_round e pr ob = (if \<not> (re_now e - ob_life ob < sint (ob_timeout ob) * 1000000 \<and> \<not> ob_do_stop ob)
      then (False, pr, ob\<lparr>ob_is_observing := False\<rparr>, [])
      else if \<not> ob_unprocessed ?ob then (True, pr1, ?ob, [])
      else if ob_do_stop ?ob then (False, pr1, ?ob\<lparr>ob_is_observing := False\<rparr>, [])
      else (True, ob_access e pr1 ?ob))"
    unfolding ob_round_def w by (simp add: Let_def)
  show ?thesis
    using assms c idle access [of ?ob pr1] unfolding r by (auto split: if_splits)
qed

lemma ob_round_clock:
  assumes "ob_round e pr ob = (on, pr', ob', effs)"
  shows "ob_last_clock ob \<le> ob_last_clock ob'" "length effs \<le> 1"
    "x \<in> set effs \<Longrightarrow> ob_last_clock ob < ob_effect_clock x \<and> ob_effect_clock x = ob_last_clock ob'"
  using assms by (cases rule: ob_round_cases; auto dest: ob_access_clock)+

lemma ob_steps_clock:
  "ob_steps ob effs ob' \<Longrightarrow> sorted_wrt (<) (map ob_effect_clock effs) \<and> ob_last_clock ob \<le> ob_last_clock ob' \<and>
    (\<forall>x \<in> set effs. ob_last_clock ob < ob_effect_clock x \<and> ob_effect_clock x \<le> ob_last_clock ob')"
proof (induction rule: ob_steps.induct)
  case (ob_steps_round ob0 effs ob e pr on pr' ob' effs')
  note r = ob_round_clock [OF ob_steps_round.hyps(2)]
  have "sorted_wrt (<) (map ob_effect_clock effs')" using r(2) by (cases effs' rule: list.exhaust; auto split: list.split)
  then show ?case using ob_steps_round.IH r(1) r(3)
    by (fastforce simp: sorted_wrt_append dest: order_trans order_le_less_trans)
qed (auto simp: ob_ResetTimeout_def ob_Stop_def split: if_splits)

text \<open>
  C26. Whatever happens to the memory file, the events and the locks, and however many publishers or
  copies of a signal there are: the clocks an observer hands to its callback increase strictly from one call to the
  next, so no content is delivered twice and none after newer content.
\<close>

theorem observer_clocks_increase:
  assumes "ob_Start timeout cb ob0 = (True, ob)" "ob_steps ob effs ob'"
  shows "sorted_wrt (<) (0 # map ob_effect_clock effs)"
proof -
  have "ob_last_clock ob = 0" using assms(1) by (auto simp: ob_Start_def split: if_splits)
  then show ?thesis using ob_steps_clock [OF assms(2)] by auto
qed

text \<open>A process with a memory file of one empty message, signalled, and an observer that is created but not started.\<close>

definition wit_env :: "u8 list shm_env" where
  "wit_env = \<lparr>se_ops = bytes_ops, se_page_size = 4096, se_mmap_ok = True\<rparr>"

definition wit_process :: process where
  "wit_process = \<lparr>ps_world = \<lparr>sw_names = (\<lambda>_. None), sw_objects = (\<lambda>_. \<lparr>so_size = 4096,
         so_header = \<lparr>ih_size = 24, ih_cur_data_size = 64, ih_max_data_size = 100\<rparr>,
         so_payload = mh_bytes (mh_new\<lparr>mh_id := 7, mh_clock := 3\<rparr>)\<rparr>), sw_next = 1\<rparr>,
     ps_map = \<lparr>fm_map = [], fm_infos = (\<lambda>_. mfi_new\<lparr>mfi_memfile := Some 0, mfi_mapped := True, mfi_size := 4096\<rparr>), fm_next = 1\<rparr>,
     ps_ev = \<lparr>ew_names = (\<lambda>_. None), ew_set = (\<lambda>_. True), ew_heap = (\<lambda>_. Some (NamedEvent [] (Some 0) True)), ew_next = 1\<rparr>\<rparr>"

definition wit_observer :: observer where
  "wit_observer = (ob_new 0)\<lparr>ob_created := True, ob_event_snd := \<lparr>eh_name = [], eh_handle = Some 0\<rparr>,
     ob_file := mf_new\<lparr>mf_created := True, mf_header := ih_new, mf_info := Some 0\<rparr>\<rparr>"

definition wit_round :: round_env where
  "wit_round = \<lparr>re_shm = wit_env, re_now = 1, re_now_signal = 1, re_arrives = False, re_stop = False, re_lock = LkOk False\<rparr>"

lemma wit_round_delivers:
  "snd (snd (snd (ob_round wit_round wit_process (snd (ob_Start 5000 True wit_observer))))) = [ObCallback [] 0 7 3 0 0]"
  by code_simp

lemma observer_clocks_increase_witness:
  "\<exists>ob ob' effs. ob_Start 5000 True wit_observer = (True, ob) \<and> ob_steps ob effs ob' \<and>
    map ob_effect_clock effs = [3] \<and> sorted_wrt (<) (0 # map ob_effect_clock effs)"
proof -
  let ?ob = "snd (ob_Start 5000 True wit_observer)"
  have s: "ob_Start 5000 True wit_observer = (True, ?ob)"
    by (simp add: ob_Start_def wit_observer_def ob_new_def)
  obtain on pr' ob' effs where r: "ob_round wit_round wit_process ?ob = (on, pr', ob', effs)"
    by (cases "ob_round wit_round wit_process ?ob")
  then have e: "effs = [ObCallback [] 0 7 3 0 0]" using wit_round_delivers by simp
  have st: "ob_steps ?ob ([] @ effs) ob'" by (rule ob_steps_round [OF ob_steps_refl r])
  show ?thesis
    using s st observer_clocks_increase [OF s st] e by (intro exI [of _ ?ob] exI [of _ ob'] exI [of _ effs]) simp
qed

text \<open>The loop of \<open>Observe\<close>; the shared state at the beginning of each round is given with its environment.\<close>

fun ob_Observe :: "(round_env \<times> process) list \<Rightarrow> observer \<Rightarrow> observer \<times> ob_effect list" where
  "ob_Observe [] ob = (ob, [])"
| "ob_Observe ((e, pr) # rs) ob =
     (let (on, _, ob, effs) = ob_round e pr ob
      in if on then (let (ob, effs') = ob_Observe rs ob in (ob, effs @ effs')) else (ob, effs))"

text \<open>Rounds in which nobody signals; without a signal a round takes the 500 milliseconds of its wait.\<close>

definition re_silent :: "ev_handle \<Rightarrow> round_env \<times> process \<Rightarrow> bool" where
  "re_silent h = (\<lambda>(e, pr). \<not> fst (gWaitForEvent h 500 (re_arrives e) (ps_ev pr)))"

lemma ob_round_silent:
  assumes "re_silent (ob_event_snd ob) (e, pr)" "\<not> ob_unprocessed ob" "ob_round e pr ob = (on, pr', ob', effs)"
  shows "effs = []" "on \<Longrightarrow> re_now e - ob_life ob < sint (ob_timeout ob) * 1000000"
    "on \<Longrightarrow> ob_life ob' = ob_life ob \<and> ob_timeout ob' = ob_timeout ob \<and> ob_event_snd ob' = ob_event_snd ob \<and> \<not> ob_unprocessed ob'"
    "\<not> on \<Longrightarrow> \<not> ob_is_observing ob'"
proof -
  let ?g = "gWaitForEvent (ob_event_snd ob) 500 (re_arrives e) (ps_ev pr)"
  have "ob_round e pr ob = (if \<not> (re_now e - ob_life ob < sint (ob_timeout ob) * 1000000 \<and> \<not> ob_do_stop ob)
      then (False, pr, ob\<lparr>ob_is_observing := False\<rparr>, [])
      else (True, pr\<lparr>ps_ev := snd ?g\<rparr>, ob\<lparr>ob_unprocessed := False, ob_life := ob_life ob, ob_do_stop := ob_do_stop ob \<or> re_stop e\<rparr>, []))"
    using assms(1,2) by (simp add: ob_round_def re_silent_def split_beta Let_def)
  then show "effs = []" "on \<Longrightarrow> re_now e - ob_life ob < sint (ob_timeout ob) * 1000000"
    "on \<Longrightarrow> ob_life ob' = ob_life ob \<and> ob_timeout ob' = ob_timeout ob \<and> ob_event_snd ob' = ob_event_snd ob \<and> \<not> ob_unprocessed ob'"
    "\<not> on \<Longrightarrow> \<not> ob_is_observing ob'"
    using assms(3) by (auto split: if_splits)
qed

lemma ob_Observe_silent:
  "\<forall>r \<in> set rs. re_silent (ob_event_snd ob) r \<Longrightarrow> \<not> ob_unprocessed ob \<Longrightarrow>
    snd (ob_Observe rs ob) = [] \<and>
    ((\<exists>r \<in> set rs. sint (ob_timeout ob) * 1000000 \<le> re_now (fst r) - ob_life ob) \<longrightarrow> \<not> ob_is_observing (fst (ob_Observe rs ob)))"
proof (induction rs arbitrary: ob)
  case (Cons r rs)
  obtain e pr where r: "r = (e, pr)" by (cases r)
  obtain on pr' ob' effs where o: "ob_round e pr ob = (on, pr', ob', effs)" by (cases "ob_round e pr ob") auto
  have s: "re_silent (ob_event_snd ob) (e, pr)" using Cons.prems(1) r by simp
  note k = ob_round_silent [OF s Cons.prems(2) o]
  show ?case
  proof (cases on)
    case True
    then show ?thesis using k Cons.prems(1) Cons.IH [of ob'] by (auto simp: r o split_beta)
  next
    case False
    then show ?thesis using k by (simp add: r o)
  qed
qed simp

text \<open>
  The loop of an observer that gets no signal ends: when \<open>n\<close> rounds of at least 500 milliseconds each
  cover the timeout, the observer has left the loop after \<open>n + 1\<close> rounds, without a callback.
\<close>

theorem observer_gives_up:
  assumes "\<not> ob_unprocessed ob" "\<forall>r \<in> set rs. re_silent (ob_event_snd ob) r"
    "\<forall>j < length rs. ob_life ob + 500000000 * int j \<le> re_now (fst (rs ! j))"
    "sint (ob_timeout ob) \<le> 500 * int n" "n < length rs"
  shows "snd (ob_Observe rs ob) = [] \<and> \<not> ob_is_observing (fst (ob_Observe rs ob))"
proof -
  have "sint (ob_timeout ob) * 1000000 \<le> re_now (fst (rs ! n)) - ob_life ob" using assms(3-5) by fastforce
  then show ?thesis using ob_Observe_silent [OF assms(2,1)] nth_mem [OF assms(5)] by blast
qed

lemma observer_gives_up_witness:
  "\<exists>rs. length rs = 11 \<and> snd (ob_Observe rs (snd (ob_Start 5000 True wit_observer))) = [] \<and>
    \<not> ob_is_observing (fst (ob_Observe rs (snd (ob_Start 5000 True wit_observer))))"
proof -
  let ?pr = "wit_process\<lparr>ps_ev := (ps_ev wit_process)\<lparr>ew_set := \<lambda>_. False\<rparr>\<rparr>"
  let ?rs = "map (\<lambda>j. (wit_round\<lparr>re_now := 500000000 * int j\<rparr>, ?pr)) [0..<11]"
  have "snd (ob_Observe ?rs (snd (ob_Start 5000 True wit_observer))) = [] \<and>
      \<not> ob_is_observing (fst (ob_Observe ?rs (snd (ob_Start 5000 True wit_observer))))"
    by (rule observer_gives_up [where n = 10])
      (auto simp: ob_Start_def wit_observer_def ob_new_def re_silent_def gWaitForEvent_def wit_process_def wit_round_def)
  then show ?thesis by (intro exI [of _ ?rs]) simp
qed

text \<open>
  An observer that has timed out is not brought back by the next request to observe its file: the pool
  starts a new thread, but the time of the last life signal is still the old one (\<open>ResetTimeout\<close> is called only for an
  observer that runs), so the thread ends in its first round without looking at the file.
\<close>

theorem observer_restart_dies:
  assumes "op_created p" "name \<noteq> []" "om_find id (op_observers p) name = Some ob" "ob_created ob"
    "\<not> ob_is_observing ob" "sint timeout * 1000000 \<le> now - ob_life ob" "now \<le> re_now e"
  shows "\<exists>p' ob'. op_ObserveFile e0 ev_ok mtx_ok lk now name event timeout cb pr p = Some (True, pr, p') \<and>
    om_find id (op_observers p') name = Some ob' \<and> ob_is_observing ob' \<and>
    ob_round e pr2 ob' = (False, pr2, ob'\<lparr>ob_is_observing := False\<rparr>, [])"
  using assms by (simp add: op_ObserveFile_def ob_Stop_def ob_Start_def om_find_set ob_round_def)

lemma observer_restart_dies_witness:
  "\<exists>p' ob'. op_ObserveFile wit_env True True (LkOk False) 6000000000 ''f'' ''e'' 5000 True wit_process
      \<lparr>op_created = True, op_do_cleanup = True, op_observers = [(''f'', wit_observer)]\<rparr> = Some (True, wit_process, p') \<and>
    om_find id (op_observers p') ''f'' = Some ob' \<and> ob_is_observing ob' \<and>
    ob_round (wit_round\<lparr>re_now := 6000000001\<rparr>) wit_process ob' = (False, wit_process, ob'\<lparr>ob_is_observing := False\<rparr>, [])"
  by (rule observer_restart_dies [where ob = wit_observer]) (simp_all add: wit_observer_def ob_new_def wit_round_def)

end
