(* ===== verification/Shm_Transfer.thy ===== *)
theory Shm_Transfer
  imports Mem_File_Pool
begin

text \<open>
  The two ends of the shared memory layer together: what \<open>CSyncMemoryFile::Write\<close> puts into the memory file
  and what the observer of the file hands to its callback.
\<close>

subsection \<open>What is in the file after a write\<close>

definition so_holds :: "u8 list shm_object \<Rightarrow> writer_attr \<Rightarrow> u8 list \<Rightarrow> bool" where
  "so_holds so d bs \<longleftrightarrow> so_valid so \<and> unat (ih_cur_data_size (so_header so)) = 64 + length bs \<and>
     take (64 + length bs) (so_payload so) = mh_bytes (sy_header d) @ bs"

lemma sy_write_content_ok:
  assumes W: "mf_writing m i" and F: "so_fits (mf_object m i) (length bs)" and P: "pw_fills pw bs"
    and L: "wa_len d = word_of_nat (length bs)"
  obtains m' where "sy_write_content pw d force m = (True, m')" "so_holds (mf_object m' i) d bs" "mf_attached m' i"
    "\<not> mf_auto_sanitizing (ms_file m')" "so_fits (mf_object m' i) = so_fits (mf_object m i)"
proof -
  let ?h = "mh_bytes (sy_header d)" and ?so = "mf_object m i"
  have h: "?h \<noteq> []" using length_mh_bytes [of "sy_header d"] by (metis list.size(3) zero_neq_numeral)
  have f: "64 + length bs \<le> so_max ?so" "64 + length bs \<le> length (so_payload ?so)" "so_valid ?so"
    using F by (simp_all add: so_fits_def)
  have "unat (0 :: u64) + length ?h \<le> so_max ?so" using f(1) by simp
  from mf_WriteBuffer_ok [OF W h this] obtain m1 where m1: "mf_WriteBuffer ?h 0 m = (word_of_nat (length ?h), m1)"
    "mf_writing m1 i" "mf_object m1 i = so_write (unat (0 :: u64)) ?h ?so" .
  have o1: "mf_object m1 i = so_write 0 ?h ?so" using m1(3) by simp
  have p1: "so_payload (mf_object m1 i) = ?h @ drop 64 (so_payload ?so)" using f(2) by (simp add: o1 splice_def)
  have fit1: "so_fits (mf_object m1 i) = so_fits ?so" unfolding o1 using f(2) by (intro ext so_fits_write) simp
  show ?thesis
  proof (cases "bs = []")
    case True
    let ?m = "snd (mf_ReleaseWriteAccess m1)"
    note r = mf_writing_release [OF m1(2)]
    have "sy_write_content pw d force m = (True, ?m)"
      using True L m1(1) by (simp add: sy_write_content_def split_beta)
    moreover have "so_holds (mf_object ?m i) d bs"
      using True f(3) p1 unfolding r(2) by (simp add: so_holds_def) (simp add: o1)
    moreover have "so_fits (mf_object ?m i) = so_fits ?so" using fit1 r(2) by simp
    ultimately show ?thesis using r(1,3) that by blast
  next
    case False
    have u: "unat (64 :: u64) + length bs \<le> so_max (mf_object m1 i)" using f(1) by (simp add: o1)
    have s: "unat (64 :: u64) + length bs \<le> length (so_payload (mf_object m1 i))" using f(2) by (simp add: p1)
    from mf_WritePayload_ok [OF m1(2) False u P s, of force] obtain m2 where
      m2: "mf_WritePayload pw (word_of_nat (length bs)) 64 force m1 = (word_of_nat (length bs), m2)" "mf_writing m2 i"
      "mf_object m2 i = so_write (unat (64 :: u64)) bs (mf_object m1 i)" .
    let ?m = "snd (mf_ReleaseWriteAccess m2)"
    note r = mf_writing_release [OF m2(2)]
    have n: "unat (word_of_nat (length bs) :: u64) = length bs" using word_sum_fits(4) [OF u] .
    then have pos: "0 < (word_of_nat (length bs) :: u64)" using False by (simp add: word_less_nat_alt)
    have "sy_write_content pw d force m = (True, ?m)"
      using L m1(1) m2(1) pos by (simp add: sy_write_content_def split_beta)
    moreover have "so_holds (mf_object ?m i) d bs"
    proof -
      have "unat (word_of_nat (64 + length bs) :: u64) = 64 + length bs"
      proof -
        have "word_of_nat (64 + length bs) = word_of_nat (length bs) + (64 :: u64)" by simp
        then show ?thesis by (simp only: word_sum_fits(2) [OF u]) simp
      qed
      then show ?thesis using f(2,3) p1 unfolding r(2) m2(3)
        by (simp add: so_holds_def splice_def) (simp add: o1)
    qed
    moreover have "so_fits (mf_object ?m i) = so_fits ?so"
      unfolding r(2) m2(3) fit1 [symmetric] using s by (intro ext so_fits_write) simp
    ultimately show ?thesis using r(1,3) that by blast
  qed
qed

subsection \<open>Reading it\<close>

lemma ob_ReadFileHeader_ok:
  assumes "mf_reading s i" "so_holds (mf_object s i) d bs"
  shows "ob_ReadFileHeader s = (True, sy_header d)"
proof -
  let ?so = "mf_object s i" and ?h = "mh_bytes (sy_header d)"
  have c: "unat (ih_cur_data_size (so_header ?so)) = 64 + length bs" "take (64 + length bs) (so_payload ?so) = ?h @ bs"
    using assms(2) by (simp_all add: so_holds_def)
  have t: "take n (so_payload ?so) = take n ?h" if "n \<le> 64" for n
  proof -
    have "take n (so_payload ?so) = take n (take (64 + length bs) (so_payload ?so))" using that by simp
    also have "\<dots> = take n ?h" using that unfolding c(2) by simp
    finally show ?thesis .
  qed
  have r2: "mf_Read 2 0 s = Some (take 2 ?h)" using mf_Read_ok [OF assms(1), of 2 0] c(1) t [of 2] by simp
  have r64: "mf_Read 64 0 s = Some ?h" using mf_Read_ok [OF assms(1), of 64 0] c(1) t [of 64] by simp
  have two: "splice 0 (take 2 ?h) (mh_bytes mh_new) = mh_bytes mh_new"
    by (simp add: splice_def mh_bytes_def sy_header_def mh_new_def)
  have full: "splice 0 ?h (mh_bytes mh_new) = ?h" by (simp add: splice_def)
  have cur: "ih_cur_data_size (so_header ?so) \<ge> 2" "ih_cur_data_size (so_header ?so) \<ge> 64"
    using c(1) by (simp_all add: word_le_nat_alt)
  have b: "mf_CurDataSize s = ih_cur_data_size (so_header ?so)" using assms(1) by (simp add: mf_CurDataSize_def mf_reading_def)
  have hs: "mh_hdr_size mh_new = 64" by (simp add: mh_new_def)
  show ?thesis unfolding ob_ReadFileHeader_def b Let_def r2 option.case two mh_roundtrip hs
    using cur by (simp add: r64 full mh_roundtrip)
qed

text \<open>What the callback gets: the payload that was written.\<close>

lemma ob_process_ok:
  assumes "mf_reading s i" "so_holds (mf_object s i) d bs" "wa_len d = word_of_nat (length bs)"
  shows "snd (ob_process (sy_header d) s ob) =
      (if ob_callback ob then [ObCallback bs (wa_len d) (wa_id d) (wa_clock d) (wa_time d) (wa_hash d)] else [])"
    "ob_last_clock (fst (ob_process (sy_header d) s ob)) = wa_clock d"
proof -
  let ?so = "mf_object s i"
  have c: "unat (ih_cur_data_size (so_header ?so)) = 64 + length bs"
    "take (64 + length bs) (so_payload ?so) = mh_bytes (sy_header d) @ bs"
    using assms(2) by (simp_all add: so_holds_def)
  have n: "unat (word_of_nat (length bs) :: u64) = length bs"
    using c(1) unat_lt_u64 [of "ih_cur_data_size (so_header ?so)"] by (simp add: unat_of_nat del: unat_lt_u64)
  have pl: "take (length bs) (drop 64 (so_payload ?so)) = bs"
  proof -
    have "take (length bs) (drop 64 (so_payload ?so)) = drop 64 (take (64 + length bs) (so_payload ?so))"
      by (simp add: take_drop add.commute)
    then show ?thesis by (simp add: c(2))
  qed
  have z: "word_of_nat (length bs) = (0 :: u64) \<longleftrightarrow> bs = []"
  proof -
    have "word_of_nat (length bs) = (0 :: u64) \<longleftrightarrow> unat (word_of_nat (length bs) :: u64) = 0"
      by (simp only: unat_eq_0)
    then show ?thesis by (simp add: n)
  qed
  have hd: "mh_data_size (sy_header d) = word_of_nat (length bs)" "mh_hdr_size (sy_header d) = 64" "mh_id (sy_header d) = wa_id d"
    "mh_clock (sy_header d) = wa_clock d" "mh_time (sy_header d) = wa_time d" "mh_hash (sy_header d) = wa_hash d"
    using assms(3) by (simp_all add: sy_header_def mh_new_def)
  have ga: "bs \<noteq> [] \<Longrightarrow> mf_GetReadAddress (word_of_nat (length bs)) s = Some i"
    using assms(1) z n c(1) by (simp add: mf_GetReadAddress_def mf_reading_def word_less_nat_alt)
  have rd: "bs \<noteq> [] \<Longrightarrow> mf_Read (word_of_nat (length bs)) 64 s = Some bs"
    using mf_Read_ok [OF assms(1), of "word_of_nat (length bs)" 64] n c(1) pl by simp
  show "ob_last_clock (fst (ob_process (sy_header d) s ob)) = wa_clock d"
    by (simp add: ob_process_def Let_def hd)
  show "snd (ob_process (sy_header d) s ob) =
      (if ob_callback ob then [ObCallback bs (wa_len d) (wa_id d) (wa_clock d) (wa_time d) (wa_hash d)] else [])"
  proof (cases "bs = []")
    case True
    then show ?thesis using assms(3) by (simp add: ob_process_def ob_call_def hd Let_def ob_resize_def)
  next
    case False
    then have "0 < (word_of_nat (length bs) :: u64)" using z by (simp add: word_neq_0_conv)
    then show ?thesis using False ga rd n pl assms(3) z
      by (simp add: ob_process_def ob_call_def hd Let_def)
  qed
qed

text \<open>What an access leaves alone.\<close>

definition ob_static :: "observer \<Rightarrow> bool \<times> bool \<times> bool \<times> time_point \<times> bool \<times> ev_handle \<times> ev_handle \<times> i32" where
  "ob_static ob = (ob_created ob, ob_do_stop ob, ob_is_observing ob, ob_life ob, ob_callback ob,
     ob_event_snd ob, ob_event_ack ob, ob_timeout ob)"

lemma ob_process_static:
  "ob_static (fst (ob_process h s ob)) = ob_static ob" "ob_file (fst (ob_process h s ob)) = ob_file ob"
  "ob_unprocessed (fst (ob_process h s ob)) = ob_unprocessed ob" "ob_last_clock (fst (ob_process h s ob)) = mh_clock h"
  by (simp_all add: ob_process_def ob_static_def Let_def)

text \<open>The callback for what was written, if it is new to the observer.\<close>

definition ob_delivery :: "observer \<Rightarrow> writer_attr \<Rightarrow> u8 list \<Rightarrow> ob_effect list" where
  "ob_delivery ob d bs = (if ob_callback ob \<and> ob_last_clock ob < wa_clock d
     then [ObCallback bs (wa_len d) (wa_id d) (wa_clock d) (wa_time d) (wa_hash d)] else [])"

lemma ob_access_ok:
  assumes A: "mf_attached (ob_state pr ob) i" and H: "so_holds (sw_objects (ps_world pr) i) d bs"
    and L: "wa_len d = word_of_nat (length bs)" and E: "re_lock e = LkOk rec" "se_mmap_ok (re_shm e)"
    and U: "\<not> mf_auto_sanitizing (ob_file ob)"
  obtains pr' ob' where "ob_access e pr ob = (pr', ob', ob_delivery ob d bs)" "ps_world pr' = ps_world pr"
    "mf_attached (ob_state pr' ob') i" "\<not> mf_auto_sanitizing (ob_file ob')" "\<not> ob_unprocessed ob'"
    "ob_last_clock ob' = max (ob_last_clock ob) (wa_clock d)" "ob_static ob' = ob_static ob"
    "\<And>h. ev_target (ps_ev pr') h = ev_target (ps_ev pr) h"
proof -
  let ?s0 = "ob_state pr ob"
  have o: "mf_object ?s0 i = sw_objects (ps_world pr) i" by (simp add: mf_object_def ob_state_def)
  have V: "so_valid (mf_object ?s0 i)" using H by (simp add: o so_holds_def)
  have "\<not> mf_auto_sanitizing (ms_file ?s0) \<or> \<not> rec" using U by (simp add: ob_state_def)
  from mf_GetReadAccess_ok [OF A V E(2) this] obtain s where s: "mf_GetReadAccess (re_shm e) (LkOk rec) ?s0 = (True, s)"
    "ms_world s = ps_world pr" "mf_mem s = Some i"
    "ms_file s = (ob_file ob)\<lparr>mf_header := so_header (mf_object ?s0 i), mf_access := AsRead\<rparr>"
    by (auto simp: ob_state_def)
  have os: "mf_object s i = sw_objects (ps_world pr) i" using s(2) by (simp add: mf_object_def)
  have R: "mf_reading s i" using A s(3,4) o os by (simp add: mf_reading_def mf_attached_def ob_state_def)
  have H': "so_holds (mf_object s i) d bs" using H os by simp
  have h: "snd (ob_ReadFileHeader s) = sy_header d" using ob_ReadFileHeader_ok [OF R H'] by simp
  let ?rel = "snd (mf_ReleaseReadAccess s)"
  have rel: "?rel = mf_set_access AsClosed s" using R by (simp add: mf_ReleaseReadAccess_def mf_reading_def)
  let ?pr = "pr\<lparr>ps_world := ms_world ?rel, ps_map := ms_map ?rel\<rparr>" and ?ob = "ob\<lparr>ob_unprocessed := False, ob_file := ms_file ?rel\<rparr>"
  have w: "ms_world ?rel = ps_world pr" using s(2) by (simp add: rel mf_set_access_def)
  have st: "ob_state ?pr ?ob = ?rel" by (simp add: ob_state_def)
  have att: "mf_attached ?rel i"
    using R H' by (simp add: rel mf_set_access_def mf_attached_def mf_reading_def so_holds_def so_valid_def)
  have au: "\<not> mf_auto_sanitizing (ms_file ?rel)" using U s(4) by (simp add: rel mf_set_access_def)
  note p = ob_process_ok [OF R H' L] ob_process_static [of "sy_header d" s ?ob]
  have c: "mh_clock (sy_header d) = wa_clock d" by (simp add: sy_header_def)
  have acc: "ob_access e pr ob = (if wa_clock d \<le> ob_last_clock ob then (?pr, ?ob, [])
      else (let (ob, effs) = ob_process (sy_header d) s ?ob
        in (if mh_ack_timeout_ms (sy_header d) \<noteq> 0 then ps_set (ob_event_ack ob) ?pr else ?pr, ob, effs)))"
    by (simp add: ob_access_def E(1) s(1) h ob_put_def c Let_def)
  show ?thesis
  proof (cases "wa_clock d \<le> ob_last_clock ob")
    case True
    have "ob_access e pr ob = (?pr, ?ob, ob_delivery ob d bs)" using True by (simp add: acc ob_delivery_def not_less)
    moreover have "mf_attached (ob_state ?pr ?ob) i" unfolding st by (rule att)
    ultimately show ?thesis using True au w by (intro that [of ?pr ?ob]) (simp_all add: ob_static_def)
  next
    case False
    let ?ob' = "fst (ob_process (sy_header d) s ?ob)"
      and ?pr' = "if mh_ack_timeout_ms (sy_header d) \<noteq> 0 then ps_set (ob_event_ack (fst (ob_process (sy_header d) s ?ob))) ?pr else ?pr"
    have "ob_access e pr ob = (?pr', ?ob', ob_delivery ob d bs)"
      using False p(1) [of ?ob] by (simp add: acc split_beta ob_delivery_def not_le)
    moreover have "ob_state ?pr' ?ob' = ?rel" using p(4) by (simp add: ob_state_def ps_set_def)
    moreover have "ob_static ?ob' = ob_static ob" using p(3) by (simp add: ob_static_def)
    moreover have "ob_last_clock ?ob' = max (ob_last_clock ob) (wa_clock d)" using False p(6) c by (auto simp: max_def not_le)
    ultimately show ?thesis using p(4,5) att au w
      by (intro that [of ?pr' ?ob']) (simp_all add: ps_set_def)
  qed
qed

subsection \<open>A publisher and an observer on one file\<close>

text \<open>
  The publisher \<open>sf\<close> and an observer in another process work on the same memory object \<open>i\<close>; \<open>k\<close> is the event
  by which the publisher signals that process. The observer runs and has a callback; the operating system
  and the events are those of the publisher's state, \<open>fm\<close> is the map of the observer's process.
\<close>

definition shm_process :: "sync_file \<Rightarrow> mem_file_map \<Rightarrow> process" where
  "shm_process sf fm = \<lparr>ps_world = ms_world (sy_mem sf), ps_map = fm, ps_ev = sy_ev sf\<rparr>"

text \<open>The state of the publisher when the observer's process has changed the shared parts.\<close>

definition sy_see :: "process \<Rightarrow> sync_file \<Rightarrow> sync_file" where
  "sy_see pr sf = sf\<lparr>sy_mem := (sy_mem sf)\<lparr>ms_world := ps_world pr\<rparr>, sy_ev := ps_ev pr\<rparr>"

definition shm_link :: "sync_file \<Rightarrow> mem_file_map \<Rightarrow> observer \<Rightarrow> nat \<Rightarrow> nat \<Rightarrow> bool" where
  "shm_link sf fm ob i k \<longleftrightarrow>
     sy_created sf \<and> mf_attached (sy_mem sf) i \<and> \<not> mf_auto_sanitizing (ms_file (sy_mem sf)) \<and>
     mf_attached (ob_state (shm_process sf fm) ob) i \<and> \<not> mf_auto_sanitizing (ob_file ob) \<and>
     ob_is_observing ob \<and> \<not> ob_do_stop ob \<and> ob_callback ob \<and>
     (\<exists>(_, p) \<in> set (sy_events sf). ev_target (sy_ev sf) (ep_snd p) = Some k) \<and>
     (\<forall>(_, p) \<in> set (sy_events sf). ev_target (sy_ev sf) (ep_ack p) \<noteq> Some k) \<and>
     ev_target (sy_ev sf) (ob_event_snd ob) = Some k"

text \<open>A write that gets the lock.\<close>

lemma sy_Write_ok:
  assumes K: "shm_link sf fm ob i k" and F: "so_fits (mf_object (sy_mem sf) i) (length bs)"
    and P: "pw_fills pw bs" and L: "wa_len d = word_of_nat (length bs)"
    and E: "se_lk_write e = LkOk rec" "se_mmap_ok (se_shm e)"
  obtains sf' effs where "sy_Write e pw d force sf = Some (True, sf', effs)"
    "so_holds (mf_object (sy_mem sf') i) d bs" "so_fits (mf_object (sy_mem sf') i) = so_fits (mf_object (sy_mem sf) i)"
    "ew_set (sy_ev sf') k" "shm_link sf' fm ob i k"
proof -
  let ?ack = "if wa_acknowledge_timeout_ms d <s 0 then 0 else wa_acknowledge_timeout_ms d"
  let ?s = "sf\<lparr>sy_attr := (sy_attr sf)\<lparr>sya_timeout_ack_ms := ?ack\<rparr>\<rparr>"
  have k: "sy_created sf" "mf_attached (sy_mem sf) i" "\<not> mf_auto_sanitizing (ms_file (sy_mem sf))"
    using K by (simp_all add: shm_link_def)
  have V: "so_valid (mf_object (sy_mem sf) i)" using F by (simp add: so_fits_def)
  from mf_GetWriteAccess_ok [OF k(2) V E(2) k(3)] obtain m where m: "mf_GetWriteAccess (se_shm e) (LkOk rec) (sy_mem sf) = (True, m)"
    "mf_writing m i" "ms_world m = ms_world (sy_mem sf)" .
  have om: "mf_object m = mf_object (sy_mem sf)" using m(3) by (simp add: mf_object_def fun_eq_iff)
  have "so_fits (mf_object m i) (length bs)" using F om by simp
  from sy_write_content_ok [OF m(2) this P L, of force] obtain m' where m': "sy_write_content pw d force m = (True, m')"
    "so_holds (mf_object m' i) d bs" "mf_attached m' i" "\<not> mf_auto_sanitizing (ms_file m')" "so_fits (mf_object m' i) = so_fits (mf_object m i)" .
  let ?t = "?s\<lparr>sy_mem := m'\<rparr>"
  obtain sf' effs where r: "sy_SyncContent e ?t = (sf', effs)" by (cases "sy_SyncContent e ?t")
  have w: "sy_Write e pw d force sf = Some (True, sf', effs)"
    using k(1) m(1) m'(1) r E(1) by (simp add: sy_Write_def Let_def)
  obtain pid p where p: "(pid, p) \<in> set (sy_events ?t)" "ev_target (sy_ev ?t) (ep_snd p) = Some k"
    using K by (auto simp: shm_link_def)
  have c: "sy_created ?t" "\<forall>(_, q) \<in> set (sy_events ?t). ev_target (sy_ev ?t) (ep_ack q) \<noteq> Some k"
    using K by (simp_all add: shm_link_def)
  note sig = sy_SyncContent_signals [OF c(1) p c(2), of e, unfolded r fst_conv]
  have cr: "sy_created sf'" using sy_SyncContent_effects(1) [OF r] k(1) by simp
  have "mf_mem (ob_state (shm_process sf' fm) ob) = mf_mem (ob_state (shm_process sf fm) ob)"
    by (rule mf_mem_cong) (simp_all add: ob_state_def shm_process_def)
  then have att: "mf_attached (ob_state (shm_process sf' fm) ob) i"
    using K by (simp add: shm_link_def mf_attached_def) (simp add: ob_state_def)
  have "shm_link sf' fm ob i k"
    using K p m'(3,4) sig cr att by (auto simp: shm_link_def)
  then show ?thesis using w m'(2,5) om sig by (intro that [OF w]) simp_all
qed

text \<open>
  The record of a round that is on time and gets the lock: the observer has not timed out, is not
  asked to stop, and the file can be locked.
\<close>

definition re_ok :: "round_env \<Rightarrow> observer \<Rightarrow> bool" where
  "re_ok e ob \<longleftrightarrow> re_now e - ob_life ob < sint (ob_timeout ob) * 1000000 \<and> \<not> re_stop e \<and>
     (\<exists>rec. re_lock e = LkOk rec) \<and> se_mmap_ok (re_shm e)"

lemma ob_round_ok:
  assumes K: "shm_link sf fm ob i k" and H: "so_holds (mf_object (sy_mem sf) i) d bs" "wa_len d = word_of_nat (length bs)"
    and S: "ew_set (sy_ev sf) k \<or> ob_unprocessed ob" and E: "re_ok e ob"
  obtains pr' ob' where "ob_round e (shm_process sf fm) ob = (True, pr', ob', ob_delivery ob d bs)"
    "shm_link (sy_see pr' sf) (ps_map pr') ob' i k" "ob_last_clock ob' = max (ob_last_clock ob) (wa_clock d)"
    "ps_world pr' = ms_world (sy_mem sf)" "ob_timeout ob' = ob_timeout ob"
    "ob_life ob' = (if ob_unprocessed ob then ob_life ob else re_now_signal e)" "\<not> ob_unprocessed ob'"
proof -
  let ?pr = "shm_process sf fm"
  let ?pr1 = "if ob_unprocessed ob then ?pr else ?pr\<lparr>ps_ev := (sy_ev sf)\<lparr>ew_set := (ew_set (sy_ev sf))(k := False)\<rparr>\<rparr>"
  let ?ob1 = "if ob_unprocessed ob then ob else ob\<lparr>ob_unprocessed := True, ob_life := re_now_signal e\<rparr>"
  have k: "ev_target (sy_ev sf) (ob_event_snd ob) = Some k" "\<not> ob_do_stop ob" "ob_callback ob" "ob_is_observing ob"
    using K by (simp_all add: shm_link_def)
  obtain rec where lk: "re_lock e = LkOk rec" "se_mmap_ok (re_shm e)" using E by (auto simp: re_ok_def)
  have ev: "\<not> ob_unprocessed ob \<Longrightarrow> gWaitForEvent (ob_event_snd ob) 500 (re_arrives e) (sy_ev sf) =
      (True, (sy_ev sf)\<lparr>ew_set := (ew_set (sy_ev sf))(k := False)\<rparr>)"
    using S gWaitForEvent_target [OF k(1)] by simp
  have ob1: "ob\<lparr>ob_do_stop := False\<rparr> = ob" "ob\<lparr>ob_unprocessed := a, ob_life := b, ob_do_stop := False\<rparr> = ob\<lparr>ob_unprocessed := a, ob_life := b\<rparr>" for a b
    using k(2) by (cases ob; simp)+
  have r: "ob_round e ?pr ob = (True, ob_access e ?pr1 ?ob1)"
    using E k(2) ev by (cases "ob_unprocessed ob") (simp_all add: ob_round_def re_ok_def shm_process_def ob1)
  have st1: "ob_state ?pr1 ?ob1 = ob_state ?pr ob" by (simp add: ob_state_def)
  have A: "mf_attached (ob_state ?pr1 ?ob1) i" unfolding st1 using K by (simp add: shm_link_def)
  have H1: "so_holds (sw_objects (ps_world ?pr1) i) d bs" using H(1) by (simp add: shm_process_def mf_object_def)
  have U: "\<not> mf_auto_sanitizing (ob_file ?ob1)" using K by (simp add: shm_link_def)
  from ob_access_ok [OF A H1 H(2) lk U] obtain pr' ob' where a: "ob_access e ?pr1 ?ob1 = (pr', ob', ob_delivery ?ob1 d bs)"
    "ps_world pr' = ps_world ?pr1" "mf_attached (ob_state pr' ob') i" "\<not> mf_auto_sanitizing (ob_file ob')" "\<not> ob_unprocessed ob'"
    "ob_last_clock ob' = max (ob_last_clock ?ob1) (wa_clock d)" "ob_static ob' = ob_static ?ob1"
    "\<And>h. ev_target (ps_ev pr') h = ev_target (ps_ev ?pr1) h" by metis
  have w: "ps_world pr' = ms_world (sy_mem sf)" using a(2) by (simp add: shm_process_def)
  have t: "ev_target (ps_ev pr') h = ev_target (sy_ev sf) h" for h using a(8) [of h] by (simp add: shm_process_def)
  have static: "ob_is_observing ob' = ob_is_observing ob" "\<not> ob_do_stop ob'" "ob_callback ob' = ob_callback ob"
    "ob_event_snd ob' = ob_event_snd ob" "ob_timeout ob' = ob_timeout ob"
    "ob_life ob' = (if ob_unprocessed ob then ob_life ob else re_now_signal e)"
    using a(7) k(2) by (simp_all add: ob_static_def split: if_splits)
  have see: "shm_process (sy_see pr' sf) (ps_map pr') = pr'" by (simp add: shm_process_def sy_see_def)
  have me: "(sy_mem sf)\<lparr>ms_world := ps_world pr'\<rparr> = sy_mem sf" using w by simp
  have "shm_link (sy_see pr' sf) (ps_map pr') ob' i k"
    unfolding shm_link_def see using K a(3,4) static t k by (simp add: sy_see_def me shm_link_def)
  then show ?thesis using r a(1,5,6) w static by (intro that [of pr' ob']) (simp_all add: ob_delivery_def)
qed

subsection \<open>Setting up the link\<close>

text \<open>The first observer of a file in another process, with nothing of the file's name mapped yet.\<close>

lemma ob_Create_ok:
  assumes P: "sw_names (ps_world pr) (shm_posix_name file) = Some i" "so_valid (sw_objects (ps_world pr) i)"
      "om_find id (fm_map (ps_map pr)) file = None" "file \<noteq> []" "se_mmap_ok e"
    and V: "event_inv (ps_ev pr)" "ew_names (ps_ev pr) (ev_posix_name event) = Some k"
  obtains pr' ob where "ob_Create e True True (LkOk rec) file event pr (ob_new now) = Some (True, pr', ob)"
    "ps_world pr' = ps_world pr" "mf_attached (ob_state pr' ob) i" "\<not> mf_auto_sanitizing (ob_file ob)"
    "ev_target (ps_ev pr') (ob_event_snd ob) = Some k" "ob_created ob" "\<not> ob_is_observing ob" "\<not> ob_do_stop ob"
    "ob_life ob = now" "\<And>h j. ev_target (ps_ev pr) h = Some j \<Longrightarrow> ev_target (ps_ev pr') h = Some j"
proof -
  obtain h1 w1 where o1: "gOpenNamedEvent True event False (ps_ev pr) = (h1, w1)"
    by (cases "gOpenNamedEvent True event False (ps_ev pr)")
  obtain h2 w2 where o2: "gOpenNamedEvent True (event @ ''_ack'') False w1 = (h2, w2)"
    by (cases "gOpenNamedEvent True (event @ ''_ack'') False w1")
  note k1 = gOpenNamedEvent_keeps [OF V(1) o1]
  note k2 = gOpenNamedEvent_keeps [OF k1(1) o2]
  have t: "ev_target w1 h1 = Some k" using gOpenNamedEvent_target(3) [OF o1 V(2)] .
  let ?pr = "pr\<lparr>ps_ev := w2\<rparr>" and ?ob = "(ob_new now)\<lparr>ob_event_snd := h1, ob_event_ack := h2, ob_created := True\<rparr>"
  let ?s = "ob_state ?pr ?ob"
  have s: "mf_name (ms_file ?s) = []" "\<not> mf_created (ms_file ?s)" "om_find id (fm_map (ms_map ?s)) file = None"
    "sw_names (ms_world ?s) (shm_posix_name file) = Some i" "so_valid (mf_object ?s i)"
    using P by (simp_all add: ob_state_def ob_new_def mf_new_def mf_object_def)
  from mf_Create_open [OF P(4) s P(5), of rec] obtain s' where
    c: "mf_Create e True (LkOk rec) file False 0 False ?s = Some (True, s')" "mf_attached s' i" "ms_world s' = ms_world ?s"
      "\<not> mf_auto_sanitizing (ms_file s')" .
  obtain pr' ob' where p: "ob_put s' ?pr ?ob = (pr', ob')" by (cases "ob_put s' ?pr ?ob")
  have st: "ob_state pr' ob' = s'" using p by (auto simp: ob_put_def ob_state_def)
  show ?thesis
  proof (rule that [of pr' ob'])
    show "ob_Create e True True (LkOk rec) file event pr (ob_new now) = Some (True, pr', ob')"
      using o1 o2 c(1) p by (simp add: ob_Create_def ob_new_def Let_def)
    show "mf_attached (ob_state pr' ob') i" using c(2) st by simp
    show "\<not> mf_auto_sanitizing (ob_file ob')" using c(4) st [symmetric] by (simp add: ob_state_def)
  qed (use p c(3) t k1 k2 in \<open>auto simp: ob_put_def ob_state_def ob_new_def\<close>)
qed

text \<open>
  A publisher creates its file and a reader's process is connected; the observer pool of that process, which
  has no observer of the file, is asked to observe it.
\<close>

definition shm_setup ::
  "sync_env \<Rightarrow> string \<Rightarrow> u64 \<Rightarrow> i32 \<Rightarrow> u8 list shm_env \<Rightarrow> lock_result \<Rightarrow> time_point \<Rightarrow> i32 \<Rightarrow>
   sync_file \<Rightarrow> mem_file_map \<Rightarrow> observer_pool \<Rightarrow> (bool \<times> sync_file \<times> process \<times> observer_pool) option" where
  "shm_setup e base sz pid e' lk now timeout sf fm p =
     (case sy_Create e base sz sf of
        None \<Rightarrow> None
      | Some (_, sf) \<Rightarrow>
          (let sf = snd (sy_Connect (se_ev_ok e) pid sf)
           in map_option (\<lambda>(ok, pr, p). (ok, sy_see pr sf, pr, p))
             (op_ObserveFile e' True True lk now (sy_name sf) (sy_event_snd sf pid) timeout True (shm_process sf fm) p)))"

lemma shm_setup_ok:
  assumes C: "sy_can_create e base sz sf" "se_ev_ok e" "sy_events sf = []"
    and N: "event_inv (sy_ev sf)" "\<And>n. ew_names (sy_ev sf) (ev_posix_name (BuildRandomMemFileName base (se_rnd e) @ n)) = None"
    and O: "om_find id (fm_map fm) (BuildRandomMemFileName base (se_rnd e)) = None" "op_created p"
      "om_find id (op_observers p) (BuildRandomMemFileName base (se_rnd e)) = None" "se_mmap_ok e'"
  obtains sf' pr p' ob i k where "shm_setup e base sz pid e' (LkOk rec) now timeout sf fm p = Some (True, sf', pr, p')"
    "p' = p\<lparr>op_observers := om_set id (op_observers p) (BuildRandomMemFileName base (se_rnd e)) ob\<rparr>"
    "shm_link sf' (ps_map pr) ob i k" "shm_process sf' (ps_map pr) = pr"
    "\<And>n. n \<le> unat sz \<Longrightarrow> so_fits (mf_object (sy_mem sf') i) n"
    "ob_life ob = now" "ob_last_clock ob = 0" "ob_timeout ob = timeout" "\<not> ob_unprocessed ob"
proof -
  let ?name = "BuildRandomMemFileName base (se_rnd e)"
  have ne: "?name \<noteq> []" using C(1) by (simp add: sy_can_create_def mf_fresh_def)
  from sy_Create_ok [OF C(1)] obtain m i where
    c: "sy_Create e base sz sf = Some (True, sf\<lparr>sy_base := base, sy_name := ?name, sy_mem := m, sy_created := True\<rparr>)"
      "mf_attached m i" "\<not> mf_auto_sanitizing (ms_file m)" "so_valid (mf_object m i)"
      "64 + unat sz \<le> so_max (mf_object m i)" "64 + unat sz \<le> length (so_payload (mf_object m i))"
      "sw_names (ms_world m) (shm_posix_name ?name) = Some i" .
  let ?s1 = "sf\<lparr>sy_base := base, sy_name := ?name, sy_mem := m, sy_created := True\<rparr>"
  have e1: "sy_created ?s1" "om_find id (sy_events ?s1) pid = None" "event_inv (sy_ev ?s1)" "sy_name ?s1 \<noteq> []"
    "ew_names (sy_ev ?s1) (ev_posix_name (sy_event_snd ?s1 pid)) = None"
    "ew_names (sy_ev ?s1) (ev_posix_name (sy_event_snd ?s1 pid @ ''_ack'')) = None"
    using C(3) N ne by (simp_all add: sy_event_snd_def)
  from sy_Connect_new [OF e1] obtain w q k k' where
    d: "sy_Connect True pid ?s1 = (True, ?s1\<lparr>sy_ev := w, sy_events := om_set id (sy_events ?s1) pid q\<rparr>)"
      "ev_target w (ep_snd q) = Some k" "ev_target w (ep_ack q) = Some k'" "k' \<noteq> k" "event_inv w"
      "ew_names w (ev_posix_name (sy_event_snd ?s1 pid)) = Some k" .
  let ?s2 = "?s1\<lparr>sy_ev := w, sy_events := om_set id (sy_events ?s1) pid q\<rparr>"
  have ev: "sy_events ?s2 = [(pid, q)]" using C(3) by simp
  let ?pr = "shm_process ?s2 fm"
  have P: "sw_names (ps_world ?pr) (shm_posix_name ?name) = Some i" "so_valid (sw_objects (ps_world ?pr) i)"
    "om_find id (fm_map (ps_map ?pr)) ?name = None" "event_inv (ps_ev ?pr)"
    "ew_names (ps_ev ?pr) (ev_posix_name (sy_event_snd ?s1 pid)) = Some k"
    using c(4,7) O(1) d(5,6) by (simp_all add: shm_process_def mf_object_def)
  from ob_Create_ok [OF P(1-3) ne O(4) P(4,5), of rec now] obtain pr ob where
    o: "ob_Create e' True True (LkOk rec) ?name (sy_event_snd ?s1 pid) ?pr (ob_new now) = Some (True, pr, ob)"
      "ps_world pr = ps_world ?pr" "mf_attached (ob_state pr ob) i" "\<not> mf_auto_sanitizing (ob_file ob)"
      "ev_target (ps_ev pr) (ob_event_snd ob) = Some k" "ob_created ob" "\<not> ob_is_observing ob" "\<not> ob_do_stop ob"
      "ob_life ob = now" "\<And>h j. ev_target (ps_ev ?pr) h = Some j \<Longrightarrow> ev_target (ps_ev pr) h = Some j" by metis
  let ?ob = "ob\<lparr>ob_callback := True, ob_is_observing := True, ob_timeout := timeout, ob_last_clock := 0,
    ob_buffer := [], ob_unprocessed := False\<rparr>"
  let ?sf = "sy_see pr ?s2"
  have st: "snd (ob_Start timeout True ob) = ?ob" using o(6,7) by (simp add: ob_Start_def)
  have snd: "sy_event_snd ?s2 pid = sy_event_snd ?s1 pid" by (simp add: sy_event_snd_def)
  have me: "m\<lparr>ms_world := ps_world pr\<rparr> = m" using o(2) by (simp add: shm_process_def)
  have see: "shm_process ?sf (ps_map pr) = pr" by (simp add: shm_process_def sy_see_def)
  have obs: "ob_state pr ?ob = ob_state pr ob" by (simp add: ob_state_def)
  have t: "ev_target (ps_ev pr) (ep_snd q) = Some k" "ev_target (ps_ev pr) (ep_ack q) = Some k'"
    using o(10) [of "ep_snd q" k] o(10) [of "ep_ack q" k'] d(2,3) by (simp_all add: shm_process_def)
  show ?thesis
  proof (rule that)
    show "shm_setup e base sz pid e' (LkOk rec) now timeout sf fm p = Some (True, ?sf, pr,
        p\<lparr>op_observers := om_set id (op_observers p) ?name ?ob\<rparr>)"
      using c(1) C(2) d(1) O(2,3) ne o(1) st by (simp add: shm_setup_def op_ObserveFile_def sy_event_snd_def Let_def)
    show "shm_link ?sf (ps_map pr) ?ob i k"
      unfolding shm_link_def see obs using c(2,3) o(3,4,5,8) ev t d(4)
      by (simp add: sy_see_def me)
    show "so_fits (mf_object (sy_mem ?sf) i) n" if "n \<le> unat sz" for n
      unfolding sy_see_def using c(4-6) that by (simp add: me so_fits_def)
  qed (use see o(9) in simp_all)
qed

subsection \<open>The transfer\<close>

lemma pw_buffer_fills: "pw_fills (pw_buffer bs) bs"
  by (simp add: pw_fills_def pw_buffer_def splice_def Let_def)

text \<open>One write of the publisher, and the observer's next round.\<close>

definition shm_send ::
  "sync_env \<Rightarrow> payload_writer \<Rightarrow> writer_attr \<Rightarrow> bool \<Rightarrow> round_env \<Rightarrow> sync_file \<Rightarrow> mem_file_map \<Rightarrow> observer \<Rightarrow>
   (bool \<times> bool \<times> sync_file \<times> mem_file_map \<times> observer \<times> ob_effect list) option" where
  "shm_send e pw d force r sf fm ob =
     map_option (\<lambda>(written, sf, _). let (on, pr, ob, effs) = ob_round r (shm_process sf fm) ob
         in (written, on, sy_see pr sf, ps_map pr, ob, effs))
       (sy_Write e pw d force sf)"

lemma shm_send_ok:
  assumes "shm_link sf fm ob i k" "so_fits (mf_object (sy_mem sf) i) (length bs)" "wa_len d = word_of_nat (length bs)"
    "se_lk_write e = LkOk rec" "se_mmap_ok (se_shm e)" "re_ok r ob" "pw_fills pw bs"
  obtains sf' fm' ob' where "shm_send e pw d force r sf fm ob = Some (True, True, sf', fm', ob', ob_delivery ob d bs)"
    "shm_link sf' fm' ob' i k" "so_fits (mf_object (sy_mem sf') i) = so_fits (mf_object (sy_mem sf) i)"
    "ob_last_clock ob' = max (ob_last_clock ob) (wa_clock d)" "ob_timeout ob' = ob_timeout ob"
    "ob_life ob' = (if ob_unprocessed ob then ob_life ob else re_now_signal r)" "\<not> ob_unprocessed ob'"
proof -
  from sy_Write_ok [OF assms(1,2,7,3,4,5), of force] obtain sf1 effs where
    w: "sy_Write e pw d force sf = Some (True, sf1, effs)" "so_holds (mf_object (sy_mem sf1) i) d bs"
      "so_fits (mf_object (sy_mem sf1) i) = so_fits (mf_object (sy_mem sf) i)" "ew_set (sy_ev sf1) k"
      "shm_link sf1 fm ob i k" .
  from ob_round_ok [OF w(5,2) assms(3) disjI1 [OF w(4)] assms(6)] obtain pr' ob' where
    o: "ob_round r (shm_process sf1 fm) ob = (True, pr', ob', ob_delivery ob d bs)"
      "shm_link (sy_see pr' sf1) (ps_map pr') ob' i k" "ob_last_clock ob' = max (ob_last_clock ob) (wa_clock d)"
      "ps_world pr' = ms_world (sy_mem sf1)" "ob_timeout ob' = ob_timeout ob"
      "ob_life ob' = (if ob_unprocessed ob then ob_life ob else re_now_signal r)" "\<not> ob_unprocessed ob'" .
  have "mf_object (sy_mem (sy_see pr' sf1)) i = mf_object (sy_mem sf1) i"
    using o(4) by (simp add: sy_see_def mf_object_def)
  then show ?thesis using w o by (intro that [of "sy_see pr' sf1" "ps_map pr'" ob']) (simp_all add: shm_send_def)
qed

text \<open>
  A sequence of messages: the buffers with their attributes, whether the full write is forced, and the
  environments of the write and of the round. What the callbacks have got is collected.
\<close>

type_synonym shm_message = "writer_attr \<times> u8 list \<times> bool \<times> sync_env \<times> round_env"

fun shm_stream ::
  "shm_message list \<Rightarrow> sync_file \<Rightarrow> mem_file_map \<Rightarrow> observer \<Rightarrow>
   (bool \<times> sync_file \<times> mem_file_map \<times> observer \<times> ob_effect list) option" where
  "shm_stream [] sf fm ob = Some (True, sf, fm, ob, [])"
| "shm_stream ((d, bs, force, e, r) # ms) sf fm ob =
     (case shm_send e (pw_buffer bs) d force r sf fm ob of
        None \<Rightarrow> None
      | Some (written, on, sf, fm, ob, effs) \<Rightarrow>
          (if \<not> written \<or> \<not> on then Some (False, sf, fm, ob, effs)
           else map_option (\<lambda>(ok, sf, fm, ob, effs'). (ok, sf, fm, ob, effs @ effs')) (shm_stream ms sf fm ob)))"

text \<open>What ought to arrive: each buffer whose clock is above all clocks before.\<close>

fun newer_than :: "u64 \<Rightarrow> shm_message list \<Rightarrow> ob_effect list" where
  "newer_than c [] = []"
| "newer_than c ((d, bs, _) # ms) =
     (if c < wa_clock d then ObCallback bs (wa_len d) (wa_id d) (wa_clock d) (wa_time d) (wa_hash d) # newer_than (wa_clock d) ms
      else newer_than c ms)"

text \<open>
  The messages fit, the write gets its lock, and the round comes within the observer's timeout after the
  round before.
\<close>

fun shm_in_time :: "nat \<Rightarrow> i32 \<Rightarrow> time_point \<Rightarrow> shm_message list \<Rightarrow> bool" where
  "shm_in_time cap timeout life [] = True"
| "shm_in_time cap timeout life ((d, bs, _, e, r) # ms) =
     (length bs \<le> cap \<and> wa_len d = word_of_nat (length bs) \<and> se_lk_write e \<noteq> LkTimeout \<and> se_mmap_ok (se_shm e) \<and>
      re_now r - life < sint timeout * 1000000 \<and> \<not> re_stop r \<and> re_lock r \<noteq> LkTimeout \<and> se_mmap_ok (re_shm r) \<and>
      shm_in_time cap timeout (re_now_signal r) ms)"

lemma shm_stream_ok:
  "shm_link sf fm ob i k \<Longrightarrow> (\<And>n. n \<le> cap \<Longrightarrow> so_fits (mf_object (sy_mem sf) i) n) \<Longrightarrow> \<not> ob_unprocessed ob \<Longrightarrow>
    shm_in_time cap (ob_timeout ob) (ob_life ob) ms \<Longrightarrow>
    \<exists>sf' fm' ob'. shm_stream ms sf fm ob = Some (True, sf', fm', ob', newer_than (ob_last_clock ob) ms)"
proof (induction ms arbitrary: sf fm ob)
  case (Cons x ms)
  obtain d bs force e r where x: "x = (d, bs, force, e, r)" by (cases x)
  have t: "length bs \<le> cap" "wa_len d = word_of_nat (length bs)" "se_lk_write e \<noteq> LkTimeout" "se_mmap_ok (se_shm e)"
    "re_now r - ob_life ob < sint (ob_timeout ob) * 1000000" "\<not> re_stop r" "re_lock r \<noteq> LkTimeout" "se_mmap_ok (re_shm r)"
    "shm_in_time cap (ob_timeout ob) (re_now_signal r) ms"
    using Cons.prems(4) by (simp_all add: x)
  obtain rec where lk: "se_lk_write e = LkOk rec" using t(3) by (cases "se_lk_write e") auto
  have re: "re_ok r ob" using t(5-8) by (cases "re_lock r") (simp_all add: re_ok_def)
  from shm_send_ok [OF Cons.prems(1) Cons.prems(2) [OF t(1)] t(2) lk t(4) re pw_buffer_fills, of force]
  obtain sf1 fm1 ob1 where s: "shm_send e (pw_buffer bs) d force r sf fm ob = Some (True, True, sf1, fm1, ob1, ob_delivery ob d bs)"
    "shm_link sf1 fm1 ob1 i k" "so_fits (mf_object (sy_mem sf1) i) = so_fits (mf_object (sy_mem sf) i)"
    "ob_last_clock ob1 = max (ob_last_clock ob) (wa_clock d)" "ob_timeout ob1 = ob_timeout ob"
    "ob_life ob1 = re_now_signal r" "\<not> ob_unprocessed ob1"
    using Cons.prems(3) by metis
  have f: "n \<le> cap \<Longrightarrow> so_fits (mf_object (sy_mem sf1) i) n" for n using Cons.prems(2) s(3) by simp
  from Cons.IH [OF s(2) f s(7)] obtain sf' fm' ob' where
    "shm_stream ms sf1 fm1 ob1 = Some (True, sf', fm', ob', newer_than (max (ob_last_clock ob) (wa_clock d)) ms)"
    using t(9) s(4-6) by auto
  moreover have "ob_callback ob" using Cons.prems(1) by (simp add: shm_link_def)
  ultimately show ?case using s(1) by (auto simp: x ob_delivery_def max_def)
qed simp

text \<open>
  C2. From the creation of the file on: a publisher creates its memory file, a process connects and observes the
  file, and then messages are written that fit and come in time. The callback of the observer gets, in
  the order of writing, exactly the buffers whose clock is above all the clocks before, each with the bytes,
  the length, the id, the clock, the time and the hash it was written with.
\<close>

theorem shm_delivery:
  assumes "sy_can_create e base sz sf" "se_ev_ok e" "sy_events sf = []" "event_inv (sy_ev sf)"
    "\<And>n. ew_names (sy_ev sf) (ev_posix_name (BuildRandomMemFileName base (se_rnd e) @ n)) = None"
    "om_find id (fm_map fm0) (BuildRandomMemFileName base (se_rnd e)) = None" "op_created p"
    "om_find id (op_observers p) (BuildRandomMemFileName base (se_rnd e)) = None" "se_mmap_ok e'"
    "shm_in_time (unat sz) timeout now ms"
  shows "\<exists>sf1 pr p' ob sf2 fm ob2. shm_setup e base sz pid e' (LkOk rec) now timeout sf fm0 p = Some (True, sf1, pr, p') \<and>
    om_find id (op_observers p') (BuildRandomMemFileName base (se_rnd e)) = Some ob \<and>
    shm_stream ms sf1 (ps_map pr) ob = Some (True, sf2, fm, ob2, newer_than 0 ms)"
proof -
  from shm_setup_ok [OF assms(1-9)] obtain sf1 pr p' ob i k where
    s: "shm_setup e base sz pid e' (LkOk rec) now timeout sf fm0 p = Some (True, sf1, pr, p')"
      "p' = p\<lparr>op_observers := om_set id (op_observers p) (BuildRandomMemFileName base (se_rnd e)) ob\<rparr>"
      "shm_link sf1 (ps_map pr) ob i k" "\<And>n. n \<le> unat sz \<Longrightarrow> so_fits (mf_object (sy_mem sf1) i) n"
      "ob_life ob = now" "ob_last_clock ob = 0" "ob_timeout ob = timeout" "\<not> ob_unprocessed ob" by metis
  have "shm_in_time (unat sz) (ob_timeout ob) (ob_life ob) ms" using assms(10) s(5,7) by simp
  from shm_stream_ok [OF s(3,4,8) this] s(6) obtain sf2 fm2 ob2 where
    "shm_stream ms sf1 (ps_map pr) ob = Some (True, sf2, fm2, ob2, newer_than 0 ms)" by auto
  then show ?thesis using s(1,2) by (auto simp: om_find_set)
qed

text \<open>Two messages, the second with an older clock.\<close>

definition wit_sync_env :: sync_env where
  "wit_sync_env = \<lparr>se_shm = wit_env, se_mtx_ok = True, se_lk_create = LkOk False, se_lk_init = LkOk False, se_lk_write = LkOk False,
     se_lk_rewrite = LkOk False, se_rnd = 11, se_ev_ok = True, se_reserve = (\<lambda>r n. 0), se_elapsed = (\<lambda>_. 0), se_acked = (\<lambda>_. False)\<rparr>"

definition wit_sync_file :: sync_file where
  "wit_sync_file = \<lparr>sy_base = [], sy_name = [], sy_attr = \<lparr>sya_min_size = 4096, sya_reserve = 50, sya_timeout_open_ms = 5, sya_timeout_ack_ms = 0\<rparr>,
     sy_created = False, sy_events = [], sy_mem = \<lparr>ms_file = mf_new,
       ms_world = \<lparr>sw_names = (\<lambda>_. None), sw_objects = (\<lambda>_. \<lparr>so_size = 0, so_header = ih_zero, so_payload = []\<rparr>), sw_next = 0\<rparr>, ms_map = fm_new\<rparr>,
     sy_ev = \<lparr>ew_names = (\<lambda>_. None), ew_set = (\<lambda>_. False), ew_heap = (\<lambda>_. None), ew_next = 0\<rparr>\<rparr>"

definition wit_attr :: "u64 \<Rightarrow> u64 \<Rightarrow> writer_attr" where
  "wit_attr n c = \<lparr>wa_len = n, wa_id = 1, wa_clock = c, wa_hash = 9, wa_time = 5, wa_loopback = True, wa_zero_copy = False, wa_acknowledge_timeout_ms = 0\<rparr>"

lemma shm_delivery_witness:
  "\<exists>sf1 pr p' ob sf2 fm ob2.
    shm_setup wit_sync_env ''topic_'' 100 42 wit_env (LkOk False) 0 5000 wit_sync_file fm_new (op_Start op_new) = Some (True, sf1, pr, p') \<and>
    om_find id (op_observers p') (BuildRandomMemFileName ''topic_'' 11) = Some ob \<and>
    shm_stream [(wit_attr 3 2, [10, 20, 30], False, wit_sync_env, wit_round), (wit_attr 1 1, [40], False, wit_sync_env, wit_round)]
      sf1 (ps_map pr) ob = Some (True, sf2, fm, ob2, [ObCallback [10, 20, 30] 3 1 2 5 9])"
proof -
  let ?ms = "[(wit_attr 3 2, [10, 20, 30], False, wit_sync_env, wit_round), (wit_attr 1 1, [40], False, wit_sync_env, wit_round)]"
  have n: "newer_than 0 ?ms = [ObCallback [10, 20, 30] 3 1 2 5 9]" by (simp add: wit_attr_def)
  have d: "se_rnd wit_sync_env = 11" by (simp add: wit_sync_env_def)
  have f: "mf_fresh (BuildRandomMemFileName ''topic_'' 11) (sy_mem wit_sync_file)"
    by (simp add: mf_fresh_def wit_sync_file_def mf_new_def fm_new_def BuildRandomMemFileName_def)
  have b: "Ex Not" by (rule exI [of _ False]) simp
  show ?thesis
    by (rule shm_delivery [where e = wit_sync_env and sf = wit_sync_file and ms = ?ms, unfolded d n])
      (use f b in \<open>simp_all add: sy_can_create_def wit_sync_file_def wit_sync_env_def wit_env_def wit_attr_def wit_round_def
        event_inv_def fm_new_def op_new_def op_Start_def\<close>)
qed

end
