(* ===== verification/Broadcast.thy ===== *)
theory Broadcast
  imports Mem_File Circular_Queue
begin

text \<open>
  \<open>ecal/core/src/registration/shm/ecal_memfile_broadcast.{h,cpp}\<close>: the memory file through which all
  processes of a host tell each other that there is something to read: a header with the time of the
  last event, and a ring buffer of events.

  The payload of the memory object is the record \<open>bc_memory\<close>; the queue stands at the offset of this version,
  24 bytes behind the beginning. A timestamp is read with \<open>sint\<close>. Dereferencing a null address is the
  result \<open>None\<close>, a loop over the queue that does not end within the given number of rounds as well.
\<close>

subsection \<open>What is in the file\<close>

datatype bc_type = BcInvalid | BcCreated | BcRemoved | BcUpdated

record bc_event =
  be_process_id :: i32
  be_timestamp :: i64
  be_event_id :: u64
  be_type :: bc_type

record bc_memory =
  bm_version :: u32
  bm_offset :: u64
  bm_timestamp :: i64
  bm_queue :: "bc_event cq"

definition be_zero :: bc_event where
  "be_zero = \<lparr>be_process_id = 0, be_timestamp = 0, be_event_id = 0, be_type = BcInvalid\<rparr>"

text \<open>
  Zeroed memory and a change of its size: behind the internal header (24 bytes), the broadcast header (24) and the
  header of the queue (32) there is room for events of 24 bytes.
\<close>

definition bc_slots :: "nat \<Rightarrow> nat" where
  "bc_slots n = (n - 80) div 24"

definition bc_ops :: "bc_memory mem_ops" where
  "bc_ops = \<lparr>mo_zero = (\<lambda>n. \<lparr>bm_version = 0, bm_offset = 0, bm_timestamp = 0, bm_queue = \<lparr>cq_back_index = 0,
       cq_front_index = 0, cq_size = 0, cq_max_size = 0, cq_slots = replicate (bc_slots n) be_zero\<rparr>\<rparr>),
     mo_resize = (\<lambda>n m. m\<lparr>bm_queue := (bm_queue m)\<lparr>cq_slots := take (bc_slots n) (cq_slots (bm_queue m)) @
       replicate (bc_slots n - length (cq_slots (bm_queue m))) be_zero\<rparr>\<rparr>)\<rparr>"

subsection \<open>CMemoryFileBroadcast\<close>

record broadcast =
  bc_created :: bool
  bc_domain :: string
  bc_queue_size :: u64
  bc_mem :: "bc_memory mf_state"
  bc_buffer :: bc_memory
  bc_last_timestamp :: i64

text \<open>What a call gets from outside: the process id, the clock, the lock and the operating system.\<close>

record bc_env =
  bv_shm :: "bc_memory shm_env"
  bv_pid :: i32
  bv_now :: i64
  bv_mtx_ok :: bool
  bv_lk_create :: lock_result
  bv_lock :: lock_result

definition bc_new :: "bc_memory mf_state \<Rightarrow> broadcast" where
  "bc_new m = \<lparr>bc_created = False, bc_domain = [], bc_queue_size = 0, bc_mem = m\<lparr>ms_file := mf_new\<rparr>,
     bc_buffer = mo_zero bc_ops 0, bc_last_timestamp = 0\<rparr>"

definition BuildPayloadMemfileName :: "string \<Rightarrow> u64 \<Rightarrow> string" where
  "BuildPayloadMemfileName name i = name @ ''_'' @ str_nat 10 (unat i)"

definition CreateEventId :: "i64 \<Rightarrow> u64" where
  "CreateEventId timestamp = timestamp"

text \<open>\<open>ResetMemfile\<close> on the mapped memory.\<close>

definition bc_ResetMemfile :: "i64 \<Rightarrow> u64 \<Rightarrow> bc_memory \<Rightarrow> bc_memory" where
  "bc_ResetMemfile now n m = m\<lparr>bm_version := 1, bm_offset := 24, bm_timestamp := now, bm_queue := cq_Reset (bm_queue m) n\<rparr>"

definition bc_IsMemfileVersionCompatible :: "bc_memory \<Rightarrow> bool" where
  "bc_IsMemfileVersionCompatible m \<longleftrightarrow> bm_version m = 1"

definition bc_set :: "nat \<Rightarrow> (bc_memory \<Rightarrow> bc_memory) \<Rightarrow> bc_memory mf_state \<Rightarrow> bc_memory mf_state" where
  "bc_set i f = mf_set_object i (\<lambda>so. so\<lparr>so_payload := f (so_payload so)\<rparr>)"

text \<open>The size of the file for so many events: \<open>sizeof(SMemfileBroadcastEvent)\<close> and \<open>sizeof(SMemfileBroadcastHeader)\<close> are 24.\<close>

definition bc_presumable_size :: "u64 \<Rightarrow> u64" where
  "bc_presumable_size n = cq_PresumablyOccupiedMemorySize 24 n + 24"

definition bc_buffer_resize :: "u64 \<Rightarrow> bc_memory \<Rightarrow> bc_memory" where
  "bc_buffer_resize n m = mo_resize bc_ops (80 + 24 * unat n) m"

definition bc_Create :: "bc_env \<Rightarrow> string \<Rightarrow> u64 \<Rightarrow> broadcast \<Rightarrow> (bool \<times> broadcast) option" where
  "bc_Create e domain n b =
     (if bc_created b then Some (False, b)
      else (let b = b\<lparr>bc_domain := domain, bc_queue_size := n\<rparr>; sz = bc_presumable_size n
        in case mf_Create (bv_shm e) (bv_mtx_ok e) (bv_lk_create e) domain True (unat sz) True (bc_mem b) of
            None \<Rightarrow> None
          | Some (False, m) \<Rightarrow> Some (False, b\<lparr>bc_mem := m\<rparr>)
          | Some (True, m) \<Rightarrow>
              (if mf_MaxDataSize m < sz then Some (False, b\<lparr>bc_mem := m\<rparr>)
               else (let b = b\<lparr>bc_buffer := bc_buffer_resize n (bc_buffer b)\<rparr>;
                         (access, m) = mf_GetWriteAccess (bv_shm e) (bv_lock e) m
                 in if \<not> access then Some (False, b\<lparr>bc_mem := m\<rparr>)
                    else (let initialized = (mf_CurDataSize m \<noteq> 0)
                      in case mf_GetWriteAddress (mf_MaxDataSize m) m of
                          (None, _) \<Rightarrow> None
                        | (Some i, m) \<Rightarrow>
                            (if \<not> initialized
                             then Some (True, b\<lparr>bc_mem := snd (mf_ReleaseWriteAccess (bc_set i (bc_ResetMemfile (bv_now e) n) m)), bc_created := True\<rparr>)
                             else if \<not> bc_IsMemfileVersionCompatible (so_payload (mf_object m i))
                             then Some (False, b\<lparr>bc_mem := snd (mf_ReleaseWriteAccess m)\<rparr>)
                             else Some (True, b\<lparr>bc_mem := snd (mf_ReleaseWriteAccess m), bc_created := True\<rparr>)))))))"

definition bc_Destroy :: "broadcast \<Rightarrow> bool \<times> broadcast" where
  "bc_Destroy b =
     (if \<not> bc_created b then (False, b)
      else (True, b\<lparr>bc_mem := snd (mf_Destroy False (bc_mem b)), bc_created := False\<rparr>))"

definition bc_FlushLocalEventQueue :: "bc_env \<Rightarrow> broadcast \<Rightarrow> (bool \<times> broadcast) option" where
  "bc_FlushLocalEventQueue e b =
     (if \<not> bc_created b then Some (False, b)
      else (let (access, m) = mf_GetReadAccess (bv_shm e) (bv_lock e) (bc_mem b)
        in if \<not> access then Some (False, b\<lparr>bc_mem := m\<rparr>)
           else if mf_CurDataSize m \<noteq> 0
           then (case mf_GetReadAddress (mf_MaxDataSize m) m of
               None \<Rightarrow> None
             | Some i \<Rightarrow> Some (True, b\<lparr>bc_last_timestamp := bm_timestamp (so_payload (mf_object m i)),
                 bc_mem := snd (mf_ReleaseReadAccess m)\<rparr>))
           else Some (False, b\<lparr>bc_mem := snd (mf_ReleaseReadAccess m)\<rparr>)))"

definition bc_FlushGlobalEventQueue :: "bc_env \<Rightarrow> broadcast \<Rightarrow> (bool \<times> broadcast) option" where
  "bc_FlushGlobalEventQueue e b =
     (if \<not> bc_created b then Some (False, b)
      else (let (access, m) = mf_GetWriteAccess (bv_shm e) (bv_lock e) (bc_mem b)
        in if \<not> access then Some (False, b\<lparr>bc_mem := m\<rparr>)
           else (case mf_GetWriteAddress (mf_MaxDataSize m) m of
               (None, _) \<Rightarrow> None
             | (Some i, m) \<Rightarrow> Some (True, b\<lparr>bc_mem := snd (mf_ReleaseWriteAccess
                 (bc_set i (bc_ResetMemfile (bv_now e) (bc_queue_size b)) m))\<rparr>))))"

definition bc_push :: "i64 \<Rightarrow> bc_event \<Rightarrow> bc_memory \<Rightarrow> bc_memory" where
  "bc_push timestamp ev m = m\<lparr>bm_queue := cq_Push (bm_queue m) ev, bm_timestamp := timestamp\<rparr>"

text \<open>The clock is read twice when the file has to be reset; the model reads it once.\<close>

definition bc_SendEvent :: "bc_env \<Rightarrow> u64 \<Rightarrow> bc_type \<Rightarrow> broadcast \<Rightarrow> (bool \<times> broadcast) option" where
  "bc_SendEvent e event_id ty b =
     (if \<not> bc_created b then Some (False, b)
      else (let (access, m) = mf_GetWriteAccess (bv_shm e) (bv_lock e) (bc_mem b)
        in if \<not> access then Some (False, b\<lparr>bc_mem := m\<rparr>)
           else (let initialized = (mf_CurDataSize m \<noteq> 0)
             in case mf_GetWriteAddress (mf_MaxDataSize m) m of
                 (None, _) \<Rightarrow> None
               | (Some i, m) \<Rightarrow>
                   (let m = (if initialized then m else bc_set i (bc_ResetMemfile (bv_now e) (bc_queue_size b)) m);
                        ev = \<lparr>be_process_id = bv_pid e, be_timestamp = bv_now e, be_event_id = event_id, be_type = ty\<rparr>;
                        m = bc_set i (bc_push (bv_now e) ev) m
                    in Some (True, b\<lparr>bc_mem := snd (mf_ReleaseWriteAccess m)\<rparr>)))))"

text \<open>The loop of \<open>ReceiveEvents\<close>: from the newest event to the first that is old.\<close>

fun bc_collect :: "nat \<Rightarrow> (bc_event \<Rightarrow> bool) \<Rightarrow> (bc_event \<Rightarrow> bool) \<Rightarrow> bc_event cq \<Rightarrow> u64 \<Rightarrow> bc_event list option" where
  "bc_collect n old skip q i =
     (if i = cq_invalid_index then Some []
      else case n of
          0 \<Rightarrow> None
        | Suc n \<Rightarrow>
            (let ev = cq_Value q i in
             if old ev then Some []
             else map_option (\<lambda>evs. if skip ev then evs else ev # evs) (bc_collect n old skip q (cq_next_index q i))))"

declare bc_collect.simps [simp del]

definition bc_old :: "i64 \<Rightarrow> i64 \<Rightarrow> i64 \<Rightarrow> bc_event \<Rightarrow> bool" where
  "bc_old now timeout last_timestamp ev \<longleftrightarrow>
     (timeout \<noteq> 0 \<and> be_timestamp ev \<le>s now - timeout * 1000) \<or> be_timestamp ev \<le>s last_timestamp"

text \<open>
  The copy of the file is as long as the queue this process was configured for. The result has the
  events, or \<open>None\<close> in place of a list the call leaves as it was.
\<close>

definition bc_ReceiveEvents ::
  "bc_env \<Rightarrow> nat \<Rightarrow> i64 \<Rightarrow> bool \<Rightarrow> broadcast \<Rightarrow> (bool \<times> bc_event list option \<times> broadcast) option" where
  "bc_ReceiveEvents e fuel timeout loopback b =
     (let (access, m) = mf_GetReadAccess (bv_shm e) (bv_lock e) (bc_mem b)
      in if \<not> access then Some (False, None, b\<lparr>bc_mem := m\<rparr>)
         else if mf_CurDataSize m = 0 then Some (False, None, b\<lparr>bc_mem := snd (mf_ReleaseReadAccess m)\<rparr>)
         else (let buf = (case mf_GetReadAddress (bc_presumable_size (bc_queue_size b)) m of
                       None \<Rightarrow> bc_buffer b
                     | Some i \<Rightarrow> bc_buffer_resize (bc_queue_size b) (so_payload (mf_object m i)));
                   q = bm_queue buf
           in map_option (\<lambda>evs. (True, Some evs, b\<lparr>bc_mem := snd (mf_ReleaseReadAccess m), bc_buffer := buf,
                  bc_last_timestamp := bm_timestamp buf\<rparr>))
                (bc_collect fuel (bc_old (bv_now e) timeout (bc_last_timestamp b))
                  (\<lambda>ev. be_process_id ev = bv_pid e \<and> \<not> loopback) q (cq_begin q))))"

subsection \<open>The event log\<close>

text \<open>
  A process with an open broadcast file: the object has been initialised by some process, and its queue has
  the size this process expects.
\<close>

definition bm_ok :: "u64 \<Rightarrow> bc_memory shm_object \<Rightarrow> bool" where
  "bm_ok n so \<longleftrightarrow> so_valid so \<and> ih_cur_data_size (so_header so) = ih_max_data_size (so_header so) \<and>
     unat (bc_presumable_size n) \<le> so_max so \<and> 0 < unat (bc_presumable_size n) \<and> cq_inv (bm_queue (so_payload so)) \<and> cq_max_size (bm_queue (so_payload so)) = n"

definition bc_open :: "broadcast \<Rightarrow> nat \<Rightarrow> bool" where
  "bc_open b i \<longleftrightarrow> bc_created b \<and> mf_attached (bc_mem b) i \<and> bm_ok (bc_queue_size b) (mf_object (bc_mem b) i)"

abbreviation bc_memory_at :: "broadcast \<Rightarrow> nat \<Rightarrow> bc_memory" where
  "bc_memory_at b i \<equiv> so_payload (mf_object (bc_mem b) i)"

definition bv_ok :: "bc_env \<Rightarrow> bool" where
  "bv_ok e \<longleftrightarrow> se_mmap_ok (bv_shm e) \<and> bv_lock e = LkOk False"

lemma mf_GetWriteAccess_plain:
  assumes "mf_attached s i" "so_valid (mf_object s i)" "se_mmap_ok e"
  obtains s' where "mf_GetWriteAccess e (LkOk False) s = (True, s')" "ms_world s' = ms_world s" "mf_mem s' = Some i"
    "ms_file s' = (ms_file s)\<lparr>mf_header := so_header (mf_object s i), mf_access := AsWrite\<rparr>"
proof -
  have "\<not> mf_auto_sanitizing (ms_file s) \<or> \<not> False" by simp
  from mf_GetAccess_ok [OF assms this] obtain m where m: "mf_GetAccess e (LkOk False) s = (True, s\<lparr>ms_map := m,
      ms_file := (ms_file s)\<lparr>mf_header := so_header (mf_object s i)\<rparr>\<rparr>)" "mf_mem (s\<lparr>ms_map := m\<rparr>) = Some i" by blast
  let ?s = "mf_set_access AsWrite (s\<lparr>ms_map := m, ms_file := (ms_file s)\<lparr>mf_header := so_header (mf_object s i)\<rparr>\<rparr>)"
  have "mf_mem ?s = mf_mem (s\<lparr>ms_map := m\<rparr>)" by (rule mf_mem_cong) (simp_all add: mf_set_access_def)
  then have "mf_mem ?s = Some i" using m(2) by simp
  then show ?thesis using m(1) by (intro that [of ?s]) (simp_all add: mf_GetWriteAccess_def mf_set_access_def mf_upd_def)
qed

lemma bc_SendEvent_ok:
  assumes O: "bc_open b i" and E: "bv_ok e"
  obtains m where "bc_SendEvent e ev_id ty b = Some (True, b\<lparr>bc_mem := m\<rparr>)" "bc_open (b\<lparr>bc_mem := m\<rparr>) i"
    "so_payload (mf_object m i) = bc_push (bv_now e) \<lparr>be_process_id = bv_pid e, be_timestamp = bv_now e, be_event_id = ev_id, be_type = ty\<rparr>
      (bc_memory_at b i)" "ms_file m = (ms_file (bc_mem b))\<lparr>mf_header := so_header (mf_object (bc_mem b) i), mf_access := AsClosed\<rparr>"
proof -
  let ?so = "mf_object (bc_mem b) i" and ?n = "bc_queue_size b"
  let ?ev = "\<lparr>be_process_id = bv_pid e, be_timestamp = bv_now e, be_event_id = ev_id, be_type = ty\<rparr>"
  have o: "bc_created b" "mf_attached (bc_mem b) i" "so_valid ?so" "ih_cur_data_size (so_header ?so) = ih_max_data_size (so_header ?so)"
    "ih_max_data_size (so_header ?so) \<noteq> 0" "unat (bc_presumable_size ?n) \<le> so_max ?so" "0 < unat (bc_presumable_size ?n)"
    using O by (auto simp: bc_open_def bm_ok_def)
  have e: "se_mmap_ok (bv_shm e)" "bv_lock e = LkOk False" using E by (simp_all add: bv_ok_def)
  from mf_GetWriteAccess_plain [OF o(2,3) e(1)] obtain s where
    s: "mf_GetWriteAccess (bv_shm e) (LkOk False) (bc_mem b) = (True, s)" "ms_world s = ms_world (bc_mem b)" "mf_mem s = Some i"
      "ms_file s = (ms_file (bc_mem b))\<lparr>mf_header := so_header ?so, mf_access := AsWrite\<rparr>" .
  have os: "mf_object s i = ?so" using s(2) by (simp add: mf_object_def)
  have cr: "mf_created (ms_file s)" using o(2) s(4) by (simp add: mf_attached_def)
  let ?t = "mf_set_object i (\<lambda>so. so\<lparr>so_header := (so_header so)\<lparr>ih_cur_data_size := ih_max_data_size (so_header ?so)\<rparr>\<rparr>)
      (mf_upd (\<lambda>f. f\<lparr>mf_header := (mf_header f)\<lparr>ih_cur_data_size := ih_max_data_size (so_header ?so)\<rparr>\<rparr>) s)"
  have a: "mf_GetWriteAddress (mf_MaxDataSize s) s = (Some i, ?t)"
    using s(3,4) cr o(5) by (simp add: mf_GetWriteAddress_def mf_MaxDataSize_def Let_def)
  have c: "mf_CurDataSize s \<noteq> 0" using s(4) o(4,5) by (simp add: mf_CurDataSize_def)
  let ?u = "bc_set i (bc_push (bv_now e) ?ev) ?t"
  let ?m = "snd (mf_ReleaseWriteAccess ?u)"
  have hd: "(so_header ?so)\<lparr>ih_cur_data_size := ih_max_data_size (so_header ?so)\<rparr> = so_header ?so"
    using o(4) by (cases "so_header ?so") simp
  have r: "?m = mf_set_access AsClosed ?u"
    using cr s(4) by (simp add: mf_ReleaseWriteAccess_def bc_set_def)
  have ob: "mf_object ?m i = ?so\<lparr>so_payload := bc_push (bv_now e) ?ev (so_payload ?so)\<rparr>"
  proof -
    have "mf_object ?m i = (?so\<lparr>so_header := (so_header ?so)\<lparr>ih_cur_data_size := ih_max_data_size (so_header ?so)\<rparr>\<rparr>)
        \<lparr>so_payload := bc_push (bv_now e) ?ev (so_payload ?so)\<rparr>"
      unfolding r by (simp add: mf_set_access_def bc_set_def os)
    then show ?thesis unfolding hd by simp
  qed
  have fl: "ms_file ?m = (ms_file (bc_mem b))\<lparr>mf_header := so_header ?so, mf_access := AsClosed\<rparr>"
    unfolding r using s(4) hd by (simp add: mf_set_access_def bc_set_def)
  have "mf_mem ?m = Some i" unfolding r using s(3) by (simp add: mf_set_access_def bc_set_def)
  then have at: "mf_attached ?m i" using o(2,3) fl by (simp add: mf_attached_def so_valid_def)
  show ?thesis
  proof (rule that [of ?m])
    show "bc_SendEvent e ev_id ty b = Some (True, b\<lparr>bc_mem := ?m\<rparr>)"
      using o(1) s(1) e(2) a c by (simp add: bc_SendEvent_def Let_def)
    have "cq_inv (bm_queue (bc_memory_at b i))" "cq_max_size (bm_queue (bc_memory_at b i)) = ?n" "bm_ok ?n ?so"
      using O by (simp_all add: bc_open_def bm_ok_def)
    then have "bm_ok ?n (mf_object ?m i)"
      unfolding ob by (simp add: bm_ok_def so_valid_def bc_push_def cq_inv_Push cq_Push_fields(3))
    then show "bc_open (b\<lparr>bc_mem := ?m\<rparr>) i" using o(1) at by (simp add: bc_open_def)
    show "so_payload (mf_object ?m i) = bc_push (bv_now e) ?ev (bc_memory_at b i)" unfolding ob by simp
  qed (rule fl)
qed

lemma bc_collect_iterate:
  "cq_iterate n q i = Some xs \<Longrightarrow>
    bc_collect n old skip q i = Some (filter (\<lambda>ev. \<not> skip ev) (takeWhile (\<lambda>ev. \<not> old ev) xs))"
proof (induction n arbitrary: i xs)
  case 0
  then show ?case by (simp add: bc_collect.simps [of 0] split: if_splits)
next
  case (Suc n)
  show ?case
  proof (cases "i = cq_invalid_index")
    case False
    then obtain ys where "cq_iterate n q (cq_next_index q i) = Some ys" "xs = cq_Value q i # ys" using Suc.prems by auto
    then show ?thesis using False Suc.IH by (simp add: bc_collect.simps [of "Suc n"] Let_def)
  qed (use Suc.prems in \<open>simp add: bc_collect.simps [of "Suc n"]\<close>)
qed

lemma bc_collect_ok:
  assumes "cq_inv q" "unat (cq_max_size q) \<le> fuel"
  shows "bc_collect fuel old skip q (cq_begin q) =
    Some (filter (\<lambda>ev. \<not> skip ev) (takeWhile (\<lambda>ev. \<not> old ev) (rev (cq_list q))))"
  by (rule bc_collect_iterate, rule cq_iterate_all) (use assms in \<open>auto simp: cq_inv_def\<close>)

lemma bc_buffer_resize_same:
  "cq_inv (bm_queue m) \<Longrightarrow> cq_max_size (bm_queue m) = n \<Longrightarrow> bc_buffer_resize n m = m"
  by (cases m) (simp add: bc_buffer_resize_def bc_ops_def bc_slots_def cq_inv_def)

lemma bc_ReceiveEvents_ok:
  assumes O: "bc_open b i" and E: "bv_ok e" and F: "unat (bc_queue_size b) \<le> fuel"
  obtains m where "bc_ReceiveEvents e fuel timeout loopback b = Some (True,
      Some (filter (\<lambda>ev. \<not> (be_process_id ev = bv_pid e \<and> \<not> loopback))
        (takeWhile (\<lambda>ev. \<not> bc_old (bv_now e) timeout (bc_last_timestamp b) ev) (rev (cq_list (bm_queue (bc_memory_at b i)))))),
      b\<lparr>bc_mem := m, bc_buffer := bc_memory_at b i, bc_last_timestamp := bm_timestamp (bc_memory_at b i)\<rparr>)"
    "bc_open (b\<lparr>bc_mem := m, bc_buffer := bc_memory_at b i, bc_last_timestamp := bm_timestamp (bc_memory_at b i)\<rparr>) i"
    "ms_world m = ms_world (bc_mem b)" "ms_file m = (ms_file (bc_mem b))\<lparr>mf_header := so_header (mf_object (bc_mem b) i), mf_access := AsClosed\<rparr>"
proof -
  let ?so = "mf_object (bc_mem b) i" and ?n = "bc_queue_size b"
  have o: "mf_attached (bc_mem b) i" "so_valid ?so" "ih_cur_data_size (so_header ?so) = ih_max_data_size (so_header ?so)"
    "unat (bc_presumable_size ?n) \<le> so_max ?so" "0 < unat (bc_presumable_size ?n)" "cq_inv (bm_queue (so_payload ?so))"
    "cq_max_size (bm_queue (so_payload ?so)) = ?n"
    using O by (auto simp: bc_open_def bm_ok_def)
  have e: "se_mmap_ok (bv_shm e)" "bv_lock e = LkOk False" using E by (simp_all add: bv_ok_def)
  have nr: "\<not> mf_auto_sanitizing (ms_file (bc_mem b)) \<or> \<not> False" by simp
  from mf_GetReadAccess_ok [OF o(1,2) e(1) nr] obtain s where
    s: "mf_GetReadAccess (bv_shm e) (LkOk False) (bc_mem b) = (True, s)" "ms_world s = ms_world (bc_mem b)" "mf_mem s = Some i"
      "ms_file s = (ms_file (bc_mem b))\<lparr>mf_header := so_header ?so, mf_access := AsRead\<rparr>" .
  have os: "mf_object s i = ?so" using s(2) by (simp add: mf_object_def)
  have cr: "mf_created (ms_file s)" using o(1) s(4) by (simp add: mf_attached_def)
  have nz: "bc_presumable_size ?n \<noteq> 0" using o(5) by auto
  have le: "\<not> ih_max_data_size (so_header ?so) < bc_presumable_size ?n" using o(4) by (simp add: word_less_nat_alt)
  have a: "mf_GetReadAddress (bc_presumable_size ?n) s = Some i"
    using s(3,4) cr nz le o(3) by (simp add: mf_GetReadAddress_def Let_def)
  have "so_max ?so \<noteq> 0" using o(4,5) by simp
  then have c: "mf_CurDataSize s \<noteq> 0" using s(4) o(3) by (auto simp: mf_CurDataSize_def)
  have buf: "bc_buffer_resize ?n (so_payload (mf_object s i)) = bc_memory_at b i"
    unfolding os by (rule bc_buffer_resize_same [OF o(6,7)])
  have col: "bc_collect fuel (bc_old (bv_now e) timeout (bc_last_timestamp b)) (\<lambda>ev. be_process_id ev = bv_pid e \<and> \<not> loopback)
      (bm_queue (bc_memory_at b i)) (cq_begin (bm_queue (bc_memory_at b i))) =
    Some (filter (\<lambda>ev. \<not> (be_process_id ev = bv_pid e \<and> \<not> loopback))
        (takeWhile (\<lambda>ev. \<not> bc_old (bv_now e) timeout (bc_last_timestamp b) ev) (rev (cq_list (bm_queue (bc_memory_at b i))))))"
    by (rule bc_collect_ok) (use o(6,7) F in simp_all)
  let ?m = "snd (mf_ReleaseReadAccess s)"
  have r: "?m = mf_set_access AsClosed s" using cr s(4) by (simp add: mf_ReleaseReadAccess_def)
  show ?thesis
  proof (rule that [of ?m])
    show "bc_ReceiveEvents e fuel timeout loopback b = Some (True,
        Some (filter (\<lambda>ev. \<not> (be_process_id ev = bv_pid e \<and> \<not> loopback))
          (takeWhile (\<lambda>ev. \<not> bc_old (bv_now e) timeout (bc_last_timestamp b) ev) (rev (cq_list (bm_queue (bc_memory_at b i)))))),
        b\<lparr>bc_mem := ?m, bc_buffer := bc_memory_at b i, bc_last_timestamp := bm_timestamp (bc_memory_at b i)\<rparr>)"
      using s(1) e(2) c col unfolding bc_ReceiveEvents_def by (simp add: a buf Let_def)
    have om: "mf_object ?m i = ?so" unfolding r using os by (simp add: mf_set_access_def)
    have "mf_attached ?m i" unfolding r using s(3,4) cr o(2) by (simp add: mf_set_access_def mf_attached_def so_valid_def)
    then show "bc_open (b\<lparr>bc_mem := ?m, bc_buffer := bc_memory_at b i, bc_last_timestamp := bm_timestamp (bc_memory_at b i)\<rparr>) i"
      using O om by (simp add: bc_open_def)
  qed (unfold r, use s in \<open>simp_all add: mf_set_access_def\<close>)
qed

subsection \<open>Several processes\<close>

text \<open>
  The processes of a host with their objects, and the memory they share. A run is a sequence of events that
  processes send; the result is \<open>None\<close> if one of them cannot be sent.
\<close>

definition bc_see :: "bc_memory shm_world \<Rightarrow> broadcast \<Rightarrow> broadcast" where
  "bc_see w b = b\<lparr>bc_mem := (bc_mem b)\<lparr>ms_world := w\<rparr>\<rparr>"

type_synonym bc_send = "nat \<times> bc_env \<times> u64 \<times> bc_type"

fun bc_run :: "bc_send list \<Rightarrow> (nat \<Rightarrow> broadcast) \<times> bc_memory shm_world \<Rightarrow> ((nat \<Rightarrow> broadcast) \<times> bc_memory shm_world) option" where
  "bc_run [] st = Some st"
| "bc_run ((p, e, i, ty) # xs) (B, w) =
     (case bc_SendEvent e i ty (bc_see w (B p)) of
        Some (True, b) \<Rightarrow> bc_run xs (B(p := b), ms_world (bc_mem b))
      | _ \<Rightarrow> None)"

definition bs_event :: "bc_send \<Rightarrow> bc_event" where
  "bs_event = (\<lambda>(p, e, i, ty). \<lparr>be_process_id = bv_pid e, be_timestamp = bv_now e, be_event_id = i, be_type = ty\<rparr>)"

definition bc_system :: "nat set \<Rightarrow> nat \<Rightarrow> u64 \<Rightarrow> (nat \<Rightarrow> broadcast) \<times> bc_memory shm_world \<Rightarrow> bool" where
  "bc_system P i n = (\<lambda>(B, w). \<forall>p \<in> P. bc_open (bc_see w (B p)) i \<and> bc_queue_size (B p) = n)"

lemma bc_see_simps [simp]:
  "bc_queue_size (bc_see w b) = bc_queue_size b" "bc_created (bc_see w b) = bc_created b"
  "bc_last_timestamp (bc_see w b) = bc_last_timestamp b" "ms_world (bc_mem (bc_see w b)) = w"
  "mf_object (bc_mem (bc_see w b)) i = sw_objects w i" "mf_attached (bc_mem (bc_see w b)) i = mf_attached (bc_mem b) i"
  "bc_see w (bc_see w' b) = bc_see w b"
  by (simp_all add: bc_see_def mf_object_def mf_attached_def)
    (use mf_mem_cong [of "(bc_mem b)\<lparr>ms_world := w\<rparr>" "bc_mem b"] in simp)

lemma bc_open_see:
  "bc_open (bc_see w b) i \<longleftrightarrow> bc_created b \<and> mf_attached (bc_mem b) i \<and> bm_ok (bc_queue_size b) (sw_objects w i)"
  by (simp add: bc_open_def)

lemma bc_run_ok:
  "bc_system P i n (B, w) \<Longrightarrow> (\<forall>(p, e, _) \<in> set xs. p \<in> P \<and> bv_ok e) \<Longrightarrow>
    \<exists>B' w'. bc_run xs (B, w) = Some (B', w') \<and> bc_system P i n (B', w') \<and>
      bm_queue (so_payload (sw_objects w' i)) = foldl cq_Push (bm_queue (so_payload (sw_objects w i))) (map bs_event xs) \<and>
      (xs \<noteq> [] \<longrightarrow> bm_timestamp (so_payload (sw_objects w' i)) = be_timestamp (bs_event (last xs))) \<and>
      (xs = [] \<longrightarrow> w' = w) \<and> (\<forall>p. bc_last_timestamp (B' p) = bc_last_timestamp (B p))"
proof (induction xs arbitrary: B w)
  case (Cons x xs)
  obtain p e ev_id ty where x: "x = (p, e, ev_id, ty)" by (cases x)
  have p: "p \<in> P" "bv_ok e" and xs: "\<forall>(p, e, _) \<in> set xs. p \<in> P \<and> bv_ok e" using Cons.prems(2) by (simp_all add: x)
  have op: "bc_open (bc_see w (B p)) i" "bc_queue_size (B p) = n" using Cons.prems(1) p by (auto simp: bc_system_def)
  from bc_SendEvent_ok [OF op(1) p(2), of ev_id ty] obtain m where
    m: "bc_SendEvent e ev_id ty (bc_see w (B p)) = Some (True, (bc_see w (B p))\<lparr>bc_mem := m\<rparr>)"
      "bc_open ((bc_see w (B p))\<lparr>bc_mem := m\<rparr>) i"
      "so_payload (mf_object m i) = bc_push (bv_now e) (bs_event x) (so_payload (sw_objects w i))"
    by (auto simp: x bs_event_def)
  let ?b = "(bc_see w (B p))\<lparr>bc_mem := m\<rparr>" and ?w = "ms_world m"
  have ok: "bm_ok n (sw_objects ?w i)" using m(2) op(2) by (simp add: bc_open_def mf_object_def)
  have "bc_system P i n (B(p := ?b), ?w)"
    using Cons.prems(1) m(2) ok by (auto simp: bc_system_def bc_open_see bc_open_def)
  from Cons.IH [OF this xs] obtain B' w' where r: "bc_run xs (B(p := ?b), ?w) = Some (B', w')" "bc_system P i n (B', w')"
    "bm_queue (so_payload (sw_objects w' i)) = foldl cq_Push (bm_queue (so_payload (sw_objects ?w i))) (map bs_event xs)"
    "xs \<noteq> [] \<Longrightarrow> bm_timestamp (so_payload (sw_objects w' i)) = be_timestamp (bs_event (last xs))" "xs = [] \<Longrightarrow> w' = ?w"
    "\<And>q. bc_last_timestamp (B' q) = bc_last_timestamp ((B(p := ?b)) q)"
    by blast
  have pay: "so_payload (sw_objects ?w i) = bc_push (bv_now e) (bs_event x) (so_payload (sw_objects w i))"
    using m(3) by (simp add: mf_object_def)
  have lt: "bc_last_timestamp (B' q) = bc_last_timestamp (B q)" for q using r(6) [of q] by (simp add: bc_see_def)
  have run: "bc_run (x # xs) (B, w) = Some (B', w')" using m(1) r(1) by (simp add: x)
  have "bm_timestamp (so_payload (sw_objects w' i)) = be_timestamp (bs_event (last (x # xs)))"
    using r(4,5) pay by (cases "xs = []") (simp_all add: x bc_push_def bs_event_def)
  then show ?case using run r(2,3) pay lt by (simp add: bc_push_def)
qed simp

text \<open>The signed order of timestamps.\<close>

lemma bc_old_no_timeout: "bc_old now 0 t ev \<longleftrightarrow> sint (be_timestamp ev) \<le> sint t"
  by (simp add: bc_old_def word_sle_eq)

lemma takeWhile_take_append:
  assumes "\<forall>x \<in> set xs. P x" "\<forall>x \<in> set ys. \<not> P x"
  shows "takeWhile P (take n (xs @ ys)) = take n xs"
proof -
  have "takeWhile P (take (n - length xs) ys) = []" using assms(2) by (auto simp: takeWhile_eq_Nil_iff dest: in_set_takeD)
  moreover have "\<forall>x \<in> set (take n xs). P x" using assms(1) by (auto dest: in_set_takeD)
  ultimately show ?thesis by (simp add: takeWhile_append2)
qed

lemma rev_drop_all_but: "rev (drop (length xs - n) xs) = take n (rev xs)"
  by (cases "n \<le> length xs") (simp_all add: rev_drop)

text \<open>
  C11. Events reach every process: after any events that the processes of a host send with growing time, a
  process that receives gets exactly the events sent since it received last, newest first, up to those
  that fell out of the queue and, unless it asks for them, its own; then it is up to date.
\<close>

theorem broadcast_events:
  assumes "bc_system P i n (B, w)" "r \<in> P" "\<forall>(p, e, _) \<in> set xs. p \<in> P \<and> bv_ok e" "bv_ok e" "unat n \<le> fuel"
    "\<forall>ev \<in> set (cq_list (bm_queue (so_payload (sw_objects w i)))). sint (be_timestamp ev) \<le> sint (bc_last_timestamp (B r))"
    "sorted_wrt (<) (sint (bc_last_timestamp (B r)) # map (\<lambda>x. sint (be_timestamp (bs_event x))) xs)"
  shows "\<exists>B' w' b. bc_run xs (B, w) = Some (B', w') \<and>
    bc_ReceiveEvents e fuel 0 loopback (bc_see w' (B' r)) = Some (True,
      Some (filter (\<lambda>ev. be_process_id ev \<noteq> bv_pid e \<or> loopback) (take (unat n) (rev (map bs_event xs)))), b) \<and>
    (xs \<noteq> [] \<longrightarrow> bc_last_timestamp b = be_timestamp (bs_event (last xs)))"
proof -
  let ?q = "bm_queue (so_payload (sw_objects w i))" and ?evs = "map bs_event xs" and ?t = "bc_last_timestamp (B r)"
  obtain B' w' where run: "bc_run xs (B, w) = Some (B', w')" "bc_system P i n (B', w')"
    "bm_queue (so_payload (sw_objects w' i)) = foldl cq_Push ?q ?evs"
    "xs \<noteq> [] \<longrightarrow> bm_timestamp (so_payload (sw_objects w' i)) = be_timestamp (bs_event (last xs))"
    "\<And>p. bc_last_timestamp (B' p) = bc_last_timestamp (B p)"
    using bc_run_ok [OF assms(1,3)] by blast
  have op: "bc_open (bc_see w' (B' r)) i" "bc_queue_size (bc_see w' (B' r)) = n" using run(2) assms(2) by (auto simp: bc_system_def)
  have q: "cq_inv ?q" "cq_cap ?q = unat n"
    using assms(1,2) by (auto simp: bc_system_def bc_open_see bm_ok_def cq_cap_def)
  have "rev (cq_list (foldl cq_Push ?q ?evs)) = take (unat n) (rev ?evs @ rev (cq_list ?q))"
    using cq.pushes_content [OF q(1), of ?evs] rev_drop_all_but [of "cq_list ?q @ ?evs" "unat n"] q(2)
    by (simp del: drop_append)
  moreover have "takeWhile (\<lambda>ev. \<not> bc_old (bv_now e) 0 ?t ev) (take (unat n) (rev ?evs @ rev (cq_list ?q))) = take (unat n) (rev ?evs)"
    by (rule takeWhile_take_append) (use assms(6,7) in \<open>auto simp: bc_old_no_timeout\<close>)
  ultimately have tw: "takeWhile (\<lambda>ev. \<not> bc_old (bv_now e) 0 (bc_last_timestamp (bc_see w' (B' r))) ev)
      (rev (cq_list (bm_queue (bc_memory_at (bc_see w' (B' r)) i)))) = take (unat n) (rev ?evs)"
    by (simp add: run(3,5))
  have "unat (bc_queue_size (bc_see w' (B' r))) \<le> fuel" using op(2) assms(5) by simp
  from bc_ReceiveEvents_ok [OF op(1) assms(4) this, of 0 loopback] obtain m where
    recv: "bc_ReceiveEvents e fuel 0 loopback (bc_see w' (B' r)) = Some (True,
      Some (filter (\<lambda>ev. \<not> (be_process_id ev = bv_pid e \<and> \<not> loopback)) (take (unat n) (rev ?evs))),
      (bc_see w' (B' r))\<lparr>bc_mem := m, bc_buffer := bc_memory_at (bc_see w' (B' r)) i,
        bc_last_timestamp := bm_timestamp (so_payload (sw_objects w' i))\<rparr>)"
    unfolding tw by auto
  have f: "(\<lambda>ev. \<not> (be_process_id ev = bv_pid e \<and> \<not> loopback)) = (\<lambda>ev. be_process_id ev \<noteq> bv_pid e \<or> loopback)" by auto
  show ?thesis
    by (intro exI conjI, rule run(1), rule recv [unfolded f]) (use run(4) in simp)
qed

text \<open>Two processes, 10 and 20, with a queue of three events.\<close>

definition wit_bc_world :: "bc_memory shm_world" where
  "wit_bc_world = \<lparr>sw_names = (\<lambda>_. None), sw_objects = (\<lambda>_. \<lparr>so_size = 4096,
     so_header = \<lparr>ih_size = 24, ih_cur_data_size = 128, ih_max_data_size = 128\<rparr>,
     so_payload = bc_ResetMemfile 5 3 (mo_zero bc_ops 152)\<rparr>), sw_next = 1\<rparr>"

definition wit_bc :: broadcast where
  "wit_bc = (bc_new \<lparr>ms_file = mf_new, ms_world = wit_bc_world, ms_map = \<lparr>fm_map = [],
       fm_infos = (\<lambda>_. mfi_new\<lparr>mfi_memfile := Some 0, mfi_mapped := True, mfi_size := 4096\<rparr>), fm_next = 1\<rparr>\<rparr>)
     \<lparr>bc_created := True, bc_queue_size := 3, bc_mem := \<lparr>ms_file = mf_new\<lparr>mf_created := True, mf_auto_sanitizing := True,
         mf_header := ih_new, mf_info := Some 0\<rparr>, ms_world = wit_bc_world, ms_map = \<lparr>fm_map = [],
       fm_infos = (\<lambda>_. mfi_new\<lparr>mfi_memfile := Some 0, mfi_mapped := True, mfi_size := 4096\<rparr>), fm_next = 1\<rparr>\<rparr>\<rparr>"

definition wit_bv :: "i32 \<Rightarrow> i64 \<Rightarrow> bc_env" where
  "wit_bv pid now = \<lparr>bv_shm = \<lparr>se_ops = bc_ops, se_page_size = 4096, se_mmap_ok = True\<rparr>, bv_pid = pid, bv_now = now,
     bv_mtx_ok = True, bv_lk_create = LkOk False, bv_lock = LkOk False\<rparr>"

lemma wit_bc_system: "bc_system {0, 1} 0 3 (\<lambda>_. wit_bc, wit_bc_world)"
  by (simp add: bc_system_def bc_open_see mf_attached_def mf_mem_def wit_bc_def wit_bc_world_def mf_new_def ih_new_def bm_ok_def
      so_valid_def bc_presumable_size_def cq_PresumablyOccupiedMemorySize_def bc_ResetMemfile_def bc_ops_def bc_slots_def
      cq_inv_def cq_index_def cq_Reset_def bc_new_def mfi_new_def)

lemma broadcast_events_witness:
  "\<exists>B' w' b. bc_run [(0, wit_bv 10 6, 1, BcCreated), (1, wit_bv 20 7, 2, BcUpdated)] (\<lambda>_. wit_bc, wit_bc_world) = Some (B', w') \<and>
    bc_ReceiveEvents (wit_bv 10 9) 3 0 False (bc_see w' (B' 0)) = Some (True,
      Some [\<lparr>be_process_id = 20, be_timestamp = 7, be_event_id = 2, be_type = BcUpdated\<rparr>], b) \<and> bc_last_timestamp b = 7"
proof -
  let ?xs = "[(0, wit_bv 10 6, 1, BcCreated), (1, wit_bv 20 7, 2, BcUpdated)] :: bc_send list"
  have x: "filter (\<lambda>ev. be_process_id ev \<noteq> bv_pid (wit_bv 10 9) \<or> False) (take (unat (3 :: u64)) (rev (map bs_event ?xs))) =
      [\<lparr>be_process_id = 20, be_timestamp = 7, be_event_id = 2, be_type = BcUpdated\<rparr>]"
    by (simp add: bs_event_def wit_bv_def)
  have "\<exists>B' w' b. bc_run ?xs (\<lambda>_. wit_bc, wit_bc_world) = Some (B', w') \<and>
    bc_ReceiveEvents (wit_bv 10 9) 3 0 False (bc_see w' (B' 0)) = Some (True, Some
      (filter (\<lambda>ev. be_process_id ev \<noteq> bv_pid (wit_bv 10 9) \<or> False) (take (unat (3 :: u64)) (rev (map bs_event ?xs)))), b) \<and>
    (?xs \<noteq> [] \<longrightarrow> bc_last_timestamp b = be_timestamp (bs_event (last ?xs)))"
    by (rule broadcast_events [OF wit_bc_system])
      (simp_all add: wit_bv_def bv_ok_def bs_event_def wit_bc_def bc_new_def wit_bc_world_def bc_ResetMemfile_def cq_Reset_def cq_list_def)
  then show ?thesis unfolding x by (simp add: bs_event_def wit_bv_def)
qed

end
