(* ===== verification/Broadcast_Channel.thy ===== *)
theory Broadcast_Channel
  imports Broadcast
begin

text \<open>
  \<open>ecal/core/src/registration/shm/ecal_memfile_broadcast_{writer,reader}.{h,cpp}\<close> and
  \<open>ecal_registration_{sender,receiver}_shm.cpp\<close>: a process puts its registration samples into a payload memory
  file of its own and broadcasts an event; the others open the file the event names and read it.

  Serialization of sample lists is an argument (\<open>ser\<close>, \<open>de\<close>): bytes or the failure of the call. Deserializing
  clears the target list first, so its result does not depend on what the list held.
\<close>

subsection \<open>CMemoryFileBroadcastWriter\<close>

text \<open>The payload file, with the memory of the system and the file map of the process.\<close>

record bc_writer =
  bwr_bound :: bool
  bwr_reset :: bool
  bwr_event_id :: u64
  bwr_mem :: "u8 list mf_state"

record bwr_env =
  wv_shm :: "u8 list shm_env"
  wv_now :: i64
  wv_mtx_ok :: bool
  wv_lk_create :: lock_result
  wv_lk_write :: lock_result
  wv_removed :: bc_env
  wv_created :: bc_env
  wv_updated :: bc_env

definition bwr_new :: "u8 list mf_state \<Rightarrow> bc_writer" where
  "bwr_new m = \<lparr>bwr_bound = False, bwr_reset = False, bwr_event_id = 0, bwr_mem = m\<lparr>ms_file := mf_new\<rparr>\<rparr>"

definition bwr_Bind :: "bwr_env \<Rightarrow> broadcast \<Rightarrow> bc_writer \<Rightarrow> (bool \<times> broadcast \<times> bc_writer) option" where
  "bwr_Bind e b w =
     (if bwr_bound w then Some (False, b, w)
      else (let i = CreateEventId (wv_now e); w = w\<lparr>bwr_event_id := i\<rparr>
        in case mf_Create (wv_shm e) (wv_mtx_ok e) (wv_lk_create e) (BuildPayloadMemfileName (bc_domain b) i) True 1024 False
              ((bwr_mem w)\<lparr>ms_file := mf_new\<rparr>) of
            None \<Rightarrow> None
          | Some (False, m) \<Rightarrow> Some (False, b, w\<lparr>bwr_mem := m\<rparr>)
          | Some (True, m) \<Rightarrow>
              map_option (\<lambda>(_, b). (True, b, w\<lparr>bwr_mem := m, bwr_bound := True\<rparr>)) (bc_SendEvent (wv_created e) i BcCreated b)))"

text \<open>A larger file: the new one is created before the old one is announced as removed and destroyed.\<close>

definition bwr_recreate :: "bwr_env \<Rightarrow> u64 \<Rightarrow> broadcast \<Rightarrow> bc_writer \<Rightarrow> (bool \<times> broadcast \<times> bc_writer) option" where
  "bwr_recreate e n b w =
     (let i = CreateEventId (wv_now e); old = ms_file (bwr_mem w)
      in case mf_Create (wv_shm e) (wv_mtx_ok e) (wv_lk_create e) (BuildPayloadMemfileName (bc_domain b) i) True (unat (n * 2)) False
            ((bwr_mem w)\<lparr>ms_file := mf_new\<rparr>) of
          None \<Rightarrow> None
        | Some (False, m) \<Rightarrow> Some (False, b, w\<lparr>bwr_mem := m\<lparr>ms_file := old\<rparr>\<rparr>)
        | Some (True, m) \<Rightarrow>
            (case bc_SendEvent (wv_removed e) (bwr_event_id w) BcRemoved b of
               None \<Rightarrow> None
             | Some (_, b) \<Rightarrow>
                 (let (_, m') = mf_Destroy True (m\<lparr>ms_file := old\<rparr>); m = m'\<lparr>ms_file := ms_file m\<rparr>
                  in map_option (\<lambda>(_, b). (True, b, w\<lparr>bwr_mem := m, bwr_event_id := i, bwr_reset := False\<rparr>))
                       (bc_SendEvent (wv_created e) i BcCreated b))))"

definition bwr_Write :: "bwr_env \<Rightarrow> u8 list \<Rightarrow> broadcast \<Rightarrow> bc_writer \<Rightarrow> (bool \<times> broadcast \<times> bc_writer) option" where
  "bwr_Write e data b w =
     (if \<not> bwr_bound w then Some (False, b, w)
      else (let n = word_of_nat (length data)
        in case (if mf_MaxDataSize (bwr_mem w) < n \<or> bwr_reset w then bwr_recreate e n b w else Some (True, b, w)) of
            None \<Rightarrow> None
          | Some (False, b, w) \<Rightarrow> Some (False, b, w)
          | Some (True, b, w) \<Rightarrow>
              (let (access, m) = mf_GetWriteAccess (wv_shm e) (wv_lk_write e) (bwr_mem w)
               in if access
                  then (let (_, m) = mf_WriteBuffer data 0 m; (_, m) = mf_ReleaseWriteAccess m
                    in map_option (\<lambda>(_, b). (True, b, w\<lparr>bwr_mem := m\<rparr>)) (bc_SendEvent (wv_updated e) (bwr_event_id w) BcUpdated b))
                  else Some (False, b, w\<lparr>bwr_mem := m, bwr_reset := True\<rparr>))))"

definition bwr_Unbind :: "bwr_env \<Rightarrow> broadcast \<Rightarrow> bc_writer \<Rightarrow> (broadcast \<times> bc_writer) option" where
  "bwr_Unbind e b w =
     (if \<not> bwr_bound w then Some (b, w)
      else map_option (\<lambda>(_, b). (b, w\<lparr>bwr_mem := (snd (mf_Destroy True (bwr_mem w)))\<lparr>ms_file := mf_new\<rparr>, bwr_bound := False, bwr_reset := False\<rparr>))
        (bc_SendEvent (wv_removed e) (bwr_event_id w) BcRemoved b))"

subsection \<open>CMemoryFileBroadcastReader\<close>

record payload_memfile =
  pm_file :: mem_file
  pm_buffer :: "u8 list"
  pm_timestamp :: i64

record bc_reader =
  br_bound :: bool
  br_files :: "(u64, payload_memfile) omap"
  br_events :: "bc_event list"
  br_world :: "u8 list shm_world"
  br_map :: mem_file_map

record br_env =
  rv_shm :: "u8 list shm_env"
  rv_mtx_ok :: bool
  rv_lk_create :: "u64 \<Rightarrow> lock_result"
  rv_lk_read :: "u64 \<Rightarrow> lock_result"

definition br_new :: "u8 list shm_world \<Rightarrow> mem_file_map \<Rightarrow> bc_reader" where
  "br_new w m = \<lparr>br_bound = False, br_files = [], br_events = [], br_world = w, br_map = m\<rparr>"

definition pm_new :: payload_memfile where
  "pm_new = \<lparr>pm_file = mf_new, pm_buffer = [], pm_timestamp = 0\<rparr>"

definition br_Bind :: "bc_reader \<Rightarrow> bool \<times> bc_reader" where
  "br_Bind rd = (if br_bound rd then (False, rd) else (True, rd\<lparr>br_bound := True\<rparr>))"

definition br_Unbind :: "bc_reader \<Rightarrow> bool \<times> bc_reader" where
  "br_Unbind rd = (if \<not> br_bound rd then (False, rd) else (True, rd\<lparr>br_bound := False\<rparr>))"

definition br_state :: "bc_reader \<Rightarrow> payload_memfile \<Rightarrow> u8 list mf_state" where
  "br_state rd pm = \<lparr>ms_file = pm_file pm, ms_world = br_world rd, ms_map = br_map rd\<rparr>"

definition br_put :: "u64 \<Rightarrow> payload_memfile \<Rightarrow> u8 list mf_state \<Rightarrow> bc_reader \<Rightarrow> bc_reader" where
  "br_put i pm s rd = rd\<lparr>br_files := om_set id (br_files rd) i (pm\<lparr>pm_file := ms_file s\<rparr>), br_world := ms_world s, br_map := ms_map s\<rparr>"

text \<open>\<open>resize(CurDataSize())\<close> and \<open>Read\<close>; without access nothing is read.\<close>

definition br_update :: "br_env \<Rightarrow> bc_event \<Rightarrow> payload_memfile \<Rightarrow> bc_reader \<Rightarrow> bc_reader \<times> (u8 list \<times> i64) option" where
  "br_update e ev pm rd =
     (let i = be_event_id ev; (access, s) = mf_GetReadAccess (rv_shm e) (rv_lk_read e i) (br_state rd pm)
      in if access
         then (let n = mf_CurDataSize s; buf = take (unat n) (pm_buffer pm) @ replicate (unat n - length (pm_buffer pm)) 0;
                   buf = (case mf_Read n 0 s of None \<Rightarrow> buf | Some bs \<Rightarrow> bs);
                   s = snd (mf_ReleaseReadAccess s); pm = pm\<lparr>pm_buffer := buf, pm_timestamp := be_timestamp ev\<rparr>
           in (br_put i pm s rd, Some (buf, pm_timestamp pm)))
         else (br_put i pm s rd, None))"

text \<open>
  One event of the list: events already handled in this call are skipped; a payload file that is not known
  is opened, and forgotten when it is announced as removed, which destroys the object.
\<close>

definition br_step ::
  "br_env \<Rightarrow> string \<Rightarrow> bc_event \<Rightarrow> bc_reader \<times> u64 list \<times> (u8 list \<times> i64) list \<times> bool \<Rightarrow>
   (bc_reader \<times> u64 list \<times> (u8 list \<times> i64) list \<times> bool) option" where
  "br_step e domain ev = (\<lambda>(rd, handled, msgs, ok).
     (let i = be_event_id ev in
      if i \<in> set handled then Some (rd, handled, msgs, ok)
      else (let handled = i # handled;
                (pm, is_new) = (case om_find id (br_files rd) i of Some pm \<Rightarrow> (pm, False) | None \<Rightarrow> (pm_new, True));
                rd = br_put i pm (br_state rd pm) rd
        in case (if is_new \<and> be_type ev \<noteq> BcRemoved
                 then mf_Create (rv_shm e) (rv_mtx_ok e) (rv_lk_create e i) (BuildPayloadMemfileName domain i) False 0 False (br_state rd pm)
                 else Some (True, br_state rd pm)) of
            None \<Rightarrow> None
          | Some (False, s) \<Rightarrow> Some (br_put i pm s rd, handled, msgs, False)
          | Some (True, s) \<Rightarrow>
              (let rd = br_put i pm s rd; pm = pm\<lparr>pm_file := ms_file s\<rparr>
               in case be_type ev of
                    BcUpdated \<Rightarrow>
                      (case br_update e ev pm rd of
                         (rd, Some msg) \<Rightarrow> Some (rd, handled, msgs @ [msg], ok)
                       | (rd, None) \<Rightarrow> Some (rd, handled, msgs, False))
                  | BcRemoved \<Rightarrow>
                      (let (_, s) = mf_Destroy False s
                       in Some (rd\<lparr>br_files := om_erase id (br_files rd) i, br_world := ms_world s, br_map := ms_map s\<rparr>, handled, msgs, ok))
                  | _ \<Rightarrow> Some (rd, handled, msgs, ok)))))"

fun br_steps ::
  "br_env \<Rightarrow> string \<Rightarrow> bc_event list \<Rightarrow> bc_reader \<times> u64 list \<times> (u8 list \<times> i64) list \<times> bool \<Rightarrow>
   (bc_reader \<times> u64 list \<times> (u8 list \<times> i64) list \<times> bool) option" where
  "br_steps e domain [] st = Some st"
| "br_steps e domain (ev # evs) st = (case br_step e domain ev st of None \<Rightarrow> None | Some st \<Rightarrow> br_steps e domain evs st)"

text \<open>\<open>Read\<close>: whether the events could be received is not looked at; if not, the list is that of the last call.\<close>

definition br_Read ::
  "bc_env \<Rightarrow> br_env \<Rightarrow> nat \<Rightarrow> i64 \<Rightarrow> broadcast \<Rightarrow> bc_reader \<Rightarrow> (bool \<times> (u8 list \<times> i64) list \<times> broadcast \<times> bc_reader) option" where
  "br_Read be e fuel timeout b rd =
     (if \<not> br_bound rd then Some (False, [], b, rd)
      else case bc_ReceiveEvents be fuel timeout True b of
          None \<Rightarrow> None
        | Some (_, evs, b) \<Rightarrow>
            (let rd = (case evs of None \<Rightarrow> rd | Some evs \<Rightarrow> rd\<lparr>br_events := evs\<rparr>)
             in map_option (\<lambda>(rd, _, msgs, ok). (ok, msgs, b, rd)) (br_steps e (bc_domain b) (br_events rd) (rd, [], [], True))))"

subsection \<open>CRegistrationSenderSHM and CRegistrationReceiverSHM\<close>

definition rs_SendSampleList ::
  "('l \<Rightarrow> u8 list option) \<Rightarrow> bwr_env \<Rightarrow> 'l \<Rightarrow> broadcast \<Rightarrow> bc_writer \<Rightarrow> (bool \<times> broadcast \<times> bc_writer) option" where
  "rs_SendSampleList ser e l b w =
     (case ser l of
        None \<Rightarrow> Some (True, b, w)
      | Some bs \<Rightarrow> if bs \<noteq> [] then bwr_Write e bs b w else Some (True, b, w))"

definition rr_apply :: "(u8 list \<Rightarrow> 's list option) \<Rightarrow> (u8 list \<times> i64) list \<Rightarrow> 's list" where
  "rr_apply de msgs = concat (map (\<lambda>(bs, _). case de bs of None \<Rightarrow> [] | Some l \<Rightarrow> l) msgs)"

text \<open>The samples handed to the callback.\<close>

definition rr_Receive ::
  "(u8 list \<Rightarrow> 's list option) \<Rightarrow> bc_env \<Rightarrow> br_env \<Rightarrow> nat \<Rightarrow> broadcast \<Rightarrow> bc_reader \<Rightarrow> ('s list \<times> broadcast \<times> bc_reader) option" where
  "rr_Receive de be e fuel b rd =
     map_option (\<lambda>(ok, msgs, b, rd). (if ok then rr_apply de msgs else [], b, rd)) (br_Read be e fuel 0 b rd)"

text \<open>Setting up and tearing down; the results of the calls are not looked at.\<close>

definition rs_new :: "bwr_env \<Rightarrow> string \<Rightarrow> u64 \<Rightarrow> broadcast \<Rightarrow> bc_writer \<Rightarrow> (broadcast \<times> bc_writer) option" where
  "rs_new e domain n b w =
     (case bc_Create (wv_removed e) domain n b of
        None \<Rightarrow> None
      | Some (_, b) \<Rightarrow> map_option snd (bwr_Bind e b w))"

definition rs_destroy :: "bwr_env \<Rightarrow> broadcast \<Rightarrow> bc_writer \<Rightarrow> (broadcast \<times> bc_writer) option" where
  "rs_destroy e b w = map_option (\<lambda>(b, w). (snd (bc_Destroy b), w)) (bwr_Unbind e b w)"

definition rr_new :: "bc_env \<Rightarrow> bc_env \<Rightarrow> string \<Rightarrow> u64 \<Rightarrow> broadcast \<Rightarrow> bc_reader \<Rightarrow> (broadcast \<times> bc_reader) option" where
  "rr_new e1 e2 domain n b rd =
     (case bc_Create e1 domain n b of
        None \<Rightarrow> None
      | Some (_, b) \<Rightarrow> map_option (\<lambda>(_, b). (b, snd (br_Bind rd))) (bc_FlushLocalEventQueue e2 b))"

definition rr_destroy :: "broadcast \<Rightarrow> bc_reader \<Rightarrow> broadcast \<times> bc_reader" where
  "rr_destroy b rd = (snd (bc_Destroy b), snd (br_Unbind rd))"

subsection \<open>A payload file that could not be opened\<close>

text \<open>The reader has an entry for the event id whose memory file was never opened.\<close>

definition br_stuck :: "u64 \<Rightarrow> bc_reader \<Rightarrow> bool" where
  "br_stuck i rd \<longleftrightarrow> (\<exists>pm. om_find id (br_files rd) i = Some pm \<and> \<not> mf_created (pm_file pm))"

lemma br_put_find: "om_find id (br_files (br_put i pm s rd)) j = (if i = j then Some (pm\<lparr>pm_file := ms_file s\<rparr>) else om_find id (br_files rd) j)"
  by (simp add: br_put_def om_find_set)

lemma br_update_shape:
  "\<exists>pm' s. fst (br_update e ev pm rd) = br_put (be_event_id ev) pm' s rd"
  by (auto simp: br_update_def Let_def split_beta)

lemma br_step_other:
  assumes "be_event_id ev \<noteq> i" "br_step e domain ev (rd, h, msgs, ok) = Some (rd', h', msgs', ok')"
  shows "om_find id (br_files rd') i = om_find id (br_files rd) i \<and> (i \<in> set h' \<longleftrightarrow> i \<in> set h) \<and> (\<not> ok \<longrightarrow> \<not> ok')"
proof (cases "be_event_id ev \<in> set h")
  case False
  let ?i = "be_event_id ev"
  define pn where "pn = (case om_find id (br_files rd) ?i of Some pm \<Rightarrow> (pm, False) | None \<Rightarrow> (pm_new, True))"
  obtain pm is_new where pn': "pn = (pm, is_new)" by (cases pn)
  let ?rd = "br_put ?i pm (br_state rd pm) rd"
  define r where "r = (if is_new \<and> be_type ev \<noteq> BcRemoved
      then mf_Create (rv_shm e) (rv_mtx_ok e) (rv_lk_create e ?i) (BuildPayloadMemfileName domain ?i) False 0 False (br_state ?rd pm)
      else Some (True, br_state ?rd pm))"
  have step: "br_step e domain ev (rd, h, msgs, ok) = (case r of None \<Rightarrow> None
      | Some (False, s) \<Rightarrow> Some (br_put ?i pm s ?rd, ?i # h, msgs, False)
      | Some (True, s) \<Rightarrow>
          (let rd = br_put ?i pm s ?rd; pm = pm\<lparr>pm_file := ms_file s\<rparr>
           in case be_type ev of
                BcUpdated \<Rightarrow> (case br_update e ev pm rd of (rd, Some msg) \<Rightarrow> Some (rd, ?i # h, msgs @ [msg], ok)
                   | (rd, None) \<Rightarrow> Some (rd, ?i # h, msgs, False))
              | BcRemoved \<Rightarrow> (let (_, s) = mf_Destroy False s
                   in Some (rd\<lparr>br_files := om_erase id (br_files rd) ?i, br_world := ms_world s, br_map := ms_map s\<rparr>, ?i # h, msgs, ok))
              | _ \<Rightarrow> Some (rd, ?i # h, msgs, ok)))"
    using False unfolding br_step_def r_def prod.case Let_def pn_def [symmetric] pn' by simp
  obtain okc s where r: "r = Some (okc, s)" using assms(2) unfolding step by (cases r) auto
  let ?rd2 = "br_put ?i pm s ?rd"
  have f2: "om_find id (br_files ?rd2) i = om_find id (br_files rd) i" using assms(1) by (simp add: br_put_find)
  show ?thesis
  proof (cases "okc \<and> be_type ev = BcUpdated")
    case True
    obtain pm' s' where u: "fst (br_update e ev (pm\<lparr>pm_file := ms_file s\<rparr>) ?rd2) = br_put ?i pm' s' ?rd2" using br_update_shape by blast
    have "rd' = fst (br_update e ev (pm\<lparr>pm_file := ms_file s\<rparr>) ?rd2) \<and> h' = ?i # h \<and> (\<not> ok \<longrightarrow> \<not> ok')"
      using assms(2) True unfolding step r
      by (cases "br_update e ev (pm\<lparr>pm_file := ms_file s\<rparr>) ?rd2"; cases "snd (br_update e ev (pm\<lparr>pm_file := ms_file s\<rparr>) ?rd2)") auto
    then show ?thesis using u assms(1) f2 by (simp add: br_put_find)
  next
    case f: False
    show ?thesis
      using assms f f2 unfolding step r
      by (cases okc; cases "be_type ev") (auto simp: Let_def split_beta om_find_erase_other)
  qed
qed (use assms in \<open>simp add: br_step_def Let_def\<close>)

lemma br_step_stuck:
  assumes "br_stuck i rd" "i \<notin> set h" "be_event_id ev = i" "be_type ev = BcUpdated"
  obtains rd' where "br_step e domain ev (rd, h, msgs, ok) = Some (rd', i # h, msgs, False)" "br_stuck i rd'"
proof -
  obtain pm where pm: "om_find id (br_files rd) i = Some pm" "\<not> mf_created (pm_file pm)" using assms(1) by (auto simp: br_stuck_def)
  let ?rd = "br_put i pm (br_state rd pm) (br_put i pm (br_state rd pm) rd)"
  have f: "br_state rd pm = \<lparr>ms_file = pm_file pm, ms_world = br_world rd, ms_map = br_map rd\<rparr>" by (simp add: br_state_def)
  have pf: "pm\<lparr>pm_file := pm_file pm\<rparr> = pm" by simp
  have st: "br_state (br_put i pm (br_state rd pm) rd) pm = br_state rd pm" by (simp add: br_put_def br_state_def)
  have acc: "mf_GetReadAccess (rv_shm e) (rv_lk_read e i) (br_state ?rd pm) = (False, br_state ?rd pm)"
    using pm(2) by (simp add: mf_GetReadAccess_def mf_GetAccess_def br_state_def)
  have u: "br_update e ev pm ?rd = (br_put i pm (br_state ?rd pm) ?rd, None)"
    using acc assms(3) by (simp add: br_update_def)
  have "br_step e domain ev (rd, h, msgs, ok) = Some (br_put i pm (br_state ?rd pm) ?rd, i # h, msgs, False)"
    using assms(2,3,4) pm(1) u unfolding br_step_def by (simp add: Let_def st) (simp add: f)
  moreover have "br_stuck i (br_put i pm (br_state ?rd pm) ?rd)"
    using pm(2) by (simp add: br_stuck_def br_put_find) (simp add: br_state_def)
  ultimately show ?thesis by (rule that)
qed

lemma br_step_handled: "be_event_id ev \<in> set h \<Longrightarrow> br_step e domain ev (rd, h, msgs, ok) = Some (rd, h, msgs, ok)"
  by (simp add: br_step_def Let_def)

text \<open>The rest of a call after the file has been handled.\<close>

lemma br_steps_rest:
  "br_steps e domain evs (rd, h, msgs, False) = Some (rd', h', msgs', ok') \<Longrightarrow> i \<in> set h \<Longrightarrow> br_stuck i rd \<Longrightarrow> \<not> ok' \<and> br_stuck i rd'"
proof (induction evs arbitrary: rd h msgs)
  case (Cons ev evs)
  show ?case
  proof (cases "be_event_id ev = i")
    case True
    then have "br_step e domain ev (rd, h, msgs, False) = Some (rd, h, msgs, False)" using Cons.prems(2) by (simp add: br_step_handled)
    then have "br_steps e domain evs (rd, h, msgs, False) = Some (rd', h', msgs', ok')" using Cons.prems(1) by simp
    then show ?thesis using Cons.IH Cons.prems(2,3) by blast
  next
    case False
    obtain rd1 h1 msgs1 ok1 where s: "br_step e domain ev (rd, h, msgs, False) = Some (rd1, h1, msgs1, ok1)"
      using Cons.prems(1) by (cases "br_step e domain ev (rd, h, msgs, False)") auto
    note o = br_step_other [OF False s]
    have "br_steps e domain evs (rd1, h1, msgs1, False) = Some (rd', h', msgs', ok')" using Cons.prems(1) s o by simp
    from Cons.IH [OF this] show ?thesis using o Cons.prems(2,3) by (simp add: br_stuck_def)
  qed
qed simp

lemma br_steps_stuck:
  "br_steps e domain (xs @ ev # ys) (rd, h, msgs, ok) = Some (rd', h', msgs', ok') \<Longrightarrow> br_stuck i rd \<Longrightarrow> i \<notin> set h \<Longrightarrow>
    i \<notin> be_event_id ` set xs \<Longrightarrow> be_event_id ev = i \<Longrightarrow> be_type ev = BcUpdated \<Longrightarrow> \<not> ok' \<and> br_stuck i rd'"
proof (induction xs arbitrary: rd h msgs ok)
  case Nil
  from br_step_stuck [OF Nil.prems(2,3,5,6)] obtain rd1 where
    "br_step e domain ev (rd, h, msgs, ok) = Some (rd1, i # h, msgs, False)" "br_stuck i rd1" .
  then show ?case using Nil.prems(1) br_steps_rest [of e domain ys rd1 "i # h" msgs rd' h' msgs' ok' i] by simp
next
  case (Cons x xs)
  obtain rd1 h1 msgs1 ok1 where s: "br_step e domain x (rd, h, msgs, ok) = Some (rd1, h1, msgs1, ok1)"
    using Cons.prems(1) by (cases "br_step e domain x (rd, h, msgs, ok)") auto
  have x: "be_event_id x \<noteq> i" using Cons.prems(4) by auto
  note o = br_step_other [OF x s]
  have r: "br_steps e domain (xs @ ev # ys) (rd1, h1, msgs1, ok1) = Some (rd', h', msgs', ok')" using Cons.prems(1) s by simp
  have "br_stuck i rd1" using Cons.prems(2) o by (simp add: br_stuck_def)
  then show ?case using Cons.IH [OF r] o Cons.prems(3-6) by simp
qed

text \<open>A file that cannot be opened is not opened, but stays in the list.\<close>

lemma mf_Create_fails:
  assumes "mf_Create e mtx_ok lk name create len auto s = Some (False, s')" "mf_name (ms_file s) \<noteq> name"
  shows "\<not> mf_created (ms_file s')"
proof -
  let ?s = "mf_upd (\<lambda>f. f\<lparr>mf_auto_sanitizing := auto\<rparr>) s"
  obtain added s1 where r: "mf_reconnect e name create len ?s = (added, s1)" by (cases "mf_reconnect e name create len ?s")
  have "\<not> mf_created (ms_file s1)" using r by (auto simp: mf_reconnect_def split_beta Let_def)
  moreover have "mf_name (ms_file ?s) \<noteq> name" using assms(2) by simp
  ultimately show ?thesis
    using assms(1) r unfolding mf_Create_def Let_def by (auto simp: split_beta split: if_splits)
qed

lemma br_step_open_fails:
  assumes "om_find id (br_files rd) i = None" "i \<notin> set h" "be_event_id ev = i" "be_type ev \<noteq> BcRemoved"
    "mf_Create (rv_shm e) (rv_mtx_ok e) (rv_lk_create e i) (BuildPayloadMemfileName domain i) False 0 False (br_state rd pm_new) = Some (False, s)"
  obtains rd' where "br_step e domain ev (rd, h, msgs, ok) = Some (rd', i # h, msgs, False)" "br_stuck i rd'"
proof -
  let ?rd = "br_put i pm_new (br_state rd pm_new) rd"
  have st: "br_state ?rd pm_new = br_state rd pm_new" by (simp add: br_state_def br_put_def)
  have "br_step e domain ev (rd, h, msgs, ok) = Some (br_put i pm_new s ?rd, i # h, msgs, False)"
    using assms unfolding br_step_def by (simp add: Let_def st)
  moreover have "mf_name (ms_file (br_state rd pm_new)) \<noteq> BuildPayloadMemfileName domain i"
    by (simp add: br_state_def pm_new_def mf_new_def BuildPayloadMemfileName_def)
  then have "\<not> mf_created (ms_file s)" by (rule mf_Create_fails [OF assms(5)])
  then have "br_stuck i (br_put i pm_new s ?rd)" by (simp add: br_stuck_def br_put_find)
  ultimately show ?thesis by (rule that)
qed

text \<open>
  A payload file that could not be opened once is never opened again, and blocks the registration: as long as
  events of its owner arrive, no sample of any process is applied, whatever the other files of the same round
  hold, and also when the file can be opened by then.
\<close>

theorem failed_open_blocks:
  assumes "om_find id (br_files rd0) i = None" "be_event_id ev0 = i" "be_type ev0 = BcUpdated"
    "mf_Create (rv_shm e0) (rv_mtx_ok e0) (rv_lk_create e0 i) (BuildPayloadMemfileName domain i) False 0 False (br_state rd0 pm_new) = Some (False, s)"
    "br_step e0 domain ev0 (rd0, [], [], True) = Some (rd1, h1, msgs1, ok1)"
    "br_bound rd1" "bc_ReceiveEvents be fuel 0 True b = Some (r, Some (xs @ ev # ys), b1)"
    "i \<notin> be_event_id ` set xs" "be_event_id ev = i" "be_type ev = BcUpdated"
    "rr_Receive de be e fuel b (rd1\<lparr>br_world := w, br_map := m\<rparr>) = Some (samples, b2, rd2)"
  shows "samples = [] \<and> br_stuck i rd2"
proof -
  have "be_type ev0 \<noteq> BcRemoved" "i \<notin> set []" using assms(3) by simp_all
  from br_step_open_fails [OF assms(1) this(2) assms(2) this(1) assms(4)] obtain rd' where
    r1: "br_step e0 domain ev0 (rd0, [], [], True) = Some (rd', [i], [], False)" "br_stuck i rd'" by blast
  have rd1: "br_stuck i rd1" using r1 assms(5) by simp
  let ?rd = "rd1\<lparr>br_world := w, br_map := m, br_events := xs @ ev # ys\<rparr>"
  have stk: "br_stuck i ?rd" using rd1 by (simp add: br_stuck_def)
  obtain ok msgs where rr: "br_Read be e fuel 0 b (rd1\<lparr>br_world := w, br_map := m\<rparr>) = Some (ok, msgs, b2, rd2)"
    "samples = (if ok then rr_apply de msgs else [])"
    using assms(11) by (auto simp: rr_Receive_def)
  then obtain h where st: "br_steps e (bc_domain b1) (xs @ ev # ys) (?rd, [], [], True) = Some (rd2, h, msgs, ok)"
    using assms(6,7) by (auto simp: br_Read_def)
  show ?thesis using br_steps_stuck [OF st stk _ assms(8-10)] rr(2) by simp
qed

definition wit_event :: bc_event where
  "wit_event = \<lparr>be_process_id = 20, be_timestamp = 7, be_event_id = 2, be_type = BcUpdated\<rparr>"

definition wit_bc2 :: broadcast where
  "wit_bc2 = bc_see (wit_bc_world\<lparr>sw_objects := \<lambda>_. \<lparr>so_size = 4096,
     so_header = \<lparr>ih_size = 24, ih_cur_data_size = 128, ih_max_data_size = 128\<rparr>,
     so_payload = bc_push 7 wit_event (bc_ResetMemfile 5 3 (mo_zero bc_ops 152))\<rparr>\<rparr>) wit_bc"

definition wit_reader :: bc_reader where
  "wit_reader = (br_new \<lparr>sw_names = (\<lambda>_. None), sw_objects = (\<lambda>_. \<lparr>so_size = 0, so_header = ih_zero, so_payload = []\<rparr>), sw_next = 0\<rparr> fm_new)
     \<lparr>br_bound := True\<rparr>"

definition wit_rv :: br_env where
  "wit_rv = \<lparr>rv_shm = \<lparr>se_ops = bytes_ops, se_page_size = 4096, se_mmap_ok = True\<rparr>, rv_mtx_ok = True,
     rv_lk_create = (\<lambda>_. LkOk False), rv_lk_read = (\<lambda>_. LkOk False)\<rparr>"

lemma wit_receive: "map_option (\<lambda>(ok, evs, _). (ok, evs)) (bc_ReceiveEvents (wit_bv 10 9) 3 0 True wit_bc2) = Some (True, Some [wit_event])"
  by code_simp

lemma wit_open_fails: "map_option fst (mf_Create (rv_shm wit_rv) (rv_mtx_ok wit_rv) (rv_lk_create wit_rv 2)
    (BuildPayloadMemfileName ''ecal'' 2) False 0 False (br_state wit_reader pm_new)) = Some False"
  by code_simp

lemma wit_round: "map_option (\<lambda>(rd, _). br_bound rd) (br_step wit_rv ''ecal'' wit_event (wit_reader, [], [], True)) = Some True"
  "(case br_step wit_rv ''ecal'' wit_event (wit_reader, [], [], True) of None \<Rightarrow> False
    | Some (rd, _) \<Rightarrow> rr_Receive Some (wit_bv 10 9) wit_rv 3 wit_bc2 (rd\<lparr>br_world := br_world rd, br_map := br_map rd\<rparr>) \<noteq> None)"
  by code_simp+

lemma failed_open_blocks_witness:
  "\<exists>rd1 b2 rd2 samples. rr_Receive Some (wit_bv 10 9) wit_rv 3 wit_bc2 rd1 = Some (samples, b2, rd2) \<and> samples = [] \<and> br_stuck 2 rd2"
proof -
  obtain s where s: "mf_Create (rv_shm wit_rv) (rv_mtx_ok wit_rv) (rv_lk_create wit_rv 2) (BuildPayloadMemfileName ''ecal'' 2) False 0 False
      (br_state wit_reader pm_new) = Some (False, s)" using wit_open_fails by auto
  obtain rd1 h1 msgs1 ok1 where st: "br_step wit_rv ''ecal'' wit_event (wit_reader, [], [], True) = Some (rd1, h1, msgs1, ok1)" "br_bound rd1"
    using wit_round(1) by auto
  obtain b1 where ev: "bc_ReceiveEvents (wit_bv 10 9) 3 0 True wit_bc2 = Some (True, Some ([] @ wit_event # []), b1)"
    using wit_receive by auto
  obtain samples b2 rd2 where r: "rr_Receive Some (wit_bv 10 9) wit_rv 3 wit_bc2 (rd1\<lparr>br_world := br_world rd1, br_map := br_map rd1\<rparr>) = Some (samples, b2, rd2)"
    using wit_round(2) st(1) by (auto split: option.splits)
  have "samples = [] \<and> br_stuck 2 rd2"
    by (rule failed_open_blocks [OF _ _ _ s st ev _ _ _ r]) (simp_all add: wit_reader_def br_new_def wit_event_def)
  then show ?thesis using r by blast
qed

end
