(* ===== verification/Registration_Shm.thy ===== *)
theory Registration_Shm
  imports Broadcast_Channel
begin

text \<open>
  The two ends of the registration over shared memory together: a process that broadcasts its samples, and one
  that reads them. Each has its own objects and its own map of memory files; they share the broadcast
  file and the payload file, so before a process acts it is shown the memory as the other left it.
\<close>

record reg_link =
  rl_bS :: broadcast
  rl_w :: bc_writer
  rl_bR :: broadcast
  rl_rd :: bc_reader

definition rl_name :: "reg_link \<Rightarrow> string" where
  "rl_name l = BuildPayloadMemfileName (bc_domain (rl_bS l)) (bwr_event_id (rl_w l))"

text \<open>The payload file of the sender, and what the receiver knows of it.\<close>

definition bwr_ready :: "broadcast \<Rightarrow> bc_writer \<Rightarrow> nat \<Rightarrow> nat \<Rightarrow> bool" where
  "bwr_ready b w k cap \<longleftrightarrow> bwr_bound w \<and> \<not> bwr_reset w \<and> mf_attached (bwr_mem w) k \<and> \<not> mf_auto_sanitizing (ms_file (bwr_mem w)) \<and>
     so_valid (mf_object (bwr_mem w) k) \<and> so_max (mf_object (bwr_mem w) k) = cap \<and> cap \<le> length (so_payload (mf_object (bwr_mem w) k)) \<and>
     unat (mf_MaxDataSize (bwr_mem w)) = cap \<and>
     sw_names (ms_world (bwr_mem w)) (shm_posix_name (BuildPayloadMemfileName (bc_domain b) (bwr_event_id w))) = Some k"

definition br_ready :: "string \<Rightarrow> u64 \<Rightarrow> bc_reader \<Rightarrow> nat \<Rightarrow> bool" where
  "br_ready domain i rd k \<longleftrightarrow> br_bound rd \<and>
     (case om_find id (br_files rd) i of
        Some pm \<Rightarrow> mf_attached (br_state rd pm) k \<and> \<not> mf_auto_sanitizing (pm_file pm)
      | None \<Rightarrow> om_find id (fm_map (br_map rd)) (BuildPayloadMemfileName domain i) = None)"

lemma bwr_Write_ok:
  assumes W: "bwr_ready b w k cap" and O: "bc_open b i" and D: "data \<noteq> []" "length data \<le> cap"
    and E: "se_mmap_ok (wv_shm e)" "wv_lk_write e = LkOk rec" "bv_ok (wv_updated e)"
  obtains m m' where "bwr_Write e data b w = Some (True, b\<lparr>bc_mem := m\<rparr>, w\<lparr>bwr_mem := m'\<rparr>)" "bc_open (b\<lparr>bc_mem := m\<rparr>) i"
    "so_payload (mf_object m i) = bc_push (bv_now (wv_updated e)) \<lparr>be_process_id = bv_pid (wv_updated e),
        be_timestamp = bv_now (wv_updated e), be_event_id = bwr_event_id w, be_type = BcUpdated\<rparr> (bc_memory_at b i)"
    "bwr_ready b (w\<lparr>bwr_mem := m'\<rparr>) k cap" "mf_object m' k = so_write 0 data (mf_object (bwr_mem w) k)"
proof -
  let ?s = "bwr_mem w" and ?so = "mf_object (bwr_mem w) k"
  have r: "bwr_bound w" "\<not> bwr_reset w" "mf_attached ?s k" "\<not> mf_auto_sanitizing (ms_file ?s)" "so_valid ?so" "so_max ?so = cap"
    "cap \<le> length (so_payload ?so)" "unat (mf_MaxDataSize ?s) = cap"
    "sw_names (ms_world ?s) (shm_posix_name (BuildPayloadMemfileName (bc_domain b) (bwr_event_id w))) = Some k"
    using W by (simp_all add: bwr_ready_def)
  from mf_GetWriteAccess_ok [OF r(3,5) E(1) r(4), of rec] obtain s1 where
    s1: "mf_GetWriteAccess (wv_shm e) (LkOk rec) ?s = (True, s1)" "mf_writing s1 k" "ms_world s1 = ms_world ?s" .
  have o1: "mf_object s1 k = ?so" using s1(3) by (simp add: mf_object_def)
  have "unat (0 :: u64) + length data \<le> so_max (mf_object s1 k)" using D(2) r(6) o1 by simp
  from mf_WriteBuffer_ok [OF s1(2) D(1) this] obtain s2 where
    s2: "mf_WriteBuffer data 0 s1 = (word_of_nat (length data), s2)" "mf_writing s2 k" "mf_object s2 k = so_write (unat (0 :: u64)) data (mf_object s1 k)" .
  let ?m = "snd (mf_ReleaseWriteAccess s2)"
  note rel = mf_writing_release [OF s2(2)]
  have ob: "mf_object ?m k = so_write 0 data ?so" using rel(2) s2(3) o1 by simp
  have "unat (word_of_nat (length data) :: u64) = length data"
    using word_sum_fits(4) [of "0 :: u64" "length data" "ih_max_data_size (so_header ?so)"] D(2) r(6) by simp
  then have n: "\<not> mf_MaxDataSize ?s < word_of_nat (length data)" using D(2) r(8) by (simp add: word_less_nat_alt)
  from bc_SendEvent_ok [OF O E(3), of "bwr_event_id w" BcUpdated] obtain m where
    sd: "bc_SendEvent (wv_updated e) (bwr_event_id w) BcUpdated b = Some (True, b\<lparr>bc_mem := m\<rparr>)" "bc_open (b\<lparr>bc_mem := m\<rparr>) i"
      "so_payload (mf_object m i) = bc_push (bv_now (wv_updated e)) \<lparr>be_process_id = bv_pid (wv_updated e),
        be_timestamp = bv_now (wv_updated e), be_event_id = bwr_event_id w, be_type = BcUpdated\<rparr> (bc_memory_at b i)" .
  show ?thesis
  proof (rule that [OF _ sd(2,3)])
    show "bwr_Write e data b w = Some (True, b\<lparr>bc_mem := m\<rparr>, w\<lparr>bwr_mem := ?m\<rparr>)"
      using r(1,2) n s1(1) E(2) s2(1) sd(1) by (simp add: bwr_Write_def split_beta Let_def)
    have nm: "sw_names (ms_world ?m) = sw_names (ms_world ?s)"
      using mf_WriteBuffer_names [of data 0 s1] s2(1) s1(3) by (simp add: mf_ReleaseWriteAccess_world)
    have "mf_header (ms_file ?m) = so_header (mf_object s2 k)"
      using s2(2) by (simp add: mf_ReleaseWriteAccess_def mf_writing_def mf_set_access_def)
    then have mx: "unat (mf_MaxDataSize ?m) = cap" using s2(3) o1 r(6) by (simp add: mf_MaxDataSize_def)
    have ln: "length (so_payload (mf_object ?m k)) = length (so_payload ?so)"
      unfolding ob so_write_simps by (rule length_splice) (use D(2) r(7) in simp)
    have ob': "so_valid (mf_object ?m k)" "so_max (mf_object ?m k) = cap" "cap \<le> length (so_payload (mf_object ?m k))"
      using r(5-7) ln unfolding ob by simp_all
    show "bwr_ready b (w\<lparr>bwr_mem := ?m\<rparr>) k cap"
      using r(1,2,9) rel(1,3) ob' mx nm by (simp add: bwr_ready_def)
    show "mf_object ?m k = so_write 0 data ?so" by (rule ob)
  qed
qed

text \<open>The receiver reads what is in the file.\<close>

lemma br_update_ok:
  assumes A: "mf_attached (br_state rd pm) k" "\<not> mf_auto_sanitizing (pm_file pm)" and V: "so_valid (sw_objects (br_world rd) k)"
    and H: "unat (ih_cur_data_size (so_header (sw_objects (br_world rd) k))) = length data" "take (length data) (so_payload (sw_objects (br_world rd) k)) = data"
      "data \<noteq> []" and E: "se_mmap_ok (rv_shm e)" "rv_lk_read e (be_event_id ev) = LkOk rec"
  obtains pm' s where "br_update e ev pm rd = (br_put (be_event_id ev) pm' s rd, Some (data, be_timestamp ev))"
    "mf_attached s k" "\<not> mf_auto_sanitizing (ms_file s)" "ms_world s = br_world rd"
proof -
  let ?s = "br_state rd pm" and ?so = "sw_objects (br_world rd) k"
  have o: "mf_object ?s k = ?so" by (simp add: mf_object_def br_state_def)
  have v: "so_valid (mf_object ?s k)" "\<not> mf_auto_sanitizing (ms_file ?s) \<or> \<not> rec" using V A(2) o by (simp_all add: br_state_def)
  from mf_GetReadAccess_ok [OF A(1) v(1) E(1) v(2)] obtain s1 where
    s1: "mf_GetReadAccess (rv_shm e) (LkOk rec) ?s = (True, s1)" "ms_world s1 = ms_world ?s" "mf_mem s1 = Some k"
      "ms_file s1 = (ms_file ?s)\<lparr>mf_header := so_header (mf_object ?s k), mf_access := AsRead\<rparr>" .
  have o1: "mf_object s1 k = ?so" using s1(2) by (simp add: mf_object_def br_state_def)
  have cr: "mf_created (ms_file s1)" using A(1) s1(4) by (simp add: mf_attached_def)
  have R: "mf_reading s1 k" using cr s1(3,4) o o1 by (simp add: mf_reading_def)
  have n: "unat (mf_CurDataSize s1) = length data" using s1(4) o H(1) by (simp add: mf_CurDataSize_def)
  have "mf_Read (mf_CurDataSize s1) 0 s1 = Some (take (unat (mf_CurDataSize s1)) (drop (unat (0 :: u64)) (so_payload (mf_object s1 k))))"
    by (rule mf_Read_ok [OF R]) (use n H(1,3) o1 in auto)
  then have rd: "mf_Read (mf_CurDataSize s1) 0 s1 = Some data" using n H(2) o1 by simp
  let ?s2 = "snd (mf_ReleaseReadAccess s1)"
  have r: "?s2 = mf_set_access AsClosed s1" using cr s1(4) by (simp add: mf_ReleaseReadAccess_def)
  show ?thesis
  proof (rule that [of "pm\<lparr>pm_buffer := data, pm_timestamp := be_timestamp ev\<rparr>" ?s2])
    show "br_update e ev pm rd = (br_put (be_event_id ev) (pm\<lparr>pm_buffer := data, pm_timestamp := be_timestamp ev\<rparr>) ?s2 rd, Some (data, be_timestamp ev))"
      using s1(1) E(2) rd by (simp add: br_update_def Let_def)
    show "mf_attached ?s2 k" unfolding r using s1(3,4) cr V o by (simp add: mf_set_access_def mf_attached_def so_valid_def)
    show "\<not> mf_auto_sanitizing (ms_file ?s2)" unfolding r using s1(4) A(2) by (simp add: mf_set_access_def br_state_def)
    show "ms_world ?s2 = br_world rd" unfolding r using s1(2) by (simp add: mf_set_access_def br_state_def)
  qed
qed

lemma br_state_put [simp]: "br_state (br_put i pm s rd) (q\<lparr>pm_file := ms_file s\<rparr>) = s"
  by (cases s) (simp add: br_state_def br_put_def)

lemma br_put_same: "br_state (br_put i pm (br_state rd pm) rd) q = br_state rd q"
  by (simp add: br_state_def br_put_def)

lemma br_put_world [simp]: "br_world (br_put i pm s rd) = ms_world s" "br_bound (br_put i pm s rd) = br_bound rd"
  by (simp_all add: br_put_def)

lemma br_ready_put:
  "br_bound rd \<Longrightarrow> mf_attached s k \<Longrightarrow> \<not> mf_auto_sanitizing (ms_file s) \<Longrightarrow> br_ready domain i (br_put i pm s rd) k"
  by (simp add: br_ready_def br_put_find)

lemma br_step_ok:
  assumes R: "br_ready domain i rd k" and I: "be_event_id ev = i" "be_type ev = BcUpdated" "i \<notin> set h"
    and N: "sw_names (br_world rd) (shm_posix_name (BuildPayloadMemfileName domain i)) = Some k" and V: "so_valid (sw_objects (br_world rd) k)"
    and H: "unat (ih_cur_data_size (so_header (sw_objects (br_world rd) k))) = length data" "take (length data) (so_payload (sw_objects (br_world rd) k)) = data"
      "data \<noteq> []" and E: "se_mmap_ok (rv_shm e)" "rv_mtx_ok e" "rv_lk_create e i = LkOk r1" "rv_lk_read e i = LkOk r2"
  obtains rd' where "br_step e domain ev (rd, h, msgs, ok) = Some (rd', i # h, msgs @ [(data, be_timestamp ev)], ok)"
    "br_ready domain i rd' k" "br_world rd' = br_world rd"
proof -
  have lk: "rv_lk_read e (be_event_id ev) = LkOk r2" using E(4) I(1) by simp
  obtain pm s where c: "(if om_find id (br_files rd) i = None
      then mf_Create (rv_shm e) (rv_mtx_ok e) (rv_lk_create e i) (BuildPayloadMemfileName domain i) False 0 False (br_state rd pm_new)
      else Some (True, br_state rd pm)) = Some (True, s)"
    "pm = (case om_find id (br_files rd) i of Some pm \<Rightarrow> pm | None \<Rightarrow> pm_new)" "mf_attached s k" "ms_world s = br_world rd"
    "\<not> mf_auto_sanitizing (ms_file s)"
  proof (cases "om_find id (br_files rd) i")
    case (Some q)
    show ?thesis by (rule that [where s = "br_state rd q" and pm = q]) (use R Some in \<open>simp_all add: br_ready_def br_state_def\<close>)
  next
    case None
    have n: "BuildPayloadMemfileName domain i \<noteq> []" by (simp add: BuildPayloadMemfileName_def)
    have f: "mf_name (ms_file (br_state rd pm_new)) = []" "\<not> mf_created (ms_file (br_state rd pm_new))"
      "om_find id (fm_map (ms_map (br_state rd pm_new))) (BuildPayloadMemfileName domain i) = None"
      "sw_names (ms_world (br_state rd pm_new)) (shm_posix_name (BuildPayloadMemfileName domain i)) = Some k"
      "so_valid (mf_object (br_state rd pm_new) k)"
      using R None N V by (simp_all add: br_ready_def br_state_def pm_new_def mf_new_def mf_object_def)
    from mf_Create_open [OF n f E(1), of r1] obtain s where s:
      "mf_Create (rv_shm e) True (LkOk r1) (BuildPayloadMemfileName domain i) False 0 False (br_state rd pm_new) = Some (True, s)"
      "mf_attached s k" "ms_world s = ms_world (br_state rd pm_new)" "\<not> mf_auto_sanitizing (ms_file s)" .
    show ?thesis by (rule that [where s = s and pm = pm_new]) (use s None E(2,3) in \<open>simp_all add: br_state_def\<close>)
  qed
  let ?rd1 = "br_put i pm (br_state rd pm) rd" and ?pm = "pm\<lparr>pm_file := ms_file s\<rparr>"
  let ?rd2 = "br_put i pm s ?rd1"
  have st2: "br_state ?rd2 ?pm = s" "br_world ?rd2 = br_world rd" using c(4) by simp_all
  have A: "mf_attached (br_state ?rd2 ?pm) k" "\<not> mf_auto_sanitizing (pm_file ?pm)" using c(3,5) st2 by simp_all
  from br_update_ok [OF A V [folded st2(2)] H [folded st2(2)] E(1) lk] obtain pm' s' where
    u: "br_update e ev ?pm ?rd2 = (br_put (be_event_id ev) pm' s' ?rd2, Some (data, be_timestamp ev))"
      "mf_attached s' k" "\<not> mf_auto_sanitizing (ms_file s')" "ms_world s' = br_world ?rd2" .
  show ?thesis
  proof (rule that)
    show "br_step e domain ev (rd, h, msgs, ok) = Some (br_put i pm' s' ?rd2, i # h, msgs @ [(data, be_timestamp ev)], ok)"
    proof (cases "om_find id (br_files rd) i")
      case None
      then show ?thesis using c(1,2) u(1) I unfolding br_step_def by (simp add: br_put_same Let_def)
    next
      case (Some q)
      then show ?thesis using c(1,2) u(1) I br_put_same [of i q rd q] unfolding br_step_def by (simp add: Let_def)
    qed
    show "br_ready domain i (br_put i pm' s' ?rd2) k" using R u(2,3) by (intro br_ready_put) (simp_all add: br_ready_def)
  qed (use u(4) st2 in simp)
qed

subsection \<open>A round of the registration\<close>

definition rl_seen :: "broadcast \<Rightarrow> bc_writer \<Rightarrow> broadcast \<Rightarrow> bc_reader \<Rightarrow> broadcast \<times> bc_reader" where
  "rl_seen bS w bR rd = (bc_see (ms_world (bc_mem bS)) bR, rd\<lparr>br_world := ms_world (bwr_mem w)\<rparr>)"

text \<open>The sender sends, then the receiver looks: whether the sending succeeded, and the samples that are applied.\<close>

definition reg_round ::
  "('s list \<Rightarrow> u8 list option) \<Rightarrow> (u8 list \<Rightarrow> 's list option) \<Rightarrow> bwr_env \<Rightarrow> bc_env \<Rightarrow> br_env \<Rightarrow> nat \<Rightarrow> 's list \<Rightarrow> reg_link \<Rightarrow>
   (bool \<times> 's list \<times> reg_link) option" where
  "reg_round ser de e be re fuel samples l =
     (case rs_SendSampleList ser e samples (rl_bS l) (rl_w l) of
        None \<Rightarrow> None
      | Some (ok, bS, w) \<Rightarrow>
          (let (bR, rd) = rl_seen bS w (rl_bR l) (rl_rd l)
           in map_option (\<lambda>(applied, bR, rd). (ok, applied, \<lparr>rl_bS = bS, rl_w = w, rl_bR = bR, rl_rd = rd\<rparr>))
                (rr_Receive de be re fuel bR rd)))"

definition rl_ready :: "reg_link \<Rightarrow> nat \<Rightarrow> nat \<Rightarrow> nat \<Rightarrow> bool" where
  "rl_ready l i k cap \<longleftrightarrow> bc_open (rl_bS l) i \<and> bc_open (bc_see (ms_world (bc_mem (rl_bS l))) (rl_bR l)) i \<and>
     bc_domain (rl_bR l) = bc_domain (rl_bS l) \<and> bc_queue_size (rl_bR l) = bc_queue_size (rl_bS l) \<and>
     bwr_ready (rl_bS l) (rl_w l) k cap \<and> br_ready (bc_domain (rl_bR l)) (bwr_event_id (rl_w l)) (rl_rd l) k \<and>
     (\<forall>ev \<in> set (cq_list (bm_queue (bc_memory_at (rl_bS l) i))). sint (be_timestamp ev) \<le> sint (bc_last_timestamp (rl_bR l)))"

text \<open>The round finds its locks free, the samples fit, and the clock has advanced since the last event.\<close>

definition reg_decoded :: "('s list \<Rightarrow> u8 list option) \<Rightarrow> (u8 list \<Rightarrow> 's list option) \<Rightarrow> 's list \<Rightarrow> 's list option" where
  "reg_decoded ser de samples = Option.bind (ser samples) de"

definition re_fits :: "('s list \<Rightarrow> u8 list option) \<Rightarrow> (u8 list \<Rightarrow> 's list option) \<Rightarrow> nat \<Rightarrow> i64 \<Rightarrow> bwr_env \<Rightarrow> bc_env \<Rightarrow> br_env \<Rightarrow> u64 \<Rightarrow> 's list \<Rightarrow> bool" where
  "re_fits ser de cap t0 e be re i samples \<longleftrightarrow>
     (\<exists>bs. ser samples = Some bs \<and> bs \<noteq> [] \<and> length bs \<le> cap) \<and> reg_decoded ser de samples \<noteq> None \<and>
     se_mmap_ok (wv_shm e) \<and> (\<exists>r. wv_lk_write e = LkOk r) \<and> bv_ok (wv_updated e) \<and> bv_ok be \<and>
     se_mmap_ok (rv_shm re) \<and> rv_mtx_ok re \<and> (\<exists>r. rv_lk_create re i = LkOk r) \<and> (\<exists>r. rv_lk_read re i = LkOk r) \<and>
     sint t0 < sint (bv_now (wv_updated e))"

lemma cq_list_Push_last:
  assumes "cq_inv q"
  obtains xs where "cq_list (cq_Push q ev) = xs @ [ev]" "set xs \<subseteq> set (cq_list q)"
proof (cases "length (cq_list q) < cq_cap q")
  case False
  have "set (tl (cq_list q)) \<subseteq> set (cq_list q)" by (cases "cq_list q") auto
  then show ?thesis using False cq_list_Push [OF assms, of ev] by (intro that [of "tl (cq_list q)"]) simp_all
qed (use cq_list_Push [OF assms, of ev] that [of "cq_list q"] in simp)

lemma queue_events_after:
  assumes "cq_inv q" "\<forall>x \<in> set (cq_list q). old x" "\<not> old ev"
  shows "takeWhile (\<lambda>x. \<not> old x) (rev (cq_list (cq_Push q ev))) = [ev]"
proof -
  from cq_list_Push_last [OF assms(1), of ev] obtain xs where
    xs: "cq_list (cq_Push q ev) = xs @ [ev]" "set xs \<subseteq> set (cq_list q)" .
  have "takeWhile (\<lambda>x. \<not> old x) (rev xs) = []" using xs(2) assms(2) by (cases xs rule: rev_cases) auto
  then show ?thesis using assms(3) xs(1) by simp
qed

lemma reg_round_ok:
  assumes L: "rl_ready l i k cap" and F: "unat (bc_queue_size (rl_bR l)) \<le> fuel"
    and E: "re_fits ser de cap (bc_last_timestamp (rl_bR l)) e be re (bwr_event_id (rl_w l)) samples"
  obtains l' where "reg_round ser de e be re fuel samples l = Some (True, the (reg_decoded ser de samples), l')" "rl_ready l' i k cap"
    "bc_last_timestamp (rl_bR l') = bv_now (wv_updated e)" "bwr_event_id (rl_w l') = bwr_event_id (rl_w l)"
    "bc_queue_size (rl_bR l') = bc_queue_size (rl_bR l)"
proof -
  let ?bS = "rl_bS l" and ?w = "rl_w l" and ?bR = "rl_bR l" and ?rd = "rl_rd l"
  have r: "bc_open ?bS i" "bc_open (bc_see (ms_world (bc_mem ?bS)) ?bR) i" "bc_domain ?bR = bc_domain ?bS"
    "bc_queue_size ?bR = bc_queue_size ?bS" "bwr_ready ?bS ?w k cap" "br_ready (bc_domain ?bR) (bwr_event_id ?w) ?rd k"
    "\<forall>ev \<in> set (cq_list (bm_queue (bc_memory_at ?bS i))). sint (be_timestamp ev) \<le> sint (bc_last_timestamp ?bR)"
    using L unfolding rl_ready_def by blast+
  obtain bs out r1 r2 r3 where e: "ser samples = Some bs" "bs \<noteq> []" "length bs \<le> cap" "de bs = Some out" "se_mmap_ok (wv_shm e)"
    "wv_lk_write e = LkOk r1" "bv_ok (wv_updated e)" "bv_ok be" "se_mmap_ok (rv_shm re)" "rv_mtx_ok re"
    "rv_lk_create re (bwr_event_id ?w) = LkOk r2" "rv_lk_read re (bwr_event_id ?w) = LkOk r3"
    "sint (bc_last_timestamp ?bR) < sint (bv_now (wv_updated e))"
    using E by (auto simp: re_fits_def reg_decoded_def)
  let ?ev = "\<lparr>be_process_id = bv_pid (wv_updated e), be_timestamp = bv_now (wv_updated e), be_event_id = bwr_event_id ?w, be_type = BcUpdated\<rparr>"
  from bwr_Write_ok [OF r(5,1) e(2,3,5,6,7)] obtain m m' where
    w: "bwr_Write e bs ?bS ?w = Some (True, ?bS\<lparr>bc_mem := m\<rparr>, ?w\<lparr>bwr_mem := m'\<rparr>)" "bc_open (?bS\<lparr>bc_mem := m\<rparr>) i"
      "so_payload (mf_object m i) = bc_push (bv_now (wv_updated e)) ?ev (bc_memory_at ?bS i)" "bwr_ready ?bS (?w\<lparr>bwr_mem := m'\<rparr>) k cap"
      "mf_object m' k = so_write 0 bs (mf_object (bwr_mem ?w) k)" .
  let ?bR1 = "bc_see (ms_world m) ?bR" and ?rd1 = "?rd\<lparr>br_world := ms_world m'\<rparr>"
  have pay: "so_payload (sw_objects (ms_world m) i) = bc_push (bv_now (wv_updated e)) ?ev (bc_memory_at ?bS i)"
    using w(3) by (simp add: mf_object_def)
  have oR: "bc_open ?bR1 i" using r(2,4) w(2) by (simp add: bc_open_see) (simp add: bc_open_def mf_object_def)
  have fu: "unat (bc_queue_size ?bR1) \<le> fuel" using F by simp
  have qi: "cq_inv (bm_queue (bc_memory_at ?bS i))" using r(1) by (simp add: bc_open_def bm_ok_def)
  have tw: "takeWhile (\<lambda>x. \<not> bc_old (bv_now be) 0 (bc_last_timestamp ?bR1) x) (rev (cq_list (bm_queue (bc_memory_at ?bR1 i)))) = [?ev]"
    using queue_events_after [OF qi, of "bc_old (bv_now be) 0 (bc_last_timestamp ?bR)" ?ev] r(7) e(13)
    by (simp add: pay bc_push_def bc_old_no_timeout)
  obtain mR where rcv: "bc_ReceiveEvents be fuel 0 True ?bR1 = Some (True, Some [?ev],
      ?bR1\<lparr>bc_mem := mR, bc_buffer := bc_memory_at ?bR1 i, bc_last_timestamp := bm_timestamp (bc_memory_at ?bR1 i)\<rparr>)"
    "bc_open (?bR1\<lparr>bc_mem := mR, bc_buffer := bc_memory_at ?bR1 i, bc_last_timestamp := bm_timestamp (bc_memory_at ?bR1 i)\<rparr>) i"
    "ms_world mR = ms_world (bc_mem ?bR1)"
    using bc_ReceiveEvents_ok [OF oR e(8) fu, of 0 True] unfolding tw by auto
  let ?bR2 = "?bR1\<lparr>bc_mem := mR, bc_buffer := bc_memory_at ?bR1 i, bc_last_timestamp := bm_timestamp (bc_memory_at ?bR1 i)\<rparr>"
  let ?rd2 = "?rd1\<lparr>br_events := [?ev]\<rparr>"
  have st: "br_state ?rd2 pm = (br_state ?rd pm)\<lparr>ms_world := ms_world m'\<rparr>" for pm by (simp add: br_state_def)
  have at: "mf_attached (s\<lparr>ms_world := x\<rparr>) k = mf_attached s k" for s :: "u8 list mf_state" and x
    using mf_mem_cong [of "s\<lparr>ms_world := x\<rparr>" s] by (simp add: mf_attached_def)
  have R: "br_ready (bc_domain ?bR) (bwr_event_id ?w) ?rd2 k"
    using r(6) by (simp add: br_ready_def st at split: option.splits)
  have wr: "so_valid (mf_object m' k)" "so_max (mf_object m' k) = cap"
    "sw_names (ms_world m') (shm_posix_name (BuildPayloadMemfileName (bc_domain ?bS) (bwr_event_id ?w))) = Some k"
    using w(4) by (simp_all add: bwr_ready_def)
  have V: "so_valid (sw_objects (br_world ?rd2) k)" using wr(1) by (simp add: mf_object_def)
  have N: "sw_names (br_world ?rd2) (shm_posix_name (BuildPayloadMemfileName (bc_domain ?bR) (bwr_event_id ?w))) = Some k"
    using wr(3) r(3) by simp
  have ob: "sw_objects (br_world ?rd2) k = so_write 0 bs (mf_object (bwr_mem ?w) k)" using w(5) by (simp add: mf_object_def)
  have ln: "unat (word_of_nat (length bs) :: u64) = length bs"
    using word_sum_fits(4) [of "0 :: u64" "length bs" "ih_max_data_size (so_header (mf_object m' k))"] e(3) wr(2) by simp
  have H: "unat (ih_cur_data_size (so_header (sw_objects (br_world ?rd2) k))) = length bs"
    "take (length bs) (so_payload (sw_objects (br_world ?rd2) k)) = bs"
    unfolding ob so_write_simps using ln by (simp_all add: splice_def)
  have "bwr_event_id ?w \<notin> set []" by simp
  from br_step_ok [OF R _ _ this N V H e(2) e(9,10,11,12), of ?ev "[]" True] obtain rd3 where
    s: "br_step re (bc_domain ?bR) ?ev (?rd2, [], [], True) = Some (rd3, [bwr_event_id ?w], [(bs, bv_now (wv_updated e))], True)"
      "br_ready (bc_domain ?bR) (bwr_event_id ?w) rd3 k" "br_world rd3 = ms_world m'" by auto
  have bd: "br_bound ?rd1" using r(6) by (simp add: br_ready_def)
  have dom: "bc_domain ?bR1 = bc_domain ?bR" by (simp add: bc_see_def)
  let ?l = "\<lparr>rl_bS = ?bS\<lparr>bc_mem := m\<rparr>, rl_w = ?w\<lparr>bwr_mem := m'\<rparr>, rl_bR = ?bR2, rl_rd = rd3\<rparr>"
  have "br_Read be re fuel 0 ?bR1 ?rd1 = Some (True, [(bs, bv_now (wv_updated e))], ?bR2, rd3)"
    using bd rcv(1) s(1) dom by (simp add: br_Read_def)
  then have "reg_round ser de e be re fuel samples l = Some (True, the (reg_decoded ser de samples), ?l)"
    using e(1,2,4) w(1) by (simp add: reg_decoded_def reg_round_def rs_SendSampleList_def rl_seen_def rr_Receive_def rr_apply_def)
  moreover have "rl_ready ?l i k cap"
  proof -
    have "\<forall>x \<in> set (cq_list (cq_Push (bm_queue (bc_memory_at ?bS i)) ?ev)). sint (be_timestamp x) \<le> sint (bv_now (wv_updated e))"
    proof -
      from cq_list_Push_last [OF qi, of ?ev] obtain xs where
        "cq_list (cq_Push (bm_queue (bc_memory_at ?bS i)) ?ev) = xs @ [?ev]" "set xs \<subseteq> set (cq_list (bm_queue (bc_memory_at ?bS i)))" .
      then show ?thesis using r(7) e(13) by fastforce
    qed
    moreover have "bc_open (bc_see (ms_world m) ?bR2) i"
    proof -
      have "bc_see (ms_world m) ?bR2 = ?bR2" using rcv(3) by (simp add: bc_see_def)
      then show ?thesis using rcv(2) by simp
    qed
    ultimately show ?thesis using w(2,3,4) s(2) r(3,4) dom pay
      by (simp add: rl_ready_def bc_push_def bwr_ready_def)
  qed
  ultimately show ?thesis using pay by (intro that [of ?l]) (simp_all add: bc_push_def)
qed

subsection \<open>Round after round\<close>

type_synonym 's reg_input = "bwr_env \<times> bc_env \<times> br_env \<times> 's list"

fun reg_stream ::
  "('s list \<Rightarrow> u8 list option) \<Rightarrow> (u8 list \<Rightarrow> 's list option) \<Rightarrow> nat \<Rightarrow> 's reg_input list \<Rightarrow> reg_link \<Rightarrow>
   ((bool \<times> 's list) list \<times> reg_link) option" where
  "reg_stream ser de fuel [] l = Some ([], l)"
| "reg_stream ser de fuel ((e, be, re, samples) # xs) l =
     (case reg_round ser de e be re fuel samples l of
        None \<Rightarrow> None
      | Some (ok, applied, l) \<Rightarrow> map_option (\<lambda>(rs, l). ((ok, applied) # rs, l)) (reg_stream ser de fuel xs l))"

fun reg_in_time :: "('s list \<Rightarrow> u8 list option) \<Rightarrow> (u8 list \<Rightarrow> 's list option) \<Rightarrow> nat \<Rightarrow> u64 \<Rightarrow> i64 \<Rightarrow> 's reg_input list \<Rightarrow> bool" where
  "reg_in_time ser de cap i t [] = True"
| "reg_in_time ser de cap i t ((e, be, re, samples) # xs) =
     (re_fits ser de cap t e be re i samples \<and> reg_in_time ser de cap i (bv_now (wv_updated e)) xs)"

text \<open>
  When the two processes have their files open and the lists of samples fit into the payload file, every list
  the sender sends is applied by the receiver exactly once, in the round in which it is sent, for any
  serialization whose result can be read.
\<close>

lemma registration_delivery:
  assumes "rl_ready l i k cap" "unat (bc_queue_size (rl_bR l)) \<le> fuel"
    "reg_in_time ser de cap (bwr_event_id (rl_w l)) (bc_last_timestamp (rl_bR l)) xs"
  shows "\<exists>l'. reg_stream ser de fuel xs l = Some (map (\<lambda>(_, _, _, samples). (True, the (reg_decoded ser de samples))) xs, l')"
  using assms
proof (induction xs arbitrary: l)
  case (Cons x xs)
  obtain e be re samples where x: "x = (e, be, re, samples)" by (cases x)
  have "re_fits ser de cap (bc_last_timestamp (rl_bR l)) e be re (bwr_event_id (rl_w l)) samples" using Cons.prems(3) by (simp add: x)
  from reg_round_ok [OF Cons.prems(1,2) this] obtain l' where
    l': "reg_round ser de e be re fuel samples l = Some (True, the (reg_decoded ser de samples), l')"
    "rl_ready l' i k cap" "bc_last_timestamp (rl_bR l') = bv_now (wv_updated e)" "bwr_event_id (rl_w l') = bwr_event_id (rl_w l)"
    "bc_queue_size (rl_bR l') = bc_queue_size (rl_bR l)" .
  have "\<exists>l''. reg_stream ser de fuel xs l' = Some (map (\<lambda>(_, _, _, samples). (True, the (reg_decoded ser de samples))) xs, l'')"
    by (rule Cons.IH) (use l' Cons.prems(2,3) in \<open>simp_all add: x\<close>)
  then show ?case using l'(1) by (auto simp: x)
qed simp

definition wit_writer :: bc_writer where
  "wit_writer = \<lparr>bwr_bound = True, bwr_reset = False, bwr_event_id = 2, bwr_mem =
     \<lparr>ms_file = mf_new\<lparr>mf_created := True, mf_header := \<lparr>ih_size = 24, ih_cur_data_size = 0, ih_max_data_size = 100\<rparr>, mf_info := Some 0\<rparr>,
      ms_world = \<lparr>sw_names = (\<lambda>_. Some 0), sw_objects = (\<lambda>_. \<lparr>so_size = 4096,
        so_header = \<lparr>ih_size = 24, ih_cur_data_size = 0, ih_max_data_size = 100\<rparr>, so_payload = replicate 100 0\<rparr>), sw_next = 1\<rparr>,
      ms_map = \<lparr>fm_map = [], fm_infos = (\<lambda>_. mfi_new\<lparr>mfi_memfile := Some 0, mfi_mapped := True, mfi_size := 4096\<rparr>), fm_next = 1\<rparr>\<rparr>\<rparr>"

definition wit_link :: reg_link where
  "wit_link = \<lparr>rl_bS = wit_bc, rl_w = wit_writer, rl_bR = wit_bc, rl_rd = wit_reader\<rparr>"

definition wit_wv :: "i64 \<Rightarrow> bwr_env" where
  "wit_wv now = \<lparr>wv_shm = \<lparr>se_ops = bytes_ops, se_page_size = 4096, se_mmap_ok = True\<rparr>, wv_now = now, wv_mtx_ok = True,
     wv_lk_create = LkOk False, wv_lk_write = LkOk False, wv_removed = wit_bv 10 now, wv_created = wit_bv 10 now, wv_updated = wit_bv 10 now\<rparr>"

lemma wit_link_ready: "rl_ready wit_link 0 0 100"
proof -
  have s: "bc_see (ms_world (bc_mem wit_bc)) wit_bc = wit_bc" "ms_world (bc_mem wit_bc) = wit_bc_world"
    by (simp_all add: bc_see_def wit_bc_def)
  have o: "bc_open (bc_see wit_bc_world wit_bc) 0" using wit_bc_system by (simp add: bc_system_def)
  have q: "bm_queue (bc_memory_at wit_bc 0) = cq_Reset (bm_queue (mo_zero bc_ops 152)) 3"
    by (simp add: wit_bc_def wit_bc_world_def mf_object_def bc_ResetMemfile_def)
  have w: "bwr_ready wit_bc wit_writer 0 100"
    by (simp add: bwr_ready_def wit_writer_def mf_attached_def mf_mem_def so_valid_def mf_object_def mf_MaxDataSize_def mf_new_def)
  show ?thesis unfolding rl_ready_def
    using s o w q by (simp add: wit_link_def br_ready_def wit_reader_def br_new_def fm_new_def cq_list_def cq_Reset_def)
qed

end
