(* ===== verification/Protozero.thy ===== *)
theory Protozero
  imports Core_Types
begin

text \<open>
  The interface of the protozero library the serializers are written against, and
  \<open>ecal/core/src/serialization/protozero/ecal_helper.h\<close>. The library itself is not part of the repository: its
  messages are an argument of the model, a record of the functions the code calls, with their documented
  behaviour as the predicate \<open>pz_ok\<close>. At the end the wire format of protocol buffers, as one instance of it.

  A reader that stands in front of a message is the list of its fields, with False when reading on ends in
  an exception (a truncated or malformed message). A writer is the list of fields it has written.
\<close>

type_synonym 'f pz_message = "'f list \<times> bool"

record 'f pz =
  z_tag :: "'f \<Rightarrow> nat"
  z_add_int32 :: "nat \<Rightarrow> i32 \<Rightarrow> 'f"
  z_add_int64 :: "nat \<Rightarrow> i64 \<Rightarrow> 'f"
  z_add_uint32 :: "nat \<Rightarrow> u32 \<Rightarrow> 'f"
  z_add_bool :: "nat \<Rightarrow> bool \<Rightarrow> 'f"
  z_add_enum :: "nat \<Rightarrow> i32 \<Rightarrow> 'f"
  z_add_view :: "nat \<Rightarrow> u8 list \<Rightarrow> 'f"
  z_add_message :: "nat \<Rightarrow> 'f list \<Rightarrow> 'f list"
  z_get_int32 :: "'f \<Rightarrow> i32 option"
  z_get_int64 :: "'f \<Rightarrow> i64 option"
  z_get_uint32 :: "'f \<Rightarrow> u32 option"
  z_get_bool :: "'f \<Rightarrow> bool option"
  z_get_enum :: "'f \<Rightarrow> i32 option"
  z_get_view :: "'f \<Rightarrow> u8 list option"
  z_get_message :: "'f \<Rightarrow> 'f pz_message option"
  z_data :: "'f list \<Rightarrow> u8 list"
  z_read :: "u8 list \<Rightarrow> 'f pz_message"

text \<open>
  What is written is read back, field by field and in order. A sub-writer that has written nothing may leave
  no trace in the message of its parent.
\<close>

definition pz_message_ok :: "'f pz \<Rightarrow> bool" where
  "pz_message_ok z \<longleftrightarrow> (\<forall>t fs. z_add_message z t fs = [] \<and> fs = [] \<or>
     (\<exists>f. z_add_message z t fs = [f] \<and> z_tag z f = t \<and> z_get_message z f = Some (fs, True)))"

definition pz_ok :: "'f pz \<Rightarrow> bool" where
  "pz_ok z \<longleftrightarrow>
     (\<forall>t x. z_tag z (z_add_int32 z t x) = t \<and> z_get_int32 z (z_add_int32 z t x) = Some x) \<and>
     (\<forall>t x. z_tag z (z_add_int64 z t x) = t \<and> z_get_int64 z (z_add_int64 z t x) = Some x) \<and>
     (\<forall>t x. z_tag z (z_add_uint32 z t x) = t \<and> z_get_uint32 z (z_add_uint32 z t x) = Some x) \<and>
     (\<forall>t x. z_tag z (z_add_bool z t x) = t \<and> z_get_bool z (z_add_bool z t x) = Some x) \<and>
     (\<forall>t x. z_tag z (z_add_enum z t x) = t \<and> z_get_enum z (z_add_enum z t x) = Some x) \<and>
     (\<forall>t x. z_tag z (z_add_view z t x) = t \<and> z_get_view z (z_add_view z t x) = Some x) \<and>
     pz_message_ok z \<and> (\<forall>fs. z_read z (z_data z fs) = (fs, True))"

lemma pz_fields:
  assumes "pz_ok z"
  shows "z_tag z (z_add_int32 z t a) = t" "z_get_int32 z (z_add_int32 z t a) = Some a"
    "z_tag z (z_add_int64 z t b) = t" "z_get_int64 z (z_add_int64 z t b) = Some b"
    "z_tag z (z_add_uint32 z t c) = t" "z_get_uint32 z (z_add_uint32 z t c) = Some c"
    "z_tag z (z_add_bool z t d) = t" "z_get_bool z (z_add_bool z t d) = Some d"
    "z_tag z (z_add_enum z t e) = t" "z_get_enum z (z_add_enum z t e) = Some e"
    "z_tag z (z_add_view z t v) = t" "z_get_view z (z_add_view z t v) = Some v"
    "z_read z (z_data z fs) = (fs, True)"
  using assms by (simp_all add: pz_ok_def)

lemma pz_message:
  assumes "pz_ok z"
  shows "z_add_message z t fs = [] \<and> fs = [] \<or>
    (\<exists>f. z_add_message z t fs = [f] \<and> z_tag z f = t \<and> z_get_message z f = Some (fs, True))"
proof -
  have "pz_message_ok z" using assms by (simp add: pz_ok_def)
  then show ?thesis unfolding pz_message_ok_def by blast
qed

subsection \<open>Strings\<close>

definition string_bytes :: "string \<Rightarrow> u8 list" where
  "string_bytes s = map (\<lambda>c. word_of_nat (of_char c)) s"

definition bytes_string :: "u8 list \<Rightarrow> string" where
  "bytes_string bs = map (\<lambda>b. char_of (unat b)) bs"

lemma bytes_string_bytes [simp]: "bytes_string (string_bytes s) = s"
proof -
  have "char_of (unat (word_of_nat (of_char c) :: u8)) = c" for c :: char
  proof -
    have "unat (word_of_nat (of_char c) :: u8) = of_char c"
      by (simp add: unat_of_nat)
    then show ?thesis by simp
  qed
  then show ?thesis by (simp add: bytes_string_def string_bytes_def o_def)
qed

definition z_add_string :: "'f pz \<Rightarrow> nat \<Rightarrow> string \<Rightarrow> 'f" where
  "z_add_string z t s = z_add_view z t (string_bytes s)"

text \<open>\<open>std::stoull\<close> of the standard library, base 10; \<open>None\<close> is an exception.\<close>

definition is_space :: "char \<Rightarrow> bool" where
  "is_space c \<longleftrightarrow> of_char c = (32 :: nat) \<or> 9 \<le> (of_char c :: nat) \<and> of_char c \<le> (13 :: nat)"

definition is_digit :: "char \<Rightarrow> bool" where
  "is_digit c \<longleftrightarrow> 48 \<le> (of_char c :: nat) \<and> of_char c \<le> (57 :: nat)"

definition digits_value :: "string \<Rightarrow> nat" where
  "digits_value ds = foldl (\<lambda>a c. a * 10 + (of_char c - 48)) 0 ds"

definition std_stoull :: "string \<Rightarrow> u64 option" where
  "std_stoull s =
     (let s = dropWhile is_space s;
          neg = (case s of c # _ \<Rightarrow> c = CHR ''-'' | [] \<Rightarrow> False);
          s = (case s of c # cs \<Rightarrow> if c = CHR ''-'' \<or> c = CHR ''+'' then cs else s | [] \<Rightarrow> s);
          ds = takeWhile is_digit s; n = digits_value ds
      in if ds = [] \<or> n \<ge> 2 ^ 64 then None
         else Some (if neg then - word_of_nat n else word_of_nat n))"

definition str_u64 :: "u64 \<Rightarrow> string" where
  "str_u64 x = str_nat 10 (unat x)"

lemma str_digit_props:
  assumes "d < 10"
  shows "is_digit (str_digit d)" "of_char (str_digit d) - (48 :: nat) = d" "\<not> is_space (str_digit d)"
    "str_digit d \<noteq> CHR ''-''" "str_digit d \<noteq> CHR ''+''"
proof -
  have c: "of_char (str_digit d) = 48 + d" using assms by (simp add: str_digit_def of_char_of)
  show "is_digit (str_digit d)" "of_char (str_digit d) - (48 :: nat) = d" "\<not> is_space (str_digit d)"
    using c assms by (simp_all add: is_digit_def is_space_def)
  show "str_digit d \<noteq> CHR ''-''" "str_digit d \<noteq> CHR ''+''" using c by auto
qed

lemma str_nat_10:
  "str_nat 10 n \<noteq> [] \<and> (\<forall>c \<in> set (str_nat 10 n). \<exists>d < 10. c = str_digit d) \<and> digits_value (str_nat 10 n) = n"
proof (induction n rule: less_induct)
  case (less n)
  show ?case
  proof (cases "n < 10")
    case True
    then show ?thesis using str_digit_props(2) [OF True] by (auto simp: str_nat.simps [of 10 n] digits_value_def)
  next
    case False
    have u: "str_nat 10 n = str_nat 10 (n div 10) @ [str_digit (n mod 10)]" using False by (simp add: str_nat.simps [of 10 n])
    note IH = less.IH [of "n div 10"]
    have m: "n mod 10 < 10" by simp
    show ?thesis using IH False str_digit_props(2) [OF m] m unfolding u digits_value_def by (simp, blast)
  qed
qed

lemma stoull_str_u64 [simp]: "std_stoull (str_u64 x) = Some x"
proof -
  let ?s = "str_nat 10 (unat x)"
  obtain c cs where s: "?s = c # cs" using str_nat_10 [of "unat x"] by (cases ?s) auto
  have d: "\<forall>y \<in> set ?s. is_digit y \<and> \<not> is_space y \<and> y \<noteq> CHR ''-'' \<and> y \<noteq> CHR ''+''"
    using str_nat_10 [of "unat x"] str_digit_props by fastforce
  then have t: "takeWhile is_digit cs = cs" "dropWhile is_space ?s = ?s" using s by (auto simp: takeWhile_eq_all_conv)
  have n: "digits_value ?s = unat x" using str_nat_10 by blast
  have ds: "takeWhile is_digit (c # cs) = c # cs" using t(1) s d by (simp del: takeWhile_eq_all_conv)
  have v: "digits_value (c # cs) = unat x" using n s by simp
  have "\<not> 2 ^ 64 \<le> unat x" by (simp add: not_le)
  then show ?thesis unfolding std_stoull_def str_u64_def t(2) s using d s
    by (simp add: ds v Let_def del: takeWhile.simps)
qed

subsection \<open>Reading a message\<close>

text \<open>How a function that reads ends: normally or by an exception.\<close>

datatype read_state = RdOk | RdException

type_synonym 's reading = "'s \<Rightarrow> read_state \<times> 's"

definition rd_set :: "'a option \<Rightarrow> ('a \<Rightarrow> 's \<Rightarrow> 's) \<Rightarrow> 's reading" where
  "rd_set x upd s = (case x of None \<Rightarrow> (RdException, s) | Some a \<Rightarrow> (RdOk, upd a s))"

text \<open>
  An enumeration: the number is cast, whether it has an enumerator or not. (For a number that needs more bits than the
  enumerators the C++ standard leaves the cast undefined; compilers keep the number, as is done here.)
\<close>

definition rd_enum :: "i32 option \<Rightarrow> (int \<Rightarrow> 'e) \<Rightarrow> ('e \<Rightarrow> 's \<Rightarrow> 's) \<Rightarrow> 's reading" where
  "rd_enum x of_num upd s =
     (case x of
        None \<Rightarrow> (RdException, s)
      | Some n \<Rightarrow> (RdOk, upd (of_num (sint n)) s))"

definition rd_skip :: "'s reading" where "rd_skip s = (RdOk, s)"

text \<open>\<open>while (reader.next()) switch (reader.tag())\<close>: \<open>step\<close> is the switch.\<close>

fun rd_loop :: "('f \<Rightarrow> 's reading) \<Rightarrow> 'f list \<Rightarrow> 's reading" where
  "rd_loop step [] s = (RdOk, s)"
| "rd_loop step (f # fs) s =
     (case step f s of (RdOk, s) \<Rightarrow> rd_loop step fs s | (r, s) \<Rightarrow> (r, s))"

definition rd_message :: "('f \<Rightarrow> 's reading) \<Rightarrow> 'f pz_message \<Rightarrow> 's reading" where
  "rd_message step m s =
     (case rd_loop step (fst m) s of
        (RdOk, s) \<Rightarrow> (if snd m then RdOk else RdException, s)
      | (r, s) \<Rightarrow> (r, s))"

definition AssignString :: "'f pz \<Rightarrow> 'f \<Rightarrow> (string \<Rightarrow> 's \<Rightarrow> 's) \<Rightarrow> 's reading" where
  "AssignString z f upd = rd_set (z_get_view z f) (\<lambda>v. upd (bytes_string v))"

definition AssignBytes :: "'f pz \<Rightarrow> 'f \<Rightarrow> (u8 list \<Rightarrow> 's \<Rightarrow> 's) \<Rightarrow> 's reading" where
  "AssignBytes z f upd = rd_set (z_get_view z f) upd"

text \<open>A number that is written as a string.\<close>

definition AssignId :: "'f pz \<Rightarrow> 'f \<Rightarrow> (u64 \<Rightarrow> 's \<Rightarrow> 's) \<Rightarrow> 's reading" where
  "AssignId z f upd = rd_set (Option.bind (z_get_view z f) (\<lambda>v. std_stoull (bytes_string v))) upd"

definition AssignMessage ::
  "'f pz \<Rightarrow> 'f \<Rightarrow> ('s \<Rightarrow> 'a) \<Rightarrow> (('a \<Rightarrow> 'a) \<Rightarrow> 's \<Rightarrow> 's) \<Rightarrow> ('f pz_message \<Rightarrow> 'a reading) \<Rightarrow> 's reading" where
  "AssignMessage z f get upd convert s =
     (case z_get_message z f of
        None \<Rightarrow> (RdException, s)
      | Some m \<Rightarrow> (let (r, a) = convert m (get s) in (r, upd (\<lambda>_. a) s)))"

text \<open>The new element is the one \<open>push_back()\<close> of the expanding vector hands out.\<close>

definition AddRepeatedMessage ::
  "'f pz \<Rightarrow> 'f \<Rightarrow> 'a \<Rightarrow> ('s \<Rightarrow> 'a evec) \<Rightarrow> (('a evec \<Rightarrow> 'a evec) \<Rightarrow> 's \<Rightarrow> 's) \<Rightarrow> ('f pz_message \<Rightarrow> 'a reading) \<Rightarrow> 's reading" where
  "AddRepeatedMessage z f d get upd convert s =
     (case z_get_message z f of
        None \<Rightarrow> (RdException, s)
      | Some m \<Rightarrow>
          (let v = ev_push_back_ref d (get s);
               (r, a) = convert m (ev_data v ! (ev_size v - 1))
           in (r, upd (\<lambda>_. ev_set_back v (\<lambda>_. a)) s)))"

lemma rd_sets [simp]:
  "rd_set (Some a) upd s = (RdOk, upd a s)" "rd_set None upd s = (RdException, s)" "rd_skip s = (RdOk, s)"
  by (simp_all add: rd_set_def rd_skip_def)

lemma rd_loop_append:
  "rd_loop step (xs @ ys) s = (case rd_loop step xs s of (RdOk, s) \<Rightarrow> rd_loop step ys s | (r, s) \<Rightarrow> (r, s))"
proof (induction xs arbitrary: s)
  case (Cons f xs)
  obtain r s' where "step f s = (r, s')" by (cases "step f s")
  then show ?case using Cons by (cases r) simp_all
qed simp

lemma rd_loop_ok_append: "rd_loop step xs s = (RdOk, s') \<Longrightarrow> rd_loop step (xs @ ys) s = rd_loop step ys s'"
  by (simp add: rd_loop_append)

lemma rd_message_complete [simp]: "rd_message step (fs, True) s = rd_loop step fs s"
proof -
  obtain r s' where "rd_loop step fs s = (r, s')" by (cases "rd_loop step fs s")
  then show ?thesis by (cases r) (simp_all add: rd_message_def)
qed

text \<open>A sub-message the parent may have dropped because it is empty.\<close>

lemma rd_submessage:
  assumes "pz_ok z" "\<And>f. z_tag z f = t \<Longrightarrow> step f = AssignMessage z f get upd convert"
    "convert (fs, True) (get s) = (RdOk, a)" "fs = [] \<Longrightarrow> upd (\<lambda>_. a) s = s"
  shows "rd_loop step (z_add_message z t fs) s = (RdOk, upd (\<lambda>_. a) s)"
proof -
  consider (gone) "z_add_message z t fs = []" "fs = []"
    | (there) f where "z_add_message z t fs = [f]" "z_tag z f = t" "z_get_message z f = Some (fs, True)"
    using pz_message [OF assms(1), of t fs] by auto
  then show ?thesis
  proof cases
    case gone
    then show ?thesis using assms(4) by simp
  next
    case there
    then show ?thesis using assms(2) [of f] assms(3) by (simp add: AssignMessage_def)
  qed
qed

lemma AssignString_string [simp]:
  assumes "pz_ok z"
  shows "z_tag z (z_add_string z t x) = t" "AssignString z (z_add_string z t x) upd s = (RdOk, upd x s)"
  using assms by (simp_all add: z_add_string_def AssignString_def pz_fields)

lemma AssignId_id [simp]:
  "pz_ok z \<Longrightarrow> AssignId z (z_add_string z t (str_u64 x)) upd s = (RdOk, upd x s)"
  by (simp add: z_add_string_def AssignId_def pz_fields)

lemma AssignBytes_bytes [simp]:
  "pz_ok z \<Longrightarrow> AssignBytes z (z_add_view z t x) upd s = (RdOk, upd x s)"
  by (simp add: AssignBytes_def pz_fields)

text \<open>
  A repeated message, read into a vector whose unused elements all satisfy \<open>R\<close>: what is appended is
  related, element by element, to what was written.
\<close>

definition ev_slots :: "'a evec \<Rightarrow> 'a list" where
  "ev_slots v = drop (ev_size v) (ev_data v)"

lemma ev_push_element:
  assumes "ev_inv v" "\<forall>x \<in> set (ev_slots v). R x" "R d"
  obtains x where "ev_data (ev_push_back_ref d v) ! (ev_size (ev_push_back_ref d v) - 1) = x" "R x"
    "ev_inv (ev_set_back (ev_push_back_ref d v) (\<lambda>_. y))" "ev_list (ev_set_back (ev_push_back_ref d v) (\<lambda>_. y)) = ev_list v @ [y]"
    "\<forall>x \<in> set (ev_slots (ev_set_back (ev_push_back_ref d v) (\<lambda>_. y))). R x"
proof (cases "ev_size v = length (ev_data v)")
  case True
  show ?thesis
    by (rule that [of d]) (use True assms in \<open>simp_all add: ev_push_back_ref_def ev_set_back_def ev_slots_def ev_list_def ev_inv_def\<close>)
next
  case False
  then have lt: "ev_size v < length (ev_data v)" using assms(1) by (simp add: ev_inv_def)
  then have dr: "drop (ev_size v) (ev_data v) = ev_data v ! ev_size v # drop (Suc (ev_size v)) (ev_data v)"
    by (simp add: Cons_nth_drop_Suc)
  show ?thesis
    by (rule that [of "ev_data v ! ev_size v"])
      (use lt dr assms in \<open>simp_all add: ev_push_back_ref_def ev_set_back_def ev_slots_def ev_list_def ev_inv_def take_Suc_conv_app_nth\<close>)
qed

lemma rd_repeated:
  assumes Z: "pz_ok z" and S: "\<And>f. z_tag z f = t \<Longrightarrow> step f = AddRepeatedMessage z f d get upd convert"
    and U: "\<And>g s. get (upd g s) = g (get s)" "\<And>g h s. upd g (upd h s) = upd (\<lambda>v. g (h v)) s" "\<And>s. upd (\<lambda>v. v) s = s"
      "\<And>g s. upd g s = upd (\<lambda>_. g (get s)) s"
    and C: "\<And>y x. y \<in> set ys \<Longrightarrow> R x \<Longrightarrow> ser y \<noteq> [] \<and> (\<exists>x'. convert (ser y, True) x = (RdOk, x') \<and> Q y x')"
    and V: "ev_inv (get s)" "\<forall>x \<in> set (ev_slots (get s)). R x" "R d"
  shows "\<exists>v xs. rd_loop step (concat (map (\<lambda>y. z_add_message z t (ser y)) ys)) s = (RdOk, upd (\<lambda>_. v) s) \<and>
    ev_inv v \<and> ev_list v = ev_list (get s) @ xs \<and> list_all2 Q ys xs \<and> (\<forall>x \<in> set (ev_slots v). R x)"
  using C V
proof (induction ys arbitrary: s)
  case Nil
  show ?case by (rule exI [of _ "get s"], rule exI [of _ "[]"]) (use Nil(2,3) U(4) [where g = "\<lambda>v. v" and s = s] U(3) [of s] in simp)
next
  case (Cons y ys)
  let ?v = "ev_push_back_ref d (get s)"
  from ev_push_element [OF Cons.prems(2,3,4)] obtain x where x: "ev_data ?v ! (ev_size ?v - 1) = x" "R x" by metis
  obtain x' where x': "ser y \<noteq> []" "convert (ser y, True) x = (RdOk, x')" "Q y x'" using Cons.prems(1) [of y x] x(2) by auto
  from ev_push_element [OF Cons.prems(2,3,4), of x'] have w: "ev_inv (ev_set_back ?v (\<lambda>_. x'))"
    "ev_list (ev_set_back ?v (\<lambda>_. x')) = ev_list (get s) @ [x']" "\<forall>x \<in> set (ev_slots (ev_set_back ?v (\<lambda>_. x'))). R x" by metis+
  obtain f where f: "z_add_message z t (ser y) = [f]" "z_tag z f = t" "z_get_message z f = Some (ser y, True)"
    using pz_message [OF Z, of t "ser y"] x'(1) by auto
  let ?s = "upd (\<lambda>_. ev_set_back ?v (\<lambda>_. x')) s"
  have st: "step f s = (RdOk, ?s)" using S [OF f(2)] f(3) x(1) x'(2) by (simp add: AddRepeatedMessage_def)
  have "\<exists>v xs. rd_loop step (concat (map (\<lambda>y. z_add_message z t (ser y)) ys)) ?s = (RdOk, upd (\<lambda>_. v) ?s) \<and>
      ev_inv v \<and> ev_list v = ev_list (get ?s) @ xs \<and> list_all2 Q ys xs \<and> (\<forall>x \<in> set (ev_slots v). R x)"
    by (rule Cons.IH) (use Cons.prems w in \<open>simp_all add: U(1)\<close>)
  then obtain v xs where "rd_loop step (concat (map (\<lambda>y. z_add_message z t (ser y)) ys)) ?s = (RdOk, upd (\<lambda>_. v) s)"
    "ev_inv v" "ev_list v = ev_list (get s) @ x' # xs" "list_all2 Q ys xs" "\<forall>x \<in> set (ev_slots v). R x"
    by (auto simp: U(1,2) w(2))
  then show ?case using f(1) st x'(3) by (intro exI [of _ v] exI [of _ "x' # xs"]) simp
qed

subsection \<open>The wire format\<close>

text \<open>
  Protocol buffers as an instance: a field is a key (tag and wire type) with a varint or with a length and
  that many bytes. A sub-message without fields is left out.
\<close>

datatype wire_field = WVarint nat u64 | WBytes nat "u8 list"

fun wf_varint :: "nat \<Rightarrow> u8 list" where
  "wf_varint n = (if n < 128 then [word_of_nat n] else word_of_nat (128 + n mod 128) # wf_varint (n div 128))"

declare wf_varint.simps [simp del]

fun wf_get_varint :: "u8 list \<Rightarrow> (nat \<times> u8 list) option" where
  "wf_get_varint [] = None"
| "wf_get_varint (b # bs) =
     (if unat b < 128 then Some (unat b, bs)
      else map_option (\<lambda>(n, r). (unat b - 128 + 128 * n, r)) (wf_get_varint bs))"

definition wf_field :: "wire_field \<Rightarrow> u8 list" where
  "wf_field f =
     (case f of
        WVarint t v \<Rightarrow> wf_varint (t * 8) @ wf_varint (unat v)
      | WBytes t bs \<Rightarrow> wf_varint (t * 8 + 2) @ wf_varint (length bs) @ bs)"

definition wf_get_field :: "u8 list \<Rightarrow> (wire_field \<times> u8 list) option" where
  "wf_get_field bs =
     (case wf_get_varint bs of
        None \<Rightarrow> None
      | Some (key, bs) \<Rightarrow>
          (case wf_get_varint bs of
             None \<Rightarrow> None
           | Some (n, bs) \<Rightarrow>
               if key mod 8 = 0 then Some (WVarint (key div 8) (word_of_nat n), bs)
               else if key mod 8 = 2 \<and> n \<le> length bs then Some (WBytes (key div 8) (take n bs), drop n bs)
               else None))"

definition wf_data :: "wire_field list \<Rightarrow> u8 list" where
  "wf_data fs = concat (map wf_field fs)"

text \<open>The fuel is the length of the input: a field takes at least one byte.\<close>

fun wf_fields :: "nat \<Rightarrow> u8 list \<Rightarrow> wire_field pz_message" where
  "wf_fields n bs =
     (if bs = [] then ([], True)
      else case n of
        0 \<Rightarrow> ([], False)
      | Suc n \<Rightarrow>
          (case wf_get_field bs of
             None \<Rightarrow> ([], False)
           | Some (f, bs) \<Rightarrow> (let (fs, ok) = wf_fields n bs in (f # fs, ok))))"

declare wf_fields.simps [simp del]

definition wf_read :: "u8 list \<Rightarrow> wire_field pz_message" where
  "wf_read bs = wf_fields (length bs) bs"

fun wf_tag :: "wire_field \<Rightarrow> nat" where
  "wf_tag (WVarint t _) = t"
| "wf_tag (WBytes t _) = t"

fun wf_number :: "wire_field \<Rightarrow> u64 option" where
  "wf_number (WVarint _ v) = Some v"
| "wf_number _ = None"

fun wf_view :: "wire_field \<Rightarrow> u8 list option" where
  "wf_view (WBytes _ bs) = Some bs"
| "wf_view _ = None"

definition wire_pz :: "wire_field pz" where
  "wire_pz = \<lparr>z_tag = wf_tag, z_add_int32 = (\<lambda>t x. WVarint t (scast x)), z_add_int64 = WVarint,
     z_add_uint32 = (\<lambda>t x. WVarint t (ucast x)), z_add_bool = (\<lambda>t b. WVarint t (if b then 1 else 0)),
     z_add_enum = (\<lambda>t x. WVarint t (scast x)), z_add_view = WBytes,
     z_add_message = (\<lambda>t fs. if fs = [] then [] else [WBytes t (wf_data fs)]),
     z_get_int32 = (\<lambda>f. map_option ucast (wf_number f)), z_get_int64 = wf_number,
     z_get_uint32 = (\<lambda>f. map_option ucast (wf_number f)), z_get_bool = (\<lambda>f. map_option (\<lambda>v. v \<noteq> 0) (wf_number f)),
     z_get_enum = (\<lambda>f. map_option ucast (wf_number f)), z_get_view = wf_view,
     z_get_message = (\<lambda>f. map_option wf_read (wf_view f)), z_data = wf_data, z_read = wf_read\<rparr>"

lemma wf_varint_get: "wf_get_varint (wf_varint n @ bs) = Some (n, bs)"
proof (induction n rule: less_induct)
  case (less n)
  show ?case
  proof (cases "n < 128")
    case True
    then show ?thesis by (simp add: wf_varint.simps [of n] unat_of_nat)
  next
    case False
    have u: "unat (word_of_nat (128 + n mod 128) :: u8) = 128 + n mod 128"
    proof -
      have "n mod 128 < 128" by simp
      then have "128 + n mod 128 < 256" by linarith
      then show ?thesis by (simp add: unat_of_nat del: of_nat_add)
    qed
    have "wf_get_varint (wf_varint n @ bs) =
        map_option (\<lambda>(k, r). (unat (word_of_nat (128 + n mod 128) :: u8) - 128 + 128 * k, r)) (wf_get_varint (wf_varint (n div 128) @ bs))"
      using False u by (subst wf_varint.simps) (simp del: of_nat_add)
    also have "\<dots> = Some (n mod 128 + 128 * (n div 128), bs)"
      using less.IH [of "n div 128"] False unfolding u by simp
    finally show ?thesis by simp
  qed
qed

lemma wf_field_get: "wf_get_field (wf_field f @ bs) = Some (f, bs)"
proof (cases f)
  case (WBytes t b)
  have "(t * 8 + 2) mod 8 = 2" "(t * 8 + 2) div 8 = t" by presburger+
  then show ?thesis unfolding WBytes by (simp add: wf_get_field_def wf_field_def wf_varint_get del: add_2_eq_Suc')
qed (simp add: wf_get_field_def wf_field_def wf_varint_get)

lemma wf_field_nonempty: "wf_field f \<noteq> []"
proof -
  have "wf_varint n \<noteq> []" for n by (subst wf_varint.simps) simp
  then show ?thesis by (cases f) (simp_all add: wf_field_def)
qed

lemma wf_read_data: "length (wf_data fs) \<le> n \<Longrightarrow> wf_fields n (wf_data fs) = (fs, True)"
proof (induction fs arbitrary: n)
  case (Cons f fs)
  have d: "wf_data (f # fs) = wf_field f @ wf_data fs" by (simp add: wf_data_def)
  obtain m where m: "n = Suc m" "length (wf_data fs) \<le> m"
    using Cons.prems wf_field_nonempty [of f] d by (cases n) (auto, cases "wf_field f", auto)
  show ?case using Cons.IH [OF m(2)] wf_field_nonempty [of f]
    by (subst wf_fields.simps) (simp add: d m(1) wf_field_get)
qed (simp add: wf_fields.simps wf_data_def)

lemma ucast_scast_i32 [simp]: "ucast (scast (x :: i32) :: u64) = x"
  by (rule bit_word_eqI) (auto simp: bit_unsigned_iff bit_signed_iff not_le)

lemma ucast_ucast_u32 [simp]: "ucast (ucast (x :: u32) :: u64) = x"
  by (rule bit_word_eqI) (auto simp: bit_unsigned_iff not_le)

lemma wire_pz_ok: "pz_ok wire_pz"
  by (simp add: pz_ok_def pz_message_ok_def wire_pz_def wf_read_def wf_read_data)

end
