(* ===== verification/Registration_Wire.thy ===== *)
theory Registration_Wire
  imports Protozero
begin

text \<open>
  \<open>ecal/core/src/serialization/ecal_serialize_sample_registration.cpp\<close> (the protozero implementation, the one
  in use) and the data type information of \<open>ecal_serialize_common.h\<close>: registration samples as protocol buffer
  messages. A \<open>Serialize\<close> function gives the fields it writes, in order; a \<open>Deserialize\<close> function reads a
  message into a struct, field by field (\<open>_field\<close> is the switch over the tag). The numbers are the tags of
  \<open>protozero/ecal/core/pb/*.pbftags.h\<close>.
\<close>

subsection \<open>Enumerations as numbers\<close>

text \<open>\<open>_ok\<close>: the value is the only one with its number, so a number that has an enumerator is not given as a foreign one.\<close>

fun cmd_num :: "cmd_type \<Rightarrow> int" where
  "cmd_num BctNone = 0"
| "cmd_num BctSetSample = 1"
| "cmd_num BctRegPublisher = 2"
| "cmd_num BctRegSubscriber = 3"
| "cmd_num BctRegProcess = 4"
| "cmd_num BctRegService = 5"
| "cmd_num BctRegClient = 6"
| "cmd_num BctUnregPublisher = 12"
| "cmd_num BctUnregSubscriber = 13"
| "cmd_num BctUnregProcess = 14"
| "cmd_num BctUnregService = 15"
| "cmd_num BctUnregClient = 16"
| "cmd_num (BctForeign n) = sint n"

definition cmd_of_num :: "int \<Rightarrow> cmd_type" where
  "cmd_of_num n =
     (if n = 0 then BctNone
      else if n = 1 then BctSetSample
      else if n = 2 then BctRegPublisher
      else if n = 3 then BctRegSubscriber
      else if n = 4 then BctRegProcess
      else if n = 5 then BctRegService
      else if n = 6 then BctRegClient
      else if n = 12 then BctUnregPublisher
      else if n = 13 then BctUnregSubscriber
      else if n = 14 then BctUnregProcess
      else if n = 15 then BctUnregService
      else if n = 16 then BctUnregClient
      else BctForeign (word_of_int n))"

definition cmd_ok :: "cmd_type \<Rightarrow> bool" where
  "cmd_ok e \<longleftrightarrow> cmd_of_num (cmd_num e) = e"

lemma cmd_of_num_num [simp]: "cmd_ok e \<Longrightarrow> cmd_of_num (sint (word_of_int (cmd_num e) :: i32)) = e"
  by (cases e) (simp_all add: cmd_of_num_def cmd_ok_def)

lemma cmd_ok_of_num [simp]: "cmd_ok (cmd_of_num (sint (n :: i32)))"
  by (simp add: cmd_ok_def cmd_of_num_def)

lemma cmd_ok_enumerator [simp]:
  "cmd_ok BctNone" "cmd_ok BctSetSample" "cmd_ok BctRegPublisher" "cmd_ok BctRegSubscriber" "cmd_ok BctRegProcess"
  "cmd_ok BctRegService" "cmd_ok BctRegClient" "cmd_ok BctUnregPublisher" "cmd_ok BctUnregSubscriber" "cmd_ok BctUnregProcess"
  "cmd_ok BctUnregService" "cmd_ok BctUnregClient"
  by (simp_all add: cmd_ok_def cmd_of_num_def)

fun tlayer_num :: "tlayer_type \<Rightarrow> int" where
  "tlayer_num TlNone = 0"
| "tlayer_num TlEcalUdp = 1"
| "tlayer_num TlEcalShm = 4"
| "tlayer_num TlEcalTcp = 5"
| "tlayer_num TlAll = 255"
| "tlayer_num (TlForeign n) = sint n"

definition tlayer_of_num :: "int \<Rightarrow> tlayer_type" where
  "tlayer_of_num n =
     (if n = 0 then TlNone
      else if n = 1 then TlEcalUdp
      else if n = 4 then TlEcalShm
      else if n = 5 then TlEcalTcp
      else if n = 255 then TlAll
      else TlForeign (word_of_int n))"

definition tlayer_ok :: "tlayer_type \<Rightarrow> bool" where
  "tlayer_ok e \<longleftrightarrow> tlayer_of_num (tlayer_num e) = e"

lemma tlayer_of_num_num [simp]: "tlayer_ok e \<Longrightarrow> tlayer_of_num (sint (word_of_int (tlayer_num e) :: i32)) = e"
  by (cases e) (simp_all add: tlayer_of_num_def tlayer_ok_def)

lemma tlayer_ok_of_num [simp]: "tlayer_ok (tlayer_of_num (sint (n :: i32)))"
  by (simp add: tlayer_ok_def tlayer_of_num_def)

lemma tlayer_ok_enumerator [simp]:
  "tlayer_ok TlNone" "tlayer_ok TlEcalUdp" "tlayer_ok TlEcalShm" "tlayer_ok TlEcalTcp" "tlayer_ok TlAll"
  by (simp_all add: tlayer_ok_def tlayer_of_num_def)

fun severity_num :: "process_severity \<Rightarrow> int" where
  "severity_num ProcSevUnknown = 0"
| "severity_num ProcSevHealthy = 1"
| "severity_num ProcSevWarning = 2"
| "severity_num ProcSevCritical = 3"
| "severity_num ProcSevFailed = 4"
| "severity_num (ProcSevForeign n) = sint n"

definition severity_of_num :: "int \<Rightarrow> process_severity" where
  "severity_of_num n =
     (if n = 0 then ProcSevUnknown
      else if n = 1 then ProcSevHealthy
      else if n = 2 then ProcSevWarning
      else if n = 3 then ProcSevCritical
      else if n = 4 then ProcSevFailed
      else ProcSevForeign (word_of_int n))"

definition severity_ok :: "process_severity \<Rightarrow> bool" where
  "severity_ok e \<longleftrightarrow> severity_of_num (severity_num e) = e"

lemma severity_of_num_num [simp]: "severity_ok e \<Longrightarrow> severity_of_num (sint (word_of_int (severity_num e) :: i32)) = e"
  by (cases e) (simp_all add: severity_of_num_def severity_ok_def)

lemma severity_ok_of_num [simp]: "severity_ok (severity_of_num (sint (n :: i32)))"
  by (simp add: severity_ok_def severity_of_num_def)

lemma severity_ok_enumerator [simp]:
  "severity_ok ProcSevUnknown" "severity_ok ProcSevHealthy" "severity_ok ProcSevWarning" "severity_ok ProcSevCritical" "severity_ok ProcSevFailed"
  by (simp_all add: severity_ok_def severity_of_num_def)

fun severity_level_num :: "process_severity_level \<Rightarrow> int" where
  "severity_level_num ProcSevLevelUnknown = 0"
| "severity_level_num ProcSevLevel1 = 1"
| "severity_level_num ProcSevLevel2 = 2"
| "severity_level_num ProcSevLevel3 = 3"
| "severity_level_num ProcSevLevel4 = 4"
| "severity_level_num ProcSevLevel5 = 5"
| "severity_level_num (ProcSevLevelForeign n) = sint n"

definition severity_level_of_num :: "int \<Rightarrow> process_severity_level" where
  "severity_level_of_num n =
     (if n = 0 then ProcSevLevelUnknown
      else if n = 1 then ProcSevLevel1
      else if n = 2 then ProcSevLevel2
      else if n = 3 then ProcSevLevel3
      else if n = 4 then ProcSevLevel4
      else if n = 5 then ProcSevLevel5
      else ProcSevLevelForeign (word_of_int n))"

definition severity_level_ok :: "process_severity_level \<Rightarrow> bool" where
  "severity_level_ok e \<longleftrightarrow> severity_level_of_num (severity_level_num e) = e"

lemma severity_level_of_num_num [simp]: "severity_level_ok e \<Longrightarrow> severity_level_of_num (sint (word_of_int (severity_level_num e) :: i32)) = e"
  by (cases e) (simp_all add: severity_level_of_num_def severity_level_ok_def)

lemma severity_level_ok_of_num [simp]: "severity_level_ok (severity_level_of_num (sint (n :: i32)))"
  by (simp add: severity_level_ok_def severity_level_of_num_def)

lemma severity_level_ok_enumerator [simp]:
  "severity_level_ok ProcSevLevelUnknown" "severity_level_ok ProcSevLevel1" "severity_level_ok ProcSevLevel2" "severity_level_ok ProcSevLevel3" "severity_level_ok ProcSevLevel4"
  "severity_level_ok ProcSevLevel5"
  by (simp_all add: severity_level_ok_def severity_level_of_num_def)

fun tsync_num :: "time_sync_state \<Rightarrow> int" where
  "tsync_num TsyncNone = 0"
| "tsync_num TsyncRealtime = 1"
| "tsync_num TsyncReplay = 2"
| "tsync_num (TsyncForeign n) = sint n"

definition tsync_of_num :: "int \<Rightarrow> time_sync_state" where
  "tsync_of_num n =
     (if n = 0 then TsyncNone
      else if n = 1 then TsyncRealtime
      else if n = 2 then TsyncReplay
      else TsyncForeign (word_of_int n))"

definition tsync_ok :: "time_sync_state \<Rightarrow> bool" where
  "tsync_ok e \<longleftrightarrow> tsync_of_num (tsync_num e) = e"

lemma tsync_of_num_num [simp]: "tsync_ok e \<Longrightarrow> tsync_of_num (sint (word_of_int (tsync_num e) :: i32)) = e"
  by (cases e) (simp_all add: tsync_of_num_def tsync_ok_def)

lemma tsync_ok_of_num [simp]: "tsync_ok (tsync_of_num (sint (n :: i32)))"
  by (simp add: tsync_ok_def tsync_of_num_def)

lemma tsync_ok_enumerator [simp]: "tsync_ok TsyncNone" "tsync_ok TsyncRealtime" "tsync_ok TsyncReplay"
  by (simp_all add: tsync_ok_def tsync_of_num_def)

definition add_enum :: "'f pz \<Rightarrow> nat \<Rightarrow> int \<Rightarrow> 'f" where
  "add_enum z t n = z_add_enum z t (word_of_int n)"

subsection \<open>Data type information\<close>

definition SerializeDataTypeInformation :: "'f pz \<Rightarrow> data_type_info \<Rightarrow> 'f list" where
  "SerializeDataTypeInformation z d =
     [z_add_string z 1 (dti_name d), z_add_string z 2 (dti_encoding d), z_add_string z 3 (dti_descriptor d)]"

definition dti_field :: "'f pz \<Rightarrow> 'f \<Rightarrow> data_type_info reading" where
  "dti_field z f =
     (let t = z_tag z f in
      if t = 1 then AssignString z f (\<lambda>v. dti_name_update (\<lambda>_. v))
      else if t = 2 then AssignString z f (\<lambda>v. dti_encoding_update (\<lambda>_. v))
      else if t = 3 then AssignString z f (\<lambda>v. dti_descriptor_update (\<lambda>_. v))
      else rd_skip)"

definition DeserializeDataTypeInformation :: "'f pz \<Rightarrow> 'f pz_message \<Rightarrow> data_type_info reading" where
  "DeserializeDataTypeInformation z = rd_message (dti_field z)"

subsection \<open>Transport layers\<close>

definition SerializeParamTCP :: "'f pz \<Rightarrow> layer_par_tcp \<Rightarrow> 'f list" where
  "SerializeParamTCP z l = [z_add_int32 z 1 (lpt_port l)]"

definition tcp_field :: "'f pz \<Rightarrow> 'f \<Rightarrow> layer_par_tcp reading" where
  "tcp_field z f =
     (let t = z_tag z f in
      if t = 1 then rd_set (z_get_int32 z f) (\<lambda>v. lpt_port_update (\<lambda>_. v))
      else rd_skip)"

definition DeserializeParamTCP :: "'f pz \<Rightarrow> 'f pz_message \<Rightarrow> layer_par_tcp reading" where
  "DeserializeParamTCP z = rd_message (tcp_field z)"

definition SerializeParamSHM :: "'f pz \<Rightarrow> layer_par_shm \<Rightarrow> 'f list" where
  "SerializeParamSHM z l = map (z_add_string z 1) (ev_list (lps_memory_file_list l))"

text \<open>The element is pushed before the string is read into it.\<close>

definition add_string_element :: "'f pz \<Rightarrow> 'f \<Rightarrow> string evec reading" where
  "add_string_element z f v = AssignString z f (\<lambda>s v. ev_set_back v (\<lambda>_. s)) (ev_push_back_ref [] v)"

definition shm_field :: "'f pz \<Rightarrow> 'f \<Rightarrow> layer_par_shm reading" where
  "shm_field z f l =
     (if z_tag z f = 1
      then (let (r, v) = add_string_element z f (lps_memory_file_list l) in (r, l\<lparr>lps_memory_file_list := v\<rparr>))
      else rd_skip l)"

definition DeserializeParamSHM :: "'f pz \<Rightarrow> 'f pz_message \<Rightarrow> layer_par_shm reading" where
  "DeserializeParamSHM z = rd_message (shm_field z)"

definition connection_field :: "'f pz \<Rightarrow> 'f \<Rightarrow> connection_par reading" where
  "connection_field z f =
     (let t = z_tag z f in
      if t = 1 then rd_skip
      else if t = 4 then AssignMessage z f cp_layer_par_tcp cp_layer_par_tcp_update (DeserializeParamTCP z)
      else if t = 2 then AssignMessage z f cp_layer_par_shm cp_layer_par_shm_update (DeserializeParamSHM z)
      else rd_skip)"

definition DeserializeConnectionPar :: "'f pz \<Rightarrow> 'f pz_message \<Rightarrow> connection_par reading" where
  "DeserializeConnectionPar z = rd_message (connection_field z)"

text \<open>Only the parameters of the layer's own type are written.\<close>

definition connection_fields :: "'f pz \<Rightarrow> tlayer \<Rightarrow> 'f list" where
  "connection_fields z l =
     (case tl_type l of
        TlEcalShm \<Rightarrow> z_add_message z 2 (SerializeParamSHM z (cp_layer_par_shm (tl_par_layer l)))
      | TlEcalTcp \<Rightarrow> z_add_message z 4 (SerializeParamTCP z (cp_layer_par_tcp (tl_par_layer l)))
      | _ \<Rightarrow> [])"

definition SerializeTransportLayer :: "'f pz \<Rightarrow> tlayer \<Rightarrow> 'f list" where
  "SerializeTransportLayer z l =
     [add_enum z 1 (tlayer_num (tl_type l)), z_add_int32 z 2 (tl_version l), z_add_bool z 6 (tl_enabled l), z_add_bool z 3 (tl_active l)] @
     z_add_message z 5 (connection_fields z l)"

definition tlayer_field :: "'f pz \<Rightarrow> 'f \<Rightarrow> tlayer reading" where
  "tlayer_field z f =
     (let t = z_tag z f in
      if t = 1 then rd_enum (z_get_enum z f) tlayer_of_num (\<lambda>v. tl_type_update (\<lambda>_. v))
      else if t = 2 then rd_set (z_get_int32 z f) (\<lambda>v. tl_version_update (\<lambda>_. v))
      else if t = 6 then rd_set (z_get_bool z f) (\<lambda>v. tl_enabled_update (\<lambda>_. v))
      else if t = 3 then rd_set (z_get_bool z f) (\<lambda>v. tl_active_update (\<lambda>_. v))
      else if t = 5 then AssignMessage z f tl_par_layer tl_par_layer_update (DeserializeConnectionPar z)
      else rd_skip)"

definition DeserializeTransportLayer :: "'f pz \<Rightarrow> 'f pz_message \<Rightarrow> tlayer reading" where
  "DeserializeTransportLayer z = rd_message (tlayer_field z)"

subsection \<open>Topics\<close>

definition topic_fields :: "'f pz \<Rightarrow> sample \<Rightarrow> 'f list" where
  "topic_fields z s =
     (let i = sa_identifier s; tp = sa_topic s
      in [z_add_string z 6 (str_u64 (si_entity_id i)), z_add_string z 2 (si_host_name i), z_add_int32 z 3 (si_process_id i),
       z_add_string z 4 (tp_process_name tp), z_add_string z 7 (tp_topic_name tp), z_add_string z 8 (tp_direction tp),
       z_add_string z 28 (tp_shm_transport_domain tp)] @
      z_add_message z 30 (SerializeDataTypeInformation z (tp_datatype_information tp)) @
      [z_add_string z 5 (tp_unit_name tp)] @
      concat (map (\<lambda>l. z_add_message z 12 (SerializeTransportLayer z l)) (ev_list (tp_transport_layer tp))) @
      [z_add_int32 z 1 (tp_registration_clock tp), z_add_int32 z 13 (tp_topic_size tp), z_add_int32 z 16 (tp_connections_local tp),
       z_add_int32 z 17 (tp_connections_external tp), z_add_int32 z 18 (tp_message_drops tp), z_add_int64 z 19 (tp_data_id tp),
       z_add_int64 z 20 (tp_data_clock tp), z_add_int32 z 21 (tp_data_frequency tp)])"

definition SerializeTopicSample :: "'f pz \<Rightarrow> sample \<Rightarrow> 'f list" where
  "SerializeTopicSample z s = add_enum z 1 (cmd_num (sa_cmd_type s)) # z_add_message z 5 (topic_fields z s)"

definition topic_field :: "'f pz \<Rightarrow> 'f \<Rightarrow> sample reading" where
  "topic_field z f =
     (let t = z_tag z f in
      if t = 2 then AssignString z f (\<lambda>v. sa_identifier_update (si_host_name_update (\<lambda>_. v)))
      else if t = 3 then rd_set (z_get_int32 z f) (\<lambda>v. sa_identifier_update (si_process_id_update (\<lambda>_. v)))
      else if t = 4 then AssignString z f (\<lambda>v. sa_topic_update (tp_process_name_update (\<lambda>_. v)))
      else if t = 6 then AssignId z f (\<lambda>v. sa_identifier_update (si_entity_id_update (\<lambda>_. v)))
      else if t = 7 then AssignString z f (\<lambda>v. sa_topic_update (tp_topic_name_update (\<lambda>_. v)))
      else if t = 8 then AssignString z f (\<lambda>v. sa_topic_update (tp_direction_update (\<lambda>_. v)))
      else if t = 28 then AssignString z f (\<lambda>v. sa_topic_update (tp_shm_transport_domain_update (\<lambda>_. v)))
      else if t = 30 then AssignMessage z f (tp_datatype_information \<circ> sa_topic) (sa_topic_update \<circ> tp_datatype_information_update) (DeserializeDataTypeInformation z)
      else if t = 5 then AssignString z f (\<lambda>v. sa_topic_update (tp_unit_name_update (\<lambda>_. v)))
      else if t = 12 then AddRepeatedMessage z f tl_new (tp_transport_layer \<circ> sa_topic) (sa_topic_update \<circ> tp_transport_layer_update) (DeserializeTransportLayer z)
      else if t = 1 then rd_set (z_get_int32 z f) (\<lambda>v. sa_topic_update (tp_registration_clock_update (\<lambda>_. v)))
      else if t = 13 then rd_set (z_get_int32 z f) (\<lambda>v. sa_topic_update (tp_topic_size_update (\<lambda>_. v)))
      else if t = 16 then rd_set (z_get_int32 z f) (\<lambda>v. sa_topic_update (tp_connections_local_update (\<lambda>_. v)))
      else if t = 17 then rd_set (z_get_int32 z f) (\<lambda>v. sa_topic_update (tp_connections_external_update (\<lambda>_. v)))
      else if t = 18 then rd_set (z_get_int32 z f) (\<lambda>v. sa_topic_update (tp_message_drops_update (\<lambda>_. v)))
      else if t = 19 then rd_set (z_get_int64 z f) (\<lambda>v. sa_topic_update (tp_data_id_update (\<lambda>_. v)))
      else if t = 20 then rd_set (z_get_int64 z f) (\<lambda>v. sa_topic_update (tp_data_clock_update (\<lambda>_. v)))
      else if t = 21 then rd_set (z_get_int32 z f) (\<lambda>v. sa_topic_update (tp_data_frequency_update (\<lambda>_. v)))
      else rd_skip)"

definition DeserializeTopicSample :: "'f pz \<Rightarrow> 'f pz_message \<Rightarrow> sample reading" where
  "DeserializeTopicSample z = rd_message (topic_field z)"

subsection \<open>Processes\<close>

definition process_fields :: "'f pz \<Rightarrow> sample \<Rightarrow> 'f list" where
  "process_fields z s =
     (let i = sa_identifier s; p = sa_process s
      in [z_add_int32 z 3 (si_process_id i), z_add_string z 2 (si_host_name i), z_add_string z 4 (pri_process_name p),
       z_add_string z 18 (pri_shm_transport_domain p), z_add_string z 5 (pri_unit_name p), z_add_string z 6 (pri_process_parameter p),
       z_add_int32 z 15 (pri_component_init_state p), z_add_string z 16 (pri_component_init_info p),
       z_add_string z 17 (pri_ecal_runtime_version p), z_add_string z 19 (pri_config_file_path p),
       z_add_string z 14 (pri_time_sync_module_name p), z_add_int32 z 1 (pri_registration_clock p)] @
      z_add_message z 12 [add_enum z 1 (severity_num (pst_severity (pri_state p))),
        add_enum z 3 (severity_level_num (pst_severity_level (pri_state p))), z_add_string z 2 (pst_info (pri_state p))] @
      [add_enum z 13 (tsync_num (pri_time_sync_state p))])"

definition SerializeProcessSample :: "'f pz \<Rightarrow> sample \<Rightarrow> 'f list" where
  "SerializeProcessSample z s = add_enum z 1 (cmd_num (sa_cmd_type s)) # z_add_message z 3 (process_fields z s)"

definition process_state_field :: "'f pz \<Rightarrow> 'f \<Rightarrow> process_state reading" where
  "process_state_field z f =
     (let t = z_tag z f in
      if t = 1 then rd_enum (z_get_enum z f) severity_of_num (\<lambda>v. pst_severity_update (\<lambda>_. v))
      else if t = 3 then rd_enum (z_get_enum z f) severity_level_of_num (\<lambda>v. pst_severity_level_update (\<lambda>_. v))
      else if t = 2 then AssignString z f (\<lambda>v. pst_info_update (\<lambda>_. v))
      else rd_skip)"

text \<open>A process has no entity id of its own: it gets its process id, sign-extended.\<close>

definition process_field :: "'f pz \<Rightarrow> 'f \<Rightarrow> sample reading" where
  "process_field z f =
     (let t = z_tag z f in
      if t = 3 then rd_set (z_get_int32 z f) (\<lambda>v. sa_identifier_update (\<lambda>i. i\<lparr>si_process_id := v, si_entity_id := scast v\<rparr>))
      else if t = 2 then AssignString z f (\<lambda>v. sa_identifier_update (si_host_name_update (\<lambda>_. v)))
      else if t = 4 then AssignString z f (\<lambda>v. sa_process_update (pri_process_name_update (\<lambda>_. v)))
      else if t = 18 then AssignString z f (\<lambda>v. sa_process_update (pri_shm_transport_domain_update (\<lambda>_. v)))
      else if t = 5 then AssignString z f (\<lambda>v. sa_process_update (pri_unit_name_update (\<lambda>_. v)))
      else if t = 6 then AssignString z f (\<lambda>v. sa_process_update (pri_process_parameter_update (\<lambda>_. v)))
      else if t = 15 then rd_set (z_get_int32 z f) (\<lambda>v. sa_process_update (pri_component_init_state_update (\<lambda>_. v)))
      else if t = 16 then AssignString z f (\<lambda>v. sa_process_update (pri_component_init_info_update (\<lambda>_. v)))
      else if t = 17 then AssignString z f (\<lambda>v. sa_process_update (pri_ecal_runtime_version_update (\<lambda>_. v)))
      else if t = 19 then AssignString z f (\<lambda>v. sa_process_update (pri_config_file_path_update (\<lambda>_. v)))
      else if t = 14 then AssignString z f (\<lambda>v. sa_process_update (pri_time_sync_module_name_update (\<lambda>_. v)))
      else if t = 1 then rd_set (z_get_int32 z f) (\<lambda>v. sa_process_update (pri_registration_clock_update (\<lambda>_. v)))
      else if t = 12 then AssignMessage z f (pri_state \<circ> sa_process) (sa_process_update \<circ> pri_state_update) (rd_message (process_state_field z))
      else if t = 13 then rd_enum (z_get_enum z f) tsync_of_num (\<lambda>v. sa_process_update (pri_time_sync_state_update (\<lambda>_. v)))
      else rd_skip)"

definition DeserializeProcessSample :: "'f pz \<Rightarrow> 'f pz_message \<Rightarrow> sample reading" where
  "DeserializeProcessSample z = rd_message (process_field z)"

subsection \<open>Services and clients\<close>

definition SerializeMethodSample :: "'f pz \<Rightarrow> service_method \<Rightarrow> 'f list" where
  "SerializeMethodSample z m =
     [z_add_string z 1 (sm_method_name m), z_add_string z 2 (sm_req_type m), z_add_string z 5 (sm_req_desc m),
      z_add_string z 3 (sm_resp_type m), z_add_string z 6 (sm_resp_desc m)] @
     z_add_message z 7 (SerializeDataTypeInformation z (sm_request_datatype_information m)) @
     z_add_message z 8 (SerializeDataTypeInformation z (sm_response_datatype_information m)) @
     [z_add_int64 z 4 (sm_call_count m)]"

definition method_field :: "'f pz \<Rightarrow> 'f \<Rightarrow> service_method reading" where
  "method_field z f =
     (let t = z_tag z f in
      if t = 1 then AssignString z f (\<lambda>v. sm_method_name_update (\<lambda>_. v))
      else if t = 2 then AssignString z f (\<lambda>v. sm_req_type_update (\<lambda>_. v))
      else if t = 5 then AssignString z f (\<lambda>v. sm_req_desc_update (\<lambda>_. v))
      else if t = 3 then AssignString z f (\<lambda>v. sm_resp_type_update (\<lambda>_. v))
      else if t = 6 then AssignString z f (\<lambda>v. sm_resp_desc_update (\<lambda>_. v))
      else if t = 7 then AssignMessage z f sm_request_datatype_information sm_request_datatype_information_update (DeserializeDataTypeInformation z)
      else if t = 8 then AssignMessage z f sm_response_datatype_information sm_response_datatype_information_update (DeserializeDataTypeInformation z)
      else if t = 4 then rd_set (z_get_int64 z f) (\<lambda>v. sm_call_count_update (\<lambda>_. v))
      else rd_skip)"

definition DeserializeMethodSample :: "'f pz \<Rightarrow> 'f pz_message \<Rightarrow> service_method reading" where
  "DeserializeMethodSample z = rd_message (method_field z)"

definition service_fields :: "'f pz \<Rightarrow> sample \<Rightarrow> 'f list" where
  "service_fields z s =
     (let i = sa_identifier s; v = sa_service s
      in [z_add_string z 9 (str_u64 (si_entity_id i)), z_add_int32 z 5 (si_process_id i), z_add_string z 2 (si_host_name i),
       z_add_string z 3 (sv_process_name v), z_add_string z 6 (sv_service_name v), z_add_string z 4 (sv_unit_name v)] @
      concat (map (\<lambda>m. z_add_message z 8 (SerializeMethodSample z m)) (ev_list (sv_methods v))) @
      [z_add_uint32 z 10 (sv_version v), z_add_uint32 z 7 (sv_tcp_port_v0 v), z_add_uint32 z 11 (sv_tcp_port_v1 v),
       z_add_int32 z 1 (sv_registration_clock v)])"

definition SerializeServiceSample :: "'f pz \<Rightarrow> sample \<Rightarrow> 'f list" where
  "SerializeServiceSample z s = add_enum z 1 (cmd_num (sa_cmd_type s)) # z_add_message z 4 (service_fields z s)"

definition service_field :: "'f pz \<Rightarrow> 'f \<Rightarrow> sample reading" where
  "service_field z f =
     (let t = z_tag z f in
      if t = 9 then AssignId z f (\<lambda>v. sa_identifier_update (si_entity_id_update (\<lambda>_. v)))
      else if t = 5 then rd_set (z_get_int32 z f) (\<lambda>v. sa_identifier_update (si_process_id_update (\<lambda>_. v)))
      else if t = 2 then AssignString z f (\<lambda>v. sa_identifier_update (si_host_name_update (\<lambda>_. v)))
      else if t = 3 then AssignString z f (\<lambda>v. sa_service_update (sv_process_name_update (\<lambda>_. v)))
      else if t = 4 then AssignString z f (\<lambda>v. sa_service_update (sv_unit_name_update (\<lambda>_. v)))
      else if t = 6 then AssignString z f (\<lambda>v. sa_service_update (sv_service_name_update (\<lambda>_. v)))
      else if t = 8 then AddRepeatedMessage z f sm_new (sv_methods \<circ> sa_service) (sa_service_update \<circ> sv_methods_update) (DeserializeMethodSample z)
      else if t = 10 then rd_set (z_get_uint32 z f) (\<lambda>v. sa_service_update (sv_version_update (\<lambda>_. v)))
      else if t = 7 then rd_set (z_get_uint32 z f) (\<lambda>v. sa_service_update (sv_tcp_port_v0_update (\<lambda>_. v)))
      else if t = 11 then rd_set (z_get_uint32 z f) (\<lambda>v. sa_service_update (sv_tcp_port_v1_update (\<lambda>_. v)))
      else if t = 1 then rd_set (z_get_int32 z f) (\<lambda>v. sa_service_update (sv_registration_clock_update (\<lambda>_. v)))
      else rd_skip)"

definition DeserializeServiceSample :: "'f pz \<Rightarrow> 'f pz_message \<Rightarrow> sample reading" where
  "DeserializeServiceSample z = rd_message (service_field z)"

definition client_fields :: "'f pz \<Rightarrow> sample \<Rightarrow> 'f list" where
  "client_fields z s =
     (let i = sa_identifier s; c = sa_client s
      in [z_add_string z 7 (str_u64 (si_entity_id i)), z_add_int32 z 5 (si_process_id i), z_add_string z 2 (si_host_name i),
       z_add_string z 3 (cl_process_name c), z_add_string z 6 (cl_service_name c), z_add_string z 4 (cl_unit_name c)] @
      concat (map (\<lambda>m. z_add_message z 9 (SerializeMethodSample z m)) (ev_list (cl_methods c))) @
      [z_add_uint32 z 8 (cl_version c), z_add_int32 z 1 (cl_registration_clock c)])"

definition SerializeClientSample :: "'f pz \<Rightarrow> sample \<Rightarrow> 'f list" where
  "SerializeClientSample z s = add_enum z 1 (cmd_num (sa_cmd_type s)) # z_add_message z 7 (client_fields z s)"

definition client_field :: "'f pz \<Rightarrow> 'f \<Rightarrow> sample reading" where
  "client_field z f =
     (let t = z_tag z f in
      if t = 7 then AssignId z f (\<lambda>v. sa_identifier_update (si_entity_id_update (\<lambda>_. v)))
      else if t = 5 then rd_set (z_get_int32 z f) (\<lambda>v. sa_identifier_update (si_process_id_update (\<lambda>_. v)))
      else if t = 2 then AssignString z f (\<lambda>v. sa_identifier_update (si_host_name_update (\<lambda>_. v)))
      else if t = 3 then AssignString z f (\<lambda>v. sa_client_update (cl_process_name_update (\<lambda>_. v)))
      else if t = 6 then AssignString z f (\<lambda>v. sa_client_update (cl_service_name_update (\<lambda>_. v)))
      else if t = 4 then AssignString z f (\<lambda>v. sa_client_update (cl_unit_name_update (\<lambda>_. v)))
      else if t = 9 then AddRepeatedMessage z f sm_new (cl_methods \<circ> sa_client) (sa_client_update \<circ> cl_methods_update) (DeserializeMethodSample z)
      else if t = 8 then rd_set (z_get_uint32 z f) (\<lambda>v. sa_client_update (cl_version_update (\<lambda>_. v)))
      else if t = 1 then rd_set (z_get_int32 z f) (\<lambda>v. sa_client_update (cl_registration_clock_update (\<lambda>_. v)))
      else rd_skip)"

definition DeserializeClientSample :: "'f pz \<Rightarrow> 'f pz_message \<Rightarrow> sample reading" where
  "DeserializeClientSample z = rd_message (client_field z)"

subsection \<open>Samples and lists of samples\<close>

definition SerializeRegistrationSample :: "'f pz \<Rightarrow> sample \<Rightarrow> 'f list" where
  "SerializeRegistrationSample z s =
     (case sa_cmd_type s of
        BctNone \<Rightarrow> []
      | BctSetSample \<Rightarrow> []
      | BctRegPublisher \<Rightarrow> SerializeTopicSample z s
      | BctRegSubscriber \<Rightarrow> SerializeTopicSample z s
      | BctUnregPublisher \<Rightarrow> SerializeTopicSample z s
      | BctUnregSubscriber \<Rightarrow> SerializeTopicSample z s
      | BctRegProcess \<Rightarrow> SerializeProcessSample z s
      | BctUnregProcess \<Rightarrow> SerializeProcessSample z s
      | BctRegService \<Rightarrow> SerializeServiceSample z s
      | BctUnregService \<Rightarrow> SerializeServiceSample z s
      | BctRegClient \<Rightarrow> SerializeClientSample z s
      | BctUnregClient \<Rightarrow> SerializeClientSample z s
      | BctForeign _ \<Rightarrow> [])"

definition sample_field :: "'f pz \<Rightarrow> 'f \<Rightarrow> sample reading" where
  "sample_field z f =
     (let t = z_tag z f in
      if t = 5 then AssignMessage z f (\<lambda>s. s) (\<lambda>g. g) (DeserializeTopicSample z)
      else if t = 3 then AssignMessage z f (\<lambda>s. s) (\<lambda>g. g) (DeserializeProcessSample z)
      else if t = 4 then AssignMessage z f (\<lambda>s. s) (\<lambda>g. g) (DeserializeServiceSample z)
      else if t = 7 then AssignMessage z f (\<lambda>s. s) (\<lambda>g. g) (DeserializeClientSample z)
      else rd_skip)"

text \<open>
  The command type is looked up first, with a reader of its own that stops at the first such field; not
  finding one is an error only when the message ends badly.
\<close>

definition read_cmd_type :: "'f pz \<Rightarrow> 'f pz_message \<Rightarrow> sample reading" where
  "read_cmd_type z m s =
     (case List.find (\<lambda>f. z_tag z f = 1) (fst m) of
        None \<Rightarrow> (if snd m then RdOk else RdException, s)
      | Some f \<Rightarrow> rd_enum (z_get_enum z f) cmd_of_num (\<lambda>v. sa_cmd_type_update (\<lambda>_. v)) s)"

definition DeserializeRegistrationSample :: "'f pz \<Rightarrow> 'f pz_message \<Rightarrow> sample reading" where
  "DeserializeRegistrationSample z m s =
     (case read_cmd_type z m s of
        (RdOk, s) \<Rightarrow> rd_message (sample_field z) m s
      | (r, s) \<Rightarrow> (r, s))"

definition SerializeRegistrationSampleList :: "'f pz \<Rightarrow> sample_list \<Rightarrow> 'f list" where
  "SerializeRegistrationSampleList z l =
     concat (map (\<lambda>s. z_add_message z 1 (SerializeRegistrationSample z s)) (ev_list l))"

definition sample_list_field :: "'f pz \<Rightarrow> 'f \<Rightarrow> sample_list reading" where
  "sample_list_field z f =
     (if z_tag z f = 1 then AddRepeatedMessage z f sa_new (\<lambda>l. l) (\<lambda>g. g) (DeserializeRegistrationSample z)
      else rd_skip)"

definition DeserializeRegistrationSampleList :: "'f pz \<Rightarrow> 'f pz_message \<Rightarrow> sample_list reading" where
  "DeserializeRegistrationSampleList z = rd_message (sample_list_field z)"

text \<open>
  The entry points. The result is the value returned with the target, which an exception leaves as far as
  it was read.
\<close>

definition reading_result :: "read_state \<times> 's \<Rightarrow> bool \<times> 's" where
  "reading_result r = (case r of (RdOk, s) \<Rightarrow> (True, s) | (RdException, s) \<Rightarrow> (False, s))"

definition sample_SerializeToBuffer :: "'f pz \<Rightarrow> sample \<Rightarrow> u8 list" where
  "sample_SerializeToBuffer z s = z_data z (SerializeRegistrationSample z s)"

definition sample_DeserializeFromBuffer :: "'f pz \<Rightarrow> u8 list \<Rightarrow> sample \<Rightarrow> bool \<times> sample" where
  "sample_DeserializeFromBuffer z bs s =
     reading_result (DeserializeRegistrationSample z (z_read z bs) (sa_clear s))"

definition list_SerializeToBuffer :: "'f pz \<Rightarrow> sample_list \<Rightarrow> u8 list" where
  "list_SerializeToBuffer z l = z_data z (SerializeRegistrationSampleList z l)"

definition list_DeserializeFromBuffer :: "'f pz \<Rightarrow> u8 list \<Rightarrow> sample_list \<Rightarrow> bool \<times> sample_list" where
  "list_DeserializeFromBuffer z bs l =
     reading_result (DeserializeRegistrationSampleList z (z_read z bs) (ev_clear sa_clear l))"

subsection \<open>Round trips of the parts\<close>

lemma rd_enum_add_enum [simp]:
  assumes "pz_ok z"
  shows "z_tag z (add_enum z t n) = t"
    "rd_enum (z_get_enum z (add_enum z t n)) ofn upd s =
      (RdOk, upd (ofn (sint (word_of_int n :: i32))) s)"
  using assms by (simp_all add: add_enum_def rd_enum_def pz_fields)

lemmas scalar_fields = pz_fields Let_def

lemma dti_roundtrip [simp]:
  "pz_ok z \<Longrightarrow> DeserializeDataTypeInformation z (SerializeDataTypeInformation z d, True) x = (RdOk, d)"
  by (cases d; cases x) (simp add: DeserializeDataTypeInformation_def SerializeDataTypeInformation_def dti_field_def)

lemma SerializeDataTypeInformation_nonempty [simp]: "SerializeDataTypeInformation z d \<noteq> []"
  by (simp add: SerializeDataTypeInformation_def)

lemma tcp_roundtrip [simp]:
  "pz_ok z \<Longrightarrow> DeserializeParamTCP z (SerializeParamTCP z l, True) x = (RdOk, l)"
  by (cases l; cases x) (simp add: DeserializeParamTCP_def SerializeParamTCP_def tcp_field_def scalar_fields)

lemma SerializeParamTCP_nonempty [simp]: "SerializeParamTCP z l \<noteq> []"
  by (simp add: SerializeParamTCP_def)

lemma add_string_element_ok:
  assumes "pz_ok z" "ev_inv v"
  obtains w where "add_string_element z (z_add_string z 1 s) v = (RdOk, w)" "ev_inv w" "ev_list w = ev_list v @ [s]"
proof -
  let ?w = "ev_set_back (ev_push_back_ref [] v) (\<lambda>_. s)"
  have "ev_inv ?w" "ev_list ?w = ev_list v @ [s]"
    using ev_push_element [OF assms(2), of "\<lambda>_. True" "[]" s] by auto
  then show ?thesis using assms(1) by (intro that [of ?w]) (simp_all add: add_string_element_def)
qed

lemma shm_roundtrip:
  assumes "pz_ok z" "ev_inv (lps_memory_file_list x)"
  obtains v where "DeserializeParamSHM z (SerializeParamSHM z l, True) x = (RdOk, x\<lparr>lps_memory_file_list := v\<rparr>)" "ev_inv v"
    "ev_list v = ev_list (lps_memory_file_list x) @ ev_list (lps_memory_file_list l)"
proof -
  have "\<exists>v. rd_loop (shm_field z) (map (z_add_string z 1) ss) x = (RdOk, x\<lparr>lps_memory_file_list := v\<rparr>) \<and> ev_inv v \<and>
      ev_list v = ev_list (lps_memory_file_list x) @ ss" for ss
    using assms(2)
  proof (induction ss arbitrary: x)
    case Nil
    then show ?case by (intro exI [of _ "lps_memory_file_list x"]) simp
  next
    case (Cons s ss)
    from add_string_element_ok [OF assms(1) Cons.prems, of s] obtain w where
      w: "add_string_element z (z_add_string z 1 s) (lps_memory_file_list x) = (RdOk, w)" "ev_inv w" "ev_list w = ev_list (lps_memory_file_list x) @ [s]" .
    have "shm_field z (z_add_string z 1 s) x = (RdOk, x\<lparr>lps_memory_file_list := w\<rparr>)" using assms(1) w(1) by (simp add: shm_field_def)
    then show ?case using Cons.IH [of "x\<lparr>lps_memory_file_list := w\<rparr>"] w(2,3) by simp
  qed
  then show ?thesis using that by (auto simp: DeserializeParamSHM_def SerializeParamSHM_def)
qed

text \<open>What reaches the other side: the parameters of the layer's own type.\<close>

definition tl_sent :: "tlayer \<Rightarrow> tlayer" where
  "tl_sent l = l\<lparr>tl_par_layer :=
     (case tl_type l of
        TlEcalShm \<Rightarrow> cp_new\<lparr>cp_layer_par_shm := cp_layer_par_shm (tl_par_layer l)\<rparr>
      | TlEcalTcp \<Rightarrow> cp_new\<lparr>cp_layer_par_tcp := cp_layer_par_tcp (tl_par_layer l)\<rparr>
      | _ \<Rightarrow> cp_new)\<rparr>"

definition tl_files :: "tlayer \<Rightarrow> string evec" where
  "tl_files l = lps_memory_file_list (cp_layer_par_shm (tl_par_layer l))"

definition tl_wf :: "tlayer \<Rightarrow> bool" where
  "tl_wf l \<longleftrightarrow> ev_inv (tl_files l) \<and> tlayer_ok (tl_type l)"

text \<open>An element of the layer list as \<open>clear()\<close> leaves it.\<close>

definition tl_clean :: "tlayer \<Rightarrow> bool" where
  "tl_clean l \<longleftrightarrow> tl_wf l \<and> tl_eq l tl_new"

lemma SerializeTransportLayer_nonempty [simp]: "SerializeTransportLayer z l \<noteq> []"
  by (simp add: SerializeTransportLayer_def)

lemma connection_roundtrip:
  assumes Z: "pz_ok z" and W: "tl_wf l" "tl_clean x"
  obtains c where "DeserializeConnectionPar z (connection_fields z l, True) (tl_par_layer x) = (RdOk, c)"
    "cp_eq c (tl_par_layer (tl_sent l))" "ev_inv (lps_memory_file_list (cp_layer_par_shm c))"
proof -
  let ?p = "tl_par_layer x" and ?d = "DeserializeConnectionPar z"
  have x: "ev_inv (lps_memory_file_list (cp_layer_par_shm ?p))" "cp_eq ?p cp_new"
    using W(2) by (auto simp: tl_clean_def tl_wf_def tl_files_def tl_eq_def tl_new_def)
  then have e: "ev_list (lps_memory_file_list (cp_layer_par_shm ?p)) = []" "cp_layer_par_tcp ?p = lpt_new"
    by (auto simp: cp_eq_def lps_eq_def cp_new_def lps_new_def ev_eq_def ev_new_def ev_list_def lpt_eq_def lpt_new_def
        split: if_splits intro!: layer_par_tcp.equality)
  consider (shm) "tl_type l = TlEcalShm" | (tcp) "tl_type l = TlEcalTcp" | (other) "connection_fields z l = []" "tl_par_layer (tl_sent l) = cp_new"
    by (cases "tl_type l") (auto simp: connection_fields_def tl_sent_def)
  then show ?thesis
  proof cases
    case shm
    let ?s = "cp_layer_par_shm (tl_par_layer l)"
    from shm_roundtrip [OF Z x(1), of ?s] obtain v where
      v: "DeserializeParamSHM z (SerializeParamSHM z ?s, True) (cp_layer_par_shm ?p) = (RdOk, (cp_layer_par_shm ?p)\<lparr>lps_memory_file_list := v\<rparr>)" "ev_inv v"
        "ev_list v = ev_list (lps_memory_file_list ?s)" using e(1) by auto
    let ?a = "(cp_layer_par_shm ?p)\<lparr>lps_memory_file_list := v\<rparr>"
    have "rd_loop (connection_field z) (z_add_message z 2 (SerializeParamSHM z ?s)) ?p = (RdOk, cp_layer_par_shm_update (\<lambda>_. ?a) ?p)"
    proof (rule rd_submessage [OF Z, where get = cp_layer_par_shm and upd = cp_layer_par_shm_update and convert = "DeserializeParamSHM z"])
      show "SerializeParamSHM z ?s = [] \<Longrightarrow> cp_layer_par_shm_update (\<lambda>_. ?a) ?p = ?p"
        using v(1) by (simp add: DeserializeParamSHM_def)
    qed (use v(1) in \<open>simp_all add: connection_field_def\<close>)
    moreover have "cp_eq (cp_layer_par_shm_update (\<lambda>_. ?a) ?p) (tl_par_layer (tl_sent l))"
      using shm W(1) v(2,3) e(2) by (simp add: cp_eq_def tl_sent_def cp_new_def lps_eq_def ev_eq_list tl_wf_def tl_files_def list_all2_eq lpu_eq_def)
    ultimately show ?thesis
      by (intro that [of "cp_layer_par_shm_update (\<lambda>_. ?a) ?p"]) (use shm v(2) in \<open>auto simp: DeserializeConnectionPar_def connection_fields_def\<close>)
  next
    case tcp
    let ?t = "cp_layer_par_tcp (tl_par_layer l)"
    have "rd_loop (connection_field z) (z_add_message z 4 (SerializeParamTCP z ?t)) ?p = (RdOk, cp_layer_par_tcp_update (\<lambda>_. ?t) ?p)"
      by (rule rd_submessage [OF Z, where get = cp_layer_par_tcp and upd = cp_layer_par_tcp_update and convert = "DeserializeParamTCP z"])
        (use Z in \<open>simp_all add: connection_field_def\<close>)
    moreover have "cp_eq (cp_layer_par_tcp_update (\<lambda>_. ?t) ?p) (tl_par_layer (tl_sent l))"
      using tcp x by (simp add: cp_eq_def tl_sent_def cp_new_def lpu_eq_def)
    ultimately show ?thesis
      by (intro that [of "cp_layer_par_tcp_update (\<lambda>_. ?t) ?p"]) (use tcp x in \<open>auto simp: DeserializeConnectionPar_def connection_fields_def\<close>)
  next
    case other
    show ?thesis by (rule that [of ?p]) (use other x in \<open>simp_all add: DeserializeConnectionPar_def\<close>)
  qed
qed

lemma tlayer_roundtrip:
  assumes Z: "pz_ok z" and W: "tl_wf l" "tl_clean x"
  shows "\<exists>r. DeserializeTransportLayer z (SerializeTransportLayer z l, True) x = (RdOk, r) \<and> tl_eq r (tl_sent l) \<and> tl_wf r"
proof -
  let ?y = "x\<lparr>tl_type := tl_type l, tl_version := tl_version l, tl_enabled := tl_enabled l, tl_active := tl_active l\<rparr>"
  from connection_roundtrip [OF Z W] obtain c where
    c: "DeserializeConnectionPar z (connection_fields z l, True) (tl_par_layer x) = (RdOk, c)"
      "cp_eq c (tl_par_layer (tl_sent l))" "ev_inv (lps_memory_file_list (cp_layer_par_shm c))" .
  have "rd_loop (tlayer_field z) (z_add_message z 5 (connection_fields z l)) ?y = (RdOk, tl_par_layer_update (\<lambda>_. c) ?y)"
  proof (rule rd_submessage [OF Z, where get = tl_par_layer and upd = tl_par_layer_update and convert = "DeserializeConnectionPar z"])
    show "connection_fields z l = [] \<Longrightarrow> tl_par_layer_update (\<lambda>_. c) ?y = ?y" using c(1) by (simp add: DeserializeConnectionPar_def)
  qed (use c(1) in \<open>simp_all add: tlayer_field_def\<close>)
  then have "DeserializeTransportLayer z (SerializeTransportLayer z l, True) x = (RdOk, tl_par_layer_update (\<lambda>_. c) ?y)"
    using Z W(1) by (simp add: DeserializeTransportLayer_def SerializeTransportLayer_def tlayer_field_def scalar_fields tl_wf_def)
  moreover have "tl_eq (tl_par_layer_update (\<lambda>_. c) ?y) (tl_sent l)" using c(2) by (simp add: tl_eq_def tl_sent_def)
  ultimately show ?thesis using c(3) W(1) by (simp add: tl_wf_def tl_files_def)
qed


subsection \<open>Round trips of samples\<close>

text \<open>
  Structs whose vectors are in order and whose enumerations have one value per number, and structs as \<open>clear()\<close>
  leaves them, with the elements kept for later use.
\<close>

definition pri_wf :: "process_info \<Rightarrow> bool" where
  "pri_wf p \<longleftrightarrow> severity_ok (pst_severity (pri_state p)) \<and> severity_level_ok (pst_severity_level (pri_state p)) \<and>
     tsync_ok (pri_time_sync_state p)"

definition sa_wf :: "sample \<Rightarrow> bool" where
  "sa_wf s \<longleftrightarrow> ev_inv (tp_transport_layer (sa_topic s)) \<and> (\<forall>l \<in> set (ev_data (tp_transport_layer (sa_topic s))). tl_wf l) \<and>
     ev_inv (sv_methods (sa_service s)) \<and> ev_inv (cl_methods (sa_client s)) \<and> cmd_ok (sa_cmd_type s) \<and> pri_wf (sa_process s)"

definition tp_clean :: "topic \<Rightarrow> bool" where
  "tp_clean t \<longleftrightarrow> ev_inv (tp_transport_layer t) \<and> (\<forall>l \<in> set (ev_slots (tp_transport_layer t)). tl_clean l) \<and> tp_eq t tp_new"

definition sa_clean :: "sample \<Rightarrow> bool" where
  "sa_clean s \<longleftrightarrow> sa_identifier s = si_new \<and> sa_cmd_type s = BctNone \<and> sa_process s = pri_new \<and>
     ev_inv (sv_methods (sa_service s)) \<and> sv_eq (sa_service s) sv_new \<and>
     ev_inv (cl_methods (sa_client s)) \<and> cl_eq (sa_client s) cl_new \<and> tp_clean (sa_topic s)"

lemma pri_new_wf [simp]: "pri_wf pri_new"
  by (simp add: pri_wf_def pri_new_def pst_new_def)

lemma tl_clear_clean: "tl_wf l \<Longrightarrow> tl_clean (tl_clear l)"
  by (simp add: tl_clean_def clears) (simp add: tl_wf_def tl_files_def tl_clear_def cp_clear_def lps_clear_def)

lemma sa_new_clean: "sa_clean sa_new"
  by (simp add: sa_clean_def sa_new_def sv_new_def cl_new_def tp_clean_def tp_new_def ev_slots_def)
    (simp add: ev_new_def)

lemma sa_clear_clean:
  assumes "sa_wf s"
  shows "sa_clean (sa_clear s)"
proof -
  have "tp_clean (tp_clear (sa_topic s))"
    using assms tl_clear_clean by (auto simp: tp_clean_def clears sa_wf_def) (auto simp: tp_clear_def ev_slots_def ev_clear_def ev_inv_def)
  moreover have "ev_inv (sv_methods (sv_clear (sa_service s)))" "ev_inv (cl_methods (cl_clear (sa_client s)))"
    using assms by (simp_all add: sa_wf_def sv_clear_def cl_clear_def)
  ultimately show ?thesis by (simp add: sa_clean_def sa_clear_def clears)
qed

lemma method_roundtrip:
  assumes "pz_ok z"
  shows "DeserializeMethodSample z (SerializeMethodSample z m, True) x = (RdOk, m)"
proof -
  note Z = assms
  have a: "rd_loop (method_field z) (z_add_message z 7 (SerializeDataTypeInformation z d)) y =
      (RdOk, sm_request_datatype_information_update (\<lambda>_. d) y)" for d y
    by (rule rd_submessage [OF Z, where get = sm_request_datatype_information and upd = sm_request_datatype_information_update
          and convert = "DeserializeDataTypeInformation z"]) (use Z in \<open>simp_all add: method_field_def\<close>)
  have b: "rd_loop (method_field z) (z_add_message z 8 (SerializeDataTypeInformation z d)) y =
      (RdOk, sm_response_datatype_information_update (\<lambda>_. d) y)" for d y
    by (rule rd_submessage [OF Z, where get = sm_response_datatype_information and upd = sm_response_datatype_information_update
          and convert = "DeserializeDataTypeInformation z"]) (use Z in \<open>simp_all add: method_field_def\<close>)
  show ?thesis using Z
    by (simp add: DeserializeMethodSample_def SerializeMethodSample_def method_field_def [of z "z_add_string z t s" for t s]
        method_field_def [of z "z_add_int64 z t n" for t n] scalar_fields rd_loop_append a b)
qed

lemma SerializeMethodSample_nonempty [simp]: "SerializeMethodSample z m \<noteq> []"
  by (simp add: SerializeMethodSample_def)


definition tp_sent :: "topic \<Rightarrow> topic" where
  "tp_sent t = t\<lparr>tp_transport_layer := ev_of_list (map tl_sent (ev_list (tp_transport_layer t)))\<rparr>"

lemma ev_inv_of_list [simp]: "ev_inv (ev_of_list xs)"
  using ev_list_pushes [of ev_new xs] by (simp add: ev_of_list_def)

lemma tl_new_clean: "tl_clean tl_new"
  by (simp add: tl_clean_def tl_wf_def tl_files_def) (simp add: tl_new_def cp_new_def lps_new_def)

lemma upd_layers:
  "(sa_topic_update \<circ> tp_transport_layer_update) (\<lambda>_. v) y = y\<lparr>sa_topic := (sa_topic y)\<lparr>tp_transport_layer := v\<rparr>\<rparr>"
  by (cases y) simp

lemma topic_dti:
  assumes "pz_ok z"
  shows "rd_loop (topic_field z) (z_add_message z 30 (SerializeDataTypeInformation z d)) y =
    (RdOk, y\<lparr>sa_topic := (sa_topic y)\<lparr>tp_datatype_information := d\<rparr>\<rparr>)"
proof -
  have "rd_loop (topic_field z) (z_add_message z 30 (SerializeDataTypeInformation z d)) y =
      (RdOk, (sa_topic_update \<circ> tp_datatype_information_update) (\<lambda>_. d) y)"
    by (rule rd_submessage [OF assms, where get = "tp_datatype_information \<circ> sa_topic" and
          upd = "sa_topic_update \<circ> tp_datatype_information_update" and convert = "DeserializeDataTypeInformation z"])
      (use assms in \<open>simp_all add: topic_field_def\<close>)
  then show ?thesis by (cases y) simp
qed

lemma topic_roundtrip:
  assumes Z: "pz_ok z" and W: "sa_wf s" "tp_clean (sa_topic x)"
  obtains t where "DeserializeTopicSample z (topic_fields z s, True) x = (RdOk, x\<lparr>sa_identifier := sa_identifier s, sa_topic := t\<rparr>)"
    "tp_eq t (tp_sent (sa_topic s))" "ev_inv (tp_transport_layer t)" "\<forall>l \<in> set (ev_list (tp_transport_layer t)). tl_wf l"
    "\<forall>l \<in> set (ev_slots (tp_transport_layer t)). tl_clean l"
proof -
  let ?i = "sa_identifier s" and ?t = "sa_topic s" and ?step = "topic_field z"
  let ?pre = "[z_add_string z 6 (str_u64 (si_entity_id ?i)), z_add_string z 2 (si_host_name ?i), z_add_int32 z 3 (si_process_id ?i),
     z_add_string z 4 (tp_process_name ?t), z_add_string z 7 (tp_topic_name ?t), z_add_string z 8 (tp_direction ?t),
     z_add_string z 28 (tp_shm_transport_domain ?t)]"
  let ?reps = "concat (map (\<lambda>l. z_add_message z 12 (SerializeTransportLayer z l)) (ev_list (tp_transport_layer ?t)))"
  let ?post = "[z_add_int32 z 1 (tp_registration_clock ?t), z_add_int32 z 13 (tp_topic_size ?t), z_add_int32 z 16 (tp_connections_local ?t),
     z_add_int32 z 17 (tp_connections_external ?t), z_add_int32 z 18 (tp_message_drops ?t), z_add_int64 z 19 (tp_data_id ?t),
     z_add_int64 z 20 (tp_data_clock ?t), z_add_int32 z 21 (tp_data_frequency ?t)]"
  let ?s1 = "x\<lparr>sa_identifier := ?i, sa_topic := (sa_topic x)\<lparr>tp_process_name := tp_process_name ?t, tp_topic_name := tp_topic_name ?t,
     tp_direction := tp_direction ?t, tp_shm_transport_domain := tp_shm_transport_domain ?t\<rparr>\<rparr>"
  have 1: "rd_loop ?step ?pre x = (RdOk, ?s1)"
    using Z by (cases ?i) (simp add: topic_field_def scalar_fields)
  have 2: "rd_loop ?step (z_add_message z 30 (SerializeDataTypeInformation z (tp_datatype_information ?t))) ?s1 =
      (RdOk, ?s1\<lparr>sa_topic := (sa_topic ?s1)\<lparr>tp_datatype_information := tp_datatype_information ?t\<rparr>\<rparr>)" (is "_ = (_, ?s2)")
    by (rule topic_dti [OF Z])
  have 3: "rd_loop ?step [z_add_string z 5 (tp_unit_name ?t)] ?s2 = (RdOk, ?s2\<lparr>sa_topic := (sa_topic ?s2)\<lparr>tp_unit_name := tp_unit_name ?t\<rparr>\<rparr>)" (is "_ = (_, ?s3)")
    using Z by (simp add: topic_field_def scalar_fields)
  have "\<exists>v xs. rd_loop ?step ?reps ?s3 = (RdOk, (sa_topic_update \<circ> tp_transport_layer_update) (\<lambda>_. v) ?s3) \<and>
      ev_inv v \<and> ev_list v = ev_list ((tp_transport_layer \<circ> sa_topic) ?s3) @ xs \<and>
      list_all2 (\<lambda>l r. tl_eq r (tl_sent l) \<and> tl_wf r) (ev_list (tp_transport_layer ?t)) xs \<and> (\<forall>l \<in> set (ev_slots v). tl_clean l)"
  proof (rule rd_repeated [OF Z, where get = "tp_transport_layer \<circ> sa_topic" and
        upd = "sa_topic_update \<circ> tp_transport_layer_update" and convert = "DeserializeTransportLayer z" and d = tl_new])
    fix l y
    assume "l \<in> set (ev_list (tp_transport_layer ?t))" "tl_clean y"
    moreover from this have "tl_wf l" using W(1) set_take_subset by (fastforce simp: sa_wf_def ev_list_def)
    ultimately show "SerializeTransportLayer z l \<noteq> [] \<and>
        (\<exists>r. DeserializeTransportLayer z (SerializeTransportLayer z l, True) y = (RdOk, r) \<and> tl_eq r (tl_sent l) \<and> tl_wf r)"
      using tlayer_roundtrip [OF Z] by simp
  qed (use W(2) tl_new_clean in \<open>simp_all add: topic_field_def tp_clean_def o_def\<close>)
  from this [unfolded upd_layers] obtain v xs where 4: "rd_loop ?step ?reps ?s3 = (RdOk, ?s3\<lparr>sa_topic := (sa_topic ?s3)\<lparr>tp_transport_layer := v\<rparr>\<rparr>)" (is "_ = (_, ?s4)")
    and v: "ev_inv v" "ev_list v = ev_list (tp_transport_layer (sa_topic x)) @ xs"
      "list_all2 (\<lambda>l r. tl_eq r (tl_sent l) \<and> tl_wf r) (ev_list (tp_transport_layer ?t)) xs" "\<forall>l \<in> set (ev_slots v). tl_clean l"
    by auto
  have e: "ev_list (tp_transport_layer (sa_topic x)) = []"
    using W(2) by (auto simp: tp_clean_def tp_eq_def tp_new_def ev_eq_def ev_new_def ev_list_def split: if_splits)
  have 5: "rd_loop ?step ?post ?s4 = (RdOk, x\<lparr>sa_identifier := ?i, sa_topic := ?t\<lparr>tp_transport_layer := v\<rparr>\<rparr>)"
    using Z by (simp add: topic_field_def scalar_fields)
  have q: "list_all2 tl_eq xs (map tl_sent (ev_list (tp_transport_layer ?t)))" "\<forall>r \<in> set xs. tl_wf r"
    using v(3) by (auto simp: list_all2_conv_all_nth in_set_conv_nth)
  show ?thesis
  proof (rule that)
    show "DeserializeTopicSample z (topic_fields z s, True) x = (RdOk, x\<lparr>sa_identifier := ?i, sa_topic := ?t\<lparr>tp_transport_layer := v\<rparr>\<rparr>)"
      unfolding DeserializeTopicSample_def topic_fields_def Let_def rd_message_complete
      by (simp only: rd_loop_append 1 2 3 4 5 prod.case read_state.case)
    show "tp_eq (?t\<lparr>tp_transport_layer := v\<rparr>) (tp_sent ?t)"
      using v(1,2) e q(1) by (simp add: tp_eq_def tp_sent_def ev_eq_list)
  qed (use v e q in simp_all)
qed


lemma upd_state: "(sa_process_update \<circ> pri_state_update) (\<lambda>_. v) y = y\<lparr>sa_process := (sa_process y)\<lparr>pri_state := v\<rparr>\<rparr>"
  by (cases y) simp

lemma process_state_roundtrip:
  "pz_ok z \<Longrightarrow> severity_ok (pst_severity p) \<Longrightarrow> severity_level_ok (pst_severity_level p) \<Longrightarrow>
    rd_loop (process_state_field z) [add_enum z 1 (severity_num (pst_severity p)),
    add_enum z 3 (severity_level_num (pst_severity_level p)), z_add_string z 2 (pst_info p)] x = (RdOk, p)"
  by (cases p; cases x) (simp add: process_state_field_def)

lemma process_roundtrip:
  assumes Z: "pz_ok z" and W: "pri_wf (sa_process s)"
  shows "DeserializeProcessSample z (process_fields z s, True) x =
    (RdOk, x\<lparr>sa_identifier := (sa_identifier s)\<lparr>si_entity_id := scast (si_process_id (sa_identifier s))\<rparr>, sa_process := sa_process s\<rparr>)"
proof -
  let ?i = "sa_identifier s" and ?p = "sa_process s" and ?step = "process_field z"
  let ?pre = "[z_add_int32 z 3 (si_process_id ?i), z_add_string z 2 (si_host_name ?i), z_add_string z 4 (pri_process_name ?p),
     z_add_string z 18 (pri_shm_transport_domain ?p), z_add_string z 5 (pri_unit_name ?p), z_add_string z 6 (pri_process_parameter ?p),
     z_add_int32 z 15 (pri_component_init_state ?p), z_add_string z 16 (pri_component_init_info ?p),
     z_add_string z 17 (pri_ecal_runtime_version ?p), z_add_string z 19 (pri_config_file_path ?p),
     z_add_string z 14 (pri_time_sync_module_name ?p), z_add_int32 z 1 (pri_registration_clock ?p)]"
  let ?i' = "?i\<lparr>si_entity_id := scast (si_process_id ?i)\<rparr>"
  let ?s1 = "x\<lparr>sa_identifier := ?i', sa_process := ?p\<lparr>pri_state := pri_state (sa_process x), pri_time_sync_state := pri_time_sync_state (sa_process x)\<rparr>\<rparr>"
  have 1: "rd_loop ?step ?pre x = (RdOk, ?s1)"
    using Z by (cases ?i; cases ?p; cases x; cases "sa_process x") (simp add: process_field_def scalar_fields)
  have "rd_loop ?step (z_add_message z 12 [add_enum z 1 (severity_num (pst_severity (pri_state ?p))),
      add_enum z 3 (severity_level_num (pst_severity_level (pri_state ?p))), z_add_string z 2 (pst_info (pri_state ?p))]) ?s1 =
      (RdOk, (sa_process_update \<circ> pri_state_update) (\<lambda>_. pri_state ?p) ?s1)"
    by (rule rd_submessage [OF Z, where get = "pri_state \<circ> sa_process" and upd = "sa_process_update \<circ> pri_state_update" and
          convert = "rd_message (process_state_field z)"])
      (use process_state_roundtrip [OF Z] W [unfolded pri_wf_def] in \<open>simp_all add: process_field_def del: rd_loop.simps\<close>)
  note 2 = this [unfolded upd_state]
  have 3: "rd_loop ?step [add_enum z 13 (tsync_num (pri_time_sync_state ?p))] (?s1\<lparr>sa_process := (sa_process ?s1)\<lparr>pri_state := pri_state ?p\<rparr>\<rparr>) =
      (RdOk, x\<lparr>sa_identifier := ?i', sa_process := ?p\<rparr>)"
    using Z W by (simp add: process_field_def pri_wf_def)
  show ?thesis
    unfolding DeserializeProcessSample_def process_fields_def Let_def rd_message_complete
    by (simp only: rd_loop_append 1 2 3 prod.case read_state.case)
qed

lemma upd_methods:
  "(sa_service_update \<circ> sv_methods_update) (\<lambda>_. v) y = y\<lparr>sa_service := (sa_service y)\<lparr>sv_methods := v\<rparr>\<rparr>"
  "(sa_client_update \<circ> cl_methods_update) (\<lambda>_. v) y = y\<lparr>sa_client := (sa_client y)\<lparr>cl_methods := v\<rparr>\<rparr>"
  by (cases y, simp)+

lemma rd_methods:
  assumes Z: "pz_ok z" and S: "\<And>f. z_tag z f = t \<Longrightarrow> step f = AddRepeatedMessage z f sm_new get upd (DeserializeMethodSample z)"
    and U: "\<And>g s. get (upd g s) = g (get s)" "\<And>g h s. upd g (upd h s) = upd (\<lambda>v. g (h v)) s" "\<And>s. upd (\<lambda>v. v) s = s"
      "\<And>g s. upd g s = upd (\<lambda>_. g (get s)) s"
    and V: "ev_inv (get s)"
  obtains v where "rd_loop step (concat (map (\<lambda>m. z_add_message z t (SerializeMethodSample z m)) ms)) s = (RdOk, upd (\<lambda>_. v) s)"
    "ev_inv v" "ev_list v = ev_list (get s) @ ms"
proof -
  have "\<exists>v xs. rd_loop step (concat (map (\<lambda>m. z_add_message z t (SerializeMethodSample z m)) ms)) s = (RdOk, upd (\<lambda>_. v) s) \<and>
      ev_inv v \<and> ev_list v = ev_list (get s) @ xs \<and> list_all2 (=) ms xs \<and> (\<forall>x \<in> set (ev_slots v). True)"
    by (rule rd_repeated [OF Z S U]) (simp_all add: V method_roundtrip [OF Z])
  then show ?thesis using that by (auto simp: list.rel_eq)
qed


lemma service_roundtrip:
  assumes Z: "pz_ok z" and V: "ev_inv (sv_methods (sa_service x))"
  obtains v where "DeserializeServiceSample z (service_fields z s, True) x =
      (RdOk, x\<lparr>sa_identifier := sa_identifier s, sa_service := (sa_service s)\<lparr>sv_methods := v\<rparr>\<rparr>)" "ev_inv v"
    "ev_list v = ev_list (sv_methods (sa_service x)) @ ev_list (sv_methods (sa_service s))"
proof -
  let ?i = "sa_identifier s" and ?v = "sa_service s" and ?step = "service_field z"
  let ?pre = "[z_add_string z 9 (str_u64 (si_entity_id ?i)), z_add_int32 z 5 (si_process_id ?i), z_add_string z 2 (si_host_name ?i),
     z_add_string z 3 (sv_process_name ?v), z_add_string z 6 (sv_service_name ?v), z_add_string z 4 (sv_unit_name ?v)]"
  let ?reps = "concat (map (\<lambda>m. z_add_message z 8 (SerializeMethodSample z m)) (ev_list (sv_methods ?v)))"
  let ?post = "[z_add_uint32 z 10 (sv_version ?v), z_add_uint32 z 7 (sv_tcp_port_v0 ?v), z_add_uint32 z 11 (sv_tcp_port_v1 ?v),
     z_add_int32 z 1 (sv_registration_clock ?v)]"
  let ?s1 = "x\<lparr>sa_identifier := ?i, sa_service := (sa_service x)\<lparr>sv_process_name := sv_process_name ?v,
     sv_service_name := sv_service_name ?v, sv_unit_name := sv_unit_name ?v\<rparr>\<rparr>"
  have 1: "rd_loop ?step ?pre x = (RdOk, ?s1)"
    using Z by (cases ?i) (simp add: service_field_def scalar_fields)
  obtain v where v: "rd_loop ?step ?reps ?s1 = (RdOk, (sa_service_update \<circ> sv_methods_update) (\<lambda>_. v) ?s1)" "ev_inv v"
    "ev_list v = ev_list ((sv_methods \<circ> sa_service) ?s1) @ ev_list (sv_methods ?v)"
    by (rule rd_methods [OF Z, where t = 8 and step = ?step and get = "sv_methods \<circ> sa_service" and
          upd = "sa_service_update \<circ> sv_methods_update" and s = ?s1])
      (use V in \<open>simp_all add: service_field_def o_def\<close>)
  note 2 = v(1) [unfolded upd_methods]
  have 3: "rd_loop ?step ?post (?s1\<lparr>sa_service := (sa_service ?s1)\<lparr>sv_methods := v\<rparr>\<rparr>) =
      (RdOk, x\<lparr>sa_identifier := ?i, sa_service := ?v\<lparr>sv_methods := v\<rparr>\<rparr>)"
    using Z by (simp add: service_field_def scalar_fields)
  show ?thesis
  proof (rule that)
    show "DeserializeServiceSample z (service_fields z s, True) x = (RdOk, x\<lparr>sa_identifier := ?i, sa_service := ?v\<lparr>sv_methods := v\<rparr>\<rparr>)"
      unfolding DeserializeServiceSample_def service_fields_def Let_def rd_message_complete
      by (simp only: rd_loop_append 1 2 3 prod.case read_state.case)
  qed (use v(2,3) in simp_all)
qed

lemma client_roundtrip:
  assumes Z: "pz_ok z" and V: "ev_inv (cl_methods (sa_client x))"
  obtains v where "DeserializeClientSample z (client_fields z s, True) x =
      (RdOk, x\<lparr>sa_identifier := sa_identifier s, sa_client := (sa_client s)\<lparr>cl_methods := v\<rparr>\<rparr>)" "ev_inv v"
    "ev_list v = ev_list (cl_methods (sa_client x)) @ ev_list (cl_methods (sa_client s))"
proof -
  let ?i = "sa_identifier s" and ?v = "sa_client s" and ?step = "client_field z"
  let ?pre = "[z_add_string z 7 (str_u64 (si_entity_id ?i)), z_add_int32 z 5 (si_process_id ?i), z_add_string z 2 (si_host_name ?i),
     z_add_string z 3 (cl_process_name ?v), z_add_string z 6 (cl_service_name ?v), z_add_string z 4 (cl_unit_name ?v)]"
  let ?reps = "concat (map (\<lambda>m. z_add_message z 9 (SerializeMethodSample z m)) (ev_list (cl_methods ?v)))"
  let ?post = "[z_add_uint32 z 8 (cl_version ?v), z_add_int32 z 1 (cl_registration_clock ?v)]"
  let ?s1 = "x\<lparr>sa_identifier := ?i, sa_client := (sa_client x)\<lparr>cl_process_name := cl_process_name ?v,
     cl_service_name := cl_service_name ?v, cl_unit_name := cl_unit_name ?v\<rparr>\<rparr>"
  have 1: "rd_loop ?step ?pre x = (RdOk, ?s1)"
    using Z by (cases ?i) (simp add: client_field_def scalar_fields)
  obtain v where v: "rd_loop ?step ?reps ?s1 = (RdOk, (sa_client_update \<circ> cl_methods_update) (\<lambda>_. v) ?s1)" "ev_inv v"
    "ev_list v = ev_list ((cl_methods \<circ> sa_client) ?s1) @ ev_list (cl_methods ?v)"
    by (rule rd_methods [OF Z, where t = 9 and step = ?step and get = "cl_methods \<circ> sa_client" and
          upd = "sa_client_update \<circ> cl_methods_update" and s = ?s1])
      (use V in \<open>simp_all add: client_field_def o_def\<close>)
  note 2 = v(1) [unfolded upd_methods]
  have 3: "rd_loop ?step ?post (?s1\<lparr>sa_client := (sa_client ?s1)\<lparr>cl_methods := v\<rparr>\<rparr>) =
      (RdOk, x\<lparr>sa_identifier := ?i, sa_client := ?v\<lparr>cl_methods := v\<rparr>\<rparr>)"
    using Z by (simp add: client_field_def scalar_fields)
  show ?thesis
  proof (rule that)
    show "DeserializeClientSample z (client_fields z s, True) x = (RdOk, x\<lparr>sa_identifier := ?i, sa_client := ?v\<lparr>cl_methods := v\<rparr>\<rparr>)"
      unfolding DeserializeClientSample_def client_fields_def Let_def rd_message_complete
      by (simp only: rd_loop_append 1 2 3 prod.case read_state.case)
  qed (use v(2,3) in simp_all)
qed


text \<open>
  What a receiver gets of a sample: the identifier (the entity id of a process is its process id), the
  command, and the part the command is about. Two samples agree when they are equal for \<open>operator==\<close> and have
  the same host and process, which \<open>operator==\<close> of the identifier does not look at.
\<close>

definition sa_sent :: "sample \<Rightarrow> sample" where
  "sa_sent s =
     (let r = sa_new\<lparr>sa_identifier := sa_identifier s, sa_cmd_type := sa_cmd_type s\<rparr>
      in if sa_cmd_type s \<in> {BctRegProcess, BctUnregProcess}
         then r\<lparr>sa_identifier := (sa_identifier s)\<lparr>si_entity_id := scast (si_process_id (sa_identifier s))\<rparr>, sa_process := sa_process s\<rparr>
         else if sa_cmd_type s \<in> {BctRegService, BctUnregService} then r\<lparr>sa_service := sa_service s\<rparr>
         else if sa_cmd_type s \<in> {BctRegClient, BctUnregClient} then r\<lparr>sa_client := sa_client s\<rparr>
         else r\<lparr>sa_topic := tp_sent (sa_topic s)\<rparr>)"

definition sa_agree :: "sample \<Rightarrow> sample \<Rightarrow> bool" where
  "sa_agree a b \<longleftrightarrow> sa_eq a b \<and> sa_identifier a = sa_identifier b"

definition sa_registers :: "sample \<Rightarrow> bool" where
  "sa_registers s \<longleftrightarrow> sa_cmd_type s \<noteq> BctNone \<and> sa_cmd_type s \<noteq> BctSetSample \<and> \<not> is_BctForeign (sa_cmd_type s)"

lemma sample_part:
  assumes Z: "pz_ok z" and S: "\<And>f. z_tag z f = t \<Longrightarrow> sample_field z f = AssignMessage z f (\<lambda>s. s) (\<lambda>g. g) convert"
    and C: "convert (fs, True) (x\<lparr>sa_cmd_type := c\<rparr>) = (RdOk, r)" "fs \<noteq> []" "cmd_ok c"
  shows "DeserializeRegistrationSample z (add_enum z 1 (cmd_num c) # z_add_message z t fs, True) x = (RdOk, r)"
proof -
  have "rd_loop (sample_field z) (z_add_message z t fs) (x\<lparr>sa_cmd_type := c\<rparr>) = (RdOk, (\<lambda>g. g) (\<lambda>_. r) (x\<lparr>sa_cmd_type := c\<rparr>))"
    by (rule rd_submessage [where get = "\<lambda>s. s" and upd = "\<lambda>g. g" and convert = convert, OF Z S]) (use C in simp_all)
  moreover have "sample_field z (add_enum z 1 (cmd_num c)) = rd_skip" using Z by (simp add: sample_field_def)
  ultimately show ?thesis using Z C(3) by (simp add: DeserializeRegistrationSample_def read_cmd_type_def)
qed

lemma part_fields_nonempty [simp]: "topic_fields z s \<noteq> []" "process_fields z s \<noteq> []" "service_fields z s \<noteq> []" "client_fields z s \<noteq> []"
  by (simp_all add: topic_fields_def process_fields_def service_fields_def client_fields_def Let_def)

lemma sa_clean_empty:
  assumes "sa_clean x"
  shows "ev_list (sv_methods (sa_service x)) = []" "ev_list (cl_methods (sa_client x)) = []" "\<forall>l \<in> set (ev_list (tp_transport_layer (sa_topic x))). tl_wf l"
    "\<forall>l \<in> set (ev_data (tp_transport_layer (sa_topic x))). tl_wf l"
proof -
  have z: "ev_size (sv_methods (sa_service x)) = 0" "ev_size (cl_methods (sa_client x)) = 0" "ev_size (tp_transport_layer (sa_topic x)) = 0"
    using assms by (auto simp: sa_clean_def sv_eq_def cl_eq_def tp_clean_def tp_eq_def ev_eq_def sv_new_def cl_new_def tp_new_def ev_new_def split: if_splits)
  then show "ev_list (sv_methods (sa_service x)) = []" "ev_list (cl_methods (sa_client x)) = []" "\<forall>l \<in> set (ev_list (tp_transport_layer (sa_topic x))). tl_wf l"
    by (simp_all add: ev_list_def)
  show "\<forall>l \<in> set (ev_data (tp_transport_layer (sa_topic x))). tl_wf l"
    using assms z by (simp add: sa_clean_def tp_clean_def ev_slots_def tl_clean_def)
qed

lemma ev_data_slots: "set (ev_data v) = set (ev_list v) \<union> set (ev_slots v)"
  by (metis append_take_drop_id ev_list_def ev_slots_def set_append)

lemma sample_roundtrip:
  assumes Z: "pz_ok z" and W: "sa_wf s" "sa_registers s" "sa_clean x"
  shows "\<exists>r. DeserializeRegistrationSample z (SerializeRegistrationSample z s, True) x = (RdOk, r) \<and> sa_agree r (sa_sent s) \<and> sa_wf r"
proof -
  let ?c = "sa_cmd_type s" and ?x = "x\<lparr>sa_cmd_type := sa_cmd_type s\<rparr>"
  have x: "sa_identifier x = si_new" "sa_process x = pri_new" "sv_eq (sa_service x) sv_new" "cl_eq (sa_client x) cl_new" "tp_eq (sa_topic x) tp_new"
    "ev_inv (sv_methods (sa_service x))" "ev_inv (cl_methods (sa_client x))" "ev_inv (tp_transport_layer (sa_topic x))" "tp_clean (sa_topic x)"
    using W(3) by (simp_all add: sa_clean_def tp_clean_def)
  have k: "cmd_ok ?c" "pri_wf (sa_process s)" "pri_wf (sa_process x)" using W by (simp_all add: sa_wf_def sa_clean_def)
  note e = sa_clean_empty [OF W(3)]
  consider (topic) "?c = BctRegPublisher \<or> ?c = BctRegSubscriber \<or> ?c = BctUnregPublisher \<or> ?c = BctUnregSubscriber"
    | (process) "?c = BctRegProcess \<or> ?c = BctUnregProcess" | (service) "?c = BctRegService \<or> ?c = BctUnregService"
    | (client) "?c = BctRegClient \<or> ?c = BctUnregClient"
    using W(2) by (cases ?c) (auto simp: sa_registers_def)
  then show ?thesis
  proof cases
    case topic
    have "tp_clean (sa_topic ?x)" using x(9) by simp
    from topic_roundtrip [OF Z W(1) this] obtain t where
      t: "DeserializeTopicSample z (topic_fields z s, True) ?x = (RdOk, ?x\<lparr>sa_identifier := sa_identifier s, sa_topic := t\<rparr>)"
        "tp_eq t (tp_sent (sa_topic s))" "ev_inv (tp_transport_layer t)" "\<forall>l \<in> set (ev_list (tp_transport_layer t)). tl_wf l"
        "\<forall>l \<in> set (ev_slots (tp_transport_layer t)). tl_clean l" .
    have "DeserializeRegistrationSample z (add_enum z 1 (cmd_num ?c) # z_add_message z 5 (topic_fields z s), True) x =
        (RdOk, ?x\<lparr>sa_identifier := sa_identifier s, sa_topic := t\<rparr>)"
      by (rule sample_part [where convert = "DeserializeTopicSample z", OF Z]) (use t(1) in \<open>simp_all add: sample_field_def k\<close>)
    then show ?thesis using topic t(2-5) x e(4) k
      by (auto simp: SerializeRegistrationSample_def SerializeTopicSample_def sa_agree_def sa_eq_def sa_sent_def sa_new_def sa_wf_def ev_data_slots tl_clean_def)
  next
    case process
    have "DeserializeRegistrationSample z (add_enum z 1 (cmd_num ?c) # z_add_message z 3 (process_fields z s), True) x =
        (RdOk, ?x\<lparr>sa_identifier := (sa_identifier s)\<lparr>si_entity_id := scast (si_process_id (sa_identifier s))\<rparr>, sa_process := sa_process s\<rparr>)"
      by (rule sample_part [where convert = "DeserializeProcessSample z", OF Z]) (simp_all add: sample_field_def process_roundtrip [OF Z] k)
    then show ?thesis using process x e(4) k
      by (auto simp: SerializeRegistrationSample_def SerializeProcessSample_def sa_agree_def sa_eq_def sa_sent_def sa_new_def sa_wf_def)
  next
    case service
    have "ev_inv (sv_methods (sa_service ?x))" using x by simp
    from service_roundtrip [OF Z this, of s] obtain v where
      v: "DeserializeServiceSample z (service_fields z s, True) ?x = (RdOk, ?x\<lparr>sa_identifier := sa_identifier s, sa_service := (sa_service s)\<lparr>sv_methods := v\<rparr>\<rparr>)"
        "ev_inv v" "ev_list v = ev_list (sv_methods (sa_service s))" using e(1) by auto
    have "DeserializeRegistrationSample z (add_enum z 1 (cmd_num ?c) # z_add_message z 4 (service_fields z s), True) x =
        (RdOk, ?x\<lparr>sa_identifier := sa_identifier s, sa_service := (sa_service s)\<lparr>sv_methods := v\<rparr>\<rparr>)"
      by (rule sample_part [where convert = "DeserializeServiceSample z", OF Z]) (use v(1) in \<open>simp_all add: sample_field_def k\<close>)
    moreover have "ev_eq sm_eq v (sv_methods (sa_service s))"
      using v(2,3) W(1) by (simp add: ev_eq_list sa_wf_def list.rel_refl)
    ultimately show ?thesis using service v(2) x e(4) k
      by (auto simp: SerializeRegistrationSample_def SerializeServiceSample_def sa_agree_def sa_eq_def sa_sent_def sa_new_def sa_wf_def sv_eq_def)
  next
    case client
    have "ev_inv (cl_methods (sa_client ?x))" using x by simp
    from client_roundtrip [OF Z this, of s] obtain v where
      v: "DeserializeClientSample z (client_fields z s, True) ?x = (RdOk, ?x\<lparr>sa_identifier := sa_identifier s, sa_client := (sa_client s)\<lparr>cl_methods := v\<rparr>\<rparr>)"
        "ev_inv v" "ev_list v = ev_list (cl_methods (sa_client s))" using e(2) by auto
    have "DeserializeRegistrationSample z (add_enum z 1 (cmd_num ?c) # z_add_message z 7 (client_fields z s), True) x =
        (RdOk, ?x\<lparr>sa_identifier := sa_identifier s, sa_client := (sa_client s)\<lparr>cl_methods := v\<rparr>\<rparr>)"
      by (rule sample_part [where convert = "DeserializeClientSample z", OF Z]) (use v(1) in \<open>simp_all add: sample_field_def k\<close>)
    moreover have "ev_eq sm_eq v (cl_methods (sa_client s))"
      using v(2,3) W(1) by (simp add: ev_eq_list sa_wf_def list.rel_refl)
    ultimately show ?thesis using client v(2) x e(4) k
      by (auto simp: SerializeRegistrationSample_def SerializeClientSample_def sa_agree_def sa_eq_def sa_sent_def sa_new_def sa_wf_def cl_eq_def)
  qed
qed


definition sl_wf :: "sample_list \<Rightarrow> bool" where
  "sl_wf l \<longleftrightarrow> ev_inv l \<and> (\<forall>s \<in> set (ev_data l). sa_wf s)"

lemma SerializeRegistrationSample_nonempty: "sa_registers s \<Longrightarrow> SerializeRegistrationSample z s \<noteq> []"
  by (cases "sa_cmd_type s") (simp_all add: sa_registers_def SerializeRegistrationSample_def SerializeTopicSample_def
      SerializeProcessSample_def SerializeServiceSample_def SerializeClientSample_def)

lemma sa_clean_wf: "sa_clean s \<Longrightarrow> sa_wf s"
  using sa_clean_empty(4) [of s] by (simp add: sa_wf_def) (simp add: sa_clean_def tp_clean_def)

lemma sample_codec:
  assumes "pz_ok z" "\<forall>s \<in> set (ev_list l). sa_wf s \<and> sa_registers s" "sl_wf t"
  shows "\<exists>r. list_DeserializeFromBuffer z (list_SerializeToBuffer z l) t = (True, r) \<and> sl_wf r \<and>
    list_all2 (\<lambda>s s'. sa_agree s' (sa_sent s)) (ev_list l) (ev_list r)"
proof -
  note Z = assms(1)
  let ?c = "ev_clear sa_clear t"
  have c: "ev_inv ?c" "\<forall>s \<in> set (ev_slots ?c). sa_clean s" "ev_list ?c = []"
    using assms(3) sa_clear_clean by (auto simp: sl_wf_def ev_slots_def ev_clear_def ev_inv_def ev_list_def)
  have "\<exists>v xs. rd_loop (sample_list_field z) (concat (map (\<lambda>s. z_add_message z 1 (SerializeRegistrationSample z s)) (ev_list l))) ?c =
      (RdOk, (\<lambda>g. g) (\<lambda>_. v) ?c) \<and> ev_inv v \<and> ev_list v = ev_list ((\<lambda>l. l) ?c) @ xs \<and>
      list_all2 (\<lambda>s r. sa_agree r (sa_sent s) \<and> sa_wf r) (ev_list l) xs \<and> (\<forall>x \<in> set (ev_slots v). sa_clean x)"
  proof (rule rd_repeated [where get = "\<lambda>l. l" and upd = "\<lambda>g. g" and convert = "DeserializeRegistrationSample z" and d = sa_new, OF Z])
    fix s x
    assume "s \<in> set (ev_list l)" "sa_clean x"
    then show "SerializeRegistrationSample z s \<noteq> [] \<and>
        (\<exists>r. DeserializeRegistrationSample z (SerializeRegistrationSample z s, True) x = (RdOk, r) \<and> sa_agree r (sa_sent s) \<and> sa_wf r)"
      using assms(2) sample_roundtrip [OF Z] SerializeRegistrationSample_nonempty by blast
  qed (use c sa_new_clean in \<open>simp_all add: sample_list_field_def\<close>)
  then obtain v where v: "rd_loop (sample_list_field z) (SerializeRegistrationSampleList z l) ?c = (RdOk, v)" "ev_inv v"
    "list_all2 (\<lambda>s r. sa_agree r (sa_sent s) \<and> sa_wf r) (ev_list l) (ev_list v)" "\<forall>x \<in> set (ev_slots v). sa_clean x"
    using c(3) by (auto simp: SerializeRegistrationSampleList_def)
  have "sl_wf v" using v(2-4) sa_clean_wf by (fastforce simp: sl_wf_def ev_data_slots list_all2_conv_all_nth in_set_conv_nth)
  moreover have "list_all2 (\<lambda>s s'. sa_agree s' (sa_sent s)) (ev_list l) (ev_list v)" by (rule list_all2_mono [OF v(3)]) simp
  ultimately show ?thesis using Z v(1)
    by (simp add: list_DeserializeFromBuffer_def list_SerializeToBuffer_def DeserializeRegistrationSampleList_def pz_fields reading_result_def)
qed

definition demo_topic_sample :: sample where
  "demo_topic_sample = sa_new\<lparr>sa_identifier := \<lparr>si_entity_id = 77, si_process_id = 10, si_host_name = ''h''\<rparr>, sa_cmd_type := BctRegPublisher,
     sa_topic := tp_new\<lparr>tp_topic_name := ''t'', tp_data_clock := - 1,
       tp_transport_layer := ev_of_list [tl_new\<lparr>tl_type := TlEcalTcp, tl_par_layer := cp_new\<lparr>cp_layer_par_tcp := \<lparr>lpt_port = 8080\<rparr>\<rparr>\<rparr>]\<rparr>\<rparr>"

definition demo_process_sample :: sample where
  "demo_process_sample = sa_new\<lparr>sa_identifier := \<lparr>si_entity_id = 0, si_process_id = 10, si_host_name = ''h''\<rparr>, sa_cmd_type := BctRegProcess,
     sa_process := pri_new\<lparr>pri_process_name := ''p'', pri_time_sync_state := TsyncReplay\<rparr>\<rparr>"

lemma demo_samples_wf: "sa_wf demo_topic_sample" "sa_wf demo_process_sample" "sa_registers demo_topic_sample" "sa_registers demo_process_sample"
proof -
  have n: "tl_wf (tl_new\<lparr>tl_type := TlEcalTcp, tl_par_layer := cp_new\<lparr>cp_layer_par_tcp := b\<rparr>\<rparr>)" for b
    by (simp add: tl_wf_def tl_files_def cp_new_def lps_new_def)
  have d: "ev_data (ev_of_list [x]) = [x]" for x :: tlayer by (simp add: ev_of_list_def ev_push_back_def ev_new_def)
  have e: "ev_data (ev_new :: tlayer evec) = []" by (simp add: ev_new_def)
  show "sa_wf demo_topic_sample" using n by (simp add: sa_wf_def demo_topic_sample_def d sa_new_def sv_new_def cl_new_def)
  show "sa_wf demo_process_sample" by (simp add: sa_wf_def demo_process_sample_def sa_new_def sv_new_def cl_new_def tp_new_def e) (simp add: pri_wf_def pri_new_def pst_new_def)
  show "sa_registers demo_topic_sample" "sa_registers demo_process_sample"
    by (simp_all add: sa_registers_def demo_topic_sample_def demo_process_sample_def)
qed

text \<open>
  C9. Serializing a list of registration samples and reading the bytes into any list, whatever was in it
  before, succeeds and gives the same samples in the same order: identifier, command and everything the
  command is about. The process id becomes the entity id of a process, and of the parameters of a layer those
  of its own type arrive. The result can be used as a target again.
\<close>

theorem sample_list_roundtrip:
  assumes "pz_ok z" "\<forall>s \<in> set (ev_list l). sa_wf s \<and> sa_registers s" "sl_wf t"
  shows "\<exists>r. list_DeserializeFromBuffer z (list_SerializeToBuffer z l) t = (True, r) \<and> sl_wf r \<and>
    list_all2 (\<lambda>s s'. sa_agree s' (sa_sent s)) (ev_list l) (ev_list r)"
  using assms by (rule sample_codec)

theorem sample_list_roundtrip_witness:
  "\<exists>r. list_DeserializeFromBuffer wire_pz (list_SerializeToBuffer wire_pz (ev_of_list [demo_topic_sample, demo_process_sample]))
      (ev_of_list [demo_process_sample]) = (True, r) \<and> sl_wf r \<and>
    list_all2 (\<lambda>s s'. sa_agree s' (sa_sent s)) (ev_list (ev_of_list [demo_topic_sample, demo_process_sample])) (ev_list r)"
proof (rule sample_list_roundtrip [OF wire_pz_ok])
  have "ev_data (ev_of_list [x]) = [x]" for x :: sample by (simp add: ev_of_list_def ev_push_back_def ev_new_def)
  then show "sl_wf (ev_of_list [demo_process_sample])" using demo_samples_wf by (simp add: sl_wf_def)
qed (use demo_samples_wf in simp)


subsection \<open>Any bytes\<close>

text \<open>Whatever is read, and however reading ends, a property every field preserves is preserved.\<close>

lemma rd_loop_keeps:
  assumes "\<And>f s. P s \<Longrightarrow> P (snd (step f s))" "P s"
  shows "P (snd (rd_loop step fs s))"
  using assms(2)
proof (induction fs arbitrary: s)
  case (Cons f fs)
  obtain r s' where "step f s = (r, s')" by (cases "step f s")
  then show ?case using Cons assms(1) [of s f] by (cases r) simp_all
qed simp

lemma rd_message_keeps:
  assumes "\<And>f s. P s \<Longrightarrow> P (snd (step f s))" "P s"
  shows "P (snd (rd_message step m s))"
proof -
  obtain r s' where "rd_loop step (fst m) s = (r, s')" by (cases "rd_loop step (fst m) s")
  then show ?thesis using rd_loop_keeps [where P = P and step = step and fs = "fst m", OF assms] by (cases r) (simp_all add: rd_message_def)
qed

lemma rd_set_keeps: "P s \<Longrightarrow> (\<And>a. P (upd a s)) \<Longrightarrow> P (snd (rd_set x upd s))"
  by (cases x) simp_all

lemma AssignString_keeps: "P s \<Longrightarrow> (\<And>a. P (upd a s)) \<Longrightarrow> P (snd (AssignString z f upd s))"
  by (simp add: AssignString_def rd_set_keeps)

lemma AssignId_keeps: "P s \<Longrightarrow> (\<And>a. P (upd a s)) \<Longrightarrow> P (snd (AssignId z f upd s))"
  by (simp add: AssignId_def rd_set_keeps)

lemma rd_enum_keeps: "P s \<Longrightarrow> (\<And>n :: i32. P (upd (ofn (sint n)) s)) \<Longrightarrow> P (snd (rd_enum x ofn upd s))"
  by (simp add: rd_enum_def split: option.splits)

lemma AssignMessage_keeps:
  "P s \<Longrightarrow> (\<And>m. P (upd (\<lambda>_. snd (convert m (get s))) s)) \<Longrightarrow> P (snd (AssignMessage z f get upd convert s))"
  by (simp add: AssignMessage_def split_beta split: option.splits)

lemma AddRepeatedMessage_keeps:
  assumes "P s" "ev_inv (get s)" "\<And>x. x \<in> set (ev_data (get s)) \<Longrightarrow> R x" "R d" "\<And>m x. R x \<Longrightarrow> R (snd (convert m x))"
    "\<And>v. ev_inv v \<Longrightarrow> (\<And>x. x \<in> set (ev_data v) \<Longrightarrow> R x) \<Longrightarrow> P (upd (\<lambda>_. v) s)"
  shows "P (snd (AddRepeatedMessage z f d get upd convert s))"
proof (cases "z_get_message z f")
  case (Some m)
  let ?v = "ev_push_back_ref d (get s)"
  let ?x = "ev_data ?v ! (ev_size ?v - 1)"
  have v: "R x" if "x \<in> set (ev_data ?v)" for x using that assms(3,4) by (auto simp: ev_push_back_ref_def split: if_splits)
  have "ev_size ?v - 1 < length (ev_data ?v)" using assms(2) by (auto simp: ev_push_back_ref_def ev_inv_def)
  then have "R ?x" using v by simp
  then have y: "R (snd (convert m ?x))" by (rule assms(5))
  have "P (upd (\<lambda>_. ev_set_back ?v (\<lambda>_. snd (convert m ?x))) s)"
  proof (rule assms(6))
    show "R x" if "x \<in> set (ev_data (ev_set_back ?v (\<lambda>_. snd (convert m ?x))))" for x
      using that v y set_update_subset_insert by (fastforce simp: ev_set_back_def)
  qed (use assms(2) in simp)
  then show ?thesis using Some by (simp add: AddRepeatedMessage_def split_beta Let_def)
qed (use assms(1) in \<open>simp add: AddRepeatedMessage_def\<close>)

lemmas keeps = rd_set_keeps AssignString_keeps AssignId_keeps rd_enum_keeps AssignMessage_keeps

lemma tl_wf_upd [simp]:
  "tl_wf (tl_type_update g l) = (ev_inv (tl_files l) \<and> tlayer_ok (g (tl_type l)))" "tl_wf (tl_version_update h l) = tl_wf l"
  "tl_wf (tl_enabled_update b l) = tl_wf l" "tl_wf (tl_active_update b l) = tl_wf l"
  "tl_wf (tl_par_layer_update (\<lambda>_. c) l) = (ev_inv (lps_memory_file_list (cp_layer_par_shm c)) \<and> tlayer_ok (tl_type l))"
  by (simp_all add: tl_wf_def tl_files_def)

lemma tl_wfD: "tl_wf l \<Longrightarrow> ev_inv (tl_files l) \<and> tlayer_ok (tl_type l)"
  by (simp add: tl_wf_def)

lemma shm_keeps:
  "ev_inv (lps_memory_file_list x) \<Longrightarrow> ev_inv (lps_memory_file_list (snd (DeserializeParamSHM z m x)))"
proof (unfold DeserializeParamSHM_def, rule rd_message_keeps)
  have e: "ev_inv v \<Longrightarrow> ev_inv (snd (add_string_element z f v))" for f v
    unfolding add_string_element_def by (rule AssignString_keeps) simp_all
  show "ev_inv (lps_memory_file_list x) \<Longrightarrow> ev_inv (lps_memory_file_list (snd (shm_field z f x)))" for f and x :: layer_par_shm
    by (simp add: shm_field_def split_beta Let_def e)
qed

lemma connection_keeps:
  "ev_inv (lps_memory_file_list (cp_layer_par_shm x)) \<Longrightarrow>
    ev_inv (lps_memory_file_list (cp_layer_par_shm (snd (DeserializeConnectionPar z m x))))"
proof (unfold DeserializeConnectionPar_def, rule rd_message_keeps)
  show "ev_inv (lps_memory_file_list (cp_layer_par_shm x)) \<Longrightarrow>
      ev_inv (lps_memory_file_list (cp_layer_par_shm (snd (connection_field z f x))))" for f and x :: connection_par
    unfolding connection_field_def Let_def
    by (auto simp: AssignMessage_def split_beta shm_keeps split: option.splits)
qed

lemma tlayer_keeps: "tl_wf l \<Longrightarrow> tl_wf (snd (DeserializeTransportLayer z m l))"
proof (unfold DeserializeTransportLayer_def, rule rd_message_keeps)
  have c: "tl_wf l \<Longrightarrow> ev_inv (lps_memory_file_list (cp_layer_par_shm (snd (DeserializeConnectionPar z m (tl_par_layer l)))))" for m l
    by (rule connection_keeps) (simp add: tl_wf_def tl_files_def)
  show "tl_wf l \<Longrightarrow> tl_wf (snd (tlayer_field z f l))" for f l
    unfolding tlayer_field_def Let_def using c by (auto dest: tl_wfD intro!: keeps [where P = tl_wf])
qed

lemma sa_wf_upd [simp]:
  "sa_wf (sa_identifier_update g s) = sa_wf s"
  "sa_wf s \<Longrightarrow> cmd_ok (c (sa_cmd_type s)) \<Longrightarrow> sa_wf (sa_cmd_type_update c s)"
  "sa_wf s \<Longrightarrow> pri_wf (p (sa_process s)) \<Longrightarrow> sa_wf (sa_process_update p s)"
  "sa_wf s \<Longrightarrow> ev_inv (tp_transport_layer (t (sa_topic s))) \<Longrightarrow>
    (\<forall>l \<in> set (ev_data (tp_transport_layer (t (sa_topic s)))). tl_wf l) \<Longrightarrow> sa_wf (sa_topic_update t s)"
  "sa_wf s \<Longrightarrow> ev_inv (sv_methods (v (sa_service s))) \<Longrightarrow> sa_wf (sa_service_update v s)"
  "sa_wf s \<Longrightarrow> ev_inv (cl_methods (w (sa_client s))) \<Longrightarrow> sa_wf (sa_client_update w s)"
  by (simp_all add: sa_wf_def)

lemma sa_wfD:
  assumes "sa_wf s"
  shows "ev_inv (tp_transport_layer (sa_topic s))" "l \<in> set (ev_data (tp_transport_layer (sa_topic s))) \<Longrightarrow> tl_wf l"
    "ev_inv (sv_methods (sa_service s))" "ev_inv (cl_methods (sa_client s))" "cmd_ok (sa_cmd_type s)" "pri_wf (sa_process s)"
  using assms by (auto simp: sa_wf_def)

lemma tl_new_wf: "tl_wf tl_new" using tl_new_clean by (simp add: tl_clean_def)

lemma topic_keeps: "sa_wf s \<Longrightarrow> sa_wf (snd (DeserializeTopicSample z m s))"
proof (unfold DeserializeTopicSample_def, rule rd_message_keeps)
  have layers: "sa_wf s \<Longrightarrow> sa_wf (snd (AddRepeatedMessage z f tl_new (tp_transport_layer \<circ> sa_topic)
      (sa_topic_update \<circ> tp_transport_layer_update) (DeserializeTransportLayer z) s))" for f s
    by (rule AddRepeatedMessage_keeps [where P = sa_wf and R = tl_wf]) (auto simp: sa_wfD tlayer_keeps tl_new_wf)
  show "sa_wf s \<Longrightarrow> sa_wf (snd (topic_field z f s))" for f s
    unfolding topic_field_def Let_def using layers by (auto simp: sa_wfD intro!: keeps [where P = sa_wf])
qed

lemma pri_wf_upd [simp]:
  "pri_wf (pri_registration_clock_update c p) = pri_wf p" "pri_wf (pri_shm_transport_domain_update f p) = pri_wf p"
  "pri_wf (pri_process_name_update f p) = pri_wf p" "pri_wf (pri_unit_name_update f p) = pri_wf p"
  "pri_wf (pri_process_parameter_update f p) = pri_wf p" "pri_wf (pri_time_sync_module_name_update f p) = pri_wf p"
  "pri_wf (pri_component_init_state_update c p) = pri_wf p" "pri_wf (pri_component_init_info_update f p) = pri_wf p"
  "pri_wf (pri_ecal_runtime_version_update f p) = pri_wf p" "pri_wf (pri_config_file_path_update f p) = pri_wf p"
  by (simp_all add: pri_wf_def)

lemma process_state_keeps:
  assumes "pri_wf p"
  shows "pri_wf (p\<lparr>pri_state := snd (rd_message (process_state_field z) m (pri_state p))\<rparr>)"
proof -
  let ?P = "\<lambda>st. severity_ok (pst_severity st) \<and> severity_level_ok (pst_severity_level st)"
  have "?P (snd (rd_message (process_state_field z) m (pri_state p)))"
  proof (rule rd_message_keeps [where P = ?P])
    show "?P st \<Longrightarrow> ?P (snd (process_state_field z f st))" for f st
      unfolding process_state_field_def Let_def by (auto intro!: keeps [where P = ?P])
  qed (use assms in \<open>simp add: pri_wf_def\<close>)
  then show ?thesis using assms by (simp add: pri_wf_def)
qed

lemma process_keeps: "sa_wf s \<Longrightarrow> sa_wf (snd (DeserializeProcessSample z m s))"
proof (unfold DeserializeProcessSample_def, rule rd_message_keeps)
  have t: "pri_wf p \<Longrightarrow> pri_wf (p\<lparr>pri_time_sync_state := tsync_of_num (sint (n :: i32))\<rparr>)" for p n by (simp add: pri_wf_def)
  have st: "sa_wf s \<Longrightarrow> sa_wf ((sa_process_update \<circ> pri_state_update) (\<lambda>_. snd (rd_message (process_state_field z) m ((pri_state \<circ> sa_process) s))) s)" for s m
    using process_state_keeps [of "sa_process s" z m] by (cases s) (simp add: sa_wf_def)
  show "sa_wf s \<Longrightarrow> sa_wf (snd (process_field z f s))" for f s
    unfolding process_field_def Let_def using st by (auto simp: sa_wfD t intro!: keeps [where P = sa_wf])
qed

lemma service_keeps: "sa_wf s \<Longrightarrow> sa_wf (snd (DeserializeServiceSample z m s))"
proof (unfold DeserializeServiceSample_def, rule rd_message_keeps)
  have methods: "sa_wf s \<Longrightarrow> sa_wf (snd (AddRepeatedMessage z f sm_new (sv_methods \<circ> sa_service)
      (sa_service_update \<circ> sv_methods_update) (DeserializeMethodSample z) s))" for f s
    by (rule AddRepeatedMessage_keeps [where P = sa_wf and R = "\<lambda>_. True"]) (auto simp: sa_wfD)
  show "sa_wf s \<Longrightarrow> sa_wf (snd (service_field z f s))" for f s
    unfolding service_field_def Let_def using methods by (auto simp: sa_wfD intro!: keeps [where P = sa_wf])
qed

lemma client_keeps: "sa_wf s \<Longrightarrow> sa_wf (snd (DeserializeClientSample z m s))"
proof (unfold DeserializeClientSample_def, rule rd_message_keeps)
  have methods: "sa_wf s \<Longrightarrow> sa_wf (snd (AddRepeatedMessage z f sm_new (cl_methods \<circ> sa_client)
      (sa_client_update \<circ> cl_methods_update) (DeserializeMethodSample z) s))" for f s
    by (rule AddRepeatedMessage_keeps [where P = sa_wf and R = "\<lambda>_. True"]) (auto simp: sa_wfD)
  show "sa_wf s \<Longrightarrow> sa_wf (snd (client_field z f s))" for f s
    unfolding client_field_def Let_def using methods by (auto simp: sa_wfD intro!: keeps [where P = sa_wf])
qed

lemma sample_keeps: "sa_wf s \<Longrightarrow> sa_wf (snd (DeserializeRegistrationSample z m s))"
proof -
  assume s: "sa_wf s"
  have f: "sa_wf s \<Longrightarrow> sa_wf (snd (sample_field z f s))" for f s
    unfolding sample_field_def Let_def
    by (auto simp: AssignMessage_def split_beta topic_keeps process_keeps service_keeps client_keeps split: option.splits)
  have c: "sa_wf (snd (read_cmd_type z m s))"
    using s by (auto simp: read_cmd_type_def split: option.splits intro!: rd_enum_keeps [where P = sa_wf])
  obtain r s' where "read_cmd_type z m s = (r, s')" by (cases "read_cmd_type z m s")
  then show ?thesis using c rd_message_keeps [where P = sa_wf and step = "sample_field z" and s = s' and m = m] f
    by (cases r) (simp_all add: DeserializeRegistrationSample_def)
qed

text \<open>
  C30. Reading a list of samples from any bytes at all, truncated or malformed ones and numbers without an enumerator
  included, and whether it succeeds or ends in an exception, leaves a list in which every vector is in order (no size
  beyond its storage), in the samples, their layers and methods: the list that the receiver keeps for the next message.
\<close>

theorem any_bytes_wf:
  assumes "sl_wf t"
  shows "sl_wf (snd (list_DeserializeFromBuffer z bs t))"
proof -
  let ?m = "z_read z bs" and ?c = "ev_clear sa_clear t"
  have c: "sl_wf ?c" using assms sa_clear_clean sa_clean_wf by (auto simp: sl_wf_def) (auto simp: ev_clear_def)
  have f: "sl_wf l \<Longrightarrow> sl_wf (snd (sample_list_field z f l))" for f l
    unfolding sample_list_field_def
    by (auto intro!: AddRepeatedMessage_keeps [where P = sl_wf and R = sa_wf] simp: sample_keeps sa_clean_wf [OF sa_new_clean])
      (auto simp: sl_wf_def)
  have "sl_wf (snd (DeserializeRegistrationSampleList z ?m ?c))"
    unfolding DeserializeRegistrationSampleList_def by (rule rd_message_keeps [where P = sl_wf, OF f c])
  then show ?thesis
    by (auto simp: list_DeserializeFromBuffer_def reading_result_def split: prod.splits read_state.splits)
qed

text \<open>A message that is cut off in its second sample, after a command without an enumerator, read into a list in use.\<close>

theorem any_bytes_wf_witness:
  "sl_wf (snd (list_DeserializeFromBuffer wire_pz
    (list_SerializeToBuffer wire_pz (ev_of_list [demo_process_sample]) @ [10, 2, 8, 99, 10, 3, 8]) (ev_of_list [demo_process_sample])))"
proof (rule any_bytes_wf)
  have "ev_data (ev_of_list [x]) = [x]" for x :: sample by (simp add: ev_of_list_def ev_push_back_def ev_new_def)
  then show "sl_wf (ev_of_list [demo_process_sample])" using demo_samples_wf by (simp add: sl_wf_def)
qed


end
