(* ===== verification/Registration_Link.thy ===== *)
theory Registration_Link
  imports Registration_Shm Registration_Wire
begin

text \<open>
  The registration over shared memory with the serialization of the samples in it: what a process announces
  is what the other processes of the host apply.
\<close>

definition reg_ser :: "'f pz \<Rightarrow> sample list \<Rightarrow> u8 list option" where
  "reg_ser z samples = Some (list_SerializeToBuffer z (ev_of_list samples))"

definition reg_de :: "'f pz \<Rightarrow> u8 list \<Rightarrow> sample list option" where
  "reg_de z bs = (case list_DeserializeFromBuffer z bs ev_new of (True, l) \<Rightarrow> Some (ev_list l) | (False, _) \<Rightarrow> None)"

lemma reg_codec:
  assumes "pz_ok z" "\<forall>s \<in> set samples. sa_wf s \<and> sa_registers s"
  obtains out where "reg_decoded (reg_ser z) (reg_de z) samples = Some out"
    "list_all2 (\<lambda>s s'. sa_agree s' (sa_sent s)) samples out"
proof -
  have t: "sl_wf ev_new" by (simp add: sl_wf_def) (simp add: ev_new_def)
  show ?thesis
    using sample_codec [OF assms(1) _ t, of "ev_of_list samples"] assms(2) that
    by (auto simp: reg_decoded_def reg_ser_def reg_de_def)
qed

lemma reg_ser_bytes: "reg_ser z samples = Some (list_SerializeToBuffer z (ev_of_list samples))"
  by (simp add: reg_ser_def)

text \<open>The rounds: every payload fits into the file, the locks are free, the clock advances from round to round.\<close>

fun reg_ready :: "'f pz \<Rightarrow> nat \<Rightarrow> u64 \<Rightarrow> i64 \<Rightarrow> sample reg_input list \<Rightarrow> bool" where
  "reg_ready z cap i t [] = True"
| "reg_ready z cap i t ((e, be, re, samples) # xs) =
     ((\<forall>s \<in> set samples. sa_wf s \<and> sa_registers s) \<and>
      list_SerializeToBuffer z (ev_of_list samples) \<noteq> [] \<and> length (list_SerializeToBuffer z (ev_of_list samples)) \<le> cap \<and>
      se_mmap_ok (wv_shm e) \<and> (\<exists>r. wv_lk_write e = LkOk r) \<and> bv_ok (wv_updated e) \<and> bv_ok be \<and>
      se_mmap_ok (rv_shm re) \<and> rv_mtx_ok re \<and> (\<exists>r. rv_lk_create re i = LkOk r) \<and> (\<exists>r. rv_lk_read re i = LkOk r) \<and>
      sint t < sint (bv_now (wv_updated e)) \<and> reg_ready z cap i (bv_now (wv_updated e)) xs)"

lemma reg_ready_in_time:
  assumes "pz_ok z" "reg_ready z cap i t xs"
  shows "reg_in_time (reg_ser z) (reg_de z) cap i t xs"
  using assms(2)
proof (induction xs arbitrary: t)
  case (Cons x xs)
  obtain e be re samples where x: "x = (e, be, re, samples)" by (cases x)
  have "\<forall>s \<in> set samples. sa_wf s \<and> sa_registers s" using Cons.prems by (simp add: x)
  from reg_codec [OF assms(1) this] obtain out where "reg_decoded (reg_ser z) (reg_de z) samples = Some out" .
  then have "reg_decoded (reg_ser z) (reg_de z) samples \<noteq> None" by simp
  then show ?case using Cons reg_ser_bytes [of z samples] by (simp add: x re_fits_def)
qed simp

text \<open>
  C1. Registration over shared memory, end to end: two processes of a host that have their files open, a
  sequence of rounds in which one sends its samples and the other looks. Every sample the first sends is
  applied by the second exactly once, in the round in which it is sent, in order, and equal in all that is
  transmitted.
\<close>

theorem registration_end_to_end:
  assumes "pz_ok z" "rl_ready l i k cap" "unat (bc_queue_size (rl_bR l)) \<le> fuel"
    "reg_ready z cap (bwr_event_id (rl_w l)) (bc_last_timestamp (rl_bR l)) xs"
  shows "\<exists>rs l'. reg_stream (reg_ser z) (reg_de z) fuel xs l = Some (rs, l') \<and>
    list_all2 (\<lambda>(_, _, _, samples) (sent, applied). sent \<and> list_all2 (\<lambda>s s'. sa_agree s' (sa_sent s)) samples applied) xs rs"
proof -
  from registration_delivery [OF assms(2,3) reg_ready_in_time [OF assms(1,4)]] obtain l' where
    l': "reg_stream (reg_ser z) (reg_de z) fuel xs l =
      Some (map (\<lambda>(_, _, _, samples). (True, the (reg_decoded (reg_ser z) (reg_de z) samples))) xs, l')" by blast
  have "list_all2 (\<lambda>s s'. sa_agree s' (sa_sent s)) samples (the (reg_decoded (reg_ser z) (reg_de z) samples))"
    if "(e, be, re, samples) \<in> set xs" for e be re samples
  proof -
    have "reg_ready z cap j t ys \<Longrightarrow> (e, be, re, samples) \<in> set ys \<Longrightarrow> \<forall>s \<in> set samples. sa_wf s \<and> sa_registers s" for j t ys
      by (induction ys arbitrary: t) auto
    then have "\<forall>s \<in> set samples. sa_wf s \<and> sa_registers s" using assms(4) that by blast
    from reg_codec [OF assms(1) this] show ?thesis by fastforce
  qed
  then have "list_all2 (\<lambda>(_, _, _, samples) (sent, applied). sent \<and> list_all2 (\<lambda>s s'. sa_agree s' (sa_sent s)) samples applied) xs
      (map (\<lambda>(_, _, _, samples). (True, the (reg_decoded (reg_ser z) (reg_de z) samples))) xs)"
    by (auto simp: list.rel_map intro!: list.rel_refl_strong)
  then show ?thesis using l' by blast
qed


lemma wit_bytes: "list_SerializeToBuffer wire_pz (ev_of_list [demo_process_sample]) \<noteq> []"
  "length (list_SerializeToBuffer wire_pz (ev_of_list [demo_process_sample])) \<le> 100"
  by code_simp+

theorem registration_end_to_end_witness:
  "\<exists>rs l'. reg_stream (reg_ser wire_pz) (reg_de wire_pz) 3
      [(wit_wv 6, wit_bv 20 6, wit_rv, [demo_process_sample]), (wit_wv 7, wit_bv 20 7, wit_rv, [demo_process_sample])] wit_link = Some (rs, l') \<and>
    list_all2 (\<lambda>(_, _, _, samples) (sent, applied). sent \<and> list_all2 (\<lambda>s s'. sa_agree s' (sa_sent s)) samples applied)
      [(wit_wv 6, wit_bv 20 6, wit_rv, [demo_process_sample]), (wit_wv 7, wit_bv 20 7, wit_rv, [demo_process_sample])] rs"
proof (rule registration_end_to_end [OF wire_pz_ok wit_link_ready])
  have b: "Ex Not" by (rule exI [of _ False]) simp
  show "reg_ready wire_pz 100 (bwr_event_id (rl_w wit_link)) (bc_last_timestamp (rl_bR wit_link))
      [(wit_wv 6, wit_bv 20 6, wit_rv, [demo_process_sample]), (wit_wv 7, wit_bv 20 7, wit_rv, [demo_process_sample])]"
    using b wit_bytes demo_samples_wf
    by (simp add: wit_wv_def wit_bv_def wit_rv_def bv_ok_def wit_link_def wit_bc_def bc_new_def)
qed (simp add: wit_link_def wit_bc_def bc_new_def)

end
