(* ===== verification/Callback_Thread.thy ===== *)
theory Callback_Thread
  imports Ecal_Prelude
begin

text \<open>
  \<open>ecal/core/src/util/ecal_thread.h\<close>: \<open>CCallbackThread\<close>, the thread that calls a function periodically, at
  once when it is triggered, and not any more when it is stopped. The thread and its users interleave:
  a step relation whose events are the critical sections of the code.
\<close>

datatype ct_place = CtNotStarted | CtWaiting | CtCalling | CtExited

record cb_thread =
  ct_place :: ct_place
  ct_stopThread :: bool
  ct_triggerThread :: bool

definition ct_new :: cb_thread where
  "ct_new = \<lparr>ct_place = CtNotStarted, ct_stopThread = False, ct_triggerThread = False\<rparr>"

text \<open>
  \<open>CtStart\<close>, \<open>CtTrigger\<close> and \<open>CtStop\<close> are steps of the users (\<open>CtStop\<close> is the critical section of \<open>stop\<close>,
  \<open>CtJoin\<close> its return), \<open>CtWake\<close> is the end of the wait with what follows under the lock, \<open>CtCall\<close> the call.
  A wait may end at any time, by the timeout.
\<close>

datatype ct_event = CtStart | CtTrigger | CtStop | CtJoin | CtWake | CtCall

inductive ct_step :: "cb_thread \<Rightarrow> ct_event \<Rightarrow> cb_thread \<Rightarrow> bool" where
  start: "ct_place t = CtNotStarted \<Longrightarrow> ct_step t CtStart (t\<lparr>ct_place := CtWaiting\<rparr>)"
| trigger: "ct_step t CtTrigger (t\<lparr>ct_triggerThread := True\<rparr>)"
| stop: "ct_step t CtStop (t\<lparr>ct_stopThread := True\<rparr>)"
| join: "ct_place t = CtExited \<or> ct_place t = CtNotStarted \<Longrightarrow> ct_step t CtJoin t"
| wake_stopped: "ct_place t = CtWaiting \<Longrightarrow> ct_stopThread t \<Longrightarrow> ct_step t CtWake (t\<lparr>ct_place := CtExited\<rparr>)"
| wake_triggered: "ct_place t = CtWaiting \<Longrightarrow> \<not> ct_stopThread t \<Longrightarrow> ct_triggerThread t \<Longrightarrow>
    ct_step t CtWake (t\<lparr>ct_place := CtCalling, ct_triggerThread := False\<rparr>)"
| wake_timeout: "ct_place t = CtWaiting \<Longrightarrow> \<not> ct_stopThread t \<Longrightarrow> \<not> ct_triggerThread t \<Longrightarrow>
    ct_step t CtWake (t\<lparr>ct_place := CtCalling\<rparr>)"
| call: "ct_place t = CtCalling \<Longrightarrow> ct_step t CtCall (t\<lparr>ct_place := CtWaiting\<rparr>)"

inductive_simps ct_step_simps:
  "ct_step t CtStart t'" "ct_step t CtTrigger t'" "ct_step t CtStop t'" "ct_step t CtJoin t'"
  "ct_step t CtWake t'" "ct_step t CtCall t'"

fun ct_steps :: "cb_thread \<Rightarrow> ct_event list \<Rightarrow> cb_thread \<Rightarrow> bool" where
  "ct_steps t [] t' = (t = t')"
| "ct_steps t (e # es) t' = (\<exists>u. ct_step t e u \<and> ct_steps u es t')"

lemma ct_steps_append: "ct_steps t (xs @ ys) t' = (\<exists>u. ct_steps t xs u \<and> ct_steps u ys t')"
  by (induction xs arbitrary: t) auto

text \<open>An exited thread stays so, whatever its users do.\<close>

lemma ct_exited_step: "ct_step t e t' \<Longrightarrow> ct_place t = CtExited \<Longrightarrow> ct_place t' = CtExited \<and> e \<noteq> CtCall"
  by (induction rule: ct_step.induct) auto

lemma ct_exited: "ct_steps t es t' \<Longrightarrow> ct_place t = CtExited \<Longrightarrow> CtCall \<notin> set es"
  by (induction es arbitrary: t) (auto dest: ct_exited_step)

text \<open>After the critical section of \<open>stop\<close> the function is called at most once more, if the thread was about to call it.\<close>

lemma ct_stopped_step:
  "ct_step t e t' \<Longrightarrow> ct_stopThread t \<Longrightarrow> ct_stopThread t' \<and> (ct_place t \<noteq> CtCalling \<longrightarrow> e \<noteq> CtCall \<and> ct_place t' \<noteq> CtCalling)
    \<and> (e = CtCall \<longrightarrow> ct_place t' \<noteq> CtCalling)"
  by (induction rule: ct_step.induct) auto

lemma ct_stopped_calls:
  "ct_steps t es t' \<Longrightarrow> ct_stopThread t \<Longrightarrow> length (filter (\<lambda>e. e = CtCall) es) \<le> (if ct_place t = CtCalling then 1 else 0)"
proof (induction es arbitrary: t)
  case (Cons e es)
  then obtain u where u: "ct_step t e u" "ct_steps u es t'" by auto
  note s = ct_stopped_step [OF u(1) Cons.prems(2)]
  have "length (filter (\<lambda>e. e = CtCall) es) \<le> (if ct_place u = CtCalling then 1 else 0)"
    using Cons.IH [OF u(2)] s by blast
  then show ?case using s u(1) by (cases e) (auto simp: ct_step_simps split: if_splits)
qed simp

end
