(* ===== verification/Registration_Provider.thy ===== *)
theory Registration_Provider
  imports Callback_Thread Pub_Sub_Gates Registration_Wire
begin

text \<open>
  The sending side of the registration: \<open>ecal/core/src/registration/ecal_process_registration.cpp\<close>,
  \<open>ecal_registration_provider.{h,cpp}\<close> and \<open>registration/udp/ecal_registration_{sender,receiver}_udp.cpp\<close>.
\<close>

subsection \<open>The samples of the process\<close>

datatype time_sync_mode = TsmNone | TsmRealtime | TsmReplay

text \<open>What the process knows of itself: the time gate is there or not, the global object too.\<close>

record time_gate =
  tg_synchronized :: bool
  tg_mode :: time_sync_mode
  tg_name :: string

record process_env =
  pe_host_name :: string
  pe_process_id :: i32
  pe_shm_transport_domain :: string
  pe_process_name :: string
  pe_unit_name :: string
  pe_process_parameter :: string
  pe_state :: process_state
  pe_timegate :: "time_gate option"
  pe_components :: "u32 option"
  pe_version :: string
  pe_config_file_path :: string

definition pe_sync_state :: "time_gate option \<Rightarrow> time_sync_state" where
  "pe_sync_state tg =
     (case tg of
        None \<Rightarrow> TsyncNone
      | Some g \<Rightarrow>
          if \<not> tg_synchronized g then TsyncNone
          else (case tg_mode g of TsmRealtime \<Rightarrow> TsyncRealtime | TsmReplay \<Rightarrow> TsyncReplay | TsmNone \<Rightarrow> TsyncNone))"

text \<open>The bits of \<open>eCAL::Init\<close>.\<close>

definition component_info :: "u32 \<Rightarrow> string" where
  "component_info st =
     (let info = (if st AND 0x001 \<noteq> 0 then ''|pub'' else []);
          info = (if st AND 0x002 \<noteq> 0 then info @ ''|sub'' else info);
          info = (if st AND 0x010 \<noteq> 0 then info @ ''|log'' else info);
          info = (if st AND 0x020 \<noteq> 0 then info @ ''|time'' else info)
      in if info \<noteq> [] then drop 1 info else info)"

definition GetProcessRegisterSample :: "process_env \<Rightarrow> sample" where
  "GetProcessRegisterSample e =
     (let comp_state = (case pe_components e of None \<Rightarrow> 0 | Some c \<Rightarrow> c)
      in sa_new\<lparr>sa_cmd_type := BctRegProcess,
        sa_identifier := \<lparr>si_entity_id = scast (pe_process_id e), si_process_id = pe_process_id e, si_host_name = pe_host_name e\<rparr>,
        sa_process := pri_new\<lparr>pri_shm_transport_domain := pe_shm_transport_domain e, pri_process_name := pe_process_name e,
          pri_unit_name := pe_unit_name e, pri_process_parameter := pe_process_parameter e, pri_state := pe_state e,
          pri_time_sync_state := pe_sync_state (pe_timegate e),
          pri_time_sync_module_name := (case pe_timegate e of None \<Rightarrow> [] | Some g \<Rightarrow> tg_name g),
          pri_component_init_state := comp_state, pri_component_init_info := component_info comp_state,
          pri_ecal_runtime_version := pe_version e, pri_config_file_path := pe_config_file_path e\<rparr>\<rparr>)"

definition GetProcessUnregisterSample :: "process_env \<Rightarrow> sample" where
  "GetProcessUnregisterSample e =
     sa_new\<lparr>sa_cmd_type := BctUnregProcess,
       sa_identifier := si_new\<lparr>si_process_id := pe_process_id e, si_host_name := pe_host_name e\<rparr>,
       sa_process := pri_new\<lparr>pri_process_name := pe_process_name e, pri_unit_name := pe_unit_name e\<rparr>\<rparr>"

subsection \<open>CRegistrationProvider\<close>

text \<open>A sender is a value of type \<open>'w\<close>; sending a list changes it, the result is not looked at.\<close>

datatype transport_mode = RtmShm | RtmUdp

record 'w reg_provider =
  rp_created :: bool
  rp_mode :: transport_mode
  rp_sender :: "'w option"
  rp_applied :: sample_list
  rp_send_list :: sample_list

definition rp_new :: "transport_mode \<Rightarrow> 'w reg_provider" where
  "rp_new mode = \<lparr>rp_created = False, rp_mode = mode, rp_sender = None, rp_applied = ev_new, rp_send_list = ev_new\<rparr>"

text \<open>\<open>Start\<close>: the thread is started with it (the result is True).\<close>

definition rp_Start :: "(transport_mode \<Rightarrow> 'w) \<Rightarrow> 'w reg_provider \<Rightarrow> bool \<times> 'w reg_provider" where
  "rp_Start mk p =
     (if rp_created p then (False, p)
      else (True, p\<lparr>rp_sender := Some (mk (rp_mode p)), rp_created := True\<rparr>))"

definition rp_AddSingleSample :: "sample \<Rightarrow> 'w reg_provider \<Rightarrow> 'w reg_provider" where
  "rp_AddSingleSample s p = p\<lparr>rp_applied := ev_push_back (rp_applied p) s\<rparr>"

text \<open>\<open>RegisterSample\<close> triggers the thread when its result is True.\<close>

definition rp_RegisterSample :: "sample \<Rightarrow> 'w reg_provider \<Rightarrow> bool \<times> 'w reg_provider" where
  "rp_RegisterSample s p = (if \<not> rp_created p then (False, p) else (True, rp_AddSingleSample s p))"

definition rp_UnregisterSample :: "sample \<Rightarrow> 'w reg_provider \<Rightarrow> bool \<times> 'w reg_provider" where
  "rp_UnregisterSample s p = (if \<not> rp_created p then (False, p) else (True, rp_AddSingleSample s p))"

text \<open>The end of \<open>Stop\<close>, after the thread has been joined.\<close>

definition rp_finish :: "'w reg_provider \<Rightarrow> 'w reg_provider" where
  "rp_finish p = p\<lparr>rp_sender := None, rp_created := False\<rparr>"

text \<open>
  \<open>RegisterSendThread\<close>: \<open>collect\<close> stands for \<open>GetRegistrations\<close> of the gates that exist, in the order
  subscribers, publishers, services, clients (below for the first two).
\<close>

definition rp_RegisterSendThread ::
  "process_env \<Rightarrow> ('g \<Rightarrow> sample_list \<Rightarrow> sample_list \<times> 'g) \<Rightarrow> ('w \<Rightarrow> sample_list \<Rightarrow> 'w) \<Rightarrow> 'g \<Rightarrow> 'w reg_provider \<Rightarrow> 'g \<times> 'w reg_provider" where
  "rp_RegisterSendThread e collect send g p =
     (let l = ev_clear sa_clear (rp_send_list p);
          l = ev_push_back l (GetProcessRegisterSample e);
          (l, g) = collect g l;
          (l, a) = (if \<not> ev_empty (rp_applied p)
                    then (foldl ev_push_back l (ev_list (rp_applied p)), ev_clear sa_clear (rp_applied p))
                    else (l, rp_applied p))
      in (g, p\<lparr>rp_send_list := l, rp_applied := a, rp_sender := map_option (\<lambda>w. send w l) (rp_sender p)\<rparr>))"

definition rp_collect ::
  "'w writers \<Rightarrow> time_point \<Rightarrow> (sample_list \<Rightarrow> sample_list) \<Rightarrow> 'cb sub_gate option \<times> ('cb, 'w) pub_gate option \<Rightarrow> sample_list \<Rightarrow>
   sample_list \<times> 'cb sub_gate option \<times> ('cb, 'w) pub_gate option" where
  "rp_collect ws now services gates l =
     (case gates of (sg, pg) \<Rightarrow>
       (let (l, sg) = (case sg of None \<Rightarrow> (l, None) | Some g \<Rightarrow> (let (l, g, _) = sg_GetRegistrations now g l in (l, Some g)));
            (l, pg) = (case pg of None \<Rightarrow> (l, None) | Some g \<Rightarrow> (let (l, g) = pg_GetRegistrations ws now g l in (l, Some g)))
        in (services l, sg, pg)))"

subsection \<open>Registration over UDP\<close>

text \<open>The sockets are arguments: \<open>send\<close> returns the number of bytes sent.\<close>

definition ru_SendSample :: "'f pz \<Rightarrow> ('u \<Rightarrow> string \<Rightarrow> u8 list \<Rightarrow> u64 \<times> 'u) \<Rightarrow> 'u \<Rightarrow> sample \<Rightarrow> bool \<times> 'u" where
  "ru_SendSample z send u s =
     (let (n, u) = send u ''reg_sample'' (sample_SerializeToBuffer z s) in (n \<noteq> 0, u))"

definition ru_SendSampleList :: "'f pz \<Rightarrow> ('u \<Rightarrow> string \<Rightarrow> u8 list \<Rightarrow> u64 \<times> 'u) \<Rightarrow> 'u \<Rightarrow> sample_list \<Rightarrow> bool \<times> 'u" where
  "ru_SendSampleList z send u l =
     foldl (\<lambda>(ok, u) s. let (r, u) = ru_SendSample z send u s in (ok \<and> r, u)) (True, u) (ev_list l)"

text \<open>The sample handed to the callback for a message, if there is one.\<close>

definition ru_Receive :: "'f pz \<Rightarrow> u8 list \<Rightarrow> sample option" where
  "ru_Receive z bs =
     (case sample_DeserializeFromBuffer z bs sa_new of (True, s) \<Rightarrow> Some s | (False, _) \<Rightarrow> None)"

lemma udp_sample_delivered:
  assumes "pz_ok z" "sa_wf s" "sa_registers s"
  shows "\<exists>r. ru_Receive z (sample_SerializeToBuffer z s) = Some r \<and> sa_agree r (sa_sent s)"
proof -
  have "sa_clean (sa_clear sa_new)" using sa_clear_clean [OF sa_clean_wf [OF sa_new_clean]] .
  from sample_roundtrip [OF assms this] show ?thesis
    using assms(1) by (auto simp: ru_Receive_def sample_DeserializeFromBuffer_def sample_SerializeToBuffer_def pz_fields reading_result_def)
qed


subsection \<open>The provider and its thread\<close>

text \<open>
  A provider with its thread, and what other threads of the process do with it. A sender here keeps the lists
  it was given. \<open>Stop\<close> is five steps: add the unregistration, trigger, stop, join, finish.
\<close>

record 'g rp_system =
  rps_provider :: "sample list list reg_provider"
  rps_thread :: cb_thread
  rps_gates :: 'g

definition rp_log_send :: "sample list list \<Rightarrow> sample_list \<Rightarrow> sample list list" where
  "rp_log_send w l = w @ [ev_list l]"

datatype rp_event = RpRegister sample | RpUnregister sample | RpThread ct_event | RpStopAdd | RpFinish

inductive rp_step ::
  "process_env \<Rightarrow> ('g \<Rightarrow> sample_list \<Rightarrow> sample_list \<times> 'g) \<Rightarrow> 'g rp_system \<Rightarrow> rp_event \<Rightarrow> 'g rp_system \<Rightarrow> bool"
  for e collect where
  register: "rp_RegisterSample sa (rps_provider s) = (True, p) \<Longrightarrow> ct_step (rps_thread s) CtTrigger t \<Longrightarrow>
    rp_step e collect s (RpRegister sa) (s\<lparr>rps_provider := p, rps_thread := t\<rparr>)"
| unregister: "rp_UnregisterSample sa (rps_provider s) = (True, p) \<Longrightarrow>
    rp_step e collect s (RpUnregister sa) (s\<lparr>rps_provider := p\<rparr>)"
| call: "ct_step (rps_thread s) CtCall t \<Longrightarrow>
    rp_RegisterSendThread e collect rp_log_send (rps_gates s) (rps_provider s) = (g, p) \<Longrightarrow>
    rp_step e collect s (RpThread CtCall) (s\<lparr>rps_provider := p, rps_thread := t, rps_gates := g\<rparr>)"
| thread: "ev \<noteq> CtCall \<Longrightarrow> ct_step (rps_thread s) ev t \<Longrightarrow> rp_step e collect s (RpThread ev) (s\<lparr>rps_thread := t\<rparr>)"
| stop_add: "rp_created (rps_provider s) \<Longrightarrow>
    rp_step e collect s RpStopAdd (s\<lparr>rps_provider := rp_AddSingleSample (GetProcessUnregisterSample e) (rps_provider s)\<rparr>)"
| finish: "rp_step e collect s RpFinish (s\<lparr>rps_provider := rp_finish (rps_provider s)\<rparr>)"

inductive_simps rp_step_simps:
  "rp_step e collect s (RpThread ev) s'" "rp_step e collect s RpStopAdd s'" "rp_step e collect s RpFinish s'"
  "rp_step e collect s (RpRegister sa) s'" "rp_step e collect s (RpUnregister sa) s'"

fun rp_steps ::
  "process_env \<Rightarrow> ('g \<Rightarrow> sample_list \<Rightarrow> sample_list \<times> 'g) \<Rightarrow> 'g rp_system \<Rightarrow> rp_event list \<Rightarrow> 'g rp_system \<Rightarrow> bool" where
  "rp_steps e collect s [] s' = (s = s')"
| "rp_steps e collect s (ev # evs) s' = (\<exists>u. rp_step e collect s ev u \<and> rp_steps e collect u evs s')"

lemma rp_steps_append:
  "rp_steps e collect s (xs @ ys) s' = (\<exists>u. rp_steps e collect s xs u \<and> rp_steps e collect u ys s')"
  by (induction xs arbitrary: s) auto

definition rp_stop_events :: "ct_event list \<Rightarrow> ct_event list \<Rightarrow> ct_event list \<Rightarrow> rp_event list" where
  "rp_stop_events ts1 ts2 ts3 =
     [RpStopAdd] @ map RpThread ts1 @ [RpThread CtTrigger] @ map RpThread ts2 @ [RpThread CtStop] @ map RpThread ts3 @ [RpThread CtJoin]"

text \<open>The lists sent so far; what a list of the gates looks like is left open, as long as it keeps what is in it.\<close>

definition rp_sent :: "'g rp_system \<Rightarrow> sample list list" where
  "rp_sent s = (case rp_sender (rps_provider s) of None \<Rightarrow> [] | Some w \<Rightarrow> w)"

definition collect_ok :: "('g \<Rightarrow> sample_list \<Rightarrow> sample_list \<times> 'g) \<Rightarrow> bool" where
  "collect_ok collect \<longleftrightarrow> (\<forall>g l. ev_inv l \<longrightarrow> ev_inv (fst (collect g l)))"

definition rp_running :: "'g rp_system \<Rightarrow> bool" where
  "rp_running s \<longleftrightarrow> rp_created (rps_provider s) \<and> rp_sender (rps_provider s) \<noteq> None \<and>
     ev_inv (rp_applied (rps_provider s)) \<and> ev_inv (rp_send_list (rps_provider s))"

lemma ev_list_applied: "ev_inv l \<Longrightarrow> ev_list (foldl ev_push_back l xs) = ev_list l @ xs \<and> ev_inv (foldl ev_push_back l xs)"
  by (rule ev_list_pushes)

lemma ev_empty_list: "ev_inv v \<Longrightarrow> ev_empty v \<longleftrightarrow> ev_list v = []"
  by (auto simp: ev_empty_def ev_inv_def ev_list_def)

lemma rp_send_thread_sends:
  assumes "collect_ok collect" "rp_running s" "rp_RegisterSendThread e collect rp_log_send g (rps_provider s) = (g', p)"
  obtains front where "rp_sender p = Some (rp_sent s @ [front @ ev_list (rp_applied (rps_provider s))])"
    "rp_created p" "ev_inv (rp_applied p)" "ev_inv (rp_send_list p)" "ev_list (rp_applied p) = []"
proof -
  let ?P = "rps_provider s"
  let ?l = "ev_push_back (ev_clear sa_clear (rp_send_list ?P)) (GetProcessRegisterSample e)"
  obtain l g2 where c: "collect g ?l = (l, g2)" by (cases "collect g ?l")
  have i: "ev_inv ?l" "ev_inv (rp_applied ?P)" using assms(2) by (simp_all add: rp_running_def)
  then have l: "ev_inv l" using assms(1) c unfolding collect_ok_def by (metis fst_conv)
  obtain w where w: "rp_sender ?P = Some w" using assms(2) by (auto simp: rp_running_def)
  have p: "rp_created ?P" using assms(2) by (simp add: rp_running_def)
  show ?thesis
  proof (rule that [of "ev_list l"])
    show "rp_sender p = Some (rp_sent s @ [ev_list l @ ev_list (rp_applied ?P)])" "rp_created p" "ev_inv (rp_applied p)"
      "ev_inv (rp_send_list p)" "ev_list (rp_applied p) = []"
      using assms(3) i(2) l w p ev_list_applied [OF l, of "ev_list (rp_applied ?P)"] ev_empty_list [OF i(2)]
      by (auto simp: rp_RegisterSendThread_def c Let_def rp_sent_def rp_log_send_def split: if_splits)
  qed
qed

lemma rp_step_keeps:
  assumes "rp_step e collect s ev s'" "collect_ok collect" "rp_running s" "ev \<noteq> RpFinish"
  shows "rp_running s' \<and> (\<exists>more. rp_sent s' = rp_sent s @ more) \<and>
    (\<forall>u. u \<in> set (ev_list (rp_applied (rps_provider s))) \<or> u \<in> set (concat (rp_sent s)) \<longrightarrow>
       u \<in> set (ev_list (rp_applied (rps_provider s'))) \<or> u \<in> set (concat (rp_sent s')))"
  using assms
proof (induction rule: rp_step.induct)
  case (call s t g p)
  from rp_send_thread_sends [OF call(3,4,2)] obtain front where
    "rp_sender p = Some (rp_sent s @ [front @ ev_list (rp_applied (rps_provider s))])"
    "rp_created p" "ev_inv (rp_applied p)" "ev_inv (rp_send_list p)" "ev_list (rp_applied p) = []" .
  then show ?case by (auto simp: rp_running_def rp_sent_def)
qed (auto simp: rp_running_def rp_sent_def rp_AddSingleSample_def rp_RegisterSample_def rp_UnregisterSample_def split: if_splits)


lemma rp_call_step:
  assumes "collect_ok collect" "rp_running s" "rp_step e collect s (RpThread CtCall) s'"
  obtains front where "rp_sent s' = rp_sent s @ [front @ ev_list (rp_applied (rps_provider s))]" "rp_running s'"
proof -
  from assms(3) obtain t g p where s': "s' = s\<lparr>rps_provider := p, rps_thread := t, rps_gates := g\<rparr>"
    "rp_RegisterSendThread e collect rp_log_send (rps_gates s) (rps_provider s) = (g, p)"
    by (auto simp: rp_step_simps)
  from rp_send_thread_sends [OF assms(1,2) s'(2)] obtain front where
    "rp_sender p = Some (rp_sent s @ [front @ ev_list (rp_applied (rps_provider s))])" "rp_created p" "ev_inv (rp_applied p)" "ev_inv (rp_send_list p)" .
  then show ?thesis using s'(1) by (intro that [of front]) (simp_all add: rp_sent_def rp_running_def)
qed

text \<open>The thread's own steps: without a call nothing is sent, with one all that waits.\<close>

lemma rp_thread_steps:
  assumes "collect_ok collect" "rp_running s" "set ts \<subseteq> {CtWake, CtCall, CtTrigger, CtStop, CtJoin}"
    "rp_steps e collect s (map RpThread ts) s'"
  shows "rp_running s' \<and> (\<exists>more. rp_sent s' = rp_sent s @ more \<and>
    (if CtCall \<in> set ts then \<forall>u \<in> set (ev_list (rp_applied (rps_provider s))). \<exists>l \<in> set more. u \<in> set l
     else more = [] \<and> rp_applied (rps_provider s') = rp_applied (rps_provider s)))"
  using assms(2-)
proof (induction ts arbitrary: s)
  case (Cons t ts)
  obtain v where v: "rp_step e collect s (RpThread t) v" "rp_steps e collect v (map RpThread ts) s'" using Cons.prems by auto
  show ?case
  proof (cases "t = CtCall")
    case True
    from rp_call_step [OF assms(1) Cons.prems(1) v(1) [unfolded True]] obtain front where
      f: "rp_sent v = rp_sent s @ [front @ ev_list (rp_applied (rps_provider s))]" "rp_running v" .
    from Cons.IH [OF f(2) _ v(2)] Cons.prems(2) obtain more where "rp_running s'" "rp_sent s' = rp_sent v @ more" by auto
    then show ?thesis using True f(1) by (auto intro!: exI [of _ "(front @ ev_list (rp_applied (rps_provider s))) # more"])
  next
    case False
    then have k: "rps_provider v = rps_provider s" using v(1) by (auto simp: rp_step_simps)
    then have "rp_running v" using Cons.prems(1) by (simp add: rp_running_def)
    from Cons.IH [OF this _ v(2)] Cons.prems(2) have "rp_running s' \<and> (\<exists>more. rp_sent s' = rp_sent v @ more \<and>
      (if CtCall \<in> set ts then \<forall>u \<in> set (ev_list (rp_applied (rps_provider v))). \<exists>l \<in> set more. u \<in> set l
       else more = [] \<and> rp_applied (rps_provider s') = rp_applied (rps_provider v)))" by simp
    moreover have "rp_sent v = rp_sent s" using k by (simp add: rp_sent_def)
    moreover have "(CtCall \<in> set (t # ts)) = (CtCall \<in> set ts)" using False by auto
    ultimately show ?thesis by (simp only: k)
  qed
qed simp

lemma stop_sends_iff_called:
  assumes "collect_ok collect" "rp_running s" "set (ts1 @ ts2 @ ts3) \<subseteq> {CtWake, CtCall}"
    "rp_steps e collect s (rp_stop_events ts1 ts2 ts3) u"
  shows "\<exists>more. rp_sent u = rp_sent s @ more \<and>
    (if CtCall \<in> set (ts1 @ ts2 @ ts3) then \<exists>l \<in> set more. GetProcessUnregisterSample e \<in> set l else more = [])"
proof -
  let ?ts = "ts1 @ [CtTrigger] @ ts2 @ [CtStop] @ ts3 @ [CtJoin]"
  let ?s = "s\<lparr>rps_provider := rp_AddSingleSample (GetProcessUnregisterSample e) (rps_provider s)\<rparr>"
  have "rp_steps e collect ?s (map RpThread ?ts) u"
    using assms(4) by (auto simp: rp_stop_events_def rp_step_simps)
  moreover have "set ?ts \<subseteq> {CtWake, CtCall, CtTrigger, CtStop, CtJoin}" using assms(3) by auto
  moreover have "rp_running ?s" using assms(2) by (simp add: rp_running_def rp_AddSingleSample_def)
  ultimately obtain more where m: "rp_sent u = rp_sent ?s @ more"
    "if CtCall \<in> set ?ts then \<forall>u \<in> set (ev_list (rp_applied (rps_provider ?s))). \<exists>l \<in> set more. u \<in> set l else more = []"
    using rp_thread_steps [OF assms(1), of ?s ?ts e u] by (auto split: if_splits)
  have "GetProcessUnregisterSample e \<in> set (ev_list (rp_applied (rps_provider ?s)))"
    using assms(2) by (simp add: rp_running_def rp_AddSingleSample_def)
  then show ?thesis using m by (intro exI [of _ more]) (auto simp: rp_sent_def rp_AddSingleSample_def split: if_splits)
qed

text \<open>
  C31. \<open>Stop\<close> does not always announce the end of the process: it triggers the thread and stops it right after,
  and when the thread has not woken in between it exits without sending. Both runs exist from every running
  provider whose thread waits: one in which nothing is sent, and one in which the last list ends with what
  waited and the unregistration.
\<close>

theorem stop_race:
  assumes "collect_ok collect" "rp_running s" "ct_place (rps_thread s) = CtWaiting" "\<not> ct_stopThread (rps_thread s)"
  shows "(\<exists>u. rp_steps e collect s (rp_stop_events [] [] [CtWake]) u \<and> rp_sent u = rp_sent s) \<and>
    (\<exists>u front. rp_steps e collect s (rp_stop_events [] [CtWake, CtCall] [CtWake]) u \<and>
      rp_sent u = rp_sent s @ [front @ ev_list (rp_applied (rps_provider s)) @ [GetProcessUnregisterSample e]])"
proof -
  let ?p = "rp_AddSingleSample (GetProcessUnregisterSample e) (rps_provider s)"
  let ?s = "s\<lparr>rps_provider := ?p\<rparr>"
  let ?t1 = "(rps_thread s)\<lparr>ct_triggerThread := True\<rparr>"
  let ?lost = "?s\<lparr>rps_thread := ?t1\<lparr>ct_stopThread := True, ct_place := CtExited\<rparr>\<rparr>"
  have c: "rp_created (rps_provider s)" using assms(2) by (simp add: rp_running_def)
  have "rp_steps e collect s (rp_stop_events [] [] [CtWake]) ?lost"
    using c assms(3) by (simp add: rp_stop_events_def rp_step_simps ct_step_simps)
  moreover have "rp_sent ?lost = rp_sent s" by (simp add: rp_sent_def rp_AddSingleSample_def)
  moreover have "\<exists>u front. rp_steps e collect s (rp_stop_events [] [CtWake, CtCall] [CtWake]) u \<and>
      rp_sent u = rp_sent s @ [front @ ev_list (rp_applied (rps_provider s)) @ [GetProcessUnregisterSample e]]"
  proof -
    obtain g p where gp: "rp_RegisterSendThread e collect rp_log_send (rps_gates s) ?p = (g, p)"
      by (cases "rp_RegisterSendThread e collect rp_log_send (rps_gates s) ?p")
    have r: "rp_running ?s" using assms(2) by (simp add: rp_running_def rp_AddSingleSample_def)
    have gp': "rp_RegisterSendThread e collect rp_log_send (rps_gates s) (rps_provider ?s) = (g, p)" using gp by simp
    from rp_send_thread_sends [OF assms(1) r gp'] obtain front where
      f: "rp_sender p = Some (rp_sent ?s @ [front @ ev_list (rp_applied (rps_provider ?s))])" .
    let ?u = "s\<lparr>rps_provider := p, rps_gates := g, rps_thread := (rps_thread s)\<lparr>ct_place := CtExited, ct_triggerThread := False, ct_stopThread := True\<rparr>\<rparr>"
    have "rp_steps e collect s (rp_stop_events [] [CtWake, CtCall] [CtWake]) ?u"
      using c assms(3,4) gp by (simp add: rp_stop_events_def rp_step_simps ct_step_simps)
    moreover have "rp_sent ?u = rp_sent s @ [front @ ev_list (rp_applied (rps_provider s)) @ [GetProcessUnregisterSample e]]"
      using f assms(2) by (simp add: rp_sent_def rp_AddSingleSample_def rp_running_def)
    ultimately show ?thesis by blast
  qed
  ultimately show ?thesis by blast
qed

definition demo_process :: process_env where
  "demo_process = \<lparr>pe_host_name = ''h'', pe_process_id = 10, pe_shm_transport_domain = ''h'', pe_process_name = ''p'', pe_unit_name = ''u'',
     pe_process_parameter = [], pe_state = pst_new, pe_timegate = None, pe_components = Some 3, pe_version = ''6'', pe_config_file_path = []\<rparr>"

definition demo_provider :: "unit rp_system" where
  "demo_provider = \<lparr>rps_provider = snd (rp_Start (\<lambda>_. []) (rp_new RtmShm)),
     rps_thread = ct_new\<lparr>ct_place := CtWaiting\<rparr>, rps_gates = ()\<rparr>"

theorem stop_race_witness:
  "(\<exists>u. rp_steps demo_process (\<lambda>g l. (l, g)) demo_provider (rp_stop_events [] [] [CtWake]) u \<and> rp_sent u = rp_sent demo_provider) \<and>
    (\<exists>u front. rp_steps demo_process (\<lambda>g l. (l, g)) demo_provider (rp_stop_events [] [CtWake, CtCall] [CtWake]) u \<and>
      rp_sent u = rp_sent demo_provider @ [front @ ev_list (rp_applied (rps_provider demo_provider)) @ [GetProcessUnregisterSample demo_process]])"
  by (rule stop_race) (simp_all add: collect_ok_def demo_provider_def rp_running_def rp_Start_def rp_new_def ct_new_def)

end
