(* ===== verification/Registration_Receiver.thy ===== *)
theory Registration_Receiver
  imports Sample_Applier Timeout_Provider Pub_Sub_Gates
begin

text \<open>
  \<open>ecal/core/src/registration/ecal_registration_receiver.{h,cpp}\<close>: \<open>CRegistrationReceiver\<close>, which connects
  what arrives (samples from shared memory or UDP) with the sample applier, the timeout provider and the gates of
  the process. The state has the gates in it, so that an operation is followed to where it ends.
\<close>

subsection \<open>The receiver in its process\<close>

datatype rx_callback = RxGates | RxTimeout | RxCustom string

datatype receiver_mode = RxmShm | RxmUdp

record ('cb, 'w) reg_node =
  rx_created :: bool
  rx_mode :: receiver_mode
  rx_timeout_attr :: int
  rx_applier :: "rx_callback sample_applier"
  rx_timeout :: "timeout_provider option"
  rx_receiver :: "receiver_mode option"
  rx_sub :: "'cb sub_gate option"
  rx_pub :: "('cb, 'w) pub_gate option"
  rx_client :: bool

text \<open>The calls that leave the model: effects of the gates, the client gate, and the callbacks of other customers.\<close>

datatype 'cb rx_effect =
    RxSubEffect "'cb sub_effect"
  | RxPubEffect "'cb pub_effect"
  | RxServiceRegistration sample
  | RxCustomCall string sample

definition rx_new :: "receiver_mode \<Rightarrow> int \<Rightarrow> sap_attributes \<Rightarrow> ('cb, 'w) reg_node" where
  "rx_new mode timeout attr =
     \<lparr>rx_created = False, rx_mode = mode, rx_timeout_attr = timeout,
      rx_applier = sap_SetCustomApplySampleCallback (sap_new attr) ''gates'' RxGates,
      rx_timeout = None, rx_receiver = None, rx_sub = None, rx_pub = None, rx_client = False\<rparr>"

definition rx_Start :: "('cb, 'w) reg_node \<Rightarrow> ('cb, 'w) reg_node" where
  "rx_Start n =
     (if rx_created n then n
      else n\<lparr>rx_timeout := Some (tmo_new (rx_timeout_attr n)),
        rx_applier := sap_SetCustomApplySampleCallback (rx_applier n) ''timeout'' RxTimeout,
        rx_receiver := Some (rx_mode n), rx_created := True\<rparr>)"

definition rx_Stop :: "('cb, 'w) reg_node \<Rightarrow> ('cb, 'w) reg_node" where
  "rx_Stop n =
     (if \<not> rx_created n then n
      else n\<lparr>rx_receiver := None, rx_applier := sap_RemCustomApplySampleCallback (rx_applier n) ''timeout'',
        rx_timeout := None, rx_created := False\<rparr>)"

definition rx_SetCustomApplySampleCallback :: "string \<Rightarrow> ('cb, 'w) reg_node \<Rightarrow> ('cb, 'w) reg_node" where
  "rx_SetCustomApplySampleCallback customer n =
     n\<lparr>rx_applier := sap_SetCustomApplySampleCallback (rx_applier n) customer (RxCustom customer)\<rparr>"

definition rx_RemCustomApplySampleCallback :: "string \<Rightarrow> ('cb, 'w) reg_node \<Rightarrow> ('cb, 'w) reg_node" where
  "rx_RemCustomApplySampleCallback customer n =
     n\<lparr>rx_applier := sap_RemCustomApplySampleCallback (rx_applier n) customer\<rparr>"

definition rx_destroy :: "('cb, 'w) reg_node \<Rightarrow> ('cb, 'w) reg_node" where
  "rx_destroy n = rx_RemCustomApplySampleCallback ''gates'' (rx_RemCustomApplySampleCallback ''custom_registration'' (rx_Stop n))"

text \<open>What a sample does to the gates that exist.\<close>

definition rx_gates :: "'w writers \<Rightarrow> time_point \<Rightarrow> sample \<Rightarrow> ('cb, 'w) reg_node \<Rightarrow> ('cb, 'w) reg_node \<times> 'cb rx_effect list" where
  "rx_gates ws now s n =
     (case sag_ApplySample \<lparr>gp_clientgate = rx_client n, gp_pubgate = rx_pub n \<noteq> None, gp_subgate = rx_sub n \<noteq> None\<rparr> s of
        None \<Rightarrow> (n, [])
      | Some (GcServiceRegistration s) \<Rightarrow> (n, [RxServiceRegistration s])
      | Some (GcSubscriberRegistration s) \<Rightarrow>
          (let (g, effs) = pg_ApplySubscriberRegistration ws now (the (rx_pub n)) s in (n\<lparr>rx_pub := Some g\<rparr>, map RxPubEffect effs))
      | Some (GcSubscriberUnregistration s) \<Rightarrow>
          (let (g, effs) = pg_ApplySubscriberUnregistration ws (the (rx_pub n)) s in (n\<lparr>rx_pub := Some g\<rparr>, map RxPubEffect effs))
      | Some (GcPublisherRegistration s) \<Rightarrow>
          (let (g, effs) = sg_ApplyPublisherRegistration (the (rx_sub n)) s in (n\<lparr>rx_sub := Some g\<rparr>, map RxSubEffect effs))
      | Some (GcPublisherUnregistration s) \<Rightarrow>
          (let (g, effs) = sg_ApplyPublisherUnregistration (the (rx_sub n)) s in (n\<lparr>rx_sub := Some g\<rparr>, map RxSubEffect effs)))"

text \<open>A callback of the applier; \<open>None\<close> is undefined behaviour (of the expiration map, or a deleted timeout provider).\<close>

definition rx_call ::
  "'w writers \<Rightarrow> time_point \<Rightarrow> sample \<Rightarrow> rx_callback \<Rightarrow> ('cb, 'w) reg_node \<Rightarrow> (('cb, 'w) reg_node \<times> 'cb rx_effect list) option" where
  "rx_call ws now s cb n =
     (case cb of
        RxGates \<Rightarrow> Some (rx_gates ws now s n)
      | RxTimeout \<Rightarrow>
          (case rx_timeout n of
             None \<Rightarrow> None
           | Some p \<Rightarrow> map_option (\<lambda>(_, p). (n\<lparr>rx_timeout := Some p\<rparr>, [])) (tmo_ApplySample now p s))
      | RxCustom c \<Rightarrow> Some (n, [RxCustomCall c s]))"

fun rx_calls ::
  "'w writers \<Rightarrow> time_point \<Rightarrow> sample \<Rightarrow> rx_callback list \<Rightarrow> ('cb, 'w) reg_node \<Rightarrow> (('cb, 'w) reg_node \<times> 'cb rx_effect list) option" where
  "rx_calls ws now s [] n = Some (n, [])"
| "rx_calls ws now s (cb # cbs) n =
     (case rx_call ws now s cb n of
        None \<Rightarrow> None
      | Some (n, effs) \<Rightarrow> map_option (\<lambda>(n, es). (n, effs @ es)) (rx_calls ws now s cbs n))"

text \<open>A sample that arrives, from the network or from the timeout provider.\<close>

definition rx_ApplySample ::
  "'w writers \<Rightarrow> time_point \<Rightarrow> sample \<Rightarrow> ('cb, 'w) reg_node \<Rightarrow> (('cb, 'w) reg_node \<times> 'cb rx_effect list) option" where
  "rx_ApplySample ws now s n = (let (_, cbs) = sap_ApplySample (rx_applier n) s in rx_calls ws now s cbs n)"

fun rx_apply_all ::
  "'w writers \<Rightarrow> time_point \<Rightarrow> sample list \<Rightarrow> ('cb, 'w) reg_node \<Rightarrow> (('cb, 'w) reg_node \<times> 'cb rx_effect list) option" where
  "rx_apply_all ws now [] n = Some (n, [])"
| "rx_apply_all ws now (s # ss) n =
     (case rx_ApplySample ws now s n of
        None \<Rightarrow> None
      | Some (n, effs) \<Rightarrow> map_option (\<lambda>(n, es). (n, effs @ es)) (rx_apply_all ws now ss n))"

text \<open>The timeout thread, every 100 ms while the receiver runs.\<close>

definition rx_CheckForTimeouts ::
  "'w writers \<Rightarrow> time_point \<Rightarrow> ('cb, 'w) reg_node \<Rightarrow> (('cb, 'w) reg_node \<times> 'cb rx_effect list) option" where
  "rx_CheckForTimeouts ws now n =
     (case rx_timeout n of
        None \<Rightarrow> None
      | Some p \<Rightarrow>
          (case tmo_CheckForTimeouts now p of
             None \<Rightarrow> None
           | Some (expired, p) \<Rightarrow> rx_apply_all ws now expired (n\<lparr>rx_timeout := Some p\<rparr>)))"

subsection \<open>What happens to a process\<close>

text \<open>
  Samples and checks, and what the process itself does with its subscribers: a new one, the end of one, a
  payload sample, the cyclic collection of registrations.
\<close>

datatype 'cb node_op =
    NodeSample sample
  | NodeCheck
  | NodeSubscribe nat string nat "'cb subscriber"
  | NodeUnsubscribe string nat
  | NodePayload bool topic_info "u8 list" i64 i64 i64 tlayer_type

definition node_sub :: "('cb sub_gate \<Rightarrow> 'cb sub_gate) \<Rightarrow> ('cb, 'w) reg_node \<Rightarrow> ('cb, 'w) reg_node" where
  "node_sub f n = n\<lparr>rx_sub := map_option f (rx_sub n)\<rparr>"

definition node_exec :: "'w writers \<Rightarrow> time_point \<Rightarrow> 'cb node_op \<Rightarrow> ('cb, 'w) reg_node \<Rightarrow> ('cb, 'w) reg_node option" where
  "node_exec ws now op n =
     (case op of
        NodeSample s \<Rightarrow> map_option fst (rx_ApplySample ws now s n)
      | NodeCheck \<Rightarrow> map_option fst (rx_CheckForTimeouts ws now n)
      | NodeSubscribe pos topic r s \<Rightarrow> Some (node_sub (\<lambda>g. snd (sg_Register pos g topic r s)) n)
      | NodeUnsubscribe topic r \<Rightarrow> Some (node_sub (\<lambda>g. fst (snd (sg_Unregister g topic r))) n)
      | NodePayload oo ti pl i clock t layer \<Rightarrow> Some (node_sub (\<lambda>g. fst (snd (sg_ApplySample now oo g ti pl i clock t layer))) n))"

fun node_run :: "'w writers \<Rightarrow> (time_point \<times> 'cb node_op) list \<Rightarrow> ('cb, 'w) reg_node \<Rightarrow> ('cb, 'w) reg_node option" where
  "node_run ws [] n = Some n"
| "node_run ws ((now, op) # ops) n = (case node_exec ws now op n of None \<Rightarrow> None | Some n \<Rightarrow> node_run ws ops n)"

subsection \<open>What a sample does to the subscribers and to the timeout provider\<close>

definition rx_sub_step :: "sample \<Rightarrow> 'cb sub_gate \<Rightarrow> 'cb sub_gate" where
  "rx_sub_step s g =
     (case sa_cmd_type s of
        BctRegPublisher \<Rightarrow> fst (sg_ApplyPublisherRegistration g s)
      | BctUnregPublisher \<Rightarrow> fst (sg_ApplyPublisherUnregistration g s)
      | _ \<Rightarrow> g)"

lemma rx_gates_sub:
  "rx_sub (fst (rx_gates ws now s n)) = map_option (rx_sub_step s) (rx_sub n) \<and>
   rx_timeout (fst (rx_gates ws now s n)) = rx_timeout n \<and> rx_applier (fst (rx_gates ws now s n)) = rx_applier n"
  by (cases "sa_cmd_type s"; cases "rx_sub n")
    (auto simp: rx_gates_def sag_ApplySample_def rx_sub_step_def Let_def split: prod.splits option.splits if_splits)

text \<open>The callbacks of the applier, each once, with the gates and the timeout provider among them.\<close>

definition rx_wired :: "('cb, 'w) reg_node \<Rightarrow> bool" where
  "rx_wired n \<longleftrightarrow>
     (let cbs = map snd (sap_callbacks (rx_applier n)) in distinct cbs \<and> RxGates \<in> set cbs \<and> RxTimeout \<in> set cbs)"

lemma rx_calls_parts:
  assumes "distinct cbs" "rx_timeout n = Some p" "tmo_ApplySample now p s = Some (b, p')"
  obtains n' effs where "rx_calls ws now s cbs n = Some (n', effs)"
    "rx_sub n' = (if RxGates \<in> set cbs then map_option (rx_sub_step s) (rx_sub n) else rx_sub n)"
    "rx_timeout n' = Some (if RxTimeout \<in> set cbs then p' else p)" "rx_applier n' = rx_applier n"
proof -
  have "\<exists>n' effs. rx_calls ws now s cbs n = Some (n', effs) \<and>
      rx_sub n' = (if RxGates \<in> set cbs then map_option (rx_sub_step s) (rx_sub n) else rx_sub n) \<and>
      rx_timeout n' = (if RxTimeout \<in> set cbs then Some p' else rx_timeout n) \<and> rx_applier n' = rx_applier n"
    if "distinct cbs" "RxTimeout \<in> set cbs \<Longrightarrow> rx_timeout n = Some p" for n :: "('a, 'b) reg_node"
    using that
  proof (induction cbs arbitrary: n)
    case (Cons cb cbs)
    obtain n1 e1 where n1: "rx_call ws now s cb n = Some (n1, e1)"
      "rx_sub n1 = (if cb = RxGates then map_option (rx_sub_step s) (rx_sub n) else rx_sub n)"
      "rx_timeout n1 = (if cb = RxTimeout then Some p' else rx_timeout n)" "rx_applier n1 = rx_applier n"
    proof (cases cb)
      case RxGates
      then show ?thesis using that [of "fst (rx_gates ws now s n)"] rx_gates_sub [of ws now s n]
        by (cases "rx_gates ws now s n") (simp add: rx_call_def)
    next
      case RxTimeout
      then show ?thesis using that Cons.prems(2) assms(3) by (simp add: rx_call_def)
    next
      case (RxCustom c)
      then show ?thesis using that by (simp add: rx_call_def)
    qed
    have "distinct cbs" "RxTimeout \<in> set cbs \<Longrightarrow> rx_timeout n1 = Some p" using Cons.prems n1(3) by auto
    from Cons.IH [OF this] obtain n2 e2 where "rx_calls ws now s cbs n1 = Some (n2, e2)"
      "rx_sub n2 = (if RxGates \<in> set cbs then map_option (rx_sub_step s) (rx_sub n1) else rx_sub n1)"
      "rx_timeout n2 = (if RxTimeout \<in> set cbs then Some p' else rx_timeout n1)" "rx_applier n2 = rx_applier n1"
      by blast
    with n1 Cons.prems(1) show ?case by (cases "rx_sub n") auto
  qed simp
  from this [OF assms(1), of n] assms(2) obtain n' effs where r: "rx_calls ws now s cbs n = Some (n', effs)"
    "rx_sub n' = (if RxGates \<in> set cbs then map_option (rx_sub_step s) (rx_sub n) else rx_sub n)"
    "rx_timeout n' = (if RxTimeout \<in> set cbs then Some p' else rx_timeout n)" "rx_applier n' = rx_applier n"
    by blast
  show ?thesis by (rule that [OF r(1,2) _ r(4)]) (simp add: r(3) assms(2))
qed

lemma rx_ApplySample_parts:
  assumes "rx_wired n" "rx_timeout n = Some p" "tmo_ApplySample now p s = Some (b, p')"
    and "sap_AcceptRegistrationSample (sap_attr (rx_applier n)) s"
  obtains n' effs where "rx_ApplySample ws now s n = Some (n', effs)" "rx_wired n'"
    "rx_sub n' = map_option (rx_sub_step s) (rx_sub n)" "rx_timeout n' = Some p'" "rx_applier n' = rx_applier n"
proof -
  let ?cbs = "map snd (sap_callbacks (rx_applier n))"
  have w: "distinct ?cbs" "RxGates \<in> set ?cbs" "RxTimeout \<in> set ?cbs" using assms(1) by (auto simp: rx_wired_def Let_def)
  show ?thesis
    by (rule rx_calls_parts [OF w(1) assms(2,3), of ws])
      (use that w assms(1,4) in \<open>auto simp: rx_ApplySample_def sap_ApplySample_def rx_wired_def\<close>)
qed

lemma rx_ApplySample_dropped:
  "\<not> sap_AcceptRegistrationSample (sap_attr (rx_applier n)) s \<Longrightarrow> rx_ApplySample ws now s n = Some (n, [])"
  by (simp add: rx_ApplySample_def sap_ApplySample_def)

lemma rx_wired_Start:
  "rx_wired (rx_Start (rx_new mode timeout attr))"
  by (simp add: rx_wired_def rx_Start_def rx_new_def sap_new_def sap_SetCustomApplySampleCallback_def Let_def)

subsection \<open>Publishers and their topics\<close>

text \<open>
  \<open>K\<close> says which entity is a publisher, and of which topic. A sample agrees with it if a publisher's
  samples name its topic, and no other sample has a publisher's entity id.
\<close>

definition smp_agrees :: "(u64 \<Rightarrow> string option) \<Rightarrow> sample \<Rightarrow> bool" where
  "smp_agrees K s \<longleftrightarrow>
     (if sa_cmd_type s = BctRegPublisher \<or> sa_cmd_type s = BctUnregPublisher
      then K (si_entity_id (sa_identifier s)) = Some (tp_topic_name (sa_topic s)) \<and> tp_topic_name (sa_topic s) \<noteq> []
      else K (si_entity_id (sa_identifier s)) = None)"

text \<open>Every publisher a subscriber of the gate is connected to is one of its topic, and is in \<open>T\<close>.\<close>

definition sub_linked :: "(u64 \<Rightarrow> string option) \<Rightarrow> u64 set \<Rightarrow> string \<Rightarrow> 'cb subscriber \<Rightarrow> bool" where
  "sub_linked K T k s \<longleftrightarrow> sb_inv s \<and> (\<forall>e. sb_phase s e = Connected \<longrightarrow> K e = Some k \<and> e \<in> T)"

definition gate_linked :: "(u64 \<Rightarrow> string option) \<Rightarrow> u64 set \<Rightarrow> 'cb sub_gate \<Rightarrow> bool" where
  "gate_linked K T g \<longleftrightarrow> gt_created g \<and> (\<forall>(k, r, s) \<in> set (gt_map g). sub_linked K T k s)"

lemma sub_linked_mono: "sub_linked K T k s \<Longrightarrow> T \<subseteq> T' \<Longrightarrow> sub_linked K T' k s"
  by (auto simp: sub_linked_def)

lemma sub_linked_inv: "sub_linked K T k s \<Longrightarrow> sb_inv s"
  by (simp add: sub_linked_def)

lemma sub_linked_registration:
  assumes "sub_linked K T k s" "K (si_entity_id pub) = Some k"
  shows "sub_linked K (insert (si_entity_id pub) T) k (fst (sb_ApplyPublisherRegistration s pub d pl))"
  using assms sb_inv_exec [of s "SbPublisherRegistration pub d pl"]
  by (auto simp: sub_linked_def sb_phase_registration sb_exec_def split: if_splits)

lemma sb_phase_unregistration:
  assumes "sb_inv s"
  shows "sb_phase (fst (sb_ApplyPublisherUnregistration s pub d)) e = (if e = si_entity_id pub then Unknown else sb_phase s e)"
proof -
  have "om_invar si_entity_id (sb_connection_map s)" using assms by (simp add: sb_inv_def)
  then show ?thesis
    by (auto simp: sb_ApplyPublisherUnregistration_def Let_def sb_phase_def om_find_erase)
qed

lemma sub_linked_unregistration:
  assumes "sub_linked K T k s"
  shows "sub_linked K (T - {si_entity_id pub}) k (fst (sb_ApplyPublisherUnregistration s pub d))"
  using assms sb_inv_exec [of s "SbPublisherUnregistration pub d"]
  by (auto simp: sub_linked_def sb_phase_unregistration sb_exec_def split: if_splits)

text \<open>An unregistration of a publisher of another topic has nothing to take away.\<close>

lemma sub_linked_other: "sub_linked K T k s \<Longrightarrow> K e \<noteq> Some k \<Longrightarrow> sub_linked K (T - {e}) k s"
  by (auto simp: sub_linked_def)

lemma sub_linked_payload:
  assumes "sub_linked K T k s"
  shows "sub_linked K T k (fst (snd (sb_ApplySample now oo s ti pl i clock t layer)))"
proof (rule sb_ApplySample_shape [of now oo s ti pl i clock t layer])
  fix size s' effs
  assume r: "sb_ApplySample now oo s ti pl i clock t layer = (size, s', effs)"
    and t: "sb_touched s (sb_connection_map s')"
    and c: "sb_connection_count s' = sb_connection_count s" "sb_counter_map s' = sb_counter_map s"
  have "sb_phase s' e = Connected \<Longrightarrow> sb_phase s e = Connected" for e
    using sb_phase_touched [OF t, of e] by auto
  moreover have "sb_inv s'" using sb_inv_touched [OF _ t c] assms by (simp add: sub_linked_def)
  ultimately show ?thesis using assms r by (auto simp: sub_linked_def)
qed

lemma gate_linked_mono: "gate_linked K T g \<Longrightarrow> T \<subseteq> T' \<Longrightarrow> gate_linked K T' g"
  by (auto simp: gate_linked_def intro: sub_linked_mono)

definition rx_links :: "sample \<Rightarrow> u64 set \<Rightarrow> u64 set" where
  "rx_links s T =
     (let e = si_entity_id (sa_identifier s) in
      case sa_cmd_type s of BctRegPublisher \<Rightarrow> insert e T | BctUnregPublisher \<Rightarrow> T - {e} | _ \<Rightarrow> T)"

lemma gate_linked_sample:
  assumes "gate_linked K T g" "smp_agrees K s"
  shows "gate_linked K (rx_links s T) (rx_sub_step s g)"
proof -
  let ?e = "si_entity_id (sa_identifier s)"
  have g: "gt_created g" "\<And>k r x. (k, r, x) \<in> set (gt_map g) \<Longrightarrow> sub_linked K T k x"
    using assms(1) by (auto simp: gate_linked_def)
  consider (reg) "sa_cmd_type s = BctRegPublisher" | (unreg) "sa_cmd_type s = BctUnregPublisher"
    | (other) "sa_cmd_type s \<noteq> BctRegPublisher" "sa_cmd_type s \<noteq> BctUnregPublisher" by blast
  then show ?thesis
  proof cases
    case reg
    then have K: "K ?e = Some (tp_topic_name (sa_topic s))" "tp_topic_name (sa_topic s) \<noteq> []"
      using assms(2) by (simp_all add: smp_agrees_def)
    then show ?thesis using reg g sub_linked_registration [OF g(2)] sub_linked_mono [OF g(2), of _ _ _ "insert ?e T"]
      by (fastforce simp: rx_sub_step_def rx_links_def gate_linked_def sg_ApplyPublisherRegistration_def mm_visit_map
          split_beta Let_def)
  next
    case unreg
    then have K: "K ?e = Some (tp_topic_name (sa_topic s))" "tp_topic_name (sa_topic s) \<noteq> []"
      using assms(2) by (simp_all add: smp_agrees_def)
    have "sub_linked K (T - {?e}) k x" if "(k, r, x) \<in> set (gt_map g)" "k \<noteq> tp_topic_name (sa_topic s)" for k r x
      using sub_linked_other [OF g(2) [OF that(1)]] that(2) K(1) by simp
    with unreg g K sub_linked_unregistration [OF g(2)] show ?thesis
      by (fastforce simp: rx_sub_step_def rx_links_def gate_linked_def sg_ApplyPublisherUnregistration_def mm_visit_map
          split_beta Let_def)
  next
    case other
    then have "rx_sub_step s g = g" "rx_links s T = T"
      by (auto simp: rx_sub_step_def rx_links_def Let_def split: cmd_type.splits)
    then show ?thesis using assms(1) by simp
  qed
qed

text \<open>What the process does with its own subscribers connects nobody.\<close>

lemma gate_linked_Register:
  "gate_linked K T g \<Longrightarrow> sb_inv s \<Longrightarrow> sb_connection_map s = [] \<Longrightarrow> gate_linked K T (snd (sg_Register pos g topic r s))"
  by (auto simp: gate_linked_def sg_Register_def um_emplace_def sub_linked_def sb_phase_def
      dest!: in_set_takeD in_set_dropD)

lemma mm_erase_ref_subset: "set (fst (mm_erase_ref m k r)) \<subseteq> set m"
  by (induction m k r rule: mm_erase_ref.induct) (auto simp: Let_def split: prod.splits)

lemma gate_linked_Unregister:
  assumes "gate_linked K T g"
  shows "gate_linked K T (fst (snd (sg_Unregister g topic r)))"
  using assms mm_erase_ref_subset [of "gt_map g" topic r]
  by (auto simp: gate_linked_def sg_Unregister_def split: prod.splits option.splits)

lemma gate_linked_payload:
  assumes "gate_linked K T g"
  shows "gate_linked K T (fst (snd (sg_ApplySample now oo g ti pl i clock t layer)))"
  using assms sub_linked_payload [of K T]
  by (fastforce simp: gate_linked_def sg_ApplySample_def sg_apply_readers_map split_beta Let_def)

subsection \<open>The process\<close>

abbreviation smp_id :: "sample \<Rightarrow> u64" where
  "smp_id s \<equiv> si_entity_id (sa_identifier s)"

lemma gate_linked_weaken:
  "gate_linked K T g \<Longrightarrow> (\<And>e. e \<in> T \<Longrightarrow> K e \<noteq> None \<Longrightarrow> e \<in> T') \<Longrightarrow> gate_linked K T' g"
  by (fastforce simp: gate_linked_def sub_linked_def)

text \<open>What the timeout provider holds for an entity: the sample it will apply when the entity falls silent.\<close>

definition rx_tracker :: "('cb, 'w) reg_node \<Rightarrow> tmo_abs" where
  "rx_tracker n = (case rx_timeout n of None \<Rightarrow> Map.empty | Some p \<Rightarrow> tmo_abs p)"

definition smp_final :: "(u64 \<Rightarrow> string option) \<Rightarrow> sap_attributes \<Rightarrow> sample \<Rightarrow> bool" where
  "smp_final K a u \<longleftrightarrow> smp_agrees K u \<and>
     (K (smp_id u) \<noteq> None \<longrightarrow> sa_cmd_type u = BctUnregPublisher \<and> sap_AcceptRegistrationSample a u)"

definition tracker_agrees :: "(u64 \<Rightarrow> string option) \<Rightarrow> sap_attributes \<Rightarrow> tmo_abs \<Rightarrow> bool" where
  "tracker_agrees K a m \<longleftrightarrow> (\<forall>e u t. m e = Some (u, t) \<longrightarrow> smp_id u = e \<and> smp_final K a u)"

definition node_inv :: "(u64 \<Rightarrow> string option) \<Rightarrow> int \<Rightarrow> time_point \<Rightarrow> u64 set \<Rightarrow> ('cb, 'w) reg_node \<Rightarrow> bool" where
  "node_inv K timeout now P n \<longleftrightarrow> rx_wired n \<and>
     (\<exists>g p. rx_sub n = Some g \<and> rx_timeout n = Some p \<and> tmo_inv now p \<and> tmo_timeout p = timeout \<and>
        tracker_agrees K (sap_attr (rx_applier n)) (tmo_abs p) \<and> gate_linked K (dom (tmo_abs p) \<union> P) g)"

lemma sap_accept_cong:
  "sa_identifier u = sa_identifier s \<Longrightarrow> sap_sample_domain u = sap_sample_domain s \<Longrightarrow>
    sap_AcceptRegistrationSample a u = sap_AcceptRegistrationSample a s"
  by (simp add: sap_accept_defs)

lemma smp_final_created:
  assumes "smp_agrees K s" "sap_AcceptRegistrationSample a s" "\<not> IsUnregistrationSample s"
  shows "smp_final K a (CreateUnregisterSample s) \<and> smp_id (CreateUnregisterSample s) = smp_id s"
proof -
  let ?u = "CreateUnregisterSample s"
  have u: "sa_identifier ?u = sa_identifier s" "sa_cmd_type ?u = GetUnregistrationType s"
    by (simp_all add: CreateUnregisterSample_def cus_defs)
  have t: "sa_cmd_type s = BctRegPublisher \<Longrightarrow> tp_topic_name (sa_topic ?u) = tp_topic_name (sa_topic s)
      \<and> sap_AcceptRegistrationSample a ?u"
    using assms(2)
    by (subst sap_accept_cong [of ?u s])
      (simp_all add: u sap_sample_domain_def,
       simp_all add: CreateUnregisterSample_def cus_defs GetUnregistrationType_def IsTopicRegistration_def
        IsProcessRegistration_def)
  show ?thesis using assms(1,3) t
    by (cases "sa_cmd_type s") (auto simp: smp_final_def smp_agrees_def u GetUnregistrationType_def IsUnregistrationSample_def)
qed

lemma tracker_agrees_apply:
  assumes "tracker_agrees K a m" "smp_agrees K s" "sap_AcceptRegistrationSample a s"
  shows "tracker_agrees K a (spec_apply now s m)"
  using assms smp_final_created [OF assms(2,3)]
  by (auto simp: tracker_agrees_def spec_apply_def Let_def split: option.splits)

lemma node_inv_sample:
  assumes "node_inv K timeout now P n" "smp_agrees K s"
  defines "acc \<equiv> sap_AcceptRegistrationSample (sap_attr (rx_applier n)) s"
  obtains n' effs where "rx_ApplySample ws now s n = Some (n', effs)" "rx_applier n' = rx_applier n"
    "rx_tracker n' = (if acc then spec_apply now s (rx_tracker n) else rx_tracker n)"
    "node_inv K timeout now (if acc \<and> sa_cmd_type s = BctUnregPublisher then P - {smp_id s} else P) n'"
proof -
  obtain g p where n: "rx_wired n" "rx_sub n = Some g" "rx_timeout n = Some p" "tmo_inv now p" "tmo_timeout p = timeout"
    and m: "tracker_agrees K (sap_attr (rx_applier n)) (tmo_abs p)" and g: "gate_linked K (dom (tmo_abs p) \<union> P) g"
    using assms(1) by (auto simp: node_inv_def)
  show ?thesis
  proof (cases acc)
    case False
    then show ?thesis using that [of n "[]"] assms(1) rx_ApplySample_dropped [of n s ws now] by (simp add: acc_def)
  next
    case True
    obtain p' where p': "tmo_ApplySample now p s = Some (True, p')" "tmo_inv now p'" "tmo_timeout p' = tmo_timeout p"
      "tmo_abs p' = spec_apply now s (tmo_abs p)"
      using tmo_apply_refines [OF n(4)] .
    obtain n' effs where n': "rx_ApplySample ws now s n = Some (n', effs)" "rx_wired n'"
      "rx_sub n' = map_option (rx_sub_step s) (rx_sub n)" "rx_timeout n' = Some p'" "rx_applier n' = rx_applier n"
      using rx_ApplySample_parts [OF n(1,3) p'(1)] True unfolding acc_def by blast
    let ?P = "if sa_cmd_type s = BctUnregPublisher then P - {smp_id s} else P"
    have "e \<in> dom (tmo_abs p') \<union> ?P" if "e \<in> rx_links s (dom (tmo_abs p) \<union> P)" "K e \<noteq> None" for e
      using that assms(2)
      by (cases "sa_cmd_type s")
        (auto simp: rx_links_def p'(4) spec_apply_def Let_def smp_agrees_def IsUnregistrationSample_def)
    with gate_linked_sample [OF g assms(2)] have "gate_linked K (dom (tmo_abs p') \<union> ?P) (rx_sub_step s g)"
      by (rule gate_linked_weaken)
    moreover have "tracker_agrees K (sap_attr (rx_applier n')) (tmo_abs p')"
      using tracker_agrees_apply [OF m assms(2)] True by (simp add: acc_def n'(5) p'(4))
    ultimately have "node_inv K timeout now ?P n'"
      using n n' p' by (simp add: node_inv_def)
    then show ?thesis using that [OF n'(1,5)] True n(3) n'(4) p'(4) by (simp add: rx_tracker_def cong: if_cong)
  qed
qed

lemma node_inv_weaken:
  assumes "node_inv K timeout now P n" "\<And>e. e \<in> P \<Longrightarrow> K e \<noteq> None \<Longrightarrow> e \<in> P'"
  shows "node_inv K timeout now P' n"
proof -
  have "gate_linked K (M \<union> P') g" if "gate_linked K (M \<union> P) g" for M and g :: "'a sub_gate"
    using assms(2) by (intro gate_linked_weaken [OF that]) blast
  then show ?thesis using assms(1) by (auto simp: node_inv_def)
qed

text \<open>The samples of entities that expired: their publishers end up connected to nobody.\<close>

lemma node_inv_expired:
  assumes "node_inv K timeout now (smp_id ` set us) n" "\<forall>u \<in> set us. smp_final K (sap_attr (rx_applier n)) u"
  shows "\<exists>n' effs. rx_apply_all ws now us n = Some (n', effs) \<and> rx_applier n' = rx_applier n \<and>
    node_inv K timeout now {} n' \<and> (\<forall>e. K e \<noteq> None \<longrightarrow> rx_tracker n' e = None \<or> rx_tracker n' e = rx_tracker n e)"
  using assms
proof (induction us arbitrary: n)
  case (Cons u us)
  have u: "smp_agrees K u"
    "K (smp_id u) \<noteq> None \<Longrightarrow> sa_cmd_type u = BctUnregPublisher \<and> sap_AcceptRegistrationSample (sap_attr (rx_applier n)) u"
    using Cons.prems(2) by (simp_all add: smp_final_def)
  obtain n1 e1 where n1: "rx_ApplySample ws now u n = Some (n1, e1)" "rx_applier n1 = rx_applier n"
    "rx_tracker n1 = (if sap_AcceptRegistrationSample (sap_attr (rx_applier n)) u then spec_apply now u (rx_tracker n) else rx_tracker n)"
    "node_inv K timeout now (if sap_AcceptRegistrationSample (sap_attr (rx_applier n)) u \<and> sa_cmd_type u = BctUnregPublisher
       then smp_id ` set (u # us) - {smp_id u} else smp_id ` set (u # us)) n1"
    using node_inv_sample [OF Cons.prems(1) u(1)] .
  have "node_inv K timeout now (smp_id ` set us) n1"
    by (rule node_inv_weaken [OF n1(4)]) (use u(2) in \<open>auto split: if_splits\<close>)
  from Cons.IH [OF this] Cons.prems(2) n1(2) obtain n2 e2 where n2: "rx_apply_all ws now us n1 = Some (n2, e2)"
    "rx_applier n2 = rx_applier n1" "node_inv K timeout now {} n2"
    "\<And>e. K e \<noteq> None \<Longrightarrow> rx_tracker n2 e = None \<or> rx_tracker n2 e = rx_tracker n1 e"
    by auto
  have "rx_tracker n1 e = None \<or> rx_tracker n1 e = rx_tracker n e" if "K e \<noteq> None" for e
    using that u by (auto simp: n1(3) spec_apply_def Let_def IsUnregistrationSample_def)
  with n2(4) have "\<forall>e. K e \<noteq> None \<longrightarrow> rx_tracker n2 e = None \<or> rx_tracker n2 e = rx_tracker n e" by metis
  then show ?case using n1(1,2) n2(1-3) by simp
qed simp

lemma node_inv_check:
  assumes "node_inv K timeout now {} n"
  obtains n' effs where "rx_CheckForTimeouts ws now n = Some (n', effs)" "node_inv K timeout now {} n'"
    "\<And>e. K e \<noteq> None \<Longrightarrow> rx_tracker n' e = None \<or> rx_tracker n' e = spec_check timeout now (rx_tracker n) e"
proof -
  obtain g p where n: "rx_wired n" "rx_sub n = Some g" "rx_timeout n = Some p" "tmo_inv now p" "tmo_timeout p = timeout"
    and m: "tracker_agrees K (sap_attr (rx_applier n)) (tmo_abs p)" and g: "gate_linked K (dom (tmo_abs p)) g"
    using assms by (auto simp: node_inv_def)
  obtain us p' where p': "tmo_CheckForTimeouts now p = Some (us, p')" "tmo_inv now p'" "tmo_timeout p' = tmo_timeout p"
    "tmo_abs p' = spec_check (tmo_timeout p) now (tmo_abs p)" "set us = ran (spec_expired (tmo_timeout p) now (tmo_abs p))"
    using tmo_check_refines [OF n(4)] .
  let ?n = "n\<lparr>rx_timeout := Some p'\<rparr>"
  have us: "\<exists>t. tmo_abs p (smp_id u) = Some (u, t) \<and> smp_final K (sap_attr (rx_applier n)) u" if "u \<in> set us" for u
  proof -
    obtain e t where e: "tmo_abs p e = Some (u, t)"
      using \<open>u \<in> set us\<close> by (auto simp: p'(5) ran_def spec_expired_def split: option.splits if_splits)
    then have "smp_id u = e \<and> smp_final K (sap_attr (rx_applier n)) u"
      using m unfolding tracker_agrees_def by blast
    then show ?thesis using e by blast
  qed
  have "e \<in> dom (tmo_abs p') \<union> smp_id ` set us" if "e \<in> dom (tmo_abs p)" for e
  proof (cases "spec_expired (tmo_timeout p) now (tmo_abs p) e")
    case None
    then show ?thesis using that by (auto simp: p'(4) spec_check_def)
  next
    case (Some u)
    then have "smp_id u = e" using m by (auto simp: spec_expired_def tracker_agrees_def split: option.splits if_splits)
    then show ?thesis using Some by (auto simp: p'(5) ran_def)
  qed
  then have g': "gate_linked K (dom (tmo_abs p') \<union> smp_id ` set us) g" by (intro gate_linked_mono [OF g]) blast
  have m': "tracker_agrees K (sap_attr (rx_applier n)) (tmo_abs p')"
    using m by (auto simp: tracker_agrees_def p'(4) spec_check_def)
  have "node_inv K timeout now (smp_id ` set us) ?n"
    using n p'(2,3) g' m' by (simp add: node_inv_def rx_wired_def)
  from node_inv_expired [OF this, of ws] us obtain n' effs where r: "rx_apply_all ws now us ?n = Some (n', effs)"
    "node_inv K timeout now {} n'" "\<forall>e. K e \<noteq> None \<longrightarrow> rx_tracker n' e = None \<or> rx_tracker n' e = rx_tracker ?n e"
    by auto
  show ?thesis
    by (rule that [OF _ r(2), of effs]) (use r n(3,5) p'(1,4) in \<open>auto simp: rx_CheckForTimeouts_def rx_tracker_def\<close>)
qed

definition node_ok :: "(u64 \<Rightarrow> string option) \<Rightarrow> 'cb node_op \<Rightarrow> bool" where
  "node_ok K op =
     (case op of
        NodeSample s \<Rightarrow> smp_agrees K s
      | NodeSubscribe pos topic r s \<Rightarrow> sb_inv s \<and> sb_connection_map s = []
      | _ \<Rightarrow> True)"

definition announces :: "u64 \<Rightarrow> 'cb node_op \<Rightarrow> bool" where
  "announces e op = (case op of NodeSample s \<Rightarrow> sa_cmd_type s = BctRegPublisher \<and> smp_id s = e | _ \<Rightarrow> False)"

definition last_heard :: "u64 \<Rightarrow> time_point \<Rightarrow> ('cb, 'w) reg_node \<Rightarrow> bool" where
  "last_heard e t n \<longleftrightarrow> (\<forall>u t'. rx_tracker n e = Some (u, t') \<longrightarrow> t' \<le> t)"

lemma node_inv_later:
  "node_inv K timeout now P n \<Longrightarrow> now \<le> now' \<Longrightarrow> node_inv K timeout now' P n"
  unfolding node_inv_def using tmo_inv_later by blast

lemma node_inv_sub:
  assumes "node_inv K timeout now P n" "\<And>T g. gate_linked K T g \<Longrightarrow> gate_linked K T (f g)"
  shows "node_inv K timeout now P (node_sub f n) \<and> rx_tracker (node_sub f n) = rx_tracker n"
  using assms by (auto simp: node_inv_def node_sub_def rx_wired_def rx_tracker_def)

lemma node_step:
  assumes "node_inv K timeout now {} n" "node_ok K op"
  obtains n' where "node_exec ws now op n = Some n'" "node_inv K timeout now {} n'"
    "\<And>e t. K e \<noteq> None \<Longrightarrow> last_heard e t n \<Longrightarrow> (announces e op \<Longrightarrow> now \<le> t) \<Longrightarrow> last_heard e t n'"
proof (cases op)
  case (NodeSample s)
  then have s: "smp_agrees K s" using assms(2) by (simp add: node_ok_def)
  obtain n' effs where n': "rx_ApplySample ws now s n = Some (n', effs)"
    "rx_tracker n' = (if sap_AcceptRegistrationSample (sap_attr (rx_applier n)) s then spec_apply now s (rx_tracker n) else rx_tracker n)"
    "node_inv K timeout now {} n'"
    by (rule node_inv_sample [OF assms(1) s, of ws]) (simp cong: if_cong)
  have "last_heard e t n'" if "K e \<noteq> None" "last_heard e t n" "announces e op \<Longrightarrow> now \<le> t" for e t
    using that s NodeSample
    by (cases "sa_cmd_type s")
      (auto simp: last_heard_def n'(2) spec_apply_def Let_def announces_def smp_agrees_def IsUnregistrationSample_def)
  then show ?thesis using that [of n'] n' by (simp add: node_exec_def NodeSample)
next
  case NodeCheck
  obtain n' effs where n': "rx_CheckForTimeouts ws now n = Some (n', effs)" "node_inv K timeout now {} n'"
    "\<And>e. K e \<noteq> None \<Longrightarrow> rx_tracker n' e = None \<or> rx_tracker n' e = spec_check timeout now (rx_tracker n) e"
    by (rule node_inv_check [OF assms(1), of ws]) (rule that)
  have "last_heard e t n'" if "K e \<noteq> None" "last_heard e t n" for e t
    using n'(3) [OF that(1)] that(2) by (auto simp: last_heard_def spec_check_def split: if_splits)
  then show ?thesis using that [of n'] n'(1,2) by (simp add: node_exec_def NodeCheck)
next
  case (NodeSubscribe pos topic r s)
  have "node_inv K timeout now {} (node_sub (\<lambda>g. snd (sg_Register pos g topic r s)) n) \<and>
      rx_tracker (node_sub (\<lambda>g. snd (sg_Register pos g topic r s)) n) = rx_tracker n"
    by (rule node_inv_sub [OF assms(1)]) (use assms(2) NodeSubscribe in \<open>auto simp: node_ok_def intro: gate_linked_Register\<close>)
  then show ?thesis using that by (simp add: node_exec_def NodeSubscribe last_heard_def)
next
  case (NodeUnsubscribe topic r)
  have "node_inv K timeout now {} (node_sub (\<lambda>g. fst (snd (sg_Unregister g topic r))) n) \<and>
      rx_tracker (node_sub (\<lambda>g. fst (snd (sg_Unregister g topic r))) n) = rx_tracker n"
    by (rule node_inv_sub [OF assms(1)]) (rule gate_linked_Unregister)
  then show ?thesis using that by (simp add: node_exec_def NodeUnsubscribe last_heard_def)
next
  case (NodePayload oo ti pl i clock t layer)
  have "node_inv K timeout now {} (node_sub (\<lambda>g. fst (snd (sg_ApplySample now oo g ti pl i clock t layer))) n) \<and>
      rx_tracker (node_sub (\<lambda>g. fst (snd (sg_ApplySample now oo g ti pl i clock t layer))) n) = rx_tracker n"
    by (rule node_inv_sub [OF assms(1)]) (rule gate_linked_payload)
  then show ?thesis using that by (simp add: node_exec_def NodePayload last_heard_def)
qed

lemma node_steps:
  assumes "node_inv K timeout t0 {} n" "sorted (t0 # map fst ops)" "\<forall>(t', op) \<in> set ops. node_ok K op"
  shows "\<exists>n'. node_run ws ops n = Some n' \<and> node_inv K timeout (last (t0 # map fst ops)) {} n' \<and>
    (\<forall>e t. K e \<noteq> None \<longrightarrow> last_heard e t n \<longrightarrow> (\<forall>(t', op) \<in> set ops. t < t' \<longrightarrow> \<not> announces e op) \<longrightarrow> last_heard e t n')"
  using assms
proof (induction ops arbitrary: t0 n)
  case (Cons o1 ops)
  obtain now op where o1: "o1 = (now, op)" by (cases o1)
  have "node_inv K timeout now {} n" using Cons.prems(1,2) by (auto simp: o1 intro: node_inv_later)
  moreover have "node_ok K op" using Cons.prems(3) by (simp add: o1)
  ultimately obtain n1 where n1: "node_exec ws now op n = Some n1" "node_inv K timeout now {} n1"
    "\<And>e t. K e \<noteq> None \<Longrightarrow> last_heard e t n \<Longrightarrow> (announces e op \<Longrightarrow> now \<le> t) \<Longrightarrow> last_heard e t n1"
    using node_step [of K timeout now n op ws] by blast
  have "sorted (now # map fst ops)" "\<forall>(t', op) \<in> set ops. node_ok K op" using Cons.prems(2,3) by (simp_all add: o1)
  from Cons.IH [OF n1(2) this] obtain n2 where n2: "node_run ws ops n1 = Some n2"
    "node_inv K timeout (last (now # map fst ops)) {} n2"
    "\<And>e t. K e \<noteq> None \<Longrightarrow> last_heard e t n1 \<Longrightarrow> \<forall>(t', op) \<in> set ops. t < t' \<longrightarrow> \<not> announces e op \<Longrightarrow> last_heard e t n2"
    by blast
  have "last_heard e t n2" if "K e \<noteq> None" "last_heard e t n" "\<forall>(t', op) \<in> set (o1 # ops). t < t' \<longrightarrow> \<not> announces e op" for e t
    using that n1(3) [OF that(1,2)] n2(3) [OF that(1)] by (fastforce simp: o1)
  then show ?case using n1(1) n2(1,2) by (simp add: o1)
qed simp

lemma node_run_append:
  "node_run ws (as @ bs) n = (case node_run ws as n of None \<Rightarrow> None | Some n \<Rightarrow> node_run ws bs n)"
  by (induction ws as n rule: node_run.induct) (auto split: option.splits)

text \<open>A process that has just started, with a subscriber gate and no subscribers yet.\<close>

definition rx_started :: "receiver_mode \<Rightarrow> int \<Rightarrow> sap_attributes \<Rightarrow> ('cb, 'w) pub_gate option \<Rightarrow> ('cb, 'w) reg_node" where
  "rx_started mode timeout attr pg =
     (rx_Start (rx_new mode timeout attr))\<lparr>rx_sub := Some (sg_Start gt_new), rx_pub := pg\<rparr>"

lemma node_inv_started: "node_inv K timeout t0 {} (rx_started mode timeout attr pg)"
proof -
  have "rx_wired (rx_started mode timeout attr pg)"
    using rx_wired_Start [of mode timeout attr] by (simp add: rx_started_def rx_wired_def)
  moreover have "tmo_timeout (tmo_new timeout) = timeout" by (simp add: tmo_new_def em_new_def)
  ultimately show ?thesis
    by (simp add: node_inv_def rx_started_def rx_Start_def rx_new_def tmo_inv_new tmo_abs_new tracker_agrees_def
        gate_linked_def sg_Start_def gt_new_def)
qed

text \<open>
  C6. A publisher that falls silent is disconnected. Take any history of a process since its start:
  samples that arrive (from any host, accepted or not), checks for timeouts, subscribers that come and go, payload
  samples. Assume that publishers have entity ids of their own, each with one topic, and that nothing announces
  publisher \<open>e\<close> after time \<open>t\<close>. Then the first check later than \<open>t\<close> plus the timeout leaves no subscriber of
  the process connected to \<open>e\<close>; and no operation of the history is undefined.
\<close>

theorem silent_publisher_disconnected:
  assumes "sorted (map fst ops @ [now])" "\<forall>(t', op) \<in> set ops. node_ok K op"
    and "\<forall>(t', op) \<in> set ops. t < t' \<longrightarrow> \<not> announces e op" "t + timeout < now"
  shows "\<exists>n g. node_run ws (ops @ [(now, NodeCheck)]) (rx_started mode timeout attr pg) = Some n \<and> rx_sub n = Some g \<and>
    (\<forall>(k, r, s) \<in> set (gt_map g). sb_phase s e \<noteq> Connected)"
proof -
  let ?n0 = "rx_started mode timeout attr pg"
  define t0 where "t0 = hd (map fst ops @ [now])"
  have t0: "sorted (t0 # map fst ops)" "last (t0 # map fst ops) \<le> now"
  proof -
    have le: "\<forall>x \<in> set (map fst ops). x \<le> now" "sorted (map fst ops)" using assms(1) by (simp_all only: sorted_append) auto
    show "sorted (t0 # map fst ops)" using le(2) by (cases ops) (simp_all add: t0_def)
    show "last (t0 # map fst ops) \<le> now"
    proof (cases ops)
      case Nil
      then show ?thesis by (simp add: t0_def)
    next
      case (Cons o1 os)
      then have "last (t0 # map fst ops) \<in> set (map fst ops)" by (metis last_ConsR last_in_set list.map_disc_iff list.distinct(1))
      then show ?thesis using le(1) by blast
    qed
  qed
  obtain n1 where n1: "node_run ws ops ?n0 = Some n1" "node_inv K timeout (last (t0 # map fst ops)) {} n1"
    and h: "K e \<noteq> None \<Longrightarrow> last_heard e t ?n0 \<Longrightarrow> last_heard e t n1"
    using node_steps [OF node_inv_started t0(1) assms(2), where ws = ws] assms(3) by blast
  have "rx_tracker ?n0 = Map.empty" by (simp add: rx_tracker_def rx_started_def rx_Start_def rx_new_def tmo_abs_new)
  then have h: "K e \<noteq> None \<Longrightarrow> last_heard e t n1" using h by (simp add: last_heard_def)
  obtain n2 effs where n2: "rx_CheckForTimeouts ws now n1 = Some (n2, effs)" "node_inv K timeout now {} n2"
    "K e \<noteq> None \<Longrightarrow> rx_tracker n2 e = None \<or> rx_tracker n2 e = spec_check timeout now (rx_tracker n1) e"
    by (rule node_inv_check [OF node_inv_later [OF n1(2) t0(2)], of ws]) (rule that)
  have gone: "K e \<noteq> None \<Longrightarrow> rx_tracker n2 e = None"
    using n2(3) h assms(4) by (fastforce simp: spec_check_def spec_expired_def last_heard_def split: option.splits)
  obtain g where g: "rx_sub n2 = Some g" "gate_linked K (dom (rx_tracker n2)) g"
    using n2(2) by (auto simp: node_inv_def rx_tracker_def)
  have "node_run ws (ops @ [(now, NodeCheck)]) ?n0 = Some n2"
    using n1(1) n2(1) node_run_append [of ws ops] by (simp add: node_exec_def)
  then show ?thesis using g gone by (force simp: gate_linked_def sub_linked_def)
qed

definition demo_rx_attr :: sap_attributes where
  "demo_rx_attr = \<lparr>sat_network_enabled = False, sat_loopback = True, sat_shm_transport_domain = [],
     sat_host_name = ''A'', sat_process_id = 7\<rparr>"

definition demo_rx_sample :: "cmd_type \<Rightarrow> sample" where
  "demo_rx_sample c = sa_new\<lparr>sa_cmd_type := c,
     sa_identifier := si_new\<lparr>si_entity_id := 5, si_host_name := ''A'', si_process_id := 8\<rparr>,
     sa_topic := tp_new\<lparr>tp_topic_name := ''t''\<rparr>\<rparr>"

definition demo_rx_ops :: "(time_point \<times> string node_op) list" where
  "demo_rx_ops =
     [(0, NodeSubscribe 0 ''t'' 0 (fst (sb_new 9 dti_new demo_sub_attr))),
      (10, NodeSample (demo_rx_sample BctRegPublisher)), (20, NodeSample (demo_rx_sample BctRegPublisher))]"

definition demo_connected :: "(string, nat) reg_node option \<Rightarrow> bool" where
  "demo_connected n =
     (case n of None \<Rightarrow> False
      | Some n \<Rightarrow> (case rx_sub n of None \<Rightarrow> False | Some g \<Rightarrow> list_ex (\<lambda>(k, r, s). sb_phase s 5 = Connected) (gt_map g)))"

lemma demo_sub_new_ok: "sb_inv (fst (sb_new i ti attr))" "sb_connection_map (fst (sb_new i ti attr)) = []"
  by (simp_all add: sb_reachable_inv reach_new) (simp add: sb_new_def sb_StartTransportLayer_def Let_def)

lemma demo_rx_ok: "\<forall>(t', op) \<in> set demo_rx_ops. node_ok [5 \<mapsto> ''t''] op"
  by (simp add: demo_rx_ops_def node_ok_def demo_sub_new_ok smp_agrees_def demo_rx_sample_def)

theorem silent_publisher_disconnected_witness:
  "\<not> demo_connected (node_run demo_writers (demo_rx_ops @ [(31, NodeCheck)]) (rx_started RxmShm 10 demo_rx_attr None))"
proof -
  have "sorted (map fst demo_rx_ops @ [31])" "\<forall>(t', op) \<in> set demo_rx_ops. 20 < t' \<longrightarrow> \<not> announces 5 op"
    "(20 :: int) + 10 < 31"
    by (simp_all add: demo_rx_ops_def)
  from silent_publisher_disconnected [OF this(1) demo_rx_ok this(2,3), of demo_writers RxmShm demo_rx_attr None]
  show ?thesis by (auto simp: demo_connected_def list_ex_iff)
qed

text \<open>And it was connected before.\<close>

lemma demo_rx_connected: "demo_connected (node_run ws demo_rx_ops (rx_started RxmShm 10 demo_rx_attr None))"
  by code_simp

end
