(* ===== verification/Payload_Wire.thy ===== *)
theory Payload_Wire
  imports Registration_Wire Pub_Sub_Gates
begin

text \<open>
  \<open>ecal/core/src/serialization/ecal_serialize_sample_payload.cpp\<close> (the protozero implementation, the one in
  use): payload samples as protocol buffer messages. The conventions are those of the registration samples.
\<close>

subsection \<open>Writing\<close>

text \<open>
  The bytes that are written. A raw pointer is the bytes it points to, so \<open>raw_size\<close> of them are there to read.
  An empty payload leaves no field.
\<close>

definition SerializePayload :: "'f pz \<Rightarrow> payload \<Rightarrow> 'f list" where
  "SerializePayload z p = (let bs = payload_bytes p in if bs = [] then [] else [z_add_view z 4 bs])"

definition topic_info_fields :: "'f pz \<Rightarrow> topic_info \<Rightarrow> 'f list" where
  "topic_info_fields z ti =
     [z_add_string z 7 (pti_topic_name ti), z_add_string z 6 (str_u64 (pti_topic_id ti)),
      z_add_int32 z 3 (pti_process_id ti), z_add_string z 2 (pti_host_name ti)]"

definition content_fields :: "'f pz \<Rightarrow> content \<Rightarrow> 'f list" where
  "content_fields z c =
     [z_add_int64 z 1 (ct_id c), z_add_int64 z 2 (ct_clock c), z_add_int64 z 3 (ct_time c), z_add_int32 z 6 (ct_size c)] @
     SerializePayload z (ct_payload c) @ [z_add_int64 z 7 (ct_hash c)]"

definition SerializePayloadSample :: "'f pz \<Rightarrow> payload_sample \<Rightarrow> 'f list" where
  "SerializePayloadSample z s =
     add_enum z 1 (cmd_num (ps_cmd_type s)) # z_add_message z 5 (topic_info_fields z (ps_topic_info s)) @
     z_add_message z 6 (content_fields z (ps_content s)) @ [z_add_view z 8 (ps_padding s)]"

definition PayloadSerializeToBuffer :: "'f pz \<Rightarrow> payload_sample \<Rightarrow> u8 list" where
  "PayloadSerializeToBuffer z s = z_data z (SerializePayloadSample z s)"

subsection \<open>Reading\<close>

definition topic_info_field :: "'f pz \<Rightarrow> 'f \<Rightarrow> topic_info reading" where
  "topic_info_field z f =
     (let t = z_tag z f in
      if t = 7 then AssignString z f (\<lambda>v. pti_topic_name_update (\<lambda>_. v))
      else if t = 6 then AssignId z f (\<lambda>v. pti_topic_id_update (\<lambda>_. v))
      else if t = 3 then rd_set (z_get_int32 z f) (\<lambda>v. pti_process_id_update (\<lambda>_. v))
      else if t = 2 then AssignString z f (\<lambda>v. pti_host_name_update (\<lambda>_. v))
      else rd_skip)"

definition DeserializeTopicInfo :: "'f pz \<Rightarrow> 'f pz_message \<Rightarrow> topic_info reading" where
  "DeserializeTopicInfo z = rd_message (topic_info_field z)"

definition content_field :: "'f pz \<Rightarrow> 'f \<Rightarrow> content reading" where
  "content_field z f =
     (let t = z_tag z f in
      if t = 1 then rd_set (z_get_int64 z f) (\<lambda>v. ct_id_update (\<lambda>_. v))
      else if t = 2 then rd_set (z_get_int64 z f) (\<lambda>v. ct_clock_update (\<lambda>_. v))
      else if t = 3 then rd_set (z_get_int64 z f) (\<lambda>v. ct_time_update (\<lambda>_. v))
      else if t = 6 then rd_set (z_get_int32 z f) (\<lambda>v. ct_size_update (\<lambda>_. v))
      else if t = 4 then AssignBytes z f (\<lambda>v. ct_payload_update (pl_vec_update (\<lambda>_. v)))
      else if t = 7 then rd_set (z_get_int64 z f) (\<lambda>v. ct_hash_update (\<lambda>_. v))
      else rd_skip)"

definition DeserializeContent :: "'f pz \<Rightarrow> 'f pz_message \<Rightarrow> content reading" where
  "DeserializeContent z m c = rd_message (content_field z) m (ct_payload_update (pl_type_update (\<lambda>_. PlVec)) c)"

definition payload_field :: "'f pz \<Rightarrow> 'f \<Rightarrow> payload_sample reading" where
  "payload_field z f =
     (let t = z_tag z f in
      if t = 1 then rd_enum (z_get_enum z f) cmd_of_num (\<lambda>v. ps_cmd_type_update (\<lambda>_. v))
      else if t = 5 then AssignMessage z f ps_topic_info ps_topic_info_update (DeserializeTopicInfo z)
      else if t = 6 then AssignMessage z f ps_content ps_content_update (DeserializeContent z)
      else if t = 8 then AssignBytes z f (\<lambda>v. ps_padding_update (\<lambda>_. v))
      else rd_skip)"

definition DeserializePayloadSample :: "'f pz \<Rightarrow> 'f pz_message \<Rightarrow> payload_sample reading" where
  "DeserializePayloadSample z = rd_message (payload_field z)"

text \<open>The target is not cleared: what the message does not have keeps its value.\<close>

definition PayloadDeserializeFromBuffer :: "'f pz \<Rightarrow> u8 list \<Rightarrow> payload_sample reading" where
  "PayloadDeserializeFromBuffer z bs = DeserializePayloadSample z (z_read z bs)"

text \<open>
  A new sample. \<open>topic_id\<close> has no initial value, so it is some \<open>g\<close>.
\<close>

definition ps_new :: "u64 \<Rightarrow> payload_sample" where
  "ps_new g = \<lparr>ps_cmd_type = BctNone,
     ps_topic_info = \<lparr>pti_host_name = [], pti_topic_id = g, pti_topic_name = [], pti_process_id = 0\<rparr>,
     ps_content = \<lparr>ct_id = 0, ct_clock = 0, ct_time = 0, ct_hash = 0, ct_size = 0,
       ct_payload = \<lparr>pl_type = PlNone, pl_raw_addr = None, pl_raw_size = 0, pl_vec = []\<rparr>\<rparr>, ps_padding = []\<rparr>"

text \<open>What the gate does with a buffer: a new sample is the target.\<close>

definition payload_deserialize :: "'f pz \<Rightarrow> u64 \<Rightarrow> u8 list \<Rightarrow> payload_sample option" where
  "payload_deserialize z g bs =
     (case PayloadDeserializeFromBuffer z bs (ps_new g) of (RdOk, s) \<Rightarrow> Some s | _ \<Rightarrow> None)"

subsection \<open>Round trip\<close>

lemma topic_info_roundtrip [simp]:
  "pz_ok z \<Longrightarrow> DeserializeTopicInfo z (topic_info_fields z ti, True) x = (RdOk, ti)"
  by (cases ti; cases x) (simp add: DeserializeTopicInfo_def topic_info_fields_def topic_info_field_def scalar_fields)

text \<open>An empty payload leaves the vector of the target as it is.\<close>

definition content_read :: "content \<Rightarrow> content \<Rightarrow> content" where
  "content_read x c = c\<lparr>ct_payload := (ct_payload x)\<lparr>pl_type := PlVec,
     pl_vec := (if payload_bytes (ct_payload c) = [] then pl_vec (ct_payload x) else payload_bytes (ct_payload c))\<rparr>\<rparr>"

lemma content_roundtrip [simp]:
  assumes "pz_ok z"
  shows "DeserializeContent z (content_fields z c, True) x = (RdOk, content_read x c)"
  using assms
  by (cases c; cases x)
    (simp add: DeserializeContent_def content_fields_def content_field_def SerializePayload_def content_read_def scalar_fields)

lemma payload_parts_nonempty [simp]: "topic_info_fields z ti \<noteq> []" "content_fields z c \<noteq> []"
  by (simp_all add: topic_info_fields_def content_fields_def)

lemma payload_sample_roundtrip:
  assumes "pz_ok z" and C: "cmd_ok (ps_cmd_type s)"
  shows "PayloadDeserializeFromBuffer z (PayloadSerializeToBuffer z s) x =
    (RdOk, \<lparr>ps_cmd_type = ps_cmd_type s, ps_topic_info = ps_topic_info s,
       ps_content = content_read (ps_content x) (ps_content s), ps_padding = ps_padding s\<rparr>)"
proof -
  let ?x1 = "x\<lparr>ps_cmd_type := ps_cmd_type s\<rparr>"
  let ?x2 = "?x1\<lparr>ps_topic_info := ps_topic_info s\<rparr>"
  let ?x3 = "?x2\<lparr>ps_content := content_read (ps_content x) (ps_content s)\<rparr>"
  have e: "payload_field z (add_enum z 1 (cmd_num (ps_cmd_type s))) x = (RdOk, ?x1)"
    using assms(1) C by (simp add: payload_field_def)
  have t: "rd_loop (payload_field z) (z_add_message z 5 (topic_info_fields z (ps_topic_info s))) ?x1 = (RdOk, ?x2)"
    by (rule rd_submessage [where get = ps_topic_info and upd = ps_topic_info_update and convert = "DeserializeTopicInfo z", OF assms(1)])
      (simp_all add: payload_field_def assms)
  have c: "rd_loop (payload_field z) (z_add_message z 6 (content_fields z (ps_content s))) ?x2 = (RdOk, ?x3)"
    by (rule rd_submessage [where get = ps_content and upd = ps_content_update and convert = "DeserializeContent z", OF assms(1)])
      (simp_all add: payload_field_def assms)
  have p: "payload_field z (z_add_view z 8 (ps_padding s)) ?x3 = (RdOk, ?x3\<lparr>ps_padding := ps_padding s\<rparr>)"
    using assms by (simp add: payload_field_def scalar_fields)
  show ?thesis
    using assms e t c p
    by (simp add: PayloadDeserializeFromBuffer_def PayloadSerializeToBuffer_def DeserializePayloadSample_def
        SerializePayloadSample_def scalar_fields rd_loop_append)
qed

end
