(* ===== verification/Net_Layers.thy ===== *)
theory Net_Layers
  imports Payload_Wire Publisher Mem_File_Header "HOL-Library.Multiset"
begin

text \<open>
  \<open>ecal/core/src/readwrite/udp\<close> and \<open>readwrite/tcp\<close>: the writers and reader layers between the publisher and the
  subscribers of other processes. The sockets (\<open>UDP::CSampleSender\<close>, \<open>UDP::CSampleReceiver\<close>, the library
  \<open>tcp_pubsub\<close>) are outside: sending is a function argument, joining and leaving multicast groups an effect, and what
  arrives an argument.
\<close>

subsection \<open>CDataWriterUdpMC\<close>

record udp_writer =
  uw_host_name :: string
  uw_topic_name :: string
  uw_topic_id :: u64
  uw_sample_buffer :: "u8 list"

text \<open>The sample of a write; \<open>g\<close> is the value \<open>topic_id\<close> has before it is set.\<close>

definition uw_sample :: "u64 \<Rightarrow> udp_writer \<Rightarrow> u8 list \<Rightarrow> writer_attr \<Rightarrow> payload_sample" where
  "uw_sample g w buf attr =
     (ps_new g)\<lparr>ps_cmd_type := BctSetSample,
       ps_topic_info := (ps_topic_info (ps_new g))\<lparr>pti_host_name := uw_host_name w, pti_topic_name := uw_topic_name w,
         pti_topic_id := uw_topic_id w\<rparr>,
       ps_content := (ps_content (ps_new g))\<lparr>ct_id := wa_id attr, ct_clock := wa_clock attr, ct_time := wa_time attr,
         ct_hash := wa_hash attr,
         ct_payload := (ct_payload (ps_content (ps_new g)))\<lparr>pl_type := PlRaw, pl_raw_addr := Some buf, pl_raw_size := wa_len attr\<rparr>\<rparr>\<rparr>"

text \<open>\<open>send loopback name bytes\<close> is \<open>Send\<close> of the sender with or without loopback.\<close>

definition uw_Write ::
  "'f pz \<Rightarrow> (bool \<Rightarrow> string \<Rightarrow> u8 list \<Rightarrow> nat) \<Rightarrow> u64 \<Rightarrow> udp_writer \<Rightarrow> u8 list \<Rightarrow> writer_attr \<Rightarrow> bool \<times> udp_writer" where
  "uw_Write z send g w buf attr =
     (let s = uw_sample g w buf attr; w = w\<lparr>uw_sample_buffer := PayloadSerializeToBuffer z s\<rparr>;
          sent = send (wa_loopback attr) (pti_topic_name (ps_topic_info s)) (uw_sample_buffer w)
      in (sent > 0, w))"

subsection \<open>CUDPReaderLayer\<close>

record udp_reader_layer =
  ul_broadcast :: bool
  ul_started :: bool
  ul_mcast_map :: "string \<Rightarrow> int option"

datatype udp_layer_effect = UlStartReceiver | UlJoin string | UlLeave string

definition ul_new :: "bool \<Rightarrow> udp_reader_layer" where
  "ul_new broadcast = \<lparr>ul_broadcast = broadcast, ul_started = False, ul_mcast_map = Map.empty\<rparr>"

text \<open>\<open>addr\<close> is \<open>UDP::GetTopicPayloadAddress\<close> with the configuration.\<close>

definition ul_AddSubscription ::
  "(string \<Rightarrow> string) \<Rightarrow> udp_reader_layer \<Rightarrow> string \<Rightarrow> udp_reader_layer \<times> udp_layer_effect list" where
  "ul_AddSubscription addr l topic_name =
     (let e1 = (if ul_started l then [] else [UlStartReceiver]); l = l\<lparr>ul_started := True\<rparr> in
      if ul_broadcast l then (l, e1)
      else
        (let a = addr topic_name;
             (m, e2) = (case ul_mcast_map l a of None \<Rightarrow> ((ul_mcast_map l)(a \<mapsto> 0), [UlJoin a]) | Some _ \<Rightarrow> (ul_mcast_map l, []))
         in (l\<lparr>ul_mcast_map := m(a \<mapsto> the (m a) + 1)\<rparr>, e1 @ e2)))"

definition ul_RemSubscription ::
  "(string \<Rightarrow> string) \<Rightarrow> udp_reader_layer \<Rightarrow> string \<Rightarrow> udp_reader_layer \<times> udp_layer_effect list" where
  "ul_RemSubscription addr l topic_name =
     (if ul_broadcast l then (l, [])
      else
        (let a = addr topic_name in
         case ul_mcast_map l a of
           None \<Rightarrow> (l, [])
         | Some n \<Rightarrow>
             if n - 1 = 0 then (l\<lparr>ul_mcast_map := (ul_mcast_map l)(a := None)\<rparr>, [UlLeave a])
             else (l\<lparr>ul_mcast_map := (ul_mcast_map l)(a \<mapsto> n - 1)\<rparr>, [])))"

text \<open>The callbacks of the sample receiver; the subscriber gate may not exist.\<close>

definition ul_HasSample :: "'cb sub_gate option \<Rightarrow> string \<Rightarrow> bool" where
  "ul_HasSample gate name = (case gate of None \<Rightarrow> False | Some g \<Rightarrow> sg_HasSample g name)"

definition ul_ApplySample ::
  "'f pz \<Rightarrow> u64 \<Rightarrow> time_point \<Rightarrow> bool \<Rightarrow> 'cb sub_gate option \<Rightarrow> u8 list \<Rightarrow> bool \<times> 'cb sub_gate option \<times> 'cb sub_effect list" where
  "ul_ApplySample z g now oo gate buf =
     (case gate of
        None \<Rightarrow> (False, None, [])
      | Some sg \<Rightarrow>
          (let (applied, sg, effs) = sg_ApplySerializedSample (payload_deserialize z g) now oo sg buf TlEcalUdp
           in (applied, Some sg, effs)))"

subsection \<open>CDataWriterTCP\<close>

record tcp_writer =
  tw_topic_name :: string
  tw_topic_id :: u64
  tw_port :: u16
  tw_header_buffer :: "u8 list"

text \<open>The sample with the header information and the given number of bytes of padding.\<close>

definition tw_sample :: "u64 \<Rightarrow> tcp_writer \<Rightarrow> writer_attr \<Rightarrow> nat \<Rightarrow> payload_sample" where
  "tw_sample g w attr padding =
     (ps_new g)\<lparr>ps_topic_info := (ps_topic_info (ps_new g))\<lparr>pti_topic_name := tw_topic_name w, pti_topic_id := tw_topic_id w\<rparr>,
       ps_content := (ps_content (ps_new g))\<lparr>ct_id := wa_id attr, ct_clock := wa_clock attr, ct_time := wa_time attr,
         ct_hash := wa_hash attr, ct_size := ucast (wa_len attr)\<rparr>,
       ps_padding := replicate padding 0\<rparr>"

definition ecal_magic :: "u8 list" where
  "ecal_magic = string_bytes ''ECAL''"

text \<open>\<open>proto_header_size\<close> has 16 bits; the sizes computed from it are \<open>size_t\<close>.\<close>

definition tw_padding :: "u8 list \<Rightarrow> nat" where
  "tw_padding header =
     (let proto_header_size = word_of_nat (length header) :: u16; minimal_header_size = 4 + 2 + unat proto_header_size
      in (8 - minimal_header_size mod 8) mod 8)"

text \<open>
  The header in front of the payload; \<open>None\<close> when the copy of the serialized sample runs over the end of
  the buffer.
\<close>

definition tw_header :: "'f pz \<Rightarrow> u64 \<Rightarrow> tcp_writer \<Rightarrow> writer_attr \<Rightarrow> u8 list option" where
  "tw_header z g w attr =
     (let serialized = PayloadSerializeToBuffer z (tw_sample g w attr 0);
          serialized = PayloadSerializeToBuffer z (tw_sample g w attr (tw_padding serialized));
          proto_header_size = word_of_nat (length serialized) :: u16
      in if unat proto_header_size < length serialized then None
         else Some (ecal_magic @ le_bytes 2 proto_header_size @ serialized))"

text \<open>\<open>send\<close> is \<open>tcp_pubsub::Publisher::send\<close> of the buffers, one after the other.\<close>

definition tw_Write ::
  "'f pz \<Rightarrow> (u8 list list \<Rightarrow> bool) \<Rightarrow> u64 \<Rightarrow> tcp_writer \<Rightarrow> u8 list \<Rightarrow> writer_attr \<Rightarrow> (bool \<times> tcp_writer) option" where
  "tw_Write z send g w buf attr =
     (case tw_header z g w attr of
        None \<Rightarrow> None
      | Some h \<Rightarrow> Some (send [h, take (unat (wa_len attr)) buf], w\<lparr>tw_header_buffer := h\<rparr>))"

definition tw_GetConnectionParameter :: "tcp_writer \<Rightarrow> connection_par" where
  "tw_GetConnectionParameter w = cp_new\<lparr>cp_layer_par_tcp := (cp_layer_par_tcp cp_new)\<lparr>lpt_port := ucast (tw_port w)\<rparr>\<rparr>"

subsection \<open>CDataReaderTCP\<close>

text \<open>The sessions of the subscriber: for each the publishers it tries, in order.\<close>

record tcp_reader =
  tr_ecal_header :: payload_sample
  tr_subscriber :: "(string \<times> u16) list list option"
  tr_callback_active :: bool

definition tr_new :: "u64 \<Rightarrow> tcp_reader" where
  "tr_new g = \<lparr>tr_ecal_header = ps_new g, tr_subscriber = None, tr_callback_active = False\<rparr>"

definition tr_Create :: "tcp_reader \<Rightarrow> tcp_reader" where
  "tr_Create r = r\<lparr>tr_subscriber := Some []\<rparr>"

definition tr_Destroy :: "tcp_reader \<Rightarrow> bool \<times> tcp_reader" where
  "tr_Destroy r =
     (if tr_subscriber r = None then (False, r) else (True, r\<lparr>tr_subscriber := None, tr_callback_active := False\<rparr>))"

definition tr_AddConnectionIfNecessary :: "tcp_reader \<Rightarrow> string \<Rightarrow> u16 \<Rightarrow> bool \<times> tcp_reader" where
  "tr_AddConnectionIfNecessary r host port =
     (case tr_subscriber r of
        None \<Rightarrow> (False, r)
      | Some sessions \<Rightarrow>
          if port = 0 then (False, r)
          else if list_ex (\<lambda>ps. case ps of p # _ \<Rightarrow> p = (host, port) | [] \<Rightarrow> False) sessions then (True, r)
          else (True, r\<lparr>tr_subscriber := Some (sessions @ [[(host, port), (host @ ''.local'', port)]]), tr_callback_active := True\<rparr>))"

text \<open>
  A message. The sizes in it are used as they are; \<open>None\<close> when they point behind the end of the buffer.
\<close>

definition tr_OnTcpMessage ::
  "'f pz \<Rightarrow> time_point \<Rightarrow> bool \<Rightarrow> tcp_reader \<Rightarrow> 'cb sub_gate option \<Rightarrow> u8 list \<Rightarrow>
   (tcp_reader \<times> 'cb sub_gate option \<times> 'cb sub_effect list) option" where
  "tr_OnTcpMessage z now oo r gate buf =
     (let header_length = 4 + 2; header_size = unat (le_word (take 2 (drop 4 buf)) :: u16) in
      if length buf < header_length + header_size then None
      else
        (let header_payload = take header_size (drop header_length buf); data_payload = drop (header_length + header_size) buf in
         case PayloadDeserializeFromBuffer z header_payload (tr_ecal_header r) of
           (RdException, h) \<Rightarrow> Some (r\<lparr>tr_ecal_header := h\<rparr>, gate, [])
         | (RdOk, h) \<Rightarrow>
             (case gate of
                None \<Rightarrow> Some (r\<lparr>tr_ecal_header := h\<rparr>, None, [])
              | Some sg \<Rightarrow>
                  (let c = ps_content h; size = unat (scast (ct_size c) :: u64) in
                   if length data_payload < size then None
                   else
                     (let (applied, sg, effs) = sg_ApplySample now oo sg (ps_topic_info h) (take size data_payload)
                          (ct_id c) (ct_clock c) (ct_time c) TlEcalTcp
                      in Some (r\<lparr>tr_ecal_header := h\<rparr>, Some sg, effs))))))"

subsection \<open>CTCPReaderLayer\<close>

type_synonym tcp_reader_layer = "string \<Rightarrow> tcp_reader option"

definition tl_AddSubscription :: "u64 \<Rightarrow> tcp_reader_layer \<Rightarrow> string \<Rightarrow> tcp_reader_layer" where
  "tl_AddSubscription g l topic_name =
     (case l topic_name of Some _ \<Rightarrow> l | None \<Rightarrow> l(topic_name \<mapsto> tr_Create (tr_new g)))"

text \<open>The reader is destroyed; with the map's pointer the object itself goes.\<close>

definition tl_RemSubscription :: "tcp_reader_layer \<Rightarrow> string \<Rightarrow> tcp_reader_layer" where
  "tl_RemSubscription l topic_name = (case l topic_name of None \<Rightarrow> l | Some _ \<Rightarrow> l(topic_name := None))"

definition tl_SetConnectionParameter :: "tcp_reader_layer \<Rightarrow> reader_layer_par \<Rightarrow> tcp_reader_layer" where
  "tl_SetConnectionParameter l par =
     (let port = ucast (lpt_port (cp_layer_par_tcp (rlp_parameter par))) :: u16 in
      case l (rlp_topic_name par) of
        None \<Rightarrow> l
      | Some r \<Rightarrow> l(rlp_topic_name par \<mapsto> snd (tr_AddConnectionIfNecessary r (rlp_host_name par) port)))"


subsection \<open>What arrives is what was sent\<close>

lemma uw_sample_read:
  assumes "pz_ok z" "unat (wa_len attr) = length buf"
  shows "payload_deserialize z g' (PayloadSerializeToBuffer z (uw_sample g w buf attr)) = Some
    \<lparr>ps_cmd_type = BctSetSample,
      ps_topic_info = \<lparr>pti_host_name = uw_host_name w, pti_topic_id = uw_topic_id w, pti_topic_name = uw_topic_name w, pti_process_id = 0\<rparr>,
      ps_content = \<lparr>ct_id = wa_id attr, ct_clock = wa_clock attr, ct_time = wa_time attr, ct_hash = wa_hash attr, ct_size = 0,
        ct_payload = \<lparr>pl_type = PlVec, pl_raw_addr = None, pl_raw_size = 0, pl_vec = buf\<rparr>\<rparr>, ps_padding = []\<rparr>"
  using assms
  by (simp add: payload_deserialize_def payload_sample_roundtrip uw_sample_def ps_new_def content_read_def payload_bytes_def)

text \<open>A UDP datagram, applied in the receiving process, is the sample with what the publisher wrote.\<close>

lemma udp_datagram_applied:
  assumes "pz_ok z" "unat (wa_len attr) = length buf"
  shows "sg_ApplySerializedSample (payload_deserialize z g') now oo sg (PayloadSerializeToBuffer z (uw_sample g w buf attr)) TlEcalUdp =
    sg_ApplySample now oo sg
      \<lparr>pti_host_name = uw_host_name w, pti_topic_id = uw_topic_id w, pti_topic_name = uw_topic_name w, pti_process_id = 0\<rparr>
      buf (wa_id attr) (wa_clock attr) (wa_time attr) TlEcalUdp"
  by (simp add: sg_ApplySerializedSample_def sg_ApplySample_def uw_sample_read [OF assms] payload_bytes_def)

lemma tw_sample_read:
  assumes "pz_ok z"
  obtains h where "PayloadDeserializeFromBuffer z (PayloadSerializeToBuffer z (tw_sample g w attr n)) x = (RdOk, h)"
    "ps_topic_info h = \<lparr>pti_host_name = [], pti_topic_id = tw_topic_id w, pti_topic_name = tw_topic_name w, pti_process_id = 0\<rparr>"
    "ct_id (ps_content h) = wa_id attr" "ct_clock (ps_content h) = wa_clock attr" "ct_time (ps_content h) = wa_time attr"
    "ct_size (ps_content h) = ucast (wa_len attr)"
  by (rule that [OF payload_sample_roundtrip [OF assms]]) (simp_all add: tw_sample_def ps_new_def content_read_def)

lemma le_word_bytes_u16: "le_word (le_bytes 2 (n :: u16)) = n"
  by (rule le_word_bytes) simp

lemma tw_header_shape:
  assumes "tw_header z g w attr = Some h"
  obtains n where "h = ecal_magic @ le_bytes 2 (word_of_nat (length (PayloadSerializeToBuffer z (tw_sample g w attr n))) :: u16) @
      PayloadSerializeToBuffer z (tw_sample g w attr n)"
    "unat (word_of_nat (length (PayloadSerializeToBuffer z (tw_sample g w attr n))) :: u16) =
      length (PayloadSerializeToBuffer z (tw_sample g w attr n))"
proof -
  let ?n = "tw_padding (PayloadSerializeToBuffer z (tw_sample g w attr 0))"
  let ?l = "length (PayloadSerializeToBuffer z (tw_sample g w attr ?n))"
  have "unat (word_of_nat ?l :: u16) \<le> ?l" by (simp add: unat_of_nat)
  then show ?thesis using assms by (intro that [of ?n]) (auto simp: tw_header_def Let_def split: if_splits)
qed

text \<open>
  A TCP message: the header, and behind it the bytes the publisher sent. The receiver takes the size of the
  payload from a signed number of 32 bits in the header.
\<close>

lemma tcp_message_applied:
  fixes buf :: "u8 list"
  assumes Z: "pz_ok z" and H: "tw_header z g w attr = Some h"
  defines "len \<equiv> unat (scast (ucast (wa_len attr) :: i32) :: u64)"
  shows "\<exists>e. tr_OnTcpMessage z now oo r (Some sg) (h @ buf) =
    (if length buf < len then None
     else (let (applied, sg, effs) = sg_ApplySample now oo sg
         \<lparr>pti_host_name = [], pti_topic_id = tw_topic_id w, pti_topic_name = tw_topic_name w, pti_process_id = 0\<rparr>
         (take len buf) (wa_id attr) (wa_clock attr) (wa_time attr) TlEcalTcp
       in Some (r\<lparr>tr_ecal_header := e\<rparr>, Some sg, effs)))"
proof -
  obtain n where h: "h = ecal_magic @ le_bytes 2 (word_of_nat (length (PayloadSerializeToBuffer z (tw_sample g w attr n))) :: u16) @
      PayloadSerializeToBuffer z (tw_sample g w attr n)"
    and l: "unat (word_of_nat (length (PayloadSerializeToBuffer z (tw_sample g w attr n))) :: u16) =
      length (PayloadSerializeToBuffer z (tw_sample g w attr n))"
    using tw_header_shape [OF H] .
  define s where "s = PayloadSerializeToBuffer z (tw_sample g w attr n)"
  obtain e where e: "PayloadDeserializeFromBuffer z s (tr_ecal_header r) = (RdOk, e)"
    "ps_topic_info e = \<lparr>pti_host_name = [], pti_topic_id = tw_topic_id w, pti_topic_name = tw_topic_name w, pti_process_id = 0\<rparr>"
    "ct_id (ps_content e) = wa_id attr" "ct_clock (ps_content e) = wa_clock attr" "ct_time (ps_content e) = wa_time attr"
    "ct_size (ps_content e) = ucast (wa_len attr)"
    unfolding s_def by (rule tw_sample_read [OF Z])
  have m: "length ecal_magic = 4" by (simp add: ecal_magic_def string_bytes_def)
  have hb: "h @ buf = ecal_magic @ le_bytes 2 (word_of_nat (length s) :: u16) @ s @ buf" by (simp add: h s_def)
  have "take 2 (drop 4 (h @ buf)) = le_bytes 2 (word_of_nat (length s) :: u16)" unfolding hb by (simp add: m)
  then have n: "unat (le_word (take 2 (drop 4 (h @ buf))) :: u16) = length s" using l by (simp only: le_word_bytes_u16 s_def)
  have d: "drop (4 + 2) (h @ buf) = s @ buf" "drop (4 + 2 + length s) (h @ buf) = buf" unfolding hb by (simp_all add: m)
  have lh: "length h = 6 + length s" unfolding h by (simp add: m s_def)
  show ?thesis
    by (rule exI [of _ e])
      (unfold tr_OnTcpMessage_def n d Let_def, simp add: lh e len_def)
qed

lemma sint_small:
  fixes x :: u64
  assumes "unat x < 2 ^ 31"
  shows "sint (ucast x :: i32) = uint x"
proof -
  have x: "uint x < 2 ^ 31" using assms by (metis of_nat_less_iff of_nat_numeral of_nat_power uint_nat)
  have "sint (ucast x :: i32) = signed_take_bit 31 (uint x)" by (simp add: signed_ucast_eq)
  also have "\<dots> = uint x" by (rule signed_take_bit_int_eq_self) (use x in \<open>simp_all add: order_trans [of _ 0]\<close>)
  finally show ?thesis .
qed

lemma uint_scast_i32: "uint (scast (y :: i32) :: u64) = take_bit 64 (sint y)"
  by transfer (simp add: take_bit_signed_take_bit)

lemma small_size:
  fixes x :: u64
  assumes "unat x < 2 ^ 31"
  shows "unat (scast (ucast x :: i32) :: u64) = unat x"
proof -
  have "take_bit 64 (uint x) = uint x" by (rule take_bit_int_eq_self) (use uint_bounded [of x] in simp_all)
  then show ?thesis by (simp only: unat_eq_nat_uint uint_scast_i32 sint_small [OF assms])
qed

lemma large_size:
  fixes x :: u64
  assumes "2 ^ 31 \<le> unat x" "unat x < 2 ^ 32"
  shows "unat x < unat (scast (ucast x :: i32) :: u64)"
proof -
  have x: "2 ^ 31 \<le> uint x" "uint x < 2 ^ 32"
    using assms by (metis of_nat_le_iff of_nat_less_iff of_nat_numeral of_nat_power uint_nat)+
  then have "uint x div 2147483648 = 1" by simp
  then have b: "bit (uint x) 31" by (simp add: bit_iff_odd)
  have "sint (ucast x :: i32) = signed_take_bit 31 (uint x)" by (simp add: signed_ucast_eq)
  also have "\<dots> = take_bit 32 (uint x) - 2 ^ 32" using b by (simp add: signed_take_bit_eq_take_bit_minus)
  also have "\<dots> = uint x - 2 ^ 32" using x(2) by (simp add: take_bit_int_eq_self)
  finally have "uint (scast (ucast x :: i32) :: u64) = (uint x - 2 ^ 32 + 2 ^ 64) mod 2 ^ 64"
    by (simp only: uint_scast_i32 take_bit_eq_mod mod_add_self2)
  also have "\<dots> = uint x - 2 ^ 32 + 2 ^ 64" by (rule mod_pos_pos_trivial) (use x in simp_all)
  finally have "uint x < uint (scast (ucast x :: i32) :: u64)" by simp
  then show ?thesis by (simp only: unat_eq_nat_uint nat_less_eq_zless uint_ge_0)
qed


subsection \<open>From the publisher to the callback\<close>

lemma sg_single:
  assumes "gt_created sg" "gt_objects sg (pti_topic_name ti) = [s]"
  shows "snd (snd (sg_ApplySample now oo sg ti buf i clock t layer)) = snd (snd (sb_ApplySample now oo s ti buf i clock t layer))"
  using assms by (simp add: sg_ApplySample_def sg_apply_readers_map gt_objects_def)

lemma sub_callback_once:
  assumes "sb_reachable s" "sb_accepts s layer i" "sb_receive_callback s = Some cb"
  obtains d where "snd (snd (sb_ApplySample now oo s ti buf i clock t layer)) =
    [SubReceive cb \<lparr>ti_topic_id = \<lparr>ei_entity_id = pti_topic_id ti, ei_process_id = pti_process_id ti, ei_host_name = pti_host_name ti\<rparr>,
        ti_topic_name = pti_topic_name ti\<rparr> d \<lparr>rcd_buffer = buf, rcd_send_timestamp = t, rcd_send_clock = clock\<rparr>]"
  by (rule sb_ApplySample_callback [OF sb_reachable_inv [OF assms(1)] assms(2,3), of now oo ti buf clock t])
    (use that in simp)

text \<open>What a send hands to a layer.\<close>

lemma pb_Send_layer:
  assumes "pb_Send ws h1 h2 now micros p payload t = (sent, p', effs)" "PubLayerWrite l buf attr \<in> set effs"
  shows "buf = payload \<and> wa_len attr = word_of_nat (length payload) \<and> wa_id attr = 0 \<and> wa_clock attr = pb_clock p + 1 \<and>
    wa_time attr = (if t = - 1 then micros else t)"
proof -
  have "(l, buf, wa_len attr, wa_id attr, wa_clock attr, wa_time attr) \<in> set (pb_sent effs)"
    using assms(2) by (force simp: pb_sent_def)
  moreover have "pb_sent effs = (if pb_GetSubscriberCount p = 0 then []
       else concat (map (\<lambda>(l, w). if w = None then [] else
         [(l, payload, word_of_nat (length payload), 0, pb_clock p + 1, if t = - 1 then micros else t)])
         [(TlEcalShm, pb_writer_shm p), (TlEcalUdp, pb_writer_udp p), (TlEcalTcp, pb_writer_tcp p)]))"
    using pb_Send_spec [OF assms(1)] by blast
  ultimately show ?thesis by (auto split: if_splits)
qed

lemma unat_length: "length payload < 2 ^ 64 \<Longrightarrow> unat (word_of_nat (length payload) :: u64) = length payload"
  by (simp add: unat_of_nat)

text \<open>
  C3. Publish and subscribe over UDP, end to end: what a publisher sends, written as a datagram by its UDP
  writer and applied by another process, calls the receive callback of the subscriber of that topic exactly
  once, with the bytes, the time and the clock of the send. The process id of the publisher is not
  transmitted: the callback is told 0.
\<close>

theorem udp_end_to_end:
  assumes "pz_ok z" "pb_Send ws h1 h2 now micros p payload t = (sent, p', effs)"
    and "PubLayerWrite TlEcalUdp buf attr \<in> set effs" "length payload < 2 ^ 64"
    and "uw_Write z send g w buf attr = (ok, w')"
    and "gt_created sg" "gt_objects sg (uw_topic_name w) = [s]"
    and "sb_reachable s" "sb_accepts s TlEcalUdp 0" "sb_receive_callback s = Some cb"
  shows "\<exists>d. snd (snd (ul_ApplySample z g' now' oo (Some sg) (uw_sample_buffer w'))) =
    [SubReceive cb \<lparr>ti_topic_id = \<lparr>ei_entity_id = uw_topic_id w, ei_process_id = 0, ei_host_name = uw_host_name w\<rparr>,
        ti_topic_name = uw_topic_name w\<rparr> d
      \<lparr>rcd_buffer = payload, rcd_send_timestamp = (if t = - 1 then micros else t), rcd_send_clock = pb_clock p + 1\<rparr>]"
proof -
  note a = pb_Send_layer [OF assms(2,3)]
  have b: "uw_sample_buffer w' = PayloadSerializeToBuffer z (uw_sample g w buf attr)"
    using assms(5) by (auto simp: uw_Write_def Let_def)
  have n: "unat (wa_len attr) = length buf" using a unat_length [OF assms(4)] by simp
  let ?ti = "\<lparr>pti_host_name = uw_host_name w, pti_topic_id = uw_topic_id w, pti_topic_name = uw_topic_name w, pti_process_id = 0\<rparr>"
  have "snd (snd (ul_ApplySample z g' now' oo (Some sg) (uw_sample_buffer w'))) =
      snd (snd (sb_ApplySample now' oo s ?ti buf (wa_id attr) (wa_clock attr) (wa_time attr) TlEcalUdp))"
    using sg_single [OF assms(6), of ?ti s] assms(7) by (simp add: ul_ApplySample_def b udp_datagram_applied [OF assms(1) n] split_beta)
  moreover obtain d where "snd (snd (sb_ApplySample now' oo s ?ti buf (wa_id attr) (wa_clock attr) (wa_time attr) TlEcalUdp)) =
    [SubReceive cb \<lparr>ti_topic_id = \<lparr>ei_entity_id = uw_topic_id w, ei_process_id = 0, ei_host_name = uw_host_name w\<rparr>,
        ti_topic_name = uw_topic_name w\<rparr> d \<lparr>rcd_buffer = buf, rcd_send_timestamp = wa_time attr, rcd_send_clock = wa_clock attr\<rparr>]"
    by (rule sub_callback_once [OF assms(8) _ assms(10), where ti = ?ti]) (use assms(9) a that in simp_all)
  ultimately show ?thesis using a by simp
qed

text \<open>
  C21. The same over TCP, for a payload below 2 GiB: the header and the payload, received in one message, call
  the receive callback once with the bytes, the time and the clock of the send. Neither the process id nor
  the host of the publisher are transmitted.
\<close>

theorem tcp_end_to_end:
  assumes "pz_ok z" "pb_Send ws h1 h2 now micros p payload t = (sent, p', effs)"
    and "PubLayerWrite TlEcalTcp buf attr \<in> set effs" "length payload < 2 ^ 31"
    and "tw_Write z send g w buf attr = Some (ok, w')"
    and "gt_created sg" "gt_objects sg (tw_topic_name w) = [s]"
    and "sb_reachable s" "sb_accepts s TlEcalTcp 0" "sb_receive_callback s = Some cb"
  shows "\<exists>r' sg' d. tr_OnTcpMessage z now' oo r (Some sg) (tw_header_buffer w' @ take (unat (wa_len attr)) buf) = Some (r', Some sg',
    [SubReceive cb \<lparr>ti_topic_id = \<lparr>ei_entity_id = tw_topic_id w, ei_process_id = 0, ei_host_name = []\<rparr>,
        ti_topic_name = tw_topic_name w\<rparr> d
      \<lparr>rcd_buffer = payload, rcd_send_timestamp = (if t = - 1 then micros else t), rcd_send_clock = pb_clock p + 1\<rparr>])"
proof -
  note a = pb_Send_layer [OF assms(2,3)]
  have h: "tw_header z g w attr = Some (tw_header_buffer w')" using assms(5) by (auto simp: tw_Write_def split: option.splits)
  have n: "unat (wa_len attr) = length buf" using a assms(4) by (simp add: unat_length)
  have m: "unat (scast (ucast (wa_len attr) :: i32) :: u64) = length buf" using small_size [of "wa_len attr"] n a assms(4) by simp
  let ?ti = "\<lparr>pti_host_name = [], pti_topic_id = tw_topic_id w, pti_topic_name = tw_topic_name w, pti_process_id = 0\<rparr>"
  obtain applied sg' effs' where g: "sg_ApplySample now' oo sg ?ti buf (wa_id attr) (wa_clock attr) (wa_time attr) TlEcalTcp = (applied, sg', effs')"
    by (cases "sg_ApplySample now' oo sg ?ti buf (wa_id attr) (wa_clock attr) (wa_time attr) TlEcalTcp") auto
  obtain e where e: "tr_OnTcpMessage z now' oo r (Some sg) (tw_header_buffer w' @ buf) = Some (r\<lparr>tr_ecal_header := e\<rparr>, Some sg', effs')"
    using tcp_message_applied [OF assms(1) h, of now' oo r sg buf] g unfolding m by auto
  have "effs' = snd (snd (sb_ApplySample now' oo s ?ti buf (wa_id attr) (wa_clock attr) (wa_time attr) TlEcalTcp))"
    using sg_single [OF assms(6), of ?ti s] assms(7) g by (metis snd_conv topic_info.select_convs(3))
  moreover obtain d where "snd (snd (sb_ApplySample now' oo s ?ti buf (wa_id attr) (wa_clock attr) (wa_time attr) TlEcalTcp)) =
    [SubReceive cb \<lparr>ti_topic_id = \<lparr>ei_entity_id = tw_topic_id w, ei_process_id = 0, ei_host_name = []\<rparr>,
        ti_topic_name = tw_topic_name w\<rparr> d \<lparr>rcd_buffer = buf, rcd_send_timestamp = wa_time attr, rcd_send_clock = wa_clock attr\<rparr>]"
    by (rule sub_callback_once [OF assms(8) _ assms(10), where ti = ?ti]) (use assms(9) a that in simp_all)
  ultimately show ?thesis using a e n by simp
qed

text \<open>
  C38. From 2 GiB on the size in the header is negative, and as an unsigned number of 64 bits larger than
  what was received: the receiver hands the subscribers a range that ends behind the message.
\<close>

theorem tcp_large_payload_out_of_bounds:
  assumes "pz_ok z" "tw_header z g w attr = Some h" "2 ^ 31 \<le> unat (wa_len attr)" "unat (wa_len attr) < 2 ^ 32"
    and "length buf = unat (wa_len attr)"
  shows "tr_OnTcpMessage z now oo r (Some sg) (h @ buf) = None"
  using tcp_message_applied [OF assms(1,2), of now oo r sg buf] large_size [OF assms(3,4)] assms(5) by auto

subsection \<open>Alignment of the payload behind a TCP header\<close>

lemma tw_sample_length:
  assumes "n < 128"
  shows "length (PayloadSerializeToBuffer wire_pz (tw_sample g w attr n)) =
    length (PayloadSerializeToBuffer wire_pz (tw_sample g w attr 0)) + n"
proof -
  have "wf_varint 66 = [66]" "wf_varint n = [word_of_nat n]" "wf_varint 0 = [0]"
    using assms by (simp_all add: wf_varint.simps)
  then show ?thesis
    by (simp add: PayloadSerializeToBuffer_def SerializePayloadSample_def tw_sample_def wire_pz_def wf_data_def wf_field_def ps_new_def
        add_enum_def)
qed

text \<open>The header fits into its size of 16 bits unless the name of the topic is very long.\<close>

lemma wf_varint_length: "n < 128 ^ k \<Longrightarrow> 0 < k \<Longrightarrow> length (wf_varint n) \<le> k"
proof (induction k arbitrary: n)
  case (Suc k)
  show ?case
  proof (cases "n < 128")
    case False
    then have "0 < k" "n div 128 < 128 ^ k" using Suc.prems(1) by (cases k; simp add: less_mult_imp_div_less mult.commute)+
    then show ?thesis using Suc.IH [of "n div 128"] False by (simp add: wf_varint.simps [of n])
  qed (simp add: wf_varint.simps [of n])
qed simp

lemma str_nat_length: "n < 10 ^ k \<Longrightarrow> 0 < k \<Longrightarrow> length (str_nat 10 n) \<le> k"
proof (induction k arbitrary: n)
  case (Suc k)
  show ?case
  proof (cases "n < 10")
    case False
    then have "0 < k" "n div 10 < 10 ^ k" using Suc.prems(1) by (cases k; simp add: less_mult_imp_div_less mult.commute)+
    then show ?thesis using Suc.IH [of "n div 10"] False by (simp add: str_nat.simps [of 10 n])
  qed (simp add: str_nat.simps [of 10 n])
qed simp

lemma str_u64_length: "length (str_u64 x) \<le> 20"
  unfolding str_u64_def by (rule str_nat_length) (rule less_trans [OF unat_lt_u64], simp_all)

lemma wf_field_length:
  "t < 1000 \<Longrightarrow> length (wf_field (WVarint t v)) \<le> 20"
  "t < 1000 \<Longrightarrow> length bs < 100000 \<Longrightarrow> length (wf_field (WBytes t bs)) \<le> 20 + length bs"
proof -
  have v: "length (wf_varint n) \<le> 10" if "n < 2 ^ 64" for n by (rule wf_varint_length) (use that in simp_all)
  show "t < 1000 \<Longrightarrow> length (wf_field (WVarint t v)) \<le> 20"
    using v [of "t * 8"] v [of "unat v"] unat_lt_u64 [of v] by (simp add: wf_field_def)
  show "t < 1000 \<Longrightarrow> length bs < 100000 \<Longrightarrow> length (wf_field (WBytes t bs)) \<le> 20 + length bs"
    using v [of "t * 8 + 2"] v [of "length bs"] by (simp add: wf_field_def)
qed

lemma tw_header_defined:
  assumes "length (tw_topic_name w) < 60000"
  shows "tw_header wire_pz g w attr \<noteq> None"
proof -
  let ?s = "\<lambda>n. PayloadSerializeToBuffer wire_pz (tw_sample g w attr n)"
  let ?c = "ps_content (tw_sample g w attr 0)" and ?t = "ps_topic_info (tw_sample g w attr 0)"
  define ti where "ti = wf_data (topic_info_fields wire_pz ?t)"
  define co where "co = wf_data (content_fields wire_pz ?c)"
  have p: "payload_bytes (ct_payload ?c) = []" by (simp add: tw_sample_def ps_new_def payload_bytes_def)
  have "length ti \<le> 100 + length (tw_topic_name w)"
    using assms wf_field_length(2) [of 7 "string_bytes (tw_topic_name w)"] wf_field_length(2) [of 6 "string_bytes (str_u64 (tw_topic_id w))"]
      wf_field_length(1) [of 3 "scast (0 :: i32)"] wf_field_length(2) [of 2 "[]"] str_u64_length [of "tw_topic_id w"]
    by (simp add: ti_def topic_info_fields_def wire_pz_def wf_data_def z_add_string_def tw_sample_def ps_new_def string_bytes_def)
  moreover have "length co \<le> 100"
    using wf_field_length(1) [of 1 "ct_id ?c"] wf_field_length(1) [of 2 "ct_clock ?c"] wf_field_length(1) [of 3 "ct_time ?c"]
      wf_field_length(1) [of 6 "scast (ct_size ?c)"] wf_field_length(1) [of 7 "ct_hash ?c"] p
    by (simp add: co_def content_fields_def SerializePayload_def wire_pz_def wf_data_def)
  moreover have "length (?s 0) \<le> 60 + length (wf_field (WBytes 5 ti)) + length (wf_field (WBytes 6 co))"
    using wf_field_length(1) [of 1 "scast (word_of_int 0 :: i32)"] wf_field_length(2) [of 8 "[]"]
    by (simp add: PayloadSerializeToBuffer_def SerializePayloadSample_def wire_pz_def wf_data_def add_enum_def
        tw_sample_def ps_new_def ti_def co_def)
  ultimately have "length (?s 0) < 65000"
    using assms wf_field_length(2) [of 5 ti] wf_field_length(2) [of 6 co] by simp
  moreover have "tw_padding (?s 0) < 8" by (simp add: tw_padding_def Let_def)
  ultimately have "length (?s (tw_padding (?s 0))) < 2 ^ 16" using tw_sample_length [of "tw_padding (?s 0)" g w attr] by simp
  then have "unat (word_of_nat (length (?s (tw_padding (?s 0)))) :: u16) = length (?s (tw_padding (?s 0)))"
    by (simp add: unat_of_nat)
  then show ?thesis by (simp add: tw_header_def Let_def)
qed

lemma pad_to_8: "(m + (8 - m mod 8) mod 8) mod 8 = (0 :: nat)"
proof (cases "m mod 8 = 0")
  case False
  have "m + (8 - m mod 8) = (m div 8 + 1) * 8"
  proof -
    have "m + (8 - r) = (q + 1) * 8" if "r \<le> 8" "q * 8 + r = m" for q r using that by auto
    from this [of "m mod 8" "m div 8"] show ?thesis by simp
  qed
  then have "(m + (8 - m mod 8)) mod 8 = 0" by simp
  moreover have "(8 - m mod 8) mod 8 = 8 - m mod 8" using False by simp
  ultimately show ?thesis by (simp only:)
qed simp

text \<open>
  C39. The padding of the TCP header does what it is there for: with the wire format of protocol buffers the
  payload begins at a multiple of 8 bytes.
\<close>

theorem tcp_payload_aligned:
  assumes "tw_header wire_pz g w attr = Some h"
  shows "length h mod 8 = 0"
proof -
  let ?s = "\<lambda>n. PayloadSerializeToBuffer wire_pz (tw_sample g w attr n)"
  let ?p = "tw_padding (?s 0)"
  have p: "?p < 8" by (simp add: tw_padding_def Let_def)
  have "length h = 6 + length (?s ?p)"
    using assms by (auto simp: tw_header_def Let_def ecal_magic_def string_bytes_def split: if_splits)
  then have l: "length h = 6 + length (?s 0) + ?p" using tw_sample_length [of ?p g w attr] p by simp
  define k where "k = length (?s 0)"
  have "(k mod 2 ^ 16) mod 8 = k mod 8" by (simp add: mod_mod_cancel)
  then have "(6 + k mod 2 ^ 16) mod 8 = (6 + k) mod 8" by (rule mod_add_cong [OF refl])
  then have "?p = (8 - (6 + k) mod 8) mod 8"
    by (simp only: tw_padding_def Let_def unat_of_nat take_bit_eq_mod k_def) simp
  then have "length h = (6 + k) + (8 - (6 + k) mod 8) mod 8" using l by (simp only: k_def)
  then show ?thesis by (simp only: pad_to_8)
qed


subsection \<open>Multicast groups\<close>

text \<open>A history of subscriptions, the topics subscribed after it, and the groups the socket is a member of.\<close>

datatype ul_op = UlAdd string | UlRem string

fun ul_run :: "(string \<Rightarrow> string) \<Rightarrow> ul_op list \<Rightarrow> udp_reader_layer \<Rightarrow> udp_reader_layer \<times> udp_layer_effect list" where
  "ul_run addr [] l = (l, [])"
| "ul_run addr (op # ops) l =
     (let (l, e) = (case op of UlAdd t \<Rightarrow> ul_AddSubscription addr l t | UlRem t \<Rightarrow> ul_RemSubscription addr l t);
          (l, es) = ul_run addr ops l in (l, e @ es))"

fun ul_live :: "ul_op list \<Rightarrow> string multiset \<Rightarrow> string multiset" where
  "ul_live [] M = M"
| "ul_live (UlAdd t # ops) M = ul_live ops (add_mset t M)"
| "ul_live (UlRem t # ops) M = ul_live ops (M - {#t#})"

text \<open>Only a subscription that was made is taken back.\<close>

fun ul_balanced :: "ul_op list \<Rightarrow> string multiset \<Rightarrow> bool" where
  "ul_balanced [] M = True"
| "ul_balanced (UlAdd t # ops) M = ul_balanced ops (add_mset t M)"
| "ul_balanced (UlRem t # ops) M = (t \<in># M \<and> ul_balanced ops (M - {#t#}))"

fun ul_groups :: "udp_layer_effect list \<Rightarrow> string set \<Rightarrow> string set" where
  "ul_groups [] G = G"
| "ul_groups (UlStartReceiver # es) G = ul_groups es G"
| "ul_groups (UlJoin a # es) G = ul_groups es (insert a G)"
| "ul_groups (UlLeave a # es) G = ul_groups es (G - {a})"

lemma ul_groups_append: "ul_groups (as @ bs) G = ul_groups bs (ul_groups as G)"
  by (induction as G rule: ul_groups.induct) simp_all

definition ul_counts :: "(string \<Rightarrow> string) \<Rightarrow> string multiset \<Rightarrow> udp_reader_layer \<Rightarrow> bool" where
  "ul_counts addr M l \<longleftrightarrow> \<not> ul_broadcast l \<and>
     (\<forall>a. ul_mcast_map l a = (let n = count (image_mset addr M) a in if n = 0 then None else Some (int n)))"

lemma ul_counts_Add:
  assumes "ul_counts addr M l" "ul_AddSubscription addr l t = (l', e)"
  shows "ul_counts addr (add_mset t M) l' \<and> ul_groups e (set_mset (image_mset addr M)) = set_mset (image_mset addr (add_mset t M))"
proof -
  have m: "ul_mcast_map l a = (if count (image_mset addr M) a = 0 then None else Some (int (count (image_mset addr M) a)))" for a
    using assms(1) by (simp add: ul_counts_def Let_def)
  let ?n = "count (image_mset addr M) (addr t)"
  show ?thesis
  proof (cases "?n = 0")
    case True
    then have s: "ul_mcast_map l (addr t) = None" using m [of "addr t"] by simp
    then show ?thesis using assms True
      by (cases "ul_started l") (auto simp: ul_AddSubscription_def ul_counts_def Let_def)
  next
    case False
    then have s: "ul_mcast_map l (addr t) = Some (int ?n)" using m [of "addr t"] by simp
    have "addr t \<in># image_mset addr M" using False by (meson not_in_iff)
    then show ?thesis using assms False s
      by (cases "ul_started l") (auto simp: ul_AddSubscription_def ul_counts_def Let_def)
  qed
qed

lemma ul_counts_Rem:
  assumes "ul_counts addr M l" "t \<in># M" "ul_RemSubscription addr l t = (l', e)"
  shows "ul_counts addr (M - {#t#}) l' \<and> ul_groups e (set_mset (image_mset addr M)) = set_mset (image_mset addr (M - {#t#}))"
proof -
  obtain N where N: "M = add_mset t N" using assms(2) by (metis insert_DiffM)
  let ?a = "addr t"
  define NN where "NN = image_mset addr N"
  have i: "image_mset addr M = add_mset ?a NN" "image_mset addr (M - {#t#}) = NN" by (simp_all add: N NN_def)
  have m: "ul_mcast_map l a = (if count (add_mset ?a NN) a = 0 then None else Some (int (count (add_mset ?a NN) a)))" for a
    using assms(1) by (simp add: ul_counts_def Let_def i)
  have s: "ul_mcast_map l ?a = Some (int (Suc (count NN ?a)))" using m [of ?a] by simp
  have b: "\<not> ul_broadcast l" using assms(1) by (simp add: ul_counts_def)
  show ?thesis
  proof (cases "count NN ?a = 0")
    case True
    then have "?a \<notin># NN" by (meson not_in_iff)
    then show ?thesis using assms(3) b s True unfolding ul_counts_def i by (auto simp: ul_RemSubscription_def m Let_def)
  next
    case False
    then have "?a \<in># NN" by (meson not_in_iff)
    then show ?thesis using assms(3) b s False unfolding ul_counts_def i by (auto simp: ul_RemSubscription_def m Let_def count_eq_zero_iff)
  qed
qed

lemma ul_run_counts:
  assumes "ul_counts addr M l" "ul_balanced ops M"
  shows "ul_counts addr (ul_live ops M) (fst (ul_run addr ops l)) \<and>
    ul_groups (snd (ul_run addr ops l)) (set_mset (image_mset addr M)) = set_mset (image_mset addr (ul_live ops M))"
  using assms
proof (induction ops arbitrary: M l)
  case (Cons op ops)
  show ?case
  proof (cases op)
    case (UlAdd t)
    obtain l' e where r: "ul_AddSubscription addr l t = (l', e)" by (cases "ul_AddSubscription addr l t")
    note c = ul_counts_Add [OF Cons.prems(1) r]
    show ?thesis using Cons.IH [OF conjunct1 [OF c]] Cons.prems(2) c
      by (simp add: UlAdd r split_beta ul_groups_append del: set_image_mset)
  next
    case (UlRem t)
    obtain l' e where r: "ul_RemSubscription addr l t = (l', e)" by (cases "ul_RemSubscription addr l t")
    have "t \<in># M" "ul_balanced ops (M - {#t#})" using Cons.prems(2) by (simp_all add: UlRem)
    note c = ul_counts_Rem [OF Cons.prems(1) this(1) r]
    show ?thesis using Cons.IH [OF conjunct1 [OF c] \<open>ul_balanced ops (M - {#t#})\<close>] c
      by (simp add: UlRem r split_beta ul_groups_append del: set_image_mset)
  qed
qed simp

text \<open>
  C32. After any history of subscriptions in which only what was subscribed is unsubscribed, the UDP reader
  layer is a member of exactly the multicast groups of the topics that are still subscribed, also where
  several topics share an address.
\<close>

theorem udp_groups_follow_subscriptions:
  assumes "ul_balanced ops {#}" "ul_run addr ops (ul_new False) = (l, effs)"
  shows "ul_groups effs {} = addr ` set_mset (ul_live ops {#})"
proof -
  have "ul_counts addr {#} (ul_new False)" by (simp add: ul_counts_def ul_new_def)
  from ul_run_counts [OF this assms(1)] assms(2) show ?thesis by simp
qed

theorem udp_groups_follow_subscriptions_witness:
  "ul_groups (snd (ul_run (take 1) [UlAdd ''ab'', UlAdd ''ac'', UlAdd ''b'', UlRem ''ab'', UlRem ''b''] (ul_new False))) {} = {''a''}"
proof -
  let ?ops = "[UlAdd ''ab'', UlAdd ''ac'', UlAdd ''b'', UlRem ''ab'', UlRem ''b'']"
  obtain l effs where r: "ul_run (take 1) ?ops (ul_new False) = (l, effs)" by (cases "ul_run (take 1) ?ops (ul_new False)")
  have "ul_balanced ?ops {#}" by simp
  from udp_groups_follow_subscriptions [OF this r] show ?thesis unfolding r by simp
qed

subsection \<open>Subscribers that share a TCP reader\<close>

text \<open>
  Two subscribers of one topic share the TCP reader of the process, which keeps no count: when one of them
  ends, the reader is destroyed, and whatever publishers announce afterwards, the other receives nothing
  over TCP any more.
\<close>

theorem tcp_reader_lost:
  "foldl tl_SetConnectionParameter
     (tl_RemSubscription (tl_AddSubscription g' (tl_AddSubscription g l topic) topic) topic) pars topic = None"
proof -
  have "foldl tl_SetConnectionParameter m pars topic = None" if "m topic = None" for m
    using that
  proof (induction pars arbitrary: m)
    case (Cons par pars)
    have "tl_SetConnectionParameter m par topic = None"
      using Cons.prems by (auto simp: tl_SetConnectionParameter_def Let_def split: option.split)
    then show ?case using Cons.IH by simp
  qed simp
  moreover have "tl_RemSubscription (tl_AddSubscription g' (tl_AddSubscription g l topic) topic) topic topic = None"
    by (simp add: tl_RemSubscription_def split: option.split)
  ultimately show ?thesis by simp
qed

subsection \<open>Examples\<close>

definition demo_net_sub :: "string subscriber" where
  "demo_net_sub = fst (sb_exec (SbSetReceiveCallback (Some ''cb'')) (fst (sb_new 9 dti_new (demo_sub_attr\<lparr>sua_tcp_enable := True\<rparr>))))"

definition demo_net_gate :: "string sub_gate" where
  "demo_net_gate = snd (sg_Register 0 (sg_Start gt_new) ''t'' 0 demo_net_sub)"

definition demo_net_pub :: "(string, nat) publisher" where
  "demo_net_pub = demo_publisher\<lparr>pb_writer_udp := Some 0, pb_writer_tcp := Some 0\<rparr>"

definition demo_uw :: udp_writer where
  "demo_uw = \<lparr>uw_host_name = ''h'', uw_topic_name = ''t'', uw_topic_id = 3, uw_sample_buffer = []\<rparr>"

definition demo_tw :: tcp_writer where
  "demo_tw = \<lparr>tw_topic_name = ''t'', tw_topic_id = 3, tw_port = 4000, tw_header_buffer = []\<rparr>"

lemma demo_net_facts:
  "sb_reachable demo_net_sub" "sb_accepts demo_net_sub TlEcalUdp 0" "sb_accepts demo_net_sub TlEcalTcp 0"
  "sb_receive_callback demo_net_sub = Some ''cb''" "gt_created demo_net_gate" "gt_objects demo_net_gate ''t'' = [demo_net_sub]"
proof -
  show "sb_reachable demo_net_sub" unfolding demo_net_sub_def by (intro sb_reachable.intros)
qed (simp_all add: demo_net_sub_def demo_net_gate_def sb_accepts_def sb_exec_def sb_new_def sb_StartTransportLayer_def Let_def
    sb_SetReceiveCallback_def sb_ShouldApplySampleBasedOnLayer_def sb_ShouldApplySampleBasedOnId_def demo_sub_attr_def
    sg_Register_def sg_Start_def gt_new_def um_emplace_def gt_objects_def mm_equal_range_def)

definition demo_net_effects :: "string pub_effect list" where
  "demo_net_effects = snd (snd (pb_Send demo_writers id id 0 77 demo_net_pub [1, 2] (- 1)))"

fun demo_layer_write :: "tlayer_type \<Rightarrow> string pub_effect list \<Rightarrow> (u8 list \<times> writer_attr) option" where
  "demo_layer_write l [] = None"
| "demo_layer_write l (PubLayerWrite l' buf attr # es) = (if l' = l then Some (buf, attr) else demo_layer_write l es)"
| "demo_layer_write l (_ # es) = demo_layer_write l es"

lemma demo_layer_write_mem: "demo_layer_write l es = Some (buf, attr) \<Longrightarrow> PubLayerWrite l buf attr \<in> set es"
  by (induction l es rule: demo_layer_write.induct) (auto split: if_splits)

definition demo_write :: "tlayer_type \<Rightarrow> u8 list \<times> writer_attr" where
  "demo_write l = the (demo_layer_write l demo_net_effects)"

lemma demo_writes: "demo_layer_write TlEcalUdp demo_net_effects \<noteq> None" "demo_layer_write TlEcalTcp demo_net_effects \<noteq> None"
  "tw_Write wire_pz (\<lambda>_. True) 0 demo_tw (fst (demo_write TlEcalTcp)) (snd (demo_write TlEcalTcp)) \<noteq> None"
  by code_simp+


theorem udp_end_to_end_witness:
  "\<exists>d. snd (snd (ul_ApplySample wire_pz 0 0 True (Some demo_net_gate)
       (uw_sample_buffer (snd (uw_Write wire_pz (\<lambda>_ _ _. 5) 0 demo_uw (fst (demo_write TlEcalUdp)) (snd (demo_write TlEcalUdp))))))) =
     [SubReceive ''cb'' \<lparr>ti_topic_id = \<lparr>ei_entity_id = 3, ei_process_id = 0, ei_host_name = ''h''\<rparr>, ti_topic_name = ''t''\<rparr> d
       \<lparr>rcd_buffer = [1, 2], rcd_send_timestamp = 77, rcd_send_clock = 1\<rparr>]"
proof -
  obtain sent p' where s: "pb_Send demo_writers id id 0 77 demo_net_pub [1, 2] (- 1) = (sent, p', demo_net_effects)"
    by (cases "pb_Send demo_writers id id 0 77 demo_net_pub [1, 2] (- 1)") (simp add: demo_net_effects_def)
  obtain buf attr where w: "demo_layer_write TlEcalUdp demo_net_effects = Some (buf, attr)" using demo_writes(1) by auto
  obtain ok w' where u: "uw_Write wire_pz (\<lambda>_ _ _. 5) 0 demo_uw buf attr = (ok, w')"
    by (cases "uw_Write wire_pz (\<lambda>_ _ _. 5) 0 demo_uw buf attr")
  have t: "gt_objects demo_net_gate (uw_topic_name demo_uw) = [demo_net_sub]" by (simp add: demo_uw_def demo_net_facts)
  have c: "pb_clock demo_net_pub = 0" by (simp add: demo_net_pub_def demo_publisher_def pb_new_def)
  show ?thesis
    using udp_end_to_end [OF wire_pz_ok s demo_layer_write_mem [OF w] _ u demo_net_facts(5) t demo_net_facts(1,2,4), of 0 0 True]
    by (simp add: demo_write_def w u c) (simp add: demo_uw_def)
qed

theorem tcp_end_to_end_witness:
  "\<exists>ok w r' sg' d. tw_Write wire_pz (\<lambda>_. True) 0 demo_tw (fst (demo_write TlEcalTcp)) (snd (demo_write TlEcalTcp)) = Some (ok, w) \<and>
     tr_OnTcpMessage wire_pz 0 True (tr_Create (tr_new 0)) (Some demo_net_gate)
       (tw_header_buffer w @ take (unat (wa_len (snd (demo_write TlEcalTcp)))) (fst (demo_write TlEcalTcp))) = Some (r', Some sg',
     [SubReceive ''cb'' \<lparr>ti_topic_id = \<lparr>ei_entity_id = 3, ei_process_id = 0, ei_host_name = []\<rparr>, ti_topic_name = ''t''\<rparr> d
       \<lparr>rcd_buffer = [1, 2], rcd_send_timestamp = 77, rcd_send_clock = 1\<rparr>])"
proof -
  obtain sent p' where s: "pb_Send demo_writers id id 0 77 demo_net_pub [1, 2] (- 1) = (sent, p', demo_net_effects)"
    by (cases "pb_Send demo_writers id id 0 77 demo_net_pub [1, 2] (- 1)") (simp add: demo_net_effects_def)
  obtain buf attr where w: "demo_layer_write TlEcalTcp demo_net_effects = Some (buf, attr)" using demo_writes(2) by auto
  have d: "demo_write TlEcalTcp = (buf, attr)" by (simp add: demo_write_def w)
  obtain ok w' where u: "tw_Write wire_pz (\<lambda>_. True) 0 demo_tw buf attr = Some (ok, w')" using demo_writes(3) by (auto simp: d)
  have t: "gt_objects demo_net_gate (tw_topic_name demo_tw) = [demo_net_sub]" by (simp add: demo_tw_def demo_net_facts)
  have c: "pb_clock demo_net_pub = 0" by (simp add: demo_net_pub_def demo_publisher_def pb_new_def)
  have n: "length [1, 2 :: u8] < 2 ^ 31" by simp
  from tcp_end_to_end [OF wire_pz_ok s demo_layer_write_mem [OF w] n u demo_net_facts(5) t demo_net_facts(1,3,4), of 0 True "tr_Create (tr_new 0)"]
  obtain r' sg' d where "tr_OnTcpMessage wire_pz 0 True (tr_Create (tr_new 0)) (Some demo_net_gate) (tw_header_buffer w' @ take (unat (wa_len attr)) buf) =
    Some (r', Some sg', [SubReceive ''cb'' \<lparr>ti_topic_id = \<lparr>ei_entity_id = tw_topic_id demo_tw, ei_process_id = 0, ei_host_name = []\<rparr>,
        ti_topic_name = tw_topic_name demo_tw\<rparr> d
      \<lparr>rcd_buffer = [1, 2], rcd_send_timestamp = 77, rcd_send_clock = 1\<rparr>])"
    unfolding c by auto
  moreover have "tw_topic_id demo_tw = 3" "tw_topic_name demo_tw = ''t''" by (simp_all add: demo_tw_def)
  ultimately show ?thesis unfolding d fst_conv snd_conv using u by metis
qed

definition demo_large_attr :: writer_attr where
  "demo_large_attr = wa_new\<lparr>wa_len := 0x80000000\<rparr>"

lemma demo_header: "tw_header wire_pz 0 demo_tw demo_large_attr \<noteq> None"
  by (rule tw_header_defined) (simp add: demo_tw_def)

theorem tcp_large_payload_out_of_bounds_witness:
  "tr_OnTcpMessage wire_pz 0 True (tr_Create (tr_new 0)) (Some demo_net_gate)
     (the (tw_header wire_pz 0 demo_tw demo_large_attr) @ replicate 0x80000000 0) = None"
proof -
  obtain h where h: "tw_header wire_pz 0 demo_tw demo_large_attr = Some h" using demo_header by blast
  have l: "unat (wa_len demo_large_attr) = 0x80000000" by (simp add: demo_large_attr_def)
  have "length (replicate 0x80000000 (0 :: u8)) = unat (wa_len demo_large_attr)" unfolding l by (rule length_replicate)
  from tcp_large_payload_out_of_bounds [OF wire_pz_ok h _ _ this] show ?thesis unfolding h by (simp add: l)
qed

theorem tcp_payload_aligned_witness:
  "length (the (tw_header wire_pz 0 demo_tw demo_large_attr)) mod 8 = 0"
proof -
  obtain h where h: "tw_header wire_pz 0 demo_tw demo_large_attr = Some h" using demo_header by blast
  show ?thesis using tcp_payload_aligned [OF h] by (simp add: h)
qed

end
