(* ===== verification/Udp_Address.thy ===== *)
theory Udp_Address
  imports Protozero
begin

text \<open>
  \<open>ecal/core/src/io/udp/ecal_udp_topic2mcast.h\<close> and the address selection of \<open>ecal_udp_configurations.cpp\<close>: the
  multicast address on which a topic is sent, from a hash of its name. \<open>unsigned char\<close> is \<open>u8\<close>, \<open>uint32_t\<close> \<open>u32\<close>,
  \<open>size_t\<close> \<open>u64\<close>.
\<close>

unbundle bit_operations_syntax

subsection \<open>Text\<close>

text \<open>The tokens \<open>std::getline\<close> reads from a string stream: a delimiter at the end is not followed by a token.\<close>

function getline_tokens :: "char \<Rightarrow> string \<Rightarrow> string list" where
  "getline_tokens d s =
     (if s = [] then [] else takeWhile (\<lambda>c. c \<noteq> d) s # getline_tokens d (tl (dropWhile (\<lambda>c. c \<noteq> d) s)))"
  by pat_completeness auto

termination
proof (relation "measure (\<lambda>(d, s). length s)")
  fix d :: char and s :: string
  assume "s \<noteq> []"
  then have "length (tl (dropWhile (\<lambda>c. c \<noteq> d) s)) < length s"
  proof -
    have "length (dropWhile (\<lambda>c. c \<noteq> d) s) \<le> length s" "0 < length s"
      using \<open>s \<noteq> []\<close> by (simp_all add: length_dropWhile_le)
    then show ?thesis unfolding length_tl by linarith
  qed
  then show "((d, tl (dropWhile (\<lambda>c. c \<noteq> d) s)), (d, s)) \<in> measure (\<lambda>(d, s). length s)" by simp
qed simp

declare getline_tokens.simps [simp del]

text \<open>\<open>atoi\<close>, for numbers that fit into an \<open>int\<close> (the behaviour is undefined for others), and the conversion to \<open>unsigned char\<close>.\<close>

definition std_atoi :: "string \<Rightarrow> int" where
  "std_atoi s =
     (let s = dropWhile is_space s;
          neg = (case s of c # _ \<Rightarrow> c = CHR ''-'' | [] \<Rightarrow> False);
          s = (case s of c # cs \<Rightarrow> if c = CHR ''-'' \<or> c = CHR ''+'' then cs else s | [] \<Rightarrow> s);
          n = digits_value (takeWhile is_digit s)
      in if neg then - int n else int n)"

definition atoi_byte :: "string \<Rightarrow> u8" where
  "atoi_byte s = word_of_int (std_atoi s)"

subsection \<open>Hash and addresses\<close>

text \<open>\<open>fnv_hash\<close>, in \<open>size_t\<close>.\<close>

definition fnv_hash :: "string \<Rightarrow> u64" where
  "fnv_hash s = foldl (\<lambda>result c. (16777619 * result) XOR word_of_nat (of_char c)) 2166136261 s"

definition parse_ipv4 :: "string \<Rightarrow> u32" where
  "parse_ipv4 s = foldl (\<lambda>ip token. push_bit 8 ip OR ucast (atoi_byte token)) 0 (take 4 (getline_tokens CHR ''.'' s))"

definition serialize_ipv4 :: "u32 \<Rightarrow> string" where
  "serialize_ipv4 ip =
     str_nat 10 (unat (drop_bit 24 ip)) @ ''.'' @ str_nat 10 (unat (drop_bit 16 (ip AND 0x00ffffff))) @ ''.'' @
     str_nat 10 (unat (drop_bit 8 (ip AND 0x0000ffff))) @ ''.'' @ str_nat 10 (unat (ip AND 0x000000ff))"

definition combine_ip_and_hash_with_mask :: "u32 \<Rightarrow> u32 \<Rightarrow> u32 \<Rightarrow> u32" where
  "combine_ip_and_hash_with_mask address hash m = (address AND m) OR (hash AND NOT m)"

definition increase_adress_by_one :: "u32 \<Rightarrow> u32 \<Rightarrow> u32" where
  "increase_adress_by_one address m = (address AND m) OR ((address + 1) AND NOT m)"

definition v2_topic2mcast_hash :: "u32 \<Rightarrow> string \<Rightarrow> string \<Rightarrow> string" where
  "v2_topic2mcast_hash hash_v mcast_base mcast_mask =
     (let address_mask = parse_ipv4 mcast_mask; address_ip = parse_ipv4 mcast_base;
          mcast = combine_ip_and_hash_with_mask address_ip hash_v address_mask;
          mcast = (if mcast = address_ip then increase_adress_by_one address_ip address_mask else mcast)
      in serialize_ipv4 mcast)"

definition v2_topic2mcast :: "string \<Rightarrow> string \<Rightarrow> string \<Rightarrow> string" where
  "v2_topic2mcast tname mcast_base mcast_mask = v2_topic2mcast_hash (ucast (fnv_hash tname)) mcast_base mcast_mask"

text \<open>The legacy computation; the mask starts as \<open>0.255.255.255\<close> and is overwritten as far as it has tokens.\<close>

definition v1_address_mask :: "string \<Rightarrow> u8 list" where
  "v1_address_mask mcast_mask =
     (let ts = map atoi_byte (take 4 (getline_tokens CHR ''.'' mcast_mask)) in ts @ drop (length ts) [0, 0xff, 0xff, 0xff])"

definition v1_topic2mcast_hash :: "u64 \<Rightarrow> string \<Rightarrow> string \<Rightarrow> string" where
  "v1_topic2mcast_hash hash_v mcast_base mcast_mask =
     (let m = v1_address_mask mcast_mask;
          ip1 = ucast (drop_bit 16 hash_v AND ucast (m ! 1)) :: u8;
          ip2 = ucast (drop_bit 8 hash_v AND ucast (m ! 2)) :: u8;
          ip3 = ucast (hash_v AND ucast (m ! 3)) :: u8;
          ip3 = (if ip3 < 2 then 2 else ip3)
      in take 3 mcast_base @ concat (map (\<lambda>b. ''.'' @ str_nat 10 (unat b)) [ip1, ip2, ip3]))"

definition v1_topic2mcast :: "string \<Rightarrow> string \<Rightarrow> string \<Rightarrow> string" where
  "v1_topic2mcast tname mcast_base mcast_mask = v1_topic2mcast_hash (fnv_hash tname) mcast_base mcast_mask"


subsection \<open>The configuration\<close>

datatype udp_config_version = UdpV1 | UdpV2

record udp_config =
  uc_network_enabled :: bool
  uc_local_group :: string
  uc_local_ttl :: int
  uc_multicast_group :: string
  uc_multicast_mask :: string
  uc_multicast_port :: int
  uc_multicast_ttl :: int
  uc_version :: udp_config_version

definition IsBroadcast :: "udp_config \<Rightarrow> bool" where
  "IsBroadcast c \<longleftrightarrow> \<not> uc_network_enabled c"

definition GetLocalBroadcastAddress :: "udp_config \<Rightarrow> string" where
  "GetLocalBroadcastAddress c = uc_local_group c"

definition GetRegistrationAddress :: "udp_config \<Rightarrow> string" where
  "GetRegistrationAddress c = (if \<not> uc_network_enabled c then GetLocalBroadcastAddress c else uc_multicast_group c)"

definition GetLoggingAddress :: "udp_config \<Rightarrow> string" where
  "GetLoggingAddress c = GetRegistrationAddress c"

definition GetPayloadAddress :: "udp_config \<Rightarrow> string" where
  "GetPayloadAddress c = GetRegistrationAddress c"

definition GetTopicPayloadAddress :: "udp_config \<Rightarrow> string \<Rightarrow> string" where
  "GetTopicPayloadAddress c topic_name =
     (if \<not> uc_network_enabled c then GetLocalBroadcastAddress c
      else if uc_version c = UdpV1 then v1_topic2mcast topic_name (uc_multicast_group c) (uc_multicast_mask c)
      else v2_topic2mcast topic_name (uc_multicast_group c) (uc_multicast_mask c))"

text \<open>The ports have fixed distances (\<open>ecal_def.h\<close>).\<close>

definition GetRegistrationPort :: "udp_config \<Rightarrow> int" where
  "GetRegistrationPort c = uc_multicast_port c + 0"

definition GetLoggingPort :: "udp_config \<Rightarrow> int" where
  "GetLoggingPort c = uc_multicast_port c + 1"

definition GetPayloadPort :: "udp_config \<Rightarrow> int" where
  "GetPayloadPort c = uc_multicast_port c + 2"

definition GetMulticastTtl :: "udp_config \<Rightarrow> int" where
  "GetMulticastTtl c = (if \<not> uc_network_enabled c then uc_local_ttl c else uc_multicast_ttl c)"

subsection \<open>Addresses as text and as numbers\<close>

lemma getline_token:
  assumes "d \<notin> set a"
  shows "getline_tokens d (a @ d # s) = a # getline_tokens d s"
proof -
  have "takeWhile (\<lambda>c. c \<noteq> d) (a @ d # s) = a" "dropWhile (\<lambda>c. c \<noteq> d) (a @ d # s) = d # s"
    using assms by (induction a) auto
  then show ?thesis by (simp add: getline_tokens.simps [of d "a @ d # s"])
qed

lemma getline_last:
  assumes "d \<notin> set a" "a \<noteq> []"
  shows "getline_tokens d a = [a]"
proof -
  have t: "takeWhile (\<lambda>c. c \<noteq> d) a = a" and w: "dropWhile (\<lambda>c. c \<noteq> d) a = []"
    using assms(1) by (auto simp: takeWhile_eq_all_conv dropWhile_eq_Nil_conv)
  show ?thesis unfolding getline_tokens.simps [of d a] t w using assms(2) by (simp add: getline_tokens.simps [of d "[]"])
qed

lemma str_nat_no_dot: "CHR ''.'' \<notin> set (str_nat 10 n)"
proof
  assume "CHR ''.'' \<in> set (str_nat 10 n)"
  then obtain d where "d < 10" "CHR ''.'' = str_digit d" using str_nat_10 [of n] by blast
  then have "is_digit CHR ''.''" using str_digit_props(1) by simp
  then show False by (simp add: is_digit_def)
qed

lemma std_atoi_str_nat: "std_atoi (str_nat 10 n) = int n"
proof -
  let ?s = "str_nat 10 n"
  obtain c cs where s: "?s = c # cs" using str_nat_10 [of n] by (cases ?s) auto
  have d: "\<forall>y \<in> set (c # cs). is_digit y \<and> \<not> is_space y \<and> y \<noteq> CHR ''-'' \<and> y \<noteq> CHR ''+''"
    using str_nat_10 [of n] str_digit_props unfolding s by fastforce
  have ds: "takeWhile is_digit (c # cs) = c # cs" using d by (simp add: takeWhile_eq_all_conv [THEN iffD2])
  have v: "digits_value (c # cs) = n" using str_nat_10 [of n] unfolding s by blast
  show ?thesis unfolding std_atoi_def s using d by (simp add: ds v Let_def del: takeWhile.simps)
qed

lemma atoi_byte_str_nat: "atoi_byte (str_nat 10 n) = word_of_nat n"
  by (simp add: atoi_byte_def std_atoi_str_nat)

text \<open>An address that is written as text and parsed again is the same address.\<close>

lemma parse_serialize_ipv4: "parse_ipv4 (serialize_ipv4 ip) = ip"
proof -
  have t: "getline_tokens CHR ''.'' (serialize_ipv4 ip) =
      [str_nat 10 (unat (drop_bit 24 ip)), str_nat 10 (unat (drop_bit 16 (ip AND 0x00ffffff))),
       str_nat 10 (unat (drop_bit 8 (ip AND 0x0000ffff))), str_nat 10 (unat (ip AND 0x000000ff))]"
    using str_nat_10 by (simp add: serialize_ipv4_def getline_token getline_last str_nat_no_dot)
  have m: "(0x00ffffff :: u32) = mask 24" "(0x0000ffff :: u32) = mask 16" "(0x000000ff :: u32) = mask 8"
    by (simp_all add: mask_eq_exp_minus_1)
  show ?thesis
    unfolding parse_ipv4_def t
  proof (rule bit_word_eqI)
    fix n assume "n < LENGTH(32)"
    then consider "n < 8" | "8 \<le> n" "n < 16" | "16 \<le> n" "n < 24" | "24 \<le> n" "n < 32" by fastforce
    then show "bit (foldl (\<lambda>ip token. push_bit 8 ip OR ucast (atoi_byte token)) (0 :: u32)
        (take 4 [str_nat 10 (unat (drop_bit 24 ip)), str_nat 10 (unat (drop_bit 16 (ip AND 0x00ffffff))),
          str_nat 10 (unat (drop_bit 8 (ip AND 0x0000ffff))), str_nat 10 (unat (ip AND 0x000000ff))])) n = bit ip n"
      unfolding m by cases (auto simp: atoi_byte_str_nat bit_simps)
  qed
qed

lemma v2_avoids_registration_address:
  assumes "\<not> bit (parse_ipv4 mcast_mask) 0"
  shows "parse_ipv4 (v2_topic2mcast tname mcast_base mcast_mask) \<noteq> parse_ipv4 mcast_base \<and>
    parse_ipv4 (v2_topic2mcast tname mcast_base mcast_mask) AND parse_ipv4 mcast_mask = parse_ipv4 mcast_base AND parse_ipv4 mcast_mask"
proof -
  define a m h where "a = parse_ipv4 mcast_base" and "m = parse_ipv4 mcast_mask" and "h = (ucast (fnv_hash tname) :: u32)"
  have e: "bit (a + 1) 0 \<noteq> bit a 0" by (simp add: bit_0)
  have i: "increase_adress_by_one a m \<noteq> a"
  proof
    assume "increase_adress_by_one a m = a"
    then have "bit (increase_adress_by_one a m) 0 = bit a 0" by simp
    then show False using assms e by (simp add: increase_adress_by_one_def m_def bit_simps)
  qed
  have k: "combine_ip_and_hash_with_mask a h m AND m = a AND m" "increase_adress_by_one a m AND m = a AND m"
    by (rule bit_word_eqI, auto simp: combine_ip_and_hash_with_mask_def increase_adress_by_one_def bit_simps)+
  show ?thesis
    using i k by (simp add: v2_topic2mcast_def v2_topic2mcast_hash_def parse_serialize_ipv4 Let_def a_def m_def h_def)
qed

text \<open>
  C33. With the network enabled and the current computation of addresses, the address of a topic is in the
  group that the mask selects, and is never the address the registration uses, provided the mask leaves
  the lowest bit free: the step to the next address always leaves the address of the group.
\<close>

theorem topic_address_separated:
  assumes "uc_network_enabled c" "uc_version c = UdpV2" "\<not> bit (parse_ipv4 (uc_multicast_mask c)) 0"
  shows "parse_ipv4 (GetTopicPayloadAddress c topic) \<noteq> parse_ipv4 (GetRegistrationAddress c) \<and>
    parse_ipv4 (GetTopicPayloadAddress c topic) AND parse_ipv4 (uc_multicast_mask c) =
    parse_ipv4 (GetRegistrationAddress c) AND parse_ipv4 (uc_multicast_mask c)"
  using v2_avoids_registration_address [OF assms(3)] assms(1,2)
  by (simp add: GetTopicPayloadAddress_def GetRegistrationAddress_def)

definition demo_udp_config :: udp_config where
  "demo_udp_config = \<lparr>uc_network_enabled = True, uc_local_group = ''127.255.255.255'', uc_local_ttl = 1,
     uc_multicast_group = ''239.0.0.1'', uc_multicast_mask = ''255.255.255.240'', uc_multicast_port = 14000,
     uc_multicast_ttl = 3, uc_version = UdpV2\<rparr>"

lemma demo_mask: "\<not> bit (parse_ipv4 ''255.255.255.240'') 0"
  by code_simp

theorem topic_address_separated_witness:
  "parse_ipv4 (GetTopicPayloadAddress demo_udp_config ''foo'') \<noteq> parse_ipv4 (GetRegistrationAddress demo_udp_config)"
  using topic_address_separated [of demo_udp_config "''foo''"] demo_mask by (simp add: demo_udp_config_def)

end
