(* ===== verification/Monitoring_Impl.thy ===== *)
theory Monitoring_Impl
  imports Desc_Gate Registration_Wire
begin

text \<open>
  \<open>ecal/core/src/monitoring/ecal_monitoring_impl.{h,cpp}\<close> (\<open>CMonitoringImpl\<close>) with the structs of
  \<open>ecal/types/monitoring.h\<close>: what a process knows of all entities, from their registration samples. Numbers of
  enumerators are those of \<open>Registration_Wire\<close>.
\<close>

unbundle bit_operations_syntax

subsection \<open>The structs\<close>

datatype mon_layer_type = MlNone | MlUdpMc | MlShm | MlTcp

record mon_layer =
  mol_type :: mon_layer_type
  mol_version :: i32
  mol_active :: bool

definition mol_new :: mon_layer where
  "mol_new = \<lparr>mol_type = MlNone, mol_version = 0, mol_active = False\<rparr>"

record mon_topic =
  mot_registration_clock :: i32
  mot_host_name :: string
  mot_shm_transport_domain :: string
  mot_process_id :: i32
  mot_process_name :: string
  mot_unit_name :: string
  mot_topic_id :: u64
  mot_topic_name :: string
  mot_direction :: string
  mot_datatype_information :: data_type_info
  mot_transport_layer :: "mon_layer list"
  mot_topic_size :: i32
  mot_connections_local :: i32
  mot_connections_external :: i32
  mot_message_drops :: i32
  mot_data_id :: i64
  mot_data_clock :: i64
  mot_data_frequency :: i32

definition mot_new :: mon_topic where
  "mot_new = \<lparr>mot_registration_clock = 0, mot_host_name = [], mot_shm_transport_domain = [], mot_process_id = 0,
     mot_process_name = [], mot_unit_name = [], mot_topic_id = 0, mot_topic_name = [], mot_direction = [],
     mot_datatype_information = dti_new, mot_transport_layer = [], mot_topic_size = 0, mot_connections_local = 0,
     mot_connections_external = 0, mot_message_drops = 0, mot_data_id = 0, mot_data_clock = 0, mot_data_frequency = 0\<rparr>"

record mon_process =
  mop_registration_clock :: i32
  mop_host_name :: string
  mop_shm_transport_domain :: string
  mop_process_id :: i32
  mop_process_name :: string
  mop_unit_name :: string
  mop_process_parameter :: string
  mop_state_severity :: i32
  mop_state_severity_level :: i32
  mop_state_info :: string
  mop_time_sync_state :: i32
  mop_time_sync_module_name :: string
  mop_component_init_state :: i32
  mop_component_init_info :: string
  mop_ecal_runtime_version :: string
  mop_config_file_path :: string

definition mop_new :: mon_process where
  "mop_new = \<lparr>mop_registration_clock = 0, mop_host_name = [], mop_shm_transport_domain = [], mop_process_id = 0,
     mop_process_name = [], mop_unit_name = [], mop_process_parameter = [], mop_state_severity = 0,
     mop_state_severity_level = 0, mop_state_info = [], mop_time_sync_state = 0, mop_time_sync_module_name = [],
     mop_component_init_state = 0, mop_component_init_info = [], mop_ecal_runtime_version = [], mop_config_file_path = []\<rparr>"

record mon_method =
  mom_method_name :: string
  mom_request_datatype_information :: data_type_info
  mom_response_datatype_information :: data_type_info
  mom_call_count :: i64

record mon_server =
  mos_registration_clock :: i32
  mos_host_name :: string
  mos_process_name :: string
  mos_unit_name :: string
  mos_process_id :: i32
  mos_service_name :: string
  mos_service_id :: u64
  mos_version :: u32
  mos_tcp_port_v0 :: u32
  mos_tcp_port_v1 :: u32
  mos_methods :: "mon_method list"

definition mos_new :: mon_server where
  "mos_new = \<lparr>mos_registration_clock = 0, mos_host_name = [], mos_process_name = [], mos_unit_name = [], mos_process_id = 0,
     mos_service_name = [], mos_service_id = 0, mos_version = 0, mos_tcp_port_v0 = 0, mos_tcp_port_v1 = 0, mos_methods = []\<rparr>"

record mon_client =
  moc_registration_clock :: i32
  moc_host_name :: string
  moc_process_name :: string
  moc_unit_name :: string
  moc_process_id :: i32
  moc_service_name :: string
  moc_service_id :: u64
  moc_methods :: "mon_method list"
  moc_version :: u32

definition moc_new :: mon_client where
  "moc_new = \<lparr>moc_registration_clock = 0, moc_host_name = [], moc_process_name = [], moc_unit_name = [], moc_process_id = 0,
     moc_service_name = [], moc_service_id = 0, moc_methods = [], moc_version = 0\<rparr>"

record mon_data =
  mod_processes :: "mon_process list"
  mod_publishers :: "mon_topic list"
  mod_subscribers :: "mon_topic list"
  mod_servers :: "mon_server list"
  mod_clients :: "mon_client list"

definition mod_new :: mon_data where
  "mod_new = \<lparr>mod_processes = [], mod_publishers = [], mod_subscribers = [], mod_servers = [], mod_clients = []\<rparr>"

record monitoring =
  mon_init :: bool
  mon_process_map :: "(u64, mon_process) omap"
  mon_publisher_map :: "(u64, mon_topic) omap"
  mon_subscriber_map :: "(u64, mon_topic) omap"
  mon_server_map :: "(u64, mon_server) omap"
  mon_client_map :: "(u64, mon_client) omap"

definition mon_new :: monitoring where
  "mon_new = \<lparr>mon_init = False, mon_process_map = [], mon_publisher_map = [], mon_subscriber_map = [],
     mon_server_map = [], mon_client_map = []\<rparr>"

text \<open>\<open>receiver\<close>: whether the registration receiver exists. The callback it gets is the effect.\<close>

datatype mon_effect = MonSetCallback string | MonRemCallback string

definition mon_Create :: "bool \<Rightarrow> monitoring \<Rightarrow> monitoring \<times> mon_effect list" where
  "mon_Create receiver m =
     (if mon_init m then (m, [])
      else if receiver then (m\<lparr>mon_init := True\<rparr>, [MonSetCallback ''monitoring''])
      else (m, []))"

definition mon_Destroy :: "bool \<Rightarrow> monitoring \<Rightarrow> monitoring \<times> mon_effect list" where
  "mon_Destroy receiver m =
     (if receiver then (m\<lparr>mon_init := False\<rparr>, [MonRemCallback ''monitoring'']) else (m, []))"

subsection \<open>Samples\<close>

datatype pub_sub = MonPublisher | MonSubscriber

fun mon_direction :: "pub_sub \<Rightarrow> string" where
  "mon_direction MonPublisher = ''publisher''"
| "mon_direction MonSubscriber = ''subscriber''"

text \<open>\<open>(*map)[key]\<close> as a reference that is written to.\<close>

definition om_refresh :: "(u64, 'v) omap \<Rightarrow> u64 \<Rightarrow> 'v \<Rightarrow> ('v \<Rightarrow> 'v) \<Rightarrow> (u64, 'v) omap" where
  "om_refresh m k d f = (let (v, m) = om_access id m k d in om_set id m k (f v))"

definition mon_layers :: "topic \<Rightarrow> mon_layer list" where
  "mon_layers tp =
     (let active = (\<lambda>t. foldl (\<lambda>b l. b \<or> tl_type l = t \<and> tl_active l) False (ev_list (tp_transport_layer tp)))
      in [mol_new\<lparr>mol_type := MlUdpMc, mol_active := active TlEcalUdp\<rparr>,
          mol_new\<lparr>mol_type := MlShm, mol_active := active TlEcalShm\<rparr>,
          mol_new\<lparr>mol_type := MlTcp, mol_active := active TlEcalTcp\<rparr>])"

text \<open>
  The clock of an entry is an \<open>int\<close> that is counted up with every registration. Its overflow, after 2^31 - 1 registrations of
  one entity, is undefined in the code; here it wraps.
\<close>

definition mon_topic_info :: "pub_sub \<Rightarrow> sample \<Rightarrow> mon_topic \<Rightarrow> mon_topic" where
  "mon_topic_info ps s i =
     (let tp = sa_topic s in
      i\<lparr>mot_host_name := si_host_name (sa_identifier s), mot_shm_transport_domain := tp_shm_transport_domain tp,
        mot_process_id := si_process_id (sa_identifier s), mot_process_name := tp_process_name tp,
        mot_unit_name := tp_unit_name tp, mot_topic_name := tp_topic_name tp, mot_direction := mon_direction ps,
        mot_topic_id := si_entity_id (sa_identifier s),
        mot_registration_clock := mot_registration_clock i + 1,
        mot_datatype_information := tp_datatype_information tp,
        mot_transport_layer := mon_layers tp, mot_topic_size := tp_topic_size tp,
        mot_connections_local := tp_connections_local tp, mot_connections_external := tp_connections_external tp,
        mot_data_id := tp_data_id tp, mot_data_clock := tp_data_clock tp, mot_message_drops := tp_message_drops tp,
        mot_data_frequency := tp_data_frequency tp\<rparr>)"

definition mon_GetMap :: "pub_sub \<Rightarrow> monitoring \<Rightarrow> (u64, mon_topic) omap" where
  "mon_GetMap ps m = (case ps of MonPublisher \<Rightarrow> mon_publisher_map m | MonSubscriber \<Rightarrow> mon_subscriber_map m)"

definition mon_put_map :: "pub_sub \<Rightarrow> (u64, mon_topic) omap \<Rightarrow> monitoring \<Rightarrow> monitoring" where
  "mon_put_map ps mp m =
     (case ps of MonPublisher \<Rightarrow> m\<lparr>mon_publisher_map := mp\<rparr> | MonSubscriber \<Rightarrow> m\<lparr>mon_subscriber_map := mp\<rparr>)"

definition mon_RegisterTopic :: "sample \<Rightarrow> pub_sub \<Rightarrow> monitoring \<Rightarrow> monitoring" where
  "mon_RegisterTopic s ps m =
     mon_put_map ps (om_refresh (mon_GetMap ps m) (si_entity_id (sa_identifier s)) mot_new (mon_topic_info ps s)) m"

definition mon_UnregisterTopic :: "sample \<Rightarrow> pub_sub \<Rightarrow> monitoring \<Rightarrow> monitoring" where
  "mon_UnregisterTopic s ps m = mon_put_map ps (om_erase id (mon_GetMap ps m) (si_entity_id (sa_identifier s))) m"

definition mon_process_info :: "sample \<Rightarrow> mon_process \<Rightarrow> mon_process" where
  "mon_process_info s i =
     (let p = sa_process s; st = pri_state p in
      i\<lparr>mop_host_name := si_host_name (sa_identifier s), mop_shm_transport_domain := pri_shm_transport_domain p,
        mop_process_name := pri_process_name p, mop_unit_name := pri_unit_name p,
        mop_process_id := si_process_id (sa_identifier s), mop_process_parameter := pri_process_parameter p,
        mop_registration_clock := mop_registration_clock i + 1,
        mop_state_severity := word_of_int (severity_num (pst_severity st)),
        mop_state_severity_level := word_of_int (severity_level_num (pst_severity_level st)),
        mop_state_info := pst_info st,
        mop_time_sync_state := word_of_int (tsync_num (pri_time_sync_state p)),
        mop_time_sync_module_name := pri_time_sync_module_name p,
        mop_component_init_state := pri_component_init_state p, mop_component_init_info := pri_component_init_info p,
        mop_ecal_runtime_version := pri_ecal_runtime_version p, mop_config_file_path := pri_config_file_path p\<rparr>)"

definition mon_RegisterProcess :: "sample \<Rightarrow> monitoring \<Rightarrow> monitoring" where
  "mon_RegisterProcess s m =
     m\<lparr>mon_process_map := om_refresh (mon_process_map m) (si_entity_id (sa_identifier s)) mop_new (mon_process_info s)\<rparr>"

definition mon_UnregisterProcess :: "sample \<Rightarrow> monitoring \<Rightarrow> monitoring" where
  "mon_UnregisterProcess s m = m\<lparr>mon_process_map := om_erase id (mon_process_map m) (si_entity_id (sa_identifier s))\<rparr>"

definition mon_methods :: "service_method evec \<Rightarrow> mon_method list" where
  "mon_methods v = map (\<lambda>sm. \<lparr>mom_method_name = sm_method_name sm,
     mom_request_datatype_information = sm_request_datatype_information sm,
     mom_response_datatype_information = sm_response_datatype_information sm, mom_call_count = sm_call_count sm\<rparr>) (ev_list v)"

definition mon_server_info :: "sample \<Rightarrow> mon_server \<Rightarrow> mon_server" where
  "mon_server_info s i =
     (let sv = sa_service s in
      i\<lparr>mos_host_name := si_host_name (sa_identifier s), mos_service_name := sv_service_name sv,
        mos_service_id := si_entity_id (sa_identifier s), mos_process_name := sv_process_name sv,
        mos_unit_name := sv_unit_name sv, mos_process_id := si_process_id (sa_identifier s),
        mos_tcp_port_v0 := sv_tcp_port_v0 sv, mos_tcp_port_v1 := sv_tcp_port_v1 sv,
        mos_registration_clock := mos_registration_clock i + 1, mos_methods := mon_methods (sv_methods sv)\<rparr>)"

definition mon_RegisterServer :: "sample \<Rightarrow> monitoring \<Rightarrow> monitoring" where
  "mon_RegisterServer s m =
     m\<lparr>mon_server_map := om_refresh (mon_server_map m) (si_entity_id (sa_identifier s)) mos_new (mon_server_info s)\<rparr>"

definition mon_UnregisterServer :: "sample \<Rightarrow> monitoring \<Rightarrow> monitoring" where
  "mon_UnregisterServer s m = m\<lparr>mon_server_map := om_erase id (mon_server_map m) (si_entity_id (sa_identifier s))\<rparr>"

definition mon_client_info :: "sample \<Rightarrow> mon_client \<Rightarrow> mon_client" where
  "mon_client_info s i =
     (let cl = sa_client s in
      i\<lparr>moc_host_name := si_host_name (sa_identifier s), moc_service_name := cl_service_name cl,
        moc_service_id := si_entity_id (sa_identifier s), moc_process_name := cl_process_name cl,
        moc_unit_name := cl_unit_name cl, moc_process_id := si_process_id (sa_identifier s),
        moc_registration_clock := moc_registration_clock i + 1, moc_methods := mon_methods (cl_methods cl)\<rparr>)"

definition mon_RegisterClient :: "sample \<Rightarrow> monitoring \<Rightarrow> monitoring" where
  "mon_RegisterClient s m =
     m\<lparr>mon_client_map := om_refresh (mon_client_map m) (si_entity_id (sa_identifier s)) moc_new (mon_client_info s)\<rparr>"

definition mon_UnregisterClient :: "sample \<Rightarrow> monitoring \<Rightarrow> monitoring" where
  "mon_UnregisterClient s m = m\<lparr>mon_client_map := om_erase id (mon_client_map m) (si_entity_id (sa_identifier s))\<rparr>"

definition mon_ApplySample :: "monitoring \<Rightarrow> sample \<Rightarrow> monitoring" where
  "mon_ApplySample m s =
     (case sa_cmd_type s of
        BctNone \<Rightarrow> m
      | BctForeign _ \<Rightarrow> m
      | BctSetSample \<Rightarrow> m
      | BctRegProcess \<Rightarrow> mon_RegisterProcess s m
      | BctUnregProcess \<Rightarrow> mon_UnregisterProcess s m
      | BctRegService \<Rightarrow> mon_RegisterServer s m
      | BctUnregService \<Rightarrow> mon_UnregisterServer s m
      | BctRegClient \<Rightarrow> mon_RegisterClient s m
      | BctUnregClient \<Rightarrow> mon_UnregisterClient s m
      | BctRegPublisher \<Rightarrow> mon_RegisterTopic s MonPublisher m
      | BctUnregPublisher \<Rightarrow> mon_UnregisterTopic s MonPublisher m
      | BctRegSubscriber \<Rightarrow> mon_RegisterTopic s MonSubscriber m
      | BctUnregSubscriber \<Rightarrow> mon_UnregisterTopic s MonSubscriber m)"

subsection \<open>The result\<close>

text \<open>The entities asked for are bits of \<open>entities\<close>.\<close>

definition mon_wants :: "u32 \<Rightarrow> u32 \<Rightarrow> bool" where
  "mon_wants entities e \<longleftrightarrow> entities AND e \<noteq> 0"

definition mon_GetMonitoring :: "monitoring \<Rightarrow> u32 \<Rightarrow> mon_data" where
  "mon_GetMonitoring m entities =
     \<lparr>mod_processes = (if mon_wants entities 0x010 then map snd (mon_process_map m) else []),
      mod_publishers = (if mon_wants entities 0x001 then map snd (mon_publisher_map m) else []),
      mod_subscribers = (if mon_wants entities 0x002 then map snd (mon_subscriber_map m) else []),
      mod_servers = (if mon_wants entities 0x004 then map snd (mon_server_map m) else []),
      mod_clients = (if mon_wants entities 0x008 then map snd (mon_client_map m) else [])\<rparr>"

text \<open>The variant that is serialized fills a new struct, one kind of entity after the other.\<close>

definition mon_MonitorProcs :: "monitoring \<Rightarrow> mon_data \<Rightarrow> mon_data" where
  "mon_MonitorProcs m d = d\<lparr>mod_processes := mod_processes d @ map snd (mon_process_map m)\<rparr>"

definition mon_MonitorServer :: "monitoring \<Rightarrow> mon_data \<Rightarrow> mon_data" where
  "mon_MonitorServer m d = d\<lparr>mod_servers := mod_servers d @ map snd (mon_server_map m)\<rparr>"

definition mon_MonitorClients :: "monitoring \<Rightarrow> mon_data \<Rightarrow> mon_data" where
  "mon_MonitorClients m d = d\<lparr>mod_clients := mod_clients d @ map snd (mon_client_map m)\<rparr>"

definition mon_MonitorTopics :: "(u64, mon_topic) omap \<Rightarrow> string \<Rightarrow> mon_data \<Rightarrow> mon_data" where
  "mon_MonitorTopics mp direction d =
     foldl (\<lambda>d t.
       (let d = (if direction = ''publisher'' then d\<lparr>mod_publishers := mod_publishers d @ [t]\<rparr> else d)
        in if direction = ''subscriber'' then d\<lparr>mod_subscribers := mod_subscribers d @ [t]\<rparr> else d)) d (map snd mp)"

definition mon_GetMonitoring_struct :: "monitoring \<Rightarrow> u32 \<Rightarrow> mon_data" where
  "mon_GetMonitoring_struct m entities =
     (let d = mod_new;
          d = (if mon_wants entities 0x010 then mon_MonitorProcs m d else d);
          d = (if mon_wants entities 0x001 then mon_MonitorTopics (mon_publisher_map m) ''publisher'' d else d);
          d = (if mon_wants entities 0x002 then mon_MonitorTopics (mon_subscriber_map m) ''subscriber'' d else d);
          d = (if mon_wants entities 0x004 then mon_MonitorServer m d else d);
          d = (if mon_wants entities 0x008 then mon_MonitorClients m d else d)
      in d)"


subsection \<open>What is listed after a history of samples\<close>

lemma om_find_refresh:
  "om_find id (om_refresh m k d f) k' =
     (if k' = k then Some (f (case om_find id m k of Some v \<Rightarrow> v | None \<Rightarrow> d)) else om_find id m k')"
  by (cases "om_find id m k") (auto simp: om_refresh_def om_access_def om_find_set)

lemma om_invar_refresh: "om_invar id m \<Longrightarrow> om_invar id (om_refresh m k d f)"
  by (auto simp: om_refresh_def om_access_def split: option.split prod.split intro: om_invar_set)

text \<open>The registrations of an entity since its last unregistration, oldest first.\<close>

definition live_step :: "cmd_type \<Rightarrow> cmd_type \<Rightarrow> u64 \<Rightarrow> sample list \<Rightarrow> sample \<Rightarrow> sample list" where
  "live_step reg unreg e rs s =
     (if si_entity_id (sa_identifier s) \<noteq> e then rs
      else if sa_cmd_type s = reg then rs @ [s]
      else if sa_cmd_type s = unreg then []
      else rs)"

definition live_regs :: "cmd_type \<Rightarrow> cmd_type \<Rightarrow> u64 \<Rightarrow> sample list \<Rightarrow> sample list" where
  "live_regs reg unreg e ss = foldl (live_step reg unreg e) [] ss"

text \<open>The entry they lead to: the contents of the last one, and the clock counts them.\<close>

definition live_entry ::
  "(sample \<Rightarrow> 'v \<Rightarrow> 'v) \<Rightarrow> ((i32 \<Rightarrow> i32) \<Rightarrow> 'v \<Rightarrow> 'v) \<Rightarrow> 'v \<Rightarrow> sample list \<Rightarrow> 'v option" where
  "live_entry info clock new rs =
     (if rs = [] then None else Some (info (last rs) (clock (\<lambda>_. word_of_nat (length rs) - 1) new)))"

definition live_map ::
  "cmd_type \<Rightarrow> cmd_type \<Rightarrow> (sample \<Rightarrow> 'v \<Rightarrow> 'v) \<Rightarrow> ((i32 \<Rightarrow> i32) \<Rightarrow> 'v \<Rightarrow> 'v) \<Rightarrow> 'v \<Rightarrow> sample list \<Rightarrow> (u64, 'v) omap \<Rightarrow> bool" where
  "live_map reg unreg info clock new ss m \<longleftrightarrow> om_invar id m \<and>
     (\<forall>e. om_find id m e = live_entry info clock new (live_regs reg unreg e ss))"

lemma live_regs_snoc: "live_regs reg unreg e (ss @ [s]) = live_step reg unreg e (live_regs reg unreg e ss) s"
  by (simp add: live_regs_def)

text \<open>A map is kept by refreshing, erasing or leaving it, provided registering an entry anew depends on its clock only.\<close>

lemma live_map_step:
  assumes "live_map reg unreg info clock new ss m" "reg \<noteq> unreg"
    and "\<And>s s' f. info s (info s' (clock f new)) = info s (clock (\<lambda>c. f c + 1) new)" "clock (\<lambda>_. 0) new = new"
    and "\<And>f g. (\<And>c. f c = g c) \<Longrightarrow> clock f new = clock g new"
    and "m' = (if sa_cmd_type s = reg then om_refresh m (si_entity_id (sa_identifier s)) new (info s)
      else if sa_cmd_type s = unreg then om_erase id m (si_entity_id (sa_identifier s)) else m)"
  shows "live_map reg unreg info clock new (ss @ [s]) m'"
proof -
  let ?k = "si_entity_id (sa_identifier s)"
  have I: "om_invar id m" and F: "om_find id m e = live_entry info clock new (live_regs reg unreg e ss)" for e
    using assms(1) by (simp_all add: live_map_def)
  consider (reg) "sa_cmd_type s = reg" | (unreg) "sa_cmd_type s = unreg" | (other) "sa_cmd_type s \<noteq> reg" "sa_cmd_type s \<noteq> unreg" by blast
  then show ?thesis
  proof cases
    case reg
    then have m': "m' = om_refresh m ?k new (info s)" by (simp add: assms(6))
    have "om_find id m' e = live_entry info clock new (live_regs reg unreg e (ss @ [s]))" for e
    proof (cases "e = ?k")
      case True
      let ?rs = "live_regs reg unreg e ss"
      have "om_find id m' e = Some (info s (case live_entry info clock new ?rs of Some v \<Rightarrow> v | None \<Rightarrow> new))"
        using True by (simp add: m' om_find_refresh F)
      also have "\<dots> = live_entry info clock new (?rs @ [s])"
        using assms(4) by (cases "?rs = []") (simp_all add: live_entry_def assms(3))
      finally show ?thesis using True reg by (simp add: live_regs_snoc live_step_def)
    qed (simp add: m' om_find_refresh F live_regs_snoc live_step_def)
    then show ?thesis using I by (simp add: live_map_def m' om_invar_refresh)
  next
    case unreg
    then have m': "m' = om_erase id m ?k" using assms(2) by (auto simp: assms(6))
    have "om_find id m' e = live_entry info clock new (live_regs reg unreg e (ss @ [s]))" for e
      using unreg assms(2) by (auto simp: m' om_find_erase [OF I] F live_regs_snoc live_step_def live_entry_def)
    then show ?thesis using I by (simp add: live_map_def m' om_invar_erase)
  next
    case other
    then show ?thesis using assms(1,6) by (simp add: live_map_def live_regs_snoc live_step_def)
  qed
qed

lemma live_map_empty: "live_map reg unreg info clock new [] []"
  by (simp add: live_map_def om_invar_def live_regs_def live_entry_def)

text \<open>All five maps of the monitoring.\<close>

definition mon_listed :: "sample list \<Rightarrow> monitoring \<Rightarrow> bool" where
  "mon_listed ss m \<longleftrightarrow>
     live_map BctRegProcess BctUnregProcess mon_process_info mop_registration_clock_update mop_new ss (mon_process_map m) \<and>
     live_map BctRegPublisher BctUnregPublisher (mon_topic_info MonPublisher) mot_registration_clock_update mot_new ss (mon_publisher_map m) \<and>
     live_map BctRegSubscriber BctUnregSubscriber (mon_topic_info MonSubscriber) mot_registration_clock_update mot_new ss (mon_subscriber_map m) \<and>
     live_map BctRegService BctUnregService mon_server_info mos_registration_clock_update mos_new ss (mon_server_map m) \<and>
     live_map BctRegClient BctUnregClient mon_client_info moc_registration_clock_update moc_new ss (mon_client_map m)"

lemmas mon_apply_defs = mon_ApplySample_def mon_RegisterProcess_def mon_UnregisterProcess_def mon_RegisterServer_def
  mon_UnregisterServer_def mon_RegisterClient_def mon_UnregisterClient_def mon_RegisterTopic_def mon_UnregisterTopic_def
  mon_put_map_def mon_GetMap_def

lemma mon_listed_step:
  assumes "mon_listed ss m"
  shows "mon_listed (ss @ [s]) (mon_ApplySample m s)"
  unfolding mon_listed_def
proof (intro conjI)
  note m = assms [unfolded mon_listed_def]
  show "live_map BctRegProcess BctUnregProcess mon_process_info mop_registration_clock_update mop_new (ss @ [s]) (mon_process_map (mon_ApplySample m s))"
    by (rule live_map_step [OF conjunct1 [OF m]]) (simp_all add: mon_process_info_def mop_new_def Let_def, cases "sa_cmd_type s", simp_all add: mon_apply_defs mop_new_def)
  show "live_map BctRegPublisher BctUnregPublisher (mon_topic_info MonPublisher) mot_registration_clock_update mot_new (ss @ [s]) (mon_publisher_map (mon_ApplySample m s))"
    by (rule live_map_step [OF conjunct1 [OF conjunct2 [OF m]]]) (simp_all add: mon_topic_info_def mot_new_def Let_def, cases "sa_cmd_type s", simp_all add: mon_apply_defs mot_new_def)
  show "live_map BctRegSubscriber BctUnregSubscriber (mon_topic_info MonSubscriber) mot_registration_clock_update mot_new (ss @ [s]) (mon_subscriber_map (mon_ApplySample m s))"
    by (rule live_map_step [OF conjunct1 [OF conjunct2 [OF conjunct2 [OF m]]]]) (simp_all add: mon_topic_info_def mot_new_def Let_def, cases "sa_cmd_type s", simp_all add: mon_apply_defs mot_new_def)
  show "live_map BctRegService BctUnregService mon_server_info mos_registration_clock_update mos_new (ss @ [s]) (mon_server_map (mon_ApplySample m s))"
    by (rule live_map_step [OF conjunct1 [OF conjunct2 [OF conjunct2 [OF conjunct2 [OF m]]]]]) (simp_all add: mon_server_info_def mos_new_def Let_def, cases "sa_cmd_type s", simp_all add: mon_apply_defs mos_new_def)
  show "live_map BctRegClient BctUnregClient mon_client_info moc_registration_clock_update moc_new (ss @ [s]) (mon_client_map (mon_ApplySample m s))"
    by (rule live_map_step [OF conjunct2 [OF conjunct2 [OF conjunct2 [OF conjunct2 [OF m]]]]]) (simp_all add: mon_client_info_def moc_new_def Let_def, cases "sa_cmd_type s", simp_all add: mon_apply_defs moc_new_def)
qed

lemma mon_listed_run: "mon_listed ss (foldl mon_ApplySample mon_new ss)"
proof (induction ss rule: rev_induct)
  case Nil
  then show ?case by (simp add: mon_listed_def mon_new_def live_map_empty)
next
  case (snoc s ss)
  then show ?case by (simp add: mon_listed_step)
qed


subsection \<open>The lists that are returned\<close>

text \<open>
  What is to be shown of an entity, from its last registration \<open>s\<close> and the number \<open>n\<close> of its registrations, field by field. The
  version of a service, of a client and of a layer is not taken over and shown as 0.
\<close>

definition shown_layers :: "tlayer list \<Rightarrow> mon_layer list" where
  "shown_layers ls =
     [\<lparr>mol_type = MlUdpMc, mol_version = 0, mol_active = (\<exists>l \<in> set ls. tl_type l = TlEcalUdp \<and> tl_active l)\<rparr>,
      \<lparr>mol_type = MlShm, mol_version = 0, mol_active = (\<exists>l \<in> set ls. tl_type l = TlEcalShm \<and> tl_active l)\<rparr>,
      \<lparr>mol_type = MlTcp, mol_version = 0, mol_active = (\<exists>l \<in> set ls. tl_type l = TlEcalTcp \<and> tl_active l)\<rparr>]"

definition shown_topic :: "string \<Rightarrow> sample \<Rightarrow> nat \<Rightarrow> mon_topic" where
  "shown_topic direction s n =
     \<lparr>mot_registration_clock = word_of_nat n,
      mot_host_name = si_host_name (sa_identifier s),
      mot_shm_transport_domain = tp_shm_transport_domain (sa_topic s),
      mot_process_id = si_process_id (sa_identifier s),
      mot_process_name = tp_process_name (sa_topic s),
      mot_unit_name = tp_unit_name (sa_topic s),
      mot_topic_id = si_entity_id (sa_identifier s),
      mot_topic_name = tp_topic_name (sa_topic s),
      mot_direction = direction,
      mot_datatype_information = tp_datatype_information (sa_topic s),
      mot_transport_layer = shown_layers (ev_list (tp_transport_layer (sa_topic s))),
      mot_topic_size = tp_topic_size (sa_topic s),
      mot_connections_local = tp_connections_local (sa_topic s),
      mot_connections_external = tp_connections_external (sa_topic s),
      mot_message_drops = tp_message_drops (sa_topic s),
      mot_data_id = tp_data_id (sa_topic s),
      mot_data_clock = tp_data_clock (sa_topic s),
      mot_data_frequency = tp_data_frequency (sa_topic s)\<rparr>"

definition shown_process :: "sample \<Rightarrow> nat \<Rightarrow> mon_process" where
  "shown_process s n =
     \<lparr>mop_registration_clock = word_of_nat n,
      mop_host_name = si_host_name (sa_identifier s),
      mop_shm_transport_domain = pri_shm_transport_domain (sa_process s),
      mop_process_id = si_process_id (sa_identifier s),
      mop_process_name = pri_process_name (sa_process s),
      mop_unit_name = pri_unit_name (sa_process s),
      mop_process_parameter = pri_process_parameter (sa_process s),
      mop_state_severity = word_of_int (severity_num (pst_severity (pri_state (sa_process s)))),
      mop_state_severity_level = word_of_int (severity_level_num (pst_severity_level (pri_state (sa_process s)))),
      mop_state_info = pst_info (pri_state (sa_process s)),
      mop_time_sync_state = word_of_int (tsync_num (pri_time_sync_state (sa_process s))),
      mop_time_sync_module_name = pri_time_sync_module_name (sa_process s),
      mop_component_init_state = pri_component_init_state (sa_process s),
      mop_component_init_info = pri_component_init_info (sa_process s),
      mop_ecal_runtime_version = pri_ecal_runtime_version (sa_process s),
      mop_config_file_path = pri_config_file_path (sa_process s)\<rparr>"

definition shown_method :: "service_method \<Rightarrow> mon_method" where
  "shown_method m =
     \<lparr>mom_method_name = sm_method_name m,
      mom_request_datatype_information = sm_request_datatype_information m,
      mom_response_datatype_information = sm_response_datatype_information m,
      mom_call_count = sm_call_count m\<rparr>"

definition shown_server :: "sample \<Rightarrow> nat \<Rightarrow> mon_server" where
  "shown_server s n =
     \<lparr>mos_registration_clock = word_of_nat n,
      mos_host_name = si_host_name (sa_identifier s),
      mos_process_name = sv_process_name (sa_service s),
      mos_unit_name = sv_unit_name (sa_service s),
      mos_process_id = si_process_id (sa_identifier s),
      mos_service_name = sv_service_name (sa_service s),
      mos_service_id = si_entity_id (sa_identifier s),
      mos_version = 0,
      mos_tcp_port_v0 = sv_tcp_port_v0 (sa_service s),
      mos_tcp_port_v1 = sv_tcp_port_v1 (sa_service s),
      mos_methods = map shown_method (ev_list (sv_methods (sa_service s)))\<rparr>"

definition shown_client :: "sample \<Rightarrow> nat \<Rightarrow> mon_client" where
  "shown_client s n =
     \<lparr>moc_registration_clock = word_of_nat n,
      moc_host_name = si_host_name (sa_identifier s),
      moc_process_name = cl_process_name (sa_client s),
      moc_unit_name = cl_unit_name (sa_client s),
      moc_process_id = si_process_id (sa_identifier s),
      moc_service_name = cl_service_name (sa_client s),
      moc_service_id = si_entity_id (sa_identifier s),
      moc_methods = map shown_method (ev_list (cl_methods (sa_client s))),
      moc_version = 0\<rparr>"

text \<open>The ids of the entities with a live registration, in their order, and the list of what is to be shown of them.\<close>

definition live_ids :: "cmd_type \<Rightarrow> cmd_type \<Rightarrow> sample list \<Rightarrow> u64 list" where
  "live_ids reg unreg ss =
     sort (remdups (filter (\<lambda>e. live_regs reg unreg e ss \<noteq> []) (map (\<lambda>s. si_entity_id (sa_identifier s)) ss)))"

definition listed :: "cmd_type \<Rightarrow> cmd_type \<Rightarrow> (sample \<Rightarrow> nat \<Rightarrow> 'v) \<Rightarrow> sample list \<Rightarrow> 'v list" where
  "listed reg unreg shown ss =
     map (\<lambda>e. let rs = live_regs reg unreg e ss in shown (last rs) (length rs)) (live_ids reg unreg ss)"

text \<open>The code's own way to fill the entries shows just this.\<close>

lemma foldl_active: "foldl (\<lambda>b l. b \<or> P l) b ls \<longleftrightarrow> b \<or> (\<exists>l \<in> set ls. P l)"
  by (induction ls arbitrary: b) auto

lemma mon_layers_shown: "mon_layers tp = shown_layers (ev_list (tp_transport_layer tp))"
  by (simp add: mon_layers_def shown_layers_def mol_new_def Let_def foldl_active)

lemma shown_entries:
  "mon_topic_info ps s (mot_registration_clock_update (\<lambda>_. word_of_nat n - 1) mot_new) = shown_topic (mon_direction ps) s n"
  "mon_process_info s (mop_registration_clock_update (\<lambda>_. word_of_nat n - 1) mop_new) = shown_process s n"
  "mon_server_info s (mos_registration_clock_update (\<lambda>_. word_of_nat n - 1) mos_new) = shown_server s n"
  "mon_client_info s (moc_registration_clock_update (\<lambda>_. word_of_nat n - 1) moc_new) = shown_client s n"
  by (simp_all add: mon_topic_info_def shown_topic_def mot_new_def mon_layers_shown mon_process_info_def shown_process_def mop_new_def
      mon_server_info_def shown_server_def mos_new_def mon_client_info_def shown_client_def moc_new_def mon_methods_def shown_method_def Let_def)

lemma live_regs_entity: "s \<in> set (live_regs reg unreg e ss) \<Longrightarrow> si_entity_id (sa_identifier s) = e"
  by (induction ss rule: rev_induct) (auto simp: live_regs_snoc live_step_def live_regs_def split: if_splits)

lemma live_ids_keys:
  assumes "live_map reg unreg info clock new ss m"
  shows "om_keys id m = live_ids reg unreg ss"
proof (rule sorted_distinct_set_unique)
  have I: "om_invar id m" and F: "\<And>e. om_find id m e = live_entry info clock new (live_regs reg unreg e ss)"
    using assms by (simp_all add: live_map_def)
  show "sorted (om_keys id m)" "distinct (om_keys id m)" using I strict_sorted_iff by (auto simp: om_invar_def)
  have "e \<in> set (om_keys id m) \<longleftrightarrow> live_regs reg unreg e ss \<noteq> []" for e
    using om_find_None_iff [of id m e] by (auto simp: F live_entry_def)
  moreover have "e \<in> (\<lambda>s. si_entity_id (sa_identifier s)) ` set ss" if "live_regs reg unreg e ss \<noteq> []" for e
    using that by (induction ss rule: rev_induct) (auto simp: live_regs_snoc live_step_def live_regs_def split: if_splits)
  ultimately show "set (om_keys id m) = set (live_ids reg unreg ss)" by (auto simp: live_ids_def)
qed (simp_all add: live_ids_def)

lemma live_map_listed:
  assumes "live_map reg unreg info clock new ss m" "\<And>s n. info s (clock (\<lambda>_. word_of_nat n - 1) new) = shown s n"
  shows "map snd m = listed reg unreg shown ss"
proof -
  have I: "om_invar id m" and F: "\<And>e. om_find id m e = live_entry info clock new (live_regs reg unreg e ss)"
    using assms(1) by (simp_all add: live_map_def)
  have "v = (let rs = live_regs reg unreg k ss in shown (last rs) (length rs))" if "(k, v) \<in> set m" for k v
    using om_find_mem [OF I that] F [of k] assms(2) by (simp add: live_entry_def Let_def split: if_splits)
  then have "map snd m = map (\<lambda>e. let rs = live_regs reg unreg e ss in shown (last rs) (length rs)) (om_keys id m)"
    by (auto simp: om_keys_def)
  then show ?thesis by (simp add: listed_def live_ids_keys [OF assms(1)])
qed

lemma live_map_ids:
  assumes "live_map reg unreg info clock new ss m" "\<And>s v. ident (info s v) = si_entity_id (sa_identifier s)"
  shows "map ident (map snd m) = om_keys id m"
proof -
  have I: "om_invar id m" and F: "\<And>e. om_find id m e = live_entry info clock new (live_regs reg unreg e ss)"
    using assms(1) by (simp_all add: live_map_def)
  have "ident v = k" if "(k, v) \<in> set m" for k v
  proof -
    have "live_entry info clock new (live_regs reg unreg k ss) = Some v" using om_find_mem [OF I that] F by simp
    then show ?thesis
      using assms(2) live_regs_entity [of "last (live_regs reg unreg k ss)" reg unreg k ss]
      by (auto simp: live_entry_def split: if_splits)
  qed
  then show ?thesis by (auto simp: om_keys_def)
qed

text \<open>
  C10. What the monitoring returns after any history of registration samples: of the kinds of entities
  asked for, in the order of their ids and each once, exactly those that registered and did not unregister since. Each is
  shown as its last registration has it, every field of it, with a clock that counts its registrations; only the version
  of a service, a client and a layer is lost: it is shown as 0 whatever was registered. Kinds that are not asked for are empty.
\<close>

theorem monitoring_correct:
  "mon_GetMonitoring (foldl mon_ApplySample mon_new ss) entities =
    \<lparr>mod_processes = (if mon_wants entities 0x010 then listed BctRegProcess BctUnregProcess shown_process ss else []),
     mod_publishers = (if mon_wants entities 0x001 then listed BctRegPublisher BctUnregPublisher (shown_topic ''publisher'') ss else []),
     mod_subscribers = (if mon_wants entities 0x002 then listed BctRegSubscriber BctUnregSubscriber (shown_topic ''subscriber'') ss else []),
     mod_servers = (if mon_wants entities 0x004 then listed BctRegService BctUnregService shown_server ss else []),
     mod_clients = (if mon_wants entities 0x008 then listed BctRegClient BctUnregClient shown_client ss else [])\<rparr>"
proof -
  note L = mon_listed_run [of ss, unfolded mon_listed_def]
  have "map snd (mon_process_map (foldl mon_ApplySample mon_new ss)) = listed BctRegProcess BctUnregProcess shown_process ss"
    using L by (auto intro: live_map_listed shown_entries)
  moreover have "map snd (mon_publisher_map (foldl mon_ApplySample mon_new ss)) = listed BctRegPublisher BctUnregPublisher (shown_topic ''publisher'') ss"
    using L shown_entries(1) [of MonPublisher] by (auto intro: live_map_listed)
  moreover have "map snd (mon_subscriber_map (foldl mon_ApplySample mon_new ss)) = listed BctRegSubscriber BctUnregSubscriber (shown_topic ''subscriber'') ss"
    using L shown_entries(1) [of MonSubscriber] by (auto intro: live_map_listed)
  moreover have "map snd (mon_server_map (foldl mon_ApplySample mon_new ss)) = listed BctRegService BctUnregService shown_server ss"
    using L by (auto intro: live_map_listed shown_entries)
  moreover have "map snd (mon_client_map (foldl mon_ApplySample mon_new ss)) = listed BctRegClient BctUnregClient shown_client ss"
    using L by (auto intro: live_map_listed shown_entries)
  ultimately show ?thesis by (simp only: mon_GetMonitoring_def)
qed

text \<open>Both variants of the result are the same.\<close>

lemma mon_MonitorTopics_append:
  "mon_MonitorTopics mp ''publisher'' d = d\<lparr>mod_publishers := mod_publishers d @ map snd mp\<rparr>"
  "mon_MonitorTopics mp ''subscriber'' d = d\<lparr>mod_subscribers := mod_subscribers d @ map snd mp\<rparr>"
  by (induction mp arbitrary: d) (simp_all add: mon_MonitorTopics_def)

lemma mon_struct_same: "mon_GetMonitoring_struct m entities = mon_GetMonitoring m entities"
  by (simp add: mon_GetMonitoring_struct_def mon_GetMonitoring_def mon_MonitorProcs_def mon_MonitorServer_def
      mon_MonitorClients_def mon_MonitorTopics_append mod_new_def Let_def)

subsection \<open>Agreement with the description gate\<close>

lemma pub_spec_live:
  "foldl pub_spec_step Map.empty ss e =
     (let rs = live_regs BctRegPublisher BctUnregPublisher e ss in
      if rs = [] then None else Some (tp_datatype_information (sa_topic (last rs))))"
  by (induction ss rule: rev_induct)
    (auto simp: live_regs_snoc live_step_def pub_spec_step_def Let_def, simp add: live_regs_def)

text \<open>
  C24. The two views an application has of the publishers are the same: after any history of registration
  samples, the description gate knows a publisher with a data type exactly if the monitoring lists
  it with that data type.
\<close>

theorem monitoring_agrees_with_descriptions:
  "dg_GetPublisherInfo (fst (dg_apply_all (dg_new :: 'cb desc_gate) ss)) t =
     map_option mot_datatype_information
       (find (\<lambda>i. mot_topic_id i = ei_entity_id (ti_topic_id t))
         (mod_publishers (mon_GetMonitoring (foldl mon_ApplySample mon_new ss) 0x001)))"
proof -
  let ?g = "fst (dg_apply_all (dg_new :: 'cb desc_gate) ss)" and ?m = "mon_publisher_map (foldl mon_ApplySample mon_new ss)"
    and ?e = "ei_entity_id (ti_topic_id t)"
  have L: "live_map BctRegPublisher BctUnregPublisher (mon_topic_info MonPublisher) mot_registration_clock_update mot_new ss ?m"
    using mon_listed_run [of ss] by (simp add: mon_listed_def)
  have key: "mot_topic_id (mon_topic_info MonPublisher s v) = si_entity_id (sa_identifier s)" for s v
    by (simp add: mon_topic_info_def Let_def)
  have "find (\<lambda>i. mot_topic_id i = ?e) (map snd xs) = om_find id xs ?e"
    if "map mot_topic_id (map snd xs) = om_keys id xs" for xs
    using that by (induction xs) (auto simp: om_keys_def)
  from this [OF live_map_ids [OF L, of mot_topic_id, OF key]]
  have "find (\<lambda>i. mot_topic_id i = ?e) (map snd ?m) = om_find id ?m ?e" .
  moreover have "om_find id ?m ?e = live_entry (mon_topic_info MonPublisher) mot_registration_clock_update mot_new (live_regs BctRegPublisher BctUnregPublisher ?e ss)"
    using L by (simp add: live_map_def)
  moreover have "dg_pub ?g = foldl pub_spec_step (dg_pub (dg_new :: 'cb desc_gate)) ss"
    using dg_pub_refines [OF dg_pub_new(1)] by blast
  then have "dg_GetPublisherInfo ?g t = foldl pub_spec_step Map.empty ss ?e"
    by (simp add: dg_GetPublisherInfo_def cti_GetInfo_def dg_pub_def dg_pub_new(2) fun_eq_iff)
  ultimately show ?thesis
    by (simp add: pub_spec_live live_entry_def mon_topic_info_def mon_GetMonitoring_def mon_wants_def Let_def)
qed

end
