(* ===== verification/Shm_Writer.thy ===== *)
theory Shm_Writer
  imports Shm_Transfer Pub_Sub_Gates
begin

text \<open>
  \<open>ecal/core/src/readwrite/shm\<close>: the shared memory writer of a publisher (\<open>CDataWriterSHM\<close>), which
  writes to one or several memory files in turn, and the reader layer (\<open>CSHMReaderLayer\<close>), which has the
  files of the writers observed. The files of a writer share the memory, the file map and the events of its
  process: these are the record \<open>process\<close>, which an operation on a file sees and changes. The environment
  of a call gives a \<open>sync_env\<close> for the file with each index.
\<close>

subsection \<open>The writer\<close>

record shm_writer_attr =
  swa_acknowledge_timeout_ms :: u32
  swa_memfile_buffer_count :: u32
  swa_memfile_min_size_bytes :: u32
  swa_memfile_reserve_percent :: u32
  swa_host_name :: string
  swa_topic_name :: string

record shm_writer =
  swr_attributes :: shm_writer_attr
  swr_write_idx :: u64
  swr_files :: "sync_file list"
  swr_ids :: "(i32, u64 oset) omap"

type_synonym file_envs = "nat \<Rightarrow> sync_env"

text \<open>A file with the shared parts of its process, and these parts after an operation.\<close>

definition sy_in :: "process \<Rightarrow> sync_file \<Rightarrow> sync_file" where
  "sy_in pr f = f\<lparr>sy_mem := (sy_mem f)\<lparr>ms_world := ps_world pr, ms_map := ps_map pr\<rparr>, sy_ev := ps_ev pr\<rparr>"

definition sy_out :: "sync_file \<Rightarrow> process" where
  "sy_out f = \<lparr>ps_world = ms_world (sy_mem f), ps_map = ms_map (sy_mem f), ps_ev = sy_ev f\<rparr>"

text \<open>The object before its constructor calls \<open>Create\<close>.\<close>

definition sy_empty :: "sync_attr \<Rightarrow> process \<Rightarrow> sync_file" where
  "sy_empty a pr = \<lparr>sy_base = [], sy_name = [], sy_attr = a, sy_created = False, sy_events = [],
     sy_mem = \<lparr>ms_file = mf_new, ms_world = ps_world pr, ms_map = ps_map pr\<rparr>, sy_ev = ps_ev pr\<rparr>"

text \<open>\<open>m_memory_file_vec.clear()\<close>: the destructor of every file.\<close>

definition swr_clear :: "process \<Rightarrow> sync_file list \<Rightarrow> process" where
  "swr_clear pr fs = foldl (\<lambda>pr f. sy_out (snd (sy_Destroy (sy_in pr f)))) pr fs"

text \<open>The loop of \<open>SetBufferCount\<close>: \<open>n\<close> more files; a file that cannot be created ends it without any.\<close>

fun swr_create_files ::
  "file_envs \<Rightarrow> sync_attr \<Rightarrow> u64 \<Rightarrow> nat \<Rightarrow> process \<Rightarrow> sync_file list \<Rightarrow> (bool \<times> process \<times> sync_file list) option" where
  "swr_create_files es a sz 0 pr fs = Some (True, pr, fs)"
| "swr_create_files es a sz (Suc n) pr fs =
     (case sy_Create (es (length fs)) ''ecal_'' sz (sy_empty a pr) of
        None \<Rightarrow> None
      | Some (_, f) \<Rightarrow>
          (let pr = sy_out f in
           if sy_created f then swr_create_files es a sz n pr (fs @ [f])
           else Some (False, swr_clear (sy_out (snd (sy_Destroy (sy_in pr f)))) fs, [])))"

definition swr_file_attr :: "shm_writer_attr \<Rightarrow> sync_attr" where
  "swr_file_attr a = \<lparr>sya_min_size = ucast (swa_memfile_min_size_bytes a), sya_reserve = ucast (swa_memfile_reserve_percent a),
     sya_timeout_open_ms = 200, sya_timeout_ack_ms = ucast (swa_acknowledge_timeout_ms a)\<rparr>"

definition swr_SetBufferCount :: "file_envs \<Rightarrow> u64 \<Rightarrow> process \<Rightarrow> shm_writer \<Rightarrow> (bool \<times> process \<times> shm_writer) option" where
  "swr_SetBufferCount es n pr w =
     (if length (swr_files w) = unat n then Some (True, pr, w)
      else if n < 1 then Some (False, pr, w)
      else (let a = swr_file_attr (swr_attributes w);
                sz = (case swr_files w of f # _ \<Rightarrow> sya_min_size (sy_attr f) | [] \<Rightarrow> sya_min_size a);
                pr = swr_clear pr (swr_files w)
        in map_option (\<lambda>(ok, pr, fs). (ok, pr, w\<lparr>swr_files := fs\<rparr>)) (swr_create_files es a sz (unat n) pr [])))"

text \<open>The constructor; the result of \<open>SetBufferCount\<close> is not looked at.\<close>

definition swr_new :: "file_envs \<Rightarrow> shm_writer_attr \<Rightarrow> process \<Rightarrow> (process \<times> shm_writer) option" where
  "swr_new es a pr =
     (let a = (if swa_memfile_buffer_count a < 1 then a\<lparr>swa_memfile_buffer_count := 1\<rparr> else a)
      in map_option snd (swr_SetBufferCount es (ucast (swa_memfile_buffer_count a)) pr
           \<lparr>swr_attributes = a, swr_write_idx = 0, swr_files = [], swr_ids = []\<rparr>))"

text \<open>An index modulo 0 and an access behind the vector are undefined behaviour.\<close>

definition swr_PrepareWrite :: "file_envs \<Rightarrow> writer_attr \<Rightarrow> process \<Rightarrow> shm_writer \<Rightarrow> (bool \<times> process \<times> shm_writer) option" where
  "swr_PrepareWrite es d pr w =
     (if swr_files w = [] then None
      else (let idx = word_of_nat (unat (swr_write_idx w) mod length (swr_files w)); i = unat idx;
                w = w\<lparr>swr_write_idx := idx\<rparr>
        in map_option (\<lambda>(ret, f). (ret, sy_out f, w\<lparr>swr_files := (swr_files w)[i := f]\<rparr>))
             (sy_CheckSize (es i) (wa_len d) (sy_in pr (swr_files w ! i)))))"

definition swr_Write ::
  "file_envs \<Rightarrow> payload_writer \<Rightarrow> writer_attr \<Rightarrow> process \<Rightarrow> shm_writer \<Rightarrow>
   (bool \<times> process \<times> shm_writer \<times> sync_effect list) option" where
  "swr_Write es pw d pr w =
     (let i = unat (swr_write_idx w); force_full_write = (length (swr_files w) > 1) in
      if \<not> i < length (swr_files w) then None
      else map_option (\<lambda>(sent, f, effs). (sent, sy_out f,
             w\<lparr>swr_files := (swr_files w)[i := f],
               swr_write_idx := word_of_nat (unat (swr_write_idx w + 1) mod length (swr_files w))\<rparr>, effs))
           (sy_Write (es i) pw d force_full_write (sy_in pr (swr_files w ! i))))"

text \<open>An operation on all files.\<close>

fun swr_each :: "(nat \<Rightarrow> sync_file \<Rightarrow> sync_file) \<Rightarrow> nat \<Rightarrow> process \<Rightarrow> sync_file list \<Rightarrow> process \<times> sync_file list" where
  "swr_each g k pr [] = (pr, [])"
| "swr_each g k pr (f # fs) =
     (let f = g k (sy_in pr f); (pr, fs) = swr_each g (k + 1) (sy_out f) fs in (pr, f # fs))"

definition swr_ApplySubscription ::
  "file_envs \<Rightarrow> string \<Rightarrow> i32 \<Rightarrow> u64 \<Rightarrow> process \<Rightarrow> shm_writer \<Rightarrow> process \<times> shm_writer" where
  "swr_ApplySubscription es host pid topic pr w =
     (if host \<noteq> swa_host_name (swr_attributes w) then (pr, w)
      else (let (topics, m) = om_access id (swr_ids w) pid [];
                m = om_set id m pid (os_insert id topics topic);
                (pr, fs) = swr_each (\<lambda>k f. snd (sy_Connect (se_ev_ok (es k)) pid f)) 0 pr (swr_files w)
        in (pr, w\<lparr>swr_ids := m, swr_files := fs\<rparr>)))"

definition swr_RemoveSubscription :: "string \<Rightarrow> i32 \<Rightarrow> u64 \<Rightarrow> process \<Rightarrow> shm_writer \<Rightarrow> process \<times> shm_writer" where
  "swr_RemoveSubscription host pid topic pr w =
     (if host \<noteq> swa_host_name (swr_attributes w) then (pr, w)
      else (let (m, has_subscriptions) =
              (case om_find id (swr_ids w) pid of
                 None \<Rightarrow> (swr_ids w, True)
               | Some topics \<Rightarrow>
                   (let topics = om_erase id topics topic in
                    if topics = [] then (om_erase id (swr_ids w) pid, False)
                    else (om_set id (swr_ids w) pid topics, True)));
                w = w\<lparr>swr_ids := m\<rparr>
        in if has_subscriptions then (pr, w)
           else (let (pr, fs) = swr_each (\<lambda>_ f. snd (sy_Disconnect pid f)) 0 pr (swr_files w)
             in (pr, w\<lparr>swr_files := fs\<rparr>))))"

definition swr_GetConnectionParameter :: "shm_writer \<Rightarrow> connection_par" where
  "swr_GetConnectionParameter w =
     cp_new\<lparr>cp_layer_par_shm := foldl (\<lambda>l f. l\<lparr>lps_memory_file_list := ev_push_back (lps_memory_file_list l) (sy_name f)\<rparr>)
       (cp_layer_par_shm cp_new) (swr_files w)\<rparr>"

subsection \<open>The reader layer\<close>

record shm_reader_layer =
  sl_process_id :: i32
  sl_registration_timeout_ms :: u32

definition sl_Initialize :: "i32 \<Rightarrow> u32 \<Rightarrow> shm_reader_layer" where
  "sl_Initialize pid timeout = \<lparr>sl_process_id = pid, sl_registration_timeout_ms = timeout\<rparr>"

definition sl_memfile_event :: "shm_reader_layer \<Rightarrow> string \<Rightarrow> string" where
  "sl_memfile_event l memfile_name = memfile_name @ ''_'' @ str_int (sint (sl_process_id l))"

text \<open>
  \<open>pool\<close> is absent when the global pool is. The environment of the call for each file: whether events
  and mutexes can be made, the lock, the clock.
\<close>

record observe_env =
  oe_shm :: "u8 list shm_env"
  oe_ev_ok :: bool
  oe_mtx_ok :: bool
  oe_lk :: lock_result
  oe_now :: time_point

fun sl_observe ::
  "(string \<Rightarrow> observe_env) \<Rightarrow> shm_reader_layer \<Rightarrow> string list \<Rightarrow> process \<Rightarrow> observer_pool \<Rightarrow> (process \<times> observer_pool) option" where
  "sl_observe es l [] pr p = Some (pr, p)"
| "sl_observe es l (n # ns) pr p =
     (let e = es n in
      case op_ObserveFile (oe_shm e) (oe_ev_ok e) (oe_mtx_ok e) (oe_lk e) (oe_now e) n (sl_memfile_event l n)
        (sl_registration_timeout_ms l) True pr p of
        None \<Rightarrow> None
      | Some (_, pr, p) \<Rightarrow> sl_observe es l ns pr p)"

definition sl_SetConnectionParameter ::
  "(string \<Rightarrow> observe_env) \<Rightarrow> shm_reader_layer \<Rightarrow> connection_par \<Rightarrow> process \<Rightarrow> observer_pool option \<Rightarrow> (process \<times> observer_pool option) option" where
  "sl_SetConnectionParameter es l par pr pool =
     (case pool of
        None \<Rightarrow> Some (pr, None)
      | Some p \<Rightarrow> map_option (\<lambda>(pr, p). (pr, Some p))
          (sl_observe es l (ev_list (lps_memory_file_list (cp_layer_par_shm par))) pr p))"

text \<open>The data callback; \<open>gate\<close> is absent when the global gate is. The result is the length if the sample was applied.\<close>

definition sl_OnNewShmFileContent ::
  "time_point \<Rightarrow> bool \<Rightarrow> 'cb sub_gate option \<Rightarrow> topic_info \<Rightarrow> u8 list \<Rightarrow> u64 \<Rightarrow> i64 \<Rightarrow> i64 \<Rightarrow> i64 \<Rightarrow>
   u64 \<times> 'cb sub_gate option \<times> 'cb sub_effect list" where
  "sl_OnNewShmFileContent now oo gate ti buf len i clock t =
     (case gate of
        None \<Rightarrow> (0, None, [])
      | Some g \<Rightarrow> (let (applied, g, effs) = sg_ApplySample now oo g ti buf i clock t TlEcalShm
          in (if applied then len else 0, Some g, effs)))"


subsection \<open>Whom the files wait for\<close>

definition sy_waits :: "sync_file \<Rightarrow> i32 \<Rightarrow> bool" where
  "sy_waits f pid \<longleftrightarrow> (\<exists>p. om_find id (sy_events f) pid = Some p \<and> \<not> ep_ack_is_invalid p)"

lemma sy_in_same [simp]: "sy_created (sy_in pr f) = sy_created f" "sy_events (sy_in pr f) = sy_events f"
    "sy_name (sy_in pr f) = sy_name f" "sy_waits (sy_in pr f) q = sy_waits f q"
  by (simp_all add: sy_in_def sy_waits_def)

lemma sy_Connect_waits:
  assumes "sy_created f"
  shows "sy_created (snd (sy_Connect ok pid f))" "sy_name (snd (sy_Connect ok pid f)) = sy_name f"
    "sy_waits (snd (sy_Connect ok pid f)) q \<longleftrightarrow> q = pid \<or> sy_waits f q"
  using assms by (auto simp: sy_Connect_def sy_waits_def Let_def om_find_set split: option.splits prod.splits)

lemma sy_Disconnect_waits:
  assumes "sy_created f"
  shows "sy_created (snd (sy_Disconnect pid f))" "sy_name (snd (sy_Disconnect pid f)) = sy_name f"
    "sy_waits (snd (sy_Disconnect pid f)) q \<longleftrightarrow> q \<noteq> pid \<and> sy_waits f q"
  using assms by (auto simp: sy_Disconnect_def sy_waits_def Let_def om_find_set split: option.splits)

lemma swr_each_files:
  "swr_each g k pr fs = (pr', fs') \<Longrightarrow> f' \<in> set fs' \<Longrightarrow> \<exists>f \<in> set fs. \<exists>j pr. f' = g j (sy_in pr f)"
proof (induction fs arbitrary: k pr pr' fs')
  case (Cons f fs)
  obtain pr1 fs1 where r: "swr_each g (k + 1) (sy_out (g k (sy_in pr f))) fs = (pr1, fs1)"
    by (cases "swr_each g (k + 1) (sy_out (g k (sy_in pr f))) fs")
  then have "f' = g k (sy_in pr f) \<or> f' \<in> set fs1" using Cons.prems by (auto simp: Let_def)
  then show ?case using Cons.IH [OF r] by (metis list.set_intros)
qed simp

text \<open>
  The subscriptions of the writer's host, as a set of pairs of a process and a topic id.
\<close>

datatype swr_op =
    SwrApply file_envs string i32 u64
  | SwrRemove string i32 u64

fun swr_do :: "swr_op \<Rightarrow> process \<times> shm_writer \<Rightarrow> process \<times> shm_writer" where
  "swr_do (SwrApply es host pid topic) (pr, w) = swr_ApplySubscription es host pid topic pr w"
| "swr_do (SwrRemove host pid topic) (pr, w) = swr_RemoveSubscription host pid topic pr w"

fun subscribed :: "string \<Rightarrow> swr_op \<Rightarrow> (i32 \<times> u64) set \<Rightarrow> (i32 \<times> u64) set" where
  "subscribed own (SwrApply es host pid topic) S = (if host = own then insert (pid, topic) S else S)"
| "subscribed own (SwrRemove host pid topic) S = (if host = own then S - {(pid, topic)} else S)"

text \<open>The id map holds exactly the subscriptions, and the files wait for exactly the processes in it.\<close>

definition swr_ids_of :: "(i32 \<times> u64) set \<Rightarrow> (i32, u64 oset) omap \<Rightarrow> bool" where
  "swr_ids_of S m \<longleftrightarrow> om_invar id m \<and> (\<forall>pid. case om_find id m pid of
       None \<Rightarrow> (\<forall>t. (pid, t) \<notin> S)
     | Some ts \<Rightarrow> ts \<noteq> [] \<and> om_invar id ts \<and> (\<forall>t. (pid, t) \<in> S \<longleftrightarrow> om_find id ts t \<noteq> None))"

definition swr_follows :: "(i32 \<times> u64) set \<Rightarrow> shm_writer \<Rightarrow> bool" where
  "swr_follows S w \<longleftrightarrow> swr_ids_of S (swr_ids w) \<and>
     (\<forall>f \<in> set (swr_files w). sy_created f \<and> (\<forall>pid. sy_waits f pid \<longleftrightarrow> (\<exists>t. (pid, t) \<in> S)))"

lemma swr_ids_process:
  assumes "swr_ids_of S m"
  shows "om_find id m pid \<noteq> None \<longleftrightarrow> (\<exists>t. (pid, t) \<in> S)"
proof (cases "om_find id m pid")
  case None
  then show ?thesis using assms by (auto simp: swr_ids_of_def dest!: spec [of _ pid])
next
  case (Some ts)
  then have ts: "ts \<noteq> []" "\<And>t. (pid, t) \<in> S \<longleftrightarrow> om_find id ts t \<noteq> None"
    using assms by (auto simp: swr_ids_of_def dest!: spec [of _ pid])
  obtain t u us where "ts = (t, u) # us" using ts(1) by (cases ts) auto
  then have "om_find id ts t \<noteq> None" by simp
  then show ?thesis using Some ts(2) by auto
qed

lemma om_find_Nil_iff:
  assumes "om_invar id ts"
  shows "ts = [] \<longleftrightarrow> (\<forall>t. om_find id ts t = None)"
proof
  assume *: "\<forall>t. om_find id ts t = None"
  show "ts = []"
  proof (cases ts)
    case (Cons x xs)
    have "om_find id ts (fst x) = None" using * by blast
    then show ?thesis using Cons by (cases x) simp
  qed simp
qed simp

lemma swr_ids_of_set:
  assumes "swr_ids_of S m" "om_invar id m'" "\<And>q. q \<noteq> pid \<Longrightarrow> om_find id m' q = om_find id m q"
    "ts \<noteq> []" "om_invar id ts" "\<And>t. (pid, t) \<in> S' \<longleftrightarrow> om_find id ts t \<noteq> None"
    "\<And>q t. q \<noteq> pid \<Longrightarrow> (q, t) \<in> S' \<longleftrightarrow> (q, t) \<in> S"
  shows "swr_ids_of S' (om_set id m' pid ts)"
  unfolding swr_ids_of_def
proof (intro conjI allI)
  show "om_invar id (om_set id m' pid ts)" by (rule om_invar_set [OF assms(2)])
  fix q
  show "case om_find id (om_set id m' pid ts) q of None \<Rightarrow> \<forall>t. (q, t) \<notin> S'
    | Some ts \<Rightarrow> ts \<noteq> [] \<and> om_invar id ts \<and> (\<forall>t. (q, t) \<in> S' \<longleftrightarrow> om_find id ts t \<noteq> None)"
  proof (cases "q = pid")
    case True
    then show ?thesis using assms(4-6) by (simp add: om_find_set)
  next
    case False
    have "case om_find id m q of None \<Rightarrow> \<forall>t. (q, t) \<notin> S
      | Some ts \<Rightarrow> ts \<noteq> [] \<and> om_invar id ts \<and> (\<forall>t. (q, t) \<in> S \<longleftrightarrow> om_find id ts t \<noteq> None)"
      using assms(1) by (simp add: swr_ids_of_def)
    moreover have "om_find id (om_set id m' pid ts) q = om_find id m q" using False assms(3) by (simp add: om_find_set)
    ultimately show ?thesis using assms(7) [OF False] by (simp split: option.splits)
  qed
qed

lemma swr_ids_of_erase:
  assumes "swr_ids_of S m" "\<And>t. (pid, t) \<notin> S'" "\<And>q t. q \<noteq> pid \<Longrightarrow> (q, t) \<in> S' \<longleftrightarrow> (q, t) \<in> S"
  shows "swr_ids_of S' (om_erase id m pid)"
  unfolding swr_ids_of_def
proof (intro conjI allI)
  have I: "om_invar id m" using assms(1) by (simp add: swr_ids_of_def)
  show "om_invar id (om_erase id m pid)" by (rule om_invar_erase [OF I])
  fix q
  show "case om_find id (om_erase id m pid) q of None \<Rightarrow> \<forall>t. (q, t) \<notin> S'
    | Some ts \<Rightarrow> ts \<noteq> [] \<and> om_invar id ts \<and> (\<forall>t. (q, t) \<in> S' \<longleftrightarrow> om_find id ts t \<noteq> None)"
  proof (cases "q = pid")
    case True
    then show ?thesis using assms(2) by (simp add: om_find_erase [OF I])
  next
    case False
    have "case om_find id m q of None \<Rightarrow> \<forall>t. (q, t) \<notin> S
      | Some ts \<Rightarrow> ts \<noteq> [] \<and> om_invar id ts \<and> (\<forall>t. (q, t) \<in> S \<longleftrightarrow> om_find id ts t \<noteq> None)"
      using assms(1) by (simp add: swr_ids_of_def)
    moreover have "om_find id (om_erase id m pid) q = om_find id m q" using False by (simp add: om_find_erase [OF I])
    ultimately show ?thesis using assms(3) [OF False] by (simp split: option.splits)
  qed
qed

lemma swr_apply_follows:
  assumes "swr_follows S w" "swr_ApplySubscription es host pid topic pr w = (pr', w')"
  shows "swr_follows (subscribed (swa_host_name (swr_attributes w)) (SwrApply es host pid topic) S) w'"
    "swr_attributes w' = swr_attributes w"
proof -
  let ?m = "swr_ids w"
  have ids: "swr_ids_of S ?m" using assms(1) by (simp add: swr_follows_def)
  obtain pr1 fs where e: "swr_each (\<lambda>k f. snd (sy_Connect (se_ev_ok (es k)) pid f)) 0 pr (swr_files w) = (pr1, fs)"
    by (cases "swr_each (\<lambda>k f. snd (sy_Connect (se_ev_ok (es k)) pid f)) 0 pr (swr_files w)")
  obtain ts m where a: "om_access id ?m pid [] = (ts, m)" by (cases "om_access id ?m pid []")
  have am: "om_invar id m" "ts = (case om_find id ?m pid of Some ts \<Rightarrow> ts | None \<Rightarrow> [])"
    "\<And>q. q \<noteq> pid \<Longrightarrow> om_find id m q = om_find id ?m q"
    using a ids by (auto simp: om_access_def om_invar_set om_find_set swr_ids_of_def split: option.splits)
  have ts: "om_invar id ts" "\<And>t. (pid, t) \<in> S \<longleftrightarrow> om_find id ts t \<noteq> None"
    using ids by (auto simp: am(2) swr_ids_of_def om_invar_def split: option.splits dest!: spec [of _ pid])
  have w': "swr_attributes w' = swr_attributes w"
    "host = swa_host_name (swr_attributes w) \<Longrightarrow> w' = w\<lparr>swr_ids := om_set id m pid (os_insert id ts topic), swr_files := fs\<rparr>"
    "host \<noteq> swa_host_name (swr_attributes w) \<Longrightarrow> w' = w"
    using assms(2) e a by (auto simp: swr_ApplySubscription_def Let_def split: if_splits)
  show "swr_attributes w' = swr_attributes w" by (rule w'(1))
  show "swr_follows (subscribed (swa_host_name (swr_attributes w)) (SwrApply es host pid topic) S) w'"
  proof (cases "host = swa_host_name (swr_attributes w)")
    case True
    have ne: "os_insert id ts topic \<noteq> []"
    proof -
      have "om_find id (os_insert id ts topic) topic \<noteq> None" by (simp add: os_insert_def om_find_emplace split: option.splits)
      then show ?thesis by (cases "os_insert id ts topic") simp_all
    qed
    have "swr_ids_of (insert (pid, topic) S) (om_set id m pid (os_insert id ts topic))"
      by (rule swr_ids_of_set [OF ids am(1,3) ne])
        (use ts in \<open>auto simp: os_insert_def om_invar_emplace om_find_emplace split: option.splits\<close>)
    moreover have "sy_created f \<and> (\<forall>q. sy_waits f q \<longleftrightarrow> (\<exists>t. (q, t) \<in> insert (pid, topic) S))" if m: "f \<in> set fs" for f
    proof -
      obtain f0 j pr2 where f: "f0 \<in> set (swr_files w)" "f = snd (sy_Connect (se_ev_ok (es j)) pid (sy_in pr2 f0))"
        using swr_each_files [OF e m] by blast
      then show ?thesis using assms(1) sy_Connect_waits [of "sy_in pr2 f0"] by (auto simp: swr_follows_def)
    qed
    ultimately show ?thesis using True by (simp add: w'(2) swr_follows_def)
  qed (use assms(1) w'(3) in simp)
qed

lemma swr_remove_follows:
  assumes "swr_follows S w" "swr_RemoveSubscription host pid topic pr w = (pr', w')"
  shows "swr_follows (subscribed (swa_host_name (swr_attributes w)) (SwrRemove host pid topic) S) w'"
    "swr_attributes w' = swr_attributes w"
proof -
  let ?m = "swr_ids w" and ?S = "S - {(pid, topic)}"
  have ids: "swr_ids_of S ?m" and I: "om_invar id ?m" using assms(1) by (simp_all add: swr_follows_def swr_ids_of_def)
  obtain pr1 fs where e: "swr_each (\<lambda>_ f. snd (sy_Disconnect pid f)) 0 pr (swr_files w) = (pr1, fs)"
    by (cases "swr_each (\<lambda>_ f. snd (sy_Disconnect pid f)) 0 pr (swr_files w)")
  show a: "swr_attributes w' = swr_attributes w"
    using assms(2) e by (auto simp: swr_RemoveSubscription_def Let_def split: if_splits option.splits)
  show "swr_follows (subscribed (swa_host_name (swr_attributes w)) (SwrRemove host pid topic) S) w'"
  proof (cases "host = swa_host_name (swr_attributes w)")
    case host: True
    show ?thesis
    proof (cases "om_find id ?m pid")
      case None
      then have "?S = S" using swr_ids_process [OF ids, of pid] by auto
      then show ?thesis using assms host None by (simp add: swr_RemoveSubscription_def Let_def)
    next
      case (Some ts)
      then have ts: "om_invar id ts" "\<And>t. (pid, t) \<in> S \<longleftrightarrow> om_find id ts t \<noteq> None"
        using ids by (auto simp: swr_ids_of_def dest!: spec [of _ pid])
      let ?ts = "om_erase id ts topic"
      have et: "(pid, t) \<in> ?S \<longleftrightarrow> om_find id ?ts t \<noteq> None" for t using ts by (auto simp: om_find_erase [OF ts(1)])
      note iv = om_invar_erase [OF ts(1), of topic]
      show ?thesis
      proof (cases "?ts = []")
        case True
        then have w': "w' = w\<lparr>swr_ids := om_erase id ?m pid, swr_files := fs\<rparr>"
          using assms(2) host Some e by (simp add: swr_RemoveSubscription_def Let_def)
        have gone: "(pid, t) \<notin> ?S" for t using et [of t] True by simp
        have "swr_ids_of ?S (om_erase id ?m pid)"
          by (rule swr_ids_of_erase [OF ids]) (use gone in auto)
        moreover have "sy_created f \<and> (\<forall>q. sy_waits f q \<longleftrightarrow> (\<exists>t. (q, t) \<in> ?S))" if m: "f \<in> set fs" for f
        proof -
          obtain f0 pr2 where f: "f0 \<in> set (swr_files w)" "f = snd (sy_Disconnect pid (sy_in pr2 f0))"
            using swr_each_files [OF e m] by blast
          then show ?thesis using assms(1) sy_Disconnect_waits [of "sy_in pr2 f0"] gone by (auto simp: swr_follows_def)
        qed
        ultimately show ?thesis using host by (simp add: w' swr_follows_def)
      next
        case False
        then have w': "w' = w\<lparr>swr_ids := om_set id ?m pid ?ts\<rparr>"
          using assms(2) host Some by (simp add: swr_RemoveSubscription_def Let_def)
        have "swr_ids_of ?S (om_set id ?m pid ?ts)"
          by (rule swr_ids_of_set [OF ids I _ False iv]) (use et in auto)
        moreover have "(\<exists>t. (q, t) \<in> ?S) \<longleftrightarrow> (\<exists>t. (q, t) \<in> S)" for q
        proof (cases "q = pid")
          case True
          obtain t where "om_find id ?ts t \<noteq> None" using False om_find_Nil_iff [OF iv] by auto
          then have "(pid, t) \<in> ?S" using et by simp
          then show ?thesis using True by auto
        qed auto
        ultimately show ?thesis using host assms(1) by (simp add: w' swr_follows_def)
      qed
    qed
  qed (use assms in \<open>simp add: swr_RemoveSubscription_def Let_def\<close>)
qed


subsection \<open>The files follow the subscriptions\<close>

lemma sy_Create_events:
  "sy_Create e base sz f = Some (ok, f') \<Longrightarrow> sy_events f' = sy_events f \<and> (ok \<longrightarrow> sy_created f')"
  by (auto simp: sy_Create_def Let_def split: if_splits option.splits prod.splits bool.splits)

lemma swr_create_files_new:
  "swr_create_files es a sz n pr fs = Some (ok, pr', fs') \<Longrightarrow> \<forall>f \<in> set fs. sy_created f \<and> sy_events f = [] \<Longrightarrow>
    \<forall>f \<in> set fs'. sy_created f \<and> sy_events f = []"
proof (induction n arbitrary: pr fs)
  case (Suc n)
  obtain ok1 f where f: "sy_Create (es (length fs)) ''ecal_'' sz (sy_empty a pr) = Some (ok1, f)"
    using Suc.prems(1) by (cases "sy_Create (es (length fs)) ''ecal_'' sz (sy_empty a pr)") auto
  have ev: "sy_events f = []" using sy_Create_events [OF f] by (simp add: sy_empty_def)
  show ?case
  proof (cases "sy_created f")
    case True
    then have r: "swr_create_files es a sz n (sy_out f) (fs @ [f]) = Some (ok, pr', fs')" using Suc.prems(1) f by simp
    show ?thesis by (rule Suc.IH [OF r]) (use Suc.prems(2) ev True in simp)
  next
    case False
    then have "fs' = []" using Suc.prems(1) f by simp
    then show ?thesis by simp
  qed
qed simp

lemma swr_SetBufferCount_new:
  assumes "swr_SetBufferCount es n pr \<lparr>swr_attributes = a, swr_write_idx = 0, swr_files = [], swr_ids = []\<rparr> = Some (ok, pr', w)"
  shows "swr_ids w = [] \<and> swr_attributes w = a \<and> (\<forall>f \<in> set (swr_files w). sy_created f \<and> sy_events f = [])"
proof -
  let ?w = "\<lparr>swr_attributes = a, swr_write_idx = 0, swr_files = [], swr_ids = []\<rparr>"
  consider "w = ?w" | fs sz pr2 where "swr_create_files es (swr_file_attr a) sz (unat n) pr2 [] = Some (ok, pr', fs)" "w = ?w\<lparr>swr_files := fs\<rparr>"
    using assms by (auto simp: swr_SetBufferCount_def Let_def split: if_splits)
  then show ?thesis by cases (use swr_create_files_new [where fs = "[]"] in auto)
qed

lemma swr_new_follows:
  assumes "swr_new es a pr = Some (pr', w)"
  shows "swr_follows {} w" "swa_host_name (swr_attributes w) = swa_host_name a"
proof -
  let ?a = "if swa_memfile_buffer_count a < 1 then a\<lparr>swa_memfile_buffer_count := 1\<rparr> else a"
  obtain ok where s: "swr_SetBufferCount es (ucast (swa_memfile_buffer_count ?a)) pr
      \<lparr>swr_attributes = ?a, swr_write_idx = 0, swr_files = [], swr_ids = []\<rparr> = Some (ok, pr', w)"
    using assms by (auto simp: swr_new_def Let_def)
  then have w: "swr_ids w = []" "swr_attributes w = ?a" "\<forall>f \<in> set (swr_files w). sy_created f \<and> sy_events f = []"
    using swr_SetBufferCount_new [OF s] by simp_all
  show "swr_follows {} w"
    using w by (simp add: swr_follows_def swr_ids_of_def om_invar_def sy_waits_def)
  show "swa_host_name (swr_attributes w) = swa_host_name a" using w(2) by simp
qed

lemma swr_run_follows:
  "foldl (\<lambda>s op. swr_do op s) (pr, w) ops = (pr', w') \<Longrightarrow> swr_follows S w \<Longrightarrow>
    swr_follows (fold (subscribed (swa_host_name (swr_attributes w))) ops S) w'"
proof (induction ops arbitrary: pr w S)
  case (Cons op ops)
  obtain pr1 w1 where o: "swr_do op (pr, w) = (pr1, w1)" by (cases "swr_do op (pr, w)")
  have "swr_follows (subscribed (swa_host_name (swr_attributes w)) op S) w1 \<and> swr_attributes w1 = swr_attributes w"
    using o Cons.prems(2) swr_apply_follows swr_remove_follows by (cases op) auto
  then show ?case using Cons.prems(1) Cons.IH [of pr1 w1] o by simp
qed simp

text \<open>
  C22. A writer waits, at each of its files, for the acknowledgement of exactly those processes that
  have at least one subscription left: after any history of subscriptions and their ends, from any
  hosts, a process is connected to every file if and only if one of its topic ids is still subscribed.
\<close>

theorem shm_files_follow_subscriptions:
  assumes "swr_new es a pr = Some (pr0, w0)" "foldl (\<lambda>s op. swr_do op s) (pr0, w0) ops = (pr', w')" "f \<in> set (swr_files w')"
  shows "sy_waits f pid \<longleftrightarrow> (\<exists>topic. (pid, topic) \<in> fold (subscribed (swa_host_name a)) ops {})"
  using swr_run_follows [OF assms(2) swr_new_follows(1) [OF assms(1)]] swr_new_follows(2) [OF assms(1)] assms(3)
  by (simp add: swr_follows_def)

subsection \<open>A file that is created anew\<close>

lemma swr_idx_in_range: "fs \<noteq> [] \<Longrightarrow> unat (word_of_nat (unat (x :: u64) mod length fs) :: u64) < length fs"
  using le_less_trans [OF mod_less_eq_dividend mod_less_divisor [of "length fs" "unat x"]]
  by (simp add: unat_of_nat take_bit_eq_mod)

lemma sy_Connect_all:
  "sy_created s \<Longrightarrow> sy_waits (fold (\<lambda>pid s. snd (sy_Connect ok pid s)) pids s) q \<longleftrightarrow> q \<in> set pids \<or> sy_waits s q"
  by (induction pids arbitrary: s) (auto simp: sy_Connect_waits)

lemma sy_Recreate_waits:
  assumes "sy_Recreate e sz f = Some (True, f')" "om_find id (sy_events f) pid \<noteq> None"
  shows "sy_waits f' pid"
proof -
  obtain b f1 where d: "sy_Destroy f = (b, f1)" by (cases "sy_Destroy f")
  obtain f2 where c: "sy_Create e (sy_base f1) sz f1 = Some (True, f2)"
      "f' = fold (\<lambda>pid s. snd (sy_Connect (se_ev_ok e) pid s)) (map fst (sy_events f)) f2"
    using assms(1) d by (auto simp: sy_Recreate_def Let_def split: option.splits bool.splits)
  have "pid \<in> set (map fst (sy_events f))" using om_find_None_iff [of id "sy_events f" pid] assms(2) by (simp add: om_keys_def)
  then show ?thesis using sy_Create_events [OF c(1)] by (simp add: c(2) sy_Connect_all del: set_map)
qed

lemma sy_Connect_known:
  assumes "sy_created f"
  shows "om_find id (sy_events (snd (sy_Connect ok pid f))) pid \<noteq> None"
  using assms by (auto simp: sy_Connect_def Let_def om_find_set split: option.splits prod.splits)

lemma sy_Disconnect_known:
  "om_find id (sy_events f) pid \<noteq> None \<Longrightarrow> om_find id (sy_events (snd (sy_Disconnect q f))) pid \<noteq> None"
  by (auto simp: sy_Disconnect_def Let_def om_find_set split: option.splits)

text \<open>
  C40. A process whose last subscription has ended is waited for by no file, but a payload that does not fit
  undoes this: the file is created anew and connected to every process that was ever connected to it, so
  the writer waits again for the acknowledgement of a process that has no subscription.
\<close>

theorem recreate_waits_for_gone_reader:
  assumes "swr_follows S w" "\<And>t. (pid, t) \<notin> S" "host = swa_host_name (swr_attributes w)"
    "swr_ApplySubscription es host pid topic pr w = (pr1, w1)" "swr_RemoveSubscription host pid topic pr1 w1 = (pr2, w2)"
    "swr_PrepareWrite es' d pr2 w2 = Some (True, pr3, w3)"
  shows "(\<forall>f \<in> set (swr_files w2). \<not> sy_waits f pid) \<and> om_find id (swr_ids w3) pid = None \<and>
    sy_waits (swr_files w3 ! unat (swr_write_idx w3)) pid"
proof -
  note a = swr_apply_follows [OF assms(1,4)]
  note r = swr_remove_follows [OF a(1) assms(5)]
  let ?S = "insert (pid, topic) S - {(pid, topic)}"
  have F: "swr_follows ?S w2" using r(1) a(2) assms(3) by simp
  have n: "(pid, t) \<notin> ?S" for t using assms(2) by auto
  have gone: "\<forall>f \<in> set (swr_files w2). \<not> sy_waits f pid" using F n by (auto simp: swr_follows_def)
  have ids: "om_find id (swr_ids w2) pid = None" using F n swr_ids_process [of ?S "swr_ids w2" pid] by (auto simp: swr_follows_def)
  have k1: "\<forall>f \<in> set (swr_files w1). om_find id (sy_events f) pid \<noteq> None"
  proof
    fix f assume m: "f \<in> set (swr_files w1)"
    obtain pr' fs where e: "swr_each (\<lambda>k f. snd (sy_Connect (se_ev_ok (es k)) pid f)) 0 pr (swr_files w) = (pr', fs)" "swr_files w1 = fs"
      using assms(3,4) by (auto simp: swr_ApplySubscription_def Let_def split: prod.splits)
    obtain f0 j pr'' where f: "f0 \<in> set (swr_files w)" "f = snd (sy_Connect (se_ev_ok (es j)) pid (sy_in pr'' f0))"
      using swr_each_files [OF e(1)] m e(2) by blast
    then show "om_find id (sy_events f) pid \<noteq> None" using assms(1) sy_Connect_known [of "sy_in pr'' f0"] by (auto simp: swr_follows_def)
  qed
  have k2: "\<forall>f \<in> set (swr_files w2). om_find id (sy_events f) pid \<noteq> None"
  proof
    fix f assume m: "f \<in> set (swr_files w2)"
    obtain pr' fs where e: "swr_each (\<lambda>_ f. snd (sy_Disconnect pid f)) 0 pr1 (swr_files w1) = (pr', fs)"
      by (cases "swr_each (\<lambda>_ f. snd (sy_Disconnect pid f)) 0 pr1 (swr_files w1)")
    then consider "f \<in> set (swr_files w1)" | "f \<in> set fs"
      using assms(5) m by (auto simp: swr_RemoveSubscription_def Let_def split: if_splits option.splits)
    then show "om_find id (sy_events f) pid \<noteq> None"
    proof cases
      case 2
      obtain f0 j pr'' where "f0 \<in> set (swr_files w1)" "f = snd (sy_Disconnect pid (sy_in pr'' f0))"
        using swr_each_files [OF e 2] by blast
      then show ?thesis using k1 sy_Disconnect_known [of "sy_in pr'' f0"] by auto
    qed (use k1 in blast)
  qed
  let ?idx = "word_of_nat (unat (swr_write_idx w2) mod length (swr_files w2)) :: u64"
  have ne: "swr_files w2 \<noteq> []" using assms(6) by (auto simp: swr_PrepareWrite_def)
  obtain f where c: "sy_CheckSize (es' (unat ?idx)) (wa_len d) (sy_in pr2 (swr_files w2 ! unat ?idx)) = Some (True, f)"
      "w3 = w2\<lparr>swr_write_idx := ?idx, swr_files := (swr_files w2)[unat ?idx := f]\<rparr>"
    using assms(6) ne by (auto simp: swr_PrepareWrite_def Let_def)
  have i: "unat ?idx < length (swr_files w2)" using ne swr_idx_in_range by blast
  have "om_find id (sy_events (sy_in pr2 (swr_files w2 ! unat ?idx))) pid \<noteq> None" using k2 i by simp
  then have "sy_waits f pid"
    using c(1) sy_Recreate_waits by (auto simp: sy_CheckSize_def split: if_splits)
  then show ?thesis using gone ids i by (simp add: c(2))
qed


subsection \<open>Examples\<close>

text \<open>The operations on events leave the memory alone.\<close>

lemma sy_events_only:
  "sy_mem (snd (sy_Connect ok pid f)) = sy_mem f" "sy_attr (snd (sy_Connect ok pid f)) = sy_attr f"
  "sy_base (snd (sy_Connect ok pid f)) = sy_base f"
  "sy_mem (snd (sy_Disconnect pid f)) = sy_mem f" "sy_attr (snd (sy_Disconnect pid f)) = sy_attr f"
  "sy_base (snd (sy_Disconnect pid f)) = sy_base f"
  "sy_mem (sy_DisconnectAll f) = sy_mem f" "sy_attr (sy_DisconnectAll f) = sy_attr f" "sy_base (sy_DisconnectAll f) = sy_base f"
  "sy_created (sy_DisconnectAll f) = sy_created f"
  by (auto simp: sy_Connect_def sy_Disconnect_def sy_DisconnectAll_def Let_def split: option.splits prod.splits)

definition wit_writer_attr :: shm_writer_attr where
  "wit_writer_attr = \<lparr>swa_acknowledge_timeout_ms = 100, swa_memfile_buffer_count = 0, swa_memfile_min_size_bytes = 4096,
     swa_memfile_reserve_percent = 50, swa_host_name = ''h'', swa_topic_name = ''t''\<rparr>"

definition wit_writer_process :: process where
  "wit_writer_process = sy_out wit_sync_file"

lemma wit_can_create:
  "swa_memfile_min_size_bytes a = 4096 \<Longrightarrow> sy_can_create wit_sync_env ''ecal_'' 4096 (sy_empty (swr_file_attr a) wit_writer_process)"
  by (auto simp: sy_can_create_def mf_fresh_def sy_empty_def wit_writer_process_def sy_out_def wit_sync_file_def
      wit_sync_env_def wit_env_def mf_new_def fm_new_def swr_file_attr_def BuildRandomMemFileName_def)

lemma wit_writer_new:
  obtains pr w f where "swr_new (\<lambda>_. wit_sync_env) wit_writer_attr wit_writer_process = Some (pr, w)" "swr_files w = [f]"
proof -
  let ?a = "wit_writer_attr\<lparr>swa_memfile_buffer_count := 1\<rparr>"
  from sy_Create_ok [OF wit_can_create [of ?a]] obtain f where
    f: "sy_Create wit_sync_env ''ecal_'' 4096 (sy_empty (swr_file_attr ?a) wit_writer_process) = Some (True, f)"
    by (auto simp: wit_writer_attr_def)
  have sz: "sya_min_size (swr_file_attr ?a) = 4096" by (simp add: swr_file_attr_def wit_writer_attr_def)
  have cr: "sy_created f" using sy_Create_events [OF f] by simp
  have n: "swr_new (\<lambda>_. wit_sync_env) wit_writer_attr wit_writer_process =
      Some (sy_out f, \<lparr>swr_attributes = ?a, swr_write_idx = 0, swr_files = [f], swr_ids = []\<rparr>)"
    using f cr sz by (simp add: swr_new_def swr_SetBufferCount_def swr_clear_def wit_writer_attr_def Let_def)
  show ?thesis by (rule that [OF n]) simp
qed

lemma swr_do_length: "swr_do op s = (pr', w') \<Longrightarrow> length (swr_files w') = length (swr_files (snd s))"
proof -
  have e: "swr_each g k pr fs = (a, b) \<Longrightarrow> length b = length fs" for g k pr fs a b
    by (induction fs arbitrary: k pr a b) (auto simp: Let_def split: prod.splits)
  assume "swr_do op s = (pr', w')"
  then show ?thesis
    by (cases op; cases s)
      (auto simp: swr_ApplySubscription_def swr_RemoveSubscription_def Let_def dest!: e split: if_splits option.splits prod.splits)
qed

theorem shm_files_follow_subscriptions_witness:
  "\<exists>pr0 w0 pr' w' f. swr_new (\<lambda>_. wit_sync_env) wit_writer_attr wit_writer_process = Some (pr0, w0) \<and>
     foldl (\<lambda>s op. swr_do op s) (pr0, w0) [SwrApply (\<lambda>_. wit_sync_env) ''h'' 42 7, SwrApply (\<lambda>_. wit_sync_env) ''h'' 43 9,
       SwrRemove ''h'' 42 7, SwrApply (\<lambda>_. wit_sync_env) ''other'' 44 8] = (pr', w') \<and>
     f \<in> set (swr_files w') \<and> sy_waits f 43 \<and> \<not> sy_waits f 42 \<and> \<not> sy_waits f 44"
proof -
  let ?ops = "[SwrApply (\<lambda>_. wit_sync_env) ''h'' 42 7, SwrApply (\<lambda>_. wit_sync_env) ''h'' 43 9,
       SwrRemove ''h'' 42 7, SwrApply (\<lambda>_. wit_sync_env) ''other'' 44 8]"
  obtain pr0 w0 f0 where n: "swr_new (\<lambda>_. wit_sync_env) wit_writer_attr wit_writer_process = Some (pr0, w0)" "swr_files w0 = [f0]"
    by (rule wit_writer_new)
  obtain pr' w' where r: "foldl (\<lambda>s op. swr_do op s) (pr0, w0) ?ops = (pr', w')" by (cases "foldl (\<lambda>s op. swr_do op s) (pr0, w0) ?ops")
  have "length (swr_files (snd (foldl (\<lambda>s op. swr_do op s) s ops))) = length (swr_files (snd s))" for s ops
    using swr_do_length by (induction ops arbitrary: s) (simp_all, metis prod.collapse)
  from this [of "(pr0, w0)" ?ops] have "length (swr_files w') = 1" using r n(2) by simp
  then obtain f where f: "f \<in> set (swr_files w')" by (cases "swr_files w'") auto
  have h: "swa_host_name wit_writer_attr = ''h''" by (simp add: wit_writer_attr_def)
  note T = shm_files_follow_subscriptions [OF n(1) r f]
  have "sy_waits f 43 \<and> \<not> sy_waits f 42 \<and> \<not> sy_waits f 44"
    using T [of 43] T [of 42] T [of 44] h by auto
  then show ?thesis using n(1) r f by blast
qed

text \<open>A writer with one file, which a process subscribes and leaves again before a larger payload comes.\<close>

definition wit_shm_writer :: shm_writer where
  "wit_shm_writer = \<lparr>swr_attributes = wit_writer_attr, swr_write_idx = 0, swr_files = [wit_sync_file\<lparr>sy_created := True\<rparr>], swr_ids = []\<rparr>"

theorem recreate_waits_for_gone_reader_witness:
  "\<exists>pr1 w1 pr2 w2 pr3 w3. swr_ApplySubscription (\<lambda>_. wit_sync_env) ''h'' 42 7 wit_writer_process wit_shm_writer = (pr1, w1) \<and>
     swr_RemoveSubscription ''h'' 42 7 pr1 w1 = (pr2, w2) \<and>
     swr_PrepareWrite (\<lambda>_. wit_sync_env) (wit_attr 8192 1) pr2 w2 = Some (True, pr3, w3) \<and>
     (\<forall>f \<in> set (swr_files w2). \<not> sy_waits f 42) \<and> sy_waits (swr_files w3 ! unat (swr_write_idx w3)) 42"
proof -
  let ?f0 = "wit_sync_file\<lparr>sy_created := True\<rparr>"
  let ?f1 = "snd (sy_Connect True 42 (sy_in wit_writer_process ?f0))"
  let ?f2 = "snd (sy_Disconnect 42 (sy_in (sy_out ?f1) ?f1))"
  let ?f3 = "snd (sy_Destroy (sy_in (sy_out ?f2) ?f2))"
  have h: "swa_host_name (swr_attributes wit_shm_writer) = ''h''" by (simp add: wit_shm_writer_def wit_writer_attr_def)
  obtain pr1 w1 where a: "swr_ApplySubscription (\<lambda>_. wit_sync_env) ''h'' 42 7 wit_writer_process wit_shm_writer = (pr1, w1)"
    "pr1 = sy_out ?f1" "w1 = wit_shm_writer\<lparr>swr_ids := [(42, [(7, ())])], swr_files := [?f1]\<rparr>"
    by (simp add: swr_ApplySubscription_def wit_shm_writer_def wit_writer_attr_def om_access_def os_insert_def om_emplace_def wit_sync_env_def Let_def)
  obtain pr2 w2 where r: "swr_RemoveSubscription ''h'' 42 7 pr1 w1 = (pr2, w2)"
    "pr2 = sy_out ?f2" "w2 = wit_shm_writer\<lparr>swr_ids := [], swr_files := [?f2]\<rparr>"
    using h by (simp add: swr_RemoveSubscription_def a(2,3) Let_def wit_shm_writer_def)
  have m: "sy_mem (sy_in (sy_out ?f2) ?f2) = sy_mem wit_sync_file" "sy_created (sy_in (sy_out ?f2) ?f2)"
    "sy_attr (sy_in (sy_out ?f2) ?f2) = sy_attr wit_sync_file"
    by (simp_all add: sy_in_def sy_out_def sy_events_only wit_writer_process_def sy_Disconnect_waits sy_Connect_waits)
  have d: "sy_mem ?f3 = sy_mem wit_sync_file" "\<not> sy_created ?f3" "sy_attr ?f3 = sy_attr wit_sync_file"
    using m by (simp_all add: sy_Destroy_def sy_events_only Let_def split_beta mf_Destroy_def wit_sync_file_def mf_new_def)
  have "sy_can_create wit_sync_env (sy_base f) 8256 f"
    if "sy_mem f = sy_mem wit_sync_file" "\<not> sy_created f" "sy_attr f = sy_attr wit_sync_file" for f
    using that by (auto simp: sy_can_create_def mf_fresh_def wit_sync_file_def wit_sync_env_def wit_env_def mf_new_def fm_new_def
        BuildRandomMemFileName_def str_nat.simps [of 16 11])
  from this [OF d] have "sy_can_create wit_sync_env (sy_base ?f3) 8256 ?f3" .
  from sy_Create_ok [OF this] obtain f4 where f4: "sy_Create wit_sync_env (sy_base ?f3) 8256 ?f3 = Some (True, f4)" by metis
  have "\<exists>f5. sy_CheckSize wit_sync_env (wa_len (wit_attr 8192 1)) (sy_in (sy_out ?f2) ?f2) = Some (True, f5)"
    using m f4 by (simp add: sy_CheckSize_def sy_Recreate_def Let_def split_beta mf_MaxDataSize_def wit_attr_def)
      (simp add: wit_sync_file_def mf_new_def ih_new_def wit_sync_env_def)
  then obtain f5 where "sy_CheckSize wit_sync_env (wa_len (wit_attr 8192 1)) (sy_in (sy_out ?f2) ?f2) = Some (True, f5)" by blast
  then have p: "swr_PrepareWrite (\<lambda>_. wit_sync_env) (wit_attr 8192 1) pr2 w2 = Some (True, sy_out f5, w2\<lparr>swr_write_idx := 0, swr_files := [f5]\<rparr>)"
    by (simp add: swr_PrepareWrite_def r(2,3) wit_shm_writer_def)
  have F: "swr_follows {} wit_shm_writer"
    by (simp add: swr_follows_def swr_ids_of_def wit_shm_writer_def om_invar_def sy_waits_def wit_sync_file_def)
  show ?thesis
    using recreate_waits_for_gone_reader [OF F _ h [symmetric] a(1) r(1) p] a(1) r(1) p by blast
qed

text \<open>
  When the memory file of a publisher cannot be created the writer exists without any file, since the constructor
  does not look at the result: the next attempt to write takes an index modulo 0.
\<close>

theorem writer_without_files:
  assumes "\<not> se_mtx_ok (es 0)" "swr_new es a pr = Some (pr', w)"
  shows "swr_files w = [] \<and> swr_PrepareWrite es' d pr' w = None"
proof -
  let ?a = "if swa_memfile_buffer_count a < 1 then a\<lparr>swa_memfile_buffer_count := 1\<rparr> else a"
  have c: "\<not> sy_created f" if "sy_Create (es 0) b sz (sy_empty x pr'') = Some (ok, f)" for ok f b sz x pr''
    using that assms(1) by (auto simp: sy_Create_def mf_Create_def Let_def sy_empty_def split: if_splits prod.splits)
  obtain n where n: "unat (ucast (swa_memfile_buffer_count ?a) :: u64) = Suc n"
  proof -
    have "0 < swa_memfile_buffer_count ?a" by (simp add: word_less_1 word_neq_0_conv)
    moreover have "unat (ucast x :: u64) = unat x" for x :: u32
      using unsigned_less [of x, where 'a = nat] by (simp add: unsigned_ucast_eq take_bit_nat_eq_self_iff)
    ultimately have "0 < unat (ucast (swa_memfile_buffer_count ?a) :: u64)" by (simp add: word_less_nat_alt del: if_distrib)
    then show ?thesis using that gr0_conv_Suc by blast
  qed
  have "swr_files w = []"
    using assms(2) n c by (auto simp: swr_new_def swr_SetBufferCount_def Let_def split: if_splits option.splits)
  then show ?thesis by (simp add: swr_PrepareWrite_def)
qed


theorem writer_without_files_witness:
  "\<exists>pr' w. swr_new (\<lambda>_. wit_sync_env\<lparr>se_mtx_ok := False\<rparr>) wit_writer_attr wit_writer_process = Some (pr', w) \<and>
     swr_PrepareWrite (\<lambda>_. wit_sync_env) (wit_attr 10 1) pr' w = None"
proof -
  let ?e = "wit_sync_env\<lparr>se_mtx_ok := False\<rparr>"
  have "\<exists>f. sy_Create ?e b sz (sy_empty x pr) = Some (False, f) \<and> \<not> sy_created f" for b sz x pr
    by (auto simp: sy_Create_def mf_Create_def Let_def sy_empty_def split: prod.splits)
  then have "\<exists>pr' w. swr_new (\<lambda>_. ?e) wit_writer_attr wit_writer_process = Some (pr', w)"
    by (auto simp: swr_new_def swr_SetBufferCount_def wit_writer_attr_def Let_def split: option.splits) (metis option.distinct(1))
  then obtain pr' w where n: "swr_new (\<lambda>_. ?e) wit_writer_attr wit_writer_process = Some (pr', w)" by blast
  have m: "\<not> se_mtx_ok ((\<lambda>_. ?e) 0)" by simp
  show ?thesis using n writer_without_files [OF m n, of "\<lambda>_. wit_sync_env" "wit_attr 10 1"] by blast
qed

end
