(* ===== verification/Service_Protocol.thy ===== *)
theory Service_Protocol
  imports Mem_File_Header
begin

text \<open>
  \<open>ecal/service/ecal_service/src/protocol_layout.h\<close> and \<open>protocol_v1.cpp\<close>: how a message of a service call lies
  in a TCP stream. A message is a header and a payload; the reader learns the size of the header and of
  the payload from the header. The stream is the list of the bytes that arrive before the connection ends;
  \<open>None\<close> is the error callback.
\<close>

subsection \<open>Layout\<close>

datatype message_type = MtUndefined | MtProtocolHandshakeRequest | MtProtocolHandshakeResponse | MtServiceRequest | MtServiceResponse

fun mt_num :: "message_type \<Rightarrow> u8" where
  "mt_num MtUndefined = 0"
| "mt_num MtProtocolHandshakeRequest = 1"
| "mt_num MtProtocolHandshakeResponse = 2"
| "mt_num MtServiceRequest = 3"
| "mt_num MtServiceResponse = 4"

text \<open>\<open>TcpHeaderV1\<close>; the two sizes are in host order here and in network order in the bytes.\<close>

record tcp_header =
  th_package_size :: u32
  th_version :: u8
  th_message_type :: u8
  th_header_size :: u16
  th_reserved :: u64

definition th_bytes :: "tcp_header \<Rightarrow> u8 list" where
  "th_bytes h = rev (le_bytes 4 (th_package_size h)) @ [th_version h, th_message_type h] @
     rev (le_bytes 2 (th_header_size h)) @ le_bytes 8 (th_reserved h)"

text \<open>The members of a header in a buffer.\<close>

definition hb_package_size :: "u8 list \<Rightarrow> u32" where
  "hb_package_size b = le_word (rev (take 4 b))"

definition hb_message_type :: "u8 list \<Rightarrow> u8" where
  "hb_message_type b = b ! 5"

definition hb_header_size :: "u8 list \<Rightarrow> u16" where
  "hb_header_size b = le_word (rev (take 2 (drop 6 b)))"

subsection \<open>Sending\<close>

text \<open>The header every message is sent with; the size of the payload is cut to 32 bits.\<close>

definition pv_header :: "u8 \<Rightarrow> message_type \<Rightarrow> nat \<Rightarrow> tcp_header" where
  "pv_header version t n = \<lparr>th_package_size = word_of_nat n, th_version = version, th_message_type = mt_num t,
     th_header_size = 16, th_reserved = 0\<rparr>"

definition pv_send :: "tcp_header \<Rightarrow> u8 list \<Rightarrow> u8 list" where
  "pv_send header payload = th_bytes header @ payload"

subsection \<open>Receiving\<close>

text \<open>The results are the header buffer, the payload and what is left of the stream.\<close>

definition pv_read_payload :: "u8 list \<Rightarrow> u8 list \<Rightarrow> (u8 list \<times> u8 list \<times> u8 list) option" where
  "pv_read_payload header_buffer s =
     (let payload_size = unat (hb_package_size header_buffer) in
      if length s < payload_size then None else Some (header_buffer, take payload_size s, drop payload_size s))"

definition pv_read_header_rest :: "u8 list \<Rightarrow> nat \<Rightarrow> u8 list \<Rightarrow> (u8 list \<times> u8 list \<times> u8 list) option" where
  "pv_read_header_rest header_buffer bytes_already_read s =
     (let remote_header_size = unat (hb_header_size header_buffer);
          header_buffer = (if remote_header_size > length header_buffer
            then header_buffer @ replicate (remote_header_size - length header_buffer) 0 else header_buffer);
          bytes_still_to_read = length header_buffer - bytes_already_read
      in if bytes_still_to_read \<le> 0 then pv_read_payload header_buffer s
         else if length s < bytes_still_to_read then None
         else (let header_buffer = take bytes_already_read header_buffer @ take bytes_still_to_read s;
                   s = drop bytes_still_to_read s
           in if hb_package_size header_buffer > 0 then pv_read_payload header_buffer s
              else Some (header_buffer, [], s)))"

definition pv_read_header_start :: "u8 list \<Rightarrow> (u8 list \<times> u8 list \<times> u8 list) option" where
  "pv_read_header_start s =
     (let bytes_to_read_now = 8 in
      if length s < bytes_to_read_now then None
      else pv_read_header_rest (take bytes_to_read_now s @ replicate (16 - bytes_to_read_now) 0) bytes_to_read_now (drop bytes_to_read_now s))"

definition pv_receive :: "u8 list \<Rightarrow> (u8 list \<times> u8 list \<times> u8 list) option" where
  "pv_receive s = pv_read_header_start s"

text \<open>All messages of a stream, in order, and the bytes of an incomplete one at the end.\<close>

function pv_receive_all :: "u8 list \<Rightarrow> (u8 list \<times> u8 list) list \<times> u8 list" where
  "pv_receive_all s =
     (case pv_receive s of
        None \<Rightarrow> ([], s)
      | Some (h, p, rest) \<Rightarrow> (if length rest < length s then (let (ms, r) = pv_receive_all rest in ((h, p) # ms, r)) else ([], s)))"
  by pat_completeness auto

termination
  by (relation "measure length") auto

declare pv_receive_all.simps [simp del]

subsection \<open>What is sent is received\<close>

lemma length_th_bytes [simp]: "length (th_bytes h) = 16"
  by (simp add: th_bytes_def)

lemma th_bytes_fields:
  "hb_package_size (th_bytes h @ xs) = th_package_size h" "hb_message_type (th_bytes h @ xs) = th_message_type h"
  "hb_header_size (th_bytes h @ xs) = th_header_size h"
proof -
  have "take 4 (th_bytes h @ xs) = rev (le_bytes 4 (th_package_size h))" by (simp add: th_bytes_def)
  then show "hb_package_size (th_bytes h @ xs) = th_package_size h" by (simp add: hb_package_size_def le_word_bytes)
  have "take 2 (drop 6 (th_bytes h @ xs)) = rev (le_bytes 2 (th_header_size h))" by (simp add: th_bytes_def drop_Cons')
  then show "hb_header_size (th_bytes h @ xs) = th_header_size h" by (simp add: hb_header_size_def le_word_bytes)
  show "hb_message_type (th_bytes h @ xs) = th_message_type h"
    by (simp add: hb_message_type_def th_bytes_def nth_append nth_Cons')
qed

lemma hb_prefix: "8 \<le> length b \<Longrightarrow> hb_package_size (take 8 b @ xs) = hb_package_size b \<and> hb_header_size (take 8 b @ xs) = hb_header_size b"
  by (simp add: hb_package_size_def hb_header_size_def min_def take_drop)

lemma pv_receive_message:
  assumes "th_header_size h = 16" "unat (th_package_size h) \<le> length s"
  shows "pv_receive (th_bytes h @ s) = Some (th_bytes h, take (unat (th_package_size h)) s, drop (unat (th_package_size h)) s)"
proof -
  let ?b = "th_bytes h"
  have t: "take 8 (?b @ s) = take 8 ?b" "drop 8 (?b @ s) = drop 8 ?b @ s" by simp_all
  have z: "hb_header_size (take 8 ?b @ replicate 8 0) = 16"
    using hb_prefix [of ?b "replicate 8 0"] th_bytes_fields(3) [of h "[]"] assms(1) by simp
  have j: "take 8 ?b @ drop 8 ?b = ?b" by simp
  have p: "hb_package_size ?b = th_package_size h" using th_bytes_fields(1) [of h "[]"] by simp
  have r: "pv_receive (?b @ s) = (if hb_package_size ?b > 0 then pv_read_payload ?b s else Some (?b, [], s))"
    unfolding pv_receive_def pv_read_header_start_def Let_def t pv_read_header_rest_def using z j by (simp add: Let_def)
  show ?thesis
  proof (cases "th_package_size h = 0")
    case False
    then show ?thesis using r assms(2) by (simp add: p pv_read_payload_def word_neq_0_conv Let_def)
  qed (simp add: r p)
qed

lemma pv_receive_sent:
  assumes "length p < 2 ^ 32"
  shows "pv_receive (pv_send (pv_header v t (length p)) p @ s) = Some (th_bytes (pv_header v t (length p)), p, s)"
proof -
  have "unat (word_of_nat (length p) :: u32) = length p" using assms by (simp add: unat_of_nat)
  then show ?thesis
    using pv_receive_message [of "pv_header v t (length p)" "p @ s"] by (simp add: pv_send_def pv_header_def)
qed

lemma pv_receive_all_sent:
  "\<forall>(v, t, p) \<in> set ms. length p < 2 ^ 32 \<Longrightarrow> pv_receive s = None \<Longrightarrow>
    pv_receive_all (concat (map (\<lambda>(v, t, p). pv_send (pv_header v t (length p)) p) ms) @ s) =
      (map (\<lambda>(v, t, p). (th_bytes (pv_header v t (length p)), p)) ms, s)"
proof (induction ms)
  case Nil
  then show ?case by (simp add: pv_receive_all.simps [of s])
next
  case (Cons m ms)
  obtain v t p where m: "m = (v, t, p)" by (cases m)
  let ?rest = "concat (map (\<lambda>(v, t, p). pv_send (pv_header v t (length p)) p) ms) @ s"
  have r: "pv_receive (pv_send (pv_header v t (length p)) p @ ?rest) = Some (th_bytes (pv_header v t (length p)), p, ?rest)"
    by (rule pv_receive_sent) (use Cons.prems m in auto)
  have "length ?rest < length (pv_send (pv_header v t (length p)) p @ ?rest)" by (simp add: pv_send_def)
  then show ?case
    using r Cons by (simp add: m pv_receive_all.simps [of "pv_send (pv_header v t (length p)) p @ ?rest"])
qed

text \<open>A payload of 4 GiB or more: the reader takes the rest of it for the next message.\<close>

lemma pv_large_payload:
  assumes "2 ^ 32 \<le> length p"
  shows "pv_receive (pv_send (pv_header v t (length p)) p) =
    Some (th_bytes (pv_header v t (length p)), take (length p mod 2 ^ 32) p, drop (length p mod 2 ^ 32) p) \<and>
    drop (length p mod 2 ^ 32) p \<noteq> []"
proof -
  have u: "unat (word_of_nat (length p) :: u32) = length p mod 2 ^ 32" by (simp add: unat_of_nat)
  have "length p mod 2 ^ 32 < 2 ^ 32" by simp
  then have l: "length p mod 2 ^ 32 < length p" using assms by linarith
  then show ?thesis using pv_receive_message [of "pv_header v t (length p)" p] u by (simp add: pv_send_def pv_header_def)
qed

end
