(* ===== verification/Client_Session.thy ===== *)
theory Client_Session
  imports Service_Protocol "HOL-Library.Multiset"
begin

text \<open>
  \<open>ecal/service/ecal_service/src/client_session_impl_v1.cpp\<close>: \<open>ClientSessionV1\<close>, the client's end of a connection to
  a service. All work is done by handlers that run one at a time (they share a strand) when an asynchronous
  operation they were passed to has ended. An operation in progress is a \<open>client_op\<close>; \<open>cs_handle\<close> is the
  handler of each, as a function from the outcome to the new state and the effects, among them the
  operations it starts. The network, which decides about the outcomes, is outside.
\<close>

subsection \<open>State\<close>

datatype session_state = SsNotConnected | SsHandshake | SsConnected | SsFailed

text \<open>\<open>'cb\<close> stands for the response callbacks.\<close>

record 'cb client_session =
  cs_server_list :: "(string \<times> u16) list"
  cs_chosen_endpoint :: "string \<times> u16"
  cs_accepted_protocol_version :: u8
  cs_state :: session_state
  cs_stopped_by_user :: bool
  cs_queue :: "(u8 list \<times> 'cb) list"
  cs_in_progress :: bool

text \<open>
  Sends carry the bytes that go to the socket. \<open>OpCall\<close> and \<open>OpFailCalls\<close> are posted to the strand by
  \<open>async_call_service\<close> and \<open>call_all_callbacks_with_error\<close>.
\<close>

datatype 'cb client_op =
    OpResolve nat
  | OpConnect nat
  | OpSendHandshake "u8 list"
  | OpReceiveHandshake
  | OpSendRequest "u8 list" 'cb
  | OpReceiveResponse 'cb
  | OpPeek
  | OpCall "u8 list" 'cb
  | OpFailCalls

text \<open>How an operation ends: with an error, or successfully, for a receiving one with a header buffer and a payload.\<close>

datatype op_result = ResError | ResDone | ResMessage "u8 list" "u8 list"

datatype service_answer = AnConnectionClosed | AnProtocolError | AnResponse "u8 list"

datatype 'cb client_effect =
    CsStart "'cb client_op"
  | CsAnswer 'cb service_answer
  | CsConnected
  | CsDisconnected
  | CsCloseSocket

definition MIN_SUPPORTED_PROTOCOL_VERSION :: u8 where "MIN_SUPPORTED_PROTOCOL_VERSION = 1"

definition MAX_SUPPORTED_PROTOCOL_VERSION :: u8 where "MAX_SUPPORTED_PROTOCOL_VERSION = 1"

subsection \<open>Connection loss\<close>

definition cs_handle_connection_loss_error :: "'cb client_session \<Rightarrow> 'cb client_session \<times> 'cb client_effect list" where
  "cs_handle_connection_loss_error s =
     (if cs_state s = SsFailed then (s, [CsCloseSocket])
      else (s\<lparr>cs_state := SsFailed\<rparr>,
            [CsCloseSocket] @ (if cs_queue s \<noteq> [] then [CsStart OpFailCalls] else []) @
            (if cs_state s = SsConnected then [CsDisconnected] else [])))"

text \<open>The function that \<open>call_all_callbacks_with_error\<close> posts: the first call of the queue fails.\<close>

definition cs_fail_calls :: "'cb client_session \<Rightarrow> 'cb client_session \<times> 'cb client_effect list" where
  "cs_fail_calls s =
     (case cs_queue s of
        [] \<Rightarrow> (s, [])
      | (request, cb) # q \<Rightarrow>
          (s\<lparr>cs_queue := q\<rparr>, CsAnswer cb AnConnectionClosed # (if q \<noteq> [] then [CsStart OpFailCalls] else [])))"

subsection \<open>Connecting\<close>

definition cs_resolve_endpoint :: "nat \<Rightarrow> 'cb client_effect list" where
  "cs_resolve_endpoint i = [CsStart (OpResolve i)]"

text \<open>An endpoint that cannot be resolved or connected to: the next one is tried.\<close>

definition cs_next_endpoint :: "nat \<Rightarrow> 'cb client_session \<Rightarrow> 'cb client_session \<times> 'cb client_effect list" where
  "cs_next_endpoint i s =
     (if i + 1 < length (cs_server_list s) then (s, cs_resolve_endpoint (i + 1)) else cs_handle_connection_loss_error s)"

definition cs_handshake_request :: "u8 list" where
  "cs_handshake_request = pv_send (pv_header 1 MtProtocolHandshakeRequest 2)
     [MIN_SUPPORTED_PROTOCOL_VERSION, MAX_SUPPORTED_PROTOCOL_VERSION]"

definition cs_send_protocol_handshake_request :: "'cb client_session \<Rightarrow> 'cb client_session \<times> 'cb client_effect list" where
  "cs_send_protocol_handshake_request s = (s\<lparr>cs_state := SsHandshake\<rparr>, [CsStart (OpSendHandshake cs_handshake_request)])"

definition cs_connected :: "nat \<Rightarrow> 'cb client_session \<Rightarrow> 'cb client_session \<times> 'cb client_effect list" where
  "cs_connected i s = cs_send_protocol_handshake_request (s\<lparr>cs_chosen_endpoint := cs_server_list s ! i\<rparr>)"

subsection \<open>Calls\<close>

definition cs_send_next_service_request :: "u8 list \<Rightarrow> 'cb \<Rightarrow> 'cb client_session \<Rightarrow> 'cb client_effect list" where
  "cs_send_next_service_request request cb s =
     [CsStart (OpSendRequest (pv_send (pv_header (cs_accepted_protocol_version s) MtServiceRequest (length request)) request) cb)]"

text \<open>What is done when the session gets idle: the next call of the queue, or waiting for the connection to be lost.\<close>

definition cs_continue :: "'cb client_session \<Rightarrow> 'cb client_session \<times> 'cb client_effect list" where
  "cs_continue s =
     (case cs_queue s of
        (request, cb) # q \<Rightarrow> (s\<lparr>cs_in_progress := True, cs_queue := q\<rparr>, cs_send_next_service_request request cb s)
      | [] \<Rightarrow> (s\<lparr>cs_in_progress := False\<rparr>, [CsStart OpPeek]))"

definition cs_handshake_response :: "u8 list \<Rightarrow> u8 list \<Rightarrow> 'cb client_session \<Rightarrow> 'cb client_session \<times> 'cb client_effect list" where
  "cs_handshake_response header payload s =
     (if hb_message_type header \<noteq> mt_num MtProtocolHandshakeResponse then cs_handle_connection_loss_error s
      else (let payload = (if length payload < 1 then payload @ replicate (1 - length payload) 0 else payload); v = payload ! 0 in
        if MIN_SUPPORTED_PROTOCOL_VERSION \<le> v \<and> v \<le> MIN_SUPPORTED_PROTOCOL_VERSION
        then (let (s, effs) = cs_continue (s\<lparr>cs_accepted_protocol_version := v, cs_state := SsConnected\<rparr>) in (s, CsConnected # effs))
        else cs_handle_connection_loss_error s))"

definition cs_service_response ::
  "'cb \<Rightarrow> u8 list \<Rightarrow> u8 list \<Rightarrow> 'cb client_session \<Rightarrow> 'cb client_session \<times> 'cb client_effect list" where
  "cs_service_response cb header payload s =
     (if hb_message_type header \<noteq> mt_num MtServiceResponse
      then (let (s, effs) = cs_handle_connection_loss_error s in (s, CsAnswer cb AnProtocolError # effs))
      else (let (s, effs) = cs_continue s in (s, CsAnswer cb (AnResponse payload) # effs)))"

text \<open>The function that \<open>async_call_service\<close> posts.\<close>

definition cs_call :: "u8 list \<Rightarrow> 'cb \<Rightarrow> 'cb client_session \<Rightarrow> 'cb client_session \<times> 'cb client_effect list" where
  "cs_call request cb s =
     (if cs_state s \<noteq> SsFailed
      then (if \<not> cs_in_progress s \<and> cs_state s = SsConnected
            then (s\<lparr>cs_in_progress := True\<rparr>, cs_send_next_service_request request cb s)
            else (s\<lparr>cs_queue := cs_queue s @ [(request, cb)]\<rparr>, []))
      else (s, [CsAnswer cb AnConnectionClosed]))"

subsection \<open>The handlers\<close>

fun cs_handle :: "'cb client_op \<Rightarrow> op_result \<Rightarrow> 'cb client_session \<Rightarrow> 'cb client_session \<times> 'cb client_effect list" where
  "cs_handle (OpResolve i) r s = (if r = ResError then cs_next_endpoint i s else (s, [CsStart (OpConnect i)]))"
| "cs_handle (OpConnect i) r s = (if r = ResError then cs_next_endpoint i s else cs_connected i s)"
| "cs_handle (OpSendHandshake bs) r s =
     (if r = ResError then cs_handle_connection_loss_error s else (s, [CsStart OpReceiveHandshake]))"
| "cs_handle OpReceiveHandshake r s =
     (case r of ResMessage header payload \<Rightarrow> cs_handshake_response header payload s | _ \<Rightarrow> cs_handle_connection_loss_error s)"
| "cs_handle (OpSendRequest bs cb) r s =
     (if r = ResError
      then (let (s, effs) = cs_handle_connection_loss_error s in (s, CsAnswer cb AnConnectionClosed # effs))
      else (s, [CsStart (OpReceiveResponse cb)]))"
| "cs_handle (OpReceiveResponse cb) r s =
     (case r of
        ResMessage header payload \<Rightarrow> cs_service_response cb header payload s
      | _ \<Rightarrow> (let (s, effs) = cs_handle_connection_loss_error s in (s, CsAnswer cb AnConnectionClosed # effs)))"
| "cs_handle OpPeek r s = (if r = ResError then cs_handle_connection_loss_error s else (s, []))"
| "cs_handle (OpCall request cb) r s = cs_call request cb s"
| "cs_handle OpFailCalls r s = cs_fail_calls s"

text \<open>\<open>create\<close> throws for an empty server list; \<open>async_call_service\<close> and \<open>stop\<close> are called by the user.\<close>

definition cs_new :: "(string \<times> u16) list \<Rightarrow> 'cb client_session" where
  "cs_new servers = \<lparr>cs_server_list = servers, cs_chosen_endpoint = ([], 0), cs_accepted_protocol_version = 0,
     cs_state = SsNotConnected, cs_stopped_by_user = False, cs_queue = [], cs_in_progress = False\<rparr>"

definition cs_create :: "(string \<times> u16) list \<Rightarrow> ('cb client_session \<times> 'cb client_effect list) option" where
  "cs_create servers = (if servers = [] then None else Some (cs_new servers, cs_resolve_endpoint 0))"

definition cs_async_call_service :: "u8 list \<Rightarrow> 'cb \<Rightarrow> 'cb client_session \<Rightarrow> bool \<times> 'cb client_effect list" where
  "cs_async_call_service request cb s = (if cs_stopped_by_user s then (False, []) else (True, [CsStart (OpCall request cb)]))"

definition cs_stop :: "'cb client_session \<Rightarrow> 'cb client_session \<times> 'cb client_effect list" where
  "cs_stop s = (s\<lparr>cs_stopped_by_user := True\<rparr>, [CsCloseSocket])"

definition cs_get_queue_size :: "'cb client_session \<Rightarrow> nat" where
  "cs_get_queue_size s = length (cs_queue s)"

subsection \<open>Runs\<close>

text \<open>
  A session with the operations in progress, the callbacks of the calls that were accepted and the effects so far.
  Any operation in progress may end next, in any way its kind allows.
\<close>

type_synonym 'cb client_run = "'cb client_session \<times> 'cb client_op multiset \<times> 'cb list \<times> 'cb client_effect list"

fun cs_started :: "'cb client_effect \<Rightarrow> 'cb client_op list" where
  "cs_started (CsStart op) = [op]"
| "cs_started _ = []"

definition cs_starts :: "'cb client_effect list \<Rightarrow> 'cb client_op multiset" where
  "cs_starts effs = mset (concat (map cs_started effs))"

fun op_result_ok :: "'cb client_op \<Rightarrow> op_result \<Rightarrow> bool" where
  "op_result_ok OpReceiveHandshake r \<longleftrightarrow> r \<noteq> ResDone"
| "op_result_ok (OpReceiveResponse cb) r \<longleftrightarrow> r \<noteq> ResDone"
| "op_result_ok (OpCall request cb) r \<longleftrightarrow> r = ResDone"
| "op_result_ok OpFailCalls r \<longleftrightarrow> r = ResDone"
| "op_result_ok _ r \<longleftrightarrow> r = ResDone \<or> r = ResError"

inductive cs_step :: "'cb client_run \<Rightarrow> 'cb client_run \<Rightarrow> bool" where
  accepted: "cs_async_call_service request cb s = (True, effs) \<Longrightarrow>
    cs_step (s, ops, acc, log) (s, ops + cs_starts effs, acc @ [cb], log @ effs)"
| stopped: "cs_stop s = (s', effs) \<Longrightarrow> cs_step (s, ops, acc, log) (s', ops, acc, log @ effs)"
| handled: "op \<in># ops \<Longrightarrow> op_result_ok op r \<Longrightarrow> cs_handle op r s = (s', effs) \<Longrightarrow>
    cs_step (s, ops, acc, log) (s', ops - {#op#} + cs_starts effs, acc, log @ effs)"

inductive cs_reachable :: "(string \<times> u16) list \<Rightarrow> 'cb client_run \<Rightarrow> bool" for servers where
  created: "cs_create servers = Some (s, effs) \<Longrightarrow> cs_reachable servers (s, cs_starts effs, [], effs)"
| step: "cs_reachable servers x \<Longrightarrow> cs_step x y \<Longrightarrow> cs_reachable servers y"


subsection \<open>Every accepted call is answered once\<close>

fun op_waiting :: "'cb client_op \<Rightarrow> 'cb multiset" where
  "op_waiting (OpSendRequest bs cb) = {#cb#}"
| "op_waiting (OpReceiveResponse cb) = {#cb#}"
| "op_waiting (OpCall request cb) = {#cb#}"
| "op_waiting _ = {#}"

fun op_connecting :: "'cb client_op \<Rightarrow> bool" where
  "op_connecting (OpResolve i) = True"
| "op_connecting (OpConnect i) = True"
| "op_connecting (OpSendHandshake bs) = True"
| "op_connecting OpReceiveHandshake = True"
| "op_connecting _ = False"

fun op_in_flight :: "'cb client_op \<Rightarrow> bool" where
  "op_in_flight (OpSendRequest bs cb) = True"
| "op_in_flight (OpReceiveResponse cb) = True"
| "op_in_flight _ = False"

fun cs_answer :: "'cb client_effect \<Rightarrow> ('cb \<times> service_answer) list" where
  "cs_answer (CsAnswer cb a) = [(cb, a)]"
| "cs_answer _ = []"

definition cs_answers :: "'cb client_effect list \<Rightarrow> ('cb \<times> service_answer) list" where
  "cs_answers log = concat (map cs_answer log)"

definition cs_answered :: "'cb client_effect list \<Rightarrow> 'cb multiset" where
  "cs_answered log = mset (map fst (cs_answers log))"

text \<open>The connection events: True for connected.\<close>

fun cs_event :: "'cb client_effect \<Rightarrow> bool list" where
  "cs_event CsConnected = [True]"
| "cs_event CsDisconnected = [False]"
| "cs_event _ = []"

definition cs_events :: "'cb client_effect list \<Rightarrow> bool list" where
  "cs_events log = concat (map cs_event log)"

lemma cs_log_simps [simp]:
  "cs_starts [] = {#}" "cs_starts (e # es) = mset (cs_started e) + cs_starts es" "cs_starts (es @ fs) = cs_starts es + cs_starts fs"
  "cs_answered [] = {#}" "cs_answered (e # es) = mset (map fst (cs_answer e)) + cs_answered es"
  "cs_answered (es @ fs) = cs_answered es + cs_answered fs"
  "cs_events [] = []" "cs_events (e # es) = cs_event e @ cs_events es" "cs_events (es @ fs) = cs_events es @ cs_events fs"
  by (simp_all add: cs_starts_def cs_answered_def cs_answers_def cs_events_def)

definition ops_connecting :: "'cb client_op multiset \<Rightarrow> nat" where
  "ops_connecting ops = size (filter_mset op_connecting ops)"

definition ops_in_flight :: "'cb client_op multiset \<Rightarrow> nat" where
  "ops_in_flight ops = size (filter_mset op_in_flight ops)"

lemma ops_counts [simp]:
  "ops_connecting {#} = 0" "ops_connecting (add_mset op ops) = (if op_connecting op then 1 else 0) + ops_connecting ops"
  "ops_connecting (ops + ops') = ops_connecting ops + ops_connecting ops'"
  "ops_in_flight {#} = 0" "ops_in_flight (add_mset op ops) = (if op_in_flight op then 1 else 0) + ops_in_flight ops"
  "ops_in_flight (ops + ops') = ops_in_flight ops + ops_in_flight ops'"
  by (simp_all add: ops_connecting_def ops_in_flight_def)

text \<open>What waits for an answer, and which operations are in progress in each state.\<close>

definition cs_accounted :: "'cb client_run \<Rightarrow> bool" where
  "cs_accounted x \<longleftrightarrow> (case x of (s, ops, acc, log) \<Rightarrow>
     mset acc = cs_answered log + mset (map snd (cs_queue s)) + \<Sum>\<^sub># (image_mset op_waiting ops))"

definition cs_phase :: "'cb client_run \<Rightarrow> bool" where
  "cs_phase x \<longleftrightarrow> (case x of (s, ops, acc, log) \<Rightarrow>
     let connecting = ops_connecting ops; in_flight = ops_in_flight ops in
     (case cs_state s of
        SsConnected \<Rightarrow> connecting = 0 \<and> in_flight = (if cs_in_progress s then 1 else 0) \<and>
          (cs_in_progress s \<or> cs_queue s = []) \<and> cs_events log = [True]
      | SsFailed \<Rightarrow> connecting = 0 \<and> in_flight \<le> 1 \<and> (cs_queue s = [] \<or> OpFailCalls \<in># ops) \<and>
          (cs_events log = [] \<or> cs_events log = [True, False])
      | _ \<Rightarrow> connecting = 1 \<and> in_flight = 0 \<and> OpPeek \<notin># ops \<and> \<not> cs_in_progress s \<and> cs_events log = []))"

lemmas cs_defs = cs_handle_connection_loss_error_def cs_fail_calls_def cs_resolve_endpoint_def cs_next_endpoint_def
  cs_send_protocol_handshake_request_def cs_connected_def cs_send_next_service_request_def cs_continue_def
  cs_handshake_response_def cs_service_response_def cs_call_def

lemma cs_handle_accounted:
  assumes "cs_accounted (s, add_mset op ops, acc, log)" "cs_handle op r s = (s', effs)"
  shows "cs_accounted (s', ops + cs_starts effs, acc, log @ effs)"
  using assms
  by (cases op)
    (auto simp: cs_accounted_def cs_defs Let_def split: if_splits op_result.splits list.splits prod.splits)

text \<open>The blocks the handlers are made of.\<close>

lemma cs_loss_phase:
  assumes "ops_connecting ops = 0" "ops_in_flight ops \<le> 1"
    "cs_state s = SsFailed \<Longrightarrow> cs_queue s = [] \<or> OpFailCalls \<in># ops"
    "case cs_state s of SsConnected \<Rightarrow> cs_events log = [True] | SsFailed \<Rightarrow> cs_events log = [] \<or> cs_events log = [True, False]
      | _ \<Rightarrow> cs_events log = []"
    "cs_handle_connection_loss_error s = (s', effs)"
  shows "cs_phase (s', ops + cs_starts effs, acc, log @ CsAnswer cb a # effs)" "cs_phase (s', ops + cs_starts effs, acc, log @ effs)"
  using assms by (cases "cs_state s"; auto simp: cs_phase_def cs_handle_connection_loss_error_def Let_def)+

lemma cs_continue_phase:
  assumes "ops_connecting ops = 0" "ops_in_flight ops = 0"
    "cs_state s = SsConnected \<and> cs_events log = [True] \<or>
     cs_state s = SsFailed \<and> (cs_queue s = [] \<or> OpFailCalls \<in># ops) \<and> (cs_events log = [] \<or> cs_events log = [True, False])"
    "cs_continue s = (s', effs)"
  shows "cs_phase (s', ops + cs_starts effs, acc, log @ effs)" "cs_phase (s', ops + cs_starts effs, acc, log @ CsAnswer cb a # effs)"
  using assms by (auto simp: cs_phase_def cs_continue_def cs_send_next_service_request_def Let_def split: list.splits)


lemma cs_handle_phase:
  assumes P: "cs_phase (s, add_mset op ops, acc, log)" and H: "cs_handle op r s = (s', effs)"
  shows "cs_phase (s', ops + cs_starts effs, acc, log @ effs)"
proof (cases op)
  case (OpResolve i)
  then have c: "ops_connecting ops = 0" "ops_in_flight ops = 0" "OpPeek \<notin># ops" "\<not> cs_in_progress s" "cs_events log = []"
    "cs_state s = SsNotConnected \<or> cs_state s = SsHandshake"
    using P by (auto simp: cs_phase_def Let_def split: session_state.splits)
  show ?thesis
  proof (cases "r = ResError \<and> \<not> i + 1 < length (cs_server_list s)")
    case True
    then show ?thesis using H OpResolve c by (auto intro!: cs_loss_phase(2) simp: cs_next_endpoint_def)
  next
    case False
    then show ?thesis using H OpResolve c by (auto simp: cs_phase_def cs_next_endpoint_def cs_resolve_endpoint_def split: if_splits)
  qed
next
  case (OpConnect i)
  then have c: "ops_connecting ops = 0" "ops_in_flight ops = 0" "OpPeek \<notin># ops" "\<not> cs_in_progress s" "cs_events log = []"
    "cs_state s = SsNotConnected \<or> cs_state s = SsHandshake"
    using P by (auto simp: cs_phase_def Let_def split: session_state.splits)
  show ?thesis
  proof (cases "r = ResError \<and> \<not> i + 1 < length (cs_server_list s)")
    case True
    then show ?thesis using H OpConnect c by (auto intro!: cs_loss_phase(2) simp: cs_next_endpoint_def)
  next
    case False
    then show ?thesis using H OpConnect c
      by (auto simp: cs_phase_def cs_next_endpoint_def cs_resolve_endpoint_def cs_connected_def cs_send_protocol_handshake_request_def split: if_splits)
  qed
next
  case (OpSendHandshake bs)
  then have c: "ops_connecting ops = 0" "ops_in_flight ops = 0" "OpPeek \<notin># ops" "\<not> cs_in_progress s" "cs_events log = []"
    "cs_state s = SsNotConnected \<or> cs_state s = SsHandshake"
    using P by (auto simp: cs_phase_def Let_def split: session_state.splits)
  show ?thesis
  proof (cases "r = ResError")
    case True
    then show ?thesis using H OpSendHandshake c by (auto intro!: cs_loss_phase(2))
  next
    case False
    then show ?thesis using H OpSendHandshake c by (auto simp: cs_phase_def)
  qed
next
  case OpReceiveHandshake
  then have c: "ops_connecting ops = 0" "ops_in_flight ops = 0" "OpPeek \<notin># ops" "\<not> cs_in_progress s" "cs_events log = []"
    "cs_state s = SsNotConnected \<or> cs_state s = SsHandshake"
    using P by (auto simp: cs_phase_def Let_def split: session_state.splits)
  have loss: ?thesis if "cs_handle_connection_loss_error s = (s', effs)" using that c by (auto intro!: cs_loss_phase(2))
  show ?thesis
  proof (cases "cs_handle_connection_loss_error s = (s', effs)")
    case False
    then obtain v effs1 where r: "cs_continue (s\<lparr>cs_accepted_protocol_version := v, cs_state := SsConnected\<rparr>) = (s', effs1)" "effs = CsConnected # effs1"
      using H OpReceiveHandshake by (auto simp: cs_handshake_response_def Let_def split: op_result.splits if_splits prod.splits)
    have "cs_phase (s', ops + cs_starts effs1, acc, (log @ [CsConnected]) @ effs1)"
      by (rule cs_continue_phase(1) [OF c(1,2) _ r(1)]) (use c in simp)
    then show ?thesis by (simp add: r(2))
  qed (rule loss)
next
  case (OpSendRequest bs cb)
  then have c: "ops_connecting ops = 0" "ops_in_flight ops = 0" "cs_state s = SsFailed \<Longrightarrow> cs_queue s = [] \<or> OpFailCalls \<in># ops"
    "case cs_state s of SsConnected \<Rightarrow> cs_events log = [True] | SsFailed \<Rightarrow> cs_events log = [] \<or> cs_events log = [True, False]
      | _ \<Rightarrow> cs_events log = []" "cs_state s = SsConnected \<and> cs_in_progress s \<or> cs_state s = SsFailed"
    using P by (auto simp: cs_phase_def Let_def split: session_state.splits if_splits)
  show ?thesis
  proof (cases "r = ResError")
    case True
    obtain s1 effs1 where l: "cs_handle_connection_loss_error s = (s1, effs1)" by (cases "cs_handle_connection_loss_error s")
    then show ?thesis using H OpSendRequest True c cs_loss_phase(1) [OF c(1) _ c(3,4) l] by auto
  next
    case False
    then show ?thesis using H OpSendRequest c by (auto simp: cs_phase_def split: session_state.splits)
  qed
next
  case (OpReceiveResponse cb)
  then have c: "ops_connecting ops = 0" "ops_in_flight ops = 0" "cs_state s = SsFailed \<Longrightarrow> cs_queue s = [] \<or> OpFailCalls \<in># ops"
    "case cs_state s of SsConnected \<Rightarrow> cs_events log = [True] | SsFailed \<Rightarrow> cs_events log = [] \<or> cs_events log = [True, False]
      | _ \<Rightarrow> cs_events log = []" "cs_state s = SsConnected \<and> cs_in_progress s \<or> cs_state s = SsFailed"
    using P by (auto simp: cs_phase_def Let_def split: session_state.splits if_splits)
  obtain s1 effs1 where l: "cs_handle_connection_loss_error s = (s1, effs1)" by (cases "cs_handle_connection_loss_error s")
  obtain s2 effs2 where k: "cs_continue s = (s2, effs2)" by (cases "cs_continue s")
  have "(\<exists>a. s' = s1 \<and> effs = CsAnswer cb a # effs1) \<or> (\<exists>a. s' = s2 \<and> effs = CsAnswer cb a # effs2)"
    using H OpReceiveResponse l k by (auto simp: cs_service_response_def split: op_result.splits if_splits)
  then show ?thesis
  proof (elim disjE exE)
    fix a assume "s' = s1 \<and> effs = CsAnswer cb a # effs1"
    then show ?thesis using cs_loss_phase(1) [OF c(1) _ c(3,4) l] c(2) by auto
  next
    fix a assume "s' = s2 \<and> effs = CsAnswer cb a # effs2"
    then show ?thesis using cs_continue_phase(2) [OF c(1,2) _ k] c(3,4,5) by auto
  qed
next
  case OpPeek
  then have c: "ops_connecting ops = 0" "ops_in_flight ops \<le> 1" "cs_state s = SsFailed \<Longrightarrow> cs_queue s = [] \<or> OpFailCalls \<in># ops"
    "case cs_state s of SsConnected \<Rightarrow> cs_events log = [True] | SsFailed \<Rightarrow> cs_events log = [] \<or> cs_events log = [True, False]
      | _ \<Rightarrow> cs_events log = []"
    using P by (auto simp: cs_phase_def Let_def split: session_state.splits if_splits)
  show ?thesis
  proof (cases "r = ResError")
    case True
    then show ?thesis using H OpPeek cs_loss_phase(2) [OF c] by simp
  next
    case False
    then show ?thesis using H OpPeek P by (auto simp: cs_phase_def Let_def split: session_state.splits)
  qed
next
  case (OpCall request cb)
  then show ?thesis using H P
    by (cases "cs_state s") (auto simp: cs_phase_def cs_call_def cs_send_next_service_request_def Let_def split: if_splits)
next
  case OpFailCalls
  then show ?thesis using H P
    by (cases "cs_state s"; cases "cs_queue s") (auto simp: cs_phase_def cs_fail_calls_def Let_def split: if_splits)
qed


lemma cs_step_invariants:
  assumes "cs_step x y" "cs_accounted x" "cs_phase x"
  shows "cs_accounted y \<and> cs_phase y"
  using assms
proof cases
  case (accepted request cb s effs ops acc log)
  then show ?thesis using assms(2,3)
    by (auto simp: cs_accounted_def cs_phase_def cs_async_call_service_def Let_def split: if_splits session_state.splits)
next
  case (stopped s s' effs ops acc log)
  then show ?thesis using assms(2,3)
    by (cases "cs_state s") (auto simp: cs_accounted_def cs_phase_def cs_stop_def Let_def)
next
  case (handled op ops r s s' effs acc log)
  then have o: "ops = add_mset op (ops - {#op#})" by simp
  show ?thesis
    using assms(2,3) handled cs_handle_accounted [of s op "ops - {#op#}" acc log r s' effs]
      cs_handle_phase [of s op "ops - {#op#}" acc log r s' effs] o by simp
qed

lemma cs_reachable_invariants: "cs_reachable servers x \<Longrightarrow> cs_accounted x \<and> cs_phase x"
proof (induction rule: cs_reachable.induct)
  case (created s effs)
  then show ?case
    by (auto simp: cs_create_def cs_new_def cs_resolve_endpoint_def cs_accounted_def cs_phase_def split: if_splits)
next
  case (step x y)
  then show ?case using cs_step_invariants by blast
qed

lemma cs_rest:
  assumes "cs_reachable servers (s, ops, acc, log)"
  shows "cs_answered log \<subseteq># mset acc \<and> (ops = {#} \<longrightarrow> cs_answered log = mset acc) \<and> ops_in_flight ops \<le> 1 \<and>
    (cs_events log = [] \<or> cs_events log = [True] \<or> cs_events log = [True, False])"
proof -
  have I: "cs_accounted (s, ops, acc, log)" "cs_phase (s, ops, acc, log)" using cs_reachable_invariants [OF assms] by blast+
  have "cs_queue s = []" if "ops = {#}"
    using I(2) that by (auto simp: cs_phase_def split: session_state.splits if_splits)
  then show ?thesis
    using I by (auto simp: cs_accounted_def cs_phase_def Let_def split: session_state.splits if_splits)
qed

text \<open>
  C13. In every reachable state of a client session, whatever the network does and in whatever order the
  operations end, no accepted call has been answered more often than it was made; when no operation
  is in progress any more, every accepted call has been answered exactly once. At most one request is in
  flight, so that a response can only belong to it. The session tells that it is connected at most
  once, and that it is disconnected at most once and only after that.
\<close>

theorem calls_answered_once:
  assumes "cs_reachable servers (s, ops, acc, log)"
  shows "cs_answered log \<subseteq># mset acc \<and> (ops = {#} \<longrightarrow> cs_answered log = mset acc) \<and> ops_in_flight ops \<le> 1 \<and>
    (cs_events log = [] \<or> cs_events log = [True] \<or> cs_events log = [True, False])"
  by (rule cs_rest [OF assms])

subsection \<open>A closed session comes to rest\<close>

text \<open>What is left to do when every operation fails, which is what closing the socket leads to.\<close>

fun op_work :: "nat \<Rightarrow> 'cb client_op \<Rightarrow> nat" where
  "op_work n (OpResolve i) = 2 * (n - i) + 2"
| "op_work n (OpConnect i) = 2 * (n - i) + 2"
| "op_work n (OpCall request cb) = 4"
| "op_work n OpFailCalls = 1"
| "op_work n _ = 2"

definition cs_work :: "'cb client_session \<Rightarrow> 'cb client_op multiset \<Rightarrow> nat" where
  "cs_work s ops = 3 * length (cs_queue s) + \<Sum>\<^sub># (image_mset (op_work (length (cs_server_list s))) ops)"

fun op_failure :: "'cb client_op \<Rightarrow> op_result" where
  "op_failure (OpCall request cb) = ResDone"
| "op_failure OpFailCalls = ResDone"
| "op_failure _ = ResError"

inductive cs_fail_step :: "'cb client_run \<Rightarrow> 'cb client_run \<Rightarrow> bool" where
  "op \<in># ops \<Longrightarrow> cs_handle op (op_failure op) s = (s', effs) \<Longrightarrow>
    cs_fail_step (s, ops, acc, log) (s', ops - {#op#} + cs_starts effs, acc, log @ effs)"

lemma cs_handle_work:
  assumes "cs_handle op (op_failure op) s = (s', effs)"
  shows "cs_work s' (ops + cs_starts effs) < cs_work s (add_mset op ops)"
  using assms by (cases op) (auto simp: cs_work_def cs_defs Let_def split: if_splits list.splits)

lemma cs_fail_step_work: "cs_fail_step x y \<Longrightarrow> cs_work (fst y) (fst (snd y)) < cs_work (fst x) (fst (snd x))"
proof (induction rule: cs_fail_step.induct)
  case (1 op ops s s' effs acc log)
  then show ?case using cs_handle_work [OF 1(2), of "ops - {#op#}"] by simp
qed

lemma cs_fail_step_step: "cs_fail_step x y \<Longrightarrow> cs_step x y"
proof (induction rule: cs_fail_step.induct)
  case (1 op ops s s' effs acc log)
  then show ?case by (intro cs_step.handled [where r = "op_failure op"]) (cases op; simp)+
qed

text \<open>
  C15. A session whose operations fail, as they do once the socket is closed, comes to rest: from
  any reachable state there is no endless sequence of failing operations, and where such a sequence cannot be continued
  every call that was ever accepted has been answered.
\<close>

theorem closed_session_answers_all:
  "\<not> (\<exists>f :: nat \<Rightarrow> 'cb client_run. \<forall>i. cs_fail_step (f i) (f (Suc i))) \<and>
   (cs_reachable servers x \<and> cs_fail_step\<^sup>*\<^sup>* x (s, ops, acc, log) \<and> (\<nexists>y. cs_fail_step (s, ops, acc, log) y) \<longrightarrow>
     cs_answered log = mset acc)"
proof (intro conjI impI)
  show "\<not> (\<exists>f :: nat \<Rightarrow> 'cb client_run. \<forall>i. cs_fail_step (f i) (f (Suc i)))"
  proof
    assume "\<exists>f :: nat \<Rightarrow> 'cb client_run. \<forall>i. cs_fail_step (f i) (f (Suc i))"
    then obtain f :: "nat \<Rightarrow> 'cb client_run" where "\<forall>i. cs_fail_step (f i) (f (Suc i))" by blast
    then have "\<forall>i. (f (Suc i), f i) \<in> measure (\<lambda>x. cs_work (fst x) (fst (snd x)))" using cs_fail_step_work by (simp, blast)
    then show False using wf_measure unfolding wf_iff_no_infinite_down_chain by blast
  qed
next
  assume *: "cs_reachable servers x \<and> cs_fail_step\<^sup>*\<^sup>* x (s, ops, acc, log) \<and> (\<nexists>y. cs_fail_step (s, ops, acc, log) y)"
  have "cs_fail_step\<^sup>*\<^sup>* x y \<Longrightarrow> cs_reachable servers x \<Longrightarrow> cs_reachable servers y" for y
    by (induction rule: rtranclp_induct) (auto intro: cs_reachable.step cs_fail_step_step)
  then have R: "cs_reachable servers (s, ops, acc, log)" using * by blast
  have "ops = {#}"
  proof (rule ccontr)
    assume "ops \<noteq> {#}"
    then obtain op where "op \<in># ops" by blast
    then have "\<exists>y. cs_fail_step (s, ops, acc, log) y"
      by (metis cs_fail_step.intros surj_pair)
    then show False using * by blast
  qed
  then show "cs_answered log = mset acc" using cs_rest [OF R] by blast
qed


subsection \<open>Example: a call while the only server cannot be resolved\<close>

lemma wit_session_run:
  obtains s log where "cs_reachable [(''h'', 5)] (cs_new [(''h'', 5)], {#OpResolve 0, OpCall [1] cb#}, [cb], [CsStart (OpResolve 0), CsStart (OpCall [1] cb)])"
    "cs_fail_step\<^sup>*\<^sup>* (cs_new [(''h'', 5)], {#OpResolve 0, OpCall [1] cb#}, [cb], [CsStart (OpResolve 0), CsStart (OpCall [1] cb)])
       (s, {#}, [cb], log)"
proof -
  let ?l1 = "[CsStart (OpResolve 0), CsStart (OpCall [1] cb)]" and ?s1 = "cs_new [(''h'', 5)] :: 'a client_session"
  have r0: "cs_reachable [(''h'', 5)] (?s1, {#OpResolve 0#}, [] :: 'a list, [CsStart (OpResolve 0)])"
    using cs_reachable.created [of "[(''h'', 5)]" ?s1 "[CsStart (OpResolve 0)]"] by (simp add: cs_create_def cs_resolve_endpoint_def)
  have "cs_step (?s1, {#OpResolve 0#}, [], [CsStart (OpResolve 0)]) (?s1, {#OpResolve 0, OpCall [1] cb#}, [cb], ?l1)"
    using cs_step.accepted [of "[1]" cb ?s1 "[CsStart (OpCall [1] cb)]" "{#OpResolve 0#}" "[]" "[CsStart (OpResolve 0)]"]
    by (simp add: cs_async_call_service_def cs_new_def add_mset_commute)
  then have r1: "cs_reachable [(''h'', 5)] (?s1, {#OpResolve 0, OpCall [1] cb#}, [cb], ?l1)" by (rule cs_reachable.step [OF r0])
  let ?s2 = "?s1\<lparr>cs_queue := [([1], cb)]\<rparr>"
  have f1: "cs_fail_step (?s1, {#OpResolve 0, OpCall [1] cb#}, [cb], ?l1) (?s2, {#OpResolve 0#}, [cb], ?l1)"
    using cs_fail_step.intros [of "OpCall [1] cb" "{#OpResolve 0, OpCall [1] cb#}" ?s1 ?s2 "[]" "[cb]" ?l1]
    by (simp add: cs_call_def cs_new_def)
  let ?s3 = "?s2\<lparr>cs_state := SsFailed\<rparr>" and ?l3 = "?l1 @ [CsCloseSocket, CsStart OpFailCalls]"
  have f2: "cs_fail_step (?s2, {#OpResolve 0#}, [cb], ?l1) (?s3, {#OpFailCalls#}, [cb], ?l3)"
    using cs_fail_step.intros [of "OpResolve 0" "{#OpResolve 0#}" ?s2 ?s3 "[CsCloseSocket, CsStart OpFailCalls]" "[cb]" ?l1]
    by (simp add: cs_next_endpoint_def cs_handle_connection_loss_error_def cs_new_def)
  have f3: "cs_fail_step (?s3, {#OpFailCalls#}, [cb], ?l3) (?s3\<lparr>cs_queue := []\<rparr>, {#}, [cb], ?l3 @ [CsAnswer cb AnConnectionClosed])"
    using cs_fail_step.intros [of OpFailCalls "{#OpFailCalls#}" ?s3 "?s3\<lparr>cs_queue := []\<rparr>" "[CsAnswer cb AnConnectionClosed]" "[cb]" ?l3]
    by (simp add: cs_fail_calls_def)
  note run = converse_rtranclp_into_rtranclp [OF f1 converse_rtranclp_into_rtranclp [OF f2 r_into_rtranclp [of cs_fail_step, OF f3]]]
  show ?thesis by (rule that [OF r1 run])
qed

lemma wit_session_end: "\<not> cs_fail_step (s, {#}, acc, log) y"
  by (auto elim: cs_fail_step.cases)

theorem calls_answered_once_witness:
  "\<exists>s log. cs_reachable [(''h'', 5)] (s, {#}, [7 :: nat], log) \<and> cs_answered log = {#7#}"
proof -
  obtain s log where r: "cs_reachable [(''h'', 5)] (cs_new [(''h'', 5)], {#OpResolve 0, OpCall [1] (7 :: nat)#}, [7], [CsStart (OpResolve 0), CsStart (OpCall [1] 7)])"
    "cs_fail_step\<^sup>*\<^sup>* (cs_new [(''h'', 5)], {#OpResolve 0, OpCall [1] (7 :: nat)#}, [7], [CsStart (OpResolve 0), CsStart (OpCall [1] 7)]) (s, {#}, [7], log)"
    by (rule wit_session_run)
  have "cs_reachable [(''h'', 5)] (s, {#}, [7], log)"
    using r(2,1) by (induction rule: rtranclp_induct) (auto intro: cs_reachable.step cs_fail_step_step)
  then show ?thesis using calls_answered_once [of "[(''h'', 5)]" s "{#}" "[7]" log] by auto
qed

theorem closed_session_answers_all_witness:
  "\<exists>x s log. cs_fail_step\<^sup>*\<^sup>* x (s, {#}, [7 :: nat], log) \<and> (\<nexists>y. cs_fail_step (s, {#}, [7], log) y) \<and> cs_answered log = {#7#}"
proof -
  obtain s log where r: "cs_reachable [(''h'', 5)] (cs_new [(''h'', 5)], {#OpResolve 0, OpCall [1] (7 :: nat)#}, [7], [CsStart (OpResolve 0), CsStart (OpCall [1] 7)])"
    "cs_fail_step\<^sup>*\<^sup>* (cs_new [(''h'', 5)], {#OpResolve 0, OpCall [1] (7 :: nat)#}, [7], [CsStart (OpResolve 0), CsStart (OpCall [1] 7)]) (s, {#}, [7], log)"
    by (rule wit_session_run)
  have e: "\<nexists>y. cs_fail_step (s, {#}, [7], log) y" using wit_session_end by blast
  then have "cs_answered log = {#7#}"
    using closed_session_answers_all [THEN conjunct2, THEN mp, OF conjI [OF r(1) conjI [OF r(2) e]]] by simp
  then show ?thesis using r(2) e by blast
qed

end
