(* ===== verification/Server_Session.thy ===== *)
theory Server_Session
  imports Client_Session
begin

text \<open>
  \<open>ecal/service/ecal_service/src/server_session_impl_v1.cpp\<close>: \<open>ServerSessionV1\<close>, the server's end of one connection.
  As in the client, an operation in progress is a \<open>server_op\<close> and \<open>ss_handle\<close> gives its handler. The service
  callback is the function \<open>svc\<close> on a state of its own.
\<close>

subsection \<open>State and operations\<close>

record server_session =
  ss_state :: session_state
  ss_accepted_protocol_version :: u8

datatype server_op =
    SopReceiveHandshake
  | SopSendHandshakeResponse "u8 list"
  | SopReceiveRequest
  | SopSendResponse "u8 list"

text \<open>\<open>SvService\<close> is a call of the service callback, with its request and its response.\<close>

datatype server_effect =
    SvStart server_op
  | SvService "u8 list" "u8 list"
  | SvConnected
  | SvDisconnected
  | SvShutdown
  | SvCloseSocket

definition SERVER_MIN_SUPPORTED_PROTOCOL_VERSION :: u8 where "SERVER_MIN_SUPPORTED_PROTOCOL_VERSION = 1"

definition SERVER_MAX_SUPPORTED_PROTOCOL_VERSION :: u8 where "SERVER_MAX_SUPPORTED_PROTOCOL_VERSION = 1"

definition ss_new :: server_session where
  "ss_new = \<lparr>ss_state = SsNotConnected, ss_accepted_protocol_version = 0\<rparr>"

subsection \<open>Starting operations\<close>

definition ss_receive_handshake_request :: "server_session \<Rightarrow> server_session \<times> server_effect list" where
  "ss_receive_handshake_request s = (s\<lparr>ss_state := SsHandshake\<rparr>, [SvStart SopReceiveHandshake])"

definition ss_start :: "server_session \<Rightarrow> server_session \<times> server_effect list" where
  "ss_start s = ss_receive_handshake_request s"

definition ss_stop :: "bool \<Rightarrow> server_session \<Rightarrow> server_session \<times> server_effect list" where
  "ss_stop socket_open s = (s, if socket_open then [SvCloseSocket] else [])"

definition ss_send_handshake_response :: "server_session \<Rightarrow> server_session \<times> server_effect list" where
  "ss_send_handshake_response s =
     (s\<lparr>ss_state := SsHandshake\<rparr>,
      [SvStart (SopSendHandshakeResponse
         (pv_send (pv_header (ss_accepted_protocol_version s) MtProtocolHandshakeResponse 1) [ss_accepted_protocol_version s]))])"

definition ss_receive_service_request :: "server_session \<Rightarrow> server_session \<times> server_effect list" where
  "ss_receive_service_request s = (s, [SvStart SopReceiveRequest])"

definition ss_send_service_response :: "u8 list \<Rightarrow> server_session \<Rightarrow> server_session \<times> server_effect list" where
  "ss_send_service_response response s =
     (s, [SvStart (SopSendResponse (pv_send (pv_header (ss_accepted_protocol_version s) MtServiceResponse (length response)) response))])"

subsection \<open>Handlers\<close>

text \<open>The ends of a session, before and after the client has been reported as connected.\<close>

definition ss_fail :: "server_session \<Rightarrow> server_session \<times> server_effect list" where
  "ss_fail s = (s\<lparr>ss_state := SsFailed\<rparr>, [SvShutdown])"

definition ss_disconnect :: "server_session \<Rightarrow> server_session \<times> server_effect list" where
  "ss_disconnect s = (s\<lparr>ss_state := SsFailed\<rparr>, [SvDisconnected, SvShutdown])"

text \<open>The highest protocol version of both sides, if there is one.\<close>

definition ss_handshake_request :: "u8 list \<Rightarrow> u8 list \<Rightarrow> server_session \<Rightarrow> server_session \<times> server_effect list" where
  "ss_handshake_request header payload s =
     (if hb_message_type header \<noteq> mt_num MtProtocolHandshakeRequest then ss_fail s
      else (let payload = (if length payload < 2 then payload @ replicate (2 - length payload) 0 else payload);
                both_supported_max = min (payload ! 1) SERVER_MAX_SUPPORTED_PROTOCOL_VERSION;
                both_supported_min = max (payload ! 0) SERVER_MIN_SUPPORTED_PROTOCOL_VERSION
       in if both_supported_max \<ge> both_supported_min
          then ss_send_handshake_response (s\<lparr>ss_accepted_protocol_version := both_supported_max\<rparr>)
          else ss_fail s))"

definition ss_service_request ::
  "('s \<Rightarrow> u8 list \<Rightarrow> u8 list \<times> 's) \<Rightarrow> u8 list \<Rightarrow> u8 list \<Rightarrow> server_session \<times> 's \<Rightarrow> (server_session \<times> 's) \<times> server_effect list" where
  "ss_service_request svc header payload x =
     (case x of (s, u) \<Rightarrow>
        if hb_message_type header \<noteq> mt_num MtServiceRequest
        then (let (s, effs) = ss_disconnect s in ((s, u), effs))
        else (let (response, u) = svc u payload; (s, effs) = ss_send_service_response response s
              in ((s, u), SvService payload response # effs)))"

definition ss_handshake_sent :: "server_session \<Rightarrow> server_session \<times> server_effect list" where
  "ss_handshake_sent s = (let (s, effs) = ss_receive_service_request (s\<lparr>ss_state := SsConnected\<rparr>) in (s, SvConnected # effs))"

definition ss_keep :: "'s \<Rightarrow> server_session \<times> server_effect list \<Rightarrow> (server_session \<times> 's) \<times> server_effect list" where
  "ss_keep u r = ((fst r, u), snd r)"

fun ss_handle ::
  "('s \<Rightarrow> u8 list \<Rightarrow> u8 list \<times> 's) \<Rightarrow> server_op \<Rightarrow> op_result \<Rightarrow> server_session \<times> 's \<Rightarrow> (server_session \<times> 's) \<times> server_effect list" where
  "ss_handle svc SopReceiveHandshake r (s, u) =
     ss_keep u (case r of ResMessage header payload \<Rightarrow> ss_handshake_request header payload s | _ \<Rightarrow> ss_fail s)"
| "ss_handle svc (SopSendHandshakeResponse bs) r (s, u) = ss_keep u (if r = ResError then ss_fail s else ss_handshake_sent s)"
| "ss_handle svc SopReceiveRequest r (s, u) =
     (case r of ResMessage header payload \<Rightarrow> ss_service_request svc header payload (s, u) | _ \<Rightarrow> ss_keep u (ss_disconnect s))"
| "ss_handle svc (SopSendResponse bs) r (s, u) =
     ss_keep u (if r = ResError then ss_disconnect s else ss_receive_service_request s)"

lemmas ss_defs = ss_handshake_request_def ss_service_request_def ss_handshake_sent_def ss_fail_def ss_disconnect_def
  ss_send_handshake_response_def ss_send_service_response_def ss_receive_service_request_def ss_keep_def

subsection \<open>Runs\<close>

fun ss_started :: "server_effect \<Rightarrow> server_op list" where
  "ss_started (SvStart op) = [op]"
| "ss_started _ = []"

definition ss_starts :: "server_effect list \<Rightarrow> server_op list" where
  "ss_starts effs = concat (map ss_started effs)"

text \<open>A run: the results of the operations in the order in which they end. There is never more than one in progress.\<close>

fun ss_run :: "('s \<Rightarrow> u8 list \<Rightarrow> u8 list \<times> 's) \<Rightarrow> op_result list \<Rightarrow> (server_session \<times> 's) \<times> server_op list \<Rightarrow>
    ((server_session \<times> 's) \<times> server_op list) \<times> server_effect list" where
  "ss_run svc (r # rs) (x, op # ops) =
     (let (x, effs) = ss_handle svc op r x; (y, effs') = ss_run svc rs (x, ops @ ss_starts effs) in (y, effs @ effs'))"
| "ss_run svc _ y = (y, [])"

definition ss_session :: "('s \<Rightarrow> u8 list \<Rightarrow> u8 list \<times> 's) \<Rightarrow> op_result list \<Rightarrow> 's \<Rightarrow>
    ((server_session \<times> 's) \<times> server_op list) \<times> server_effect list" where
  "ss_session svc rs u =
     (let (s, effs) = ss_start ss_new; (y, effs') = ss_run svc rs ((s, u), ss_starts effs) in (y, effs @ effs'))"

text \<open>What a run did: connection events, requests passed to the service with their responses, responses given to the network.\<close>

fun ss_event :: "server_effect \<Rightarrow> bool list" where
  "ss_event SvConnected = [True]"
| "ss_event SvDisconnected = [False]"
| "ss_event _ = []"

definition ss_events :: "server_effect list \<Rightarrow> bool list" where
  "ss_events effs = concat (map ss_event effs)"

fun ss_call :: "server_effect \<Rightarrow> (u8 list \<times> u8 list) list" where
  "ss_call (SvService request response) = [(request, response)]"
| "ss_call _ = []"

definition ss_calls :: "server_effect list \<Rightarrow> (u8 list \<times> u8 list) list" where
  "ss_calls effs = concat (map ss_call effs)"

fun op_response :: "server_op \<Rightarrow> u8 list list" where
  "op_response (SopSendResponse bs) = [bs]"
| "op_response _ = []"

definition ss_responses :: "server_effect list \<Rightarrow> u8 list list" where
  "ss_responses effs = concat (map op_response (ss_starts effs))"

definition ss_shutdowns :: "server_effect list \<Rightarrow> nat" where
  "ss_shutdowns effs = length (filter (\<lambda>e. e = SvShutdown) effs)"

lemma ss_log_simps [simp]:
  "ss_starts [] = []" "ss_starts (e # es) = ss_started e @ ss_starts es" "ss_starts (es @ fs) = ss_starts es @ ss_starts fs"
  "ss_events [] = []" "ss_events (e # es) = ss_event e @ ss_events es" "ss_events (es @ fs) = ss_events es @ ss_events fs"
  "ss_calls [] = []" "ss_calls (e # es) = ss_call e @ ss_calls es" "ss_calls (es @ fs) = ss_calls es @ ss_calls fs"
  "ss_responses [] = []" "ss_responses (e # es) = concat (map op_response (ss_started e)) @ ss_responses es"
  "ss_responses (es @ fs) = ss_responses es @ ss_responses fs"
  "ss_shutdowns [] = 0" "ss_shutdowns (e # es) = (if e = SvShutdown then 1 else 0) + ss_shutdowns es"
  "ss_shutdowns (es @ fs) = ss_shutdowns es + ss_shutdowns fs"
  by (simp_all add: ss_starts_def ss_events_def ss_calls_def ss_responses_def ss_shutdowns_def)

subsection \<open>Requests are served one after the other\<close>

definition ss_calls_of :: "('s \<Rightarrow> u8 list \<Rightarrow> u8 list \<times> 's) \<Rightarrow> u8 list list \<Rightarrow> 's \<Rightarrow> (u8 list \<times> u8 list) list \<times> 's" where
  "ss_calls_of svc requests u =
     foldl (\<lambda>(cs, u) request. (let (response, u) = svc u request in (cs @ [(request, response)], u))) ([], u) requests"

lemma ss_calls_of_nil [simp]: "ss_calls_of svc [] u = ([], u)"
  by (simp add: ss_calls_of_def)

lemma ss_calls_of_snoc: "ss_calls_of svc (requests @ [request]) u =
    (let (cs, u) = ss_calls_of svc requests u; (response, u) = svc u request in (cs @ [(request, response)], u))"
  by (simp add: ss_calls_of_def split: prod.splits)

text \<open>Which operation is in progress in each state, and what has been done so far.\<close>

fun ss_phase :: "server_session \<Rightarrow> server_op list \<Rightarrow> server_effect list \<Rightarrow> bool" where
  "ss_phase s [] log \<longleftrightarrow> ss_state s = SsFailed \<and> ss_shutdowns log = 1 \<and> ss_events log \<in> {[], [True, False]}"
| "ss_phase s [SopReceiveHandshake] log \<longleftrightarrow> ss_state s = SsHandshake \<and> ss_shutdowns log = 0 \<and> ss_events log = [] \<and> ss_calls log = []"
| "ss_phase s [SopSendHandshakeResponse bs] log \<longleftrightarrow> ss_state s = SsHandshake \<and> ss_shutdowns log = 0 \<and> ss_events log = [] \<and>
     ss_calls log = [] \<and> ss_accepted_protocol_version s = 1"
| "ss_phase s [SopReceiveRequest] log \<longleftrightarrow> ss_state s = SsConnected \<and> ss_shutdowns log = 0 \<and> ss_events log = [True] \<and>
     ss_accepted_protocol_version s = 1"
| "ss_phase s [SopSendResponse bs] log \<longleftrightarrow> ss_state s = SsConnected \<and> ss_shutdowns log = 0 \<and> ss_events log = [True] \<and>
     ss_accepted_protocol_version s = 1"
| "ss_phase s _ log \<longleftrightarrow> False"

definition ss_served :: "('s \<Rightarrow> u8 list \<Rightarrow> u8 list \<times> 's) \<Rightarrow> 's \<Rightarrow> 's \<Rightarrow> server_effect list \<Rightarrow> bool" where
  "ss_served svc u0 u log \<longleftrightarrow> ss_calls_of svc (map fst (ss_calls log)) u0 = (ss_calls log, u) \<and>
     ss_responses log = map (\<lambda>(request, response). pv_send (pv_header 1 MtServiceResponse (length response)) response) (ss_calls log)"

lemma ss_served_no_call [simp]:
  "ss_calls effs = [] \<Longrightarrow> ss_responses effs = [] \<Longrightarrow> ss_served svc u0 u (log @ effs) \<longleftrightarrow> ss_served svc u0 u log"
  by (simp add: ss_served_def)

lemma ss_served_call:
  "ss_served svc u0 u log \<Longrightarrow> svc u request = (response, u') \<Longrightarrow>
    ss_served svc u0 u' (log @ [SvService request response,
      SvStart (SopSendResponse (pv_send (pv_header 1 MtServiceResponse (length response)) response))])"
  by (simp add: ss_served_def ss_calls_of_snoc)

lemma version_one: "(1 :: u8) \<le> min v 1 \<longleftrightarrow> 1 \<le> v" "max w 1 \<le> (min v 1 :: u8) \<Longrightarrow> min v 1 = 1"
proof -
  show "(1 :: u8) \<le> min v 1 \<longleftrightarrow> 1 \<le> v" by simp
  assume "max w 1 \<le> (min v 1 :: u8)"
  then have "1 \<le> min v 1" by simp
  then show "min v 1 = 1" by (simp add: min_def split: if_splits)
qed

lemma ss_handle_invariant:
  assumes "ss_phase s [op] log" "ss_served svc u0 u log" "ss_handle svc op r (s, u) = ((s', u'), effs)"
  shows "ss_phase s' (ss_starts effs) (log @ effs)" "ss_served svc u0 u' (log @ effs)"
proof -
  have "ss_phase s' (ss_starts effs) (log @ effs) \<and> ss_served svc u0 u' (log @ effs)"
  proof (cases op)
    case SopReceiveHandshake
    show ?thesis
      using assms version_one(2)
      by (cases r) (auto simp: SopReceiveHandshake ss_defs SERVER_MIN_SUPPORTED_PROTOCOL_VERSION_def
          SERVER_MAX_SUPPORTED_PROTOCOL_VERSION_def Let_def split: if_splits)
  next
    case (SopSendHandshakeResponse bs)
    then show ?thesis using assms by (auto simp: ss_defs split: if_splits)
  next
    case (SopSendResponse bs)
    then show ?thesis using assms by (auto simp: ss_defs split: if_splits)
  next
    case SopReceiveRequest
    show ?thesis
      using assms
      by (cases r) (auto simp: SopReceiveRequest ss_defs split: if_splits prod.splits intro!: ss_served_call)
  qed
  then show "ss_phase s' (ss_starts effs) (log @ effs)" "ss_served svc u0 u' (log @ effs)" by auto
qed

lemma ss_phase_ops: "ss_phase s ops log \<Longrightarrow> ops = [] \<or> (\<exists>op. ops = [op])"
  by (cases "(s, ops, log)" rule: ss_phase.cases) auto

lemma ss_run_invariant:
  assumes "ss_phase s ops log" "ss_served svc u0 u log" "ss_run svc rs ((s, u), ops) = (((s', u'), ops'), effs)"
  shows "ss_phase s' ops' (log @ effs) \<and> ss_served svc u0 u' (log @ effs)"
  using assms
proof (induction rs arbitrary: s u ops log effs)
  case (Cons r rs)
  consider "ops = []" | op where "ops = [op]" using ss_phase_ops [OF Cons.prems(1)] by blast
  then show ?case
  proof cases
    case 2
    obtain s1 u1 e1 where h: "ss_handle svc op r (s, u) = ((s1, u1), e1)" by (metis prod.exhaust)
    obtain e2 where t: "ss_run svc rs ((s1, u1), ss_starts e1) = (((s', u'), ops'), e2)" "effs = e1 @ e2"
      using Cons.prems(3) by (auto simp: 2 h split: prod.splits)
    note I = ss_handle_invariant [OF Cons.prems(1) [unfolded 2] Cons.prems(2) h]
    show ?thesis using Cons.IH [OF I t(1)] t(2) by simp
  qed (use Cons.prems in auto)
qed simp

lemma ss_session_invariant:
  assumes "ss_session svc rs u0 = (((s, u), ops), log)"
  shows "ss_phase s ops log \<and> ss_served svc u0 u log"
proof -
  obtain effs where "ss_run svc rs ((ss_new\<lparr>ss_state := SsHandshake\<rparr>, u0), [SopReceiveHandshake]) = (((s, u), ops), effs)"
      "log = [SvStart SopReceiveHandshake] @ effs"
    using assms by (auto simp: ss_session_def ss_start_def ss_receive_handshake_request_def split: prod.splits)
  moreover have "ss_served svc u0 u0 [SvStart SopReceiveHandshake]" by (simp add: ss_served_def)
  ultimately show ?thesis
    using ss_run_invariant [of "ss_new\<lparr>ss_state := SsHandshake\<rparr>" "[SopReceiveHandshake]" "[SvStart SopReceiveHandshake]"] by simp
qed

lemma ss_session_serves:
  assumes "ss_session svc rs u0 = (((s, u), ops), log)"
  shows "ss_calls_of svc (map fst (ss_calls log)) u0 = (ss_calls log, u) \<and>
    ss_responses log = map (\<lambda>(request, response). pv_send (pv_header 1 MtServiceResponse (length response)) response) (ss_calls log) \<and>
    (ops = [] \<and> ss_shutdowns log = 1 \<and> ss_state s = SsFailed \<or> (\<exists>op. ops = [op]) \<and> ss_shutdowns log = 0 \<and> ss_state s \<noteq> SsFailed) \<and>
    (ss_events log = [] \<or> ss_events log = [True] \<or> ss_events log = [True, False])"
proof -
  note I = ss_session_invariant [OF assms]
  then have "ops = [] \<or> (\<exists>op. ops = [op])" using ss_phase_ops by blast
  then show ?thesis
  proof
    assume "ops = []"
    then show ?thesis using I by (auto simp: ss_served_def)
  next
    assume "\<exists>op. ops = [op]"
    then obtain op where "ops = [op]" by blast
    then show ?thesis using I by (cases op) (auto simp: ss_served_def)
  qed
qed

subsection \<open>Every request that arrives is served\<close>

text \<open>
  What the client sent, read off the results of the operations alone. A session that waits for requests gets one, sends the
  response (whose result comes next), and goes on until something else comes. Before that come a
  handshake with a range of versions that has version 1 in it, and the result of sending the answer.
\<close>

fun arrived_requests :: "op_result list \<Rightarrow> u8 list list" where
  "arrived_requests (ResMessage header payload # rs) =
     (if hb_message_type header = mt_num MtServiceRequest
      then payload # (case rs of [] \<Rightarrow> [] | sent # rs \<Rightarrow> if sent = ResError then [] else arrived_requests rs)
      else [])"
| "arrived_requests _ = []"

fun offers_version_1 :: "op_result \<Rightarrow> bool" where
  "offers_version_1 (ResMessage header (v # w # vs)) \<longleftrightarrow>
     hb_message_type header = mt_num MtProtocolHandshakeRequest \<and> v \<le> 1 \<and> 1 \<le> w"
| "offers_version_1 _ \<longleftrightarrow> False"

fun session_requests :: "op_result list \<Rightarrow> u8 list list" where
  "session_requests (handshake # sent # rs) =
     (if offers_version_1 handshake \<and> sent \<noteq> ResError then arrived_requests rs else [])"
| "session_requests _ = []"

lemma ss_run_failed [simp]: "ss_run svc rs (x, []) = ((x, []), [])"
  by (cases rs) simp_all

lemma ss_run_requests:
  "ss_run svc rs ((s, u), [SopReceiveRequest]) = (y, effs) \<Longrightarrow> map fst (ss_calls effs) = arrived_requests rs"
proof (induction rs arbitrary: s u effs rule: arrived_requests.induct)
  case (1 header payload rs)
  show ?case
  proof (cases "hb_message_type header = mt_num MtServiceRequest")
    case True
    obtain response u' where v: "svc u payload = (response, u')" by fastforce
    show ?thesis
    proof (cases rs)
      case Nil
      then show ?thesis using 1(2) True v by (auto simp: ss_defs split: prod.splits)
    next
      case (Cons sent rs')
      then show ?thesis using 1(2) True v 1(1) [OF True Cons]
        by (auto simp: ss_defs split: prod.splits if_splits)
    qed
  next
    case False
    then show ?thesis using 1(2) by (auto simp: ss_defs)
  qed
qed (auto simp: ss_defs)

lemma offers_version_1_iff:
  "offers_version_1 r \<longleftrightarrow> (\<exists>header payload. r = ResMessage header payload \<and> hb_message_type header = mt_num MtProtocolHandshakeRequest \<and>
     (let p = (if length payload < 2 then payload @ replicate (2 - length payload) 0 else payload)
      in max (p ! 0) 1 \<le> min (p ! 1) (1 :: u8)))"
  by (cases r rule: offers_version_1.cases) (auto simp: Let_def)

lemma ss_session_requests:
  assumes "ss_session svc rs u0 = (y, log)"
  shows "map fst (ss_calls log) = session_requests rs"
proof -
  obtain effs where r: "ss_run svc rs ((ss_new\<lparr>ss_state := SsHandshake\<rparr>, u0), [SopReceiveHandshake]) = (y, effs)"
      "log = [SvStart SopReceiveHandshake] @ effs"
    using assms by (auto simp: ss_session_def ss_start_def ss_receive_handshake_request_def split: prod.splits)
  have f: "map fst (ss_calls effs) = session_requests rs"
  proof (cases rs rule: session_requests.cases)
    case (1 handshake sent rs')
    show ?thesis
    proof (cases "offers_version_1 handshake")
      case True
      then show ?thesis using r(1) 1
        by (auto dest!: ss_run_requests simp: offers_version_1_iff ss_defs Let_def SERVER_MIN_SUPPORTED_PROTOCOL_VERSION_def SERVER_MAX_SUPPORTED_PROTOCOL_VERSION_def
            split: prod.splits if_splits)
    next
      case False
      then show ?thesis using r(1) 1
        by (cases handshake) (auto simp: offers_version_1_iff ss_defs Let_def SERVER_MIN_SUPPORTED_PROTOCOL_VERSION_def SERVER_MAX_SUPPORTED_PROTOCOL_VERSION_def
            split: prod.splits if_splits)
    qed
  qed (use r(1) in \<open>auto simp: ss_defs Let_def split: prod.splits op_result.splits if_splits\<close>)
  then show ?thesis by (simp add: r(2))
qed

text \<open>
  C14. Whatever a client sends, and whenever the network fails: after a handshake that offers version 1 the service callback
  gets every request that arrives while the session lives, each once, one at a time and in the order in which they arrive, and nothing else; for each
  the response it returned is sent, once, as a message of protocol version 1. As long as the session lives it waits for
  exactly one thing, and when it ends it asks for its removal exactly once. It reports the client as connected at
  most once and as disconnected at most once and only after that.
\<close>

theorem session_serves_in_order:
  assumes "ss_session svc rs u0 = (((s, u), ops), log)"
  shows "ss_calls_of svc (session_requests rs) u0 = (ss_calls log, u) \<and> map fst (ss_calls log) = session_requests rs \<and>
    ss_responses log = map (\<lambda>(request, response). pv_send (pv_header 1 MtServiceResponse (length response)) response) (ss_calls log) \<and>
    (ops = [] \<and> ss_shutdowns log = 1 \<and> ss_state s = SsFailed \<or> (\<exists>op. ops = [op]) \<and> ss_shutdowns log = 0 \<and> ss_state s \<noteq> SsFailed) \<and>
    (ss_events log = [] \<or> ss_events log = [True] \<or> ss_events log = [True, False])"
  using ss_session_serves [OF assms] ss_session_requests [OF assms] by simp

text \<open>Example: an echo service, one request, then the client disconnects.\<close>

definition wit_echo :: "nat \<Rightarrow> u8 list \<Rightarrow> u8 list \<times> nat" where
  "wit_echo n request = (request, n + 1)"

definition wit_session_results :: "op_result list" where
  "wit_session_results =
     [ResMessage (th_bytes (pv_header 1 MtProtocolHandshakeRequest 2)) [1, 1], ResDone,
      ResMessage (th_bytes (pv_header 1 MtServiceRequest 1)) [42], ResDone, ResError]"

lemma wit_session_log:
  "ss_session wit_echo wit_session_results 0 =
     (((\<lparr>ss_state = SsFailed, ss_accepted_protocol_version = 1\<rparr>, 1), []),
      [SvStart SopReceiveHandshake,
       SvStart (SopSendHandshakeResponse (pv_send (pv_header 1 MtProtocolHandshakeResponse 1) [1])),
       SvConnected, SvStart SopReceiveRequest,
       SvService [42] [42], SvStart (SopSendResponse (pv_send (pv_header 1 MtServiceResponse 1) [42])),
       SvStart SopReceiveRequest, SvDisconnected, SvShutdown])"
  using th_bytes_fields(2) [of "pv_header 1 MtProtocolHandshakeRequest 2" "[]"] th_bytes_fields(2) [of "pv_header 1 MtServiceRequest 1" "[]"]
  by (simp add: ss_session_def wit_session_results_def ss_start_def ss_receive_handshake_request_def ss_new_def ss_defs
      pv_header_def wit_echo_def SERVER_MIN_SUPPORTED_PROTOCOL_VERSION_def SERVER_MAX_SUPPORTED_PROTOCOL_VERSION_def)

theorem session_serves_in_order_witness:
  "\<exists>x ops log. ss_session wit_echo wit_session_results 0 = ((x, ops), log) \<and> ss_calls log = [([42], [42])] \<and>
    ss_responses log = [pv_send (pv_header 1 MtServiceResponse 1) [42]]"
  using session_serves_in_order [OF wit_session_log] wit_session_log by simp

end
