(* ===== verification/Service_Link.thy ===== *)
theory Service_Link
  imports Server_Session
begin

text \<open>
  A client session and the server session at the other end of its connection, over a connection that is
  not lost: two streams of bytes, one in each direction. The server session is the one the server creates when it accepts
  the connection; it has been started.
\<close>

subsection \<open>Both sessions\<close>

record ('cb, 's) service_link =
  lk_client :: "'cb client_session"
  lk_ops :: "'cb client_op multiset"
  lk_log :: "'cb client_effect list"
  lk_server :: "server_session \<times> 's"
  lk_server_ops :: "server_op list"
  lk_server_log :: "server_effect list"
  lk_up :: "u8 list"
  lk_down :: "u8 list"
  lk_accepted :: "(u8 list \<times> 'cb) list"

text \<open>
  How an operation ends on a connection that is not lost, if it can: the result and the two streams afterwards. Receiving
  waits for a whole message, peeking for the first byte.
\<close>

fun client_io :: "'cb client_op \<Rightarrow> u8 list \<Rightarrow> u8 list \<Rightarrow> (op_result \<times> u8 list \<times> u8 list) option" where
  "client_io (OpSendHandshake bs) up down = Some (ResDone, up @ bs, down)"
| "client_io (OpSendRequest bs cb) up down = Some (ResDone, up @ bs, down)"
| "client_io OpReceiveHandshake up down = (case pv_receive down of None \<Rightarrow> None | Some (h, p, rest) \<Rightarrow> Some (ResMessage h p, up, rest))"
| "client_io (OpReceiveResponse cb) up down = (case pv_receive down of None \<Rightarrow> None | Some (h, p, rest) \<Rightarrow> Some (ResMessage h p, up, rest))"
| "client_io OpPeek up down = (if down = [] then None else Some (ResDone, up, down))"
| "client_io _ up down = Some (ResDone, up, down)"

fun server_io :: "server_op \<Rightarrow> u8 list \<Rightarrow> u8 list \<Rightarrow> (op_result \<times> u8 list \<times> u8 list) option" where
  "server_io (SopSendHandshakeResponse bs) up down = Some (ResDone, up, down @ bs)"
| "server_io (SopSendResponse bs) up down = Some (ResDone, up, down @ bs)"
| "server_io SopReceiveHandshake up down = (case pv_receive up of None \<Rightarrow> None | Some (h, p, rest) \<Rightarrow> Some (ResMessage h p, rest, down))"
| "server_io SopReceiveRequest up down = (case pv_receive up of None \<Rightarrow> None | Some (h, p, rest) \<Rightarrow> Some (ResMessage h p, rest, down))"

definition lk_new :: "(string \<times> u16) list \<Rightarrow> 's \<Rightarrow> ('cb, 's) service_link" where
  "lk_new servers u =
     (let (s, effs) = ss_start ss_new in
      \<lparr>lk_client = cs_new servers, lk_ops = {#OpResolve 0#}, lk_log = [CsStart (OpResolve 0)],
       lk_server = (s, u), lk_server_ops = ss_starts effs, lk_server_log = effs, lk_up = [], lk_down = [], lk_accepted = []\<rparr>)"

text \<open>The user calls the service; one of the operations in progress ends.\<close>

inductive lk_calls :: "('cb, 's) service_link \<Rightarrow> ('cb, 's) service_link \<Rightarrow> bool" where
  "cs_async_call_service request cb (lk_client x) = (True, effs) \<Longrightarrow>
    lk_calls x (x\<lparr>lk_ops := lk_ops x + cs_starts effs, lk_log := lk_log x @ effs, lk_accepted := lk_accepted x @ [(request, cb)]\<rparr>)"

inductive lk_moves :: "('s \<Rightarrow> u8 list \<Rightarrow> u8 list \<times> 's) \<Rightarrow> ('cb, 's) service_link \<Rightarrow> ('cb, 's) service_link \<Rightarrow> bool" for svc where
  client: "op \<in># lk_ops x \<Longrightarrow> client_io op (lk_up x) (lk_down x) = Some (r, up, down) \<Longrightarrow> cs_handle op r (lk_client x) = (c, effs) \<Longrightarrow>
    lk_moves svc x (x\<lparr>lk_client := c, lk_ops := lk_ops x - {#op#} + cs_starts effs, lk_log := lk_log x @ effs, lk_up := up, lk_down := down\<rparr>)"
| server: "lk_server_ops x = op # ops \<Longrightarrow> server_io op (lk_up x) (lk_down x) = Some (r, up, down) \<Longrightarrow>
    ss_handle svc op r (lk_server x) = (s, effs) \<Longrightarrow>
    lk_moves svc x (x\<lparr>lk_server := s, lk_server_ops := ops @ ss_starts effs, lk_server_log := lk_server_log x @ effs, lk_up := up, lk_down := down\<rparr>)"

inductive lk_reachable :: "('s \<Rightarrow> u8 list \<Rightarrow> u8 list \<times> 's) \<Rightarrow> (string \<times> u16) list \<Rightarrow> 's \<Rightarrow> ('cb, 's) service_link \<Rightarrow> bool"
  for svc servers u where
  new: "lk_reachable svc servers u (lk_new servers u)"
| calls: "lk_reachable svc servers u x \<Longrightarrow> lk_calls x y \<Longrightarrow> lk_reachable svc servers u y"
| moves: "lk_reachable svc servers u x \<Longrightarrow> lk_moves svc x y \<Longrightarrow> lk_reachable svc servers u y"

subsection \<open>Where a call is\<close>

definition request_frame :: "u8 list \<Rightarrow> u8 list" where
  "request_frame request = pv_send (pv_header 1 MtServiceRequest (length request)) request"

definition response_frame :: "u8 list \<Rightarrow> u8 list" where
  "response_frame response = pv_send (pv_header 1 MtServiceResponse (length response)) response"

definition handshake_frame :: "u8 list" where
  "handshake_frame = pv_send (pv_header 1 MtProtocolHandshakeResponse 1) [1]"

definition cs_ready :: "bool \<Rightarrow> 'cb client_session \<Rightarrow> bool" where
  "cs_ready busy c \<longleftrightarrow> cs_state c = SsConnected \<and> cs_accepted_protocol_version c = 1 \<and> cs_in_progress c = busy"

text \<open>
  The phases: the client's operation in progress (calls that are posted and peeks apart), the server's operation, the streams, the call that
  is under way and what the service has answered to it.
\<close>

inductive lk_phase :: "'cb client_session \<Rightarrow> 'cb client_op list \<Rightarrow> server_session \<Rightarrow> server_op list \<Rightarrow> u8 list \<Rightarrow> u8 list \<Rightarrow>
    (u8 list \<times> 'cb) list \<Rightarrow> (u8 list \<times> u8 list) list \<Rightarrow> bool" where
  resolving: "cs_state c = SsNotConnected \<Longrightarrow> lk_phase c [OpResolve i] s [SopReceiveHandshake] [] [] [] []"
| connecting: "cs_state c = SsNotConnected \<Longrightarrow> lk_phase c [OpConnect i] s [SopReceiveHandshake] [] [] [] []"
| greeting: "cs_state c = SsHandshake \<Longrightarrow> lk_phase c [OpSendHandshake cs_handshake_request] s [SopReceiveHandshake] [] [] [] []"
| greeted: "cs_state c = SsHandshake \<Longrightarrow> lk_phase c [OpReceiveHandshake] s [SopReceiveHandshake] cs_handshake_request [] [] []"
| replying: "cs_state c = SsHandshake \<Longrightarrow> ss_accepted_protocol_version s = 1 \<Longrightarrow>
    lk_phase c [OpReceiveHandshake] s [SopSendHandshakeResponse handshake_frame] [] [] [] []"
| replied: "cs_state c = SsHandshake \<Longrightarrow> ss_accepted_protocol_version s = 1 \<Longrightarrow>
    lk_phase c [OpReceiveHandshake] s [SopReceiveRequest] [] handshake_frame [] []"
| idle: "cs_ready False c \<Longrightarrow> cs_queue c = [] \<Longrightarrow> ss_accepted_protocol_version s = 1 \<Longrightarrow>
    lk_phase c [] s [SopReceiveRequest] [] [] [] []"
| requesting: "cs_ready True c \<Longrightarrow> ss_accepted_protocol_version s = 1 \<Longrightarrow>
    lk_phase c [OpSendRequest (request_frame rq) cb] s [SopReceiveRequest] [] [] [(rq, cb)] []"
| requested: "cs_ready True c \<Longrightarrow> ss_accepted_protocol_version s = 1 \<Longrightarrow>
    lk_phase c [OpReceiveResponse cb] s [SopReceiveRequest] (request_frame rq) [] [(rq, cb)] []"
| responding: "cs_ready True c \<Longrightarrow> ss_accepted_protocol_version s = 1 \<Longrightarrow> length rs < 2 ^ 32 \<Longrightarrow>
    lk_phase c [OpReceiveResponse cb] s [SopSendResponse (response_frame rs)] [] [] [(rq, cb)] [(rq, rs)]"
| responded: "cs_ready True c \<Longrightarrow> ss_accepted_protocol_version s = 1 \<Longrightarrow> length rs < 2 ^ 32 \<Longrightarrow>
    lk_phase c [OpReceiveResponse cb] s [SopReceiveRequest] [] (response_frame rs) [(rq, cb)] [(rq, rs)]"

inductive_cases lk_phase_idle: "lk_phase c [] s sops up down pend extra"

lemma pv_receive_nil [simp]: "pv_receive [] = None"
  by (simp add: pv_receive_def pv_read_header_start_def)

lemma pv_receive_frames:
  "length rq < 2 ^ 32 \<Longrightarrow> pv_receive (request_frame rq) = Some (th_bytes (pv_header 1 MtServiceRequest (length rq)), rq, [])"
  "length rs < 2 ^ 32 \<Longrightarrow> pv_receive (response_frame rs) = Some (th_bytes (pv_header 1 MtServiceResponse (length rs)), rs, [])"
  "pv_receive handshake_frame = Some (th_bytes (pv_header 1 MtProtocolHandshakeResponse 1), [1], [])"
  "pv_receive cs_handshake_request = Some (th_bytes (pv_header 1 MtProtocolHandshakeRequest 2), [1, 1], [])"
proof -
  show "length rq < 2 ^ 32 \<Longrightarrow> pv_receive (request_frame rq) = Some (th_bytes (pv_header 1 MtServiceRequest (length rq)), rq, [])"
    using pv_receive_sent [of rq 1 MtServiceRequest "[]"] by (simp add: request_frame_def)
  show "length rs < 2 ^ 32 \<Longrightarrow> pv_receive (response_frame rs) = Some (th_bytes (pv_header 1 MtServiceResponse (length rs)), rs, [])"
    using pv_receive_sent [of rs 1 MtServiceResponse "[]"] by (simp add: response_frame_def)
  have l: "length [1 :: u8] = 1" "length [1 :: u8, 1] = 2" by simp_all
  show "pv_receive handshake_frame = Some (th_bytes (pv_header 1 MtProtocolHandshakeResponse 1), [1], [])"
    using pv_receive_sent [of "[1]" 1 MtProtocolHandshakeResponse "[]", unfolded l] by (simp add: handshake_frame_def)
  show "pv_receive cs_handshake_request = Some (th_bytes (pv_header 1 MtProtocolHandshakeRequest 2), [1, 1], [])"
    using pv_receive_sent [of "[1, 1]" 1 MtProtocolHandshakeRequest "[]", unfolded l]
    by (simp add: cs_handshake_request_def MIN_SUPPORTED_PROTOCOL_VERSION_def MAX_SUPPORTED_PROTOCOL_VERSION_def)
qed

lemma message_type_of_header [simp]: "hb_message_type (th_bytes (pv_header v t n)) = mt_num t"
  using th_bytes_fields(2) [of "pv_header v t n" "[]"] by (simp add: pv_header_def)

lemma frames_nonempty [simp]: "request_frame rq \<noteq> []" "response_frame rs \<noteq> []" "handshake_frame \<noteq> []" "cs_handshake_request \<noteq> []"
proof -
  have "th_bytes h \<noteq> []" for h using length_th_bytes [of h] by (metis list.size(3) numeral_neq_zero)
  then show "request_frame rq \<noteq> []" "response_frame rs \<noteq> []" "handshake_frame \<noteq> []" "cs_handshake_request \<noteq> []"
    by (simp_all add: request_frame_def response_frame_def handshake_frame_def cs_handshake_request_def pv_send_def)
qed

text \<open>How much is left to do.\<close>

fun op_weight :: "'cb client_op \<Rightarrow> nat" where
  "op_weight (OpResolve i) = 20"
| "op_weight (OpConnect i) = 19"
| "op_weight (OpSendHandshake bs) = 18"
| "op_weight OpReceiveHandshake = 14"
| "op_weight (OpSendRequest bs cb) = 8"
| "op_weight (OpReceiveResponse cb) = 4"
| "op_weight OpPeek = 1"
| "op_weight (OpCall request cb) = 10"
| "op_weight OpFailCalls = 1"

fun sop_weight :: "server_op \<Rightarrow> nat" where
  "sop_weight (SopSendHandshakeResponse bs) = 2"
| "sop_weight (SopSendResponse bs) = 2"
| "sop_weight _ = 0"

definition sessions_weight :: "'cb client_session \<Rightarrow> 'cb client_op multiset \<Rightarrow> server_op list \<Rightarrow> u8 list \<Rightarrow> u8 list \<Rightarrow> nat" where
  "sessions_weight c ops sops up down = 9 * length (cs_queue c) + \<Sum>\<^sub># (image_mset op_weight ops) +
     sum_list (map sop_weight sops) + (if up = [] then 0 else 3) + (if down = [] then 0 else 1)"

definition lk_weight :: "('cb, 's) service_link \<Rightarrow> nat" where
  "lk_weight x = sessions_weight (lk_client x) (lk_ops x) (lk_server_ops x) (lk_up x) (lk_down x)"

lemma sessions_weight_plus:
  "sessions_weight c (ops + ops') sops up down = sessions_weight c ops sops up down + \<Sum>\<^sub># (image_mset op_weight ops')"
  by (simp add: sessions_weight_def)

text \<open>What has been done, is under way and waits.\<close>

definition lk_inv :: "('s \<Rightarrow> u8 list \<Rightarrow> u8 list \<times> 's) \<Rightarrow> 's \<Rightarrow> ('cb, 's) service_link \<Rightarrow> bool" where
  "lk_inv svc u0 x \<longleftrightarrow> (\<exists>ops pend extra don posted n.
     lk_phase (lk_client x) ops (fst (lk_server x)) (lk_server_ops x) (lk_up x) (lk_down x) pend extra \<and>
     lk_ops x = mset ops + image_mset (case_prod OpCall) (mset posted) + replicate_mset n OpPeek \<and>
     cs_answers (lk_log x) = map (\<lambda>(rq, cb, rs). (cb, AnResponse rs)) don \<and>
     ss_calls (lk_server_log x) = map (\<lambda>(rq, cb, rs). (rq, rs)) don @ extra \<and>
     ss_calls_of svc (map fst (ss_calls (lk_server_log x))) u0 = (ss_calls (lk_server_log x), snd (lk_server x)) \<and>
     mset (lk_accepted x) = mset (map (\<lambda>(rq, cb, rs). (rq, cb)) don) + mset pend + mset (cs_queue (lk_client x)) + mset posted)"

lemma cs_answers_simps [simp]: "cs_answers [] = []" "cs_answers (e # es) = cs_answer e @ cs_answers es"
  "cs_answers (es @ fs) = cs_answers es @ cs_answers fs"
  by (simp_all add: cs_answers_def)

text \<open>One step of the client.\<close>

definition client_progress where
  "client_progress c op effs c' s sops up down up' down' pend extra \<longleftrightarrow> (\<exists>ops' pend' extra' don k.
     lk_phase c' ops' s sops up' down' pend' extra' \<and>
     cs_starts effs = mset ops' + replicate_mset k OpPeek \<and>
     cs_answers effs = map (\<lambda>(rq, cb, rs). (cb, AnResponse rs)) don \<and>
     extra = map (\<lambda>(rq, cb, rs). (rq, rs)) don @ extra' \<and>
     mset pend + mset (cs_queue c) = mset (map (\<lambda>(rq, cb, rs). (rq, cb)) don) + mset pend' + mset (cs_queue c') \<and>
     sessions_weight c' (cs_starts effs) sops up' down' < sessions_weight c {#op#} sops up down)"

lemma client_progressI:
  "lk_phase c' ops' s sops up' down' pend' extra' \<Longrightarrow> cs_starts effs = mset ops' + replicate_mset k OpPeek \<Longrightarrow>
   cs_answers effs = map (\<lambda>(rq, cb, rs). (cb, AnResponse rs)) don \<Longrightarrow> extra = map (\<lambda>(rq, cb, rs). (rq, rs)) don @ extra' \<Longrightarrow>
   mset pend + mset (cs_queue c) = mset (map (\<lambda>(rq, cb, rs). (rq, cb)) don) + mset pend' + mset (cs_queue c') \<Longrightarrow>
   sessions_weight c' (cs_starts effs) sops up' down' < sessions_weight c {#op#} sops up down \<Longrightarrow>
   client_progress c op effs c' s sops up down up' down' pend extra"
  unfolding client_progress_def by blast

text \<open>The connected client goes on with the next call or gets idle.\<close>

lemma cs_continue_progress:
  assumes "cs_continue c = (c', effs)" "cs_state c = SsConnected" "cs_accepted_protocol_version c = 1" "ss_accepted_protocol_version s = 1"
  obtains ops' k pend' where "lk_phase c' ops' s [SopReceiveRequest] [] [] pend' []" "cs_starts effs = mset ops' + replicate_mset k OpPeek"
    "cs_answers effs = []" "mset (cs_queue c) = mset pend' + mset (cs_queue c')"
    "9 * length (cs_queue c') + \<Sum>\<^sub># (image_mset op_weight (cs_starts effs)) \<le> 9 * length (cs_queue c) + 1"
proof (cases "cs_queue c")
  case Nil
  have "lk_phase c' [] s [SopReceiveRequest] [] [] [] []"
    by (rule lk_phase.idle) (use assms Nil in \<open>auto simp: cs_continue_def cs_ready_def\<close>)
  then show ?thesis using that [of "[]" "[]" 1] assms Nil by (auto simp: cs_continue_def)
next
  case (Cons call q)
  obtain rq cb where c: "call = (rq, cb)" by (cases call)
  have "lk_phase c' [OpSendRequest (request_frame rq) cb] s [SopReceiveRequest] [] [] [(rq, cb)] []"
    by (rule lk_phase.requesting) (use assms Cons c in \<open>auto simp: cs_continue_def cs_ready_def\<close>)
  then show ?thesis
    using that [of "[OpSendRequest (request_frame rq) cb]" "[(rq, cb)]" 0] assms Cons c
    by (auto simp: cs_continue_def cs_send_next_service_request_def request_frame_def)
qed

lemma client_main_step:
  assumes "lk_phase c [op] s sops up down pend extra" "client_io op up down = Some (r, up', down')" "cs_handle op r c = (c', effs)"
  shows "client_progress c op effs c' s sops up down up' down' pend extra"
  using assms(1)
proof cases
  case (resolving i)
  then show ?thesis using assms(2,3)
    by (intro client_progressI [where ops' = "[OpConnect i]" and k = 0 and don = "[]"])
      (auto simp: sessions_weight_def intro: lk_phase.connecting)
next
  case (connecting i)
  then show ?thesis using assms(2,3)
    by (intro client_progressI [where ops' = "[OpSendHandshake cs_handshake_request]" and k = 0 and don = "[]"])
      (auto simp: sessions_weight_def cs_connected_def cs_send_protocol_handshake_request_def intro: lk_phase.greeting)
next
  case greeting
  then show ?thesis using assms(2,3)
    by (intro client_progressI [where ops' = "[OpReceiveHandshake]" and k = 0 and don = "[]"]) 
      (auto simp: sessions_weight_def intro: lk_phase.greeted)
next
  case greeted
  then show ?thesis using assms(2) by simp
next
  case replying
  then show ?thesis using assms(2) by simp
next
  case replied
  let ?c = "c\<lparr>cs_accepted_protocol_version := 1, cs_state := SsConnected\<rparr>"
  obtain e where e: "cs_continue ?c = (c', e)" "effs = CsConnected # e" "up' = []" "down' = []"
    using assms(2,3) replied
    by (auto simp: pv_receive_frames cs_handshake_response_def MIN_SUPPORTED_PROTOCOL_VERSION_def split: prod.splits)
  obtain ops' k pend' where *: "lk_phase c' ops' s [SopReceiveRequest] [] [] pend' []" "cs_starts e = mset ops' + replicate_mset k OpPeek"
    "cs_answers e = []" "mset (cs_queue ?c) = mset pend' + mset (cs_queue c')"
    "9 * length (cs_queue c') + \<Sum>\<^sub># (image_mset op_weight (cs_starts e)) \<le> 9 * length (cs_queue ?c) + 1"
    by (rule cs_continue_progress [OF e(1) _ _ replied(8)]) simp_all
  show ?thesis
    by (rule client_progressI [where ops' = ops' and k = k and don = "[]" and pend' = pend' and extra' = "[]"])
      (use * e replied in \<open>auto simp: sessions_weight_def\<close>)
next
  case (requesting rq cb)
  then show ?thesis using assms(2,3)
    by (intro client_progressI [where ops' = "[OpReceiveResponse cb]" and k = 0 and don = "[]" and extra' = "[]"])
      (auto simp: sessions_weight_def intro: lk_phase.requested)
next
  case (requested cb rq)
  then show ?thesis using assms(2) by simp
next
  case (responding rs cb rq)
  then show ?thesis using assms(2) by simp
next
  case (responded rs cb rq)
  obtain e where e: "cs_continue c = (c', e)" "effs = CsAnswer cb (AnResponse rs) # e" "up' = []" "down' = []"
    using assms(2,3) responded by (auto simp: pv_receive_frames cs_service_response_def split: prod.splits)
  obtain ops' k pend' where *: "lk_phase c' ops' s [SopReceiveRequest] [] [] pend' []" "cs_starts e = mset ops' + replicate_mset k OpPeek"
    "cs_answers e = []" "mset (cs_queue c) = mset pend' + mset (cs_queue c')"
    "9 * length (cs_queue c') + \<Sum>\<^sub># (image_mset op_weight (cs_starts e)) \<le> 9 * length (cs_queue c) + 1"
    by (rule cs_continue_progress [OF e(1) _ _ responded(8)]) (use responded in \<open>simp_all add: cs_ready_def\<close>)
  show ?thesis
    by (rule client_progressI [where ops' = ops' and k = k and don = "[(rq, cb, rs)]" and pend' = pend' and extra' = "[]"])
      (use * e responded in \<open>auto simp: sessions_weight_def\<close>)
qed

text \<open>A step of the server.\<close>

lemma server_step:
  assumes "lk_phase c ops s (sop # sops) up down pend extra" "server_io sop up down = Some (r, up', down')"
    "ss_handle svc sop r (s, u) = ((s', u'), effs)"
    and l: "\<forall>(rq, cb) \<in> set pend. length rq < 2 ^ 32" "\<forall>(rq, cb) \<in> set pend. length (fst (svc u rq)) < 2 ^ 32"
  shows "lk_phase c ops s' (ss_starts effs) up' down' pend (extra @ ss_calls effs)" "sops = []"
    "ss_calls effs = [] \<and> u' = u \<or> (\<exists>rq rs. ss_calls effs = [(rq, rs)] \<and> svc u rq = (rs, u'))"
    "sessions_weight c cops (ss_starts effs) up' down' < sessions_weight c cops (sop # sops) up down"
proof -
  have "lk_phase c ops s' (ss_starts effs) up' down' pend (extra @ ss_calls effs) \<and> sops = [] \<and>
    (ss_calls effs = [] \<and> u' = u \<or> (\<exists>rq rs. ss_calls effs = [(rq, rs)] \<and> svc u rq = (rs, u'))) \<and>
    sessions_weight c cops (ss_starts effs) up' down' < sessions_weight c cops (sop # sops) up down"
    using assms(1)
  proof cases
    case greeted
    have e: "s' = s\<lparr>ss_accepted_protocol_version := 1, ss_state := SsHandshake\<rparr>" "effs = [SvStart (SopSendHandshakeResponse handshake_frame)]"
        "up' = []" "down' = []" "u' = u"
      using assms(2,3) greeted by (auto simp: pv_receive_frames ss_handshake_request_def ss_send_handshake_response_def ss_keep_def
          SERVER_MAX_SUPPORTED_PROTOCOL_VERSION_def SERVER_MIN_SUPPORTED_PROTOCOL_VERSION_def handshake_frame_def)
    have "lk_phase c ops s' [SopSendHandshakeResponse handshake_frame] [] [] [] []"
      unfolding greeted by (rule lk_phase.replying) (use greeted e in simp_all)
    then show ?thesis using greeted e by (simp add: sessions_weight_def)
  next
    case replying
    have e: "s' = s\<lparr>ss_state := SsConnected\<rparr>" "effs = [SvConnected, SvStart SopReceiveRequest]" "up' = []" "down' = handshake_frame" "u' = u"
      using assms(2,3) replying by (auto simp: ss_handshake_sent_def ss_receive_service_request_def ss_keep_def)
    have "lk_phase c ops s' [SopReceiveRequest] [] handshake_frame [] []"
      unfolding replying by (rule lk_phase.replied) (use replying e in simp_all)
    then show ?thesis using replying e by (simp add: sessions_weight_def)
  next
    case (requested cb rq)
    obtain rs v where v: "svc u rq = (rs, v)" by fastforce
    have rs: "length rs < 2 ^ 32" using l(2) v requested by simp
    have e: "s' = s" "effs = [SvService rq rs, SvStart (SopSendResponse (response_frame rs))]" "up' = []" "down' = []" "u' = v"
      using assms(2,3) requested v l(1)
      by (auto simp: pv_receive_frames ss_service_request_def ss_send_service_response_def response_frame_def)
    have "lk_phase c ops s' [SopSendResponse (response_frame rs)] [] [] [(rq, cb)] [(rq, rs)]"
      unfolding requested by (rule lk_phase.responding) (use requested rs e in simp_all)
    then show ?thesis using requested e v by (simp add: sessions_weight_def)
  next
    case (responding rs cb rq)
    have e: "s' = s" "effs = [SvStart SopReceiveRequest]" "up' = []" "down' = response_frame rs" "u' = u"
      using assms(2,3) responding by (auto simp: ss_receive_service_request_def ss_keep_def)
    have "lk_phase c ops s' [SopReceiveRequest] [] (response_frame rs) [(rq, cb)] [(rq, rs)]"
      unfolding responding by (rule lk_phase.responded) (use responding e in simp_all)
    then show ?thesis using responding e by (simp add: sessions_weight_def)
  qed (use assms(2) in auto)
  then show "lk_phase c ops s' (ss_starts effs) up' down' pend (extra @ ss_calls effs)" "sops = []"
    "ss_calls effs = [] \<and> u' = u \<or> (\<exists>rq rs. ss_calls effs = [(rq, rs)] \<and> svc u rq = (rs, u'))"
    "sessions_weight c cops (ss_starts effs) up' down' < sessions_weight c cops (sop # sops) up down" by blast+
qed

text \<open>A posted call is executed: it is sent at once by an idle session and queued by any other.\<close>

lemma call_step:
  assumes "lk_phase c ops s sops up down pend extra" "cs_call rq cb c = (c', effs)"
  shows "\<exists>ops' pend'. lk_phase c' (ops @ ops') s sops up down (pend @ pend') extra \<and> cs_starts effs = mset ops' \<and> cs_answers effs = [] \<and>
    mset (cs_queue c') + mset pend' = add_mset (rq, cb) (mset (cs_queue c)) \<and>
    sessions_weight c' (mset ops') sops up down < sessions_weight c {#OpCall rq cb#} sops up down"
proof (cases "ops = []")
  case True
  then show ?thesis using assms
    by (intro exI [of _ "[OpSendRequest (request_frame rq) cb]"] exI [of _ "[(rq, cb)]"])
      (auto elim!: lk_phase_idle simp: cs_call_def cs_ready_def cs_send_next_service_request_def request_frame_def [symmetric]
        sessions_weight_def intro!: lk_phase.requesting)
next
  case False
  have "\<not> (\<not> cs_in_progress c \<and> cs_state c = SsConnected)" "cs_state c \<noteq> SsFailed"
    using assms(1) False by (auto elim!: lk_phase.cases simp: cs_ready_def)
  then have c: "c' = c\<lparr>cs_queue := cs_queue c @ [(rq, cb)]\<rparr>" "effs = []" using assms(2) by (auto simp: cs_call_def)
  have "lk_phase c' ops s sops up down pend extra"
    using assms(1) False unfolding c(1) by cases (auto simp: cs_ready_def intro: lk_phase.intros)
  then show ?thesis using c by (intro exI [of _ "[]"]) (simp add: sessions_weight_def)
qed

subsection \<open>The invariant\<close>

lemma lk_invI:
  "lk_phase (lk_client x) ops (fst (lk_server x)) (lk_server_ops x) (lk_up x) (lk_down x) pend extra \<Longrightarrow>
   lk_ops x = mset ops + image_mset (case_prod OpCall) (mset posted) + replicate_mset n OpPeek \<Longrightarrow>
   cs_answers (lk_log x) = map (\<lambda>(rq, cb, rs). (cb, AnResponse rs)) don \<Longrightarrow>
   ss_calls (lk_server_log x) = map (\<lambda>(rq, cb, rs). (rq, rs)) don @ extra \<Longrightarrow>
   ss_calls_of svc (map fst (ss_calls (lk_server_log x))) u0 = (ss_calls (lk_server_log x), snd (lk_server x)) \<Longrightarrow>
   mset (lk_accepted x) = mset (map (\<lambda>(rq, cb, rs). (rq, cb)) don) + mset pend + mset (cs_queue (lk_client x)) + mset posted \<Longrightarrow>
   lk_inv svc u0 x"
  unfolding lk_inv_def by blast

lemma lk_inv_new: "lk_inv svc u0 (lk_new servers u0)"
  by (rule lk_invI [where ops = "[OpResolve 0]" and pend = "[]" and extra = "[]" and posted = "[]" and n = 0 and don = "[]"])
    (simp_all add: lk_new_def ss_start_def ss_receive_handshake_request_def cs_new_def lk_phase.resolving)

lemma lk_inv_calls:
  assumes "lk_inv svc u0 x" "lk_calls x y"
  shows "lk_inv svc u0 y"
  using assms(2,1)
proof cases
  case (1 rq cb effs)
  obtain ops pend extra don posted n where I:
    "lk_phase (lk_client x) ops (fst (lk_server x)) (lk_server_ops x) (lk_up x) (lk_down x) pend extra"
    "lk_ops x = mset ops + image_mset (case_prod OpCall) (mset posted) + replicate_mset n OpPeek"
    "cs_answers (lk_log x) = map (\<lambda>(rq, cb, rs). (cb, AnResponse rs)) don"
    "ss_calls (lk_server_log x) = map (\<lambda>(rq, cb, rs). (rq, rs)) don @ extra"
    "ss_calls_of svc (map fst (ss_calls (lk_server_log x))) u0 = (ss_calls (lk_server_log x), snd (lk_server x))"
    "mset (lk_accepted x) = mset (map (\<lambda>(rq, cb, rs). (rq, cb)) don) + mset pend + mset (cs_queue (lk_client x)) + mset posted"
    using assms(1) unfolding lk_inv_def by blast
  have e: "effs = [CsStart (OpCall rq cb)]" using 1(2) by (auto simp: cs_async_call_service_def split: if_splits)
  show ?thesis
    by (rule lk_invI [where ops = ops and pend = pend and extra = extra and posted = "(rq, cb) # posted" and n = n and don = don])
      (use I e in \<open>simp_all add: 1(1)\<close>)
qed

lemma mset_split: "a \<in> set xs \<Longrightarrow> \<exists>ys. mset xs = add_mset a (mset ys)"
  by (metis in_multiset_in_set insert_DiffM ex_mset)

lemma replicate_mset_sum: "replicate_mset (m + n) a = replicate_mset m a + replicate_mset n a"
  by (induction m) simp_all

lemma sessions_weight_step:
  assumes "op \<in># ops" "sessions_weight c' ops' sops up' down' < sessions_weight c {#op#} sops up down"
  shows "sessions_weight c' (ops - {#op#} + ops') sops up' down' < sessions_weight c ops sops up down"
proof -
  obtain rest where r: "ops = add_mset op rest" using assms(1) by (metis multi_member_split)
  have "\<Sum>\<^sub># (image_mset op_weight ops) = op_weight op + \<Sum>\<^sub># (image_mset op_weight rest)" by (simp add: r)
  then show ?thesis using assms(2) by (simp add: sessions_weight_def r)
qed

definition short_requests :: "('cb, 's) service_link \<Rightarrow> bool" where
  "short_requests x \<longleftrightarrow> (\<forall>(rq, cb) \<in> set (lk_accepted x). length rq < 2 ^ 32)"

text \<open>The responses to any sequence of these requests.\<close>

definition short_responses :: "('s \<Rightarrow> u8 list \<Rightarrow> u8 list \<times> 's) \<Rightarrow> 's \<Rightarrow> u8 list set \<Rightarrow> bool" where
  "short_responses svc u0 requests \<longleftrightarrow>
     (\<forall>rqs. set rqs \<subseteq> requests \<longrightarrow> (\<forall>(rq, rs) \<in> set (fst (ss_calls_of svc rqs u0)). length rs < 2 ^ 32))"

definition lk_requests :: "('cb, 's) service_link \<Rightarrow> u8 list set" where
  "lk_requests x = fst ` set (lk_accepted x)"

lemma short_responses_mono: "short_responses svc u0 R \<Longrightarrow> R' \<subseteq> R \<Longrightarrow> short_responses svc u0 R'"
  unfolding short_responses_def by blast

lemma short_responses_next:
  assumes "short_responses svc u0 R" "ss_calls_of svc rqs u0 = (cs, u)" "set rqs \<subseteq> R" "rq \<in> R"
  shows "length (fst (svc u rq)) < 2 ^ 32"
proof -
  obtain rs v where v: "svc u rq = (rs, v)" by fastforce
  have c: "ss_calls_of svc (rqs @ [rq]) u0 = (cs @ [(rq, rs)], v)" by (simp add: ss_calls_of_snoc assms(2) v)
  have "set (rqs @ [rq]) \<subseteq> R" using assms(3,4) by simp
  then have "\<forall>(rq, rs) \<in> set (fst (ss_calls_of svc (rqs @ [rq]) u0)). length rs < 2 ^ 32"
    using assms(1) unfolding short_responses_def by blast
  then show ?thesis by (simp add: c v)
qed

lemma lk_phase_extra: "lk_phase c ops s sops up down pend extra \<Longrightarrow> fst ` set extra \<subseteq> fst ` set pend"
  by (auto elim: lk_phase.cases)

lemma lk_inv_moves:
  assumes "lk_inv svc u0 x" "lk_moves svc x y"
    and l: "short_requests x" "short_responses svc u0 (lk_requests x)"
  shows "lk_inv svc u0 y \<and> lk_weight y < lk_weight x"
proof -
  obtain ops pend extra don posted n where I:
    "lk_phase (lk_client x) ops (fst (lk_server x)) (lk_server_ops x) (lk_up x) (lk_down x) pend extra"
    "lk_ops x = mset ops + image_mset (case_prod OpCall) (mset posted) + replicate_mset n OpPeek"
    "cs_answers (lk_log x) = map (\<lambda>(rq, cb, rs). (cb, AnResponse rs)) don"
    "ss_calls (lk_server_log x) = map (\<lambda>(rq, cb, rs). (rq, rs)) don @ extra"
    "ss_calls_of svc (map fst (ss_calls (lk_server_log x))) u0 = (ss_calls (lk_server_log x), snd (lk_server x))"
    "mset (lk_accepted x) = mset (map (\<lambda>(rq, cb, rs). (rq, cb)) don) + mset pend + mset (cs_queue (lk_client x)) + mset posted"
    using assms(1) unfolding lk_inv_def by blast
  show ?thesis
    using assms(2)
  proof cases
    case (client op r up down c effs)
    let ?rest = "lk_ops x - {#op#}"
    consider "op \<in> set ops" | rq cb where "op = OpCall rq cb" "(rq, cb) \<in> set posted" | "op = OpPeek" "0 < n"
      using client(2) I(2) by (auto split: if_splits)
    then show ?thesis
    proof cases
      case 1
      then have o: "ops = [op]" using I(1) by (auto elim!: lk_phase.cases)
      have "client_progress (lk_client x) op effs c (fst (lk_server x)) (lk_server_ops x) (lk_up x) (lk_down x) up down pend extra"
        by (rule client_main_step [OF I(1) [unfolded o] client(3,4)])
      then obtain ops' pend' extra' don' k where P: "lk_phase c ops' (fst (lk_server x)) (lk_server_ops x) up down pend' extra'"
        "cs_starts effs = mset ops' + replicate_mset k OpPeek" "cs_answers effs = map (\<lambda>(rq, cb, rs). (cb, AnResponse rs)) don'"
        "extra = map (\<lambda>(rq, cb, rs). (rq, rs)) don' @ extra'"
        "mset pend + mset (cs_queue (lk_client x)) = mset (map (\<lambda>(rq, cb, rs). (rq, cb)) don') + mset pend' + mset (cs_queue c)"
        "sessions_weight c (cs_starts effs) (lk_server_ops x) up down < sessions_weight (lk_client x) {#op#} (lk_server_ops x) (lk_up x) (lk_down x)"
        unfolding client_progress_def by blast
      have r: "?rest = image_mset (case_prod OpCall) (mset posted) + replicate_mset n OpPeek" by (simp add: I(2) o)
      have "lk_inv svc u0 y"
        by (rule lk_invI [where ops = ops' and pend = pend' and extra = extra' and posted = posted and n = "n + k" and don = "don @ don'"])
          (use P(1,3,4,5) I(3,4,5,6) in \<open>simp_all add: client(1) r P(2) replicate_mset_sum ac_simps\<close>)
      moreover have "lk_weight y < lk_weight x"
        using sessions_weight_step [OF client(2) P(6)] by (simp add: lk_weight_def client(1))
      ultimately show ?thesis by blast
    next
      case 2
      obtain posted' where p: "mset posted = add_mset (rq, cb) (mset posted')" using mset_split [OF 2(2)] by blast
      have h: "cs_call rq cb (lk_client x) = (c, effs)" "up = lk_up x" "down = lk_down x" using client(3,4) 2(1) by auto
      obtain ops' pend' where P: "lk_phase c (ops @ ops') (fst (lk_server x)) (lk_server_ops x) (lk_up x) (lk_down x) (pend @ pend') extra"
        "cs_starts effs = mset ops'" "cs_answers effs = []"
        "mset (cs_queue c) + mset pend' = add_mset (rq, cb) (mset (cs_queue (lk_client x)))"
        "sessions_weight c (mset ops') (lk_server_ops x) (lk_up x) (lk_down x) <
          sessions_weight (lk_client x) {#OpCall rq cb#} (lk_server_ops x) (lk_up x) (lk_down x)"
        using call_step [OF I(1) h(1)] by blast
      have r: "?rest = mset ops + image_mset (case_prod OpCall) (mset posted') + replicate_mset n OpPeek" by (simp add: I(2) 2(1) p)
      have "lk_inv svc u0 y"
        by (rule lk_invI [where ops = "ops @ ops'" and pend = "pend @ pend'" and extra = extra and posted = posted' and n = n and don = don])
          (use P(1,3,4) I(3,4,5,6) h p in \<open>simp_all add: client(1) r P(2) ac_simps\<close>)
      moreover have "lk_weight y < lk_weight x"
        using sessions_weight_step [OF client(2) P(5) [folded P(2) 2(1)]] h by (simp add: lk_weight_def client(1))
      ultimately show ?thesis by blast
    next
      case 3
      have h: "c = lk_client x" "effs = []" "up = lk_up x" "down = lk_down x"
        using client(3,4) 3 by (auto split: if_splits)
      obtain m where m: "n = Suc m" using 3(2) by (cases n) auto
      have "lk_inv svc u0 y"
        by (rule lk_invI [where ops = ops and pend = pend and extra = extra and posted = posted and n = m and don = don])
          (use I h in \<open>simp_all add: client(1) 3(1) m\<close>)
      moreover have "sessions_weight c (cs_starts effs) (lk_server_ops x) up down < sessions_weight (lk_client x) {#op#} (lk_server_ops x) (lk_up x) (lk_down x)"
        using h by (simp add: sessions_weight_def 3(1))
      then have "lk_weight y < lk_weight x" using sessions_weight_step [OF client(2)] by (simp add: lk_weight_def client(1))
      ultimately show ?thesis by blast
    qed
  next
    case (server sop sops r up down s effs)
    obtain s0 u where s0: "lk_server x = (s0, u)" by fastforce
    obtain s1 u1 where s1: "s = (s1, u1)" by fastforce
    have acc: "set (lk_accepted x) = (\<lambda>(rq, cb, rs). (rq, cb)) ` set don \<union> set pend \<union> set (cs_queue (lk_client x)) \<union> set posted"
      using arg_cong [OF I(6), of set_mset] by simp
    have l1: "\<forall>(rq, cb) \<in> set pend. length rq < 2 ^ 32" using l(1) acc unfolding short_requests_def by blast
    have l2: "\<forall>(rq, cb) \<in> set pend. length (fst (svc u rq)) < 2 ^ 32"
    proof clarify
      fix rq cb assume p: "(rq, cb) \<in> set pend"
      have A: "fst ` set pend \<subseteq> lk_requests x" "fst ` set don \<subseteq> lk_requests x"
        unfolding lk_requests_def acc by force+
      have B: "fst ` set extra \<subseteq> lk_requests x" using lk_phase_extra [OF I(1)] A(1) by (rule subset_trans)
      have C: "set (map fst (ss_calls (lk_server_log x))) = fst ` set don \<union> fst ` set extra" unfolding I(4) by force
      have "set (map fst (ss_calls (lk_server_log x))) \<subseteq> lk_requests x" unfolding C using A(2) B by (rule Un_least)
      moreover have "rq \<in> fst ` set pend" using p by (rule image_eqI [rotated]) simp
      then have "rq \<in> lk_requests x" by (rule subsetD [OF A(1)])
      moreover have "ss_calls_of svc (map fst (ss_calls (lk_server_log x))) u0 = (ss_calls (lk_server_log x), u)" using I(5) s0 by simp
      ultimately show "length (fst (svc u rq)) < 2 ^ 32" by (intro short_responses_next [OF l(2)])
    qed
    note S = server_step [OF I(1) [unfolded s0 server(2) fst_conv] server(3) server(4) [unfolded s0 s1] l1 l2]
    have P: "lk_phase (lk_client x) ops s1 (ss_starts effs) up down pend (extra @ ss_calls effs)" "sops = []"
      "ss_calls effs = [] \<and> u1 = u \<or> (\<exists>rq rs. ss_calls effs = [(rq, rs)] \<and> svc u rq = (rs, u1))"
      "sessions_weight (lk_client x) (lk_ops x) (ss_starts effs) up down < sessions_weight (lk_client x) (lk_ops x) (sop # sops) (lk_up x) (lk_down x)"
      using S by simp_all
    have c: "ss_calls_of svc (map fst (ss_calls (lk_server_log x) @ ss_calls effs)) u0 = (ss_calls (lk_server_log x) @ ss_calls effs, u1)"
      using P(3) I(5) by (auto simp: s0 ss_calls_of_snoc simp del: map_map)
    have "lk_inv svc u0 y"
      by (rule lk_invI [where ops = ops and pend = pend and extra = "extra @ ss_calls effs" and posted = posted and n = n and don = don])
        (use P I c in \<open>simp_all add: server(1) s1\<close>)
    moreover have "lk_weight y < lk_weight x" using P(2,4) by (simp add: lk_weight_def server(1,2))
    ultimately show ?thesis by blast
  qed
qed

lemma lk_moves_accepted: "lk_moves svc x y \<Longrightarrow> lk_accepted y = lk_accepted x"
  by (auto elim: lk_moves.cases)

lemma lk_moves_short: "lk_moves svc x y \<Longrightarrow> short_requests x \<Longrightarrow> short_requests y"
  by (simp add: short_requests_def lk_moves_accepted)

lemma lk_inv_reachable:
  assumes "lk_reachable svc servers u0 x" "short_requests x" "short_responses svc u0 (lk_requests x)"
  shows "lk_inv svc u0 x"
  using assms
proof (induction rule: lk_reachable.induct)
  case new
  show ?case by (rule lk_inv_new)
next
  case (calls x y)
  have *: "set (lk_accepted x) \<subseteq> set (lk_accepted y)" using calls(2) by cases auto
  then have "short_requests x" using calls(4) unfolding short_requests_def by blast
  moreover have "short_responses svc u0 (lk_requests x)"
    by (rule short_responses_mono [OF calls(5)]) (use * in \<open>auto simp: lk_requests_def\<close>)
  ultimately show ?case using lk_inv_calls [OF calls(3) calls(2)] by blast
next
  case (moves x y)
  have "short_requests x" using moves(4) lk_moves_accepted [OF moves(2)] by (simp add: short_requests_def)
  moreover have "short_responses svc u0 (lk_requests x)" using moves(5) lk_moves_accepted [OF moves(2)] by (simp add: lk_requests_def)
  ultimately show ?case using lk_inv_moves [OF moves(3) moves(2)] by blast
qed

text \<open>Where no operation can end, the client is idle.\<close>

lemma lk_phase_moves:
  assumes "lk_phase c ops s sops up down pend extra" "\<forall>(rq, cb) \<in> set pend. length rq < 2 ^ 32" "ops \<noteq> []"
  shows "(\<exists>op \<in> set ops. client_io op up down \<noteq> None) \<or> (\<exists>sop. sops = [sop] \<and> server_io sop up down \<noteq> None)"
  using assms by cases (auto simp: pv_receive_frames)

lemma lk_rest:
  assumes "lk_inv svc u0 x" "short_requests x" "\<nexists>y. lk_moves svc x y"
  obtains don where "cs_answers (lk_log x) = map (\<lambda>(rq, cb, rs). (cb, AnResponse rs)) don"
    "ss_calls (lk_server_log x) = map (\<lambda>(rq, cb, rs). (rq, rs)) don" "mset (lk_accepted x) = mset (map (\<lambda>(rq, cb, rs). (rq, cb)) don)"
    "ss_calls_of svc (map fst (ss_calls (lk_server_log x))) u0 = (ss_calls (lk_server_log x), snd (lk_server x))"
proof -
  obtain ops pend extra don posted n where I:
    "lk_phase (lk_client x) ops (fst (lk_server x)) (lk_server_ops x) (lk_up x) (lk_down x) pend extra"
    "lk_ops x = mset ops + image_mset (case_prod OpCall) (mset posted) + replicate_mset n OpPeek"
    "cs_answers (lk_log x) = map (\<lambda>(rq, cb, rs). (cb, AnResponse rs)) don"
    "ss_calls (lk_server_log x) = map (\<lambda>(rq, cb, rs). (rq, rs)) don @ extra"
    "ss_calls_of svc (map fst (ss_calls (lk_server_log x))) u0 = (ss_calls (lk_server_log x), snd (lk_server x))"
    "mset (lk_accepted x) = mset (map (\<lambda>(rq, cb, rs). (rq, cb)) don) + mset pend + mset (cs_queue (lk_client x)) + mset posted"
    using assms(1) unfolding lk_inv_def by blast
  have no_client: "client_io op (lk_up x) (lk_down x) = None" if "op \<in># lk_ops x" for op
  proof (rule ccontr)
    assume "client_io op (lk_up x) (lk_down x) \<noteq> None"
    then obtain r up down where "client_io op (lk_up x) (lk_down x) = Some (r, up, down)" by auto
    moreover obtain c effs where "cs_handle op r (lk_client x) = (c, effs)" by fastforce
    ultimately show False using lk_moves.client that assms(3) by blast
  qed
  have no_server: "server_io sop (lk_up x) (lk_down x) = None" if "lk_server_ops x = [sop]" for sop
  proof (rule ccontr)
    assume "server_io sop (lk_up x) (lk_down x) \<noteq> None"
    then obtain r up down where "server_io sop (lk_up x) (lk_down x) = Some (r, up, down)" by auto
    moreover obtain s effs where "ss_handle svc sop r (lk_server x) = (s, effs)" by fastforce
    ultimately show False using lk_moves.server that assms(3) by blast
  qed
  have l: "\<forall>(rq, cb) \<in> set pend. length rq < 2 ^ 32"
    using assms(2) I(6) unfolding short_requests_def by (metis (no_types, lifting) Un_iff set_mset_mset set_mset_union)
  have "ops = []"
  proof (rule ccontr)
    assume "ops \<noteq> []"
    from lk_phase_moves [OF I(1) l this] show False using no_client no_server I(2) by force
  qed
  moreover have "posted = []"
  proof (rule ccontr)
    assume "posted \<noteq> []"
    then obtain rq cb q where "posted = (rq, cb) # q" by (cases posted) auto
    then have "OpCall rq cb \<in># lk_ops x" by (simp add: I(2))
    then show False using no_client by fastforce
  qed
  ultimately have "extra = []" "pend = []" "cs_queue (lk_client x) = []" "posted = []" using I(1) by (auto elim!: lk_phase_idle)
  then show ?thesis using that [of don] I(3,4,5,6) by simp
qed

lemma lk_complete:
  assumes "lk_reachable svc servers u0 x" "short_requests x" "short_responses svc u0 (lk_requests x)"
  shows "(\<nexists>f. f 0 = x \<and> (\<forall>i :: nat. lk_moves svc (f i) (f (Suc i)))) \<and>
    (\<forall>y. (lk_moves svc)\<^sup>*\<^sup>* x y \<and> (\<nexists>z. lk_moves svc y z) \<longrightarrow>
      (\<exists>calls. cs_answers (lk_log y) = map (\<lambda>(rq, cb, rs). (cb, AnResponse rs)) calls \<and>
        mset (map (\<lambda>(rq, cb, rs). (rq, cb)) calls) = mset (lk_accepted x) \<and>
        ss_calls_of svc (map fst calls) u0 = (map (\<lambda>(rq, cb, rs). (rq, rs)) calls, snd (lk_server y))))"
proof -
  have R: "(lk_moves svc)\<^sup>*\<^sup>* x y \<Longrightarrow> lk_inv svc u0 y \<and> short_requests y \<and> lk_accepted y = lk_accepted x" for y
  proof (induction rule: rtranclp_induct)
    case base
    then show ?case using lk_inv_reachable [OF assms] assms(2) by blast
  next
    case (step y z)
    have a: "lk_accepted z = lk_accepted y" using lk_moves_accepted [OF step(2)] .
    have "lk_inv svc u0 z"
      using lk_inv_moves [OF _ step(2)] step(3) assms(3) by (simp add: lk_requests_def)
    then show ?case using step(3) a by (simp add: short_requests_def)
  qed
  show ?thesis
  proof (intro conjI allI impI)
    show "\<nexists>f. f 0 = x \<and> (\<forall>i :: nat. lk_moves svc (f i) (f (Suc i)))"
    proof
      assume "\<exists>f. f 0 = x \<and> (\<forall>i :: nat. lk_moves svc (f i) (f (Suc i)))"
      then obtain f where f: "f 0 = x" "\<And>i. lk_moves svc (f i) (f (Suc i))" by blast
      have "(lk_moves svc)\<^sup>*\<^sup>* x (f i)" for i by (induction i) (auto simp: f intro: rtranclp.rtrancl_into_rtrancl)
      note Ri = R [OF this]
      have "lk_inv svc u0 (f i)" "short_requests (f i)" "lk_requests (f i) = lk_requests x" for i
        using Ri [of i] unfolding lk_requests_def by simp_all
      then have "lk_weight (f (Suc i)) < lk_weight (f i)" for i
        using lk_inv_moves [OF _ f(2)] assms(3) by metis
      then have "\<forall>i. (f (Suc i), f i) \<in> measure lk_weight" by simp
      then show False using wf_measure unfolding wf_iff_no_infinite_down_chain by blast
    qed
  next
    fix y assume y: "(lk_moves svc)\<^sup>*\<^sup>* x y \<and> (\<nexists>z. lk_moves svc y z)"
    obtain don where D: "cs_answers (lk_log y) = map (\<lambda>(rq, cb, rs). (cb, AnResponse rs)) don"
      "ss_calls (lk_server_log y) = map (\<lambda>(rq, cb, rs). (rq, rs)) don" "mset (lk_accepted y) = mset (map (\<lambda>(rq, cb, rs). (rq, cb)) don)"
      "ss_calls_of svc (map fst (ss_calls (lk_server_log y))) u0 = (ss_calls (lk_server_log y), snd (lk_server y))"
      using lk_rest [of svc u0 y] R y by blast
    have "map fst (ss_calls (lk_server_log y)) = map fst don" unfolding D(2) by (simp add: case_prod_unfold comp_def)
    then have c: "ss_calls_of svc (map fst don) u0 = (map (\<lambda>(rq, cb, rs). (rq, rs)) don, snd (lk_server y))" using D(4) unfolding D(2) [symmetric] by simp
    have a: "lk_accepted y = lk_accepted x" using R y by blast
    show "\<exists>calls. cs_answers (lk_log y) = map (\<lambda>(rq, cb, rs). (cb, AnResponse rs)) calls \<and>
        mset (map (\<lambda>(rq, cb, rs). (rq, cb)) calls) = mset (lk_accepted x) \<and>
        ss_calls_of svc (map fst calls) u0 = (map (\<lambda>(rq, cb, rs). (rq, rs)) calls, snd (lk_server y))"
      by (rule exI [of _ don]) (simp only: D(1) D(3) [symmetric] a c simp_thms)
  qed
qed

text \<open>
  On a connection that is not lost the answers a client gets are the responses the service gave to its own requests: in every state
  the calls answered are the calls the service has executed, in the same order, each callback with the response to the
  request it was passed with; the service may be one call ahead. Requests and responses are shorter than 4 GiB.
\<close>

theorem link_answers_match:
  assumes "lk_reachable svc servers u0 x" "short_requests x" "short_responses svc u0 (lk_requests x)"
  shows "\<exists>calls extra. cs_answers (lk_log x) = map (\<lambda>(rq, cb, rs). (cb, AnResponse rs)) calls \<and>
    ss_calls (lk_server_log x) = map (\<lambda>(rq, cb, rs). (rq, rs)) calls @ extra \<and> length extra \<le> 1 \<and>
    ss_calls_of svc (map fst (ss_calls (lk_server_log x))) u0 = (ss_calls (lk_server_log x), snd (lk_server x)) \<and>
    mset (map (\<lambda>(rq, cb, rs). (rq, cb)) calls) \<subseteq># mset (lk_accepted x)"
proof -
  obtain ops pend extra don posted n where I:
    "lk_phase (lk_client x) ops (fst (lk_server x)) (lk_server_ops x) (lk_up x) (lk_down x) pend extra"
    "cs_answers (lk_log x) = map (\<lambda>(rq, cb, rs). (cb, AnResponse rs)) don"
    "ss_calls (lk_server_log x) = map (\<lambda>(rq, cb, rs). (rq, rs)) don @ extra"
    "ss_calls_of svc (map fst (ss_calls (lk_server_log x))) u0 = (ss_calls (lk_server_log x), snd (lk_server x))"
    "mset (lk_accepted x) = mset (map (\<lambda>(rq, cb, rs). (rq, cb)) don) + mset pend + mset (cs_queue (lk_client x)) + mset posted"
    using lk_inv_reachable [OF assms] unfolding lk_inv_def by blast
  have "length extra \<le> 1" using I(1) by cases auto
  then show ?thesis using I(2-5) by (intro exI [of _ don] exI [of _ extra]) (simp add: I(5) flip: mset_map)
qed

text \<open>
  C5. And every call is answered: from any state that was reached, the operations of the two sessions end after finitely many steps if
  the user makes no further call, and then every call ever accepted has been answered exactly once, with the response of the service.
\<close>

theorem link_calls_complete:
  assumes "lk_reachable svc servers u0 x" "short_requests x" "short_responses svc u0 (lk_requests x)"
  shows "(\<nexists>f. f 0 = x \<and> (\<forall>i :: nat. lk_moves svc (f i) (f (Suc i)))) \<and>
    (\<forall>y. (lk_moves svc)\<^sup>*\<^sup>* x y \<and> (\<nexists>z. lk_moves svc y z) \<longrightarrow>
      (\<exists>calls. cs_answers (lk_log y) = map (\<lambda>(rq, cb, rs). (cb, AnResponse rs)) calls \<and>
        mset (map (\<lambda>(rq, cb, rs). (rq, cb)) calls) = mset (lk_accepted x) \<and>
        ss_calls_of svc (map fst calls) u0 = (map (\<lambda>(rq, cb, rs). (rq, rs)) calls, snd (lk_server y))))"
  by (rule lk_complete [OF assms])

subsection \<open>Example: one call to a service that always answers 7\<close>

definition wit_seven :: "nat \<Rightarrow> u8 list \<Rightarrow> u8 list \<times> nat" where
  "wit_seven n request = ([7], n + 1)"

definition wit_service_link :: "(nat, nat) service_link" where
  "wit_service_link = (lk_new [(''h'', 5)] 0)\<lparr>lk_ops := {#OpResolve 0, OpCall [1] 3#}, lk_log := [CsStart (OpResolve 0), CsStart (OpCall [1] 3)],
     lk_accepted := [([1], 3)]\<rparr>"

lemma wit_service_link_ok: "lk_reachable wit_seven [(''h'', 5)] 0 wit_service_link" "short_requests wit_service_link" "short_responses wit_seven 0 R"
proof -
  have "lk_calls (lk_new [(''h'', 5)] 0) wit_service_link"
    using lk_calls.intros [of "[1]" 3 "lk_new [(''h'', 5)] 0" "[CsStart (OpCall [1] 3)]"]
    by (simp add: wit_service_link_def cs_async_call_service_def lk_new_def ss_start_def ss_receive_handshake_request_def cs_new_def add_mset_commute)
  then show "lk_reachable wit_seven [(''h'', 5)] 0 wit_service_link" by (rule lk_reachable.calls [OF lk_reachable.new])
next
  have "set (fst (ss_calls_of wit_seven rqs n)) \<subseteq> UNIV \<times> {[7]}" for rqs n
    by (induction rqs rule: rev_induct) (auto simp: ss_calls_of_snoc wit_seven_def split: prod.splits)
  then show "short_responses wit_seven 0 R" unfolding short_responses_def by fastforce
qed (simp add: short_requests_def wit_service_link_def)

lemma ends_somewhere:
  assumes "\<nexists>f. f 0 = x \<and> (\<forall>i :: nat. R (f i) (f (Suc i)))"
  shows "\<exists>y. R\<^sup>*\<^sup>* x y \<and> (\<nexists>z. R y z)"
proof (rule ccontr)
  assume *: "\<nexists>y. R\<^sup>*\<^sup>* x y \<and> (\<nexists>z. R y z)"
  have "\<exists>f. \<forall>n. (R\<^sup>*\<^sup>* x (f n) \<and> (n = 0 \<longrightarrow> f n = x)) \<and> R (f n) (f (Suc n))"
    by (rule dependent_nat_choice) (use * in \<open>auto intro: rtranclp.rtrancl_into_rtrancl\<close>)
  then show False using assms by blast
qed

lemma wit_service_link_answer:
  assumes "mset (map (\<lambda>(rq, cb, rs). (rq, cb)) calls) = mset (lk_accepted wit_service_link)"
    "ss_calls_of wit_seven (map fst calls) 0 = (map (\<lambda>(rq, cb, rs). (rq, rs)) calls, n)"
  shows "calls = [([1], 3, [7])]"
proof -
  have "length calls = 1" using arg_cong [OF assms(1), of size] by (simp add: wit_service_link_def)
  then obtain c where "calls = [c]" by (metis length_0_conv length_Suc_conv One_nat_def)
  then show ?thesis using assms by (cases c) (simp add: wit_service_link_def ss_calls_of_def wit_seven_def)
qed

theorem link_calls_complete_witness:
  "\<exists>y. (lk_moves wit_seven)\<^sup>*\<^sup>* wit_service_link y \<and> cs_answers (lk_log y) = [(3, AnResponse [7])]"
proof -
  note C = link_calls_complete [OF wit_service_link_ok]
  obtain y where y: "(lk_moves wit_seven)\<^sup>*\<^sup>* wit_service_link y" "\<nexists>z. lk_moves wit_seven y z" using ends_somewhere [OF C [THEN conjunct1]] by blast
  then obtain calls where c: "cs_answers (lk_log y) = map (\<lambda>(rq, cb, rs). (cb, AnResponse rs)) calls"
    "mset (map (\<lambda>(rq, cb, rs). (rq, cb)) calls) = mset (lk_accepted wit_service_link)"
    "ss_calls_of wit_seven (map fst calls) 0 = (map (\<lambda>(rq, cb, rs). (rq, rs)) calls, snd (lk_server y))"
    using C [THEN conjunct2, THEN spec, THEN mp, OF conjI [OF y]] by blast
  show ?thesis using y(1) c(1) wit_service_link_answer [OF c(2,3)] by auto
qed

theorem link_answers_match_witness:
  "\<exists>y calls extra. cs_answers (lk_log y) = [(3, AnResponse [7])] \<and> cs_answers (lk_log y) = map (\<lambda>(rq, cb, rs). (cb, AnResponse rs)) calls \<and>
    ss_calls (lk_server_log (y :: (nat, nat) service_link)) = map (\<lambda>(rq, cb, rs). (rq, rs)) calls @ extra \<and> length extra \<le> 1"
proof -
  note C = lk_complete [OF wit_service_link_ok]
  obtain y where y: "(lk_moves wit_seven)\<^sup>*\<^sup>* wit_service_link y" "\<nexists>z. lk_moves wit_seven y z" using ends_somewhere [OF C [THEN conjunct1]] by blast
  then obtain calls where c: "cs_answers (lk_log y) = map (\<lambda>(rq, cb, rs). (cb, AnResponse rs)) calls"
    "mset (map (\<lambda>(rq, cb, rs). (rq, cb)) calls) = mset (lk_accepted wit_service_link)"
    "ss_calls_of wit_seven (map fst calls) 0 = (map (\<lambda>(rq, cb, rs). (rq, rs)) calls, snd (lk_server y))"
    using C [THEN conjunct2, THEN spec, THEN mp, OF conjI [OF y]] by blast
  have a: "cs_answers (lk_log y) = [(3, AnResponse [7])]" using c(1) wit_service_link_answer [OF c(2,3)] by simp
  have "lk_reachable wit_seven [(''h'', 5)] 0 y \<and> short_requests y"
    using y(1) by (induction rule: rtranclp_induct)
      (auto simp: wit_service_link_ok intro: lk_reachable.moves lk_moves_short)
  then have r: "lk_reachable wit_seven [(''h'', 5)] 0 y" "short_requests y" by blast+
  then show ?thesis using link_answers_match [OF r wit_service_link_ok(3)] a by blast
qed

end
