(* ===== verification/Service_Wire.thy ===== *)
theory Service_Wire
  imports Registration_Wire
begin

text \<open>
  \<open>ecal/core/src/serialization/ecal_struct_service.h\<close> (header, request and response of a service call) and
  \<open>ecal_serialize_service.cpp\<close> (the protozero implementation, the one in use). Payloads are bytes, other strings text.
\<close>

subsection \<open>The structs\<close>

datatype method_call_state = McsNone | McsExecuted | McsFailed | McsForeign i32

record service_header =
  shd_host_name :: string
  shd_service_name :: string
  shd_service_id :: string
  shd_method_name :: string
  shd_error :: string
  shd_id :: i32
  shd_state :: method_call_state

definition shd_new :: service_header where
  "shd_new = \<lparr>shd_host_name = [], shd_service_name = [], shd_service_id = [], shd_method_name = [], shd_error = [],
     shd_id = 0, shd_state = McsNone\<rparr>"

definition shd_clear :: "service_header \<Rightarrow> service_header" where
  "shd_clear h = h\<lparr>shd_host_name := [], shd_service_name := [], shd_service_id := [], shd_method_name := [],
     shd_error := [], shd_id := 0, shd_state := McsNone\<rparr>"

record service_request =
  srq_header :: service_header
  srq_request :: "u8 list"

definition srq_new :: service_request where
  "srq_new = \<lparr>srq_header = shd_new, srq_request = []\<rparr>"

definition srq_clear :: "service_request \<Rightarrow> service_request" where
  "srq_clear r = r\<lparr>srq_header := shd_clear (srq_header r), srq_request := []\<rparr>"

record service_response =
  srs_header :: service_header
  srs_response :: "u8 list"
  srs_ret_state :: i64

definition srs_new :: service_response where
  "srs_new = \<lparr>srs_header = shd_new, srs_response = [], srs_ret_state = 0\<rparr>"

definition srs_clear :: "service_response \<Rightarrow> service_response" where
  "srs_clear r = r\<lparr>srs_header := shd_clear (srs_header r), srs_response := [], srs_ret_state := 0\<rparr>"

fun mcs_num :: "method_call_state \<Rightarrow> int" where
  "mcs_num McsNone = 0"
| "mcs_num McsExecuted = 1"
| "mcs_num McsFailed = 2"
| "mcs_num (McsForeign n) = sint n"

definition mcs_of_num :: "int \<Rightarrow> method_call_state" where
  "mcs_of_num n = (if n = 0 then McsNone else if n = 1 then McsExecuted else if n = 2 then McsFailed else McsForeign (word_of_int n))"

definition mcs_ok :: "method_call_state \<Rightarrow> bool" where
  "mcs_ok e \<longleftrightarrow> mcs_of_num (mcs_num e) = e"

lemma mcs_num_inverse [simp]: "mcs_ok e \<Longrightarrow> mcs_of_num (sint (word_of_int (mcs_num e) :: i32)) = e"
  by (cases e) (simp_all add: mcs_of_num_def mcs_ok_def)

lemma mcs_ok_enumerator [simp]: "mcs_ok McsNone" "mcs_ok McsExecuted" "mcs_ok McsFailed"
  by (simp_all add: mcs_ok_def mcs_of_num_def)

subsection \<open>Writing\<close>

definition SerializeServiceHeader :: "'f pz \<Rightarrow> service_header \<Rightarrow> 'f list" where
  "SerializeServiceHeader z h =
     [z_add_string z 1 (shd_host_name h), z_add_string z 2 (shd_service_name h), z_add_string z 7 (shd_service_id h),
      z_add_string z 3 (shd_method_name h), z_add_string z 4 (shd_error h), z_add_int32 z 5 (shd_id h),
      add_enum z 6 (mcs_num (shd_state h))]"

definition SerializeServiceRequest :: "'f pz \<Rightarrow> service_request \<Rightarrow> 'f list" where
  "SerializeServiceRequest z r = z_add_message z 1 (SerializeServiceHeader z (srq_header r)) @ [z_add_view z 2 (srq_request r)]"

definition SerializeServiceResponse :: "'f pz \<Rightarrow> service_response \<Rightarrow> 'f list" where
  "SerializeServiceResponse z r =
     z_add_message z 1 (SerializeServiceHeader z (srs_header r)) @
     [z_add_view z 2 (srs_response r), z_add_int64 z 3 (srs_ret_state r)]"

definition RequestSerializeToBuffer :: "'f pz \<Rightarrow> service_request \<Rightarrow> u8 list" where
  "RequestSerializeToBuffer z r = z_data z (SerializeServiceRequest z r)"

definition ResponseSerializeToBuffer :: "'f pz \<Rightarrow> service_response \<Rightarrow> u8 list" where
  "ResponseSerializeToBuffer z r = z_data z (SerializeServiceResponse z r)"

subsection \<open>Reading\<close>

definition service_header_field :: "'f pz \<Rightarrow> 'f \<Rightarrow> service_header reading" where
  "service_header_field z f =
     (let t = z_tag z f in
      if t = 1 then AssignString z f (\<lambda>v. shd_host_name_update (\<lambda>_. v))
      else if t = 2 then AssignString z f (\<lambda>v. shd_service_name_update (\<lambda>_. v))
      else if t = 7 then AssignString z f (\<lambda>v. shd_service_id_update (\<lambda>_. v))
      else if t = 3 then AssignString z f (\<lambda>v. shd_method_name_update (\<lambda>_. v))
      else if t = 4 then AssignString z f (\<lambda>v. shd_error_update (\<lambda>_. v))
      else if t = 5 then rd_set (z_get_int32 z f) (\<lambda>v. shd_id_update (\<lambda>_. v))
      else if t = 6 then rd_enum (z_get_enum z f) mcs_of_num (\<lambda>v. shd_state_update (\<lambda>_. v))
      else rd_skip)"

definition DeserializeServiceHeader :: "'f pz \<Rightarrow> 'f pz_message \<Rightarrow> service_header reading" where
  "DeserializeServiceHeader z = rd_message (service_header_field z)"

definition service_request_field :: "'f pz \<Rightarrow> 'f \<Rightarrow> service_request reading" where
  "service_request_field z f =
     (let t = z_tag z f in
      if t = 1 then AssignMessage z f srq_header srq_header_update (DeserializeServiceHeader z)
      else if t = 2 then AssignBytes z f (\<lambda>v. srq_request_update (\<lambda>_. v))
      else rd_skip)"

definition DeserializeServiceRequest :: "'f pz \<Rightarrow> 'f pz_message \<Rightarrow> service_request reading" where
  "DeserializeServiceRequest z = rd_message (service_request_field z)"

definition service_response_field :: "'f pz \<Rightarrow> 'f \<Rightarrow> service_response reading" where
  "service_response_field z f =
     (let t = z_tag z f in
      if t = 1 then AssignMessage z f srs_header srs_header_update (DeserializeServiceHeader z)
      else if t = 2 then AssignBytes z f (\<lambda>v. srs_response_update (\<lambda>_. v))
      else if t = 3 then rd_set (z_get_int64 z f) (\<lambda>v. srs_ret_state_update (\<lambda>_. v))
      else rd_skip)"

definition DeserializeServiceResponse :: "'f pz \<Rightarrow> 'f pz_message \<Rightarrow> service_response reading" where
  "DeserializeServiceResponse z = rd_message (service_response_field z)"

text \<open>The target is cleared first.\<close>

definition RequestDeserializeFromBuffer :: "'f pz \<Rightarrow> u8 list \<Rightarrow> service_request reading" where
  "RequestDeserializeFromBuffer z bs r = DeserializeServiceRequest z (z_read z bs) (srq_clear r)"

definition ResponseDeserializeFromBuffer :: "'f pz \<Rightarrow> u8 list \<Rightarrow> service_response reading" where
  "ResponseDeserializeFromBuffer z bs r = DeserializeServiceResponse z (z_read z bs) (srs_clear r)"

subsection \<open>Round trip\<close>

lemma service_header_roundtrip [simp]:
  "pz_ok z \<Longrightarrow> mcs_ok (shd_state h) \<Longrightarrow> DeserializeServiceHeader z (SerializeServiceHeader z h, True) x = (RdOk, h)"
  by (cases h; cases x) (simp add: DeserializeServiceHeader_def SerializeServiceHeader_def service_header_field_def scalar_fields)

lemma service_header_nonempty [simp]: "SerializeServiceHeader z h \<noteq> []"
  by (simp add: SerializeServiceHeader_def)

lemma request_roundtrip:
  assumes "pz_ok z" and C: "mcs_ok (shd_state (srq_header r))"
  shows "RequestDeserializeFromBuffer z (RequestSerializeToBuffer z r) x = (RdOk, r)"
proof -
  have h: "rd_loop (service_request_field z) (z_add_message z 1 (SerializeServiceHeader z (srq_header r))) y =
      (RdOk, y\<lparr>srq_header := srq_header r\<rparr>)" for y
    by (rule rd_submessage [where get = srq_header and upd = srq_header_update and convert = "DeserializeServiceHeader z", OF assms(1)])
      (simp_all add: service_request_field_def assms)
  show ?thesis
    using assms by (simp add: RequestDeserializeFromBuffer_def RequestSerializeToBuffer_def DeserializeServiceRequest_def
        SerializeServiceRequest_def scalar_fields rd_loop_ok_append [OF h] service_request_field_def del: One_nat_def)
qed

lemma response_roundtrip:
  assumes "pz_ok z" and C: "mcs_ok (shd_state (srs_header r))"
  shows "ResponseDeserializeFromBuffer z (ResponseSerializeToBuffer z r) x = (RdOk, r)"
proof -
  have h: "rd_loop (service_response_field z) (z_add_message z 1 (SerializeServiceHeader z (srs_header r))) y =
      (RdOk, y\<lparr>srs_header := srs_header r\<rparr>)" for y
    by (rule rd_submessage [where get = srs_header and upd = srs_header_update and convert = "DeserializeServiceHeader z", OF assms(1)])
      (simp_all add: service_response_field_def assms)
  show ?thesis
    using assms by (simp add: ResponseDeserializeFromBuffer_def ResponseSerializeToBuffer_def DeserializeServiceResponse_def
        SerializeServiceResponse_def scalar_fields rd_loop_ok_append [OF h] service_response_field_def del: One_nat_def)
qed

end
