(* ===== verification/Service_Server.thy ===== *)
theory Service_Server
  imports Service_Wire Desc_Gate
begin

text \<open>
  \<open>ecal/core/src/service/ecal_service_server_impl.{h,cpp}\<close>: \<open>CServiceServerImpl\<close>, a service with its methods. The user's method
  callbacks are given by a function \<open>exec\<close> on a state of the user; a callback is a value of \<open>'cb\<close>, a null
  callback is \<open>None\<close>. The TCP server is known by its port.
\<close>

subsection \<open>State\<close>

text \<open>What the functions of \<open>Process\<close> return.\<close>

record process_names =
  pn_process_id :: i32
  pn_host_name :: string
  pn_process_name :: string
  pn_unit_name :: string

record 'cb server_method =
  svm_method :: service_method
  svm_callback :: "'cb option"

definition svm_new :: "'cb server_method" where
  "svm_new = \<lparr>svm_method = sm_new, svm_callback = None\<rparr>"

record 'cb service_server =
  srv_service_name :: string
  srv_server_id :: u64
  srv_service_id :: service_id
  srv_connected :: bool
  srv_created :: bool
  srv_method_map :: "(string, 'cb server_method) omap"
  srv_event_callback :: "'cb option"
  srv_tcp_server :: "u16 option"

definition server_version :: u32 where "server_version = 1"

datatype server_event = SeNone | SeConnected | SeDisconnected

datatype 'cb server_call =
    SrvRegisterSample sample
  | SrvUnregisterSample sample
  | SrvStopTcpServer
  | SrvEvent 'cb service_id server_event

definition srv_new :: "process_names \<Rightarrow> u64 \<Rightarrow> string \<Rightarrow> 'cb option \<Rightarrow> 'cb service_server" where
  "srv_new pn clock name event_callback =
     \<lparr>srv_service_name = name, srv_server_id = clock,
      srv_service_id = \<lparr>svi_service_id = \<lparr>ei_entity_id = clock, ei_process_id = pn_process_id pn, ei_host_name = pn_host_name pn\<rparr>,
        svi_service_name = name\<rparr>,
      srv_connected = False, srv_created = False, srv_method_map = [], srv_event_callback = event_callback, srv_tcp_server = None\<rparr>"

subsection \<open>Registration samples\<close>

definition srv_identifier :: "process_names \<Rightarrow> 'cb service_server \<Rightarrow> sample_identifier" where
  "srv_identifier pn s = \<lparr>si_entity_id = srv_server_id s, si_process_id = pn_process_id pn, si_host_name = pn_host_name pn\<rparr>"

definition srv_method_sample :: "string \<times> 'cb server_method \<Rightarrow> service_method" where
  "srv_method_sample e =
     (case e of (name, m) \<Rightarrow> (let method = svm_method m in
        sm_new\<lparr>sm_method_name := name,
          sm_req_type := sm_req_type method, sm_req_desc := sm_req_desc method,
          sm_resp_type := sm_resp_type method, sm_resp_desc := sm_resp_desc method,
          sm_request_datatype_information := sm_request_datatype_information method,
          sm_response_datatype_information := sm_response_datatype_information method,
          sm_call_count := sm_call_count method\<rparr>))"

definition srv_GetRegistrationSample :: "process_names \<Rightarrow> 'cb service_server \<Rightarrow> sample" where
  "srv_GetRegistrationSample pn s =
     (let smp = sa_new\<lparr>sa_cmd_type := BctRegService\<rparr>;
          server_tcp_port = (case srv_tcp_server s of None \<Rightarrow> 0 | Some port \<Rightarrow> port)
      in if server_tcp_port = 0 then smp
         else smp\<lparr>sa_identifier := srv_identifier pn s,
           sa_service := sv_new\<lparr>sv_version := server_version, sv_process_name := pn_process_name pn, sv_unit_name := pn_unit_name pn,
             sv_service_name := srv_service_name s, sv_tcp_port_v0 := 0, sv_tcp_port_v1 := ucast server_tcp_port,
             sv_methods := foldl (\<lambda>v e. ev_push_back v (srv_method_sample e)) ev_new (srv_method_map s)\<rparr>\<rparr>)"

definition srv_GetUnregistrationSample :: "process_names \<Rightarrow> 'cb service_server \<Rightarrow> sample" where
  "srv_GetUnregistrationSample pn s =
     sa_new\<lparr>sa_cmd_type := BctUnregService, sa_identifier := srv_identifier pn s,
       sa_service := sv_new\<lparr>sv_version := server_version, sv_process_name := pn_process_name pn, sv_unit_name := pn_unit_name pn,
         sv_service_name := srv_service_name s\<rparr>\<rparr>"

definition srv_GetRegistration :: "process_names \<Rightarrow> 'cb service_server \<Rightarrow> sample" where
  "srv_GetRegistration pn s = srv_GetRegistrationSample pn s"

subsection \<open>Start and stop\<close>

text \<open>
  \<open>manager\<close>: whether there is a server manager and it is not stopped; \<open>tcp\<close>: the server it creates, if it can;
  \<open>provider\<close>: whether there is a registration provider.
\<close>

definition srv_Start :: "process_names \<Rightarrow> bool \<Rightarrow> u16 option \<Rightarrow> bool \<Rightarrow> 'cb service_server \<Rightarrow> 'cb service_server \<times> 'cb server_call list" where
  "srv_Start pn manager tcp provider s =
     (if srv_created s then (s, [])
      else if \<not> manager then (s, [])
      else (let s = s\<lparr>srv_tcp_server := tcp\<rparr> in
        if tcp = None then (s, [])
        else (s\<lparr>srv_created := True\<rparr>, if provider then [SrvRegisterSample (srv_GetRegistrationSample pn s)] else [])))"

definition srv_CreateInstance :: "process_names \<Rightarrow> u64 \<Rightarrow> bool \<Rightarrow> u16 option \<Rightarrow> bool \<Rightarrow> string \<Rightarrow> 'cb option \<Rightarrow>
    'cb service_server \<times> 'cb server_call list" where
  "srv_CreateInstance pn clock manager tcp provider name event_callback =
     srv_Start pn manager tcp provider (srv_new pn clock name event_callback)"

definition srv_Stop :: "process_names \<Rightarrow> bool \<Rightarrow> 'cb service_server \<Rightarrow> 'cb service_server \<times> 'cb server_call list" where
  "srv_Stop pn provider s =
     (if \<not> srv_created s then (s, [])
      else (let s' = s\<lparr>srv_tcp_server := None, srv_method_map := [], srv_event_callback := None\<rparr>
        in (s'\<lparr>srv_created := False\<rparr>,
            (if srv_tcp_server s \<noteq> None then [SrvStopTcpServer] else []) @
            (if provider then [SrvUnregisterSample (srv_GetUnregistrationSample pn s')] else []))))"

text \<open>\<open>connected\<close> is what the TCP server says.\<close>

definition srv_IsConnected :: "bool \<Rightarrow> 'cb service_server \<Rightarrow> bool" where
  "srv_IsConnected connected s \<longleftrightarrow> (if \<not> srv_created s then False else srv_tcp_server s \<noteq> None \<and> connected)"

definition srv_NotifyEventCallback :: "service_id \<Rightarrow> server_event \<Rightarrow> 'cb service_server \<Rightarrow> 'cb server_call list" where
  "srv_NotifyEventCallback service_id event_type s =
     (case srv_event_callback s of None \<Rightarrow> [] | Some cb \<Rightarrow> [SrvEvent cb service_id event_type])"

text \<open>The callback the TCP server is given: process id and host name are left empty.\<close>

definition srv_event :: "bool \<Rightarrow> 'cb service_server \<Rightarrow> 'cb server_call list" where
  "srv_event connected s =
     srv_NotifyEventCallback
       \<lparr>svi_service_id = \<lparr>ei_entity_id = srv_server_id s, ei_process_id = 0, ei_host_name = []\<rparr>, svi_service_name = srv_service_name s\<rparr>
       (if connected then SeConnected else SeDisconnected) s"

subsection \<open>Methods\<close>

definition srv_update_types :: "method_info \<Rightarrow> service_method \<Rightarrow> service_method" where
  "srv_update_types i m =
     (let m = m\<lparr>sm_req_type := dti_name (mi_request_type i), sm_resp_type := dti_name (mi_response_type i)\<rparr>;
          m = (if dti_descriptor (mi_request_type i) \<noteq> [] then m\<lparr>sm_req_desc := dti_descriptor (mi_request_type i)\<rparr> else m);
          m = (if dti_descriptor (mi_response_type i) \<noteq> [] then m\<lparr>sm_resp_desc := dti_descriptor (mi_response_type i)\<rparr> else m);
          rq = (sm_request_datatype_information m)\<lparr>dti_name := dti_name (mi_request_type i)\<rparr>;
          rs = (sm_response_datatype_information m)\<lparr>dti_name := dti_name (mi_response_type i)\<rparr>;
          rq = (if dti_encoding (mi_request_type i) \<noteq> [] then rq\<lparr>dti_encoding := dti_encoding (mi_request_type i)\<rparr> else rq);
          rs = (if dti_encoding (mi_response_type i) \<noteq> [] then rs\<lparr>dti_encoding := dti_encoding (mi_response_type i)\<rparr> else rs);
          rq = (if dti_descriptor (mi_request_type i) \<noteq> [] then rq\<lparr>dti_descriptor := dti_descriptor (mi_request_type i)\<rparr> else rq);
          rs = (if dti_descriptor (mi_response_type i) \<noteq> [] then rs\<lparr>dti_descriptor := dti_descriptor (mi_response_type i)\<rparr> else rs)
      in m\<lparr>sm_request_datatype_information := rq, sm_response_datatype_information := rs\<rparr>)"

definition srv_SetMethodCallback :: "method_info \<Rightarrow> 'cb option \<Rightarrow> 'cb service_server \<Rightarrow> bool \<times> 'cb service_server" where
  "srv_SetMethodCallback i callback s =
     (let name = mi_method_name i;
          m = (case om_find id (srv_method_map s) name of
                 Some m \<Rightarrow> m
               | None \<Rightarrow> svm_new\<lparr>svm_method := sm_new\<lparr>sm_method_name := name\<rparr>\<rparr>);
          m = m\<lparr>svm_method := srv_update_types i (svm_method m)\<rparr>;
          m = (if callback \<noteq> None then m\<lparr>svm_callback := callback\<rparr> else m)
      in (True, s\<lparr>srv_method_map := om_set id (srv_method_map s) name m\<rparr>))"

definition srv_RemoveMethodCallback :: "string \<Rightarrow> 'cb service_server \<Rightarrow> bool \<times> 'cb service_server" where
  "srv_RemoveMethodCallback name s =
     (case om_find id (srv_method_map s) name of
        Some _ \<Rightarrow> (True, s\<lparr>srv_method_map := om_erase id (srv_method_map s) name\<rparr>)
      | None \<Rightarrow> (False, s))"

subsection \<open>Requests\<close>

text \<open>
  Calling a null callback throws \<open>std::bad_function_call\<close>, which nothing catches.
\<close>

datatype request_error = BadFunctionCall

type_synonym ('cb, 'w) method_exec = "'cb \<Rightarrow> method_info \<Rightarrow> u8 list \<Rightarrow> 'w \<Rightarrow> (i32 \<times> u8 list) \<times> 'w"

definition srv_response_header :: "process_names \<Rightarrow> 'cb service_server \<Rightarrow> service_header" where
  "srv_response_header pn s = shd_new\<lparr>shd_host_name := pn_host_name pn, shd_service_name := srv_service_name s,
     shd_service_id := str_u64 (srv_server_id s)\<rparr>"

definition srv_parse_error :: "string \<Rightarrow> string" where
  "srv_parse_error name = ''Service '' @ [CHR 0x27] @ name @ [CHR 0x27] @ '' request message could not be parsed.''"

definition srv_no_method_error :: "string \<Rightarrow> string \<Rightarrow> string" where
  "srv_no_method_error name method =
     ''CServiceServerImpl: Service '' @ [CHR 0x27] @ name @ [CHR 0x27] @ '' has no method named '' @ [CHR 0x27] @ method @ [CHR 0x27]"

definition srv_method_info :: "'cb server_method \<Rightarrow> method_info" where
  "srv_method_info m = \<lparr>mi_method_name = sm_method_name (svm_method m),
     mi_request_type = sm_request_datatype_information (svm_method m),
     mi_response_type = sm_response_datatype_information (svm_method m)\<rparr>"

definition svm_count :: "'cb server_method \<Rightarrow> 'cb server_method" where
  "svm_count m = m\<lparr>svm_method := (svm_method m)\<lparr>sm_call_count := sm_call_count (svm_method m) + 1\<rparr>\<rparr>"

definition srv_RequestCallback :: "'f pz \<Rightarrow> ('cb, 'w) method_exec \<Rightarrow> process_names \<Rightarrow> u8 list \<Rightarrow> 'cb service_server \<times> 'w \<Rightarrow>
    request_error + (int \<times> u8 list) \<times> 'cb service_server \<times> 'w" where
  "srv_RequestCallback z exec pn request_pb x =
     (case x of (s, w) \<Rightarrow>
        let header = srv_response_header pn s in
        case RequestDeserializeFromBuffer z request_pb srq_new of
          (RdException, _) \<Rightarrow>
            Inr ((- 1, ResponseSerializeToBuffer z
                   (srs_new\<lparr>srs_header := header\<lparr>shd_state := McsFailed, shd_error := srv_parse_error (srv_service_name s)\<rparr>\<rparr>)), s, w)
        | (RdOk, request) \<Rightarrow>
            (let name = shd_method_name (srq_header request); header = header\<lparr>shd_method_name := name\<rparr> in
             case om_find id (srv_method_map s) name of
               None \<Rightarrow>
                 Inr ((0, ResponseSerializeToBuffer z
                        (srs_new\<lparr>srs_header := header\<lparr>shd_state := McsFailed, shd_error := srv_no_method_error (srv_service_name s) name\<rparr>\<rparr>)), s, w)
             | Some m \<Rightarrow>
                 (let m = svm_count m; s = s\<lparr>srv_method_map := om_set id (srv_method_map s) name m\<rparr> in
                  case svm_callback m of
                    None \<Rightarrow> Inl BadFunctionCall
                  | Some cb \<Rightarrow>
                      (let ((service_return_state, response), w) = exec cb (srv_method_info m) (srq_request request) w in
                       Inr ((0, ResponseSerializeToBuffer z
                              \<lparr>srs_header = header\<lparr>shd_state := McsExecuted\<rparr>, srs_response = response, srs_ret_state = scast service_return_state\<rparr>),
                            s, w)))))"

subsection \<open>What the operations do\<close>

definition srv_inv :: "'cb service_server \<Rightarrow> bool" where
  "srv_inv s \<longleftrightarrow> om_invar id (srv_method_map s) \<and> (\<forall>(name, m) \<in> set (srv_method_map s). sm_method_name (svm_method m) = name)"

lemma srv_update_types_name [simp]: "sm_method_name (srv_update_types i m) = sm_method_name m"
  by (simp add: srv_update_types_def Let_def)

lemma srv_inv_new: "srv_inv (srv_new pn clock name cb)"
  by (simp add: srv_inv_def srv_new_def om_invar_def)

lemma srv_inv_set:
  assumes "srv_inv s" "sm_method_name (svm_method m) = name"
  shows "srv_inv (s\<lparr>srv_method_map := om_set id (srv_method_map s) name m\<rparr>)"
proof -
  have "set (om_set id mp name m) \<subseteq> insert (name, m) (set mp)" for mp :: "(string, 'a server_method) omap"
    by (induction mp) (auto split: if_splits)
  then show ?thesis using assms by (fastforce simp: srv_inv_def om_invar_set)
qed

lemma srv_inv_find: "srv_inv s \<Longrightarrow> om_find id (srv_method_map s) name = Some m \<Longrightarrow> sm_method_name (svm_method m) = name"
  unfolding srv_inv_def using om_find_in_set [of id "srv_method_map s" name m] by auto

lemma srv_inv_SetMethodCallback: "srv_inv s \<Longrightarrow> srv_inv (snd (srv_SetMethodCallback i cb s))"
  by (auto simp: srv_SetMethodCallback_def Let_def sm_new_def srv_inv_find intro!: srv_inv_set split: option.splits)

lemma srv_inv_RemoveMethodCallback: "srv_inv s \<Longrightarrow> srv_inv (snd (srv_RemoveMethodCallback name s))"
proof -
  have "set (om_erase id mp name) \<subseteq> set mp" for mp :: "(string, 'a server_method) omap"
    by (induction mp) (auto split: if_splits)
  then show "srv_inv s \<Longrightarrow> srv_inv (snd (srv_RemoveMethodCallback name s))"
    by (fastforce simp: srv_RemoveMethodCallback_def srv_inv_def om_invar_erase split: option.splits)
qed

text \<open>Setting a callback twice keeps the descriptions that the second call leaves empty, and the callback if the second is null.\<close>

lemma srv_find_SetMethodCallback:
  "om_find id (srv_method_map (snd (srv_SetMethodCallback i cb s))) name =
     (if name = mi_method_name i
      then (let m = (case om_find id (srv_method_map s) name of Some m \<Rightarrow> m | None \<Rightarrow> svm_new\<lparr>svm_method := sm_new\<lparr>sm_method_name := name\<rparr>\<rparr>)
            in Some \<lparr>svm_method = srv_update_types i (svm_method m), svm_callback = if cb = None then svm_callback m else cb\<rparr>)
      else om_find id (srv_method_map s) name)"
  by (auto simp: srv_SetMethodCallback_def Let_def om_find_set split: option.splits)

subsection \<open>The three answers to a request\<close>

definition srv_request :: "string \<Rightarrow> u8 list \<Rightarrow> service_request" where
  "srv_request name request = srq_new\<lparr>srq_header := shd_new\<lparr>shd_method_name := name\<rparr>, srq_request := request\<rparr>"

lemma srv_request_fields [simp]: "shd_method_name (srq_header (srv_request name request)) = name" "srq_request (srv_request name request) = request"
  "shd_state (srq_header (srv_request name request)) = McsNone"
  by (simp_all add: srv_request_def shd_new_def)

lemma srv_request_executed:
  assumes "pz_ok z" "om_find id (srv_method_map s) name = Some m" "svm_callback m = Some cb"
    "exec cb (srv_method_info m) request w = ((ret, response), w')"
  shows "srv_RequestCallback z exec pn (RequestSerializeToBuffer z (srv_request name request)) (s, w) =
    Inr ((0, ResponseSerializeToBuffer z \<lparr>srs_header = (srv_response_header pn s)\<lparr>shd_method_name := name, shd_state := McsExecuted\<rparr>,
            srs_response = response, srs_ret_state = scast ret\<rparr>),
         s\<lparr>srv_method_map := om_set id (srv_method_map s) name (svm_count m)\<rparr>, w')"
  using assms by (simp add: srv_RequestCallback_def request_roundtrip Let_def svm_count_def srv_method_info_def)

lemma srv_request_unknown:
  assumes "pz_ok z" "om_find id (srv_method_map s) name = None"
  shows "srv_RequestCallback z exec pn (RequestSerializeToBuffer z (srv_request name request)) (s, w) =
    Inr ((0, ResponseSerializeToBuffer z (srs_new\<lparr>srs_header := (srv_response_header pn s)\<lparr>shd_method_name := name,
            shd_state := McsFailed, shd_error := srv_no_method_error (srv_service_name s) name\<rparr>\<rparr>)), s, w)"
  using assms by (simp add: srv_RequestCallback_def request_roundtrip Let_def)

lemma srv_request_null:
  assumes "pz_ok z" "om_find id (srv_method_map s) name = Some m" "svm_callback m = None"
  shows "srv_RequestCallback z exec pn (RequestSerializeToBuffer z (srv_request name request)) (s, w) = Inl BadFunctionCall"
  using assms by (simp add: srv_RequestCallback_def request_roundtrip Let_def svm_count_def)

text \<open>Bytes that are no request: the failure is answered, no method is called.\<close>

lemma srv_request_unparsable:
  "fst (RequestDeserializeFromBuffer z bs srq_new) = RdException \<Longrightarrow>
    \<exists>response. srv_RequestCallback z exec pn bs (s, w) = Inr ((- 1, response), s, w)"
  by (cases "RequestDeserializeFromBuffer z bs srq_new") (simp add: srv_RequestCallback_def Let_def)

text \<open>
  C37. A method that is only described, with a null callback, which \<open>SetMethodCallback\<close> accepts with success, is a
  method for \<open>RequestCallback\<close>: the first request for it, from any client, calls the null callback, and the
  exception ends the process, since the thread that runs the callbacks catches nothing.
\<close>

theorem described_method_throws:
  assumes "pz_ok z" "om_find id (srv_method_map s) (mi_method_name i) = None"
  shows "fst (srv_SetMethodCallback i None s) = True \<and>
    srv_RequestCallback z exec pn (RequestSerializeToBuffer z (srv_request (mi_method_name i) request))
      (snd (srv_SetMethodCallback i None s), w) = Inl BadFunctionCall"
proof -
  have "om_find id (srv_method_map (snd (srv_SetMethodCallback i None s))) (mi_method_name i) =
      Some \<lparr>svm_method = srv_update_types i (sm_new\<lparr>sm_method_name := mi_method_name i\<rparr>), svm_callback = None\<rparr>"
    using assms(2) by (simp add: srv_find_SetMethodCallback svm_new_def)
  from srv_request_null [OF assms(1) this] show ?thesis by (simp add: srv_SetMethodCallback_def Let_def)
qed

definition wit_names :: process_names where
  "wit_names = \<lparr>pn_process_id = 7, pn_host_name = ''h'', pn_process_name = ''p'', pn_unit_name = ''u''\<rparr>"

definition wit_method :: "string \<Rightarrow> method_info" where
  "wit_method name = \<lparr>mi_method_name = name, mi_request_type = dti_new, mi_response_type = dti_new\<rparr>"

theorem described_method_throws_witness:
  "srv_RequestCallback wire_pz (\<lambda>cb i rq (w :: nat). ((0, rq), w)) wit_names (RequestSerializeToBuffer wire_pz (srv_request ''m'' [1]))
     (snd (srv_SetMethodCallback (wit_method ''m'') None (srv_new wit_names 1 ''s'' (None :: nat option))), 0) = Inl BadFunctionCall"
proof -
  have "om_find id (srv_method_map (srv_new wit_names 1 ''s'' (None :: nat option))) (mi_method_name (wit_method ''m'')) = None"
    by (simp add: srv_new_def)
  from described_method_throws [OF wire_pz_ok this, THEN conjunct2] show ?thesis by (simp add: wit_method_def)
qed

end
