(* ===== verification/Service_Client.thy ===== *)
theory Service_Client
  imports Service_Server Server_Session Pub_Sub_Gates
begin

text \<open>
  \<open>ecal/core/src/service/ecal_service_client_impl.{h,cpp}\<close>: \<open>CServiceClientImpl\<close>, a client with a session for
  each service of its name it has heard of; \<open>ecal_clientgate.cpp\<close> and \<open>ecal_servicegate.cpp\<close>. A session is
  a number; its state is asked from the function \<open>st\<close>, and what a call of it leads to is an argument.
\<close>

subsection \<open>State\<close>

text \<open>\<open>v5::SServiceAttr\<close>.\<close>

record service_attr =
  sva_key :: string
  sva_hname :: string
  sva_pname :: string
  sva_uname :: string
  sva_sname :: string
  sva_sid :: u64
  sva_pid :: i32
  sva_version :: u32
  sva_tcp_port_v0 :: u16
  sva_tcp_port_v1 :: u16

definition sva_new :: service_attr where
  "sva_new = \<lparr>sva_key = [], sva_hname = [], sva_pname = [], sva_uname = [], sva_sname = [], sva_sid = 0, sva_pid = 0,
     sva_version = 0, sva_tcp_port_v0 = 0, sva_tcp_port_v1 = 0\<rparr>"

record sclient =
  scl_service_attr :: service_attr
  scl_client_session :: nat
  scl_connected :: bool

datatype client_event = CeConnected | CeDisconnected

datatype 'cb client_call =
    SvcRegisterSample sample
  | SvcUnregisterSample sample
  | SvcCreateSession u8 "(string \<times> u16) list"
  | SvcAsyncCall nat "u8 list"
  | SvcEvent 'cb service_id client_event
  | SvcLogWarning string

record 'cb service_client =
  svc_service_name :: string
  svc_client_id :: u64
  svc_service_id :: service_id
  svc_session_map :: "(entity_id, sclient) omap"
  svc_method_information_set :: "method_info oset"
  svc_method_call_count_map :: "(string, u64) omap"
  svc_event_callback :: "'cb option"

definition client_version :: u32 where "client_version = 1"

subsection \<open>Registration samples\<close>

definition svc_identifier :: "process_names \<Rightarrow> 'cb service_client \<Rightarrow> sample_identifier" where
  "svc_identifier pn c = \<lparr>si_entity_id = svc_client_id c, si_process_id = pn_process_id pn, si_host_name = pn_host_name pn\<rparr>"

definition svc_method_sample :: "'cb service_client \<Rightarrow> method_info \<Rightarrow> service_method" where
  "svc_method_sample c i =
     sm_new\<lparr>sm_method_name := mi_method_name i,
       sm_req_type := dti_name (mi_request_type i), sm_req_desc := dti_descriptor (mi_request_type i),
       sm_resp_type := dti_name (mi_response_type i), sm_resp_desc := dti_descriptor (mi_response_type i),
       sm_request_datatype_information := mi_request_type i, sm_response_datatype_information := mi_response_type i,
       sm_call_count := (case om_find id (svc_method_call_count_map c) (mi_method_name i) of Some n \<Rightarrow> n | None \<Rightarrow> 0)\<rparr>"

definition svc_GetRegistrationSample :: "process_names \<Rightarrow> 'cb service_client \<Rightarrow> sample" where
  "svc_GetRegistrationSample pn c =
     sa_new\<lparr>sa_cmd_type := BctRegClient, sa_identifier := svc_identifier pn c,
       sa_client := cl_new\<lparr>cl_version := client_version, cl_process_name := pn_process_name pn, cl_unit_name := pn_unit_name pn,
         cl_service_name := svc_service_name c,
         cl_methods := foldl (\<lambda>v i. ev_push_back v (svc_method_sample c i)) ev_new (os_elems (svc_method_information_set c))\<rparr>\<rparr>"

definition svc_GetUnregistrationSample :: "process_names \<Rightarrow> 'cb service_client \<Rightarrow> sample" where
  "svc_GetUnregistrationSample pn c =
     sa_new\<lparr>sa_cmd_type := BctUnregClient, sa_identifier := svc_identifier pn c,
       sa_client := cl_new\<lparr>cl_version := client_version, cl_process_name := pn_process_name pn, cl_unit_name := pn_unit_name pn,
         cl_service_name := svc_service_name c\<rparr>\<rparr>"

subsection \<open>Construction and destruction\<close>

definition svc_new :: "process_names \<Rightarrow> u64 \<Rightarrow> bool \<Rightarrow> string \<Rightarrow> method_info oset \<Rightarrow> 'cb option \<Rightarrow> 'cb service_client \<times> 'cb client_call list" where
  "svc_new pn clock provider name methods event_callback =
     (let c = \<lparr>svc_service_name = name, svc_client_id = clock,
            svc_service_id = \<lparr>svi_service_id = \<lparr>ei_entity_id = clock, ei_process_id = pn_process_id pn, ei_host_name = pn_host_name pn\<rparr>,
              svi_service_name = name\<rparr>,
            svc_session_map = [], svc_method_information_set = methods,
            svc_method_call_count_map = foldl (\<lambda>m i. om_set id m (mi_method_name i) 0) [] (os_elems methods),
            svc_event_callback = event_callback\<rparr>
      in (c, if name \<noteq> [] \<and> provider then [SvcRegisterSample (svc_GetRegistrationSample pn c)] else []))"

definition svc_destroy :: "process_names \<Rightarrow> bool \<Rightarrow> 'cb service_client \<Rightarrow> 'cb service_client \<times> 'cb client_call list" where
  "svc_destroy pn provider c =
     (let c = c\<lparr>svc_session_map := [], svc_event_callback := None\<rparr>
      in (c, if provider then [SvcUnregisterSample (svc_GetUnregistrationSample pn c)] else []))"

definition svc_GetServiceIDs :: "'cb service_client \<Rightarrow> entity_id list" where
  "svc_GetServiceIDs c = map fst (svc_session_map c)"

definition svc_IsConnected :: "entity_id \<Rightarrow> 'cb service_client \<Rightarrow> bool" where
  "svc_IsConnected e c \<longleftrightarrow> (case om_find ei_entity_id (svc_session_map c) e of Some s \<Rightarrow> scl_connected s | None \<Rightarrow> False)"

definition svc_GetClientByEntity :: "entity_id \<Rightarrow> 'cb service_client \<Rightarrow> sclient option" where
  "svc_GetClientByEntity e c = om_find ei_entity_id (svc_session_map c) e"

subsection \<open>Services and their sessions\<close>

text \<open>\<open>manager\<close>: there is a client manager and it is not stopped; \<open>session\<close>: the session it creates.\<close>

definition svc_RegisterService :: "bool \<Rightarrow> nat option \<Rightarrow> entity_id \<Rightarrow> service_attr \<Rightarrow> 'cb service_client \<Rightarrow>
    'cb service_client \<times> 'cb client_call list" where
  "svc_RegisterService manager session e service c =
     (if om_find ei_entity_id (svc_session_map c) e \<noteq> None then (c, [])
      else if \<not> manager then (c, [])
      else (let port_to_use = sva_tcp_port_v1 service;
                endpoint_list = [(sva_hname service, port_to_use), (sva_hname service @ ''.local'', port_to_use)]
       in ((case session of
              None \<Rightarrow> c
            | Some r \<Rightarrow> c\<lparr>svc_session_map := om_set ei_entity_id (svc_session_map c) e
                \<lparr>scl_service_attr = service, scl_client_session = r, scl_connected = False\<rparr>\<rparr>),
           [SvcCreateSession 1 endpoint_list])))"

definition svc_NotifyEventCallback :: "service_id \<Rightarrow> client_event \<Rightarrow> 'cb service_client \<Rightarrow> 'cb client_call list" where
  "svc_NotifyEventCallback service_id event_type c =
     (case svc_event_callback c of None \<Rightarrow> [] | Some cb \<Rightarrow> [SvcEvent cb service_id event_type])"

definition scl_service_id :: "'cb service_client \<Rightarrow> sclient \<Rightarrow> service_id" where
  "scl_service_id c s = \<lparr>svi_service_id = \<lparr>ei_entity_id = sva_sid (scl_service_attr s), ei_process_id = sva_pid (scl_service_attr s),
     ei_host_name = sva_hname (scl_service_attr s)\<rparr>, svi_service_name = svc_service_name c\<rparr>"

text \<open>The loop of \<open>UpdateConnectionStates\<close> over the map: what is left of it and the callbacks.\<close>

fun svc_update_sessions :: "(nat \<Rightarrow> session_state) \<Rightarrow> 'cb service_client \<Rightarrow> (entity_id, sclient) omap \<Rightarrow>
    (entity_id, sclient) omap \<times> 'cb client_call list" where
  "svc_update_sessions st c [] = ([], [])"
| "svc_update_sessions st c ((e, s) # m) =
     (let state = st (scl_client_session s); (m', es) = svc_update_sessions st c m in
      if \<not> scl_connected s \<and> state = SsConnected
      then ((e, s\<lparr>scl_connected := True\<rparr>) # m', svc_NotifyEventCallback (scl_service_id c s) CeConnected c @ es)
      else if scl_connected s \<and> state = SsFailed
      then (m', svc_NotifyEventCallback (scl_service_id c s) CeDisconnected c @ es)
      else ((e, s) # m', es))"

definition svc_UpdateConnectionStates :: "(nat \<Rightarrow> session_state) \<Rightarrow> 'cb service_client \<Rightarrow> 'cb service_client \<times> 'cb client_call list" where
  "svc_UpdateConnectionStates st c =
     (let (m, es) = svc_update_sessions st c (svc_session_map c) in (c\<lparr>svc_session_map := m\<rparr>, es))"

definition svc_GetRegistration :: "process_names \<Rightarrow> (nat \<Rightarrow> session_state) \<Rightarrow> 'cb service_client \<Rightarrow>
    sample \<times> 'cb service_client \<times> 'cb client_call list" where
  "svc_GetRegistration pn st c = (let (c, es) = svc_UpdateConnectionStates st c in (svc_GetRegistrationSample pn c, c, es))"

subsection \<open>Calls\<close>

datatype call_state = CaNone | CaExecuted | CaTimeouted | CaFailed

text \<open>\<open>SServiceResponse\<close>.\<close>

record call_response =
  car_call_state :: call_state
  car_server_id :: service_id
  car_method :: method_info
  car_ret_state :: i32
  car_response :: "u8 list"
  car_error_msg :: string

definition car_new :: call_response where
  "car_new = \<lparr>car_call_state = CaNone,
     car_server_id = \<lparr>svi_service_id = \<lparr>ei_entity_id = 0, ei_process_id = 0, ei_host_name = []\<rparr>, svi_service_name = []\<rparr>,
     car_method = \<lparr>mi_method_name = [], mi_request_type = dti_new, mi_response_type = dti_new\<rparr>,
     car_ret_state = 0, car_response = [], car_error_msg = []\<rparr>"

definition SerializeRequest :: "'f pz \<Rightarrow> string \<Rightarrow> u8 list \<Rightarrow> u8 list" where
  "SerializeRequest z name request =
     RequestSerializeToBuffer z (srq_new\<lparr>srq_header := shd_new\<lparr>shd_method_name := name\<rparr>, srq_request := request\<rparr>)"

definition CreateErrorResponse :: "entity_id \<Rightarrow> string \<Rightarrow> string \<Rightarrow> string \<Rightarrow> call_response" where
  "CreateErrorResponse e service_name name message =
     car_new\<lparr>car_server_id := \<lparr>svi_service_id = e, svi_service_name = service_name\<rparr>,
       car_method := (car_method car_new)\<lparr>mi_method_name := name\<rparr>,
       car_error_msg := message, car_ret_state := 0, car_call_state := CaFailed\<rparr>"

definition PrepareInitialResponse :: "sclient \<Rightarrow> string \<Rightarrow> bool \<times> call_response" where
  "PrepareInitialResponse s name =
     (let a = scl_service_attr s in
      (False, car_new\<lparr>car_server_id := \<lparr>svi_service_id = \<lparr>ei_entity_id = sva_sid a, ei_process_id = sva_pid a, ei_host_name = sva_hname a\<rparr>,
          svi_service_name = sva_sname a\<rparr>,
        car_method := (car_method car_new)\<lparr>mi_method_name := name\<rparr>, car_call_state := CaNone\<rparr>))"

definition DeserializedResponse :: "'f pz \<Rightarrow> sclient \<Rightarrow> u8 list \<Rightarrow> call_response" where
  "DeserializedResponse z s response_pb =
     (case ResponseDeserializeFromBuffer z response_pb srs_new of
        (RdOk, response) \<Rightarrow>
          (let h = srs_header response; a = scl_service_attr s in
           car_new\<lparr>car_server_id := \<lparr>svi_service_id = \<lparr>ei_entity_id = sva_sid a, ei_process_id = sva_pid a,
                 ei_host_name = shd_host_name h\<rparr>, svi_service_name = shd_service_name h\<rparr>,
               car_method := (car_method car_new)\<lparr>mi_method_name := shd_method_name h\<rparr>,
               car_error_msg := shd_error h, car_ret_state := scast (srs_ret_state response),
               car_call_state := (case shd_state h of McsExecuted \<Rightarrow> CaExecuted | McsFailed \<Rightarrow> CaFailed | _ \<Rightarrow> car_call_state car_new),
               car_response := srs_response response\<rparr>)
      | (RdException, _) \<Rightarrow>
          car_new\<lparr>car_error_msg := ''Could not parse server response'', car_ret_state := 0, car_call_state := CaFailed, car_response := []\<rparr>)"

text \<open>The answer of the session: an error with its text, or a response.\<close>

datatype session_answer = SaError string | SaResponse "u8 list"

text \<open>\<open>CreateResponseCallback\<close>: what the callback makes of the response data.\<close>

definition svc_answer :: "'f pz \<Rightarrow> sclient \<Rightarrow> session_answer \<Rightarrow> bool \<times> call_response \<Rightarrow> bool \<times> call_response" where
  "svc_answer z s answer response =
     (case answer of
        SaError message \<Rightarrow> (False, (snd response)\<lparr>car_error_msg := message, car_call_state := CaFailed, car_ret_state := 0\<rparr>)
      | SaResponse bytes \<Rightarrow> (True, DeserializedResponse z s bytes))"

definition svc_IncrementMethodCallCount :: "string \<Rightarrow> 'cb service_client \<Rightarrow> 'cb service_client" where
  "svc_IncrementMethodCallCount name c =
     (let (n, m) = om_access id (svc_method_call_count_map c) name 0
      in c\<lparr>svc_method_call_count_map := om_set id m name (n + 1)\<rparr>)"

text \<open>
  \<open>accepted\<close> is the result of \<open>async_call_service\<close>; \<open>answer\<close> is the answer of the session, if there is one before the
  timeout (without a timeout: at all). \<open>None\<close>: the call does not return.
\<close>

definition svc_CallMethodWithTimeout :: "'f pz \<Rightarrow> bool \<Rightarrow> session_answer option \<Rightarrow> entity_id \<Rightarrow> sclient \<Rightarrow> string \<Rightarrow> u8 list \<Rightarrow> int \<Rightarrow>
    'cb service_client \<Rightarrow> ((bool \<times> call_response) \<times> 'cb service_client \<times> 'cb client_call list) option" where
  "svc_CallMethodWithTimeout z accepted answer e s name request timeout c =
     (if name = [] then Some ((False, car_new), c, [])
      else (let calls = [SvcAsyncCall (scl_client_session s) (SerializeRequest z name request)];
                data = PrepareInitialResponse s name
       in if \<not> accepted then Some ((False, CreateErrorResponse e (svc_service_name c) name ''Call failed''), c, calls)
          else (let result =
                 (case answer of
                    Some a \<Rightarrow> Some (svc_answer z s a data)
                  | None \<Rightarrow> (if timeout > 0 then Some (False, (snd data)\<lparr>car_error_msg := ''Timeout'', car_call_state := CaTimeouted\<rparr>) else None))
           in map_option (\<lambda>r. (r, svc_IncrementMethodCallCount name c, calls)) result)))"

text \<open>
  The blocking and the asynchronous call. For an entity without a session the text of the log message is \<open>literal + entity_id\<close>,
  which is no concatenation: it is the address of the literal plus the id, from where a string is read. Up to the terminating null
  character this gives a tail of the literal; behind it the behaviour is undefined.
\<close>

datatype call_error = UndefinedBehaviour | NoReturn

definition literal_tail :: "string \<Rightarrow> u64 \<Rightarrow> string option" where
  "literal_tail text n = (if unat n \<le> length text then Some (drop (unat n) text) else None)"

definition svc_unknown_text :: string where
  "svc_unknown_text = ''CServiceClientImpl::CallWithCallback: Failed to find client for entity ID: ''"

definition svc_unknown_async_text :: string where
  "svc_unknown_async_text = ''CServiceClientImpl::CallWithCallbackAsync: Failed to find client for entity ID: ''"

definition svc_unknown :: "string \<Rightarrow> entity_id \<Rightarrow> 'r \<Rightarrow> 'cb service_client \<Rightarrow> call_error + 'r \<times> 'cb service_client \<times> 'cb client_call list" where
  "svc_unknown text e r c =
     (case literal_tail text (ei_entity_id e) of
        None \<Rightarrow> Inl UndefinedBehaviour
      | Some message \<Rightarrow> Inr (r, c, [SvcLogWarning message]))"

definition svc_CallWithCallback :: "'f pz \<Rightarrow> bool \<Rightarrow> session_answer option \<Rightarrow> entity_id \<Rightarrow> string \<Rightarrow> u8 list \<Rightarrow> int \<Rightarrow>
    'cb service_client \<Rightarrow> call_error + (bool \<times> call_response) \<times> 'cb service_client \<times> 'cb client_call list" where
  "svc_CallWithCallback z accepted answer e name request timeout_ms c =
     (case svc_GetClientByEntity e c of
        None \<Rightarrow> svc_unknown svc_unknown_text e (False, car_new) c
      | Some s \<Rightarrow> (case svc_CallMethodWithTimeout z accepted answer e s name request (timeout_ms * 1000000) c of
           None \<Rightarrow> Inl NoReturn
         | Some r \<Rightarrow> Inr r))"

text \<open>The result of the asynchronous call; the second component is an error response passed to the callback at once.\<close>

definition svc_CallWithCallbackAsync :: "'f pz \<Rightarrow> bool \<Rightarrow> entity_id \<Rightarrow> string \<Rightarrow> u8 list \<Rightarrow> 'cb service_client \<Rightarrow>
    call_error + (bool \<times> call_response option) \<times> 'cb service_client \<times> 'cb client_call list" where
  "svc_CallWithCallbackAsync z accepted e name request c =
     (case svc_GetClientByEntity e c of
        None \<Rightarrow> svc_unknown svc_unknown_async_text e (False, None) c
      | Some s \<Rightarrow>
          (if svc_service_name c = [] \<or> name = []
           then Inr ((False, Some (CreateErrorResponse e (svc_service_name c) name ''Invalid service or method name.'')), c, [])
           else (let calls = [SvcAsyncCall (scl_client_session s) (SerializeRequest z name request)] in
             if \<not> accepted then Inr ((False, None), c, calls)
             else Inr ((True, None), svc_IncrementMethodCallCount name c, calls))))"

text \<open>The response the callback of the asynchronous call is called with.\<close>

definition svc_async_response :: "'f pz \<Rightarrow> sclient \<Rightarrow> string \<Rightarrow> session_answer \<Rightarrow> call_response" where
  "svc_async_response z s name answer = snd (svc_answer z s answer (PrepareInitialResponse s name))"

subsection \<open>The gates\<close>

text \<open>
  \<open>CClientGate\<close> and \<open>CServiceGate\<close>: the clients and servers of the process by the name of their service. An entry that is erased
  gives up its object, which is destroyed with its last owner; the operations return these objects.
\<close>

type_synonym 'cb client_gate = "'cb service_client gate"
type_synonym 'cb server_gate = "'cb service_server gate"

definition cg_Start :: "'cb client_gate \<Rightarrow> 'cb client_gate" where
  "cg_Start g = (if gt_created g then g else g\<lparr>gt_created := True\<rparr>)"

definition cg_Stop :: "'cb client_gate \<Rightarrow> 'cb client_gate \<times> 'cb service_client list" where
  "cg_Stop g = (if \<not> gt_created g then (g, []) else (g\<lparr>gt_map := [], gt_created := False\<rparr>, map (snd \<circ> snd) (gt_map g)))"

definition cg_Register :: "'cb client_gate \<Rightarrow> string \<Rightarrow> nat \<Rightarrow> 'cb service_client \<Rightarrow> bool \<times> 'cb client_gate" where
  "cg_Register g name r c = (if \<not> gt_created g then (False, g) else (True, g\<lparr>gt_map := mm_emplace (gt_map g) name (r, c)\<rparr>))"

definition cg_Unregister :: "'cb client_gate \<Rightarrow> string \<Rightarrow> nat \<Rightarrow> bool \<times> 'cb client_gate \<times> 'cb service_client option" where
  "cg_Unregister g name r =
     (if \<not> gt_created g then (False, g, None)
      else (let (m, c) = mm_erase_ref (gt_map g) name r in (c \<noteq> None, g\<lparr>gt_map := m\<rparr>, c)))"

definition cg_service_attr :: "sample \<Rightarrow> service_attr" where
  "cg_service_attr sa =
     sva_new\<lparr>sva_hname := si_host_name (sa_identifier sa), sva_pname := sv_process_name (sa_service sa),
       sva_uname := sv_unit_name (sa_service sa), sva_sname := sv_service_name (sa_service sa),
       sva_sid := si_entity_id (sa_identifier sa), sva_pid := si_process_id (sa_identifier sa),
       sva_version := sv_version (sa_service sa), sva_tcp_port_v0 := ucast (sv_tcp_port_v0 (sa_service sa)),
       sva_tcp_port_v1 := ucast (sv_tcp_port_v1 (sa_service sa))\<rparr>"

text \<open>\<open>sessions\<close> gives the session a client (by its id) creates.\<close>

definition cg_ApplyServiceRegistration :: "bool \<Rightarrow> (u64 \<Rightarrow> nat option) \<Rightarrow> 'cb client_gate \<Rightarrow> sample \<Rightarrow>
    'cb client_gate \<times> 'cb client_call list" where
  "cg_ApplyServiceRegistration manager sessions g sa =
     (let service = cg_service_attr sa;
          service_entity = \<lparr>ei_entity_id = sva_sid service, ei_process_id = sva_pid service, ei_host_name = sva_hname service\<rparr>;
          (m, es) = mm_visit (\<lambda>c. svc_RegisterService manager (sessions (svc_client_id c)) service_entity service c)
            (sva_sname service) (gt_map g)
      in (g\<lparr>gt_map := m\<rparr>, es))"

definition cg_GetRegistrations :: "process_names \<Rightarrow> (nat \<Rightarrow> session_state) \<Rightarrow> 'cb client_gate \<Rightarrow> sample_list \<Rightarrow>
    sample_list \<times> 'cb client_gate \<times> 'cb client_call list" where
  "cg_GetRegistrations pn st g v =
     (if \<not> gt_created g then (v, g, [])
      else (let (v, m, es) = foldl (\<lambda>(v, m, es) (k, r, c).
                let (sa, c, e) = svc_GetRegistration pn st c in (ev_push_back v sa, m @ [(k, r, c)], es @ e)) (v, [], []) (gt_map g)
        in (v, g\<lparr>gt_map := m\<rparr>, es)))"

definition xg_Start :: "'cb server_gate \<Rightarrow> 'cb server_gate" where
  "xg_Start g = (if gt_created g then g else g\<lparr>gt_created := True\<rparr>)"

definition xg_Stop :: "'cb server_gate \<Rightarrow> 'cb server_gate \<times> 'cb service_server list" where
  "xg_Stop g = (if \<not> gt_created g then (g, []) else (g\<lparr>gt_map := [], gt_created := False\<rparr>, map (snd \<circ> snd) (gt_map g)))"

definition xg_Register :: "'cb server_gate \<Rightarrow> string \<Rightarrow> nat \<Rightarrow> 'cb service_server \<Rightarrow> bool \<times> 'cb server_gate" where
  "xg_Register g name r s = (if \<not> gt_created g then (False, g) else (True, g\<lparr>gt_map := mm_emplace (gt_map g) name (r, s)\<rparr>))"

definition xg_Unregister :: "'cb server_gate \<Rightarrow> string \<Rightarrow> nat \<Rightarrow> bool \<times> 'cb server_gate \<times> 'cb service_server option" where
  "xg_Unregister g name r =
     (if \<not> gt_created g then (False, g, None)
      else (let (m, s) = mm_erase_ref (gt_map g) name r in (s \<noteq> None, g\<lparr>gt_map := m\<rparr>, s)))"

definition xg_GetRegistrations :: "process_names \<Rightarrow> 'cb server_gate \<Rightarrow> sample_list \<Rightarrow> sample_list" where
  "xg_GetRegistrations pn g v =
     (if \<not> gt_created g then v else foldl (\<lambda>v (k, r, s). ev_push_back v (srv_GetRegistration pn s)) v (gt_map g))"

subsection \<open>Histories of a client\<close>

text \<open>A service is heard of, as the gate passes it on; the registration of the client is asked for. Calls leave the sessions as they are.\<close>

datatype client_input =
    CiService bool "nat option" sample
  | CiRegistration "nat \<Rightarrow> session_state"

definition cg_entity :: "sample \<Rightarrow> entity_id" where
  "cg_entity sa = \<lparr>ei_entity_id = si_entity_id (sa_identifier sa), ei_process_id = si_process_id (sa_identifier sa),
     ei_host_name = si_host_name (sa_identifier sa)\<rparr>"

fun svc_input :: "client_input \<Rightarrow> 'cb service_client \<Rightarrow> 'cb service_client \<times> 'cb client_call list" where
  "svc_input (CiService manager session sa) c = svc_RegisterService manager session (cg_entity sa) (cg_service_attr sa) c"
| "svc_input (CiRegistration st) c = svc_UpdateConnectionStates st c"

fun svc_inputs :: "client_input list \<Rightarrow> 'cb service_client \<Rightarrow> 'cb service_client \<times> 'cb client_call list" where
  "svc_inputs [] c = (c, [])"
| "svc_inputs (i # is) c = (let (c, es) = svc_input i c; (c, es') = svc_inputs is c in (c, es @ es'))"

lemma cg_service_attr_sid [simp]: "sva_sid (cg_service_attr sa) = si_entity_id (sa_identifier sa)"
  by (simp add: cg_service_attr_def)

text \<open>The state of one entity, as a function of what happens: without a session, with one, connected.\<close>

fun svc_event_of :: "u64 \<Rightarrow> 'cb client_call \<Rightarrow> client_event list" where
  "svc_event_of k (SvcEvent cb i ev) = (if ei_entity_id (svi_service_id i) = k then [ev] else [])"
| "svc_event_of k _ = []"

definition svc_events :: "u64 \<Rightarrow> 'cb client_call list \<Rightarrow> client_event list" where
  "svc_events k es = concat (map (svc_event_of k) es)"

lemma svc_events_simps [simp]: "svc_events k [] = []" "svc_events k (e # es) = svc_event_of k e @ svc_events k es"
  "svc_events k (es @ fs) = svc_events k es @ svc_events k fs"
  by (simp_all add: svc_events_def)

definition entity_update :: "(nat \<Rightarrow> session_state) \<Rightarrow> sclient option \<Rightarrow> sclient option \<times> client_event list" where
  "entity_update st x = (case x of
     None \<Rightarrow> (None, [])
   | Some s \<Rightarrow> (if \<not> scl_connected s \<and> st (scl_client_session s) = SsConnected then (Some (s\<lparr>scl_connected := True\<rparr>), [CeConnected])
       else if scl_connected s \<and> st (scl_client_session s) = SsFailed then (None, [CeDisconnected]) else (Some s, [])))"

definition sessions_ok :: "(entity_id, sclient) omap \<Rightarrow> bool" where
  "sessions_ok m \<longleftrightarrow> (\<forall>(e, s) \<in> set m. sva_sid (scl_service_attr s) = ei_entity_id e)"

lemma sessions_ok_simps [simp]: "sessions_ok []"
  "sessions_ok ((e, s) # m) \<longleftrightarrow> sva_sid (scl_service_attr s) = ei_entity_id e \<and> sessions_ok m"
  by (auto simp: sessions_ok_def)

lemma notify_events: "svc_event_callback c \<noteq> None \<Longrightarrow>
    svc_events k (svc_NotifyEventCallback (scl_service_id c s) ev c) = (if sva_sid (scl_service_attr s) = k then [ev] else [])"
  by (auto simp: svc_NotifyEventCallback_def scl_service_id_def)

lemma update_sessions_keys: "set (om_keys ei_entity_id (fst (svc_update_sessions st c m))) \<subseteq> set (om_keys ei_entity_id m)"
  by (induction st c m rule: svc_update_sessions.induct) (auto simp: Let_def split: prod.splits)

lemma update_sessions_ok: "sessions_ok m \<Longrightarrow> sessions_ok (fst (svc_update_sessions st c m))"
  by (induction st c m rule: svc_update_sessions.induct) (auto simp: Let_def split: prod.splits)

lemma update_sessions_invar: "om_invar ei_entity_id m \<Longrightarrow> om_invar ei_entity_id (fst (svc_update_sessions st c m))"
proof (induction st c m rule: svc_update_sessions.induct)
  case (2 st c e s m)
  obtain m' es where r: "svc_update_sessions st c m = (m', es)" by fastforce
  have "om_invar ei_entity_id m'" "\<forall>k \<in> set (om_keys ei_entity_id m'). ei_entity_id e < k"
    using 2 update_sessions_keys [of st c m] by (auto simp: r om_invar_def)
  then show ?case by (simp add: r om_invar_def Let_def)
qed simp

lemma update_sessions_other:
  "sessions_ok m \<Longrightarrow> svc_event_callback c \<noteq> None \<Longrightarrow> k \<notin> set (om_keys ei_entity_id m) \<Longrightarrow> svc_events k (snd (svc_update_sessions st c m)) = []"
  by (induction st c m rule: svc_update_sessions.induct) (auto simp: Let_def notify_events split: prod.splits)

lemma update_sessions_entity:
  assumes "sessions_ok m" "om_invar ei_entity_id m" "svc_event_callback c \<noteq> None"
  shows "om_find ei_entity_id (fst (svc_update_sessions st c m)) e = fst (entity_update st (om_find ei_entity_id m e)) \<and>
    svc_events (ei_entity_id e) (snd (svc_update_sessions st c m)) = snd (entity_update st (om_find ei_entity_id m e))"
  using assms
proof (induction st c m rule: svc_update_sessions.induct)
  case (1 st c)
  then show ?case by (simp add: entity_update_def)
next
  case (2 st c f s m)
  obtain m' es where r: "svc_update_sessions st c m = (m', es)" by fastforce
  have inv: "om_invar ei_entity_id m" "\<forall>k \<in> set (om_keys ei_entity_id m). ei_entity_id f < k" using 2(3) by (auto simp: om_invar_def)
  show ?case
  proof (cases "ei_entity_id f = ei_entity_id e")
    case True
    have n: "ei_entity_id e \<notin> set (om_keys ei_entity_id m)" using inv(2) True by auto
    then have "ei_entity_id e \<notin> set (om_keys ei_entity_id m')" using update_sessions_keys [of st c m] by (auto simp: r)
    then have "om_find ei_entity_id m' e = None" by (simp add: om_find_None_iff)
    moreover have "svc_events (ei_entity_id e) es = []" using update_sessions_other [of m c "ei_entity_id e" st] 2(2,4) n by (simp add: r)
    ultimately show ?thesis using True 2(2,4) by (simp add: r Let_def entity_update_def notify_events)
  next
    case False
    then have "om_find ei_entity_id m' e = fst (entity_update st (om_find ei_entity_id m e)) \<and>
        svc_events (ei_entity_id e) es = snd (entity_update st (om_find ei_entity_id m e))"
      using 2(1) [OF refl] 2(2,4) inv(1) by (simp add: r)
    then show ?thesis using False 2(2,4) by (simp add: r Let_def notify_events)
  qed
qed

text \<open>One input, seen by one entity.\<close>

definition session_of :: "entity_id \<Rightarrow> 'cb service_client \<Rightarrow> sclient option" where
  "session_of e c = om_find ei_entity_id (svc_session_map c) e"

definition clients_ok :: "'cb service_client \<Rightarrow> bool" where
  "clients_ok c \<longleftrightarrow> om_invar ei_entity_id (svc_session_map c) \<and> sessions_ok (svc_session_map c)"

lemma sessions_ok_set: "sessions_ok m \<Longrightarrow> sva_sid (scl_service_attr s) = ei_entity_id e \<Longrightarrow> sessions_ok (om_set ei_entity_id m e s)"
  by (induction m) (auto split: if_splits)

lemma svc_input_ok: "clients_ok c \<Longrightarrow> clients_ok (fst (svc_input i c)) \<and> svc_event_callback (fst (svc_input i c)) = svc_event_callback c"
proof (cases i)
  case (CiService manager session sa)
  then show "clients_ok c \<Longrightarrow> ?thesis"
    by (auto simp: clients_ok_def svc_RegisterService_def Let_def cg_entity_def om_invar_set sessions_ok_set split: option.splits)
next
  case (CiRegistration st)
  then show "clients_ok c \<Longrightarrow> ?thesis"
    using update_sessions_ok [of "svc_session_map c" st c] update_sessions_invar [of "svc_session_map c" st c]
    by (auto simp: clients_ok_def svc_UpdateConnectionStates_def split: prod.splits)
qed

lemma svc_input_service_events [simp]: "svc_events k (snd (svc_input (CiService manager session sa) c)) = []"
  by (auto simp: svc_RegisterService_def Let_def split: option.splits)

lemma session_of_service:
  "session_of e (fst (svc_input (CiService manager session sa) c)) =
     (if session_of e c = None \<and> manager \<and> ei_entity_id e = si_entity_id (sa_identifier sa)
      then map_option (\<lambda>r. \<lparr>scl_service_attr = cg_service_attr sa, scl_client_session = r, scl_connected = False\<rparr>) session
      else session_of e c)"
proof (cases "ei_entity_id e = si_entity_id (sa_identifier sa)")
  case True
  then have "om_find ei_entity_id m (cg_entity sa) = om_find ei_entity_id m e" for m :: "(entity_id, sclient) omap"
    by (intro om_find_cong) (simp add: cg_entity_def)
  then show ?thesis using True by (auto simp: session_of_def svc_RegisterService_def Let_def om_find_set cg_entity_def split: option.splits)
next
  case False
  then show ?thesis by (auto simp: session_of_def svc_RegisterService_def Let_def om_find_set cg_entity_def split: option.splits)
qed

lemma session_of_registration:
  assumes "clients_ok c" "svc_event_callback c \<noteq> None"
  shows "session_of e (fst (svc_input (CiRegistration st) c)) = fst (entity_update st (session_of e c))"
    "svc_events (ei_entity_id e) (snd (svc_input (CiRegistration st) c)) = snd (entity_update st (session_of e c))"
  using update_sessions_entity [of "svc_session_map c" c st e] assms
  by (auto simp: clients_ok_def session_of_def svc_UpdateConnectionStates_def split: prod.splits)

subsection \<open>Events of a client\<close>

fun events_alternate :: "bool \<Rightarrow> client_event list \<Rightarrow> bool" where
  "events_alternate conn [] \<longleftrightarrow> True"
| "events_alternate conn (ev # evs) \<longleftrightarrow> ev = (if conn then CeDisconnected else CeConnected) \<and> events_alternate (\<not> conn) evs"

lemma svc_IsConnected_session: "svc_IsConnected e c \<longleftrightarrow> (case session_of e c of Some s \<Rightarrow> scl_connected s | None \<Rightarrow> False)"
  by (simp add: svc_IsConnected_def session_of_def)

lemma svc_input_events:
  assumes "clients_ok c" "svc_event_callback c \<noteq> None" "svc_input i c = (c', es)"
  shows "svc_events (ei_entity_id e) es = (if svc_IsConnected e c = svc_IsConnected e c' then []
    else if svc_IsConnected e c then [CeDisconnected] else [CeConnected])"
proof (cases i)
  case (CiService manager session sa)
  have "svc_IsConnected e c = svc_IsConnected e c'"
    using session_of_service [of e manager session sa c] assms(3) by (auto simp: CiService svc_IsConnected_session split: option.splits if_splits)
  then show ?thesis using svc_input_service_events [of "ei_entity_id e" manager session sa c] assms(3) by (simp add: CiService)
next
  case (CiRegistration st)
  have "session_of e c' = fst (entity_update st (session_of e c))" "svc_events (ei_entity_id e) es = snd (entity_update st (session_of e c))"
    using session_of_registration [OF assms(1,2), of e st] assms(3) by (simp_all add: CiRegistration)
  then show ?thesis by (auto simp: svc_IsConnected_session entity_update_def split: option.splits)
qed

lemma svc_inputs_events:
  assumes "clients_ok c" "svc_event_callback c \<noteq> None" "svc_inputs is c = (c', es)"
  shows "events_alternate (svc_IsConnected e c) (svc_events (ei_entity_id e) es) \<and>
    (svc_IsConnected e c' \<longleftrightarrow> (svc_IsConnected e c = even (length (svc_events (ei_entity_id e) es))))"
  using assms
proof (induction "is" arbitrary: c es)
  case (Cons i "is")
  obtain c1 e1 where i: "svc_input i c = (c1, e1)" by fastforce
  obtain e2 where r: "svc_inputs is c1 = (c', e2)" "es = e1 @ e2" using Cons.prems(3) by (auto simp: i split: prod.splits)
  have "clients_ok c1" "svc_event_callback c1 \<noteq> None" using svc_input_ok [OF Cons.prems(1), of i] Cons.prems(2) by (simp_all add: i)
  note IH = Cons.IH [OF this r(1)]
  show ?case using IH svc_input_events [OF Cons.prems(1,2) i, of e] by (auto simp: r(2))
qed simp

lemma svc_new_ok: "clients_ok (fst (svc_new pn clock provider name methods cb))" "session_of e (fst (svc_new pn clock provider name methods cb)) = None"
  by (simp_all add: svc_new_def Let_def clients_ok_def session_of_def om_invar_def)

text \<open>
  C17. Whatever services a client hears of and whatever becomes of their sessions: for each service its event callback is told
  connected and disconnected in turn, beginning with connected, and \<open>IsConnected\<close> says what was told last.
\<close>

theorem client_events_alternate:
  assumes "svc_inputs is (fst (svc_new pn clock provider name methods (Some cb))) = (c, es)"
  shows "events_alternate False (svc_events (ei_entity_id e) es) \<and>
    (svc_IsConnected e c \<longleftrightarrow> odd (length (svc_events (ei_entity_id e) es)))"
proof -
  let ?c = "fst (svc_new pn clock provider name methods (Some cb))"
  have "svc_event_callback ?c \<noteq> None" by (simp add: svc_new_def Let_def)
  moreover have "\<not> svc_IsConnected e ?c" by (simp add: svc_IsConnected_session svc_new_ok)
  ultimately show ?thesis using svc_inputs_events [OF svc_new_ok(1) _ assms, of e] by simp
qed

subsection \<open>Sessions that fail\<close>

lemma failed_session_stays_lemma:
  assumes "clients_ok c" "session_of e c = Some s" "\<not> scl_connected s"
    "\<forall>st. CiRegistration st \<in> set is \<longrightarrow> st (scl_client_session s) = SsFailed"
  shows "session_of e (fst (svc_inputs is c)) = Some s"
  using assms
proof (induction "is" arbitrary: c)
  case (Cons i "is")
  obtain c1 e1 where i: "svc_input i c = (c1, e1)" by fastforce
  have "session_of e c1 = Some s"
  proof (cases i)
    case (CiService manager session sa)
    then show ?thesis using session_of_service [of e manager session sa c] i Cons.prems(2) by simp
  next
    case (CiRegistration st)
    have "fst (svc_update_sessions st c m) = fst (svc_update_sessions st (c\<lparr>svc_event_callback := cb\<rparr>) m)" for m :: "(entity_id, sclient) omap" and cb
      by (induction m) (auto simp: Let_def split: prod.splits)
    then have "fst (svc_update_sessions st c (svc_session_map c)) =
        fst (svc_update_sessions st (c\<lparr>svc_event_callback := Some undefined\<rparr>) (svc_session_map c))" by blast
    then have "session_of e c1 = fst (entity_update st (session_of e c))"
      using update_sessions_entity [of "svc_session_map c" "c\<lparr>svc_event_callback := Some undefined\<rparr>" st e] Cons.prems(1) i
      by (auto simp: CiRegistration clients_ok_def session_of_def svc_UpdateConnectionStates_def split: prod.splits)
    moreover have "st (scl_client_session s) = SsFailed" using Cons.prems(4) CiRegistration by simp
    ultimately show ?thesis using Cons.prems(2,3) by (simp add: entity_update_def)
  qed
  then show ?case
    using Cons.IH [of c1] Cons.prems svc_input_ok [OF Cons.prems(1), of i] by (auto simp: i case_prod_unfold Let_def)
qed simp

text \<open>
  C34. A session whose connection fails before the client has seen it connected (the host cannot be resolved or
  reached when the service is first heard of) is never given up: however often the service is registered afterwards, the client keeps the
  failed session, creates no other one, and the service is never connected. Only a new entity id helps, after the
  server was restarted.
\<close>

theorem failed_session_never_replaced:
  assumes "clients_ok c" "session_of e c = Some s" "\<not> scl_connected s"
    "\<forall>st. CiRegistration st \<in> set is \<longrightarrow> st (scl_client_session s) = SsFailed"
  shows "\<not> svc_IsConnected e (fst (svc_inputs is c)) \<and>
    (ei_entity_id e = si_entity_id (sa_identifier sa) \<longrightarrow>
      svc_input (CiService manager session sa) (fst (svc_inputs is c)) = (fst (svc_inputs is c), []))"
proof -
  let ?c = "fst (svc_inputs is c)"
  have s: "session_of e ?c = Some s" by (rule failed_session_stays_lemma [OF assms])
  have "svc_input (CiService manager session sa) ?c = (?c, [])" if "ei_entity_id e = si_entity_id (sa_identifier sa)"
  proof -
    have "om_find ei_entity_id (svc_session_map ?c) (cg_entity sa) = om_find ei_entity_id (svc_session_map ?c) e"
      by (rule om_find_cong) (simp add: cg_entity_def that)
    then show ?thesis using s by (simp add: Let_def svc_RegisterService_def session_of_def)
  qed
  then show ?thesis using s assms(3) by (simp add: svc_IsConnected_session)
qed

lemma svc_unknown_lengths: "length svc_unknown_text = 75" "length svc_unknown_async_text = 80"
  by (simp_all add: svc_unknown_text_def svc_unknown_async_text_def)

text \<open>
  C36. Once a connected service is gone and the client has noticed, which it does when its own registration is asked for, a call of that
  service by its entity id, as the objects the user got from \<open>GetClientInstances\<close> make it, does what the id decides: up to the length
  of a string literal (75 for the blocking, 80 for the asynchronous call) it fails and changes nothing, beyond that it is undefined behaviour. Ids
  are times in nanoseconds and so always beyond.
\<close>

theorem call_after_disconnect_undefined:
  assumes "clients_ok c" "svc_event_callback c \<noteq> None" "session_of e c = Some s" "scl_connected s" "st (scl_client_session s) = SsFailed"
  shows "let c' = fst (svc_UpdateConnectionStates st c) in
    (if unat (ei_entity_id e) \<le> 75
     then \<exists>log. svc_CallWithCallback z accepted answer e name request timeout c' = Inr ((False, car_new), c', [SvcLogWarning log])
     else svc_CallWithCallback z accepted answer e name request timeout c' = Inl UndefinedBehaviour) \<and>
    (if unat (ei_entity_id e) \<le> 80
     then \<exists>log. svc_CallWithCallbackAsync z accepted e name request c' = Inr ((False, None), c', [SvcLogWarning log])
     else svc_CallWithCallbackAsync z accepted e name request c' = Inl UndefinedBehaviour)"
proof -
  have "session_of e (fst (svc_UpdateConnectionStates st c)) = None"
    using session_of_registration(1) [OF assms(1,2), of e st] assms(3-5) by (simp add: entity_update_def)
  then show ?thesis
    by (simp add: svc_CallWithCallback_def svc_CallWithCallbackAsync_def svc_GetClientByEntity_def session_of_def Let_def
        svc_unknown_def literal_tail_def svc_unknown_lengths)
qed

subsection \<open>Example: one service\<close>

definition wit_service_sample :: sample where
  "wit_service_sample = sa_new\<lparr>sa_cmd_type := BctRegService, sa_identifier := si_new\<lparr>si_entity_id := 1000, si_host_name := ''h''\<rparr>,
     sa_service := sv_new\<lparr>sv_service_name := ''s'', sv_tcp_port_v1 := 5\<rparr>\<rparr>"

definition wit_entity :: entity_id where
  "wit_entity = cg_entity wit_service_sample"

definition wit_client :: "client_input list \<Rightarrow> nat service_client \<times> nat client_call list" where
  "wit_client is = svc_inputs is (fst (svc_new wit_names 1 False ''s'' [] (Some 0)))"

definition wit_heard :: client_input where
  "wit_heard = CiService True (Some 4) wit_service_sample"

lemma wit_session:
  "session_of wit_entity (fst (wit_client [wit_heard])) =
     Some \<lparr>scl_service_attr = cg_service_attr wit_service_sample, scl_client_session = 4, scl_connected = False\<rparr>"
  "session_of wit_entity (fst (wit_client [wit_heard, CiRegistration (\<lambda>_. SsConnected)])) =
     Some \<lparr>scl_service_attr = cg_service_attr wit_service_sample, scl_client_session = 4, scl_connected = True\<rparr>"
  by (simp_all add: wit_client_def wit_heard_def svc_new_def Let_def svc_RegisterService_def session_of_def wit_entity_def svc_UpdateConnectionStates_def)

lemma wit_client_ok: "clients_ok (fst (wit_client [wit_heard]))" "clients_ok (fst (wit_client [wit_heard, CiRegistration (\<lambda>_. SsConnected)]))"
    "svc_event_callback (fst (wit_client [wit_heard, CiRegistration (\<lambda>_. SsConnected)])) \<noteq> None"
  by (simp_all add: wit_client_def wit_heard_def svc_new_def Let_def svc_RegisterService_def svc_UpdateConnectionStates_def clients_ok_def
      om_invar_def cg_entity_def)

theorem client_events_alternate_witness:
  "svc_IsConnected wit_entity (fst (wit_client [wit_heard, CiRegistration (\<lambda>_. SsConnected)])) \<and>
   odd (length (svc_events (ei_entity_id wit_entity) (snd (wit_client [wit_heard, CiRegistration (\<lambda>_. SsConnected)]))))"
proof -
  have "svc_IsConnected wit_entity (fst (wit_client [wit_heard, CiRegistration (\<lambda>_. SsConnected)]))"
    by (simp only: svc_IsConnected_session wit_session) simp
  then show ?thesis
    using client_events_alternate [OF surjective_pairing, of wit_entity "[wit_heard, CiRegistration (\<lambda>_. SsConnected)]" wit_names 1 False "''s''" "[]" "0 :: nat"]
    unfolding wit_client_def by blast
qed

theorem failed_session_never_replaced_witness:
  "\<not> svc_IsConnected wit_entity (fst (svc_inputs [CiRegistration (\<lambda>_. SsFailed), wit_heard, CiRegistration (\<lambda>_. SsFailed)] (fst (wit_client [wit_heard]))))"
  using failed_session_never_replaced [OF wit_client_ok(1) wit_session(1), of "[CiRegistration (\<lambda>_. SsFailed), wit_heard, CiRegistration (\<lambda>_. SsFailed)]"]
  by (simp add: wit_heard_def)

theorem call_after_disconnect_undefined_witness:
  "svc_CallWithCallback wire_pz True None wit_entity ''m'' [1] 0
     (fst (svc_UpdateConnectionStates (\<lambda>_. SsFailed) (fst (wit_client [wit_heard, CiRegistration (\<lambda>_. SsConnected)])))) = Inl UndefinedBehaviour"
proof -
  have "ei_entity_id wit_entity = 1000" by (simp add: wit_entity_def cg_entity_def wit_service_sample_def)
  then show ?thesis
    using call_after_disconnect_undefined [OF wit_client_ok(2,3) wit_session(2), of "\<lambda>_. SsFailed" wire_pz True None "''m''" "[1]" 0]
    by (simp add: Let_def)
qed

end
