(* ===== verification/Service_Call.thy ===== *)
theory Service_Call
  imports Service_Link Service_Client
begin

text \<open>
  A service call from end to end: the client's request is serialized (\<open>SerializeRequest\<close>), sent by a client session over a connection
  that is not lost to a server session, answered by \<open>RequestCallback\<close> of the service, and the response is
  read by the client (\<open>DeserializedResponse\<close>). What a call means is given by \<open>spec_call\<close>, without messages, frames and sessions.
\<close>

subsection \<open>The service behind a server session\<close>

text \<open>
  The callback \<open>Start\<close> passes to the TCP server, for a service that exists. A request that ends in an exception leaves
  no response; the theorems below exclude it.
\<close>

definition srv_service :: "'f pz \<Rightarrow> ('cb, 'w) method_exec \<Rightarrow> process_names \<Rightarrow> 'cb service_server \<times> 'w \<Rightarrow> u8 list \<Rightarrow> u8 list \<times> 'cb service_server \<times> 'w" where
  "srv_service z exec pn x request =
     (case srv_RequestCallback z exec pn request x of Inr ((ret, response), x') \<Rightarrow> (response, x') | Inl _ \<Rightarrow> ([], x))"

subsection \<open>What a call means\<close>

definition srv_methods :: "'cb service_server \<Rightarrow> string \<Rightarrow> (method_info \<times> 'cb) option" where
  "srv_methods s name = (case om_find id (srv_method_map s) name of
     None \<Rightarrow> None | Some m \<Rightarrow> map_option (Pair (srv_method_info m)) (svm_callback m))"

definition srv_callable :: "'cb service_server \<Rightarrow> bool" where
  "srv_callable s \<longleftrightarrow> (\<forall>name m. om_find id (srv_method_map s) name = Some m \<longrightarrow> svm_callback m \<noteq> None)"

type_synonym call_result = "call_state \<times> i32 \<times> u8 list \<times> string"

definition spec_call :: "('cb, 'w) method_exec \<Rightarrow> string \<Rightarrow> (string \<Rightarrow> (method_info \<times> 'cb) option) \<Rightarrow> string \<Rightarrow> u8 list \<Rightarrow> 'w \<Rightarrow> call_result \<times> 'w" where
  "spec_call exec service methods name request w =
     (case methods name of
        None \<Rightarrow> ((CaFailed, 0, [], srv_no_method_error service name), w)
      | Some (i, cb) \<Rightarrow> (let ((ret, response), w) = exec cb i request w in ((CaExecuted, ret, response, []), w)))"

fun spec_calls :: "('cb, 'w) method_exec \<Rightarrow> string \<Rightarrow> (string \<Rightarrow> (method_info \<times> 'cb) option) \<Rightarrow> (string \<times> u8 list) list \<Rightarrow> 'w \<Rightarrow> call_result list \<times> 'w" where
  "spec_calls exec service methods [] w = ([], w)"
| "spec_calls exec service methods ((name, request) # cs) w =
     (let (r, w) = spec_call exec service methods name request w; (rs, w) = spec_calls exec service methods cs w in (r # rs, w))"

text \<open>The response a client's user sees.\<close>

definition spec_response :: "process_names \<Rightarrow> string \<Rightarrow> sclient \<Rightarrow> string \<Rightarrow> call_result \<Rightarrow> call_response" where
  "spec_response pn service cl name r =
     (case r of (state, ret, response, message) \<Rightarrow>
       \<lparr>car_call_state = state,
        car_server_id = \<lparr>svi_service_id = \<lparr>ei_entity_id = sva_sid (scl_service_attr cl), ei_process_id = sva_pid (scl_service_attr cl),
          ei_host_name = pn_host_name pn\<rparr>, svi_service_name = service\<rparr>,
        car_method = \<lparr>mi_method_name = name, mi_request_type = dti_new, mi_response_type = dti_new\<rparr>,
        car_ret_state = ret, car_response = response, car_error_msg = message\<rparr>)"

subsection \<open>One request\<close>

lemma scast_up_down [simp]: "scast (scast (x :: i32) :: i64) = x"
  by (rule scast_up_scast_id) (simp add: is_up)

lemma SerializeRequest_request: "SerializeRequest z name request = RequestSerializeToBuffer z (srv_request name request)"
  by (simp add: SerializeRequest_def srv_request_def)

lemma srv_methods_count:
  "om_find id (srv_method_map s) name = Some m \<Longrightarrow>
    srv_methods (s\<lparr>srv_method_map := om_set id (srv_method_map s) name (svm_count m)\<rparr>) = srv_methods s"
  by (rule ext) (auto simp: srv_methods_def om_find_set svm_count_def srv_method_info_def)

definition srv_same :: "'cb service_server \<Rightarrow> 'cb service_server \<Rightarrow> bool" where
  "srv_same s s' \<longleftrightarrow> srv_methods s' = srv_methods s \<and> srv_callable s' \<and> srv_service_name s' = srv_service_name s \<and>
     srv_server_id s' = srv_server_id s"

lemma srv_methods_None: "srv_callable s \<Longrightarrow> srv_methods s name = None \<longleftrightarrow> om_find id (srv_method_map s) name = None"
  by (auto simp: srv_methods_def srv_callable_def split: option.splits)

text \<open>What is sent back to a known and to an unknown method.\<close>

definition srv_bytes :: "'f pz \<Rightarrow> process_names \<Rightarrow> 'cb service_server \<Rightarrow> string \<Rightarrow> call_result \<Rightarrow> u8 list" where
  "srv_bytes z pn s name r =
     (case r of (state, ret, response, message) \<Rightarrow> ResponseSerializeToBuffer z
       \<lparr>srs_header = (srv_response_header pn s)\<lparr>shd_method_name := name, shd_state := if state = CaExecuted then McsExecuted else McsFailed,
          shd_error := message\<rparr>, srs_response = response, srs_ret_state = scast ret\<rparr>)"

lemma srv_bytes_same: "srv_same s s' \<Longrightarrow> srv_bytes z pn s' name r = srv_bytes z pn s name r"
  by (simp add: srv_same_def srv_bytes_def srv_response_header_def split: prod.splits)

lemma serve_one:
  assumes "pz_ok z" "srv_callable s" "spec_call exec (srv_service_name s) (srv_methods s) name request w = (r, w')"
  shows "\<exists>s'. srv_service z exec pn (s, w) (SerializeRequest z name request) = (srv_bytes z pn s name r, s', w') \<and> srv_same s s'"
    "DeserializedResponse z cl (srv_bytes z pn s name r) = spec_response pn (srv_service_name s) cl name r"
proof -
  have "(\<exists>s'. srv_service z exec pn (s, w) (SerializeRequest z name request) = (srv_bytes z pn s name r, s', w') \<and> srv_same s s') \<and>
    DeserializedResponse z cl (srv_bytes z pn s name r) = spec_response pn (srv_service_name s) cl name r"
  proof (cases "om_find id (srv_method_map s) name")
    case None
    then have "r = (CaFailed, 0, [], srv_no_method_error (srv_service_name s) name)" "w' = w"
      using assms(3) by (simp_all add: spec_call_def srv_methods_def)
    then show ?thesis
      using srv_request_unknown [OF assms(1) None, of exec pn request w] assms(2)
      by (simp add: srv_service_def SerializeRequest_request srv_bytes_def srv_same_def srs_new_def DeserializedResponse_def
          response_roundtrip [OF assms(1)] spec_response_def car_new_def srv_response_header_def shd_new_def Let_def)
  next
    case (Some m)
    then obtain cb where cb: "svm_callback m = Some cb" using assms(2) by (auto simp: srv_callable_def)
    obtain ret response where e: "exec cb (srv_method_info m) request w = ((ret, response), w')" "r = (CaExecuted, ret, response, [])"
      using assms(3) Some cb by (auto simp: spec_call_def srv_methods_def split: prod.splits)
    have "srv_callable (s\<lparr>srv_method_map := om_set id (srv_method_map s) name (svm_count m)\<rparr>)"
      using assms(2) cb by (auto simp: srv_callable_def om_find_set svm_count_def)
    then show ?thesis
      using srv_request_executed [where exec = exec and request = request and w = w, OF assms(1) Some cb e(1), of pn] srv_methods_count [OF Some]
      by (simp add: srv_service_def SerializeRequest_request srv_bytes_def srv_same_def e(2) DeserializedResponse_def
          response_roundtrip [OF assms(1)] spec_response_def car_new_def srv_response_header_def shd_new_def Let_def)
  qed
  then show "\<exists>s'. srv_service z exec pn (s, w) (SerializeRequest z name request) = (srv_bytes z pn s name r, s', w') \<and> srv_same s s'"
    "DeserializedResponse z cl (srv_bytes z pn s name r) = spec_response pn (srv_service_name s) cl name r" by blast+
qed

subsection \<open>A sequence of requests\<close>

lemma ss_calls_of_Cons: "ss_calls_of svc (rq # rqs) u = (let (rs, u) = svc u rq; (cs, u) = ss_calls_of svc rqs u in ((rq, rs) # cs, u))"
proof (induction rqs rule: rev_induct)
  case Nil
  then show ?case by (simp add: ss_calls_of_def split: prod.splits)
next
  case (snoc x xs)
  then show ?case using ss_calls_of_snoc [of svc "rq # xs" x u] by (simp add: ss_calls_of_snoc Let_def split: prod.splits)
qed

lemma srv_same_refl: "srv_callable s \<Longrightarrow> srv_same s s"
  by (simp add: srv_same_def)

lemma srv_same_trans: "srv_same s s' \<Longrightarrow> srv_same s' s'' \<Longrightarrow> srv_same s s''"
  by (simp add: srv_same_def)

lemma serve_calls:
  assumes "pz_ok z" "srv_callable s"
  shows "\<exists>s'. ss_calls_of (srv_service z exec pn) (map (\<lambda>(name, request). SerializeRequest z name request) cs) (s, w) =
      (map2 (\<lambda>(name, request) r. (SerializeRequest z name request, srv_bytes z pn s name r)) cs
        (fst (spec_calls exec (srv_service_name s) (srv_methods s) cs w)),
       s', snd (spec_calls exec (srv_service_name s) (srv_methods s) cs w)) \<and> srv_same s s'"
  using assms(2)
proof (induction cs arbitrary: s w)
  case Nil
  then show ?case by (auto intro: srv_same_refl)
next
  case (Cons c cs)
  obtain name request where c: "c = (name, request)" by (cases c)
  obtain r w1 where r: "spec_call exec (srv_service_name s) (srv_methods s) name request w = (r, w1)" by fastforce
  obtain s1 where s1: "srv_service z exec pn (s, w) (SerializeRequest z name request) = (srv_bytes z pn s name r, s1, w1)" "srv_same s s1"
    using serve_one(1) [OF assms(1) Cons.prems r, of pn] by blast
  have "srv_callable s1" using s1(2) by (simp add: srv_same_def)
  from Cons.IH [OF this, of w1] obtain s' where
    I: "ss_calls_of (srv_service z exec pn) (map (\<lambda>(name, request). SerializeRequest z name request) cs) (s1, w1) =
      (map2 (\<lambda>(name, request) r. (SerializeRequest z name request, srv_bytes z pn s1 name r)) cs
        (fst (spec_calls exec (srv_service_name s1) (srv_methods s1) cs w1)),
       s', snd (spec_calls exec (srv_service_name s1) (srv_methods s1) cs w1))" "srv_same s1 s'" by blast
  have n: "srv_service_name s1 = srv_service_name s" "srv_methods s1 = srv_methods s" using s1(2) by (simp_all add: srv_same_def)
  show ?case
    using I s1 srv_same_trans [OF s1(2) I(2)] srv_bytes_same [OF s1(2), of z pn]
    by (auto simp: c r n ss_calls_of_Cons split: prod.splits)
qed

lemma length_spec_calls [simp]: "length (fst (spec_calls exec service methods cs w)) = length cs"
  by (induction cs arbitrary: w) (auto simp: case_prod_unfold Let_def)

lemma spec_calls_nth:
  "i < length cs \<Longrightarrow> cs ! i = (name, request) \<Longrightarrow>
    \<exists>w' w''. spec_call exec service methods name request w' = (fst (spec_calls exec service methods cs w) ! i, w'')"
proof (induction cs arbitrary: i w)
  case (Cons c cs)
  obtain n rq where c: "c = (n, rq)" by (cases c)
  obtain r w1 where r: "spec_call exec service methods n rq w = (r, w1)" by fastforce
  have f: "fst (spec_calls exec service methods (c # cs) w) = r # fst (spec_calls exec service methods cs w1)"
    by (simp add: c r case_prod_unfold Let_def)
  show ?case
  proof (cases i)
    case 0
    then show ?thesis using Cons.prems r f by (auto simp: c)
  next
    case (Suc j)
    then show ?thesis using Cons.IH [of j w1] Cons.prems by (simp add: f)
  qed
qed simp

lemma mset_eq_map: "mset ys = mset (map f xs) \<Longrightarrow> \<exists>xs'. mset xs' = mset xs \<and> ys = map f xs'"
proof (induction ys arbitrary: xs)
  case Nil
  then show ?case by (intro exI [of _ "[]"]) simp
next
  case (Cons y ys)
  have "y \<in> set (map f xs)" using Cons.prems by (metis list.set_intros(1) mset_eq_setD)
  then obtain x where x: "x \<in> set xs" "y = f x" by auto
  have "mset xs = add_mset x (mset (remove1 x xs))" using x(1) by simp
  then have "mset (map f xs) = add_mset y (mset (map f (remove1 x xs)))" unfolding mset_map by (simp only: image_mset_add_mset x(2))
  then have "mset ys = mset (map f (remove1 x xs))" using Cons.prems by simp
  from Cons.IH [OF this] obtain xs' where "mset xs' = mset (remove1 x xs)" "ys = map f xs'" by blast
  then show ?case using x by (intro exI [of _ "x # xs'"]) simp
qed

subsection \<open>From end to end\<close>

fun answer_response :: "'f pz \<Rightarrow> sclient \<Rightarrow> service_answer \<Rightarrow> call_response option" where
  "answer_response z cl (AnResponse bs) = Some (DeserializedResponse z cl bs)"
| "answer_response z cl _ = None"

lemma call_end_to_end_lemma:
  assumes z: "pz_ok z" and s0: "srv_callable s0"
    and r: "lk_reachable (srv_service z exec pn) servers (s0, w0) x"
    and acc: "lk_accepted x = map (\<lambda>(name, request, cb). (SerializeRequest z name request, cb)) reqs"
    and short: "short_requests x" "short_responses (srv_service z exec pn) (s0, w0) (lk_requests x)"
    and y: "(lk_moves (srv_service z exec pn))\<^sup>*\<^sup>* x y" "\<nexists>y'. lk_moves (srv_service z exec pn) y y'"
  shows "\<exists>calls. mset calls = mset reqs \<and>
    map (\<lambda>(cb, a). (cb, answer_response z cl a)) (cs_answers (lk_log y)) =
      map2 (\<lambda>(name, request, cb) r. (cb, Some (spec_response pn (srv_service_name s0) cl name r))) calls
        (fst (spec_calls exec (srv_service_name s0) (srv_methods s0) (map (\<lambda>(name, request, cb). (name, request)) calls) w0)) \<and>
    snd (snd (lk_server y)) = snd (spec_calls exec (srv_service_name s0) (srv_methods s0) (map (\<lambda>(name, request, cb). (name, request)) calls) w0)"
proof -
  obtain done_calls where D: "cs_answers (lk_log y) = map (\<lambda>(rq, cb, rs). (cb, AnResponse rs)) done_calls"
    "mset (map (\<lambda>(rq, cb, rs). (rq, cb)) done_calls) = mset (lk_accepted x)"
    "ss_calls_of (srv_service z exec pn) (map fst done_calls) (s0, w0) = (map (\<lambda>(rq, cb, rs). (rq, rs)) done_calls, snd (lk_server y))"
    using lk_complete [OF r short, THEN conjunct2, THEN spec, THEN mp, OF conjI [OF y]] by blast
  obtain calls where c: "mset calls = mset reqs"
    "map (\<lambda>(rq, cb, rs). (rq, cb)) done_calls = map (\<lambda>(name, request, cb). (SerializeRequest z name request, cb)) calls"
    using mset_eq_map [OF D(2) [unfolded acc]] by blast
  let ?cs = "map (\<lambda>(name, request, cb). (name, request)) calls"
  let ?rs = "fst (spec_calls exec (srv_service_name s0) (srv_methods s0) ?cs w0)"
  have l: "length done_calls = length calls" using arg_cong [OF c(2), of length] by simp
  have "map fst done_calls = map fst (map (\<lambda>(rq, cb, rs). (rq, cb)) done_calls)" by (simp add: case_prod_unfold comp_def)
  also have "\<dots> = map (\<lambda>(name, request). SerializeRequest z name request) ?cs" unfolding c(2) by (simp add: case_prod_unfold comp_def)
  finally have f: "map fst done_calls = map (\<lambda>(name, request). SerializeRequest z name request) ?cs" .
  obtain s' where S: "ss_calls_of (srv_service z exec pn) (map fst done_calls) (s0, w0) =
      (map2 (\<lambda>(name, request) r. (SerializeRequest z name request, srv_bytes z pn s0 name r)) ?cs ?rs,
       s', snd (spec_calls exec (srv_service_name s0) (srv_methods s0) ?cs w0))"
    using serve_calls [OF z s0, of exec pn ?cs w0] unfolding f by blast
  have rs: "map (\<lambda>(rq, cb, rs). (rq, rs)) done_calls =
      map2 (\<lambda>(name, request) r. (SerializeRequest z name request, srv_bytes z pn s0 name r)) ?cs ?rs"
    using D(3) S by simp
  have "map (\<lambda>(cb, a). (cb, answer_response z cl a)) (cs_answers (lk_log y)) =
      map2 (\<lambda>(name, request, cb) r. (cb, Some (spec_response pn (srv_service_name s0) cl name r))) calls ?rs"
  proof (rule nth_equalityI)
    show "length (map (\<lambda>(cb, a). (cb, answer_response z cl a)) (cs_answers (lk_log y))) =
        length (map2 (\<lambda>(name, request, cb) r. (cb, Some (spec_response pn (srv_service_name s0) cl name r))) calls ?rs)"
      by (simp add: D(1) l)
  next
    fix i assume "i < length (map (\<lambda>(cb, a). (cb, answer_response z cl a)) (cs_answers (lk_log y)))"
    then have i: "i < length calls" "i < length done_calls" by (simp_all add: D(1) l)
    obtain rq cb bs where d: "done_calls ! i = (rq, cb, bs)" by (cases "done_calls ! i")
    obtain name request cb' where k: "calls ! i = (name, request, cb')" by (cases "calls ! i")
    have "map (\<lambda>(rq, cb, rs). (rq, cb)) done_calls ! i = map (\<lambda>(name, request, cb). (SerializeRequest z name request, cb)) calls ! i"
      by (simp only: c(2))
    then have cb: "cb' = cb" using i d k by simp
    have "map (\<lambda>(rq, cb, rs). (rq, rs)) done_calls ! i =
        map2 (\<lambda>(name, request) r. (SerializeRequest z name request, srv_bytes z pn s0 name r)) ?cs ?rs ! i" by (simp only: rs)
    then have "bs = srv_bytes z pn s0 name (?rs ! i)" using i d k by simp
    moreover obtain w w' where "spec_call exec (srv_service_name s0) (srv_methods s0) name request w = (?rs ! i, w')"
      using spec_calls_nth [of i ?cs name request exec "srv_service_name s0" "srv_methods s0" w0] i k by auto
    then have "DeserializedResponse z cl (srv_bytes z pn s0 name (?rs ! i)) = spec_response pn (srv_service_name s0) cl name (?rs ! i)"
      by (rule serve_one(2) [OF z s0])
    ultimately show "map (\<lambda>(cb, a). (cb, answer_response z cl a)) (cs_answers (lk_log y)) ! i =
        map2 (\<lambda>(name, request, cb) r. (cb, Some (spec_response pn (srv_service_name s0) cl name r))) calls ?rs ! i"
      using i d k cb by (auto simp: D(1))
  qed
  moreover have "snd (lk_server y) = (s', snd (spec_calls exec (srv_service_name s0) (srv_methods s0) ?cs w0))"
    using trans [OF sym [OF D(3)] S] by (simp only: prod.inject)
  then have "snd (snd (lk_server y)) = snd (spec_calls exec (srv_service_name s0) (srv_methods s0) ?cs w0)" by (simp only: snd_conv)
  ultimately show ?thesis using c(1) by blast
qed

text \<open>
  C4. Service calls from end to end. On a connection that is not lost, when the operations of the two sessions have ended, every
  call the client made has been answered once, and its response is what the service means by it: the
  calls are executed one after the other, each once, by the user's method on the user's state, with the request the caller
  passed; an executed call returns the state and the bytes the method returned, and a call of a method the service does
  not have fails, with a message, and executes nothing. All messages are shorter than 4 GiB and no method is without a callback.
\<close>

theorem service_call_end_to_end:
  assumes "pz_ok z" "srv_callable s0"
    "lk_reachable (srv_service z exec pn) servers (s0, w0) x"
    "lk_accepted x = map (\<lambda>(name, request, cb). (SerializeRequest z name request, cb)) reqs"
    "short_requests x" "short_responses (srv_service z exec pn) (s0, w0) (lk_requests x)"
    "(lk_moves (srv_service z exec pn))\<^sup>*\<^sup>* x y" "\<nexists>y'. lk_moves (srv_service z exec pn) y y'"
  shows "\<exists>calls. mset calls = mset reqs \<and>
    map (\<lambda>(cb, a). (cb, answer_response z cl a)) (cs_answers (lk_log y)) =
      map2 (\<lambda>(name, request, cb) r. (cb, Some (spec_response pn (srv_service_name s0) cl name r))) calls
        (fst (spec_calls exec (srv_service_name s0) (srv_methods s0) (map (\<lambda>(name, request, cb). (name, request)) calls) w0)) \<and>
    snd (snd (lk_server y)) = snd (spec_calls exec (srv_service_name s0) (srv_methods s0) (map (\<lambda>(name, request, cb). (name, request)) calls) w0)"
  by (rule call_end_to_end_lemma [OF assms])

subsection \<open>Example: one call of an echo method\<close>

definition wit_exec :: "(nat, nat) method_exec" where
  "wit_exec cb i request w = ((5, request), w + 1)"

definition wit_server :: "nat service_server" where
  "wit_server = snd (srv_SetMethodCallback (wit_method ''m'') (Some 0) (srv_new wit_names 1 ''s'' None))"

definition wit_call_link :: "(nat, nat service_server \<times> nat) service_link" where
  "wit_call_link = (lk_new [(''h'', 5)] (wit_server, 0))\<lparr>lk_ops := {#OpResolve 0, OpCall (SerializeRequest wire_pz ''m'' [1]) 3#},
     lk_log := [CsStart (OpResolve 0), CsStart (OpCall (SerializeRequest wire_pz ''m'' [1]) 3)],
     lk_accepted := [(SerializeRequest wire_pz ''m'' [1], 3)]\<rparr>"

abbreviation wit_service where "wit_service \<equiv> srv_service wire_pz wit_exec wit_names"

definition wit_sclient :: sclient where
  "wit_sclient = \<lparr>scl_service_attr = cg_service_attr wit_service_sample, scl_client_session = 4, scl_connected = True\<rparr>"

lemma wit_server_facts: "srv_callable wit_server" "srv_methods wit_server ''m'' = Some (wit_method ''m'', 0)" "srv_service_name wit_server = ''s''"
    "srv_server_id wit_server = 1"
  by (auto simp: wit_server_def srv_SetMethodCallback_def Let_def srv_new_def srv_callable_def srv_methods_def srv_method_info_def
      srv_update_types_def wit_method_def dti_new_def sm_new_def svm_new_def split: if_splits)

lemma wit_call_link_reachable: "lk_reachable wit_service [(''h'', 5)] (wit_server, 0) wit_call_link"
proof -
  let ?rq = "SerializeRequest wire_pz ''m'' [1]" and ?new = "lk_new [(''h'', 5)] (wit_server, 0) :: (nat, nat service_server \<times> nat) service_link"
  have "lk_calls ?new wit_call_link"
    using lk_calls.intros [of ?rq 3 ?new "[CsStart (OpCall ?rq 3)]"]
    by (simp add: wit_call_link_def cs_async_call_service_def lk_new_def ss_start_def ss_receive_handshake_request_def cs_new_def add_mset_commute)
  then show ?thesis by (rule lk_reachable.calls [OF lk_reachable.new])
qed

lemma wit_response_short: "length (srv_bytes wire_pz wit_names wit_server ''m'' (CaExecuted, 5, [1], [])) < 2 ^ 32"
proof -
  have "srv_bytes wire_pz wit_names wit_server ''m'' (CaExecuted, 5, [1], []) =
      ResponseSerializeToBuffer wire_pz \<lparr>srs_header = \<lparr>shd_host_name = ''h'', shd_service_name = ''s'', shd_service_id = str_u64 1,
        shd_method_name = ''m'', shd_error = [], shd_id = 0, shd_state = McsExecuted\<rparr>, srs_response = [1], srs_ret_state = scast (5 :: i32)\<rparr>"
    by (simp add: srv_bytes_def srv_response_header_def wit_server_facts wit_names_def shd_new_def)
  moreover have "length (ResponseSerializeToBuffer wire_pz \<lparr>srs_header = \<lparr>shd_host_name = ''h'', shd_service_name = ''s'', shd_service_id = str_u64 1,
        shd_method_name = ''m'', shd_error = [], shd_id = 0, shd_state = McsExecuted\<rparr>, srs_response = [1], srs_ret_state = scast (5 :: i32)\<rparr>) \<le> 60"
    by code_simp
  ultimately show ?thesis by simp
qed

lemma wit_request_short: "length (SerializeRequest wire_pz ''m'' [1]) < 2 ^ 32"
proof -
  have "length (SerializeRequest wire_pz ''m'' [1]) \<le> 60" by code_simp
  then show ?thesis by simp
qed

lemma wit_calls_short: "short_responses wit_service (wit_server, 0) (lk_requests wit_call_link)"
  unfolding short_responses_def
proof (intro allI impI)
  fix rqs assume "set rqs \<subseteq> lk_requests wit_call_link"
  then have "\<forall>rq \<in> set rqs. rq = SerializeRequest wire_pz ''m'' [1]" by (auto simp: lk_requests_def wit_call_link_def)
  then have r: "rqs = map (\<lambda>(name, request). SerializeRequest wire_pz name request) (replicate (length rqs) (''m'', [1]))"
    by (simp add: map_replicate_const) (metis replicate_eqI)
  obtain s' where S: "ss_calls_of wit_service rqs (wit_server, 0) =
      (map2 (\<lambda>(name, request) r. (SerializeRequest wire_pz name request, srv_bytes wire_pz wit_names wit_server name r)) (replicate (length rqs) (''m'', [1]))
        (fst (spec_calls wit_exec ''s'' (srv_methods wit_server) (replicate (length rqs) (''m'', [1])) 0)), s')"
    using serve_calls [OF wire_pz_ok wit_server_facts(1), of wit_exec wit_names "replicate (length rqs) (''m'', [1])" 0]
    unfolding r [symmetric] wit_server_facts(3) by blast
  have "set (fst (spec_calls wit_exec ''s'' (srv_methods wit_server) (replicate n (''m'', [1])) w)) \<subseteq> {(CaExecuted, 5, [1], [])}" for n w
    by (induction n arbitrary: w) (auto simp: spec_call_def wit_server_facts wit_exec_def case_prod_unfold Let_def)
  then have "r = (CaExecuted, 5, [1], [])" if "(c, r) \<in> set (zip (replicate (length rqs) (''m'', [1]))
      (fst (spec_calls wit_exec ''s'' (srv_methods wit_server) (replicate (length rqs) (''m'', [1])) 0)))" for c r
    using set_zip_rightD [OF that] by blast
  moreover have "c = (''m'', [1])" if "(c, r) \<in> set (zip (replicate (length rqs) (''m'', [1])) rs)" for c r and rs :: "call_result list"
    using set_zip_leftD [OF that] by simp
  ultimately show "\<forall>(rq, rs) \<in> set (fst (ss_calls_of wit_service rqs (wit_server, 0))). length rs < 2 ^ 32"
    using wit_response_short unfolding S by fastforce
qed

theorem service_call_end_to_end_witness:
  "\<exists>y. (lk_moves wit_service)\<^sup>*\<^sup>* wit_call_link y \<and>
    map (\<lambda>(cb, a). (cb, answer_response wire_pz wit_sclient a)) (cs_answers (lk_log y)) =
      [(3, Some (spec_response wit_names ''s'' wit_sclient ''m'' (CaExecuted, 5, [1], [])))] \<and> snd (snd (lk_server y)) = 1"
proof -
  have s: "short_requests wit_call_link" using wit_request_short by (simp add: short_requests_def wit_call_link_def)
  have a: "lk_accepted wit_call_link = map (\<lambda>(name, request, cb). (SerializeRequest wire_pz name request, cb)) [(''m'', [1], 3)]"
    by (simp add: wit_call_link_def)
  obtain y where y: "(lk_moves wit_service)\<^sup>*\<^sup>* wit_call_link y" "\<nexists>y'. lk_moves wit_service y y'"
    using ends_somewhere [OF lk_complete [OF wit_call_link_reachable s wit_calls_short, THEN conjunct1]] by blast
  obtain calls where c: "mset calls = mset [(''m'', [1], 3 :: nat)]"
    "map (\<lambda>(cb, a). (cb, answer_response wire_pz wit_sclient a)) (cs_answers (lk_log y)) =
      map2 (\<lambda>(name, request, cb) r. (cb, Some (spec_response wit_names (srv_service_name wit_server) wit_sclient name r))) calls
        (fst (spec_calls wit_exec (srv_service_name wit_server) (srv_methods wit_server) (map (\<lambda>(name, request, cb). (name, request)) calls) 0))"
    "snd (snd (lk_server y)) = snd (spec_calls wit_exec (srv_service_name wit_server) (srv_methods wit_server) (map (\<lambda>(name, request, cb). (name, request)) calls) 0)"
    using service_call_end_to_end [OF wire_pz_ok wit_server_facts(1) wit_call_link_reachable a s wit_calls_short y, of wit_sclient] by blast
  have "calls = [(''m'', [1], 3)]" using c(1) by simp
  then show ?thesis using y(1) c(2,3) by (intro exI [of _ y]) (simp add: wit_server_facts spec_call_def wit_exec_def)
qed

end
