(* ===== verification/Service_Multi_Call.thy ===== *)
theory Service_Multi_Call
  imports Service_Call "HOL-Library.Multiset"
begin

text \<open>
  \<open>ecal/core/src/service/ecal_service_client.cpp\<close>: \<open>CServiceClient\<close>, the client the user holds, whose blocking call goes to
  all services at once. The thread of the caller starts the calls, waits, and reports those that did not answer in time; the callbacks of the
  calls run in other threads at any time. The variables they share are a record; each of its updates under the mutex is one
  step.
\<close>

subsection \<open>Instances\<close>

definition sc_GetClientInstances :: "'cb service_client option \<Rightarrow> entity_id list" where
  "sc_GetClientInstances impl = (case impl of None \<Rightarrow> [] | Some c \<Rightarrow> svc_GetServiceIDs c)"

definition sc_IsConnected :: "'cb service_client option \<Rightarrow> bool" where
  "sc_IsConnected impl \<longleftrightarrow> (case impl of None \<Rightarrow> False | Some c \<Rightarrow> list_ex (\<lambda>e. svc_IsConnected e c) (sc_GetClientInstances impl))"

text \<open>How starting one of the calls ends: accepted, refused, or refused after the callback was called with an error.\<close>

datatype start_result = StAccepted | StRefused | StRefusedAnswered

definition start_result_of :: "bool \<times> call_response option \<Rightarrow> start_result" where
  "start_result_of r = (case r of (True, _) \<Rightarrow> StAccepted | (False, None) \<Rightarrow> StRefused | (False, Some _) \<Rightarrow> StRefusedAnswered)"

text \<open>\<open>CallWithCallbackAsync\<close>: the calls are started one after the other; \<open>accepted\<close> says which the session accepts.\<close>

fun sc_start_all :: "'f pz \<Rightarrow> (entity_id \<Rightarrow> bool) \<Rightarrow> string \<Rightarrow> u8 list \<Rightarrow> entity_id list \<Rightarrow> 'cb service_client \<Rightarrow>
    call_error + start_result list \<times> 'cb service_client \<times> 'cb client_call list" where
  "sc_start_all z accepted name request [] c = Inr ([], c, [])"
| "sc_start_all z accepted name request (e # es) c =
     (case svc_CallWithCallbackAsync z (accepted e) e name request c of
        Inl err \<Rightarrow> Inl err
      | Inr (r, c, calls) \<Rightarrow>
          (case sc_start_all z accepted name request es c of
             Inl err \<Rightarrow> Inl err
           | Inr (rs, c, calls') \<Rightarrow> Inr (start_result_of r # rs, c, calls @ calls')))"

definition sc_CallWithCallbackAsync :: "'f pz \<Rightarrow> (entity_id \<Rightarrow> bool) \<Rightarrow> string \<Rightarrow> u8 list \<Rightarrow> 'cb service_client \<Rightarrow>
    call_error + bool \<times> 'cb service_client \<times> 'cb client_call list" where
  "sc_CallWithCallbackAsync z accepted name request c =
     (let instances = sc_GetClientInstances (Some c) in
      if length instances = 0 then Inr (False, c, [])
      else (case sc_start_all z accepted name request instances c of
              Inl err \<Rightarrow> Inl err
            | Inr (rs, c, calls) \<Rightarrow> Inr (list_all (\<lambda>r. r = StAccepted) rs, c, calls)))"

subsection \<open>The blocking call\<close>

datatype multi_phase = MuStarting | MuWaiting | MuReporting "nat list" | MuJoining | MuReturned

text \<open>
  Calls are numbered. \<open>mu_started\<close>: the calls gone through, and whether the next one has been accepted but is not counted yet;
  \<open>mu_timeouted\<close>: the flag of a call that says it has not answered in time, \<open>mu_calls\<close>: the vector of the calls that have one;
  \<open>mu_pending\<close>, \<open>mu_running\<close>: calls whose callback will run and those whose user callback is running; \<open>mu_log\<close>: the calls of the user
  callback, with a response, of which its call state is kept, or with the report of a timeout (\<open>None\<close>).
\<close>

record multi_call =
  mu_started :: nat
  mu_uncounted :: bool
  mu_success :: bool
  mu_expected :: nat
  mu_finished :: nat
  mu_callbacks :: nat
  mu_timeout_reached :: bool
  mu_timeouted :: "nat \<Rightarrow> bool"
  mu_calls :: "nat list"
  mu_pending :: "nat multiset"
  mu_running :: "nat multiset"
  mu_phase :: multi_phase
  mu_log :: "(nat \<times> call_state option) list"

definition mu_new :: "nat \<Rightarrow> multi_call" where
  "mu_new n = \<lparr>mu_started = 0, mu_uncounted = False, mu_success = (n \<noteq> 0), mu_expected = 0, mu_finished = 0, mu_callbacks = 0,
     mu_timeout_reached = False, mu_timeouted = (\<lambda>_. False), mu_calls = [], mu_pending = {#}, mu_running = {#},
     mu_phase = (if n = 0 then MuReturned else MuStarting), mu_log = []\<rparr>"

text \<open>The loop that starts the calls, of which there are \<open>n\<close>.\<close>

definition mu_start :: "nat \<Rightarrow> (nat \<Rightarrow> start_result) \<Rightarrow> multi_call \<Rightarrow> multi_call" where
  "mu_start n outcome m =
     (let i = mu_started m in
      if mu_uncounted m
      then m\<lparr>mu_expected := mu_expected m + 1, mu_calls := mu_calls m @ [i], mu_uncounted := False, mu_started := i + 1\<rparr>
      else if i < n
      then (case outcome i of
              StAccepted \<Rightarrow> m\<lparr>mu_timeouted := (mu_timeouted m)(i := True), mu_pending := add_mset i (mu_pending m), mu_uncounted := True\<rparr>
            | StRefused \<Rightarrow> m\<lparr>mu_success := False, mu_started := i + 1\<rparr>
            | StRefusedAnswered \<Rightarrow>
                m\<lparr>mu_finished := mu_finished m + 1, mu_callbacks := mu_callbacks m + 1, mu_log := mu_log m @ [(i, Some CaFailed)],
                  mu_success := False, mu_started := i + 1\<rparr>)
      else m\<lparr>mu_phase := MuWaiting\<rparr>)"

text \<open>The end of waiting, when all calls counted have answered or with the timeout.\<close>

definition mu_wait :: "bool \<Rightarrow> multi_call \<Rightarrow> multi_call" where
  "mu_wait uses_valid_timeout m =
     m\<lparr>mu_timeout_reached := True, mu_success := (mu_success m \<and> mu_expected m = mu_finished m),
       mu_phase := (if uses_valid_timeout then MuReporting (mu_calls m) else MuJoining)\<rparr>"

definition mu_report :: "nat list \<Rightarrow> multi_call \<Rightarrow> multi_call" where
  "mu_report is m = (case is of
       [] \<Rightarrow> m\<lparr>mu_phase := MuJoining\<rparr>
     | i # is \<Rightarrow> m\<lparr>mu_log := (if mu_timeouted m i then mu_log m @ [(i, None)] else mu_log m), mu_phase := MuReporting is\<rparr>)"

text \<open>
  The callback of a call: what it does under the mutex, then the user callback with the response, whose state is
  \<open>state\<close>, and its count. Nothing else looks at the response.
\<close>

definition mu_respond :: "nat \<Rightarrow> multi_call \<Rightarrow> multi_call" where
  "mu_respond i m =
     (let m = m\<lparr>mu_pending := mu_pending m - {#i#}\<rparr> in
      if mu_timeout_reached m then m
      else m\<lparr>mu_finished := mu_finished m + 1, mu_timeouted := (mu_timeouted m)(i := False), mu_running := add_mset i (mu_running m)\<rparr>)"

definition mu_callback :: "nat \<Rightarrow> call_state \<Rightarrow> multi_call \<Rightarrow> multi_call" where
  "mu_callback i state m = m\<lparr>mu_running := mu_running m - {#i#}, mu_log := mu_log m @ [(i, Some state)], mu_callbacks := mu_callbacks m + 1\<rparr>"

inductive mu_step :: "nat \<Rightarrow> bool \<Rightarrow> (nat \<Rightarrow> start_result) \<Rightarrow> multi_call \<Rightarrow> multi_call \<Rightarrow> bool" for n uses_valid_timeout outcome where
  start: "mu_phase m = MuStarting \<Longrightarrow> mu_step n uses_valid_timeout outcome m (mu_start n outcome m)"
| wait: "mu_phase m = MuWaiting \<Longrightarrow> mu_expected m = mu_finished m \<or> uses_valid_timeout \<Longrightarrow>
    mu_step n uses_valid_timeout outcome m (mu_wait uses_valid_timeout m)"
| report: "mu_phase m = MuReporting is \<Longrightarrow> mu_step n uses_valid_timeout outcome m (mu_report is m)"
| join: "mu_phase m = MuJoining \<Longrightarrow> mu_finished m = mu_callbacks m \<Longrightarrow> mu_step n uses_valid_timeout outcome m (m\<lparr>mu_phase := MuReturned\<rparr>)"
| respond: "i \<in># mu_pending m \<Longrightarrow> mu_step n uses_valid_timeout outcome m (mu_respond i m)"
| callback: "i \<in># mu_running m \<Longrightarrow> mu_step n uses_valid_timeout outcome m (mu_callback i state m)"

definition mu_reachable :: "nat \<Rightarrow> bool \<Rightarrow> (nat \<Rightarrow> start_result) \<Rightarrow> multi_call \<Rightarrow> bool" where
  "mu_reachable n uses_valid_timeout outcome = (mu_step n uses_valid_timeout outcome)\<^sup>*\<^sup>* (mu_new n)"

subsection \<open>Invariant\<close>

definition mu_accepted :: "(nat \<Rightarrow> start_result) \<Rightarrow> nat \<Rightarrow> nat list" where
  "mu_accepted outcome k = filter (\<lambda>i. outcome i = StAccepted) [0..<k]"

definition log_responses :: "(nat \<times> call_state option) list \<Rightarrow> nat multiset" where
  "log_responses l = mset (map fst (filter (\<lambda>x. snd x \<noteq> None) l))"

definition log_timeouts :: "(nat \<times> call_state option) list \<Rightarrow> nat multiset" where
  "log_timeouts l = mset (map fst (filter (\<lambda>x. snd x = None) l))"

text \<open>Where nothing is refused after an answer.\<close>

definition mu_common :: "nat \<Rightarrow> (nat \<Rightarrow> start_result) \<Rightarrow> multi_call \<Rightarrow> bool" where
  "mu_common n outcome m \<longleftrightarrow> mu_started m \<le> n \<and> mu_calls m = mu_accepted outcome (mu_started m) \<and> mu_expected m = length (mu_calls m) \<and>
     mu_finished m = size (log_responses (mu_log m)) + size (mu_running m) \<and> mu_callbacks m = size (log_responses (mu_log m))"

definition mu_before :: "nat \<Rightarrow> (nat \<Rightarrow> start_result) \<Rightarrow> multi_call \<Rightarrow> bool" where
  "mu_before n outcome m \<longleftrightarrow> \<not> mu_timeout_reached m \<and> log_timeouts (mu_log m) = {#} \<and>
     log_responses (mu_log m) + mu_running m + mu_pending m = mset (mu_calls m) + (if mu_uncounted m then {#mu_started m#} else {#}) \<and>
     (\<forall>i \<in># log_responses (mu_log m) + mu_running m. \<not> mu_timeouted m i) \<and> (\<forall>i \<in># mu_pending m. mu_timeouted m i) \<and>
     (mu_success m \<longleftrightarrow> (\<forall>i < mu_started m. outcome i = StAccepted)) \<and>
     (mu_uncounted m \<longrightarrow> mu_started m < n \<and> outcome (mu_started m) = StAccepted)"

definition mu_after :: "nat \<Rightarrow> bool \<Rightarrow> (nat \<Rightarrow> start_result) \<Rightarrow> nat list \<Rightarrow> multi_call \<Rightarrow> bool" where
  "mu_after n uses_valid_timeout outcome is m \<longleftrightarrow> mu_timeout_reached m \<and> mu_started m = n \<and>
     log_responses (mu_log m) + mu_running m = filter_mset (\<lambda>i. \<not> mu_timeouted m i) (mset (mu_calls m)) \<and>
     log_timeouts (mu_log m) + filter_mset (mu_timeouted m) (mset is) = filter_mset (mu_timeouted m) (mset (mu_calls m)) \<and>
     (mu_success m \<longleftrightarrow> (\<forall>i < n. outcome i = StAccepted) \<and> mu_expected m = mu_finished m)"

definition mu_inv :: "nat \<Rightarrow> bool \<Rightarrow> (nat \<Rightarrow> start_result) \<Rightarrow> multi_call \<Rightarrow> bool" where
  "mu_inv n uses_valid_timeout outcome m \<longleftrightarrow> mu_common n outcome m \<and>
     (case mu_phase m of
        MuStarting \<Rightarrow> mu_before n outcome m
      | MuWaiting \<Rightarrow> mu_before n outcome m \<and> mu_started m = n \<and> \<not> mu_uncounted m
      | MuReporting is \<Rightarrow> mu_after n uses_valid_timeout outcome is m
      | MuJoining \<Rightarrow> mu_after n uses_valid_timeout outcome [] m
      | MuReturned \<Rightarrow> mu_after n uses_valid_timeout outcome [] m \<and> mu_finished m = mu_callbacks m)"

lemma mu_accepted_Suc: "mu_accepted outcome (Suc k) = mu_accepted outcome k @ (if outcome k = StAccepted then [k] else [])"
  by (simp add: mu_accepted_def)

lemma mu_accepted_set: "i \<in> set (mu_accepted outcome k) \<longleftrightarrow> i < k \<and> outcome i = StAccepted"
  by (auto simp: mu_accepted_def)

lemma mu_accepted_count: "count (mset (mu_accepted outcome k)) i \<le> 1"
  using distinct_count_atmost_1 [of "mu_accepted outcome k"] by (simp add: mu_accepted_def)

lemma log_simps [simp]:
  "log_responses [] = {#}" "log_timeouts [] = {#}"
  "log_responses (l @ [(i, b)]) = (if b = None then log_responses l else add_mset i (log_responses l))"
  "log_timeouts (l @ [(i, b)]) = (if b = None then add_mset i (log_timeouts l) else log_timeouts l)"
  by (simp_all add: log_responses_def log_timeouts_def)

lemma mu_inv_new: "0 < n \<Longrightarrow> mu_inv n v outcome (mu_new n)"
  by (simp add: mu_inv_def mu_new_def mu_common_def mu_before_def mu_accepted_def)

lemma mu_inv_start:
  assumes "mu_inv n v outcome m" "mu_phase m = MuStarting" "\<forall>i < n. outcome i \<noteq> StRefusedAnswered"
  shows "mu_inv n v outcome (mu_start n outcome m)"
proof -
  let ?i = "mu_started m"
  have C: "mu_common n outcome m" and B: "mu_before n outcome m" using assms(1,2) by (simp_all add: mu_inv_def)
  consider "mu_uncounted m" | "\<not> mu_uncounted m" "?i < n" "outcome ?i = StAccepted" | "\<not> mu_uncounted m" "?i < n" "outcome ?i = StRefused"
    | "\<not> mu_uncounted m" "\<not> ?i < n"
    using assms(3) by (cases "outcome ?i") auto
  then show ?thesis
  proof cases
    case 1
    then have o: "outcome ?i = StAccepted" "?i < n" using B by (auto simp: mu_before_def)
    show ?thesis using C B 1 o assms(2)
      by (auto simp: mu_inv_def mu_start_def Let_def mu_common_def mu_before_def mu_accepted_Suc less_Suc_eq)
  next
    case 2
    have lt: "\<forall>j \<in># log_responses (mu_log m) + mu_running m + mu_pending m. j < ?i"
      using B C 2(1) by (auto simp: mu_before_def mu_common_def mu_accepted_set)
    have "\<forall>j \<in># log_responses (mu_log m) + mu_running m. j \<noteq> ?i" using lt by fastforce
    then show ?thesis using C B 2 assms(2)
      by (auto simp: mu_inv_def mu_start_def Let_def mu_common_def mu_before_def)
  next
    case 3
    then show ?thesis using C B assms(2)
      by (auto simp: mu_inv_def mu_start_def Let_def mu_common_def mu_before_def mu_accepted_Suc less_Suc_eq)
  next
    case 4
    then show ?thesis using C B assms(2)
      by (auto simp: mu_inv_def mu_start_def Let_def mu_common_def mu_before_def)
  qed
qed

lemma filter_mset_split:
  assumes "A + P = M" "\<forall>i \<in># A. \<not> f i" "\<forall>i \<in># P. f i"
  shows "filter_mset (\<lambda>i. \<not> f i) M = A" "filter_mset f M = P"
proof -
  have "filter_mset (\<lambda>i. \<not> f i) A = A" "filter_mset (\<lambda>i. \<not> f i) P = {#}" "filter_mset f A = {#}" "filter_mset f P = P"
    using assms(2,3) by (auto simp: filter_mset_eq_conv intro!: multiset_eqI)
  then show "filter_mset (\<lambda>i. \<not> f i) M = A" "filter_mset f M = P" unfolding assms(1) [symmetric] by simp_all
qed

lemma mu_inv_wait:
  assumes "mu_inv n v outcome m" "mu_phase m = MuWaiting" "mu_expected m = mu_finished m \<or> v"
  shows "mu_inv n v outcome (mu_wait v m)"
proof -
  have C: "mu_common n outcome m" and B: "mu_before n outcome m" and W: "mu_started m = n" "\<not> mu_uncounted m"
    using assms(1,2) by (simp_all add: mu_inv_def)
  have M: "log_responses (mu_log m) + mu_running m + mu_pending m = mset (mu_calls m)" using B W by (simp add: mu_before_def)
  have F: "filter_mset (\<lambda>i. \<not> mu_timeouted m i) (mset (mu_calls m)) = log_responses (mu_log m) + mu_running m"
      "filter_mset (mu_timeouted m) (mset (mu_calls m)) = mu_pending m"
    using filter_mset_split [OF M] B by (simp_all add: mu_before_def)
  have "mu_pending m = {#}" if "mu_expected m = mu_finished m"
  proof -
    have "size (log_responses (mu_log m)) + size (mu_running m) + size (mu_pending m) = length (mu_calls m)" using arg_cong [OF M, of size] by simp
    then have "size (mu_pending m) = 0" using C that unfolding mu_common_def by linarith
    then show ?thesis by simp
  qed
  then show ?thesis using C B F W assms(2,3)
    by (auto simp: mu_inv_def mu_wait_def mu_common_def mu_before_def mu_after_def)
qed

lemma mu_inv_report:
  assumes "mu_inv n v outcome m" "mu_phase m = MuReporting is"
  shows "mu_inv n v outcome (mu_report is m)"
  using assms
  by (cases "is") (auto simp: mu_inv_def mu_report_def mu_common_def mu_after_def)

lemma mu_inv_respond:
  assumes "mu_inv n v outcome m" "i \<in># mu_pending m"
  shows "mu_inv n v outcome (mu_respond i m)"
proof (cases "mu_timeout_reached m")
  case True
  have "\<not> mu_before n outcome m" using True by (simp add: mu_before_def)
  then show ?thesis using assms True
    by (auto simp: mu_inv_def mu_respond_def Let_def mu_common_def mu_after_def split: multi_phase.splits)
next
  case False
  have B: "mu_before n outcome m" and C: "mu_common n outcome m"
    using assms(1) False by (auto simp: mu_inv_def mu_after_def split: multi_phase.splits)
  have "count (mset (mu_calls m) + (if mu_uncounted m then {#mu_started m#} else {#})) i \<le> 1"
    using C mu_accepted_count [of outcome "mu_started m" i] mu_accepted_set [of "mu_started m" outcome "mu_started m"]
    by (auto simp: mu_common_def count_eq_zero_iff)
  then have cnt: "count (log_responses (mu_log m) + mu_running m + mu_pending m) i \<le> 1" using B by (simp add: mu_before_def)
  have one: "1 \<le> count (mu_pending m) i" using assms(2) by (simp add: Suc_le_eq)
  have "count (log_responses (mu_log m)) i = 0" "count (mu_running m) i = 0" "count (mu_pending m) i - 1 = 0"
    using cnt one unfolding count_union by linarith+
  then have "count (log_responses (mu_log m)) i = 0" "count (mu_running m) i = 0" "count (mu_pending m - {#i#}) i = 0" by simp_all
  then have no: "i \<notin># log_responses (mu_log m)" "i \<notin># mu_running m" "i \<notin># mu_pending m - {#i#}"
    by (simp_all only: not_in_iff)
  obtain P where P: "mu_pending m = add_mset i P" using assms(2) by (metis multi_member_split)
  have "mu_before n outcome (mu_respond i m)"
    using B no False by (auto simp: P mu_before_def mu_respond_def Let_def)
  moreover have "mu_common n outcome (mu_respond i m)"
    using C False by (simp add: mu_common_def mu_respond_def Let_def)
  ultimately show ?thesis using assms(1) False
    by (auto simp: mu_inv_def mu_respond_def Let_def mu_after_def split: multi_phase.splits)
qed

lemma mu_inv_callback:
  assumes "mu_inv n v outcome m" "i \<in># mu_running m"
  shows "mu_inv n v outcome (mu_callback i state m)"
proof -
  obtain R where R: "mu_running m = add_mset i R" using assms(2) by (metis multi_member_split)
  have r: "log_responses (mu_log (mu_callback i state m)) = add_mset i (log_responses (mu_log m))" "log_timeouts (mu_log (mu_callback i state m)) = log_timeouts (mu_log m)"
    "mu_running (mu_callback i state m) = R"
    by (simp_all add: mu_callback_def R)
  have C: "mu_common n outcome (mu_callback i state m)"
    using assms(1) r by (simp add: mu_inv_def mu_common_def R) (simp add: mu_callback_def)
  have B: "mu_before n outcome m \<Longrightarrow> mu_before n outcome (mu_callback i state m)"
    using r by (simp add: mu_before_def R) (simp add: mu_callback_def)
  have A: "mu_after n v outcome is m \<Longrightarrow> mu_after n v outcome is (mu_callback i state m)" for "is"
    using r by (simp add: mu_after_def R) (simp add: mu_callback_def)
  have "mu_finished m \<noteq> mu_callbacks m" using assms(1) by (simp add: mu_inv_def mu_common_def R)
  moreover have "mu_phase (mu_callback i state m) = mu_phase m" "mu_started (mu_callback i state m) = mu_started m" "mu_uncounted (mu_callback i state m) = mu_uncounted m"
    by (simp_all add: mu_callback_def)
  ultimately show ?thesis using assms(1) A B C by (auto simp: mu_inv_def split: multi_phase.splits)
qed

lemma mu_step_inv:
  assumes "mu_step n v outcome m m'" "mu_inv n v outcome m" "\<forall>i < n. outcome i \<noteq> StRefusedAnswered"
  shows "mu_inv n v outcome m'"
  using assms(1)
proof cases
  case start
  then show ?thesis using mu_inv_start assms(2,3) by blast
next
  case wait
  then show ?thesis using mu_inv_wait assms(2) by blast
next
  case (report "is")
  then show ?thesis using mu_inv_report assms(2) by blast
next
  case join
  then show ?thesis using assms(2)
    by (auto simp: mu_inv_def mu_common_def mu_after_def)
next
  case (respond i)
  then show ?thesis using mu_inv_respond assms(2) by blast
next
  case (callback i state)
  then show ?thesis using mu_inv_callback assms(2) by blast
qed

lemma mu_reachable_inv:
  assumes "mu_reachable n v outcome m" "0 < n" "\<forall>i < n. outcome i \<noteq> StRefusedAnswered"
  shows "mu_inv n v outcome m"
  using assms(1) unfolding mu_reachable_def
  by (induction rule: rtranclp_induct) (use mu_inv_new mu_step_inv assms(2,3) in blast)+

subsection \<open>What the caller gets\<close>

lemma mu_returned:
  assumes "mu_inv n v outcome m" "mu_phase m = MuReturned"
  shows "mset (map fst (mu_log m)) = mset (mu_accepted outcome n) \<and>
    (mu_success m \<longleftrightarrow> (\<forall>i < n. outcome i = StAccepted) \<and> (\<forall>(i, report) \<in> set (mu_log m). report \<noteq> None))"
proof -
  have C: "mu_common n outcome m" and A: "mu_after n v outcome [] m" and J: "mu_finished m = mu_callbacks m"
    using assms by (simp_all add: mu_inv_def)
  have "size (mu_running m) = 0" using C J unfolding mu_common_def by linarith
  then have R: "mu_running m = {#}" by simp
  have calls: "mu_calls m = mu_accepted outcome n" using C A by (simp add: mu_common_def mu_after_def)
  have "log_responses (mu_log m) + log_timeouts (mu_log m) = mset (mu_calls m)"
    using A R multiset_partition [of "mset (mu_calls m)" "mu_timeouted m"] by (simp add: mu_after_def add.commute)
  moreover have l: "log_responses l + log_timeouts l = mset (map fst l)" for l
    by (induction l rule: rev_induct) auto
  ultimately have 1: "mset (map fst (mu_log m)) = mset (mu_accepted outcome n)" by (simp add: calls)
  have "mu_expected m = mu_finished m \<longleftrightarrow> size (mset (map fst (mu_log m))) = size (log_responses (mu_log m))"
    unfolding 1 using C R by (simp add: mu_common_def calls)
  also have "\<dots> \<longleftrightarrow> log_timeouts (mu_log m) = {#}" unfolding l [symmetric] by simp
  also have "\<dots> \<longleftrightarrow> (\<forall>(i, report) \<in> set (mu_log m). report \<noteq> None)" by (auto simp: log_timeouts_def filter_empty_conv)
  finally show ?thesis using 1 A by (simp add: mu_after_def)
qed

text \<open>
  C16. The blocking call of a client with several services, however the callbacks of the calls and the timeout fall between the steps of the caller: when it
  returns, the user's callback has been called exactly once for every call that was accepted, with a response or with the report of a timeout, and for
  no other; and it returns true exactly if all calls were accepted and none was reported as timed out. What the responses say does not
  count: true is returned for calls that all failed, where the documentation promises it for calls that were all
  successful. (For calls that are refused without an answer; see below for the others.)
\<close>

theorem multi_call_reports_once:
  assumes "mu_reachable n v outcome m" "0 < n" "\<forall>i < n. outcome i \<noteq> StRefusedAnswered" "mu_phase m = MuReturned"
  shows "mset (map fst (mu_log m)) = mset (mu_accepted outcome n) \<and>
    (mu_success m \<longleftrightarrow> (\<forall>i < n. outcome i = StAccepted) \<and> (\<forall>(i, report) \<in> set (mu_log m). report \<noteq> None))"
  by (rule mu_returned [OF mu_reachable_inv [OF assms(1-3)] assms(4)])

text \<open>Every step is progress.\<close>

definition mu_left :: "nat \<Rightarrow> multi_call \<Rightarrow> nat" where
  "mu_left n m = (case mu_phase m of
      MuStarting \<Rightarrow> 6 * (n - mu_started m) + length (mu_calls m) + n + 5 - (if mu_uncounted m then 4 else 0)
    | MuWaiting \<Rightarrow> length (mu_calls m) + 4 | MuReporting is \<Rightarrow> length is + 3 | MuJoining \<Rightarrow> 1 | MuReturned \<Rightarrow> 0) +
     2 * size (mu_pending m) + size (mu_running m)"

lemma mu_progress:
  assumes "mu_inv n v outcome m" "mu_phase m \<noteq> MuReturned"
  shows "\<exists>m'. mu_step n v outcome m m'"
proof (cases "mu_pending m = {#} \<and> mu_running m = {#}")
  case False
  then show ?thesis using mu_step.respond mu_step.callback by (metis multiset_nonemptyE)
next
  case True
  show ?thesis
  proof (cases "mu_phase m")
    case MuWaiting
    then have "mu_common n outcome m" "mu_before n outcome m" "\<not> mu_uncounted m" using assms(1) by (simp_all add: mu_inv_def)
    then have "log_responses (mu_log m) = mset (mu_calls m)" "mu_expected m = length (mu_calls m)" "mu_finished m = size (log_responses (mu_log m))"
      using True by (simp_all add: mu_common_def mu_before_def)
    then have "mu_expected m = mu_finished m" by simp
    then show ?thesis using MuWaiting mu_step.wait by blast
  next
    case MuJoining
    then have "mu_finished m = mu_callbacks m" using assms(1) True by (simp add: mu_inv_def mu_common_def)
    then show ?thesis using MuJoining mu_step.join by blast
  qed (use assms mu_step.start mu_step.report in blast)+
qed

lemma mu_step_left_phase:
  assumes "mu_step n v outcome m m'" "mu_inv n v outcome m"
  shows "mu_left n m' < mu_left n m"
proof (cases "mu_phase m = MuStarting")
  case True
  then have *: "mu_started m \<le> n" "mu_uncounted m \<longrightarrow> mu_started m < n"
    using assms(2) by (simp_all add: mu_inv_def mu_common_def mu_before_def)
  show ?thesis
    using assms(1)
  proof cases
    case start
    then show ?thesis using True * by (cases "outcome (mu_started m)") (auto simp: mu_left_def mu_start_def Let_def)
  next
    case (respond i)
    then obtain P where "mu_pending m = add_mset i P" by (metis multi_member_split)
    then show ?thesis using respond True by (auto simp: mu_left_def mu_respond_def Let_def)
  next
    case (callback i state)
    then obtain P where "mu_running m = add_mset i P" by (metis multi_member_split)
    then show ?thesis using callback True by (auto simp: mu_left_def mu_callback_def)
  qed (use True in simp_all)
next
  case False
  show ?thesis
    using assms(1)
  proof cases
    case wait
    then show ?thesis by (auto simp: mu_left_def mu_wait_def)
  next
    case (report "is")
    then show ?thesis by (cases "is") (auto simp: mu_left_def mu_report_def)
  next
    case join
    then show ?thesis by (auto simp: mu_left_def)
  next
    case (respond i)
    then obtain P where "mu_pending m = add_mset i P" by (metis multi_member_split)
    then show ?thesis using respond False by (cases "mu_phase m") (auto simp: mu_left_def mu_respond_def Let_def)
  next
    case (callback i state)
    then obtain P where "mu_running m = add_mset i P" by (metis multi_member_split)
    then show ?thesis using callback False by (cases "mu_phase m") (auto simp: mu_left_def mu_callback_def)
  qed (use False in simp)
qed

text \<open>
  C18. And it returns, provided no call is refused after its callback was called with an error (which an empty method name does, see below): if the
  callback of every accepted call is called some day, as the sessions do, the steps come to an end, and they end
  nowhere but with the return of the call.
\<close>

theorem multi_call_returns:
  assumes "mu_reachable n v outcome m" "0 < n" "\<forall>i < n. outcome i \<noteq> StRefusedAnswered"
  shows "(\<nexists>f. f 0 = m \<and> (\<forall>i :: nat. mu_step n v outcome (f i) (f (Suc i)))) \<and>
    (mu_phase m \<noteq> MuReturned \<longrightarrow> (\<exists>m'. mu_step n v outcome m m'))"
proof (intro conjI impI)
  show "\<nexists>f. f 0 = m \<and> (\<forall>i :: nat. mu_step n v outcome (f i) (f (Suc i)))"
  proof
    assume "\<exists>f. f 0 = m \<and> (\<forall>i :: nat. mu_step n v outcome (f i) (f (Suc i)))"
    then obtain f where f: "f 0 = m" "\<And>i. mu_step n v outcome (f i) (f (Suc i))" by blast
    have "mu_reachable n v outcome (f i)" for i
      using assms(1) f unfolding mu_reachable_def by (induction i) (auto intro: rtranclp.rtrancl_into_rtrancl)
    then have "mu_left n (f (Suc i)) < mu_left n (f i)" for i
      using mu_step_left_phase [OF f(2)] mu_reachable_inv assms(2,3) by blast
    then have "\<forall>i. (f (Suc i), f i) \<in> measure (mu_left n)" by simp
    then show False using wf_measure unfolding wf_iff_no_infinite_down_chain by blast
  qed
qed (rule mu_progress [OF mu_reachable_inv [OF assms]])

subsection \<open>Calls that are refused after an answer\<close>

text \<open>The asynchronous call without a name of a method: an error is answered and the call is refused.\<close>

lemma start_without_name:
  "sc_start_all z accepted [] request es c = Inr (rs, c', calls) \<Longrightarrow> \<forall>e \<in> set es. svc_GetClientByEntity e c \<noteq> None \<Longrightarrow>
    list_all (\<lambda>r. r = StRefusedAnswered) rs"
  by (induction es arbitrary: rs c calls)
    (auto simp: svc_CallWithCallbackAsync_def start_result_of_def split: option.splits sum.splits prod.splits)

lemma instances_known: "\<forall>e \<in> set (sc_GetClientInstances (Some c)). svc_GetClientByEntity e c \<noteq> None"
  by (auto simp: sc_GetClientInstances_def svc_GetServiceIDs_def svc_GetClientByEntity_def om_find_None_iff om_keys_def)

definition mu_stuck :: "nat \<Rightarrow> multi_call \<Rightarrow> bool" where
  "mu_stuck n m \<longleftrightarrow> (mu_phase m = MuStarting \<or> mu_phase m = MuWaiting \<and> mu_started m = n) \<and> mu_expected m = 0 \<and>
     mu_finished m = mu_started m \<and> \<not> mu_uncounted m \<and> mu_pending m = {#} \<and> mu_running m = {#} \<and> mu_started m \<le> n"

lemma mu_step_stuck:
  assumes "mu_step n False outcome m m'" "mu_stuck n m" "0 < n" "\<forall>i < n. outcome i = StRefusedAnswered"
  shows "mu_stuck n m'"
  using assms by cases (auto simp: mu_stuck_def mu_start_def Let_def)

text \<open>
  C35. A blocking call without a timeout and with an empty method name never returns as soon as there is one service: each of the calls is
  answered by an error before it is refused, the answers are counted, the refused calls are not, and the
  caller waits for two counts to become equal that never will. (The code says that the callback of a refused call is never called.)
\<close>

theorem empty_method_name_blocks:
  assumes "sc_start_all z accepted [] request (sc_GetClientInstances (Some c)) c = Inr (rs, c', calls)" "rs \<noteq> []"
    "mu_reachable (length rs) False (nth rs) m"
  shows "mu_phase m \<noteq> MuReturned \<and> mu_left (length rs) m > 0 \<and>
    (mu_phase m = MuWaiting \<longrightarrow> (\<nexists>m'. mu_step (length rs) False (nth rs) m m'))"
proof -
  have o: "\<forall>i < length rs. rs ! i = StRefusedAnswered" using start_without_name [OF assms(1) instances_known] by (simp add: list_all_length)
  have n: "0 < length rs" using assms(2) by simp
  have S: "mu_stuck (length rs) m"
    using assms(3) unfolding mu_reachable_def
  proof (induction rule: rtranclp_induct)
    case base
    then show ?case using assms(2) by (simp add: mu_stuck_def mu_new_def)
  next
    case (step y w)
    then show ?case using mu_step_stuck n o by blast
  qed
  have "\<nexists>m'. mu_step (length rs) False (nth rs) m m'" if "mu_phase m = MuWaiting"
    using S that n by (auto simp: mu_stuck_def elim!: mu_step.cases)
  moreover have "mu_left (length rs) m > 0" using S by (auto simp: mu_stuck_def mu_left_def)
  ultimately show ?thesis using S by (auto simp: mu_stuck_def)
qed

subsection \<open>Examples: one service whose method fails, and a call without a method name\<close>

abbreviation wit_step where "wit_step \<equiv> mu_step 1 True (\<lambda>_. StAccepted)"

definition wit_waiting :: multi_call where
  "wit_waiting = (mu_start 1 (\<lambda>_. StAccepted) ^^ 3) (mu_new 1)"

definition wit_returned :: multi_call where
  "wit_returned = (mu_report [] (mu_report [0] (mu_wait True (mu_callback 0 CaFailed (mu_respond 0 wit_waiting)))))\<lparr>mu_phase := MuReturned\<rparr>"

lemmas wit_multi_defs = wit_waiting_def wit_returned_def mu_start_def mu_new_def mu_wait_def mu_report_def mu_respond_def mu_callback_def
  numeral_3_eq_3 Let_def

lemma wit_returned_reachable: "mu_reachable 1 True (\<lambda>_. StAccepted) wit_returned"
proof -
  have 1: "wit_step\<^sup>*\<^sup>* (mu_new 1) ((mu_start 1 (\<lambda>_. StAccepted) ^^ k) (mu_new 1))" if "k \<le> 3" for k
    using that
  proof (induction k)
    case (Suc k)
    have "mu_phase ((mu_start 1 (\<lambda>_. StAccepted) ^^ k) (mu_new 1)) = MuStarting"
      using Suc.prems by (cases k; cases "k - 1"; simp add: wit_multi_defs)
    from mu_step.start [OF this, of 1 True "\<lambda>_. StAccepted"] Suc show ?case by (auto intro: rtranclp.rtrancl_into_rtrancl)
  qed simp
  let ?a = "mu_respond 0 wit_waiting"
  let ?b = "mu_callback 0 CaFailed ?a"
  let ?c = "mu_wait True ?b"
  have 2: "wit_step wit_waiting ?a" by (rule mu_step.respond) (simp add: wit_multi_defs)
  have 3: "wit_step ?a ?b" by (rule mu_step.callback) (simp add: wit_multi_defs)
  have 4: "wit_step ?b ?c" by (rule mu_step.wait) (simp_all add: wit_multi_defs)
  have 5: "wit_step ?c (mu_report [0] ?c)" by (rule mu_step.report) (simp add: wit_multi_defs)
  have 6: "wit_step (mu_report [0] ?c) (mu_report [] (mu_report [0] ?c))" by (rule mu_step.report) (simp add: wit_multi_defs)
  have 7: "wit_step (mu_report [] (mu_report [0] ?c)) wit_returned"
    unfolding wit_returned_def by (rule mu_step.join) (simp_all add: wit_multi_defs)
  show ?thesis
    unfolding mu_reachable_def using 1 [of 3, folded wit_waiting_def] 2 3 4 5 6 7 by (simp add: rtranclp.rtrancl_into_rtrancl)
qed

text \<open>The only call fails, and true is returned.\<close>

theorem multi_call_reports_once_witness:
  "mu_log wit_returned = [(0, Some CaFailed)] \<and> mset (map fst (mu_log wit_returned)) = {#0#} \<and> mu_success wit_returned"
proof -
  have "mu_phase wit_returned = MuReturned" "mu_log wit_returned = [(0, Some CaFailed)]" by (simp_all add: wit_multi_defs)
  then show ?thesis using multi_call_reports_once [OF wit_returned_reachable] by (auto simp: mu_accepted_def)
qed

theorem multi_call_returns_witness:
  "\<exists>y. wit_step\<^sup>*\<^sup>* (mu_new 1) y \<and> mu_phase y = MuReturned"
proof -
  have "mu_reachable 1 True (\<lambda>_. StAccepted) (mu_new 1)" by (simp add: mu_reachable_def)
  from multi_call_returns [OF this] obtain y where y: "wit_step\<^sup>*\<^sup>* (mu_new 1) y" "\<nexists>z. wit_step y z"
    using ends_somewhere [of "mu_new 1" wit_step] by auto
  then have "mu_phase y = MuReturned"
    using multi_call_returns [of 1 True "\<lambda>_. StAccepted" y] unfolding mu_reachable_def by auto
  then show ?thesis using y(1) by blast
qed

theorem empty_method_name_blocks_witness:
  "\<nexists>m'. mu_step 1 False (nth [StRefusedAnswered]) ((mu_new 1)\<lparr>mu_finished := 1, mu_callbacks := 1, mu_log := [(0, Some CaFailed)], mu_success := False,
      mu_started := 1, mu_phase := MuWaiting\<rparr>) m'"
proof -
  let ?c = "fst (wit_client [wit_heard])" and ?o = "nth [StRefusedAnswered]"
  have i: "sc_GetClientInstances (Some ?c) = [wit_entity]"
    by (simp add: sc_GetClientInstances_def svc_GetServiceIDs_def wit_client_def wit_heard_def svc_new_def svc_RegisterService_def wit_entity_def Let_def)
  obtain s where s: "svc_GetClientByEntity wit_entity ?c = Some s"
    using wit_session(1) by (simp add: svc_GetClientByEntity_def session_of_def)
  have a: "sc_start_all wire_pz (\<lambda>_. True) [] [1] (sc_GetClientInstances (Some ?c)) ?c = Inr ([StRefusedAnswered], ?c, [])"
    unfolding i by (simp add: svc_CallWithCallbackAsync_def s start_result_of_def)
  let ?m1 = "mu_start 1 ?o (mu_new 1)" and ?m2 = "mu_start 1 ?o (mu_start 1 ?o (mu_new 1))"
  have "mu_step 1 False ?o (mu_new 1) ?m1" by (rule mu_step.start) (simp add: wit_multi_defs)
  moreover have "mu_step 1 False ?o ?m1 ?m2" by (rule mu_step.start) (simp add: wit_multi_defs)
  ultimately have r: "mu_reachable (length [StRefusedAnswered]) False ?o ?m2"
    unfolding mu_reachable_def by (auto intro: rtranclp.rtrancl_into_rtrancl)
  have m: "?m2 = (mu_new 1)\<lparr>mu_finished := 1, mu_callbacks := 1, mu_log := [(0, Some CaFailed)], mu_success := False, mu_started := 1, mu_phase := MuWaiting\<rparr>"
    by (simp add: wit_multi_defs)
  show ?thesis using empty_method_name_blocks [OF a _ r] unfolding m by simp
qed

end
