(* ===== verification/Spec2Isabelle.thy ===== *)
theory Spec2Isabelle
  imports Counter_Cache Message_Drop Circular_Queue Timeout_Provider Desc_Gate Sample_Applier
    Handshake Shm_Transfer Registration_Link Registration_Provider
    Registration_Receiver Net_Layers Udp_Address Monitoring_Impl Shm_Writer
    Service_Multi_Call
begin

text \<open>
  Verification of the core of eCAL (\<open>ecal/core/src\<close>, \<open>ecal/service/ecal_service/src\<close>): publish and subscribe between
  processes, the registration through which they find each other, the shared memory both use on one host, and
  service calls.

  \<^bold>\<open>The parts and how they interact.\<close> A process announces its publishers, subscribers, services, clients and
  itself by registration samples, sent in every registration interval over shared memory or UDP.
  A receiver filters the samples (sample applier), notices entities that fall silent (timeout
  provider, over an expiration map), keeps what is known of all entities (description gate) and hands
  samples to the gates, which find the local publishers and subscribers of a topic. A publisher and a
  subscriber agree on a transport layer by what they read in each other's samples; the publisher starts
  its writer of that layer. Payload goes through a memory file the publisher writes and signals, and each
  subscribing process observes; the subscriber filters by clock, counts drops and calls back. A client that hears of a
  service by its registration opens a session to it. The session and the one at the server's end agree on a protocol
  version and exchange requests and responses; the server calls the user's method, the client gives the response to the
  callback of the call.

  \<^bold>\<open>Theories.\<close>
  \<^item> \<open>Ecal_Prelude\<close>: machine integers, list lemmas, numbers as text. \<open>Std_Map\<close>: \<open>std::map\<close> as an
    association list in key order, the locale \<open>ordered_map\<close> with its laws.
  \<^item> \<open>Counter_Cache\<close>, \<open>Message_Drop\<close>, \<open>Frequency\<close>, \<open>Expanding_Vector\<close> (\<open>util/\<close>): the windowed memory of
    counters already seen, the count of lost messages, the frequency of ticks, the vector that keeps its elements.
  \<^item> \<open>Core_Types\<close> (\<open>serialization/ecal_struct_*.h\<close>): the structs of registration and payload with their
    \<open>operator==\<close> and \<open>clear()\<close>.
  \<^item> \<open>Expiration_Map\<close> (\<open>util/ecal_expmap.h\<close>), \<open>Timeout_Provider\<close>, \<open>Sample_Applier\<close>
    (\<open>registration/ecal_registration_*\<close>), \<open>Desc_Gate\<close> (\<open>ecal_descgate.cpp\<close>): the receiving side of the registration.
  \<^item> \<open>Subscriber\<close>, \<open>Publisher\<close>, \<open>Pub_Sub_Gates\<close> (\<open>pubsub/\<close>), \<open>Handshake\<close>: the two ends, the gates that route to
    them, and the exchange of registrations between them.
  \<^item> \<open>Mem_File_Db\<close>, \<open>Mem_File_Header\<close>, \<open>Mem_File\<close>, \<open>Sync_Mem_File\<close>, \<open>Mem_File_Pool\<close> (\<open>io/shm/\<close>), \<open>Named_Event\<close>
    (\<open>ecal_event.cpp\<close>), \<open>Shm_Transfer\<close>: memory files, their reference counts per process, the writer that signals and
    waits, the observer that waits and reads, and both together.
  \<^item> \<open>Circular_Queue\<close>, \<open>Broadcast\<close>, \<open>Broadcast_Channel\<close>, \<open>Registration_Shm\<close> (\<open>registration/shm/\<close>): the queue of events in
    shared memory, the broadcast of events, payload files announced by events, the registration over them.
  \<^item> \<open>Protozero\<close>, \<open>Registration_Wire\<close> (\<open>serialization/ecal_serialize_sample_registration.cpp\<close>): samples as protocol buffer
    messages, over an interface of the protozero library with its documented laws and the wire format as an
    instance of it. \<open>Registration_Link\<close>: the registration over shared memory with this serialization in it.
  \<^item> \<open>Callback_Thread\<close> (\<open>util/ecal_thread.h\<close>), \<open>Registration_Provider\<close> (\<open>ecal_registration_provider.cpp\<close>,
    \<open>ecal_process_registration.cpp\<close>, \<open>udp/\<close>): the thread that runs a callback in intervals as a step relation over its
    critical sections, and the sending side of the registration interleaved with it. \<open>Registration_Receiver\<close>: the
    receiving side of a process, from the sample that arrives to the gates, with its timeouts.

  \<^item> \<open>Payload_Wire\<close> (\<open>serialization/ecal_serialize_sample_payload.cpp\<close>), \<open>Net_Layers\<close> (\<open>readwrite/udp\<close>, \<open>readwrite/tcp\<close>):
    payload samples as messages, and the writers and reader layers of UDP and TCP over them.
  \<^item> \<open>Shm_Writer\<close> (\<open>readwrite/shm\<close>): the shared memory writer of a publisher, over one or several memory files, and the
    reader layer that has them observed.
  \<^item> \<open>Udp_Address\<close> (\<open>io/udp/ecal_udp_topic2mcast.h\<close>, \<open>ecal_udp_configurations.cpp\<close>): the addresses UDP samples are sent to.
  \<^item> \<open>Monitoring_Impl\<close> (\<open>monitoring/\<close>): the monitoring, which keeps an entry of every entity from its samples.
  \<^item> \<open>Service_Wire\<close> (\<open>serialization/ecal_serialize_service.cpp\<close>), \<open>Service_Protocol\<close> (\<open>protocol_layout.h\<close>,
    \<open>protocol_v1.cpp\<close>): requests and responses as messages, and how messages lie in the stream of bytes.
  \<^item> \<open>Client_Session\<close>, \<open>Server_Session\<close> (\<open>client_session_impl_v1.cpp\<close>, \<open>server_session_impl_v1.cpp\<close>): the two ends of one
    connection as state machines over the results of their asynchronous operations. \<open>Service_Link\<close>: both over a
    connection that is not lost.
  \<^item> \<open>Service_Server\<close>, \<open>Service_Client\<close> (\<open>service/ecal_service_server_impl.cpp\<close>, \<open>ecal_service_client_impl.cpp\<close>,
    \<open>ecal_clientgate.cpp\<close>, \<open>ecal_servicegate.cpp\<close>): a service with its methods, a client with its sessions, their gates.
    \<open>Service_Call\<close>: a call from end to end. \<open>Service_Multi_Call\<close> (\<open>ecal_service_client.cpp\<close>): the calls of a client to all its
    services, the blocking one as a step relation over its critical sections.

  \<^bold>\<open>How code is modelled.\<close> A class is a record of its members, a member function a function from the state
  (and its arguments) to the result and the new state. Definitions keep the names of the code with a
  prefix per class (\<open>sb_\<close> for \<open>CSubscriberImpl\<close>, \<open>pb_\<close> for \<open>CPublisherImpl\<close>, \<open>mf_\<close> for \<open>CMemoryFile\<close>, \<open>sy_\<close> for
  \<open>CSyncMemoryFile\<close>, \<open>ob_\<close> for \<open>CMemFileObserver\<close>, \<open>bc_\<close> for \<open>CMemoryFileBroadcast\<close>, \<open>cs_\<close> and \<open>ss_\<close> for the
  sessions, \<open>srv_\<close> and \<open>svc_\<close> for \<open>CServiceServerImpl\<close> and \<open>CServiceClientImpl\<close>). Integers have their width as
  words, enumerations have a constructor for numbers without an enumerator; C++ undefined behaviour and exceptions are \<open>None\<close> or the left of a sum. Calls to the outside
  (user callbacks, log messages that matter, signals) are a list of effects that the operation returns. Memory the
  processes share is a \<open>shm_world\<close>: objects with names, and each process has its own map of open files over it.
  Clock values, random numbers, the outcome of waiting for an event and of taking a named mutex are arguments.

  \<^bold>\<open>What the lemmas show.\<close>
  Utilities: the answers of the counter cache are never wrong, drop counts are exact for increasing counters and
  wrap for duplicates, the queue keeps the last elements in order, expired entries are exactly the old ones.
  Registration: the timeout provider refines a map from entities to their last sign of life, the gate refines the
  map of registered entities and reports new and deleted ones in alternation. Publish and subscribe: counts agree
  with the connection map after every operation, connection events alternate, layers are consistent with the writers
  that exist, sending delivers to every active layer, and the registrations of both ends connect them over shared memory. Shared
  memory: reference counts are those of a simple specification, an observer reports strictly increasing clocks and
  gives up after its timeout, what is written is delivered, and broadcast registration lists arrive exactly once and in order.
  Serialization: samples come back as they were written, into whatever the target held, and no input breaks a vector.
  The monitoring lists exactly the entities with a live registration, field by field as they registered (but for the
  versions the code drops), and agrees with the description gate; a topic is never sent to the address of the registration.
  Services: a session answers every call it accepted once, also when the connection fails, and comes to rest; the server's
  session serves exactly the requests that arrive, in their order; over a connection that is not lost every call is
  executed once and gets the response that the user's method means by it; the blocking call reports each accepted
  call once, and returns unless a call was refused after an answer; a client reports services as connected and
  disconnected in alternation.
  A publisher that falls silent is connected to no subscriber after the next check for timeouts.
  Several theorems state what the code does where this is not what it means to do (stale elements of
  reused vectors, duplicates, timeouts that are forgotten, failed opens and sessions that are never repeated, calls
  without a method name that block for ever, log messages read from outside of a literal, described methods that throw).

  \<^bold>\<open>Bounds and fuel.\<close> Iterating a queue (\<open>cq_iterate\<close>, \<open>bc_collect\<close>) has fuel; the number of elements the queue can hold
  is enough, and the theorems assume just this bound. The thread of an observer (\<open>ob_Observe\<close>) runs over
  a list of rounds, each with what the outside does in it; that it ends is stated for silent rounds beyond
  the timeout. Messages of service calls are shorter than 4 GiB where their sizes are read back: the code truncates
  larger ones. Steps of a link and of a blocking call decrease a measure, so that their runs end without fuel. The header of a memory file has 24 bytes, the content header 64, as the code writes them.

  \<^bold>\<open>Not modelled.\<close> Threads and locks: an operation runs to its end (the code holds the mutex of its object), interleaving is
  the order of operations in a list; the exceptions are the callback thread, the stop of the provider and the blocking service call,
  which are split into the steps that can interleave. Sockets (UDP, TCP, the connections of services with the server that accepts them),
  named mutexes and the operating system's side of events are libraries or system calls; calls of the operating system fail in the
  ways their arguments say and in no other. Counters of registrations that would overflow a signed integer wrap.
  Logging, the serialization of the monitoring, configuration, process information, plug-ins, the
  applications (recorder, launcher, monitor, player), the measurement library, language bindings and
  vendored code are outside; \<open>PROJECT.json\<close> lists them with reasons.
\<close>

end
